(* ===== verification/Js_Prelude.thy ===== *)
theory Js_Prelude
  imports Complex_Main "HOL-Library.Char_ord" "HOL-Library.Option_ord"
begin

text \<open>
  The part of JavaScript that the web client's TypeScript sources rest on, and the generic
  lemmas shared by the component theories.

  \<^item> \<open>jsnum\<close>: numbers, as exact rationals with \<open>NaN\<close> and the infinities (rounding of doubles
    is not modelled), with \<open>Number(s)\<close> and the conversion back to a string;
  \<^item> \<open>jsval\<close>: values; an object is an association list in property order, and \<open>obj_put\<close>
    keeps the order the language prescribes (integer keys ascending, then insertion order);
  \<^item> \<open>'a nullable\<close>: a value that may be \<open>undefined\<close> or \<open>null\<close>;
  \<^item> \<open>'a res\<close>: the outcome of code that may throw.
  Strings are lists of characters.
\<close>

section \<open>Named theorem collections\<close>

named_theorems js_simps \<open>evaluation of the JavaScript primitives\<close>
named_theorems frame_simps \<open>what an operation leaves unchanged\<close>

section \<open>Errors and nullable values\<close>

datatype js_error =
    TypeError    \<comment> \<open>reading a property of undefined, calling a missing method\<close>
  | RangeError   \<comment> \<open>call stack exhausted\<close>

type_synonym 'a res = "js_error + 'a"

definition bind_r :: "'a res \<Rightarrow> ('a \<Rightarrow> 'b res) \<Rightarrow> 'b res" where
  "bind_r m f = (case m of Inl e \<Rightarrow> Inl e | Inr x \<Rightarrow> f x)"

lemma bind_r_simps [simp]:
  "bind_r (Inl e) f = Inl e"
  "bind_r (Inr x) f = f x"
  by (simp_all add: bind_r_def)

lemma bind_r_eq_Inr [simp]: "bind_r m f = Inr y \<longleftrightarrow> (\<exists>x. m = Inr x \<and> f x = Inr y)"
  by (cases m) simp_all

lemma bind_r_cong [fundef_cong]:
  "m = m' \<Longrightarrow> (\<And>x. m' = Inr x \<Longrightarrow> f x = f' x) \<Longrightarrow> bind_r m f = bind_r m' f'"
  by (cases m') simp_all

text \<open>Running a fallible function over a list stops at the first error.\<close>

fun map_r :: "('a \<Rightarrow> 'b res) \<Rightarrow> 'a list \<Rightarrow> 'b list res" where
  "map_r f [] = Inr []"
| "map_r f (x # xs) = bind_r (f x) (\<lambda>y. bind_r (map_r f xs) (\<lambda>ys. Inr (y # ys)))"

lemma map_r_cong [fundef_cong]:
  "xs = ys \<Longrightarrow> (\<And>x. x \<in> set ys \<Longrightarrow> f x = g x) \<Longrightarrow> map_r f xs = map_r g ys"
  by (induction xs arbitrary: ys) (auto intro!: bind_r_cong)

lemma map_r_Inr: "map_r (\<lambda>x. Inr (f x)) xs = Inr (map f xs)"
  by (induction xs) simp_all

lemma map_r_total: "(\<And>x. x \<in> set xs \<Longrightarrow> f x = Inr (g x)) \<Longrightarrow> map_r f xs = Inr (map g xs)"
  by (induction xs) simp_all

lemma map_r_length: "map_r f xs = Inr ys \<Longrightarrow> length ys = length xs"
  by (induction xs arbitrary: ys) auto

lemma map_r_nth: "map_r f xs = Inr ys \<Longrightarrow> i < length xs \<Longrightarrow> f (xs ! i) = Inr (ys ! i)"
proof (induction xs arbitrary: ys i)
  case (Cons x xs)
  then show ?case by (cases i) auto
qed simp

datatype 'a nullable = Undefined | Null | Val 'a

definition opt_nullable :: "'a option \<Rightarrow> 'a nullable" where
  "opt_nullable x = (case x of None \<Rightarrow> Undefined | Some y \<Rightarrow> Val y)"

text \<open>A nullable string in a condition: \<open>undefined\<close>, \<open>null\<close> and the empty string are falsy.\<close>

definition str_truthy :: "string nullable \<Rightarrow> bool" where
  "str_truthy s = (case s of Val t \<Rightarrow> t \<noteq> [] | _ \<Rightarrow> False)"

lemma str_truthy_simps [simp]:
  "str_truthy Undefined = False" "str_truthy Null = False" "str_truthy (Val t) = (t \<noteq> [])"
  by (simp_all add: str_truthy_def)

section \<open>Numbers\<close>

datatype jsnum = NInf | Fin rat | PInf | NaN

text \<open>
  The order used when numbers are sorted by \<open>a - b\<close>. \<open>NaN\<close> is placed last; the sources
  filter it out before they sort.
\<close>

instantiation jsnum :: linorder
begin

fun less_eq_jsnum :: "jsnum \<Rightarrow> jsnum \<Rightarrow> bool" where
  "less_eq_jsnum NInf _ = True"
| "less_eq_jsnum (Fin a) NInf = False"
| "less_eq_jsnum (Fin a) (Fin b) = (a \<le> b)"
| "less_eq_jsnum (Fin a) _ = True"
| "less_eq_jsnum PInf y = (y = PInf \<or> y = NaN)"
| "less_eq_jsnum NaN y = (y = NaN)"

definition less_jsnum :: "jsnum \<Rightarrow> jsnum \<Rightarrow> bool" where
  "less_jsnum x y = (x \<le> y \<and> \<not> y \<le> x)"

instance
proof
  fix x y z :: jsnum
  show "(x < y) = (x \<le> y \<and> \<not> y \<le> x)" by (simp add: less_jsnum_def)
  show "x \<le> x" by (cases x) simp_all
  show "x \<le> y \<Longrightarrow> y \<le> z \<Longrightarrow> x \<le> z" by (cases x; cases y; cases z) simp_all
  show "x \<le> y \<Longrightarrow> y \<le> x \<Longrightarrow> x = y" by (cases x; cases y) simp_all
  show "x \<le> y \<or> y \<le> x" by (cases x; cases y) auto
qed

end

lemma jsnum_less_simps [simp]:
  "Fin a < Fin b \<longleftrightarrow> a < b"
  by (auto simp: less_jsnum_def)

text \<open>The addition of the language, and its \<open>===\<close> on numbers (\<open>NaN\<close> differs from itself).\<close>

fun num_add :: "jsnum \<Rightarrow> jsnum \<Rightarrow> jsnum" where
  "num_add NaN _ = NaN"
| "num_add _ NaN = NaN"
| "num_add (Fin a) (Fin b) = Fin (a + b)"
| "num_add PInf NInf = NaN"
| "num_add NInf PInf = NaN"
| "num_add PInf _ = PInf"
| "num_add _ PInf = PInf"
| "num_add NInf _ = NInf"
| "num_add _ NInf = NInf"

definition num_eq :: "jsnum \<Rightarrow> jsnum \<Rightarrow> bool" where
  "num_eq a b = (a = b \<and> a \<noteq> NaN)"

definition num_div :: "jsnum \<Rightarrow> rat \<Rightarrow> jsnum" where
  \<comment> \<open>division by a positive finite constant\<close>
  "num_div a q = (case a of Fin r \<Rightarrow> Fin (r / q) | _ \<Rightarrow> a)"

abbreviation int_num :: "int \<Rightarrow> jsnum" where
  "int_num i \<equiv> Fin (of_int i)"

subsection \<open>Decimal digits\<close>

definition is_digit :: "char \<Rightarrow> bool" where
  "is_digit c = (CHR ''0'' \<le> c \<and> c \<le> CHR ''9'')"

definition digit_val :: "char \<Rightarrow> nat" where
  "digit_val c = of_char c - 48"

definition digit_char :: "nat \<Rightarrow> char" where
  "digit_char d = char_of (48 + d)"

definition dec_val :: "string \<Rightarrow> nat" where
  "dec_val ds = foldl (\<lambda>acc c. acc * 10 + digit_val c) 0 ds"

fun nat_to_string :: "nat \<Rightarrow> string" where
  "nat_to_string n =
     (if n < 10 then [digit_char n] else nat_to_string (n div 10) @ [digit_char (n mod 10)])"

declare nat_to_string.simps [simp del]

definition int_to_string :: "int \<Rightarrow> string" where
  "int_to_string i = (if i < 0 then CHR ''-'' # nat_to_string (nat (- i)) else nat_to_string (nat i))"

subsection \<open>\<open>Number(s)\<close>\<close>

definition is_space :: "char \<Rightarrow> bool" where
  "is_space c = (of_char c \<in> {9, 10, 11, 12, 13, 32, 160 :: nat})"

definition js_trim :: "string \<Rightarrow> string" where
  "js_trim s = rev (dropWhile is_space (rev (dropWhile is_space s)))"

definition radix_digit :: "nat \<Rightarrow> char \<Rightarrow> nat option" where
  "radix_digit b c =
     (let n = of_char c;
          d = (if 48 \<le> n \<and> n \<le> 57 then n - 48
               else if 97 \<le> n \<and> n \<le> 102 then n - 87
               else if 65 \<le> n \<and> n \<le> 70 then n - 55 else 99)
      in if d < b then Some d else None)"

fun radix_val :: "nat \<Rightarrow> nat \<Rightarrow> string \<Rightarrow> nat option" where
  "radix_val b acc [] = Some acc"
| "radix_val b acc (c # cs) =
     (case radix_digit b c of None \<Rightarrow> None | Some d \<Rightarrow> radix_val b (acc * b + d) cs)"

definition parse_radix :: "nat \<Rightarrow> string \<Rightarrow> jsnum" where
  "parse_radix b ds =
     (if ds = [] then NaN
      else case radix_val b 0 ds of None \<Rightarrow> NaN | Some n \<Rightarrow> Fin (of_nat n))"

text \<open>An unsigned decimal literal: digits, an optional fraction, an optional exponent.\<close>

definition parse_exponent :: "rat \<Rightarrow> string \<Rightarrow> jsnum" where
  "parse_exponent m s =
     (case s of
        [] \<Rightarrow> NaN
      | c # cs \<Rightarrow>
          (let neg = (c = CHR ''-''); ds = (if c = CHR ''-'' \<or> c = CHR ''+'' then cs else s)
           in if ds = [] \<or> \<not> list_all is_digit ds then NaN
              else if neg then Fin (m / 10 ^ dec_val ds) else Fin (m * 10 ^ dec_val ds)))"

definition parse_unsigned :: "string \<Rightarrow> jsnum" where
  "parse_unsigned s =
     (let ip = takeWhile is_digit s; r1 = dropWhile is_digit s;
          dot = (r1 \<noteq> [] \<and> hd r1 = CHR ''.'');
          fp = (if dot then takeWhile is_digit (tl r1) else []);
          r2 = (if dot then dropWhile is_digit (tl r1) else r1);
          m = of_nat (dec_val (ip @ fp)) / 10 ^ length fp
      in if ip = [] \<and> fp = [] then NaN
         else case r2 of
           [] \<Rightarrow> Fin m
         | c # cs \<Rightarrow> if c = CHR ''e'' \<or> c = CHR ''E'' then parse_exponent m cs else NaN)"

fun num_neg :: "jsnum \<Rightarrow> jsnum" where
  "num_neg (Fin q) = Fin (- q)"
| "num_neg PInf = NInf"
| "num_neg NInf = PInf"
| "num_neg NaN = NaN"

definition num_sub :: "jsnum \<Rightarrow> jsnum \<Rightarrow> jsnum" where
  "num_sub a b = num_add a (num_neg b)"

definition parse_signed :: "string \<Rightarrow> jsnum" where
  "parse_signed s =
     (case s of
        [] \<Rightarrow> NaN
      | c # cs \<Rightarrow>
          (let body = (if c = CHR ''-'' \<or> c = CHR ''+'' then cs else s);
               v = (if body = ''Infinity'' then PInf else parse_unsigned body)
           in if c = CHR ''-'' then num_neg v else v))"

definition num_of_string :: "string \<Rightarrow> jsnum" where
  "num_of_string s =
     (let t = js_trim s; p = take 2 t in
      if t = [] then Fin 0
      else if p = ''0x'' \<or> p = ''0X'' then parse_radix 16 (drop 2 t)
      else if p = ''0o'' \<or> p = ''0O'' then parse_radix 8 (drop 2 t)
      else if p = ''0b'' \<or> p = ''0B'' then parse_radix 2 (drop 2 t)
      else parse_signed t)"

text \<open>
  The conversion of a number to a string. Integers print in full; a fraction prints at most
  twenty decimal places. The exponent notation that the language uses from \<open>10^21\<close> on and
  below \<open>10^-6\<close> is not modelled.
\<close>

fun frac_digits :: "nat \<Rightarrow> rat \<Rightarrow> string" where
  "frac_digits 0 r = []"
| "frac_digits (Suc k) r =
     (if r = 0 then []
      else digit_char (nat \<lfloor>10 * r\<rfloor>) # frac_digits k (10 * r - of_int \<lfloor>10 * r\<rfloor>))"

fun num_to_string :: "jsnum \<Rightarrow> string" where
  "num_to_string NaN = ''NaN''"
| "num_to_string PInf = ''Infinity''"
| "num_to_string NInf = ''-Infinity''"
| "num_to_string (Fin q) =
     (if q = of_int \<lfloor>q\<rfloor> then int_to_string \<lfloor>q\<rfloor>
      else (if q < 0 then ''-'' else []) @ int_to_string \<lfloor>\<bar>q\<bar>\<rfloor> @ ''.''
           @ frac_digits 20 (\<bar>q\<bar> - of_int \<lfloor>\<bar>q\<bar>\<rfloor>))"

subsection \<open>Printing and reading back\<close>

lemma digit_char_is_digit: "d < 10 \<Longrightarrow> is_digit (digit_char d)"
  by (auto simp: is_digit_def digit_char_def less_eq_char_def)

lemma digit_val_char: "d < 10 \<Longrightarrow> digit_val (digit_char d) = d"
  by (simp add: digit_val_def digit_char_def)

lemma dec_val_snoc: "dec_val (ds @ [c]) = dec_val ds * 10 + digit_val c"
  by (simp add: dec_val_def)

lemma nat_to_string_nonempty [simp]: "nat_to_string n \<noteq> []"
  by (subst nat_to_string.simps) simp

lemma nat_to_string_digits: "list_all is_digit (nat_to_string n)"
proof (induction n rule: nat_to_string.induct)
  case (1 n)
  then show ?case
    by (cases "n < 10") (simp_all add: nat_to_string.simps [of n] digit_char_is_digit)
qed

lemma dec_val_nat_to_string: "dec_val (nat_to_string n) = n"
proof (induction n rule: nat_to_string.induct)
  case (1 n)
  show ?case
  proof (cases "n < 10")
    case True
    then show ?thesis
      by (simp add: nat_to_string.simps [of n] dec_val_def digit_val_char)
  next
    case False
    with 1 show ?thesis
      by (simp add: nat_to_string.simps [of n] dec_val_snoc digit_val_char)
  qed
qed

lemma digit_char_zero: "d < 10 \<Longrightarrow> digit_char d = CHR ''0'' \<Longrightarrow> d = 0"
  using digit_val_char [of d] by (simp add: digit_val_def)

lemma nat_to_string_lead: "0 < n \<Longrightarrow> hd (nat_to_string n) \<noteq> CHR ''0''"
proof (induction n rule: nat_to_string.induct)
  case (1 n)
  show ?case
  proof (cases "n < 10")
    case True
    with 1 show ?thesis using digit_char_zero [of n] by (auto simp: nat_to_string.simps [of n])
  next
    case False
    with 1 show ?thesis by (simp add: nat_to_string.simps [of n])
  qed
qed

lemma takeWhile_all: "list_all P xs \<Longrightarrow> takeWhile P xs = xs"
  by (induction xs) simp_all

lemma dropWhile_all: "list_all P xs \<Longrightarrow> dropWhile P xs = []"
  by (induction xs) simp_all

lemma parse_unsigned_digits:
  "ds \<noteq> [] \<Longrightarrow> list_all is_digit ds \<Longrightarrow> parse_unsigned ds = Fin (of_nat (dec_val ds))"
  by (simp add: parse_unsigned_def takeWhile_all dropWhile_all)

lemma digit_not_space: "is_digit c \<Longrightarrow> \<not> is_space c"
  by (auto simp: is_digit_def is_space_def less_eq_char_def)

lemma dropWhile_none: "\<forall>c\<in>set s. \<not> P c \<Longrightarrow> dropWhile P s = s"
  by (cases s) simp_all

lemma js_trim_no_space: "\<forall>c\<in>set s. \<not> is_space c \<Longrightarrow> js_trim s = s"
  by (simp add: js_trim_def dropWhile_none)

lemma digit_not_letter:
  "is_digit c \<Longrightarrow> c \<noteq> CHR ''x'' \<and> c \<noteq> CHR ''X'' \<and> c \<noteq> CHR ''o'' \<and> c \<noteq> CHR ''O''
     \<and> c \<noteq> CHR ''b'' \<and> c \<noteq> CHR ''B'' \<and> c \<noteq> CHR ''-'' \<and> c \<noteq> CHR ''+'' \<and> c \<noteq> CHR ''I'' \<and> c \<noteq> CHR ''_''"
  by (auto simp: is_digit_def less_eq_char_def)

lemma num_of_string_digits:
  assumes "ds \<noteq> []" and "list_all is_digit ds"
  shows "num_of_string ds = Fin (of_nat (dec_val ds))"
proof -
  obtain c cs where ds: "ds = c # cs" using assms(1) by (cases ds) auto
  have trim: "js_trim ds = ds"
    using assms(2) by (auto intro!: js_trim_no_space simp: list_all_iff digit_not_space)
  have two: "\<And>d e. take 2 ds = [d, e] \<Longrightarrow> is_digit e"
    using assms(2) ds by (cases cs) auto
  have "take 2 ds \<noteq> ''0x'' \<and> take 2 ds \<noteq> ''0X'' \<and> take 2 ds \<noteq> ''0o'' \<and> take 2 ds \<noteq> ''0O''
      \<and> take 2 ds \<noteq> ''0b'' \<and> take 2 ds \<noteq> ''0B''"
    using two digit_not_letter by blast
  moreover have "parse_signed ds = parse_unsigned ds"
    using assms ds digit_not_letter [of c] by (auto simp: parse_signed_def Let_def)
  ultimately show ?thesis
    using assms trim by (simp add: num_of_string_def Let_def parse_unsigned_digits)
qed

lemma minus_not_space: "\<not> is_space (CHR ''-'')"
  by (simp add: is_space_def)

lemma num_of_string_minus:
  assumes "ds \<noteq> []" and "list_all is_digit ds"
  shows "num_of_string (CHR ''-'' # ds) = Fin (- of_nat (dec_val ds))"
proof -
  have trim: "js_trim (CHR ''-'' # ds) = CHR ''-'' # ds"
    using assms(2)
    by (intro js_trim_no_space) (auto simp: list_all_iff digit_not_space minus_not_space)
  have "ds \<noteq> ''Infinity''"
    using assms digit_not_letter [of "hd ds"] by (auto simp: list_all_iff)
  then have "parse_signed (CHR ''-'' # ds) = Fin (- of_nat (dec_val ds))"
    using assms by (simp add: parse_signed_def parse_unsigned_digits)
  with trim show ?thesis
    by (simp add: num_of_string_def Let_def)
qed

lemma num_of_int_to_string: "num_of_string (int_to_string i) = int_num i"
  by (simp add: int_to_string_def num_of_string_digits num_of_string_minus
      nat_to_string_digits dec_val_nat_to_string)

lemma num_to_string_int [simp]: "num_to_string (int_num i) = int_to_string i"
  by simp

lemma int_to_string_inj: "int_to_string i = int_to_string j \<Longrightarrow> i = j"
  by (metis num_of_int_to_string jsnum.inject of_int_eq_iff)

lemma nat_to_string_no_underscore: "CHR ''_'' \<notin> set (nat_to_string n)"
  using nat_to_string_digits [of n] digit_not_letter by (auto simp: list_all_iff)

lemma int_to_string_no_underscore: "CHR ''_'' \<notin> set (int_to_string i)"
  by (simp add: int_to_string_def nat_to_string_no_underscore)

section \<open>Splitting strings\<close>

text \<open>\<open>s.split(c)\<close> for a one-character separator. The result is never empty.\<close>

fun js_split :: "char \<Rightarrow> string \<Rightarrow> string list" where
  "js_split c [] = [[]]"
| "js_split c (x # xs) =
     (if x = c then [] # js_split c xs
      else (x # hd (js_split c xs)) # tl (js_split c xs))"

lemma js_split_nonempty [simp]: "js_split c s \<noteq> []"
  by (cases s) simp_all

lemma js_split_no_sep: "c \<notin> set s \<Longrightarrow> js_split c s = [s]"
  by (induction s) auto

lemma js_split_append: "c \<notin> set s \<Longrightarrow> js_split c (s @ c # t) = s # js_split c t"
  by (induction s) auto

lemma js_split_length: "length (js_split c s) = Suc (count_list s c)"
proof (induction s)
  case (Cons x xs)
  then show ?case by (cases "js_split c xs") auto
qed simp

text \<open>Joining the parts with the separator gives the string back.\<close>

fun js_join :: "char \<Rightarrow> string list \<Rightarrow> string" where
  "js_join c [] = []"
| "js_join c [s] = s"
| "js_join c (s # ss) = s @ c # js_join c ss"

lemma js_join_Cons: "ss \<noteq> [] \<Longrightarrow> js_join c (s # ss) = s @ c # js_join c ss"
  by (cases ss) simp_all

lemma js_join_split: "js_join c (js_split c s) = s"
proof (induction s)
  case (Cons x xs)
  show ?case
  proof (cases "x = c")
    case True
    with Cons show ?thesis by (simp add: js_join_Cons)
  next
    case False
    obtain h t where ht: "js_split c xs = h # t" by (cases "js_split c xs") auto
    with Cons False show ?thesis by (cases t) simp_all
  qed
qed simp

definition starts_with :: "string \<Rightarrow> string \<Rightarrow> bool" where
  "starts_with s p = (take (length p) s = p)"

fun includes_str :: "string \<Rightarrow> string \<Rightarrow> bool" where
  \<comment> \<open>\<open>s.indexOf(p) > -1\<close>\<close>
  "includes_str [] p = (p = [])"
| "includes_str (c # cs) p = (starts_with (c # cs) p \<or> includes_str cs p)"

lemma starts_with_append [simp]: "starts_with (p @ s) p"
  by (simp add: starts_with_def)

lemma starts_with_iff: "starts_with s p \<longleftrightarrow> (\<exists>t. s = p @ t)"
  by (metis append_eq_conv_conj starts_with_append append_take_drop_id starts_with_def)

section \<open>Values and objects\<close>

datatype jsval =
    JUndef
  | JNull
  | JBool bool
  | JNum jsnum
  | JStr string
  | JArr "jsval list"
  | JObj "(string \<times> jsval) list"

type_synonym 'v obj = "(string \<times> 'v) list"

definition keys :: "'v obj \<Rightarrow> string list" where
  "keys ob = map fst ob"

lemma keys_simps [simp]:
  "keys [] = []"
  "keys (kv # ob) = fst kv # keys ob"
  "keys (ob @ ob') = keys ob @ keys ob'"
  by (simp_all add: keys_def)

text \<open>
  Property order: integer keys come first in ascending order, every other key stands where
  it was first inserted.
\<close>

definition is_array_index :: "string \<Rightarrow> bool" where
  "is_array_index k =
     (k \<noteq> [] \<and> list_all is_digit k \<and> (k = ''0'' \<or> hd k \<noteq> CHR ''0'') \<and> int (dec_val k) < 4294967295)"

lemma is_array_index_nat_to_string: "int n < 4294967295 \<Longrightarrow> is_array_index (nat_to_string n)"
proof -
  have "nat_to_string 0 = ''0''" by code_simp
  moreover assume "int n < 4294967295"
  ultimately show ?thesis
    using nat_to_string_lead [of n] nat_to_string_digits [of n] dec_val_nat_to_string [of n]
    unfolding is_array_index_def by (cases "n = 0") auto
qed

definition key_before :: "string \<Rightarrow> string \<Rightarrow> bool" where
  "key_before k k' = (is_array_index k \<and> (\<not> is_array_index k' \<or> dec_val k < dec_val k'))"

fun obj_insert :: "string \<Rightarrow> 'v \<Rightarrow> 'v obj \<Rightarrow> 'v obj" where
  "obj_insert k v [] = [(k, v)]"
| "obj_insert k v ((k', v') # ob) =
     (if key_before k k' then (k, v) # (k', v') # ob else (k', v') # obj_insert k v ob)"

fun obj_replace :: "string \<Rightarrow> 'v \<Rightarrow> 'v obj \<Rightarrow> 'v obj" where
  "obj_replace k v [] = []"
| "obj_replace k v ((k', v') # ob) = (if k' = k then (k, v) # ob else (k', v') # obj_replace k v ob)"

definition obj_put :: "string \<Rightarrow> 'v \<Rightarrow> 'v obj \<Rightarrow> 'v obj" where
  "obj_put k v ob = (if k \<in> set (keys ob) then obj_replace k v ob else obj_insert k v ob)"

lemma map_of_obj_insert:
  "k \<notin> set (keys ob) \<Longrightarrow> map_of (obj_insert k v ob) x = (if x = k then Some v else map_of ob x)"
  by (induction ob) (auto split: if_splits)

lemma map_of_obj_replace:
  "k \<in> set (keys ob) \<Longrightarrow> map_of (obj_replace k v ob) x = (if x = k then Some v else map_of ob x)"
  by (induction ob) (auto split: if_splits)

lemma map_of_obj_put [simp]: "map_of (obj_put k v ob) = (map_of ob)(k \<mapsto> v)"
  by (auto simp: fun_eq_iff obj_put_def map_of_obj_insert map_of_obj_replace)

lemma set_keys_obj_insert: "set (keys (obj_insert k v ob)) = insert k (set (keys ob))"
  by (induction k v ob rule: obj_insert.induct) (simp_all add: insert_commute)

lemma keys_obj_replace: "keys (obj_replace k v ob) = keys ob"
  by (induction k v ob rule: obj_replace.induct) simp_all

lemma set_keys_obj_put [simp]: "set (keys (obj_put k v ob)) = insert k (set (keys ob))"
  by (auto simp: obj_put_def set_keys_obj_insert keys_obj_replace)

lemma distinct_keys_obj_insert:
  "k \<notin> set (keys ob) \<Longrightarrow> distinct (keys ob) \<Longrightarrow> distinct (keys (obj_insert k v ob))"
proof (induction ob)
  case (Cons kv ob)
  then show ?case
    using set_keys_obj_insert [of k v ob] by (cases kv) auto
qed simp

lemma distinct_keys_obj_put [intro]: "distinct (keys ob) \<Longrightarrow> distinct (keys (obj_put k v ob))"
  by (auto simp: obj_put_def distinct_keys_obj_insert keys_obj_replace)

lemma map_of_None_keys: "map_of ob k = None \<longleftrightarrow> k \<notin> set (keys ob)"
  by (simp add: keys_def map_of_eq_None_iff)

lemma obj_insert_plain:
  "\<not> is_array_index k \<Longrightarrow> obj_insert k v ob = ob @ [(k, v)]"
  by (induction ob) (auto simp: key_before_def)

text \<open>A key that is not an integer and not present is appended.\<close>

lemma obj_put_fresh:
  "\<not> is_array_index k \<Longrightarrow> k \<notin> set (keys ob) \<Longrightarrow> obj_put k v ob = ob @ [(k, v)]"
  by (simp add: obj_put_def obj_insert_plain)

definition obj_get :: "jsval obj \<Rightarrow> string \<Rightarrow> jsval" where
  "obj_get ob k = (case map_of ob k of None \<Rightarrow> JUndef | Some v \<Rightarrow> v)"

lemma obj_get_put [simp]: "obj_get (obj_put k v ob) k' = (if k' = k then v else obj_get ob k')"
  by (simp add: obj_get_def)

lemma obj_get_simps [simp]:
  "obj_get [] k = JUndef"
  "obj_get ((k', v) # ob) k = (if k = k' then v else obj_get ob k)"
  by (simp_all add: obj_get_def)

lemma obj_get_missing: "k \<notin> set (keys ob) \<Longrightarrow> obj_get ob k = JUndef"
  by (simp add: obj_get_def map_of_None_keys [symmetric])

definition obj_del :: "string \<Rightarrow> 'v obj \<Rightarrow> 'v obj" where
  "obj_del k ob = filter (\<lambda>kv. fst kv \<noteq> k) ob"

lemma map_of_obj_del [simp]: "map_of (obj_del k ob) = (map_of ob)(k := None)"
  by (induction ob) (auto simp: obj_del_def fun_eq_iff)

lemma obj_get_del: "obj_get (obj_del k ob) k' = (if k' = k then JUndef else obj_get ob k')"
  by (simp add: obj_get_def)

lemma map_of_filter_keys:
  "map_of (filter (\<lambda>kv. fst kv \<notin> K) ob) k = (if k \<in> K then None else map_of ob k)"
  by (induction ob) auto

text \<open>Building an object by assigning entries in order, as a reduce over entries does.\<close>

definition obj_of_entries :: "'v obj \<Rightarrow> 'v obj" where
  "obj_of_entries es = fold (\<lambda>(k, v). obj_put k v) es []"

definition obj_assign :: "'v obj \<Rightarrow> 'v obj \<Rightarrow> 'v obj" where
  \<comment> \<open>\<open>{...ob, ...es}\<close> and \<open>Object.assign(ob, es)\<close>\<close>
  "obj_assign ob es = fold (\<lambda>(k, v). obj_put k v) es ob"

lemma map_of_obj_assign: "map_of (obj_assign ob es) = map_of ob ++ map_of (rev es)"
  by (induction es arbitrary: ob) (auto simp: obj_assign_def split_def)

lemma map_of_obj_assign_distinct:
  assumes "distinct (keys es)"
  shows "map_of (obj_assign ob es) = map_of ob ++ map_of es"
proof -
  have "map_of (rev es) = map_of es"
    using assms by (intro map_of_inject_set [THEN iffD2]) (auto simp: keys_def rev_map [symmetric])
  then show ?thesis by (simp add: map_of_obj_assign)
qed

lemma set_keys_obj_assign: "set (keys (obj_assign ob es)) = set (keys ob) \<union> set (keys es)"
  by (induction es arbitrary: ob) (auto simp: obj_assign_def split_def)

lemma distinct_keys_obj_assign: "distinct (keys ob) \<Longrightarrow> distinct (keys (obj_assign ob es))"
  by (induction es arbitrary: ob) (auto simp: obj_assign_def split_def)

lemma obj_get_assign:
  "distinct (keys es) \<Longrightarrow>
     obj_get (obj_assign ob es) k = (if k \<in> set (keys es) then obj_get es k else obj_get ob k)"
  using map_of_None_keys [of es k]
  by (auto simp: obj_get_def map_of_obj_assign_distinct map_add_def split: option.splits)

lemma map_of_obj_of_entries: "distinct (keys es) \<Longrightarrow> map_of (obj_of_entries es) = map_of es"
  using map_of_obj_assign_distinct [of es "[]"] by (simp add: obj_assign_def obj_of_entries_def)

section \<open>Reading values\<close>

fun truthy :: "jsval \<Rightarrow> bool" where
  "truthy JUndef = False"
| "truthy JNull = False"
| "truthy (JBool b) = b"
| "truthy (JNum n) = (n \<noteq> NaN \<and> n \<noteq> Fin 0)"
| "truthy (JStr s) = (s \<noteq> [])"
| "truthy (JArr _) = True"
| "truthy (JObj _) = True"

fun nullish :: "jsval \<Rightarrow> bool" where
  "nullish JUndef = True"
| "nullish JNull = True"
| "nullish _ = False"

definition js_or :: "jsval \<Rightarrow> jsval \<Rightarrow> jsval" where
  "js_or a b = (if truthy a then a else b)"

definition js_coalesce :: "jsval \<Rightarrow> jsval \<Rightarrow> jsval" where
  "js_coalesce a b = (if nullish a then b else a)"

text \<open>A property read. Only data properties are modelled; reading one of \<open>undefined\<close> throws.\<close>

fun js_prop :: "jsval \<Rightarrow> string \<Rightarrow> jsval res" where
  "js_prop JUndef k = Inl TypeError"
| "js_prop JNull k = Inl TypeError"
| "js_prop (JObj ob) k = Inr (obj_get ob k)"
| "js_prop (JArr xs) k =
     Inr (if k = ''length'' then JNum (Fin (of_nat (length xs)))
          else if is_array_index k \<and> dec_val k < length xs then xs ! dec_val k else JUndef)"
| "js_prop (JStr s) k =
     Inr (if k = ''length'' then JNum (Fin (of_nat (length s)))
          else if is_array_index k \<and> dec_val k < length s then JStr [s ! dec_val k] else JUndef)"
| "js_prop (JBool _) k = Inr JUndef"
| "js_prop (JNum _) k = Inr JUndef"

definition js_opt :: "jsval \<Rightarrow> string \<Rightarrow> jsval" where
  \<comment> \<open>\<open>v?.k\<close>\<close>
  "js_opt v k = (case js_prop v k of Inl _ \<Rightarrow> JUndef | Inr x \<Rightarrow> x)"

lemma js_opt_simps [simp]:
  "js_opt JUndef k = JUndef" "js_opt JNull k = JUndef" "js_opt (JObj ob) k = obj_get ob k"
  by (simp_all add: js_opt_def)

text \<open>The own enumerable properties, which a spread copies.\<close>

fun entries :: "jsval \<Rightarrow> jsval obj" where
  "entries (JObj ob) = ob"
| "entries (JArr xs) = map (\<lambda>(i, x). (nat_to_string i, x)) (enumerate 0 xs)"
| "entries (JStr s) = map (\<lambda>(i, c). (nat_to_string i, JStr [c])) (enumerate 0 s)"
| "entries _ = []"

lemma obj_get_size: "obj_get s k \<noteq> JUndef \<Longrightarrow> size (obj_get s k) < size (JObj s)"
proof (induction s)
  case (Cons kv s)
  then show ?case by (cases kv) (auto split: if_splits)
qed simp

lemma entries_size: "(n, x) \<in> set (entries v) \<Longrightarrow> (case v of JObj _ \<Rightarrow> True | JArr _ \<Rightarrow> True | _ \<Rightarrow> False) \<Longrightarrow> size x < size v"
proof (cases v)
  case (JArr xs)
  assume "(n, x) \<in> set (entries v)"
  then have "x \<in> set xs" by (auto simp: JArr in_set_enumerate_eq)
  then show ?thesis by (simp add: JArr) (metis le_imp_less_Suc size_list_estimation' order_refl)
next
  case (JObj ob)
  assume "(n, x) \<in> set (entries v)"
  then have "(n, x) \<in> set ob" by (simp add: JObj)
  then have "size x < Suc (size_list (size_prod (\<lambda>_. 0) size) ob)"
    by (induction ob) auto
  then show ?thesis by (simp add: JObj)
qed auto

lemma obj_put_subset: "set (obj_put k v ob) \<subseteq> insert (k, v) (set ob)"
proof -
  have "set (obj_insert k v ob) \<subseteq> insert (k, v) (set ob)" by (induction ob) (auto split: if_splits)
  moreover have "set (obj_replace k v ob) \<subseteq> insert (k, v) (set ob)" by (induction ob) (auto split: if_splits)
  ultimately show ?thesis by (simp add: obj_put_def)
qed

lemma set_fold_put: "set (fold (\<lambda>(k, v). obj_put k v) es ob) \<subseteq> set es \<union> set ob"
proof (induction es arbitrary: ob)
  case (Cons e es)
  then show ?case using obj_put_subset [of "fst e" "snd e" ob] Cons.IH [of "obj_put (fst e) (snd e) ob"]
    by (auto simp: case_prod_unfold)
qed simp

text \<open>The receiver of an array method: anything but an array throws.\<close>

fun js_array :: "jsval \<Rightarrow> jsval list res" where
  "js_array (JArr xs) = Inr xs"
| "js_array _ = Inl TypeError"

fun is_array :: "jsval \<Rightarrow> bool" where
  "is_array (JArr _) = True"
| "is_array _ = False"

text \<open>The string a value becomes when it is used as a property key or in a template.\<close>

fun js_to_string :: "jsval \<Rightarrow> string" where
  "js_to_string JUndef = ''undefined''"
| "js_to_string JNull = ''null''"
| "js_to_string (JBool b) = (if b then ''true'' else ''false'')"
| "js_to_string (JNum n) = num_to_string n"
| "js_to_string (JStr s) = s"
| "js_to_string (JArr xs) =
     js_join (CHR '','') (map (\<lambda>x. if nullish x then [] else js_to_string x) xs)"
| "js_to_string (JObj _) = ''[object Object]''"

text \<open>\<open>Number(v)\<close>\<close>

fun js_number :: "jsval \<Rightarrow> jsnum" where
  "js_number JUndef = NaN"
| "js_number JNull = Fin 0"
| "js_number (JBool b) = Fin (if b then 1 else 0)"
| "js_number (JNum n) = n"
| "js_number (JStr s) = num_of_string s"
| "js_number (JArr xs) = num_of_string (js_to_string (JArr xs))"
| "js_number (JObj _) = NaN"

text \<open>\<open>v.map(f)\<close> and \<open>v?.map(f)\<close> with a callback that may throw.\<close>

definition js_map :: "(jsval \<Rightarrow> jsval res) \<Rightarrow> jsval \<Rightarrow> jsval res" where
  "js_map f v = bind_r (js_array v) (\<lambda>xs. bind_r (map_r f xs) (\<lambda>ys. Inr (JArr ys)))"

definition js_opt_map :: "(jsval \<Rightarrow> jsval res) \<Rightarrow> jsval \<Rightarrow> jsval res" where
  "js_opt_map f v = (if nullish v then Inr JUndef else js_map f v)"

fun find_r :: "('a \<Rightarrow> bool res) \<Rightarrow> 'a list \<Rightarrow> 'a option res" where
  "find_r f [] = Inr None"
| "find_r f (x # xs) = bind_r (f x) (\<lambda>b. if b then Inr (Some x) else find_r f xs)"

text \<open>\<open>{...v}\<close>\<close>

definition spread :: "jsval \<Rightarrow> jsval obj" where
  "spread v = obj_assign [] (entries v)"

lemma obj_get_spread: "distinct (keys ob) \<Longrightarrow> obj_get (spread (JObj ob)) k = obj_get ob k"
  by (auto simp: spread_def obj_get_assign obj_get_missing)

text \<open>Lower case, on the letters of ISO 8859-1.\<close>

definition lower_char :: "char \<Rightarrow> char" where
  "lower_char c = (let n = (of_char c :: nat) in
     if 65 \<le> n \<and> n \<le> 90 \<or> 192 \<le> n \<and> n \<le> 222 \<and> n \<noteq> 215 then char_of (n + 32) else c)"

definition toLowerCase :: "string \<Rightarrow> string" where
  "toLowerCase s = map lower_char s"

section \<open>List lemmas\<close>

fun find_index :: "('a \<Rightarrow> bool) \<Rightarrow> 'a list \<Rightarrow> nat option" where
  \<comment> \<open>\<open>xs.findIndex(p)\<close>, with \<open>None\<close> for -1\<close>
  "find_index p [] = None"
| "find_index p (x # xs) = (if p x then Some 0 else map_option Suc (find_index p xs))"

lemma find_index_Some:
  "find_index p xs = Some i \<Longrightarrow> i < length xs \<and> p (xs ! i) \<and> (\<forall>j<i. \<not> p (xs ! j))"
proof (induction xs arbitrary: i)
  case (Cons x xs)
  then show ?case by (auto simp: nth_Cons split: if_splits nat.splits)
qed simp

lemma find_index_None: "find_index p xs = None \<longleftrightarrow> (\<forall>x\<in>set xs. \<not> p x)"
  by (induction xs) simp_all

lemma find_Some_in: "find p xs = Some x \<Longrightarrow> x \<in> set xs \<and> p x"
  by (auto simp: find_Some_iff)

lemma find_None_all: "find p xs = None \<longleftrightarrow> (\<forall>x\<in>set xs. \<not> p x)"
  by (auto simp: find_None_iff)

text \<open>With distinct keys, the first match by key is the only one.\<close>

lemma find_distinct_key:
  "distinct (map f xs) \<Longrightarrow> x \<in> set xs \<Longrightarrow> find (\<lambda>y. f y = f x) xs = Some x"
  by (induction xs) (auto simp: image_iff)

lemma find_map_other:
  "(\<And>x. f (g x) = f x) \<Longrightarrow> find (\<lambda>y. f y = k) (map g xs) = map_option g (find (\<lambda>y. f y = k) xs)"
  by (induction xs) auto

lemma distinct_map_filter': "distinct (map f xs) \<Longrightarrow> distinct (map f (filter p xs))"
  by (induction xs) auto

end
