(* ===== verification/Canvas_Types.thy ===== *)
theory Canvas_Types
  imports Js_Prelude
begin

text \<open>
  The data of the agent canvas: operators and handles (\<open>constants/agent.tsx\<close>,
  \<open>pages/agent/constant\<close>), the node and edge objects of the graph
  (\<open>interfaces/database/flow.ts\<close> over the node and edge types of the flow library), the state
  of the graph store (\<open>pages/agent/store.ts\<close>, type \<open>RFState\<close>) and the components of the DSL.

  A node or edge record has the fields that the modelled code reads or writes. Optional
  fields are options, handles may be \<open>null\<close> or \<open>undefined\<close>; coordinates are finite.
\<close>

section \<open>Operators and handles\<close>

datatype Operator =
    OpBegin | OpRetrieval | OpCategorize | OpMessage | OpRewriteQuestion
  | OpDuckDuckGo | OpWikipedia | OpPubMed | OpArXiv | OpGoogle
  | OpBing | OpGoogleScholar | OpGitHub | OpExeSQL | OpSwitch
  | OpWenCai | OpYahooFinance | OpNote | OpCrawler | OpInvoke
  | OpEmail | OpIteration | OpIterationStart | OpCode | OpWaitingDialogue
  | OpAgent | OpTool | OpTavilySearch | OpTavilyExtract | OpUserFillUp
  | OpStringTransform | OpSearXNG | OpPDFGenerator | OpPlaceholder | OpDataOperations
  | OpListOperations | OpVariableAssigner | OpVariableAggregator | OpFile | OpParser
  | OpTokenizer | OpSplitter | OpHierarchicalMerger | OpExtractor | OpLoop
  | OpLoopStart | OpExitLoop | OpExcelProcessor

fun op_str :: "Operator \<Rightarrow> string" where
  "op_str OpBegin = ''Begin''"
| "op_str OpRetrieval = ''Retrieval''"
| "op_str OpCategorize = ''Categorize''"
| "op_str OpMessage = ''Message''"
| "op_str OpRewriteQuestion = ''RewriteQuestion''"
| "op_str OpDuckDuckGo = ''DuckDuckGo''"
| "op_str OpWikipedia = ''Wikipedia''"
| "op_str OpPubMed = ''PubMed''"
| "op_str OpArXiv = ''ArXiv''"
| "op_str OpGoogle = ''Google''"
| "op_str OpBing = ''Bing''"
| "op_str OpGoogleScholar = ''GoogleScholar''"
| "op_str OpGitHub = ''GitHub''"
| "op_str OpExeSQL = ''ExeSQL''"
| "op_str OpSwitch = ''Switch''"
| "op_str OpWenCai = ''WenCai''"
| "op_str OpYahooFinance = ''YahooFinance''"
| "op_str OpNote = ''Note''"
| "op_str OpCrawler = ''Crawler''"
| "op_str OpInvoke = ''Invoke''"
| "op_str OpEmail = ''Email''"
| "op_str OpIteration = ''Iteration''"
| "op_str OpIterationStart = ''IterationItem''"
| "op_str OpCode = ''CodeExec''"
| "op_str OpWaitingDialogue = ''WaitingDialogue''"
| "op_str OpAgent = ''Agent''"
| "op_str OpTool = ''Tool''"
| "op_str OpTavilySearch = ''TavilySearch''"
| "op_str OpTavilyExtract = ''TavilyExtract''"
| "op_str OpUserFillUp = ''UserFillUp''"
| "op_str OpStringTransform = ''StringTransform''"
| "op_str OpSearXNG = ''SearXNG''"
| "op_str OpPDFGenerator = ''PDFGenerator''"
| "op_str OpPlaceholder = ''Placeholder''"
| "op_str OpDataOperations = ''DataOperations''"
| "op_str OpListOperations = ''ListOperations''"
| "op_str OpVariableAssigner = ''VariableAssigner''"
| "op_str OpVariableAggregator = ''VariableAggregator''"
| "op_str OpFile = ''File''"
| "op_str OpParser = ''Parser''"
| "op_str OpTokenizer = ''Tokenizer''"
| "op_str OpSplitter = ''Splitter''"
| "op_str OpHierarchicalMerger = ''HierarchicalMerger''"
| "op_str OpExtractor = ''Extractor''"
| "op_str OpLoop = ''Loop''"
| "op_str OpLoopStart = ''LoopItem''"
| "op_str OpExitLoop = ''ExitLoop''"
| "op_str OpExcelProcessor = ''ExcelProcessor''"

datatype NodeHandleId = HStart | HEnd | HTool | HAgentTop | HAgentBottom | HAgentException

fun handle_str :: "NodeHandleId \<Rightarrow> string" where
  "handle_str HStart = ''start''"
| "handle_str HEnd = ''end''"
| "handle_str HTool = ''tool''"
| "handle_str HAgentTop = ''agentTop''"
| "handle_str HAgentBottom = ''agentBottom''"
| "handle_str HAgentException = ''agentException''"

lemma handle_str_inject [simp]: "handle_str a = handle_str b \<longleftrightarrow> a = b"
  by (cases a; cases b) simp_all

definition SwitchElseTo :: string where
  "SwitchElseTo = ''end_cpn_ids''"

definition NoDebugOperatorsList :: "Operator list" where
  "NoDebugOperatorsList =
     [OpBegin, OpMessage, OpRewriteQuestion, OpSwitch, OpIteration, OpUserFillUp,
      OpIterationStart, OpFile, OpParser, OpTokenizer, OpSplitter, OpHierarchicalMerger,
      OpExtractor, OpTool]"

definition NoCopyOperatorsList :: "Operator list" where
  "NoCopyOperatorsList =
     [OpFile, OpParser, OpTokenizer, OpSplitter, OpHierarchicalMerger, OpExtractor]"

section \<open>Nodes and edges\<close>

record xy_position =
  px :: rat
  py :: rat

record node_data =
  label :: string                \<comment> \<open>operator type\<close>
  nname :: string                \<comment> \<open>operator name\<close>
  form :: "jsval option"

record node =
  nid :: string
  ntype :: "string option"
  position :: xy_position
  ndata :: node_data
  parentId :: "string option"
  width :: "rat option"
  height :: "rat option"
  selected :: "bool option"
  dragging :: "bool option"
  draggable :: "bool option"
  dragHandle :: "string option"
  extent :: "string option"

record edge =
  eid :: string
  source :: string
  target :: string
  sourceHandle :: "string nullable"
  targetHandle :: "string nullable"
  edata :: jsval

record connection =
  csource :: string
  ctarget :: string
  csourceHandle :: "string nullable"
  ctargetHandle :: "string nullable"

abbreviation nlabel :: "node \<Rightarrow> string" where
  "nlabel n \<equiv> label (ndata n)"

abbreviation node_name :: "node \<Rightarrow> string" where
  "node_name n \<equiv> nname (ndata n)"

abbreviation node_form :: "node \<Rightarrow> jsval option" where
  "node_form n \<equiv> form (ndata n)"

text \<open>\<open>node.data.form ?? {}\<close>\<close>

definition form_or_empty :: "node \<Rightarrow> jsval" where
  "form_or_empty n = js_coalesce (case node_form n of None \<Rightarrow> JUndef | Some f \<Rightarrow> f) (JObj [])"

definition has_handle :: "string nullable \<Rightarrow> NodeHandleId \<Rightarrow> bool" where
  "has_handle h k = (h = Val (handle_str k))"

section \<open>The state of the graph store\<close>

record rf_state =
  nodes :: "node list"
  edges :: "edge list"
  selectedNodeIds :: "string list"
  selectedEdgeIds :: "string list"
  clickedNodeId :: "string option"
  clickedToolId :: "string option"

definition init_state :: rf_state where
  "init_state = \<lparr>nodes = [], edges = [], selectedNodeIds = [], selectedEdgeIds = [],
     clickedNodeId = Some [], clickedToolId = Some []\<rparr>"

abbreviation node_ids :: "rf_state \<Rightarrow> string list" where
  "node_ids s \<equiv> map nid (nodes s)"

text \<open>Node ids are unique; every edge joins two nodes that exist.\<close>

definition distinct_ids :: "rf_state \<Rightarrow> bool" where
  "distinct_ids s = distinct (node_ids s)"

definition edges_ok :: "rf_state \<Rightarrow> bool" where
  "edges_ok s = (\<forall>e\<in>set (edges s). source e \<in> set (node_ids s) \<and> target e \<in> set (node_ids s))"

definition wf_graph :: "rf_state \<Rightarrow> bool" where
  "wf_graph s = (distinct_ids s \<and> edges_ok s)"

section \<open>Components of the DSL\<close>

record dsl_component =
  cobj :: "jsval obj"
  downstream :: "string list"
  upstream :: "string list"
  parent_id :: "string option"

section \<open>Small graphs for examples\<close>

definition mk_node :: "string \<Rightarrow> string \<Rightarrow> string \<Rightarrow> jsval \<Rightarrow> string option \<Rightarrow> node" where
  "mk_node i lbl nm frm par = \<lparr>nid = i, ntype = None, position = \<lparr>px = 0, py = 0\<rparr>,
     ndata = \<lparr>label = lbl, nname = nm, form = Some frm\<rparr>, parentId = par, width = None, height = None,
     selected = None, dragging = None, draggable = None, dragHandle = None, extent = None\<rparr>"

definition mk_edge :: "string \<Rightarrow> string \<Rightarrow> string \<Rightarrow> string \<Rightarrow> edge" where
  "mk_edge i src tgt sh = \<lparr>eid = i, source = src, target = tgt, sourceHandle = Val sh,
     targetHandle = Val (handle_str HEnd), edata = JUndef\<rparr>"

definition mk_state :: "node list \<Rightarrow> edge list \<Rightarrow> rf_state" where
  "mk_state ns es = init_state\<lparr>nodes := ns, edges := es\<rparr>"

end
