(* ===== verification/Third_Party.thy ===== *)
theory Third_Party
  imports Canvas_Types
begin

text \<open>
  The functions of packages outside the repository that the canvas code calls: \<open>lodash\<close> and the
  flow library \<open>@xyflow/react\<close>. Their code is not part of the repository, so they are the
  fields of a record \<open>libs\<close> that every operation using them takes as an argument.

  The locales \<open>lodash_api\<close> and \<open>xyflow_api\<close> state what the packages document about them and
  hold the lemmas the client code rests on. \<open>ref_libs\<close> is a concrete record that satisfies both
  locales.
\<close>

section \<open>The library functions as parameters\<close>

record libs =
  lodash_set :: "jsval \<Rightarrow> string list \<Rightarrow> jsval \<Rightarrow> jsval"
  lodash_get :: "jsval \<Rightarrow> string list \<Rightarrow> jsval \<Rightarrow> jsval"
  lodash_omit :: "jsval obj \<Rightarrow> string list \<Rightarrow> jsval obj"
  lodash_isEmpty :: "jsval \<Rightarrow> bool"
  lodash_cloneDeep :: "jsval \<Rightarrow> jsval"
  lodash_intersectionWith :: "edge list \<Rightarrow> edge list \<Rightarrow> (edge \<Rightarrow> edge \<Rightarrow> bool) \<Rightarrow> edge list"
  lodash_differenceWith :: "edge list \<Rightarrow> edge list \<Rightarrow> (edge \<Rightarrow> edge \<Rightarrow> bool) \<Rightarrow> edge list"
  xy_addEdge :: "connection \<Rightarrow> edge list \<Rightarrow> edge list"
  xy_applyNodeChanges :: "jsval list \<Rightarrow> node list \<Rightarrow> node list"
  xy_applyEdgeChanges :: "jsval list \<Rightarrow> edge list \<Rightarrow> edge list"

text \<open>
  A path that follows existing arrays by index only. Setting a named property on an array
  leaves its elements alone and is not represented in \<^typ>\<open>jsval\<close>.
\<close>

fun js_child :: "jsval \<Rightarrow> string \<Rightarrow> jsval" where
  "js_child (JObj ob) k = obj_get ob k"
| "js_child (JArr xs) k = (if is_array_index k \<and> dec_val k < length xs then xs ! dec_val k else JUndef)"
| "js_child _ k = JUndef"

fun path_ok :: "jsval \<Rightarrow> string list \<Rightarrow> bool" where
  "path_ok v [] = True"
| "path_ok v (k # ks) = ((is_array v \<longrightarrow> is_array_index k) \<and> path_ok (js_child v k) ks)"

fun plain_key :: "string \<Rightarrow> bool" where
  \<comment> \<open>a key that is a path of one step\<close>
  "plain_key k = (CHR ''.'' \<notin> set k \<and> CHR ''['' \<notin> set k \<and> CHR '']'' \<notin> set k)"

section \<open>lodash\<close>

text \<open>
  What the lodash documentation says. \<open>get\<close> follows a path. \<open>set\<close>: the value can be read back along the path, an
  object stays an object and its other properties stay as they are. \<open>omit\<close>: the properties
  that are not omitted. \<open>cloneDeep\<close>: an equal value. \<open>intersectionWith\<close>: unique values of
  the first array that have an equal in the second, in the order of the first.
  \<open>differenceWith\<close>: the values of the first array with no equal in the second.
\<close>

locale lodash_api =
  fixes L :: libs
  assumes get_set: "p \<noteq> [] \<Longrightarrow> path_ok (JObj ob) p \<Longrightarrow> v \<noteq> JUndef \<Longrightarrow>
      lodash_get L (lodash_set L (JObj ob) p v) p d = v"
    and set_obj: "p \<noteq> [] \<Longrightarrow> \<exists>ob'. lodash_set L (JObj ob) p v = JObj ob'
      \<and> (\<forall>k. k \<noteq> hd p \<longrightarrow> obj_get ob' k = obj_get ob k)"
    and set_one: "lodash_set L (JObj ob) [k] v = JObj (obj_put k v ob)"
    and set_index: "obj_get ob k = JArr vs \<Longrightarrow> i < length vs \<Longrightarrow> int i < 4294967295 \<Longrightarrow>
      lodash_set L (JObj ob) [k, nat_to_string i] v = JObj (obj_put k (JArr (vs[i := v])) ob)"
    and get_one: "lodash_get L (JObj ob) [k] d = (if obj_get ob k = JUndef then d else obj_get ob k)"
    and get_step: "(\<exists>ob. js_child v k = JObj ob) \<or> (\<exists>xs. js_child v k = JArr xs) \<Longrightarrow> p \<noteq> [] \<Longrightarrow>
      lodash_get L v (k # p) d = lodash_get L (js_child v k) p d"
    and get_nullish: "nullish v \<Longrightarrow> lodash_get L v p d = d"
    and omit: "list_all plain_key ks \<Longrightarrow> lodash_omit L ob ks = filter (\<lambda>kv. fst kv \<notin> set ks) ob"
    and isEmpty_str: "lodash_isEmpty L (JStr s) = (s = [])"
    and isEmpty_arr: "lodash_isEmpty L (JArr xs) = (xs = [])"
    and isEmpty_obj: "lodash_isEmpty L (JObj ob) = (ob = [])"
    and isEmpty_nullish: "nullish v \<Longrightarrow> lodash_isEmpty L v"
    and cloneDeep: "lodash_cloneDeep L v = v"
    and intersectionWith_sub:
      "set (lodash_intersectionWith L es fs eq) \<subseteq> {e \<in> set es. \<exists>f\<in>set fs. eq e f}"
    and intersectionWith_all: "e \<in> set es \<Longrightarrow> f \<in> set fs \<Longrightarrow> eq e f \<Longrightarrow>
      \<exists>g\<in>set (lodash_intersectionWith L es fs eq). eq e g \<or> e = g"
    and differenceWith: "lodash_differenceWith L es fs eq = filter (\<lambda>e. \<not> (\<exists>f\<in>set fs. eq e f)) es"
begin

lemma omit_get: "list_all plain_key ks \<Longrightarrow>
    obj_get (lodash_omit L ob ks) k = (if k \<in> set ks then JUndef else obj_get ob k)"
  by (simp add: omit obj_get_def map_of_filter_keys)

lemma set_other: "p \<noteq> [] \<Longrightarrow> k \<noteq> hd p \<Longrightarrow>
    js_opt (lodash_set L (JObj ob) p v) k = obj_get ob k"
  using set_obj [of p ob v] by auto

lemma set_is_obj: "p \<noteq> [] \<Longrightarrow> \<exists>ob'. lodash_set L (JObj ob) p v = JObj ob'"
  using set_obj [of p ob v] by auto

text \<open>
  When the comparison is an equivalence, intersection and difference split the second list's
  classes: together they represent exactly the classes of the second list that matter.
\<close>

lemma inter_diff_cover:
  fixes xs ys :: "edge list"
  assumes refl: "\<And>x. eq x x" and sym: "\<And>x y. eq x y \<Longrightarrow> eq y x"
    and trans: "\<And>x y z. eq x y \<Longrightarrow> eq y z \<Longrightarrow> eq x z"
  defines "I \<equiv> lodash_intersectionWith L xs ys eq"
  defines "R \<equiv> I @ lodash_differenceWith L ys I eq"
  shows "(\<exists>r\<in>set R. eq z r) \<longleftrightarrow> (\<exists>y\<in>set ys. eq z y)"
proof
  assume "\<exists>r\<in>set R. eq z r"
  then show "\<exists>y\<in>set ys. eq z y"
    using intersectionWith_sub [of xs ys eq] trans by (fastforce simp: R_def I_def differenceWith)
next
  assume "\<exists>y\<in>set ys. eq z y"
  then obtain y where y: "y \<in> set ys" "eq z y" by blast
  show "\<exists>r\<in>set R. eq z r"
  proof (cases "\<exists>i\<in>set I. eq y i")
    case True
    with y trans show ?thesis by (auto simp: R_def)
  next
    case False
    with y show ?thesis by (auto simp: R_def differenceWith)
  qed
qed

lemma inter_diff_sub: "set (lodash_intersectionWith L xs ys eq @ lodash_differenceWith L ys zs eq)
    \<subseteq> set xs \<union> set ys"
  using intersectionWith_sub [of xs ys eq] by (auto simp: differenceWith)

end

section \<open>The flow library\<close>

text \<open>
  \<open>addEdge\<close> adds one edge with the connection's endpoints and handles and leaves the others as
  they are, or returns the edges unchanged when the connection exists or lacks an end. The
  change functions are used on changes the library itself produces; nothing is assumed of them.
\<close>

locale xyflow_api =
  fixes L :: libs
  assumes addEdge: "xy_addEdge L c es = es \<or>
      (\<exists>e. xy_addEdge L c es = es @ [e] \<and> source e = csource c \<and> target e = ctarget c
         \<and> sourceHandle e = csourceHandle c \<and> targetHandle e = ctargetHandle c)"
    and addEdge_new: "csource c \<noteq> [] \<Longrightarrow> ctarget c \<noteq> [] \<Longrightarrow>
      (\<forall>e\<in>set es. source e \<noteq> csource c \<or> target e \<noteq> ctarget c) \<Longrightarrow> xy_addEdge L c es \<noteq> es"
begin

lemma addEdge_ends:
  "e \<in> set (xy_addEdge L c es) \<Longrightarrow> e \<in> set es \<or> source e = csource c \<and> target e = ctarget c
     \<and> sourceHandle e = csourceHandle c"
  using addEdge [of c es] by auto

lemma addEdge_keeps: "e \<in> set es \<Longrightarrow> e \<in> set (xy_addEdge L c es)"
  using addEdge [of c es] by auto

end

section \<open>A concrete instance\<close>

fun put_prop :: "jsval \<Rightarrow> string \<Rightarrow> jsval \<Rightarrow> jsval" where
  "put_prop (JObj ob) k v = JObj (obj_put k v ob)"
| "put_prop (JArr xs) k v =
     (if is_array_index k then
        (let i = dec_val k in
         if i < length xs then JArr (xs[i := v])
         else JArr (xs @ replicate (i - length xs) JUndef @ [v]))
      else JArr xs)"
| "put_prop w k v = w"

fun is_object :: "jsval \<Rightarrow> bool" where
  "is_object (JObj _) = True"
| "is_object (JArr _) = True"
| "is_object _ = False"

fun ref_set_in :: "jsval \<Rightarrow> string list \<Rightarrow> jsval \<Rightarrow> jsval" where
  "ref_set_in w [] v = v"
| "ref_set_in w (k # ks) v =
     (let base = (if is_object w then w else if is_array_index k then JArr [] else JObj [])
      in put_prop base k (ref_set_in (js_child base k) ks v))"

definition ref_set :: "jsval \<Rightarrow> string list \<Rightarrow> jsval \<Rightarrow> jsval" where
  "ref_set w p v = (if is_object w \<and> p \<noteq> [] then ref_set_in w p v else w)"

fun ref_path :: "jsval \<Rightarrow> string list \<Rightarrow> jsval" where
  "ref_path w [] = w"
| "ref_path w (k # ks) = ref_path (js_child w k) ks"

definition ref_get :: "jsval \<Rightarrow> string list \<Rightarrow> jsval \<Rightarrow> jsval" where
  "ref_get w p d =
     (let r = (if nullish w then JUndef else ref_path w p) in if r = JUndef then d else r)"

fun ref_isEmpty :: "jsval \<Rightarrow> bool" where
  "ref_isEmpty (JStr s) = (s = [])"
| "ref_isEmpty (JArr xs) = (xs = [])"
| "ref_isEmpty (JObj ob) = (ob = [])"
| "ref_isEmpty _ = True"

fun ref_inter_acc :: "edge list \<Rightarrow> edge list \<Rightarrow> edge list \<Rightarrow> (edge \<Rightarrow> edge \<Rightarrow> bool) \<Rightarrow> edge list" where
  "ref_inter_acc acc [] ys eq = acc"
| "ref_inter_acc acc (x # xs) ys eq =
     (if list_ex (eq x) ys \<and> \<not> list_ex (eq x) acc then ref_inter_acc (acc @ [x]) xs ys eq
      else ref_inter_acc acc xs ys eq)"

definition ref_inter :: "edge list \<Rightarrow> edge list \<Rightarrow> (edge \<Rightarrow> edge \<Rightarrow> bool) \<Rightarrow> edge list" where
  "ref_inter xs ys eq = ref_inter_acc [] xs ys eq"

definition ref_diff :: "edge list \<Rightarrow> edge list \<Rightarrow> (edge \<Rightarrow> edge \<Rightarrow> bool) \<Rightarrow> edge list" where
  "ref_diff xs ys eq = filter (\<lambda>x. \<not> list_ex (eq x) ys) xs"

definition handle_text :: "string nullable \<Rightarrow> string" where
  "handle_text h = (case h of Val s \<Rightarrow> s | _ \<Rightarrow> [])"

definition connects :: "connection \<Rightarrow> edge \<Rightarrow> bool" where
  "connects c e = (source e = csource c \<and> target e = ctarget c
     \<and> handle_text (sourceHandle e) = handle_text (csourceHandle c)
     \<and> handle_text (targetHandle e) = handle_text (ctargetHandle c))"

definition ref_addEdge :: "connection \<Rightarrow> edge list \<Rightarrow> edge list" where
  "ref_addEdge c es =
     (if csource c = [] \<or> ctarget c = [] \<or> list_ex (connects c) es then es
      else es @ [\<lparr>eid = ''xy-edge__'' @ csource c @ handle_text (csourceHandle c) @ ''-''
                      @ ctarget c @ handle_text (ctargetHandle c),
                  source = csource c, target = ctarget c, sourceHandle = csourceHandle c,
                  targetHandle = ctargetHandle c, edata = JUndef\<rparr>])"

definition ref_libs :: libs where
  "ref_libs = \<lparr>lodash_set = ref_set, lodash_get = ref_get,
     lodash_omit = (\<lambda>ob ks. filter (\<lambda>kv. fst kv \<notin> set ks) ob),
     lodash_isEmpty = ref_isEmpty, lodash_cloneDeep = (\<lambda>v. v),
     lodash_intersectionWith = ref_inter, lodash_differenceWith = ref_diff,
     xy_addEdge = ref_addEdge, xy_applyNodeChanges = (\<lambda>_ ns. ns),
     xy_applyEdgeChanges = (\<lambda>_ es. es)\<rparr>"

lemma ref_libs_sel [simp]:
  "lodash_set ref_libs = ref_set" "lodash_get ref_libs = ref_get"
  "lodash_omit ref_libs ob ks = filter (\<lambda>kv. fst kv \<notin> set ks) ob"
  "lodash_isEmpty ref_libs = ref_isEmpty" "lodash_cloneDeep ref_libs v = v"
  "lodash_intersectionWith ref_libs = ref_inter" "lodash_differenceWith ref_libs = ref_diff"
  "xy_addEdge ref_libs = ref_addEdge"
  by (simp_all add: ref_libs_def)

lemma js_child_put_prop:
  "is_object w \<Longrightarrow> (is_array w \<longrightarrow> is_array_index k) \<Longrightarrow> js_child (put_prop w k v) k = v"
  by (cases w) (simp_all add: Let_def nth_append)

lemma ref_path_set_in: "path_ok w p \<Longrightarrow> ref_path (ref_set_in w p v) p = v"
proof (induction w p arbitrary: v rule: path_ok.induct)
  case (2 w k ks)
  define base where "base = (if is_object w then w else if is_array_index k then JArr [] else JObj [])"
  have child: "js_child base k = js_child w k"
    by (cases w) (simp_all add: base_def obj_get_def)
  have "is_object base" "is_array base \<longrightarrow> is_array_index k"
    using 2 by (auto simp: base_def)
  then show ?case
    using 2 child by (simp add: Let_def base_def [symmetric] js_child_put_prop)
qed simp

lemma ref_inter_acc_sub:
  "set (ref_inter_acc acc xs ys eq) \<subseteq> set acc \<union> {x \<in> set xs. \<exists>y\<in>set ys. eq x y}"
  by (induction acc xs ys eq rule: ref_inter_acc.induct) (auto simp: list_ex_iff)

lemma ref_inter_acc_mono: "set acc \<subseteq> set (ref_inter_acc acc xs ys eq)"
  by (induction acc xs ys eq rule: ref_inter_acc.induct) auto

lemma ref_inter_acc_all:
  "x \<in> set xs \<Longrightarrow> y \<in> set ys \<Longrightarrow> eq x y \<Longrightarrow>
     \<exists>z\<in>set (ref_inter_acc acc xs ys eq). eq x z \<or> x = z"
proof (induction acc xs ys eq rule: ref_inter_acc.induct)
  case (2 acc a xs ys eq)
  show ?case
  proof (cases "x = a")
    case True
    have "set (acc @ [a]) \<subseteq> set (ref_inter_acc (acc @ [a]) xs ys eq)"
      and "set acc \<subseteq> set (ref_inter_acc acc xs ys eq)"
      by (rule ref_inter_acc_mono)+
    with True "2.prems" show ?thesis by (auto simp: list_ex_iff)
  next
    case False
    with 2 show ?thesis by auto
  qed
qed simp

lemma ref_set_one: "ref_set (JObj ob) [k] v = JObj (obj_put k v ob)"
  by (simp add: ref_set_def)

lemma ref_set_index:
  "obj_get ob k = JArr vs \<Longrightarrow> i < length vs \<Longrightarrow> int i < 4294967295 \<Longrightarrow>
     ref_set (JObj ob) [k, nat_to_string i] v = JObj (obj_put k (JArr (vs[i := v])) ob)"
  by (simp add: ref_set_def Let_def is_array_index_nat_to_string dec_val_nat_to_string)

lemma ref_set_obj:
  "p \<noteq> [] \<Longrightarrow> \<exists>ob'. ref_set (JObj ob) p v = JObj ob' \<and> (\<forall>k. k \<noteq> hd p \<longrightarrow> obj_get ob' k = obj_get ob k)"
  by (cases p) (simp_all add: ref_set_def)

lemma ref_get_step: "js_child v k = JObj ob \<or> js_child v k = JArr xs \<Longrightarrow> ref_get v (k # p) d = ref_get (js_child v k) p d"
  by (cases v) (auto simp: ref_get_def)

interpretation ref: lodash_api ref_libs
proof
  fix p ob v d
  assume "p \<noteq> []" "path_ok (JObj ob) p" "v \<noteq> JUndef"
  moreover have "\<not> nullish (ref_set_in (JObj ob) p v)" if "p \<noteq> []"
    using that by (cases p) simp_all
  ultimately show "lodash_get ref_libs (lodash_set ref_libs (JObj ob) p v) p d = v"
    by (simp add: ref_set_def ref_get_def ref_path_set_in)
next
  fix es fs :: "edge list" and eq
  show "set (lodash_intersectionWith ref_libs es fs eq) \<subseteq> {e \<in> set es. \<exists>f\<in>set fs. eq e f}"
    using ref_inter_acc_sub [of "[]" es fs eq] by (simp add: ref_inter_def)
  show "lodash_differenceWith ref_libs es fs eq = filter (\<lambda>e. \<not> (\<exists>f\<in>set fs. eq e f)) es"
    by (simp add: ref_diff_def list_ex_iff)
qed (auto simp: ref_set_one ref_set_index ref_set_obj ref_get_step ref_get_def ref_inter_def ref_inter_acc_all Let_def
    elim: nullish.elims)

interpretation ref: xyflow_api ref_libs
  by unfold_locales (auto simp: ref_addEdge_def connects_def list_ex_iff)

end
