(* ===== verification/Canvas_Utils.thy ===== *)
theory Canvas_Utils
  imports Third_Party "HOL-Library.Multiset"
begin

text \<open>
  The helpers of \<open>pages/agent/utils.ts\<close> that work on nodes, edges and names: node names with
  an increasing index, duplicates of nodes, positions relative to an iteration node, category
  lists, edge hovering. Random ids (\<open>humanId()\<close>) are arguments.

  The locale \<open>name_supply\<close> is what the callers of the name generator rely on; it is interpreted
  on \<open>generateNodeNamesWithIncreasingIndex\<close> with \<open>names_ok\<close> as its invariant.
\<close>

section \<open>Sorting with a comparison function\<close>

fun num_pos :: "jsnum \<Rightarrow> bool" where
  "num_pos (Fin q) = (q > 0)"
| "num_pos PInf = True"
| "num_pos _ = False"

text \<open>
  \<open>xs.sort((a, b) => f(a) - f(b))\<close> is a stable sort; a comparison that is \<open>NaN\<close> counts as
  equal. An insertion that moves an element behind all strictly smaller ones, from the right.
\<close>

fun js_insort :: "('a \<Rightarrow> jsnum) \<Rightarrow> 'a \<Rightarrow> 'a list \<Rightarrow> 'a list" where
  "js_insort f x [] = [x]"
| "js_insort f x (y # ys) =
     (if num_pos (num_sub (f x) (f y)) then y # js_insort f x ys else x # y # ys)"

definition js_sort :: "('a \<Rightarrow> jsnum) \<Rightarrow> 'a list \<Rightarrow> 'a list" where
  "js_sort f xs = foldr (js_insort f) xs []"

lemma num_sub_pos: "a \<noteq> NaN \<Longrightarrow> b \<noteq> NaN \<Longrightarrow> num_pos (num_sub a b) \<longleftrightarrow> b < a"
  by (cases a; cases b) (auto simp: num_sub_def less_jsnum_def)

lemma js_insort_insort_key:
  "f x \<noteq> NaN \<Longrightarrow> \<forall>y\<in>set ys. f y \<noteq> NaN \<Longrightarrow> js_insort f x ys = insort_key f x ys"
  by (induction ys) (auto simp: num_sub_pos not_le)

lemma mset_js_insort [simp]: "mset (js_insort f x ys) = add_mset x (mset ys)"
  by (induction ys) simp_all

lemma mset_js_sort [simp]: "mset (js_sort f xs) = mset xs"
  by (induction xs) (simp_all add: js_sort_def)

lemma set_js_sort [simp]: "set (js_sort f xs) = set xs"
  by (metis mset_js_sort set_mset_mset)

lemma js_sort_sort_key: "\<forall>x\<in>set xs. f x \<noteq> NaN \<Longrightarrow> js_sort f xs = sort_key f xs"
proof (induction xs)
  case (Cons x xs)
  then have "js_sort f xs = sort_key f xs" by simp
  then have "js_sort f (x # xs) = js_insort f x (sort_key f xs)"
    by (simp add: js_sort_def)
  also have "\<dots> = insort_key f x (sort_key f xs)"
    using Cons.prems by (intro js_insort_insort_key) simp_all
  finally show ?case by simp
qed (simp add: js_sort_def)

section \<open>Edges and handles\<close>

definition isEdgeEqual :: "edge \<Rightarrow> edge \<Rightarrow> bool" where
  "isEdgeEqual previous current =
     (source previous = source current \<and> target previous = target current
      \<and> sourceHandle previous = sourceHandle current)"

lemma isEdgeEqual_equiv:
  "isEdgeEqual e e"
  "isEdgeEqual e f \<Longrightarrow> isEdgeEqual f e"
  "isEdgeEqual e f \<Longrightarrow> isEdgeEqual f g \<Longrightarrow> isEdgeEqual e g"
  by (simp_all add: isEdgeEqual_def)

definition getOperatorIndex :: "string \<Rightarrow> string" where
  "getOperatorIndex handleTitle = last (js_split (CHR '' '') handleTitle)"

definition generateSwitchHandleText :: "int \<Rightarrow> string" where
  "generateSwitchHandleText idx = ''Case '' @ int_to_string (idx + 1)"

definition getNodeDragHandle :: "string \<Rightarrow> string option" where
  "getNodeDragHandle nodeType = (if nodeType = op_str OpNote then Some ''.note-drag-handle'' else None)"

definition mapEdgeMouseEvent :: "edge list \<Rightarrow> string \<Rightarrow> bool \<Rightarrow> edge list" where
  "mapEdgeMouseEvent es edgeId isHovered =
     map (\<lambda>e. if eid e = edgeId
              then e\<lparr>edata := JObj (obj_put ''isHovered'' (JBool isHovered) (entries (edata e)))\<rparr>
              else e) es"

section \<open>Node names\<close>

definition splitName :: "string \<Rightarrow> string \<times> jsnum" where
  "splitName nm = (let names = js_split (CHR ''_'') nm in (hd names, num_of_string (last names)))"

text \<open>The nodes named \<open>type_index\<close> with one underscore and a numeric index, as pairs.\<close>

definition indexed_names :: "node list \<Rightarrow> (string \<times> jsnum) list" where
  "indexed_names ns =
     map (\<lambda>x. splitName (node_name x))
       (filter (\<lambda>x. count_list (node_name x) (CHR ''_'') = 1 \<and> snd (splitName (node_name x)) \<noteq> NaN) ns)"

definition template_indexes :: "string \<Rightarrow> node list \<Rightarrow> jsnum list" where
  "template_indexes nm ns =
     js_sort (\<lambda>i. i)
       (map (\<lambda>x. snd (splitName (node_name x)))
          (filter (\<lambda>x. count_list (node_name x) (CHR ''_'') = 1 \<and> fst (splitName (node_name x)) = nm
                       \<and> snd (splitName (node_name x)) \<noteq> NaN) ns))"

text \<open>The loop over the sorted list: the first index whose successor is not the next one.\<close>

fun next_index :: "jsnum list \<Rightarrow> jsnum" where
  "next_index [] = Fin 0"
| "next_index [i] = num_add i (Fin 1)"
| "next_index (i # j # is) =
     (if num_eq (num_add i (Fin 1)) j then next_index (j # is) else num_add i (Fin 1))"

definition generateNodeNamesWithIncreasingIndex :: "string \<Rightarrow> node list \<Rightarrow> string" where
  "generateNodeNamesWithIncreasingIndex nm ns =
     nm @ ''_'' @ num_to_string (next_index (template_indexes nm ns))"

subsection \<open>The generated name is fresh\<close>

definition int_index :: "jsnum \<Rightarrow> bool" where
  "int_index i = (case i of Fin q \<Rightarrow> of_int \<lfloor>q\<rfloor> = q | _ \<Rightarrow> False)"

lemma int_index_iff: "int_index i \<longleftrightarrow> (\<exists>k. i = int_num k)"
proof (cases i)
  case (Fin q)
  then show ?thesis by (auto simp: int_index_def)
qed (simp_all add: int_index_def)

definition names_ok :: "node list \<Rightarrow> bool" where
  "names_ok ns = (distinct (indexed_names ns) \<and> (\<forall>p\<in>set (indexed_names ns). int_index (snd p)))"

lemma template_indexes_eq:
  "template_indexes nm ns = sort (map snd (filter (\<lambda>p. fst p = nm) (indexed_names ns)))"
proof -
  let ?l = "map snd (filter (\<lambda>p. fst p = nm) (indexed_names ns))"
  have "template_indexes nm ns = js_sort (\<lambda>i. i) ?l"
    unfolding template_indexes_def indexed_names_def filter_map
    by (simp add: comp_def conj_commute conj_left_commute)
  moreover have "\<forall>i\<in>set ?l. i \<noteq> NaN"
    by (auto simp: indexed_names_def) (metis snd_conv)
  ultimately show ?thesis by (simp add: js_sort_sort_key)
qed

lemma set_template_indexes: "i \<in> set (template_indexes nm ns) \<longleftrightarrow> (nm, i) \<in> set (indexed_names ns)"
  by (force simp: template_indexes_eq)

lemma distinct_snd_filter: "distinct ps \<Longrightarrow> distinct (map snd (filter (\<lambda>p. fst p = k) ps))"
  by (induction ps) (auto simp: image_iff)

lemma distinct_template_indexes: "names_ok ns \<Longrightarrow> distinct (template_indexes nm ns)"
  by (simp add: names_ok_def template_indexes_eq distinct_snd_filter)

lemma next_index_int:
  "\<forall>i\<in>set is. int_index i \<Longrightarrow> int_index (next_index is)"
proof (induction "is" rule: next_index.induct)
  case 1
  show ?case unfolding int_index_iff by (rule exI [of _ 0]) simp
next
  case (2 i)
  then obtain k where "i = int_num k" by (auto simp: int_index_iff)
  then show ?case unfolding int_index_iff by (intro exI [of _ "k + 1"]) simp
next
  case (3 i j "is")
  then obtain k where "i = int_num k" by (auto simp: int_index_iff)
  then have "int_index (num_add i (Fin 1))"
    unfolding int_index_iff by (intro exI [of _ "k + 1"]) simp
  with 3 show ?case by simp
qed

lemma next_index_above:
  "is \<noteq> [] \<Longrightarrow> \<forall>i\<in>set is. int_index i \<Longrightarrow> sorted is \<Longrightarrow> distinct is \<Longrightarrow>
     hd is < next_index is \<and> next_index is \<notin> set is"
proof (induction "is" rule: next_index.induct)
  case (2 i)
  then show ?case by (auto simp: int_index_iff)
next
  case (3 i j "is")
  then obtain k l where ij: "i = int_num k" "j = int_num l" by (auto simp: int_index_iff)
  have lt: "i < j" using 3 by auto
  show ?case
  proof (cases "num_eq (num_add i (Fin 1)) j")
    case True
    then have "j < next_index (j # is) \<and> next_index (j # is) \<notin> set (j # is)"
      using 3 by simp
    with True lt show ?thesis by auto
  next
    case False
    let ?n = "num_add i (Fin 1)"
    have n: "?n = int_num (k + 1)" using ij by simp
    have "k + 1 \<noteq> l" using False n ij by (auto simp: num_eq_def)
    then have "k + 1 < l" using lt ij by simp
    then have "?n < j" unfolding n using ij by (simp only: jsnum_less_simps of_int_less_iff)
    moreover have "i < ?n" using ij by simp
    moreover have "\<forall>x\<in>set is. j \<le> x" using 3 by simp
    ultimately show ?thesis using False by force
  qed
qed simp

lemma splitName_join:
  assumes "CHR ''_'' \<notin> set nm"
  shows "splitName (nm @ ''_'' @ int_to_string k) = (nm, int_num k)"
  using assms
  by (simp add: splitName_def js_split_append js_split_no_sep int_to_string_no_underscore
      num_of_int_to_string)

lemma count_underscore_join:
  "CHR ''_'' \<notin> set nm \<Longrightarrow> count_list (nm @ ''_'' @ int_to_string k) (CHR ''_'') = 1"
  using int_to_string_no_underscore [of k] by (simp add: count_notin)

lemma indexed_names_append: "indexed_names (ns @ ms) = indexed_names ns @ indexed_names ms"
  by (simp add: indexed_names_def)

lemma indexed_names_new:
  assumes "CHR ''_'' \<notin> set nm" and "node_name x = nm @ ''_'' @ int_to_string k"
  shows "indexed_names [x] = [(nm, int_num k)]"
  using splitName_join [OF assms(1), of k] count_underscore_join [OF assms(1), of k] assms(2)
  by (simp add: indexed_names_def)

lemma generated_name_form:
  assumes "names_ok ns"
  obtains k where "next_index (template_indexes nm ns) = int_num k"
    and "generateNodeNamesWithIncreasingIndex nm ns = nm @ ''_'' @ int_to_string k"
    and "(nm, int_num k) \<notin> set (indexed_names ns)"
proof -
  let ?is = "template_indexes nm ns"
  have ints: "\<forall>i\<in>set ?is. int_index i"
    using assms by (fastforce simp: set_template_indexes names_ok_def)
  then obtain k where k: "next_index ?is = int_num k"
    using next_index_int by (auto simp: int_index_iff)
  have sorted: "sorted ?is" by (simp add: template_indexes_eq)
  have "next_index ?is \<notin> set ?is"
    using next_index_above [OF _ ints sorted distinct_template_indexes [OF assms]]
    by (cases "?is = []") auto
  then have "(nm, int_num k) \<notin> set (indexed_names ns)"
    using k by (simp add: set_template_indexes)
  moreover have "generateNodeNamesWithIncreasingIndex nm ns = nm @ ''_'' @ int_to_string k"
    by (simp only: generateNodeNamesWithIncreasingIndex_def k num_to_string_int)
  ultimately show ?thesis using that k by blast
qed

lemma generated_name_fresh:
  assumes "names_ok ns" and "CHR ''_'' \<notin> set nm"
  shows "generateNodeNamesWithIncreasingIndex nm ns \<notin> node_name ` set ns"
proof
  assume "generateNodeNamesWithIncreasingIndex nm ns \<in> node_name ` set ns"
  moreover obtain k where "generateNodeNamesWithIncreasingIndex nm ns = nm @ ''_'' @ int_to_string k"
    and new: "(nm, int_num k) \<notin> set (indexed_names ns)"
    using generated_name_form [OF assms(1)] by blast
  ultimately obtain x where x: "x \<in> set ns" "node_name x = nm @ ''_'' @ int_to_string k" by auto
  have "indexed_names [x] = [(nm, int_num k)]"
    by (rule indexed_names_new [OF assms(2) x(2)])
  moreover have "set (indexed_names [x]) \<subseteq> set (indexed_names ns)"
    using x(1) by (auto simp: indexed_names_def)
  ultimately show False using new by simp
qed

lemma generated_name_ok:
  assumes "names_ok ns" and "CHR ''_'' \<notin> set nm"
    and "node_name x = generateNodeNamesWithIncreasingIndex nm ns"
  shows "names_ok (ns @ [x])"
proof -
  obtain k where "generateNodeNamesWithIncreasingIndex nm ns = nm @ ''_'' @ int_to_string k"
    and new: "(nm, int_num k) \<notin> set (indexed_names ns)"
    using generated_name_form [OF assms(1)] by blast
  then have "indexed_names [x] = [(nm, int_num k)]"
    using assms by (simp add: indexed_names_new)
  with assms(1) new show ?thesis
    by (auto simp: names_ok_def indexed_names_append int_index_iff)
qed

text \<open>
  The contract a caller of the name generator relies on. \<open>inv\<close> is kept by every node the
  caller appends under a generated name, and the names stay different.
\<close>

locale name_supply =
  fixes gen :: "string \<Rightarrow> node list \<Rightarrow> string"
    and inv :: "node list \<Rightarrow> bool"
    and base_ok :: "string \<Rightarrow> bool"
  assumes gen_fresh: "inv ns \<Longrightarrow> base_ok nm \<Longrightarrow> gen nm ns \<notin> node_name ` set ns"
    and gen_inv: "inv ns \<Longrightarrow> base_ok nm \<Longrightarrow> node_name x = gen nm ns \<Longrightarrow> inv (ns @ [x])"
begin

lemma append_distinct_names:
  assumes "inv ns" and "base_ok nm" and "distinct (map node_name ns)" and "node_name x = gen nm ns"
  shows "distinct (map node_name (ns @ [x])) \<and> inv (ns @ [x])"
  using gen_fresh [OF assms(1,2)] gen_inv [OF assms(1,2,4)] assms(3,4) by auto

end

definition plain_base :: "string \<Rightarrow> bool" where
  "plain_base nm = (CHR ''_'' \<notin> set nm)"

interpretation node_names: name_supply generateNodeNamesWithIncreasingIndex names_ok plain_base
  by unfold_locales (auto simp: plain_base_def dest: generated_name_fresh generated_name_ok)

text \<open>A base name that itself contains an underscore always gets index 0.\<close>

lemma splitName_fst_no_underscore: "CHR ''_'' \<notin> set (fst (splitName nm))"
proof -
  have "c \<notin> set (hd (js_split c s))" for c and s :: string
    by (induction s) auto
  then show ?thesis by (simp add: splitName_def Let_def)
qed

lemma underscore_base_index:
  assumes "CHR ''_'' \<in> set nm"
  shows "generateNodeNamesWithIncreasingIndex nm ns = nm @ ''_0''"
proof -
  have "fst p \<noteq> nm" if "p \<in> set (indexed_names ns)" for p
    using assms that splitName_fst_no_underscore by (auto simp: indexed_names_def)
  then have "filter (\<lambda>p. fst p = nm) (indexed_names ns) = []"
    by (simp add: filter_empty_conv)
  then have "template_indexes nm ns = []"
    by (simp add: template_indexes_eq)
  moreover have "num_to_string (Fin 0) = ''0''" by code_simp
  ultimately show ?thesis
    by (simp add: generateNodeNamesWithIncreasingIndex_def)
qed

section \<open>Duplicating a node\<close>

definition clear_to :: "jsval \<Rightarrow> jsval" where
  "clear_to v = JObj (obj_put ''to'' JUndef (entries v))"

definition duplicateNodeForm :: "node_data option \<Rightarrow> node_data" where
  "duplicateNodeForm nodeData =
     (let frm = (case nodeData of None \<Rightarrow> []
                 | Some d \<Rightarrow> entries (js_coalesce (case form d of None \<Rightarrow> JUndef | Some f \<Rightarrow> f) (JObj [])));
          frm' = (if map_option label nodeData = Some (op_str OpCategorize)
                  then obj_put ''category_description''
                         (JObj (map (\<lambda>(k, v). (k, clear_to v))
                            (entries (js_coalesce (obj_get frm ''category_description'') (JObj [])))))
                         frm
                  else frm)
      in (case nodeData of None \<Rightarrow> \<lparr>label = [], nname = [], form = Some (JObj frm')\<rparr>
          | Some d \<Rightarrow> d\<lparr>form := Some (JObj frm')\<rparr>))"

text \<open>
  The fields a duplicate gets. \<open>generateDuplicateNode\<close> returns an object that is spread over
  the copied node; here it is applied to the node. \<open>hid\<close> is the value of \<open>humanId()\<close>.
\<close>

definition dup_position :: "xy_position option \<Rightarrow> xy_position" where
  "dup_position p =
     \<lparr>px = (case p of None \<Rightarrow> 0 | Some q \<Rightarrow> px q) + 50, py = (case p of None \<Rightarrow> 0 | Some q \<Rightarrow> py q) + 50\<rparr>"

definition dup_id :: "string \<Rightarrow> string option \<Rightarrow> string" where
  "dup_id hid lbl = (case lbl of None \<Rightarrow> ''undefined'' | Some l \<Rightarrow> l) @ '':'' @ hid"

definition generateDuplicateNode :: "string \<Rightarrow> xy_position option \<Rightarrow> string option \<Rightarrow> node \<Rightarrow> node" where
  "generateDuplicateNode hid pos lbl n =
     n\<lparr>selected := Some False, dragging := Some False, nid := dup_id hid lbl,
       position := dup_position pos,
       dragHandle := (case lbl of None \<Rightarrow> None | Some l \<Rightarrow> getNodeDragHandle l)\<rparr>"

definition needsSingleStepDebugging :: "string \<Rightarrow> bool" where
  "needsSingleStepDebugging lbl = (\<not> list_ex (\<lambda>x. lbl = op_str x) NoDebugOperatorsList)"

definition showCopyIcon :: "string \<Rightarrow> bool" where
  "showCopyIcon lbl = (\<not> list_ex (\<lambda>x. lbl = op_str x) NoCopyOperatorsList)"

section \<open>Tools of an agent\<close>

definition getAgentNodeTools :: "libs \<Rightarrow> node option \<Rightarrow> jsval" where
  "getAgentNodeTools L agentNode =
     (case agentNode of None \<Rightarrow> JArr []
      | Some n \<Rightarrow> lodash_get L (case node_form n of None \<Rightarrow> JUndef | Some f \<Rightarrow> f) [''tools''] (JArr []))"

definition getAgentNodeMCP :: "libs \<Rightarrow> node option \<Rightarrow> jsval" where
  "getAgentNodeMCP L agentNode =
     (case agentNode of None \<Rightarrow> JArr []
      | Some n \<Rightarrow> lodash_get L (case node_form n of None \<Rightarrow> JUndef | Some f \<Rightarrow> f) [''mcp''] (JArr []))"

section \<open>Position relative to an iteration node\<close>

definition iteration_hit :: "xy_position \<Rightarrow> node \<Rightarrow> bool" where
  "iteration_hit p n =
     (let x = px (position n); y = py (position n);
          halfWidth = (case width n of None \<Rightarrow> 0 | Some w \<Rightarrow> w) / 2;
          h = (case height n of None \<Rightarrow> 0 | Some h \<Rightarrow> h)
      in px p \<ge> x - halfWidth \<and> px p \<le> x + halfWidth \<and> py p \<ge> y \<and> py p \<le> y + h)"

definition getRelativePositionToIterationNode ::
    "node list \<Rightarrow> xy_position option \<Rightarrow> (string \<times> xy_position) option" where
  "getRelativePositionToIterationNode ns pos =
     (case pos of None \<Rightarrow> None
      | Some p \<Rightarrow>
          (case find (iteration_hit p) (filter (\<lambda>n. nlabel n = op_str OpIteration) ns) of
             None \<Rightarrow> None
           | Some n \<Rightarrow>
               Some (nid n,
                 \<lparr>px = px p - px (position n) + (case width n of None \<Rightarrow> 0 | Some w \<Rightarrow> w) / 2,
                  py = py p - py (position n)\<rparr>)))"

lemma relative_position_inside:
  assumes "getRelativePositionToIterationNode ns (Some p) = Some (i, q)"
  obtains n where "n \<in> set ns" "nid n = i" "nlabel n = op_str OpIteration"
    "0 \<le> px q" "px q \<le> (case width n of None \<Rightarrow> 0 | Some w \<Rightarrow> w)"
    "0 \<le> py q" "py q \<le> (case height n of None \<Rightarrow> 0 | Some h \<Rightarrow> h)"
proof -
  obtain n where n: "find (iteration_hit p) (filter (\<lambda>n. nlabel n = op_str OpIteration) ns) = Some n"
    and q: "i = nid n" "q = \<lparr>px = px p - px (position n) + (case width n of None \<Rightarrow> 0 | Some w \<Rightarrow> w) / 2,
                  py = py p - py (position n)\<rparr>"
    using assms by (auto simp: getRelativePositionToIterationNode_def split: option.splits)
  have "n \<in> set ns" "nlabel n = op_str OpIteration" "iteration_hit p n"
    using find_Some_in [OF n] by auto
  then show ?thesis
    using that [of n] q by (auto simp: iteration_hit_def Let_def field_simps)
qed

end
