(* ===== verification/Form_Data.thy ===== *)
theory Form_Data
  imports Canvas_Utils
begin

text \<open>
  The helpers of \<open>pages/agent/utils.ts\<close> that convert form data: category lists to objects and
  back, key/value lists, begin queries, global variables of the DSL, ids replaced by names,
  anchor positions of categories and element types of arrays.
\<close>

section \<open>Arrays of values and arrays of objects\<close>

definition convertToStringArray :: "jsval \<Rightarrow> jsval res" where
  "convertToStringArray l =
     (case l of JArr xs \<Rightarrow> bind_r (map_r (\<lambda>x. js_prop x ''value'') xs) (\<lambda>ys. Inr (JArr ys))
      | _ \<Rightarrow> Inr (JArr []))"

definition convertToObjectArray :: "jsval \<Rightarrow> jsval" where
  "convertToObjectArray l =
     (case l of JArr xs \<Rightarrow> JArr (map (\<lambda>x. JObj [(''value'', x)]) xs) | _ \<Rightarrow> JArr [])"

lemma convert_roundtrip: "convertToStringArray (convertToObjectArray (JArr xs)) = Inr (JArr xs)"
proof -
  have "map_r (\<lambda>x. js_prop x ''value'') (map (\<lambda>x. JObj [(''value'', x)]) xs) = Inr xs"
    by (induction xs) simp_all
  then show ?thesis by (simp add: convertToStringArray_def convertToObjectArray_def)
qed

definition transformArrayToObject :: "jsval \<Rightarrow> jsval obj res" where
  "transformArrayToObject l =
     (case l of
        JArr xs \<Rightarrow>
          bind_r (map_r (\<lambda>x. bind_r (js_prop x ''key'') (\<lambda>k. bind_r (js_prop x ''value'') (\<lambda>v. Inr (k, v)))) xs)
            (\<lambda>kvs. Inr (obj_of_entries (concat (map (\<lambda>(k, v). if truthy k then [(js_to_string k, v)] else []) kvs))))
      | _ \<Rightarrow> Inr [])"

section \<open>Categories\<close>

definition category_item :: "string \<Rightarrow> jsval \<Rightarrow> jsval obj res" where
  "category_item k v =
     bind_r (js_prop v ''examples'')
       (\<lambda>ex. Inr (obj_put ''examples'' (convertToObjectArray ex) (obj_assign [(''name'', JStr k)] (entries v))))"

definition buildCategorizeListFromObject :: "jsval obj \<Rightarrow> jsval obj list res" where
  "buildCategorizeListFromObject categorizeItem =
     bind_r (map_r (\<lambda>(k, v). category_item k v) categorizeItem)
       (\<lambda>items. Inr (js_sort (\<lambda>it. js_number (obj_get it ''index'')) items))"

text \<open>
  An entry of the object made from a list item, none for an item without a name.
\<close>

definition category_entry :: "libs \<Rightarrow> jsval obj \<Rightarrow> (string \<times> jsval) list res" where
  "category_entry L cur =
     (let nm = obj_get cur ''name'' in
      if truthy nm
      then bind_r (convertToStringArray (obj_get cur ''examples''))
             (\<lambda>ex. Inr [(js_to_string nm, JObj (obj_put ''examples'' ex (lodash_omit L cur [''name'', ''examples''])))])
      else Inr [])"

definition buildCategorizeObjectFromList :: "libs \<Rightarrow> jsval obj list \<Rightarrow> jsval obj res" where
  "buildCategorizeObjectFromList L items =
     bind_r (map_r (category_entry L) items) (\<lambda>ess. Inr (obj_of_entries (concat ess)))"

text \<open>A category as the form keeps it: no name of its own, and a list of examples.\<close>

definition category_ok :: "string \<times> jsval \<Rightarrow> bool" where
  "category_ok kv = (fst kv \<noteq> [] \<and>
     (case snd kv of JObj w \<Rightarrow> distinct (keys w) \<and> ''name'' \<notin> set (keys w)
        \<and> is_array (obj_get w ''examples'') | _ \<Rightarrow> False))"

definition same_fields :: "jsval \<Rightarrow> jsval \<Rightarrow> bool" where
  "same_fields v w = (\<exists>a b. v = JObj a \<and> w = JObj b \<and> (\<forall>k. obj_get a k = obj_get b k))"

lemma category_item_total:
  assumes "category_ok (k, v)"
  obtains w xs it where "v = JObj w" "obj_get w ''examples'' = JArr xs" "category_item k v = Inr it"
    and "\<And>j. obj_get it j = (if j = ''examples'' then convertToObjectArray (JArr xs)
            else if j = ''name'' then JStr k else obj_get w j)"
proof -
  obtain w xs where w: "v = JObj w" "distinct (keys w)" "''name'' \<notin> set (keys w)"
    "obj_get w ''examples'' = JArr xs"
    using assms by (auto simp: category_ok_def split: jsval.splits elim: is_array.elims)
  have "obj_get it j = (if j = ''examples'' then convertToObjectArray (JArr xs)
            else if j = ''name'' then JStr k else obj_get w j)"
    if "it = obj_put ''examples'' (convertToObjectArray (JArr xs)) (obj_assign [(''name'', JStr k)] w)" for it j
    using w that by (auto simp: obj_get_assign obj_get_missing)
  with w show ?thesis
    by (intro that [of w xs "obj_put ''examples'' (convertToObjectArray (JArr xs)) (obj_assign [(''name'', JStr k)] w)"])
      (simp_all add: category_item_def)
qed

definition category_back :: "libs \<Rightarrow> string \<times> jsval \<Rightarrow> jsval obj \<Rightarrow> bool" where
  "category_back L kv it = (\<exists>w'. category_entry L it = Inr [(fst kv, w')] \<and> same_fields (snd kv) w')"

lemma category_back_item:
  assumes "lodash_api L" and "category_ok (k, v)" and "category_item k v = Inr it"
  shows "category_back L (k, v) it"
proof -
  obtain w xs where w: "v = JObj w" "obj_get w ''examples'' = JArr xs"
    and it: "\<And>j. obj_get it j = (if j = ''examples'' then convertToObjectArray (JArr xs)
            else if j = ''name'' then JStr k else obj_get w j)"
    using assms(3) by (rule_tac category_item_total [OF assms(2)]) auto
  let ?w' = "obj_put ''examples'' (JArr xs) (lodash_omit L it [''name'', ''examples''])"
  have "obj_get w ''name'' = JUndef" "k \<noteq> []"
    using assms(2) w(1) by (auto simp: category_ok_def obj_get_missing)
  then have "\<forall>j. obj_get w j = obj_get ?w' j"
    using w(2) it by (auto simp: lodash_api.omit_get [OF assms(1)])
  moreover have "category_entry L it = Inr [(k, JObj ?w')]"
    using it \<open>k \<noteq> []\<close> by (simp add: category_entry_def convert_roundtrip)
  ultimately show ?thesis using w(1) by (auto simp: category_back_def same_fields_def)
qed

lemma map_r_list_all2: "map_r f xs = Inr ys \<Longrightarrow> list_all2 (\<lambda>x y. f x = Inr y) xs ys"
  by (induction xs arbitrary: ys) auto

lemma map_r_exists: "(\<And>x. x \<in> set xs \<Longrightarrow> \<exists>y. f x = Inr y) \<Longrightarrow> \<exists>ys. map_r f xs = Inr ys"
  by (induction xs) fastforce+

lemma list_all2_right: "list_all2 P xs ys \<Longrightarrow> y \<in> set ys \<Longrightarrow> \<exists>x\<in>set xs. P x y"
  by (induction rule: list_all2_induct) auto

lemma map_of_mset_eq:
  "distinct (keys xs) \<Longrightarrow> mset xs = mset ys \<Longrightarrow> map_of xs = map_of ys"
  by (metis distinct_map keys_def map_of_inject_set mset_eq_setD mset_map
      distinct_count_atmost_1 set_mset_mset)

lemma category_list:
  assumes L: "lodash_api L" and ok: "list_all category_ok ob"
  obtains its where "map_r (\<lambda>(k, v). category_item k v) ob = Inr its"
    and "list_all2 (category_back L) ob its"
proof -
  have "\<exists>it. category_item k v = Inr it" if "(k, v) \<in> set ob" for k v
    using ok that by (auto simp: list_all_iff elim!: category_item_total)
  then obtain its where its: "map_r (\<lambda>(k, v). category_item k v) ob = Inr its"
    using map_r_exists [of ob "\<lambda>(k, v). category_item k v"] by auto
  have "list_all2 (category_back L) ob its"
    using map_r_list_all2 [OF its] ok
    by (rule_tac list.rel_mono_strong [where R = "\<lambda>x y. (case x of (k, v) \<Rightarrow> category_item k v) = Inr y"])
      (auto simp: list_all_iff intro!: category_back_item [OF L])
  with its show ?thesis by (rule that)
qed

definition back_entry :: "libs \<Rightarrow> jsval obj \<Rightarrow> string \<times> jsval" where
  "back_entry L it = (case category_entry L it of Inr [e] \<Rightarrow> e | _ \<Rightarrow> ([], JUndef))"

lemma category_back_entry:
  "category_back L kv it \<Longrightarrow>
     category_entry L it = Inr [back_entry L it] \<and> fst (back_entry L it) = fst kv
     \<and> same_fields (snd kv) (snd (back_entry L it))"
  by (auto simp: category_back_def back_entry_def)

lemma list_all2_back_lookup:
  "list_all2 (category_back L) ob its \<Longrightarrow>
     keys (map (back_entry L) its) = keys ob \<and>
     (\<forall>k v. map_of ob k = Some v \<longrightarrow> (\<exists>w. map_of (map (back_entry L) its) k = Some w \<and> same_fields v w))"
proof (induction rule: list_all2_induct)
  case (Cons kv ob it its)
  obtain w where "back_entry L it = (fst kv, w)" "same_fields (snd kv) w"
    using category_back_entry [OF Cons.hyps(1)] by (metis prod.collapse)
  with Cons.IH show ?case by (cases kv) auto
qed simp

lemma buildCategorizeObjectFromList_entries:
  assumes "\<forall>it\<in>set its. category_entry L it = Inr [back_entry L it]"
  shows "buildCategorizeObjectFromList L its = Inr (obj_of_entries (map (back_entry L) its))"
  using assms map_r_total [of its "category_entry L" "\<lambda>it. [back_entry L it]"]
  by (simp add: buildCategorizeObjectFromList_def)

lemma categorize_roundtrip_lookup:
  assumes L: "lodash_api L" and dst: "distinct (keys ob)" and ok: "list_all category_ok ob"
  shows "\<exists>items ob'. buildCategorizeListFromObject ob = Inr items
     \<and> buildCategorizeObjectFromList L items = Inr ob'
     \<and> set (keys ob') = set (keys ob)
     \<and> (\<forall>k v. map_of ob k = Some v \<longrightarrow> (\<exists>w. map_of ob' k = Some w \<and> same_fields v w))"
proof -
  obtain its where its: "map_r (\<lambda>(k, v). category_item k v) ob = Inr its"
    and bk: "list_all2 (category_back L) ob its"
    using category_list [OF L ok] by blast
  define srt where "srt = js_sort (\<lambda>it. js_number (obj_get it ''index'')) its"
  have lst: "buildCategorizeListFromObject ob = Inr srt"
    by (simp add: buildCategorizeListFromObject_def its srt_def)
  have ents: "\<forall>it\<in>set srt. category_entry L it = Inr [back_entry L it]"
    using list_all2_right [OF bk] category_back_entry by (fastforce simp: srt_def)
  have perm: "mset (map (back_entry L) its) = mset (map (back_entry L) srt)"
    by (simp add: srt_def)
  note lk = list_all2_back_lookup [OF bk]
  then have d1: "distinct (keys (map (back_entry L) its))" using dst by simp
  have d2: "distinct (keys (map (back_entry L) srt))"
    using d1 perm by (metis keys_def mset_eq_imp_distinct_iff mset_map)
  have eq: "map_of (obj_of_entries (map (back_entry L) srt)) = map_of (map (back_entry L) its)"
    using map_of_obj_of_entries [OF d2] map_of_mset_eq [OF d1 perm] by simp
  then have "set (keys (obj_of_entries (map (back_entry L) srt))) = set (keys ob)"
    using lk by (metis dom_map_of_conv_image_fst keys_def list.set_map)
  with lst eq lk show ?thesis
    by (auto simp: buildCategorizeObjectFromList_entries [OF ents])
qed

section \<open>Begin queries and global variables\<close>

definition buildBeginQueryWithObject :: "'v obj \<Rightarrow> jsval obj list \<Rightarrow> jsval obj" where
  "buildBeginQueryWithObject inputs values =
     obj_of_entries (concat (map (\<lambda>k.
       case find (\<lambda>x. obj_get x ''key'' = JStr k) values of None \<Rightarrow> [] | Some item \<Rightarrow> [(k, JObj item)])
       (keys inputs)))"

text \<open>
  The globals of the DSL: the entries whose key contains \<open>sys\<close> are kept, and every global
  variable is written under \<open>env.\<close>.
\<close>

definition system_globals :: "jsval obj \<Rightarrow> jsval obj" where
  "system_globals glob = filter (\<lambda>kv. includes_str (fst kv) ''sys'') glob"

definition env_globals :: "jsval obj \<Rightarrow> jsval obj res" where
  "env_globals vars =
     bind_r (map_r (\<lambda>(k, v). bind_r (js_prop v ''value'') (\<lambda>x. Inr (''env.'' @ k, x))) vars)
       (\<lambda>es. Inr (obj_of_entries es))"

definition buildDslGlobalVariables ::
    "jsval obj \<Rightarrow> jsval obj option \<Rightarrow> jsval obj option \<Rightarrow> (jsval obj \<times> jsval obj) res" where
  "buildDslGlobalVariables glob dslVars globalVariables =
     (case globalVariables of
        None \<Rightarrow> Inr (glob, case dslVars of None \<Rightarrow> [] | Some vs \<Rightarrow> vs)
      | Some vars \<Rightarrow>
          bind_r (env_globals vars) (\<lambda>env. Inr (obj_assign (system_globals glob) env, vars)))"

lemma env_entries:
  "map_r (\<lambda>(k, v). bind_r (js_prop v ''value'') (\<lambda>x. Inr (''env.'' @ k, x))) vars = Inr es \<Longrightarrow>
     keys es = map ((@) ''env.'') (keys vars)
     \<and> (\<forall>k v. map_of vars k = Some v \<longrightarrow> (\<exists>x. js_prop v ''value'' = Inr x \<and> map_of es (''env.'' @ k) = Some x))"
  by (induction vars arbitrary: es) (fastforce)+

lemma env_globals_lookup:
  assumes "distinct (keys vars)" and "env_globals vars = Inr env"
  shows "distinct (keys env) \<and> set (keys env) = (@) ''env.'' ` set (keys vars)
     \<and> (\<forall>k v. map_of vars k = Some v \<longrightarrow> (\<exists>x. js_prop v ''value'' = Inr x \<and> map_of env (''env.'' @ k) = Some x))"
proof -
  obtain es where es: "map_r (\<lambda>(k, v). bind_r (js_prop v ''value'') (\<lambda>x. Inr (''env.'' @ k, x))) vars = Inr es"
    and env: "env = obj_of_entries es"
    using assms(2) by (auto simp: env_globals_def)
  have d: "distinct (keys es)"
    using env_entries [OF es] assms(1) by (simp add: distinct_map inj_on_def)
  have "set (keys env) = set (keys es)"
    using set_keys_obj_assign [of "[]" es] by (simp add: env obj_of_entries_def obj_assign_def)
  moreover have "distinct (keys env)"
    using distinct_keys_obj_assign [of "[]" es] by (simp add: env obj_of_entries_def obj_assign_def)
  ultimately show ?thesis
    using env_entries [OF es] map_of_obj_of_entries [OF d] by (auto simp: env)
qed

section \<open>Replacing ids by names\<close>

definition with_text :: "(string \<Rightarrow> string option) \<Rightarrow> jsval \<Rightarrow> jsval \<Rightarrow> jsval" where
  \<comment> \<open>\<open>text ? text : otherwise\<close> with \<open>text\<close> the name of a string value\<close>
  "with_text getNameById val otherwise =
     (case val of JStr s \<Rightarrow> (case getNameById s of Some t \<Rightarrow> if t \<noteq> [] then JStr t else otherwise | None \<Rightarrow> otherwise)
      | _ \<Rightarrow> otherwise)"

fun replaceIdWithText :: "(string \<Rightarrow> string option) \<Rightarrow> jsval \<Rightarrow> jsval" where
  "replaceIdWithText getNameById (JObj ob) =
     JObj (map (\<lambda>kv. (fst kv, with_text getNameById (snd kv) (replaceIdWithText getNameById (snd kv)))) ob)"
| "replaceIdWithText getNameById (JArr xs) =
     JArr (map (\<lambda>v. with_text getNameById v (replaceIdWithText getNameById v)) xs)"
| "replaceIdWithText getNameById v = v"

text \<open>The structure of a value: everything but the text of its strings.\<close>

fun skeleton :: "jsval \<Rightarrow> jsval" where
  "skeleton (JStr s) = JStr []"
| "skeleton (JObj ob) = JObj (map (\<lambda>kv. (fst kv, skeleton (snd kv))) ob)"
| "skeleton (JArr xs) = JArr (map skeleton xs)"
| "skeleton v = v"

lemma with_text_skeleton: "skeleton r = skeleton v \<Longrightarrow> skeleton (with_text g v r) = skeleton v"
  by (auto simp: with_text_def split: jsval.split option.split)

lemma replaceIdWithText_skeleton: "skeleton (replaceIdWithText g v) = skeleton v"
  by (induction g v rule: replaceIdWithText.induct) (simp_all add: with_text_skeleton)

lemma with_text_no_name: "(\<And>s. g s = None) \<Longrightarrow> with_text g v r = r"
  by (auto simp: with_text_def split: jsval.split)

lemma replaceIdWithText_no_name: "(\<And>s. g s = None) \<Longrightarrow> replaceIdWithText g v = v"
  by (induction g v rule: replaceIdWithText.induct) (simp_all add: with_text_no_name map_idI)

section \<open>Anchor positions of categories\<close>

record iposition =
  ip_top :: int
  ip_right :: int
  ip_idx :: nat

definition CategorizeAnchorPointPositions :: "(int \<times> int) list" where
  "CategorizeAnchorPointPositions =
     [(1, 34), (8, 18), (15, 10), (24, 4), (31, 1), (38, -2),
      (62, -2), (71, 1), (79, 6), (86, 12), (91, 20), (98, 34)]"

text \<open>
  One step of the reduce: take an unused anchor for the key, if any is left. \<open>sample\<close> is
  lodash's random choice.
\<close>

fun place_keys :: "(nat list \<Rightarrow> nat option) \<Rightarrow> string list \<Rightarrow> nat list \<Rightarrow> iposition obj \<Rightarrow> iposition obj" where
  "place_keys sample [] used pre = pre"
| "place_keys sample (cur # ks) used pre =
     (case sample (filter (\<lambda>x. x \<notin> set used) [0..<length CategorizeAnchorPointPositions]) of
        None \<Rightarrow> place_keys sample ks used pre
      | Some i \<Rightarrow>
          place_keys sample ks (used @ [i])
            (obj_put cur \<lparr>ip_top = fst (CategorizeAnchorPointPositions ! i),
                          ip_right = snd (CategorizeAnchorPointPositions ! i), ip_idx = i\<rparr> pre))"

definition buildNewPositionMap ::
    "(nat list \<Rightarrow> nat option) \<Rightarrow> (string list \<Rightarrow> string list \<Rightarrow> (string \<Rightarrow> string \<Rightarrow> bool) \<Rightarrow> string list) \<Rightarrow>
     string list \<Rightarrow> iposition obj \<Rightarrow> string list \<times> iposition obj" where
  "buildNewPositionMap sample interWith currentKeys previousPositionMap =
     (let intersectionKeys = interWith (keys previousPositionMap) currentKeys (\<lambda>a b. a = b);
          diffKeys = filter (\<lambda>x. x \<notin> set intersectionKeys) currentKeys
      in (intersectionKeys,
          place_keys sample diffKeys (map (\<lambda>kv. ip_idx (snd kv)) previousPositionMap) []))"

definition sample_ok :: "(nat list \<Rightarrow> nat option) \<Rightarrow> bool" where
  "sample_ok sample = (\<forall>xs. case sample xs of None \<Rightarrow> xs = [] | Some x \<Rightarrow> x \<in> set xs)"

text \<open>The indexes in a position map are distinct, in range and not in use.\<close>

definition anchors_ok :: "nat set \<Rightarrow> iposition obj \<Rightarrow> bool" where
  "anchors_ok used pm =
     ((\<forall>k l p q. map_of pm k = Some p \<longrightarrow> map_of pm l = Some q \<longrightarrow> ip_idx p = ip_idx q \<longrightarrow> k = l)
      \<and> (\<forall>k p. map_of pm k = Some p \<longrightarrow> ip_idx p < length CategorizeAnchorPointPositions \<and> ip_idx p \<notin> used
            \<and> (ip_top p, ip_right p) = CategorizeAnchorPointPositions ! ip_idx p))"

lemma anchors_ok_put:
  assumes "anchors_ok used pm" and "ip_idx p < length CategorizeAnchorPointPositions" "ip_idx p \<notin> used"
    and "(ip_top p, ip_right p) = CategorizeAnchorPointPositions ! ip_idx p"
    and "\<And>k q. map_of pm k = Some q \<Longrightarrow> ip_idx q \<noteq> ip_idx p"
  shows "anchors_ok used (obj_put k p pm)"
  using assms unfolding anchors_ok_def by (auto split: if_splits) (metis+)

lemma place_keys_anchors:
  assumes "sample_ok sample" and "anchors_ok (set used0) pre" and "set used0 \<subseteq> set used"
    and "\<And>k p. map_of pre k = Some p \<Longrightarrow> ip_idx p \<in> set used"
  shows "anchors_ok (set used0) (place_keys sample ks used pre)"
  using assms
proof (induction sample ks used pre rule: place_keys.induct)
  case (2 sample cur ks used pre)
  let ?free = "filter (\<lambda>x. x \<notin> set used) [0..<length CategorizeAnchorPointPositions]"
  show ?case
  proof (cases "sample ?free")
    case (Some i)
    then have i: "i < length CategorizeAnchorPointPositions" "i \<notin> set used"
      using "2.prems"(1) by (auto simp: sample_ok_def dest: spec [of _ ?free])
    let ?p = "\<lparr>ip_top = fst (CategorizeAnchorPointPositions ! i),
                ip_right = snd (CategorizeAnchorPointPositions ! i), ip_idx = i\<rparr>"
    have "anchors_ok (set used0) (obj_put cur ?p pre)"
      using "2.prems" i by (intro anchors_ok_put) auto
    with Some show ?thesis using "2.prems" i by (auto intro!: "2.IH"(2) split: if_splits)
  qed (use 2 in auto)
qed simp

section \<open>Element types of arrays\<close>

fun getArrayElementType :: "string \<Rightarrow> string" where
  \<comment> \<open>the first group of \<open>/<([^>]+)>/\<close>, or the empty string\<close>
  "getArrayElementType [] = []"
| "getArrayElementType (c # cs) =
     (let r = takeWhile (\<lambda>d. d \<noteq> CHR ''>'') cs in
      if c = CHR ''<'' \<and> r \<noteq> [] \<and> length r < length cs then r else getArrayElementType cs)"

lemma getArrayElementType_array:
  assumes "CHR ''<'' \<notin> set p" and "CHR ''>'' \<notin> set t" and "t \<noteq> []"
  shows "getArrayElementType (p @ ''<'' @ t @ ''>'') = t"
  using assms(1)
proof (induction p)
  case Nil
  have "takeWhile (\<lambda>d. d \<noteq> CHR ''>'') (t @ ''>'') = t"
    using assms(2) by (induction t) auto
  with assms(3) show ?case by simp
qed (auto simp: Let_def)

end
