(* ===== verification/Downstream.thy ===== *)
theory Downstream
  imports Canvas_Utils
begin

text \<open>
  \<open>pages/agent/utils/filter-downstream-nodes.ts\<close> and \<open>utils/delete-node.ts\<close>: the nodes below
  an agent and the edges deleted with them.

  The source recurses along the edges with no record of visited nodes. The recursion depth is
  an argument here: running out of it is the exhausted call stack of the language, a
  \<open>RangeError\<close>. On a graph without cycles a depth of two more than the number of edges is always
  enough, and from a node on a cycle no depth is.
\<close>

section \<open>All downstream nodes\<close>

fun add_new :: "'a list \<Rightarrow> 'a list \<Rightarrow> 'a list" where
  \<comment> \<open>\<open>ids.forEach(x => if (pre.every(y => y !== x)) pre.push(x))\<close>\<close>
  "add_new pre [] = pre"
| "add_new pre (x # xs) = add_new (if x \<in> set pre then pre else pre @ [x]) xs"

lemma set_add_new [simp]: "set (add_new pre xs) = set pre \<union> set xs"
  by (induction pre xs rule: add_new.induct) auto

lemma distinct_add_new [simp]: "distinct (add_new pre xs) \<longleftrightarrow> distinct pre"
proof (induction pre xs rule: add_new.induct)
  case (2 pre x xs)
  then show ?case by (cases "x \<in> set pre") auto
qed simp

definition direct_downstream :: "edge list \<Rightarrow> (edge \<Rightarrow> bool) \<Rightarrow> string \<Rightarrow> string list" where
  "direct_downstream es predicate nodeId = map target (filter (\<lambda>x. source x = nodeId \<and> predicate x) es)"

fun filterAllDownstreamNodeIds ::
    "nat \<Rightarrow> edge list \<Rightarrow> (edge \<Rightarrow> bool) \<Rightarrow> string list \<Rightarrow> string list res" where
  "filterAllDownstreamNodeIds 0 es predicate nodeIds = Inl RangeError"
| "filterAllDownstreamNodeIds (Suc depth) es predicate nodeIds =
     foldl (\<lambda>acc nodeId. bind_r acc (\<lambda>pre.
         let ds = direct_downstream es predicate nodeId in
         bind_r (filterAllDownstreamNodeIds depth es predicate ds)
           (\<lambda>rest. Inr (add_new pre (ds @ rest)))))
       (Inr []) nodeIds"

definition filterAllDownstreamAgentAndToolNodeIds :: "nat \<Rightarrow> edge list \<Rightarrow> string list \<Rightarrow> string list res" where
  "filterAllDownstreamAgentAndToolNodeIds depth es nodeIds =
     filterAllDownstreamNodeIds depth es
       (\<lambda>e. has_handle (sourceHandle e) HAgentBottom \<or> has_handle (sourceHandle e) HTool) nodeIds"

definition filterAllDownstreamAgentNodeIds :: "nat \<Rightarrow> edge list \<Rightarrow> string list \<Rightarrow> string list res" where
  "filterAllDownstreamAgentNodeIds depth es nodeIds =
     filterAllDownstreamNodeIds depth es (\<lambda>e. has_handle (sourceHandle e) HAgentBottom) nodeIds"

definition filterDownstreamAgentNodeIds :: "edge list \<Rightarrow> string option \<Rightarrow> string list" where
  "filterDownstreamAgentNodeIds es nodeId =
     map target (filter (\<lambda>x. Some (source x) = nodeId \<and> has_handle (sourceHandle x) HAgentBottom) es)"

section \<open>Correctness: the transitive closure of the edges\<close>

definition edge_rel :: "edge list \<Rightarrow> (edge \<Rightarrow> bool) \<Rightarrow> (string \<times> string) set" where
  "edge_rel es p = {(source e, target e) | e. e \<in> set es \<and> p e}"

lemma edge_rel_iff: "(a, b) \<in> edge_rel es p \<longleftrightarrow> (\<exists>e\<in>set es. source e = a \<and> target e = b \<and> p e)"
  by (auto simp: edge_rel_def)

lemma direct_downstream_set: "set (direct_downstream es p n) = edge_rel es p `` {n}"
  by (auto simp: direct_downstream_def edge_rel_def)

lemma finite_edge_rel: "finite (edge_rel es p)"
proof -
  have "edge_rel es p \<subseteq> (\<lambda>e. (source e, target e)) ` set es" by (auto simp: edge_rel_def)
  then show ?thesis by (rule finite_subset) simp
qed

lemma trancl_image_step: "r\<^sup>+ `` {n} = r `` {n} \<union> r\<^sup>+ `` (r `` {n})"
  by (subst trancl_unfold_left) (auto intro: rtrancl_into_trancl1 dest: rtranclD)

text \<open>The fold of one level, with the recursive call abstracted.\<close>

definition level :: "edge list \<Rightarrow> (edge \<Rightarrow> bool) \<Rightarrow> (string list \<Rightarrow> string list res) \<Rightarrow>
    string list res \<Rightarrow> string list \<Rightarrow> string list res" where
  "level es p rec acc ns =
     foldl (\<lambda>acc n. bind_r acc (\<lambda>pre. let ds = direct_downstream es p n in
         bind_r (rec ds) (\<lambda>rest. Inr (add_new pre (ds @ rest))))) acc ns"

lemma filterAll_Suc:
  "filterAllDownstreamNodeIds (Suc d) es p ns = level es p (filterAllDownstreamNodeIds d es p) (Inr []) ns"
  by (simp add: level_def)

lemma level_Nil [simp]: "level es p rec acc [] = acc"
  by (simp add: level_def)

lemma level_Cons [simp]:
  "level es p rec acc (n # ns) = level es p rec (bind_r acc (\<lambda>pre. let ds = direct_downstream es p n in
         bind_r (rec ds) (\<lambda>rest. Inr (add_new pre (ds @ rest))))) ns"
  by (simp add: level_def)

lemma level_Inl [simp]: "level es p rec (Inl e) ns = Inl e"
  by (induction ns) simp_all

lemma level_result:
  assumes "level es p rec (Inr pre) ns = Inr r"
    and "\<And>n rest. n \<in> set ns \<Longrightarrow> rec (direct_downstream es p n) = Inr rest \<Longrightarrow>
           set rest = (edge_rel es p)\<^sup>+ `` set (direct_downstream es p n)"
    and "distinct pre"
  shows "set r = set pre \<union> (edge_rel es p)\<^sup>+ `` set ns \<and> distinct r"
  using assms
proof (induction ns arbitrary: pre)
  case (Cons n ns)
  obtain rest where rest: "rec (direct_downstream es p n) = Inr rest"
    using Cons.prems(1) by (cases "rec (direct_downstream es p n)") auto
  let ?pre = "add_new pre (direct_downstream es p n @ rest)"
  have "set r = set ?pre \<union> (edge_rel es p)\<^sup>+ `` set ns \<and> distinct r"
    using Cons.prems rest by (intro Cons.IH) simp_all
  moreover have "set ?pre = set pre \<union> (edge_rel es p)\<^sup>+ `` {n}"
    using Cons.prems(2) [OF _ rest] trancl_image_step [of "edge_rel es p" n]
    by (auto simp: direct_downstream_set)
  ultimately show ?case by auto
qed simp

lemma filterAll_result:
  "filterAllDownstreamNodeIds d es p ns = Inr r \<Longrightarrow>
     set r = (edge_rel es p)\<^sup>+ `` set ns \<and> distinct r"
proof (induction d arbitrary: ns r)
  case (Suc d)
  then show ?case
    using level_result [of es p "filterAllDownstreamNodeIds d es p" "[]" ns r]
    by (simp add: filterAll_Suc del: filterAllDownstreamNodeIds.simps)
qed simp

lemma level_total:
  assumes "\<And>n. n \<in> set ns \<Longrightarrow> \<exists>rest. rec (direct_downstream es p n) = Inr rest"
  shows "\<exists>r. level es p rec (Inr pre) ns = Inr r"
  using assms
proof (induction ns arbitrary: pre)
  case (Cons n ns)
  then obtain rest where "rec (direct_downstream es p n) = Inr rest" by auto
  with Cons show ?case by simp
qed simp

lemma card_below:
  assumes "acyclic (edge_rel es p)" and "c \<in> edge_rel es p `` {n}"
  shows "card ((edge_rel es p)\<^sup>+ `` {c}) < card ((edge_rel es p)\<^sup>+ `` {n})"
proof (rule psubset_card_mono)
  show "finite ((edge_rel es p)\<^sup>+ `` {n})"
    using finite_trancl [of "edge_rel es p"] finite_edge_rel by (simp add: finite_Image)
  have "c \<in> (edge_rel es p)\<^sup>+ `` {n}" using assms(2) by auto
  moreover have "c \<notin> (edge_rel es p)\<^sup>+ `` {c}" using assms(1) by (simp add: acyclic_def)
  moreover have "(edge_rel es p)\<^sup>+ `` {c} \<subseteq> (edge_rel es p)\<^sup>+ `` {n}"
    using assms(2) by (auto intro: trancl_into_trancl2)
  ultimately show "(edge_rel es p)\<^sup>+ `` {c} \<subset> (edge_rel es p)\<^sup>+ `` {n}" by blast
qed

lemma filterAll_total:
  assumes "acyclic (edge_rel es p)" and "\<And>n. n \<in> set ns \<Longrightarrow> Suc (card ((edge_rel es p)\<^sup>+ `` {n})) < d"
    and "0 < d"
  shows "\<exists>r. filterAllDownstreamNodeIds d es p ns = Inr r"
  using assms(2,3)
proof (induction d arbitrary: ns)
  case (Suc d)
  have "\<exists>rest. filterAllDownstreamNodeIds d es p (direct_downstream es p n) = Inr rest"
    if n: "n \<in> set ns" for n
  proof (rule Suc.IH)
    fix x
    assume "x \<in> set (direct_downstream es p n)"
    then show "Suc (card ((edge_rel es p)\<^sup>+ `` {x})) < d"
      using card_below [OF assms(1), of x n] Suc.prems(1) [OF n] by (auto simp: direct_downstream_set)
  next
    show "0 < d" using Suc.prems(1) [OF n] by simp
  qed
  then show ?case by (simp add: filterAll_Suc level_total del: filterAllDownstreamNodeIds.simps)
qed simp

lemma card_reachable_edges: "card ((edge_rel es p)\<^sup>+ `` {n}) \<le> length es"
proof -
  have "(edge_rel es p)\<^sup>+ `` {n} \<subseteq> target ` set es"
    by (auto simp: edge_rel_def dest!: tranclD2)
  then have "card ((edge_rel es p)\<^sup>+ `` {n}) \<le> card (target ` set es)"
    by (simp add: card_mono)
  also have "\<dots> \<le> length es" using card_image_le [of "set es" target] card_length [of es] by simp
  finally show ?thesis .
qed

lemma filterAll_enough_depth:
  assumes "acyclic (edge_rel es p)" and "length es + 2 \<le> d"
  shows "\<exists>r. filterAllDownstreamNodeIds d es p ns = Inr r \<and> set r = (edge_rel es p)\<^sup>+ `` set ns \<and> distinct r"
proof -
  have "Suc (card ((edge_rel es p)\<^sup>+ `` {n})) < d" for n
    using card_reachable_edges [of es p n] assms(2) by linarith
  then obtain r where "filterAllDownstreamNodeIds d es p ns = Inr r"
    using filterAll_total [OF assms(1)] assms(2) by fastforce
  then show ?thesis using filterAll_result by blast
qed

text \<open>From a node that reaches a cycle, no depth is enough.\<close>

lemma level_diverges:
  assumes "n \<in> set ns" and "\<exists>e. rec (direct_downstream es p n) = Inl e"
  shows "\<exists>e. level es p rec acc ns = Inl e"
  using assms(1)
proof (induction ns arbitrary: acc)
  case (Cons m ns)
  show ?case
  proof (cases "m = n")
    case True
    then obtain e where "bind_r acc (\<lambda>pre. let ds = direct_downstream es p m in
         bind_r (rec ds) (\<lambda>rest. Inr (add_new pre (ds @ rest)))) = Inl e"
      using assms(2) by (cases acc) (auto simp: Let_def)
    then show ?thesis by simp
  next
    case False
    with Cons show ?thesis by simp
  qed
qed simp

lemma filterAll_cycle:
  assumes "(c, c) \<in> (edge_rel es p)\<^sup>+"
  shows "(n, c) \<in> (edge_rel es p)\<^sup>* \<Longrightarrow> n \<in> set ns \<Longrightarrow> \<exists>e. filterAllDownstreamNodeIds d es p ns = Inl e"
proof (induction d arbitrary: n ns)
  case (Suc d)
  have "(n, c) \<in> (edge_rel es p)\<^sup>+" using Suc.prems(1) assms by (rule rtrancl_trancl_trancl)
  then obtain m where m: "(n, m) \<in> edge_rel es p" "(m, c) \<in> (edge_rel es p)\<^sup>*"
    by (auto dest: tranclD)
  then have "\<exists>e. filterAllDownstreamNodeIds d es p (direct_downstream es p n) = Inl e"
    using Suc.IH [of m] by (auto simp: direct_downstream_set)
  then show ?case
    unfolding filterAll_Suc by (rule level_diverges [OF Suc.prems(2)])
qed simp

section \<open>What is deleted with an agent\<close>

fun collect_edges :: "edge list \<Rightarrow> edge list \<Rightarrow> edge list" where
  \<comment> \<open>\<open>relatedEdges.forEach(x => if (!pre.some(y => y.id !== x.id)) pre.push(x))\<close>\<close>
  "collect_edges pre [] = pre"
| "collect_edges pre (x # xs) =
     collect_edges (if list_ex (\<lambda>y. eid y \<noteq> eid x) pre then pre else pre @ [x]) xs"

definition deleteAllDownstreamAgentsAndTool ::
    "nat \<Rightarrow> string \<Rightarrow> edge list \<Rightarrow> (string list \<times> edge list) res" where
  "deleteAllDownstreamAgentsAndTool depth nodeId es =
     bind_r (filterAllDownstreamAgentAndToolNodeIds depth es [nodeId])
       (\<lambda>ids. Inr (ids, foldl (\<lambda>pre cur. collect_edges pre (filter (\<lambda>x. source x = cur \<or> target x = cur) es)) [] ids))"

definition agent_tool_rel :: "edge list \<Rightarrow> (string \<times> string) set" where
  "agent_tool_rel es =
     edge_rel es (\<lambda>e. has_handle (sourceHandle e) HAgentBottom \<or> has_handle (sourceHandle e) HTool)"

lemma deleteAll_ids:
  assumes "acyclic (agent_tool_rel es)" and "length es + 2 \<le> d"
  shows "\<exists>ids rel. deleteAllDownstreamAgentsAndTool d n es = Inr (ids, rel)
     \<and> set ids = (agent_tool_rel es)\<^sup>+ `` {n} \<and> distinct ids"
  using filterAll_enough_depth [OF assms(1) [unfolded agent_tool_rel_def] assms(2), of "[n]"]
  by (auto simp: deleteAllDownstreamAgentsAndTool_def filterAllDownstreamAgentAndToolNodeIds_def
      agent_tool_rel_def)

text \<open>
  The collected edges all carry one id: after the first edge is pushed, an edge with another
  id is never added.
\<close>

definition one_id :: "edge list \<Rightarrow> bool" where
  "one_id xs = (\<forall>x\<in>set xs. \<forall>y\<in>set xs. eid x = eid y)"

lemma one_id_snoc: "\<not> list_ex (\<lambda>y. eid y \<noteq> eid x) pre \<Longrightarrow> one_id (pre @ [x])"
  by (simp add: one_id_def list_ex_iff)

lemma collect_edges_one_id: "one_id pre \<Longrightarrow> one_id (collect_edges pre xs)"
proof (induction pre xs rule: collect_edges.induct)
  case (2 pre x xs)
  then show ?case by (cases "list_ex (\<lambda>y. eid y \<noteq> eid x) pre") (simp_all add: one_id_snoc)
qed simp

lemma collect_edges_sub: "set (collect_edges pre xs) \<subseteq> set pre \<union> set xs"
proof (induction pre xs rule: collect_edges.induct)
  case (2 pre x xs)
  then show ?case by (cases "list_ex (\<lambda>y. eid y \<noteq> eid x) pre") auto
qed simp

lemma foldl_collect_one_id: "one_id pre \<Longrightarrow> one_id (foldl (\<lambda>pre c. collect_edges pre (f c)) pre cs)"
  by (induction cs arbitrary: pre) (simp_all add: collect_edges_one_id)

lemma foldl_collect_sub:
  "set (foldl (\<lambda>pre c. collect_edges pre (f c)) pre cs) \<subseteq> set pre \<union> (\<Union>c\<in>set cs. set (f c))"
proof (induction cs arbitrary: pre)
  case (Cons c cs)
  from Cons [of "collect_edges pre (f c)"] show ?case
    using collect_edges_sub [of pre "f c"] by auto
qed simp

lemma deleteAll_edges:
  assumes "deleteAllDownstreamAgentsAndTool d n es = Inr (ids, rel)"
  shows "one_id rel \<and> set rel \<subseteq> {e \<in> set es. source e \<in> set ids \<or> target e \<in> set ids}"
proof -
  have rel: "rel = foldl (\<lambda>pre cur. collect_edges pre (filter (\<lambda>x. source x = cur \<or> target x = cur) es)) [] ids"
    using assms by (simp add: deleteAllDownstreamAgentsAndTool_def)
  have "one_id rel" unfolding rel by (rule foldl_collect_one_id) (simp add: one_id_def)
  moreover have "set rel \<subseteq> (\<Union>c\<in>set ids. set (filter (\<lambda>x. source x = c \<or> target x = c) es))"
    unfolding rel
    using foldl_collect_sub [of "\<lambda>cur. filter (\<lambda>x. source x = cur \<or> target x = cur) es" "[]" ids] by simp
  ultimately show ?thesis by auto
qed

end
