(* ===== verification/Graph_Store.thy ===== *)
theory Graph_Store
  imports Downstream
begin

text \<open>
  The zustand store of the agent canvas, \<open>pages/agent/store.ts\<close>: one definition per action.
  An action takes the state (and the library record \<open>L\<close> where it calls a library) and returns
  the new state; \<open>set\<close> merges the given fields. Values of \<open>humanId()\<close> are arguments. Copying
  (\<open>cloneDeep\<close>, spreads) matters only for aliasing between the old and the new state, which is
  not modelled: states are values.
\<close>

section \<open>Queries\<close>

definition getNode :: "string nullable \<Rightarrow> rf_state \<Rightarrow> node option" where
  "getNode i s = find (\<lambda>x. Val (nid x) = i) (nodes s)"

definition getOperatorTypeFromId :: "string nullable \<Rightarrow> rf_state \<Rightarrow> string option" where
  "getOperatorTypeFromId i s = map_option nlabel (getNode i s)"

definition getParentIdById :: "string nullable \<Rightarrow> rf_state \<Rightarrow> string option" where
  "getParentIdById i s = Option.bind (getNode i s) parentId"

definition getEdge :: "string \<Rightarrow> rf_state \<Rightarrow> edge option" where
  "getEdge i s = find (\<lambda>x. eid x = i) (edges s)"

definition findNodeByName :: "Operator \<Rightarrow> rf_state \<Rightarrow> node option" where
  "findNodeByName nm s = find (\<lambda>x. nlabel x = op_str nm) (nodes s)"

definition findUpstreamNodeById :: "string nullable \<Rightarrow> rf_state \<Rightarrow> node option" where
  "findUpstreamNodeById i s =
     getNode (case find (\<lambda>x. Val (target x) = i) (edges s) of None \<Rightarrow> Undefined | Some e \<Rightarrow> Val (source e)) s"

definition findAgentToolNodeById :: "string nullable \<Rightarrow> rf_state \<Rightarrow> string option" where
  "findAgentToolNodeById i s =
     map_option target (find (\<lambda>e. Val (source e) = i \<and> has_handle (sourceHandle e) HTool) (edges s))"

definition hasChildNode :: "string \<Rightarrow> rf_state \<Rightarrow> bool" where
  "hasChildNode nodeId s = list_ex (\<lambda>e. source e = nodeId) (edges s)"

definition generateNodeName :: "string \<Rightarrow> rf_state \<Rightarrow> string" where
  "generateNodeName nm s = generateNodeNamesWithIncreasingIndex nm (nodes s)"

section \<open>Setting nodes, edges and selections\<close>

definition setNodes :: "node list \<Rightarrow> rf_state \<Rightarrow> rf_state" where
  "setNodes ns s = s\<lparr>nodes := ns\<rparr>"

definition setEdges :: "edge list \<Rightarrow> rf_state \<Rightarrow> rf_state" where
  "setEdges es s = s\<lparr>edges := es\<rparr>"

definition onNodesChange :: "libs \<Rightarrow> jsval list \<Rightarrow> rf_state \<Rightarrow> rf_state" where
  "onNodesChange L changes s = s\<lparr>nodes := xy_applyNodeChanges L changes (nodes s)\<rparr>"

definition onEdgesChange :: "libs \<Rightarrow> jsval list \<Rightarrow> rf_state \<Rightarrow> rf_state" where
  "onEdgesChange L changes s = s\<lparr>edges := xy_applyEdgeChanges L changes (edges s)\<rparr>"

definition onEdgeMouseEnter :: "edge \<Rightarrow> rf_state \<Rightarrow> rf_state" where
  "onEdgeMouseEnter e s = setEdges (mapEdgeMouseEvent (edges s) (eid e) True) s"

definition onEdgeMouseLeave :: "edge \<Rightarrow> rf_state \<Rightarrow> rf_state" where
  "onEdgeMouseLeave e s = setEdges (mapEdgeMouseEvent (edges s) (eid e) False) s"

definition onSelectionChange :: "node list \<Rightarrow> edge list \<Rightarrow> rf_state \<Rightarrow> rf_state" where
  "onSelectionChange ns es s = s\<lparr>selectedEdgeIds := map eid es, selectedNodeIds := map nid ns\<rparr>"

definition setClickedNodeId :: "string option \<Rightarrow> rf_state \<Rightarrow> rf_state" where
  "setClickedNodeId i s = s\<lparr>clickedNodeId := i\<rparr>"

definition setClickedToolId :: "string option \<Rightarrow> rf_state \<Rightarrow> rf_state" where
  "setClickedToolId i s = s\<lparr>clickedToolId := i\<rparr>"

definition selectNodeIds :: "string list \<Rightarrow> rf_state \<Rightarrow> rf_state" where
  "selectNodeIds ids s = setNodes (map (\<lambda>n. n\<lparr>selected := Some (nid n \<in> set ids)\<rparr>) (nodes s)) s"

definition addNode :: "node \<Rightarrow> rf_state \<Rightarrow> rf_state" where
  "addNode n s = s\<lparr>nodes := nodes s @ [n]\<rparr>"

definition updateNode :: "node \<Rightarrow> rf_state \<Rightarrow> rf_state" where
  "updateNode n s = s\<lparr>nodes := map (\<lambda>x. if nid x = nid n then n else x) (nodes s)\<rparr>"

definition setEdgesByNodeId :: "libs \<Rightarrow> string \<Rightarrow> edge list \<Rightarrow> rf_state \<Rightarrow> rf_state" where
  "setEdgesByNodeId L nodeId current s =
     (let previous = filter (\<lambda>x. source x = nodeId) (edges s);
          isDifferent =
            (length previous \<noteq> length current
             \<or> \<not> list_all (\<lambda>x. list_ex (\<lambda>y. isEdgeEqual y x) current) previous
             \<or> \<not> list_all (\<lambda>x. list_ex (\<lambda>y. isEdgeEqual y x) previous) current);
          inter = lodash_intersectionWith L previous current isEdgeEqual
      in if isDifferent then
           setEdges (filter (\<lambda>x. source x \<noteq> nodeId) (edges s) @ inter
                     @ lodash_differenceWith L current inter isEdgeEqual) s
         else s)"

section \<open>Forms\<close>

fun update_first :: "('a \<Rightarrow> bool) \<Rightarrow> ('a \<Rightarrow> 'a) \<Rightarrow> 'a list \<Rightarrow> 'a list" where
  \<comment> \<open>a \<open>for\<close> loop that changes the first match and breaks\<close>
  "update_first p f [] = []"
| "update_first p f (x # xs) = (if p x then f x # xs else x # update_first p f xs)"

definition set_form :: "jsval \<Rightarrow> node \<Rightarrow> node" where
  "set_form v n = n\<lparr>ndata := (ndata n)\<lparr>form := Some v\<rparr>\<rparr>"

definition next_form :: "libs \<Rightarrow> jsval \<Rightarrow> string list \<Rightarrow> node \<Rightarrow> jsval" where
  "next_form L vals path n =
     (let frm = entries (case node_form n of None \<Rightarrow> JUndef | Some f \<Rightarrow> f) in
      if path = [] then JObj (obj_assign frm (entries vals))
      else lodash_set L (JObj frm) path vals)"

definition updateNodeForm :: "libs \<Rightarrow> string \<Rightarrow> jsval \<Rightarrow> string list \<Rightarrow> rf_state \<Rightarrow> rf_state" where
  "updateNodeForm L nodeId vals path s =
     s\<lparr>nodes := map (\<lambda>n. if nid n = nodeId then set_form (next_form L vals path n) n else n) (nodes s)\<rparr>"

definition replaceNodeForm :: "libs \<Rightarrow> string \<Rightarrow> jsval \<Rightarrow> rf_state \<Rightarrow> rf_state" where
  "replaceNodeForm L nodeId vals s =
     (if nodeId \<noteq> [] then
        s\<lparr>nodes := update_first (\<lambda>n. nid n = nodeId) (set_form (lodash_cloneDeep L vals)) (nodes s)\<rparr>
      else s)"

definition updateNodeName :: "string \<Rightarrow> string \<Rightarrow> rf_state \<Rightarrow> rf_state" where
  "updateNodeName i nm s =
     (if i \<noteq> [] then
        s\<lparr>nodes := update_first (\<lambda>n. nid n = i) (\<lambda>n. n\<lparr>ndata := (ndata n)\<lparr>nname := nm\<rparr>\<rparr>) (nodes s)\<rparr>
      else s)"

text \<open>
  \<open>updateMutableNodeFormItem\<close> tests the index itself: index 0 is falsy, and -1 is truthy but
  names no element of the array.
\<close>

definition updateMutableNodeFormItem :: "libs \<Rightarrow> string \<Rightarrow> string \<Rightarrow> jsval \<Rightarrow> rf_state \<Rightarrow> rf_state" where
  "updateMutableNodeFormItem L i field val s =
     (case find_index (\<lambda>x. nid x = i) (nodes s) of
        None \<Rightarrow> s
      | Some idx \<Rightarrow>
          if idx \<noteq> 0 then
            s\<lparr>nodes := (nodes s)[idx := set_form
               (lodash_set L (case node_form (nodes s ! idx) of Some (JObj ob) \<Rightarrow> JObj ob
                              | Some (JArr xs) \<Rightarrow> JArr xs | _ \<Rightarrow> JObj []) [field] val)
               (nodes s ! idx)]\<rparr>
          else s)"

definition switch_targets :: "string \<Rightarrow> string nullable \<Rightarrow> rf_state \<Rightarrow> string list" where
  "switch_targets src sh s =
     map target (filter (\<lambda>x. source x = src \<and> sourceHandle x = sh
        \<and> getOperatorTypeFromId (Val (target x)) s \<noteq> Some (op_str OpPlaceholder)) (edges s))"

definition updateSwitchFormData ::
    "libs \<Rightarrow> string \<Rightarrow> string nullable \<Rightarrow> string nullable \<Rightarrow> bool \<Rightarrow> rf_state \<Rightarrow> rf_state" where
  "updateSwitchFormData L src sh tgt isConnecting s =
     (case sh of
        Val h \<Rightarrow>
          if h = [] then s
          else
            let current = switch_targets src sh s;
                targets = (if str_truthy tgt \<and> \<not> isConnecting then filter (\<lambda>x. Val x \<noteq> tgt) current
                           else current);
                vals = JArr (map JStr targets)
            in if h = SwitchElseTo then updateNodeForm L src vals [SwitchElseTo] s
               else
                 let operatorIndex = getOperatorIndex h in
                 if operatorIndex \<noteq> [] then
                   updateNodeForm L src vals
                     [''conditions'', num_to_string (num_sub (num_of_string operatorIndex) (Fin 1)), ''to''] s
                 else s
      | _ \<Rightarrow> s)"

section \<open>Connecting\<close>

definition updateFormDataOnConnect :: "libs \<Rightarrow> connection \<Rightarrow> rf_state \<Rightarrow> rf_state" where
  "updateFormDataOnConnect L c s =
     (if csource c \<noteq> [] \<and> getOperatorTypeFromId (Val (csource c)) s = Some (op_str OpSwitch)
      then updateSwitchFormData L (csource c) (csourceHandle c) (Val (ctarget c)) True s
      else s)"

definition onConnect :: "libs \<Rightarrow> connection \<Rightarrow> rf_state \<Rightarrow> rf_state" where
  "onConnect L c s = updateFormDataOnConnect L c (s\<lparr>edges := xy_addEdge L c (edges s)\<rparr>)"

definition addEdge :: "libs \<Rightarrow> connection \<Rightarrow> rf_state \<Rightarrow> rf_state" where
  "addEdge L c s = updateFormDataOnConnect L c (s\<lparr>edges := xy_addEdge L c (edges s)\<rparr>)"

section \<open>Duplicating\<close>

definition blank_node :: node where
  \<comment> \<open>the spread of a missing node\<close>
  "blank_node = \<lparr>nid = [], ntype = None, position = \<lparr>px = 0, py = 0\<rparr>,
     ndata = \<lparr>label = [], nname = [], form = None\<rparr>, parentId = None, width = None, height = None,
     selected = None, dragging = None, draggable = None, dragHandle = None, extent = None\<rparr>"

definition node_or_blank :: "node option \<Rightarrow> node" where
  "node_or_blank n = (case n of None \<Rightarrow> blank_node | Some m \<Rightarrow> m)"

definition duplicateIterationNode :: "(nat \<Rightarrow> string) \<Rightarrow> string \<Rightarrow> string \<Rightarrow> rf_state \<Rightarrow> rf_state" where
  "duplicateIterationNode hids i nm s =
     (let n = getNode (Val i) s;
          dat = (case n of None \<Rightarrow> \<lparr>label = op_str OpIteration, nname = [], form = Some (JObj [])\<rparr> | Some m \<Rightarrow> ndata m);
          iterationNode = generateDuplicateNode (hids 0) (map_option position n) (map_option nlabel n)
            ((node_or_blank n)\<lparr>ndata := dat\<lparr>nname := generateNodeName nm s\<rparr>\<rparr>);
          children = map (\<lambda>(k, x).
              (generateDuplicateNode (hids (Suc k)) (Some (position x)) (Some (nlabel x))
                 (x\<lparr>ndata := (duplicateNodeForm (Some (ndata x)))\<lparr>nname := generateNodeName (node_name x) s\<rparr>\<rparr>))
              \<lparr>position := position x, parentId := Some (nid iterationNode)\<rparr>)
            (enumerate 0 (filter (\<lambda>x. parentId x = map_option nid n) (nodes s)))
      in s\<lparr>nodes := nodes s @ iterationNode # children\<rparr>)"

definition duplicateNode :: "(nat \<Rightarrow> string) \<Rightarrow> string \<Rightarrow> string \<Rightarrow> rf_state \<Rightarrow> rf_state" where
  "duplicateNode hids i nm s =
     (let n = getNode (Val i) s in
      if map_option nlabel n = Some (op_str OpIteration) then duplicateIterationNode hids i nm s
      else addNode (generateDuplicateNode (hids 0) (map_option position n) (map_option nlabel n)
             ((node_or_blank n)\<lparr>ndata := (duplicateNodeForm (map_option ndata n))\<lparr>nname := generateNodeName nm s\<rparr>\<rparr>)) s)"

section \<open>Deleting\<close>

definition deleteEdge :: "rf_state \<Rightarrow> rf_state" where
  "deleteEdge s = s\<lparr>edges := filter (\<lambda>e. list_all (\<lambda>x. x \<noteq> eid e) (selectedEdgeIds s)) (edges s)\<rparr>"

definition deleteEdgeById :: "libs \<Rightarrow> string \<Rightarrow> rf_state \<Rightarrow> rf_state" where
  "deleteEdgeById L i s =
     (let s' = (case find (\<lambda>x. eid x = i) (edges s) of
                  None \<Rightarrow> s
                | Some e \<Rightarrow>
                    if getOperatorTypeFromId (Val (source e)) s = Some (op_str OpSwitch)
                    then updateSwitchFormData L (source e) (sourceHandle e) (Val (target e)) False s
                    else s)
      in s'\<lparr>edges := filter (\<lambda>e. eid e \<noteq> i) (edges s)\<rparr>)"

definition deleteEdgesBySourceAndSourceHandle :: "string \<Rightarrow> string \<Rightarrow> rf_state \<Rightarrow> rf_state" where
  "deleteEdgesBySourceAndSourceHandle src sh s =
     setEdges (filter (\<lambda>e. \<not> (source e = src \<and> sourceHandle e = Val sh)) (edges s)) s"

definition deleteAgentDownstreamNodesById :: "nat \<Rightarrow> string \<Rightarrow> rf_state \<Rightarrow> rf_state res" where
  "deleteAgentDownstreamNodesById depth i s =
     bind_r (deleteAllDownstreamAgentsAndTool depth i (edges s)) (\<lambda>(ids, rel).
       Inr (s\<lparr>nodes := filter (\<lambda>n. \<not> list_ex (\<lambda>x. x = nid n) ids \<and> nid n \<noteq> i) (nodes s),
              edges := filter (\<lambda>e. source e \<noteq> i \<and> target e \<noteq> i \<and> \<not> list_ex (\<lambda>x. eid x = eid e) rel) (edges s)\<rparr>))"

definition deleteNodeById :: "nat \<Rightarrow> string \<Rightarrow> rf_state \<Rightarrow> rf_state res" where
  "deleteNodeById depth i s =
     (if getOperatorTypeFromId (Val i) s = Some (op_str OpAgent)
      then deleteAgentDownstreamNodesById depth i s
      else Inr (s\<lparr>nodes := filter (\<lambda>n. nid n \<noteq> i) (nodes s),
                  edges := filter (\<lambda>e. target e \<noteq> i) (filter (\<lambda>e. source e \<noteq> i) (edges s))\<rparr>))"

definition deleteAgentToolNodeById :: "libs \<Rightarrow> nat \<Rightarrow> string \<Rightarrow> rf_state \<Rightarrow> rf_state res" where
  "deleteAgentToolNodeById L depth i s =
     (case find (\<lambda>x. source x = i \<and> has_handle (sourceHandle x) HTool) (edges s) of
        None \<Rightarrow> Inr s
      | Some e \<Rightarrow> deleteNodeById depth (target e) (deleteEdgeById L (eid e) s))"

definition deleteIterationNodeById :: "string \<Rightarrow> rf_state \<Rightarrow> rf_state" where
  "deleteIterationNodeById i s =
     (let children = filter (\<lambda>n. parentId n = Some i) (nodes s)
      in s\<lparr>nodes := filter (\<lambda>n. nid n \<noteq> i \<and> parentId n \<noteq> Some i) (nodes s),
           edges := filter (\<lambda>e. source e \<noteq> i \<and> target e \<noteq> i
              \<and> \<not> list_ex (\<lambda>c. source e = nid c \<and> target e = nid c) children) (edges s)\<rparr>)"

section \<open>Frame lemmas\<close>

text \<open>
  Several actions change each node on its own and never its id. What they keep is proved once
  for any such change.
\<close>

locale node_update =
  fixes f :: "node \<Rightarrow> node"
  assumes keeps_id: "nid (f n) = nid n"
begin

lemma map_ids: "map nid (map f ns) = map nid ns"
  by (simp add: keeps_id comp_def)

lemma wf_map: "wf_graph (s\<lparr>nodes := map f (nodes s)\<rparr>) = wf_graph s"
  by (simp add: wf_graph_def distinct_ids_def edges_ok_def keeps_id comp_def)

lemma getNode_map: "getNode i (s\<lparr>nodes := map f (nodes s)\<rparr>) = map_option f (getNode i s)"
  using find_map_other [of "\<lambda>n. Val (nid n)" f i "nodes s"] by (simp add: getNode_def keeps_id)

end

definition form_step :: "libs \<Rightarrow> string \<Rightarrow> jsval \<Rightarrow> string list \<Rightarrow> node \<Rightarrow> node" where
  "form_step L i vals path n = (if nid n = i then set_form (next_form L vals path n) n else n)"

definition select_step :: "string list \<Rightarrow> node \<Rightarrow> node" where
  "select_step ids n = n\<lparr>selected := Some (nid n \<in> set ids)\<rparr>"

interpretation form_step: node_update "form_step L i vals path" for L i vals path
  by unfold_locales (simp add: form_step_def set_form_def)

interpretation select_step: node_update "select_step ids" for ids
  by unfold_locales (simp add: select_step_def)

interpretation replace_step: node_update "\<lambda>x. if nid x = nid n then n else x" for n
  by unfold_locales simp

lemma updateNodeForm_eq: "updateNodeForm L i vals path s = s\<lparr>nodes := map (form_step L i vals path) (nodes s)\<rparr>"
  by (simp add: updateNodeForm_def form_step_def)

lemma selectNodeIds_eq: "selectNodeIds ids s = s\<lparr>nodes := map (select_step ids) (nodes s)\<rparr>"
  by (simp add: selectNodeIds_def setNodes_def select_step_def)

lemma nlabel_form_step [simp]: "nlabel (form_step L i v p n) = nlabel n"
  by (simp add: form_step_def set_form_def)

lemma edges_updateNodeForm [simp]: "edges (updateNodeForm L i v p s) = edges s"
  by (simp add: updateNodeForm_def)

lemma getNode_updateNodeForm:
  "getNode j (updateNodeForm L i v p s) = map_option (form_step L i v p) (getNode j s)"
  by (simp add: updateNodeForm_eq form_step.getNode_map)

lemma type_updateNodeForm [simp]:
  "getOperatorTypeFromId j (updateNodeForm L i v p s) = getOperatorTypeFromId j s"
  by (simp add: getOperatorTypeFromId_def getNode_updateNodeForm option.map_comp comp_def)

lemma wf_updateNodeForm [simp]: "wf_graph (updateNodeForm L i v p s) = wf_graph s"
  by (simp add: updateNodeForm_eq form_step.wf_map)

text \<open>What \<open>updateSwitchFormData\<close> does: nothing, or one form update of the source node.\<close>

lemma updateSwitchFormData_cases:
  "updateSwitchFormData L src sh tgt c s = s
   \<or> (\<exists>v p. updateSwitchFormData L src sh tgt c s = updateNodeForm L src v p s)"
proof (cases sh)
  case (Val h)
  then show ?thesis
    unfolding updateSwitchFormData_def Let_def
    by (cases "h = []"; cases "h = SwitchElseTo"; cases "getOperatorIndex h = []") (simp_all, blast+)
qed (simp_all add: updateSwitchFormData_def)

lemma switch_frame:
  "edges (updateSwitchFormData L src sh tgt c s) = edges s"
  "getOperatorTypeFromId j (updateSwitchFormData L src sh tgt c s) = getOperatorTypeFromId j s"
  "wf_graph (updateSwitchFormData L src sh tgt c s) = wf_graph s"
  "node_ids (updateSwitchFormData L src sh tgt c s) = node_ids s"
proof -
  have ids: "node_ids (updateNodeForm L src v p s) = node_ids s" for v p
    by (simp add: updateNodeForm_eq form_step.keeps_id comp_def)
  consider "updateSwitchFormData L src sh tgt c s = s"
    | v p where "updateSwitchFormData L src sh tgt c s = updateNodeForm L src v p s"
    using updateSwitchFormData_cases by blast
  note * = this
  show "edges (updateSwitchFormData L src sh tgt c s) = edges s" by (cases rule: *) simp_all
  show "getOperatorTypeFromId j (updateSwitchFormData L src sh tgt c s) = getOperatorTypeFromId j s"
    by (cases rule: *) simp_all
  show "wf_graph (updateSwitchFormData L src sh tgt c s) = wf_graph s" by (cases rule: *) simp_all
  show "node_ids (updateSwitchFormData L src sh tgt c s) = node_ids s"
    by (cases rule: *) (simp_all only: ids)
qed

lemma connect_frame:
  "edges (updateFormDataOnConnect L c s) = edges s"
  "wf_graph (updateFormDataOnConnect L c s) = wf_graph s"
  "getOperatorTypeFromId j (updateFormDataOnConnect L c s) = getOperatorTypeFromId j s"
  by (simp_all add: updateFormDataOnConnect_def switch_frame)

lemma type_edges [simp]: "getOperatorTypeFromId j (s\<lparr>edges := es\<rparr>) = getOperatorTypeFromId j s"
  by (simp add: getOperatorTypeFromId_def getNode_def)

lemma getNode_edges [simp]: "getNode j (s\<lparr>edges := es\<rparr>) = getNode j s"
  by (simp add: getNode_def)

lemma update_first_ids:
  "(\<And>n. nid (f n) = nid n) \<Longrightarrow> map nid (update_first p f ns) = map nid ns"
  by (induction ns) auto

lemma wf_same_shape:
  "wf_graph s \<Longrightarrow> map nid (nodes t) = map nid (nodes s) \<Longrightarrow> set (edges t) \<subseteq> set (edges s) \<Longrightarrow> wf_graph t"
  by (auto simp: wf_graph_def distinct_ids_def edges_ok_def)

section \<open>Replacing the edges of a node\<close>

definition out_keys :: "string \<Rightarrow> edge list \<Rightarrow> (string \<times> string nullable) set" where
  "out_keys n es = {(target e, sourceHandle e) | e. e \<in> set es \<and> source e = n}"

lemma out_keys_equal:
  assumes "\<And>z. (\<exists>r\<in>set as. isEdgeEqual z r) \<longleftrightarrow> (\<exists>y\<in>set bs. isEdgeEqual z y)"
    and "\<forall>e\<in>set as \<union> set bs. source e = n"
  shows "out_keys n as = out_keys n bs"
proof -
  have "(t, h) \<in> out_keys n xs \<longleftrightarrow> (\<exists>r\<in>set xs. isEdgeEqual \<lparr>eid = [], source = n, target = t,
      sourceHandle = h, targetHandle = Null, edata = JUndef\<rparr> r)" if "\<forall>e\<in>set xs. source e = n" for t h xs
    using that by (auto simp: out_keys_def isEdgeEqual_def)
  then show ?thesis using assms by (auto simp: set_eq_iff)
qed

lemma out_keys_sub:
  assumes "list_all (\<lambda>x. list_ex (\<lambda>y. isEdgeEqual y x) bs) as"
  shows "out_keys n as \<subseteq> out_keys n bs"
proof
  fix k
  assume "k \<in> out_keys n as"
  then obtain e where e: "e \<in> set as" "source e = n" "k = (target e, sourceHandle e)"
    by (auto simp: out_keys_def)
  then obtain f where "f \<in> set bs" "isEdgeEqual f e"
    using assms by (auto simp: list_all_iff list_ex_iff)
  with e show "k \<in> out_keys n bs" by (auto simp: out_keys_def isEdgeEqual_def intro!: exI [of _ f])
qed

lemma setEdgesByNodeId_spec:
  fixes s :: rf_state
  assumes L: "lodash_api L" and cur: "\<forall>e\<in>set current. source e = n"
  defines "s' \<equiv> setEdgesByNodeId L n current s"
  shows "nodes s' = nodes s"
    and "filter (\<lambda>e. source e \<noteq> n) (edges s') = filter (\<lambda>e. source e \<noteq> n) (edges s)"
    and "out_keys n (edges s') = out_keys n current"
proof -
  define prev where "prev = filter (\<lambda>x. source x = n) (edges s)"
  define I where "I = lodash_intersectionWith L prev current isEdgeEqual"
  define R where "R = I @ lodash_differenceWith L current I isEdgeEqual"
  have "set R \<subseteq> set prev \<union> set current"
    unfolding R_def I_def by (rule lodash_api.inter_diff_sub [OF L])
  then have src: "\<forall>e\<in>set R. source e = n" using cur by (auto simp: prev_def)
  have cover: "(\<exists>r\<in>set R. isEdgeEqual z r) \<longleftrightarrow> (\<exists>y\<in>set current. isEdgeEqual z y)" for z
    unfolding R_def I_def
    by (rule lodash_api.inter_diff_cover [OF L]) (auto intro: isEdgeEqual_equiv)
  have keys: "out_keys n R = out_keys n current"
    by (rule out_keys_equal [OF cover]) (use src cur in blast)
  show "nodes s' = nodes s"
    by (simp add: s'_def setEdgesByNodeId_def Let_def setEdges_def)
  define s2 where "s2 = s\<lparr>edges := filter (\<lambda>x. source x \<noteq> n) (edges s) @ R\<rparr>"
  have eq: "s' = s \<or> s' = s2"
    by (simp add: s2_def s'_def setEdgesByNodeId_def Let_def setEdges_def R_def I_def prev_def)
  have "filter (\<lambda>e. source e \<noteq> n) R = []" using src by simp
  then have "filter (\<lambda>e. source e \<noteq> n) (edges s2) = filter (\<lambda>e. source e \<noteq> n) (edges s)"
    by (simp add: s2_def)
  with eq show "filter (\<lambda>e. source e \<noteq> n) (edges s') = filter (\<lambda>e. source e \<noteq> n) (edges s)"
    by metis
  show "out_keys n (edges s') = out_keys n current"
  proof (cases "s' = s2")
    case True
    have "out_keys n (edges s2) = out_keys n R" by (auto simp: out_keys_def s2_def)
    with keys True show ?thesis by simp
  next
    case False
    then have all: "list_all (\<lambda>x. list_ex (\<lambda>y. isEdgeEqual y x) current) prev"
      "list_all (\<lambda>x. list_ex (\<lambda>y. isEdgeEqual y x) prev) current"
      unfolding s2_def s'_def setEdgesByNodeId_def Let_def setEdges_def R_def I_def prev_def
      by (metis)+
    have "out_keys n prev = out_keys n current"
      using out_keys_sub [OF all(1)] out_keys_sub [OF all(2)] by blast
    moreover have "out_keys n (edges s) = out_keys n prev" by (auto simp: out_keys_def prev_def)
    ultimately show ?thesis using eq False by simp
  qed
qed

section \<open>The form of a switch follows its edges\<close>

text \<open>The targets that the form of node \<open>src\<close> keeps for a handle.\<close>

definition switch_path :: "nat \<Rightarrow> string list" where
  "switch_path idx = [''conditions'', nat_to_string idx, ''to'']"

definition form_at :: "libs \<Rightarrow> string \<Rightarrow> string list \<Rightarrow> rf_state \<Rightarrow> jsval" where
  "form_at L src path s =
     (case getNode (Val src) s of None \<Rightarrow> JUndef
      | Some n \<Rightarrow> lodash_get L (case node_form n of None \<Rightarrow> JUndef | Some f \<Rightarrow> f) path JUndef)"

definition has_form_path :: "string \<Rightarrow> string list \<Rightarrow> rf_state \<Rightarrow> bool" where
  "has_form_path src path s =
     (\<exists>n ob. getNode (Val src) s = Some n \<and> node_form n = Some (JObj ob) \<and> path_ok (JObj ob) path)"

lemma switch_handle_index:
  "getOperatorIndex (generateSwitchHandleText (int idx)) = int_to_string (int idx + 1)"
proof -
  have "CHR '' '' \<notin> set (int_to_string (int idx + 1))"
    using nat_to_string_digits [of "nat (int idx + 1)"] digit_not_space [of "CHR '' ''"]
    by (auto simp: int_to_string_def list_all_iff is_space_def)
  then show ?thesis
    using js_split_append [of "CHR '' ''" "''Case''" "int_to_string (int idx + 1)"]
    by (simp add: getOperatorIndex_def generateSwitchHandleText_def js_split_no_sep)
qed

lemma int_to_string_nonempty: "int_to_string i \<noteq> []"
  by (simp add: int_to_string_def)

lemma switch_handle_key:
  "num_to_string (num_sub (num_of_string (int_to_string (int idx + 1))) (Fin 1)) = nat_to_string idx"
proof -
  have "num_sub (num_of_string (int_to_string (int idx + 1))) (Fin 1) = int_num (int idx)"
    unfolding num_of_int_to_string by (simp add: num_sub_def)
  then show ?thesis by (simp only: num_to_string_int) (simp add: int_to_string_def)
qed

lemma getNode_nid: "getNode (Val i) s = Some n \<Longrightarrow> nid n = i \<and> n \<in> set (nodes s)"
  by (auto simp: getNode_def dest: find_Some_in)

lemma form_at_update:
  assumes "lodash_api L" and "has_form_path src path s" and "path \<noteq> []" and "v \<noteq> JUndef"
  shows "form_at L src path (updateNodeForm L src v path s) = v"
proof -
  obtain n ob where n: "getNode (Val src) s = Some n" "node_form n = Some (JObj ob)" "path_ok (JObj ob) path"
    using assms(2) by (auto simp: has_form_path_def)
  then show ?thesis
    using getNode_nid [OF n(1)] assms(3,4) lodash_api.get_set [OF assms(1,3) n(3) assms(4)]
    by (simp add: form_at_def getNode_updateNodeForm form_step_def set_form_def next_form_def)
qed

lemma generateSwitchHandleText_nonempty [simp]:
  "generateSwitchHandleText i \<noteq> []" "generateSwitchHandleText i \<noteq> SwitchElseTo"
  by (simp_all add: generateSwitchHandleText_def SwitchElseTo_def)

lemma updateSwitchFormData_case:
  "updateSwitchFormData L src (Val (generateSwitchHandleText (int idx))) tgt c s =
     updateNodeForm L src (JArr (map JStr
       (if str_truthy tgt \<and> \<not> c
        then filter (\<lambda>x. Val x \<noteq> tgt) (switch_targets src (Val (generateSwitchHandleText (int idx))) s)
        else switch_targets src (Val (generateSwitchHandleText (int idx))) s))) (switch_path idx) s"
  by (simp add: updateSwitchFormData_def Let_def switch_handle_index switch_handle_key switch_path_def
      int_to_string_nonempty)

lemma switch_targets_frame:
  "switch_targets src h (updateNodeForm L i v p s) = switch_targets src h s"
  by (simp add: switch_targets_def)

definition ex_switch :: rf_state where
  "ex_switch = mk_state
     [mk_node ''Switch:a'' ''Switch'' ''Switch_0''
        (JObj [(''conditions'', JArr [JObj [(''to'', JArr [])]]), (''end_cpn_ids'', JArr [])]) None,
      mk_node ''Message:b'' ''Message'' ''Message_0'' (JObj []) None,
      mk_node ''Message:c'' ''Message'' ''Message_1'' (JObj []) None]
     [mk_edge ''e1'' ''Switch:a'' ''Message:b'' ''Case 1'', mk_edge ''e2'' ''Switch:a'' ''Message:c'' ''Case 1'']"

definition ex_conn :: connection where
  "ex_conn = \<lparr>csource = ''Switch:a'', ctarget = ''Message:b'', csourceHandle = Val ''Case 1'', ctargetHandle = Val ''end''\<rparr>"

lemma ex_switch_facts:
  "has_form_path ''Switch:a'' (switch_path 0) ex_switch"
  "getOperatorTypeFromId (Val ''Switch:a'') ex_switch = Some (op_str OpSwitch)"
  "generateSwitchHandleText (int 0) = ''Case 1''"
proof -
  have n: "getNode (Val ''Switch:a'') ex_switch = Some (mk_node ''Switch:a'' ''Switch'' ''Switch_0''
        (JObj [(''conditions'', JArr [JObj [(''to'', JArr [])]]), (''end_cpn_ids'', JArr [])]) None)"
    by (simp add: getNode_def ex_switch_def mk_state_def mk_node_def)
  have i: "is_array_index (nat_to_string 0)" by (rule is_array_index_nat_to_string) simp
  from n i show "has_form_path ''Switch:a'' (switch_path 0) ex_switch"
    by (simp add: has_form_path_def mk_node_def switch_path_def)
  from n show "getOperatorTypeFromId (Val ''Switch:a'') ex_switch = Some (op_str OpSwitch)"
    by (simp add: getOperatorTypeFromId_def mk_node_def)
  show "generateSwitchHandleText (int 0) = ''Case 1''" by code_simp
qed

text \<open>
  C1: connecting an edge to case \<open>idx\<close> of a switch node leaves, in the form of the node under
  \<open>conditions[idx].to\<close>, exactly the targets of the edges that now leave that handle (placeholders
  left out).
\<close>

theorem onConnect_switch_sync:
  assumes "lodash_api L" and "csource c \<noteq> []" and "csourceHandle c = Val (generateSwitchHandleText (int idx))"
    and "getOperatorTypeFromId (Val (csource c)) s = Some (op_str OpSwitch)"
    and "has_form_path (csource c) (switch_path idx) s"
  shows "form_at L (csource c) (switch_path idx) (onConnect L c s)
    = JArr (map JStr (switch_targets (csource c) (csourceHandle c) (onConnect L c s)))"
proof -
  let ?t = "s\<lparr>edges := xy_addEdge L c (edges s)\<rparr>"
  have upd: "onConnect L c s = updateNodeForm L (csource c)
      (JArr (map JStr (switch_targets (csource c) (csourceHandle c) ?t))) (switch_path idx) ?t"
    using assms by (simp add: onConnect_def updateFormDataOnConnect_def updateSwitchFormData_case)
  have "has_form_path (csource c) (switch_path idx) ?t"
    using assms(5) by (simp add: has_form_path_def)
  then show ?thesis
    unfolding upd switch_targets_frame
    using assms(1) by (intro form_at_update) (simp_all add: switch_path_def)
qed

theorem onConnect_switch_sync_witness:
  "form_at ref_libs ''Switch:a'' (switch_path 0) (onConnect ref_libs ex_conn ex_switch)
     = JArr (map JStr (switch_targets ''Switch:a'' (Val ''Case 1'') (onConnect ref_libs ex_conn ex_switch)))"
  using onConnect_switch_sync [OF ref.lodash_api_axioms, of ex_conn 0 ex_switch] ex_switch_facts
  by (simp add: ex_conn_def)

text \<open>
  C9: deleting an edge that leaves case \<open>idx\<close> of a switch node leaves, in the form of the node
  under \<open>conditions[idx].to\<close>, exactly the targets of the remaining edges of that handle, provided
  edge ids are unique and the handle has no second edge to the same target.
\<close>

theorem deleteEdgeById_switch_sync:
  assumes L: "lodash_api L" and e: "e \<in> set (edges s)" "distinct (map eid (edges s))"
    and h: "sourceHandle e = Val (generateSwitchHandleText (int idx))"
    and sw: "getOperatorTypeFromId (Val (source e)) s = Some (op_str OpSwitch)"
    and path: "has_form_path (source e) (switch_path idx) s"
    and uniq: "\<forall>f\<in>set (edges s). isEdgeEqual f e \<longrightarrow> f = e"
    and ne: "target e \<noteq> []"
  shows "form_at L (source e) (switch_path idx) (deleteEdgeById L (eid e) s)
    = JArr (map JStr (switch_targets (source e) (sourceHandle e) (deleteEdgeById L (eid e) s)))"
proof -
  let ?ts = "filter (\<lambda>x. Val x \<noteq> Val (target e)) (switch_targets (source e) (sourceHandle e) s)"
  let ?u = "updateNodeForm L (source e) (JArr (map JStr ?ts)) (switch_path idx) s"
  have "find (\<lambda>x. eid x = eid e) (edges s) = Some e"
    using e by (simp add: find_distinct_key)
  then have del: "deleteEdgeById L (eid e) s = ?u\<lparr>edges := filter (\<lambda>f. eid f \<noteq> eid e) (edges s)\<rparr>"
    using h sw ne by (simp add: deleteEdgeById_def Let_def updateSwitchFormData_case)
  have "form_at L (source e) (switch_path idx) (deleteEdgeById L (eid e) s) = JArr (map JStr ?ts)"
    using form_at_update [OF L path, of "JArr (map JStr ?ts)"] unfolding del
    by (simp add: form_at_def switch_path_def)
  moreover have "switch_targets (source e) (sourceHandle e) (deleteEdgeById L (eid e) s) = ?ts"
  proof -
    have "(eid f \<noteq> eid e) = (target f \<noteq> target e)"
      if "f \<in> set (edges s)" "source f = source e" "sourceHandle f = sourceHandle e" for f
      using that e uniq by (metis distinct_map inj_onD isEdgeEqual_def)
    then show ?thesis
      unfolding del switch_targets_def filter_map
      by (simp add: comp_def) (intro arg_cong [where f = "map target"] filter_cong, auto)
  qed
  ultimately show ?thesis by simp
qed

theorem deleteEdgeById_switch_sync_witness:
  "form_at ref_libs ''Switch:a'' (switch_path 0) (deleteEdgeById ref_libs ''e1'' ex_switch)
     = JArr (map JStr (switch_targets ''Switch:a'' (Val ''Case 1'') (deleteEdgeById ref_libs ''e1'' ex_switch)))"
proof -
  have es: "edges ex_switch = [mk_edge ''e1'' ''Switch:a'' ''Message:b'' ''Case 1'', mk_edge ''e2'' ''Switch:a'' ''Message:c'' ''Case 1'']"
    by (simp add: ex_switch_def mk_state_def)
  show ?thesis
    using deleteEdgeById_switch_sync [OF ref.lodash_api_axioms,
        of "mk_edge ''e1'' ''Switch:a'' ''Message:b'' ''Case 1''" ex_switch 0] ex_switch_facts
    by (simp add: es mk_edge_def isEdgeEqual_def)
qed

end
