(* ===== verification/Canvas_Claims.thy ===== *)
theory Canvas_Claims
  imports Form_Data Graph_Store
begin

text \<open>
  Properties of the canvas helpers and of the store actions that do not delete: generated names,
  the edges of a node replaced as a set, categories and global variables between form and DSL,
  anchors of categories, positions inside an iteration, and the in-place update of a form item.
\<close>

section \<open>Generated names\<close>

text \<open>
  A generated node name is not the name of any node, and a graph extended by a node of that
  name again has pairwise different indexed names, so the next generated name is fresh too. The
  base name must not contain an underscore.
\<close>

theorem generateNodeNames_fresh:
  assumes "names_ok ns" and "plain_base nm"
  shows "generateNodeNamesWithIncreasingIndex nm ns \<notin> node_name ` set ns
     \<and> (\<forall>x. node_name x = generateNodeNamesWithIncreasingIndex nm ns \<longrightarrow> names_ok (ns @ [x]))"
  using node_names.gen_fresh [OF assms] node_names.gen_inv [OF assms] by blast

definition name_example :: "node list" where
  "name_example = [mk_node ''a'' ''Agent'' ''Agent_0'' JUndef None, mk_node ''b'' ''Agent'' ''Agent_2'' JUndef None]"

theorem generateNodeNames_fresh_witness:
  "generateNodeNamesWithIncreasingIndex ''Agent'' name_example = ''Agent_1''
     \<and> generateNodeNamesWithIncreasingIndex ''Agent'' name_example \<notin> node_name ` set name_example"
proof -
  have "generateNodeNamesWithIncreasingIndex ''Agent'' name_example = ''Agent_1''" by code_simp
  moreover have "names_ok name_example" by code_simp
  moreover have "plain_base ''Agent''" by code_simp
  ultimately show ?thesis using generateNodeNames_fresh by blast
qed

text \<open>
  A base name with an underscore always gets the index 0, whatever the graph contains: after
  a node has been added under the generated name, generating again gives that same name.
\<close>

theorem generateNodeNames_underscore_repeats:
  assumes "CHR ''_'' \<in> set nm" and "node_name x = generateNodeNamesWithIncreasingIndex nm ns"
  shows "generateNodeNamesWithIncreasingIndex nm (ns @ [x]) = node_name x"
  using assms(2) by (simp add: underscore_base_index [OF assms(1)])

theorem generateNodeNames_underscore_repeats_witness:
  "generateNodeNamesWithIncreasingIndex ''Agent_0'' ([] @ [mk_node ''a'' ''Agent'' ''Agent_0_0'' JUndef None]) = ''Agent_0_0''"
proof -
  have "node_name (mk_node ''a'' ''Agent'' ''Agent_0_0'' JUndef None) = generateNodeNamesWithIncreasingIndex ''Agent_0'' []"
    by code_simp
  from generateNodeNames_underscore_repeats [OF _ this] show ?thesis by (simp add: mk_node_def)
qed

section \<open>Replacing the edges of a node\<close>

text \<open>
  C19: after the outgoing edges of a node are set, the node's outgoing connections, as pairs of
  target and source handle, are exactly those of the given list, and no node and no edge
  of another node has changed: the comparison with the previous edges is only an optimisation.
\<close>

theorem setEdgesByNodeId_refines:
  assumes "lodash_api L" and "\<forall>e\<in>set current. source e = n"
  shows "nodes (setEdgesByNodeId L n current s) = nodes s
     \<and> filter (\<lambda>e. source e \<noteq> n) (edges (setEdgesByNodeId L n current s)) = filter (\<lambda>e. source e \<noteq> n) (edges s)
     \<and> out_keys n (edges (setEdgesByNodeId L n current s)) = out_keys n current"
  using setEdgesByNodeId_spec [OF assms, of s] by blast

theorem setEdgesByNodeId_refines_witness:
  "out_keys ''a'' (edges (setEdgesByNodeId ref_libs ''a'' [mk_edge ''e2'' ''a'' ''c'' ''start'']
     (mk_state [] [mk_edge ''e1'' ''a'' ''b'' ''start'', mk_edge ''e3'' ''b'' ''c'' ''start''])))
   = out_keys ''a'' [mk_edge ''e2'' ''a'' ''c'' ''start'']"
  using setEdgesByNodeId_refines [OF ref.lodash_api_axioms,
      of "[mk_edge ''e2'' ''a'' ''c'' ''start'']" "''a''"
        "mk_state [] [mk_edge ''e1'' ''a'' ''b'' ''start'', mk_edge ''e3'' ''b'' ''c'' ''start'']"]
  by (simp add: mk_edge_def)

section \<open>Categories and global variables\<close>

text \<open>
  Turning the categories of a DSL into the list a form edits, sorted by index, and back into
  an object loses nothing: every category has the same fields as before.
\<close>

theorem categorize_roundtrip:
  assumes "lodash_api L" and "distinct (keys ob)" and "list_all category_ok ob"
  shows "\<exists>items ob'. buildCategorizeListFromObject ob = Inr items
     \<and> buildCategorizeObjectFromList L items = Inr ob'
     \<and> set (keys ob') = set (keys ob)
     \<and> (\<forall>k v. map_of ob k = Some v \<longrightarrow> (\<exists>w. map_of ob' k = Some w \<and> same_fields v w))"
  by (rule categorize_roundtrip_lookup [OF assms])

definition categories_example :: "jsval obj" where
  "categories_example =
     [(''B'', JObj [(''index'', JNum (Fin 1)), (''examples'', JArr [JStr ''x''])]),
      (''A'', JObj [(''index'', JNum (Fin 0)), (''examples'', JArr [])])]"

theorem categorize_roundtrip_witness:
  "\<exists>items ob'. buildCategorizeListFromObject categories_example = Inr items
     \<and> buildCategorizeObjectFromList ref_libs items = Inr ob' \<and> set (keys ob') = {''A'', ''B''}"
proof -
  have "distinct (keys categories_example)" by code_simp
  moreover have "list_all category_ok categories_example" by code_simp
  ultimately obtain items ob' where "buildCategorizeListFromObject categories_example = Inr items"
     "buildCategorizeObjectFromList ref_libs items = Inr ob'" "set (keys ob') = set (keys categories_example)"
    using categorize_roundtrip [OF ref.lodash_api_axioms] by blast
  moreover have "set (keys categories_example) = {''A'', ''B''}"
    by (auto simp: categories_example_def)
  ultimately show ?thesis by blast
qed

text \<open>
  Saving global variables writes the value of each one under \<open>env.\<close> and keeps the system
  entries. It also keeps every earlier entry whose key merely contains \<open>sys\<close>: the value of a
  deleted variable of such a name stays in the DSL.
\<close>

theorem dsl_globals_saved:
  assumes "distinct (keys vars)" and "buildDslGlobalVariables glob old (Some vars) = Inr (globs, vs)"
  shows "vs = vars
     \<and> (\<forall>k v. map_of vars k = Some v \<longrightarrow> (\<exists>x. js_prop v ''value'' = Inr x \<and> map_of globs (''env.'' @ k) = Some x))
     \<and> (\<forall>k. k \<notin> (@) ''env.'' ` set (keys vars) \<longrightarrow>
          map_of globs k = (if includes_str k ''sys'' then map_of glob k else None))"
proof -
  obtain env where env: "env_globals vars = Inr env"
    and g: "globs = obj_assign (system_globals glob) env" "vs = vars"
    using assms(2) by (auto simp: buildDslGlobalVariables_def)
  note lk = env_globals_lookup [OF assms(1) env]
  have mg: "map_of globs = map_of (system_globals glob) ++ map_of env"
    unfolding g by (rule map_of_obj_assign_distinct) (use lk in simp)
  have sys: "map_of (system_globals glob) k = (if includes_str k ''sys'' then map_of glob k else None)" for k
    by (induction glob) (auto simp: system_globals_def)
  have other: "map_of globs k = (if includes_str k ''sys'' then map_of glob k else None)"
    if "k \<notin> (@) ''env.'' ` set (keys vars)" for k
  proof -
    have "map_of env k = None" using that lk by (simp add: map_of_None_keys)
    then show ?thesis by (simp add: mg sys map_add_def)
  qed
  have new: "\<exists>x. js_prop v ''value'' = Inr x \<and> map_of globs (''env.'' @ k) = Some x"
    if kv: "map_of vars k = Some v" for k v
  proof -
    obtain x where "js_prop v ''value'' = Inr x" "map_of env (''env.'' @ k) = Some x"
      using lk [THEN conjunct2, THEN conjunct2, rule_format, OF kv] by blast
    then show ?thesis unfolding mg by (intro exI [of _ x] conjI map_add_find_right)
  qed
  show ?thesis by (intro conjI allI impI g(2)) (erule new, erule other)
qed

theorem dsl_globals_saved_witness:
  "\<exists>globs. buildDslGlobalVariables [(''env.sysop'', JStr ''old''), (''env.a'', JStr ''old''), (''sys.query'', JStr [])] None
      (Some [(''b'', JObj [(''value'', JStr ''new'')])]) = Inr (globs, [(''b'', JObj [(''value'', JStr ''new'')])])
     \<and> map_of globs ''env.sysop'' = Some (JStr ''old'') \<and> map_of globs ''env.a'' = None"
proof -
  let ?g = "[(''env.sysop'', JStr ''old''), (''env.a'', JStr ''old''), (''sys.query'', JStr [])]"
  let ?v = "[(''b'', JObj [(''value'', JStr ''new'')])]"
  obtain globs where r: "buildDslGlobalVariables ?g None (Some ?v) = Inr (globs, ?v)"
    by (simp add: buildDslGlobalVariables_def env_globals_def)
  have "map_of globs k = (if includes_str k ''sys'' then map_of ?g k else None)" if "k \<noteq> ''env.b''" for k
    using dsl_globals_saved [OF _ r] that by simp
  from this [of "''env.sysop''"] this [of "''env.a''"] r show ?thesis
    by (simp add: starts_with_def)
qed

section \<open>Anchors of categories\<close>

text \<open>
  The anchors given to new categories are anchors of the table, no two categories share one
  and none is in use by an earlier category; keys beyond the free anchors get none.
\<close>

theorem new_anchors_distinct:
  assumes "sample_ok sample"
    and "buildNewPositionMap sample interWith currentKeys previousPositionMap = (kept, positions)"
  shows "anchors_ok (ip_idx ` snd ` set previousPositionMap) positions"
proof -
  have "anchors_ok (set (map (\<lambda>kv. ip_idx (snd kv)) previousPositionMap)) positions"
    using assms(2) place_keys_anchors [OF assms(1), of "map (\<lambda>kv. ip_idx (snd kv)) previousPositionMap" "[]"
        "map (\<lambda>kv. ip_idx (snd kv)) previousPositionMap"]
    by (auto simp: buildNewPositionMap_def Let_def anchors_ok_def [of _ "[]"])
  then show ?thesis by (simp add: image_image)
qed

definition first_sample :: "nat list \<Rightarrow> nat option" where
  "first_sample xs = (case xs of [] \<Rightarrow> None | x # _ \<Rightarrow> Some x)"

theorem new_anchors_distinct_witness:
  "\<exists>positions. buildNewPositionMap first_sample (\<lambda>as bs eq. filter (\<lambda>a. list_ex (eq a) bs) as)
      [''A'', ''B'', ''C''] [(''A'', \<lparr>ip_top = 1, ip_right = 34, ip_idx = 0\<rparr>)] = ([''A''], positions)
     \<and> keys positions = [''B'', ''C''] \<and> anchors_ok {0} positions"
proof -
  let ?r = "buildNewPositionMap first_sample (\<lambda>as bs eq. filter (\<lambda>a. list_ex (eq a) bs) as)
      [''A'', ''B'', ''C''] [(''A'', \<lparr>ip_top = 1, ip_right = 34, ip_idx = 0\<rparr>)]"
  have "sample_ok first_sample" by (auto simp: sample_ok_def first_sample_def split: list.splits)
  moreover have "fst ?r = [''A'']" "keys (snd ?r) = [''B'', ''C'']" by code_simp+
  moreover have "?r = (fst ?r, snd ?r)" by simp
  ultimately have "anchors_ok {0} (snd ?r)" using new_anchors_distinct [of first_sample] by force
  with \<open>fst ?r = _\<close> \<open>keys (snd ?r) = _\<close> show ?thesis by (metis prod.collapse)
qed

section \<open>Positions inside an iteration\<close>

text \<open>
  A node dropped on an iteration gets a position relative to it that lies inside the
  iteration's box.
\<close>

theorem relative_position_in_box:
  assumes "getRelativePositionToIterationNode ns (Some p) = Some (i, q)"
  shows "\<exists>n\<in>set ns. nid n = i \<and> nlabel n = op_str OpIteration
     \<and> 0 \<le> px q \<and> px q \<le> (case width n of None \<Rightarrow> 0 | Some w \<Rightarrow> w)
     \<and> 0 \<le> py q \<and> py q \<le> (case height n of None \<Rightarrow> 0 | Some h \<Rightarrow> h)"
  using relative_position_inside [OF assms] by blast

theorem relative_position_in_box_witness:
  "\<exists>q. getRelativePositionToIterationNode
      [(mk_node ''it'' ''Iteration'' ''Iteration_0'' JUndef None)\<lparr>width := Some 100, height := Some 50\<rparr>]
      (Some \<lparr>px = 10, py = 20\<rparr>) = Some (''it'', q) \<and> 0 \<le> px q \<and> px q \<le> 100 \<and> 0 \<le> py q \<and> py q \<le> 50"
proof -
  let ?n = "(mk_node ''it'' ''Iteration'' ''Iteration_0'' JUndef None)\<lparr>width := Some 100, height := Some 50\<rparr>"
  obtain q where q: "getRelativePositionToIterationNode [?n] (Some \<lparr>px = 10, py = 20\<rparr>) = Some (''it'', q)"
    by (simp add: getRelativePositionToIterationNode_def iteration_hit_def mk_node_def)
  from relative_position_in_box [OF q] q show ?thesis by (auto simp: mk_node_def)
qed

section \<open>In-place update of a form item\<close>

text \<open>
  \<open>updateMutableNodeFormItem\<close> writes the field of any node but the first of the graph; for the
  first node, whose index is 0, it does nothing.
\<close>

theorem updateMutableNodeFormItem_first_node:
  assumes "lodash_api L" and "distinct_ids s" and "k < length (nodes s)"
    and "node_form (nodes s ! k) = Some (JObj ob)"
  shows "updateMutableNodeFormItem L (nid (nodes s ! k)) field val s =
     (if k = 0 then s
      else s\<lparr>nodes := (nodes s)[k := set_form (JObj (obj_put field val ob)) (nodes s ! k)]\<rparr>)"
proof -
  have "find_index (\<lambda>x. nid x = nid (nodes s ! k)) (nodes s) = Some k"
  proof (cases "find_index (\<lambda>x. nid x = nid (nodes s ! k)) (nodes s)")
    case None
    then have "\<forall>x\<in>set (nodes s). nid x \<noteq> nid (nodes s ! k)" by (simp add: find_index_None)
    with nth_mem [OF assms(3)] show ?thesis by blast
  next
    case (Some j)
    then have "j < length (nodes s)" "nid (nodes s ! j) = nid (nodes s ! k)"
      using find_index_Some by blast+
    then have "j = k"
      using assms(2,3) by (simp add: distinct_ids_def distinct_conv_nth) metis
    with Some show ?thesis by simp
  qed
  then show ?thesis
    using assms(4) by (simp add: updateMutableNodeFormItem_def lodash_api.set_one [OF assms(1)])
qed

definition two_notes :: rf_state where
  "two_notes = mk_state [mk_node ''a'' ''Note'' ''a'' (JObj []) None, mk_node ''b'' ''Note'' ''b'' (JObj []) None] []"

theorem updateMutableNodeFormItem_first_node_witness:
  "updateMutableNodeFormItem ref_libs ''a'' ''text'' (JStr ''x'') two_notes = two_notes"
  using updateMutableNodeFormItem_first_node [OF ref.lodash_api_axioms, of two_notes 0 "[]"]
  by (simp add: two_notes_def mk_state_def mk_node_def distinct_ids_def)

end
