(* ===== verification/Agent_Tools.thy ===== *)
theory Agent_Tools
  imports Graph_Store
begin

text \<open>
  The actions of \<open>pages/agent/store.ts\<close> on the tools kept in an agent's form: collecting the
  tools of all agents, names and ids for a new tool, and reading and updating one tool by its
  id. A tool's key is its \<open>id\<close>, or its \<open>component_name\<close> where it has none.
\<close>

section \<open>Definitions\<close>

definition tool_key :: "jsval \<Rightarrow> jsval res" where
  "tool_key t = bind_r (js_prop t ''id'') (\<lambda>i. bind_r (js_prop t ''component_name'') (\<lambda>c. Inr (js_or i c)))"

definition node_tools :: "node \<Rightarrow> jsval" where
  "node_tools n = js_opt (case node_form n of None \<Rightarrow> JUndef | Some f \<Rightarrow> f) ''tools''"

definition getAllAgentTools :: "rf_state \<Rightarrow> jsval list" where
  "getAllAgentTools s =
     concat (map (\<lambda>n. case node_tools n of JArr ts \<Rightarrow> ts | v \<Rightarrow> [v])
       (filter (\<lambda>n. nlabel n = op_str OpAgent) (nodes s)))"

text \<open>The \<open>do ... while\<close> loop over random ids \<open>hids 0, hids 1, ...\<close>; it may never end.\<close>

partial_function (option) tool_id_loop :: "string \<Rightarrow> jsval list \<Rightarrow> (nat \<Rightarrow> string) \<Rightarrow> nat \<Rightarrow> string option" where
  "tool_id_loop pfx ids hids k =
     (if JStr (pfx @ '':'' @ hids k) \<in> set ids then tool_id_loop pfx ids hids (Suc k)
      else Some (pfx @ '':'' @ hids k))"

definition generateAgentToolId :: "string \<Rightarrow> (nat \<Rightarrow> string) \<Rightarrow> rf_state \<Rightarrow> string option res" where
  "generateAgentToolId pfx hids s =
     bind_r (map_r tool_key (getAllAgentTools s)) (\<lambda>ids. Inr (tool_id_loop pfx ids hids 0))"

definition trailing_digits :: "string \<Rightarrow> string" where
  \<comment> \<open>the group of \<open>/(\d+)$/\<close>\<close>
  "trailing_digits s = rev (takeWhile is_digit (rev s))"

definition tool_index :: "jsval \<Rightarrow> jsnum res" where
  "tool_index t =
     bind_r (js_prop t ''name'') (\<lambda>nm. case nm of
         JStr w \<Rightarrow> Inr (if trailing_digits w = [] then NaN else num_of_string (trailing_digits w))
       | _ \<Rightarrow> Inl TypeError)"

fun filter_r :: "('a \<Rightarrow> bool res) \<Rightarrow> 'a list \<Rightarrow> 'a list res" where
  "filter_r f [] = Inr []"
| "filter_r f (x # xs) = bind_r (f x) (\<lambda>b. bind_r (filter_r f xs) (\<lambda>ys. Inr (if b then x # ys else ys)))"

definition generateAgentToolName :: "string \<Rightarrow> string \<Rightarrow> rf_state \<Rightarrow> string res" where
  "generateAgentToolName i nm s =
     (case find (\<lambda>x. nid x = i) (nodes s) of
        None \<Rightarrow> Inr []
      | Some n \<Rightarrow>
          bind_r (js_prop (case node_form n of None \<Rightarrow> JUndef | Some f \<Rightarrow> f) ''tools'') (\<lambda>ts.
          bind_r (js_array ts) (\<lambda>xs.
          bind_r (filter_r (\<lambda>x. bind_r (js_prop x ''component_name'') (\<lambda>c. Inr (c = JStr nm))) xs) (\<lambda>tools.
          bind_r (map_r tool_index tools) (\<lambda>idxs.
            let lastIndex = (if idxs = [] then Fin (-1) else last (js_sort (\<lambda>k. k) idxs))
            in Inr (nm @ ''_'' @ num_to_string (num_add lastIndex (Fin 1))))))))"

datatype tool_owner = AnyAgent | OfNode node | OfNodeId string

fun find_index_r :: "('a \<Rightarrow> bool res) \<Rightarrow> 'a list \<Rightarrow> nat option res" where
  "find_index_r f [] = Inr None"
| "find_index_r f (x # xs) =
     bind_r (f x) (\<lambda>b. if b then Inr (Some 0) else bind_r (find_index_r f xs) (\<lambda>k. Inr (map_option Suc k)))"

definition key_is :: "string \<Rightarrow> jsval \<Rightarrow> bool res" where
  "key_is i t = bind_r (tool_key t) (\<lambda>k. Inr (k = JStr i))"

definition owner_tools :: "libs \<Rightarrow> tool_owner \<Rightarrow> rf_state \<Rightarrow> jsval" where
  "owner_tools L w s =
     (case w of AnyAgent \<Rightarrow> JArr (getAllAgentTools s)
      | OfNode n \<Rightarrow> getAgentNodeTools L (Some n)
      | OfNodeId i \<Rightarrow> getAgentNodeTools L (getNode (Val i) s))"

definition getAgentToolById :: "libs \<Rightarrow> string \<Rightarrow> tool_owner \<Rightarrow> rf_state \<Rightarrow> jsval option res" where
  "getAgentToolById L i w s = bind_r (js_array (owner_tools L w s)) (\<lambda>ts. find_r (key_is i) ts)"

definition updateAgentToolById ::
    "libs \<Rightarrow> node option \<Rightarrow> string \<Rightarrow> jsval obj \<Rightarrow> rf_state \<Rightarrow> rf_state res" where
  "updateAgentToolById L agentNode i vals s =
     (case agentNode of
        None \<Rightarrow> Inr s
      | Some n \<Rightarrow>
          bind_r (js_array (getAgentNodeTools L (Some n))) (\<lambda>ts.
          bind_r (find_index_r (key_is i) ts) (\<lambda>k.
            let key = (case k of None \<Rightarrow> ''-1'' | Some j \<Rightarrow> nat_to_string j);
                frm = (case node_form n of None \<Rightarrow> JUndef | Some f \<Rightarrow> f);
                old = lodash_get L frm [''tools'', key] (JObj [])
            in Inr (updateNodeForm L (nid n) (JObj (obj_assign (entries old) vals)) [''tools'', key] s))))"

section \<open>A new id\<close>

lemma tool_id_loop_found:
  assumes "JStr (pfx @ '':'' @ hids m) \<notin> set ids" and "k \<le> m"
  shows "\<exists>i. tool_id_loop pfx ids hids k = Some i \<and> JStr i \<notin> set ids"
  using assms(2)
proof (induction rule: inc_induct)
  case base
  then show ?case using assms(1) by (subst tool_id_loop.simps) simp
next
  case (step k)
  then show ?case by (subst tool_id_loop.simps) auto
qed

lemma some_id_unused:
  fixes hids :: "nat \<Rightarrow> string"
  assumes "inj hids"
  shows "\<exists>m. JStr (pfx @ '':'' @ hids m) \<notin> set ids"
proof (rule ccontr)
  assume "\<nexists>m. JStr (pfx @ '':'' @ hids m) \<notin> set ids"
  then have "range (\<lambda>m. JStr (pfx @ '':'' @ hids m)) \<subseteq> set ids" by auto
  then have fin: "finite (range (\<lambda>m. JStr (pfx @ '':'' @ hids m)))" by (rule finite_subset) simp
  have inj: "inj (\<lambda>m. JStr (pfx @ '':'' @ hids m))"
    using assms by (auto simp: inj_def)
  from finite_imageD [OF fin inj] show False by simp
qed

text \<open>
  When the random ids never repeat, the loop that looks for an unused tool id ends and the id
  it returns is the key of no tool of any agent on the canvas.
\<close>

theorem generateAgentToolId_fresh:
  assumes "inj hids" and "map_r tool_key (getAllAgentTools s) = Inr ids"
  shows "\<exists>i. generateAgentToolId pfx hids s = Inr (Some i) \<and> JStr i \<notin> set ids"
proof -
  obtain m where "JStr (pfx @ '':'' @ hids m) \<notin> set ids" using some_id_unused [OF assms(1)] by blast
  then show ?thesis
    using tool_id_loop_found [of pfx hids m ids 0] assms(2) by (simp add: generateAgentToolId_def)
qed

definition ex_tool :: "string \<Rightarrow> string \<Rightarrow> jsval" where
  "ex_tool i nm = JObj [(''id'', JStr i), (''component_name'', JStr ''Bing''), (''name'', JStr nm)]"

definition ex_tools :: rf_state where
  "ex_tools = mk_state [mk_node ''Agent:a'' ''Agent'' ''Agent_0''
     (JObj [(''tools'', JArr [ex_tool ''Bing:x'' ''Bing_0'', ex_tool ''Bing:y'' ''Bing_3''])]) None] []"

theorem generateAgentToolId_fresh_witness:
  "\<exists>i. generateAgentToolId ''Bing'' nat_to_string ex_tools = Inr (Some i) \<and> JStr i \<notin> set [JStr ''Bing:x'', JStr ''Bing:y'']"
proof (rule generateAgentToolId_fresh)
  show "inj nat_to_string" by (metis dec_val_nat_to_string injI)
  show "map_r tool_key (getAllAgentTools ex_tools) = Inr [JStr ''Bing:x'', JStr ''Bing:y'']" by code_simp
qed

section \<open>A new name\<close>

lemma trailing_digits_join:
  "list_all is_digit ds \<Longrightarrow> trailing_digits (w @ ''_'' @ ds) = ds"
proof -
  assume "list_all is_digit ds"
  then have "takeWhile is_digit (rev ds @ CHR ''_'' # rev w) = rev ds"
    using digit_not_letter [of "CHR ''_''"] by (subst takeWhile_append2) (auto simp: list_all_iff)
  then show ?thesis by (simp add: trailing_digits_def)
qed

lemma trailing_digits_digits: "list_all is_digit (trailing_digits s)"
  by (auto simp: trailing_digits_def list_all_iff dest: set_takeWhileD)

definition tool_named :: "jsval \<Rightarrow> string \<Rightarrow> bool" where
  "tool_named t nm = (js_prop t ''name'' = Inr (JStr nm))"

lemma filter_r_subset: "filter_r f xs = Inr ys \<Longrightarrow> set ys = {x \<in> set xs. f x = Inr True}"
proof (induction xs arbitrary: ys)
  case (Cons x xs)
  then obtain b zs where "f x = Inr b" "filter_r f xs = Inr zs" "ys = (if b then x # zs else zs)" by auto
  with Cons.IH show ?case by (cases b) auto
qed simp

lemma sorted_le_last: "sorted xs \<Longrightarrow> x \<in> set xs \<Longrightarrow> x \<le> last xs"
  by (induction xs) auto

lemma sort_last_max:
  assumes "is \<noteq> []" and "\<forall>i\<in>set is. i \<noteq> NaN"
  shows "\<forall>j\<in>set is. j \<le> last (js_sort (\<lambda>k. k) is)" and "last (js_sort (\<lambda>k. k) is) \<in> set is"
proof -
  have s: "js_sort (\<lambda>k. k) is = sort is" using assms(2) by (simp add: js_sort_sort_key)
  have "sort is \<noteq> []" using assms(1) by (metis set_empty set_sort)
  then show "last (js_sort (\<lambda>k. k) is) \<in> set is" using s by (metis last_in_set set_sort)
  show "\<forall>j\<in>set is. j \<le> last (js_sort (\<lambda>k. k) is)"
    using sorted_le_last [of "sort is"] by (simp add: s)
qed

text \<open>A tool whose name ends in digits has that number as its index.\<close>

definition numbered :: "jsval \<Rightarrow> bool" where
  "numbered t = (case js_prop t ''name'' of Inr (JStr w) \<Rightarrow> trailing_digits w \<noteq> [] | _ \<Rightarrow> False)"

lemma numbered_index:
  assumes "numbered t"
  obtains w where "tool_named t w" "tool_index t = Inr (int_num (int (dec_val (trailing_digits w))))"
proof -
  obtain w where w: "js_prop t ''name'' = Inr (JStr w)" "trailing_digits w \<noteq> []"
    using assms by (auto simp: numbered_def split: sum.splits jsval.splits)
  then have "tool_index t = Inr (int_num (int (dec_val (trailing_digits w))))"
    using trailing_digits_digits [of w] by (simp add: tool_index_def num_of_string_digits)
  with w(1) show ?thesis using that by (simp add: tool_named_def)
qed

lemma next_tool_index:
  assumes "list_all numbered tools" and "map_r tool_index tools = Inr idxs"
  defines "l \<equiv> (if idxs = [] then Fin (-1) else last (js_sort (\<lambda>k. k) idxs))"
  shows "\<exists>k::nat. num_add l (Fin 1) = int_num (int k) \<and> (\<forall>i\<in>set idxs. i < int_num (int k))"
proof -
  have ints: "\<exists>j::nat. i = int_num (int j)" if "i \<in> set idxs" for i
    using that map_r_nth [OF assms(2)] map_r_length [OF assms(2)] assms(1)
    by (auto simp: in_set_conv_nth list_all_length elim!: numbered_index)
  show ?thesis
  proof (cases "idxs = []")
    case True
    then show ?thesis by (intro exI [of _ 0]) (simp add: l_def)
  next
    case False
    have nn: "\<forall>i\<in>set idxs. i \<noteq> NaN" using ints by blast
    obtain j :: nat where j: "l = int_num (int j)"
      using ints sort_last_max(2) [OF False nn] False by (auto simp: l_def)
    have "i < int_num (int (Suc j))" if i: "i \<in> set idxs" for i
    proof -
      have "i \<le> l" using sort_last_max(1) [OF False nn] i False by (simp add: l_def)
      moreover obtain n :: nat where "i = int_num (int n)" using ints [OF i] by blast
      ultimately show ?thesis using j by simp
    qed
    then show ?thesis using j by (intro exI [of _ "Suc j"]) simp
  qed
qed

text \<open>
  When the names of an agent's tools of one kind all end in a number, the name generated for
  another tool of that kind differs from all of them.
\<close>

theorem generateAgentToolName_fresh:
  assumes n: "find (\<lambda>x. nid x = i) (nodes s) = Some n" "node_form n = Some (JObj ob)" "obj_get ob ''tools'' = JArr ts"
    and tools: "filter_r (\<lambda>x. bind_r (js_prop x ''component_name'') (\<lambda>c. Inr (c = JStr nm))) ts = Inr tools"
    and num: "list_all numbered tools"
  shows "\<exists>w. generateAgentToolName i nm s = Inr w \<and> (\<forall>t\<in>set tools. \<not> tool_named t w)"
proof -
  have "\<exists>idxs. map_r tool_index tools = Inr idxs"
  proof -
    have "\<exists>y. tool_index t = Inr y" if "t \<in> set tools" for t
      using num that by (auto simp: list_all_iff elim!: numbered_index)
    then show ?thesis by (induction tools) fastforce+
  qed
  then obtain idxs where idxs: "map_r tool_index tools = Inr idxs" by blast
  let ?l = "if idxs = [] then Fin (-1) else last (js_sort (\<lambda>k. k) idxs)"
  obtain k :: nat where k: "num_add ?l (Fin 1) = int_num (int k)" and above: "\<forall>i\<in>set idxs. i < int_num (int k)"
    using next_tool_index [OF num idxs] by blast
  let ?w = "nm @ ''_'' @ int_to_string (int k)"
  have "generateAgentToolName i nm s = Inr (nm @ ''_'' @ num_to_string (num_add ?l (Fin 1)))"
    using n tools idxs by (simp add: generateAgentToolName_def Let_def)
  then have gen: "generateAgentToolName i nm s = Inr ?w"
    unfolding k num_to_string_int .
  have "\<not> tool_named t ?w" if t: "t \<in> set tools" for t
  proof
    assume "tool_named t ?w"
    moreover have "trailing_digits ?w = nat_to_string k"
      using trailing_digits_join [OF nat_to_string_digits, of nm k] by (simp add: int_to_string_def)
    ultimately have "tool_index t = Inr (int_num (int k))"
      by (simp add: tool_index_def tool_named_def num_of_string_digits nat_to_string_digits
          dec_val_nat_to_string)
    moreover obtain j where "j < length tools" "tools ! j = t" using t by (auto simp: in_set_conv_nth)
    ultimately have "int_num (int k) \<in> set idxs"
      using map_r_nth [OF idxs] map_r_length [OF idxs] by (metis Inr_inject nth_mem)
    with above show False by blast
  qed
  with gen show ?thesis by blast
qed

theorem generateAgentToolName_fresh_witness:
  "\<exists>w. generateAgentToolName ''Agent:a'' ''Bing'' ex_tools = Inr w
     \<and> (\<forall>t\<in>set [ex_tool ''Bing:x'' ''Bing_0'', ex_tool ''Bing:y'' ''Bing_3'']. \<not> tool_named t w)"
proof (rule generateAgentToolName_fresh)
  show "find (\<lambda>x. nid x = ''Agent:a'') (nodes ex_tools) = Some (mk_node ''Agent:a'' ''Agent'' ''Agent_0''
     (JObj [(''tools'', JArr [ex_tool ''Bing:x'' ''Bing_0'', ex_tool ''Bing:y'' ''Bing_3''])]) None)"
    by (simp add: ex_tools_def mk_state_def mk_node_def)
  show "list_all numbered [ex_tool ''Bing:x'' ''Bing_0'', ex_tool ''Bing:y'' ''Bing_3'']" by code_simp
  show "filter_r (\<lambda>x. bind_r (js_prop x ''component_name'') (\<lambda>c. Inr (c = JStr ''Bing'')))
      [ex_tool ''Bing:x'' ''Bing_0'', ex_tool ''Bing:y'' ''Bing_3''] = Inr [ex_tool ''Bing:x'' ''Bing_0'', ex_tool ''Bing:y'' ''Bing_3'']"
    by (simp add: ex_tool_def)
  show "node_form (mk_node ''Agent:a'' ''Agent'' ''Agent_0''
     (JObj [(''tools'', JArr [ex_tool ''Bing:x'' ''Bing_0'', ex_tool ''Bing:y'' ''Bing_3''])]) None)
     = Some (JObj [(''tools'', JArr [ex_tool ''Bing:x'' ''Bing_0'', ex_tool ''Bing:y'' ''Bing_3''])])"
    by (simp add: mk_node_def)
qed simp

text \<open>
  A tool whose name does not end in a number (the user may rename it) makes the next generated
  name end in \<open>NaN\<close>.
\<close>

theorem generateAgentToolName_nan:
  assumes "find (\<lambda>x. nid x = i) (nodes s) = Some n" "node_form n = Some (JObj [(''tools'', JArr [t])])"
    and "js_prop t ''component_name'' = Inr (JStr nm)" and "js_prop t ''name'' = Inr (JStr w)" "trailing_digits w = []"
  shows "generateAgentToolName i nm s = Inr (nm @ ''_NaN'')"
  using assms by (simp add: generateAgentToolName_def tool_index_def js_sort_def)

theorem generateAgentToolName_nan_witness:
  "generateAgentToolName ''Agent:a'' ''Bing'' (mk_state [mk_node ''Agent:a'' ''Agent'' ''Agent_0''
     (JObj [(''tools'', JArr [ex_tool ''Bing:x'' ''search''])]) None] []) = Inr ''Bing_NaN''"
  using generateAgentToolName_nan [of "''Agent:a''" "mk_state [mk_node ''Agent:a'' ''Agent'' ''Agent_0''
     (JObj [(''tools'', JArr [ex_tool ''Bing:x'' ''search''])]) None] []" _ "ex_tool ''Bing:x'' ''search''" "''Bing''" "''search''"]
  by (simp add: mk_state_def mk_node_def ex_tool_def trailing_digits_def is_digit_def less_eq_char_def)

section \<open>Reading back an updated tool\<close>

lemma find_index_r_find:
  "find_index_r f xs = Inr (Some j) \<Longrightarrow> j < length xs \<and> f (xs ! j) = Inr True \<and> (\<forall>k<j. f (xs ! k) = Inr False)"
proof (induction xs arbitrary: j)
  case (Cons x xs)
  then obtain b where b: "f x = Inr b" by auto
  show ?case
  proof (cases b)
    case True
    with Cons b show ?thesis by auto
  next
    case False
    with Cons.prems b obtain k where "find_index_r f xs = Inr (Some k)" "j = Suc k" by auto
    with Cons.IH [of k] b False show ?thesis by (auto simp: nth_Cons split: nat.splits)
  qed
qed simp

lemma find_r_first:
  "j < length xs \<Longrightarrow> f (xs ! j) = Inr True \<Longrightarrow> (\<forall>k<j. f (xs ! k) = Inr False) \<Longrightarrow> find_r f xs = Inr (Some (xs ! j))"
proof (induction xs arbitrary: j)
  case (Cons x xs)
  show ?case
  proof (cases j)
    case 0
    with Cons.prems show ?thesis by simp
  next
    case (Suc k)
    with Cons.prems have "f x = Inr False" by auto
    moreover have "find_r f xs = Inr (Some (xs ! k))"
      using Cons.prems Suc by (intro Cons.IH) auto
    ultimately show ?thesis using Suc by simp
  qed
qed simp

text \<open>
  Updating a tool of an agent by its key and reading it back by the same key gives the tool
  merged with the new fields, as long as the update keeps the key; the agent's other tools and the
  number of tools are unchanged.
\<close>

theorem updateAgentToolById_roundtrip:
  assumes L: "lodash_api L" and n: "getNode (Val a) s = Some n" "node_form n = Some (JObj ob)" "obj_get ob ''tools'' = JArr ts"
    and idx: "find_index_r (key_is i) ts = Inr (Some j)" and small: "int (length ts) < 4294967295"
    and old: "lodash_get L (JObj ob) [''tools'', nat_to_string j] (JObj []) = ts ! j"
    and key: "key_is i (JObj (obj_assign (entries (ts ! j)) vals)) = Inr True"
  shows "\<exists>s'. updateAgentToolById L (Some n) i vals s = Inr s'
     \<and> getAgentToolById L i (OfNodeId a) s' = Inr (Some (JObj (obj_assign (entries (ts ! j)) vals)))
     \<and> owner_tools L (OfNodeId a) s' = JArr (ts[j := JObj (obj_assign (entries (ts ! j)) vals)])"
proof -
  let ?t = "JObj (obj_assign (entries (ts ! j)) vals)"
  let ?s' = "updateNodeForm L (nid n) ?t [''tools'', nat_to_string j] s"
  have j: "j < length ts" "\<forall>k<j. key_is i (ts ! k) = Inr False"
    using find_index_r_find [OF idx] by simp_all
  have tools: "getAgentNodeTools L (Some n) = JArr ts"
    using n by (simp add: getAgentNodeTools_def lodash_api.get_one [OF L])
  have upd: "updateAgentToolById L (Some n) i vals s = Inr ?s'"
    using tools idx old n by (simp add: updateAgentToolById_def Let_def)
  have "lodash_set L (JObj ob) [''tools'', nat_to_string j] ?t = JObj (obj_put ''tools'' (JArr (ts[j := ?t])) ob)"
    using n(3) j small by (intro lodash_api.set_index [OF L]) auto
  then have owner: "owner_tools L (OfNodeId a) ?s' = JArr (ts[j := ?t])"
    using n getNode_nid [OF n(1)]
    by (simp add: owner_tools_def getNode_updateNodeForm form_step_def set_form_def next_form_def
        getAgentNodeTools_def lodash_api.get_one [OF L])
  have "find_r (key_is i) (ts[j := ?t]) = Inr (Some (ts[j := ?t] ! j))"
    using j key by (intro find_r_first) auto
  with upd owner j show ?thesis by (simp add: getAgentToolById_def)
qed

theorem updateAgentToolById_roundtrip_witness:
  "\<exists>s'. updateAgentToolById ref_libs (getNode (Val ''Agent:a'') ex_tools) ''Bing:y'' [(''name'', JStr ''web'')] ex_tools = Inr s'
     \<and> getAgentToolById ref_libs ''Bing:y'' (OfNodeId ''Agent:a'') s'
         = Inr (Some (JObj [(''id'', JStr ''Bing:y''), (''component_name'', JStr ''Bing''), (''name'', JStr ''web'')]))"
proof -
  let ?ts = "[ex_tool ''Bing:x'' ''Bing_0'', ex_tool ''Bing:y'' ''Bing_3'']"
  have n: "getNode (Val ''Agent:a'') ex_tools = Some (mk_node ''Agent:a'' ''Agent'' ''Agent_0'' (JObj [(''tools'', JArr ?ts)]) None)"
    by (simp add: ex_tools_def mk_state_def mk_node_def getNode_def)
  have idx: "find_index_r (key_is ''Bing:y'') ?ts = Inr (Some 1)" by code_simp
  have old: "lodash_get ref_libs (JObj [(''tools'', JArr ?ts)]) [''tools'', nat_to_string 1] (JObj []) = ?ts ! 1" by code_simp
  have new: "obj_assign (entries (?ts ! 1)) [(''name'', JStr ''web'')]
      = [(''id'', JStr ''Bing:y''), (''component_name'', JStr ''Bing''), (''name'', JStr ''web'')]" by code_simp
  have key: "key_is ''Bing:y'' (JObj (obj_assign (entries (?ts ! 1)) [(''name'', JStr ''web'')])) = Inr True" by code_simp
  have frm: "node_form (mk_node ''Agent:a'' ''Agent'' ''Agent_0'' (JObj [(''tools'', JArr ?ts)]) None) = Some (JObj [(''tools'', JArr ?ts)])"
    by (simp add: mk_node_def)
  from updateAgentToolById_roundtrip [OF ref.lodash_api_axioms n frm _ idx _ old key]
  show ?thesis unfolding new n by auto
qed

end
