(* ===== verification/Dsl_Builder.thy ===== *)
theory Dsl_Builder
  imports Form_Data Downstream
begin

text \<open>
  The construction of the DSL from the canvas graph: \<open>buildDslComponentsByGraph\<close> of
  \<open>pages/agent/utils.ts\<close> with the transformations of the operators' forms it calls
  (\<open>utils/form.ts\<close> for the model settings) and \<open>hooks/use-build-dsl.ts\<close>.

  A form is an object value. The recursion over sub-agents has its depth as an argument; running
  out of it is the exhausted call stack.
\<close>

section \<open>Model settings\<close>

definition variableEnabledFieldMap :: "string obj" where
  "variableEnabledFieldMap =
     [(''temperatureEnabled'', ''temperature''), (''topPEnabled'', ''top_p''),
      (''presencePenaltyEnabled'', ''presence_penalty''),
      (''frequencyPenaltyEnabled'', ''frequency_penalty''), (''maxTokensEnabled'', ''max_tokens'')]"

definition excludeUnEnabledVariables :: "jsval obj \<Rightarrow> string \<Rightarrow> string list" where
  "excludeUnEnabledVariables vals prefix =
     map (\<lambda>kv. prefix @ snd kv) (filter (\<lambda>kv. \<not> truthy (obj_get vals (fst kv))) variableEnabledFieldMap)"

definition removeUselessFieldsFromValues :: "libs \<Rightarrow> jsval obj \<Rightarrow> string \<Rightarrow> jsval obj" where
  "removeUselessFieldsFromValues L vals prefix =
     lodash_omit L vals
       (keys variableEnabledFieldMap @ [''parameter''] @ excludeUnEnabledVariables vals prefix)"

definition setLLMSettingEnabledValues :: "jsval obj option \<Rightarrow> bool obj" where
  "setLLMSettingEnabledValues initialLlmSetting =
     map (\<lambda>(field, v). (field, case initialLlmSetting of None \<Rightarrow> False | Some s \<Rightarrow> truthy (obj_get s v)))
       variableEnabledFieldMap"

definition removeUselessDataInTheOperator :: "libs \<Rightarrow> string \<Rightarrow> jsval \<Rightarrow> jsval" where
  "removeUselessDataInTheOperator L operatorName params =
     (if operatorName = op_str OpCategorize then JObj (removeUselessFieldsFromValues L (entries params) [])
      else params)"

section \<open>Neighbours\<close>

definition buildAgentExceptionGoto :: "edge list \<Rightarrow> string \<Rightarrow> string list" where
  "buildAgentExceptionGoto es nodeId =
     map target (filter (\<lambda>x. source x = nodeId \<and> has_handle (sourceHandle x) HAgentException) es)"

definition downstream_edge :: "node list \<Rightarrow> string \<Rightarrow> edge \<Rightarrow> bool" where
  \<comment> \<open>the three exclusions for the downstream of an agent\<close>
  "downstream_edge ns nodeId y =
     (case find (\<lambda>x. nid x = nodeId) ns of
        None \<Rightarrow> True
      | Some node \<Rightarrow>
          nlabel node = op_str OpAgent \<longrightarrow>
            \<not> has_handle (sourceHandle y) HAgentException
            \<and> \<not> starts_with (target y) (op_str OpTool)
            \<and> \<not> (starts_with (target y) (op_str OpAgent) \<and> has_handle (targetHandle y) HAgentTop))"

definition buildComponentDownstreamOrUpstream :: "edge list \<Rightarrow> string \<Rightarrow> bool \<Rightarrow> node list \<Rightarrow> string list" where
  "buildComponentDownstreamOrUpstream es nodeId isBuildDownstream ns =
     map (if isBuildDownstream then target else source)
       (filter (\<lambda>y. (if isBuildDownstream then source y else target y) = nodeId
                  \<and> (isBuildDownstream \<longrightarrow> downstream_edge ns nodeId y)) es)"

definition isBottomSubAgent :: "edge list \<Rightarrow> string option \<Rightarrow> bool" where
  "isBottomSubAgent es nodeId =
     (find (\<lambda>x. Some (target x) = nodeId \<and> has_handle (targetHandle x) HAgentTop) es \<noteq> None)"

definition hasSubAgentOrTool :: "edge list \<Rightarrow> string option \<Rightarrow> bool" where
  "hasSubAgentOrTool es nodeId =
     (find (\<lambda>x. Some (source x) = nodeId
        \<and> (has_handle (sourceHandle x) HTool \<or> has_handle (sourceHandle x) HAgentBottom)) es \<noteq> None)"

definition hasSubAgent :: "edge list \<Rightarrow> string option \<Rightarrow> bool" where
  "hasSubAgent es nodeId =
     (find (\<lambda>x. Some (source x) = nodeId \<and> has_handle (sourceHandle x) HAgentBottom) es \<noteq> None)"

section \<open>Agents and their sub-agents\<close>

definition subAgentIds :: "edge list \<Rightarrow> string \<Rightarrow> string list" where
  \<comment> \<open>\<open>bottomSubAgentEdges.map(x => x.target)\<close>\<close>
  "subAgentIds es nodeId =
     map target (filter (\<lambda>x. source x = nodeId \<and> has_handle (sourceHandle x) HAgentBottom) es)"

text \<open>The result of \<open>buildAgentTools\<close>: parameters, name and id.\<close>

record agent_tool =
  at_params :: "jsval obj"
  at_name :: jsval
  at_id :: jsval

definition agent_tool_entry :: "agent_tool \<Rightarrow> jsval" where
  "agent_tool_entry t = JObj [(''component_name'', JStr (op_str OpAgent)), (''id'', at_id t),
     (''name'', at_name t), (''params'', JObj (at_params t))]"

fun buildAgentTools :: "nat \<Rightarrow> edge list \<Rightarrow> node list \<Rightarrow> string \<Rightarrow> agent_tool res" where
  "buildAgentTools 0 es ns nodeId = Inl RangeError"
| "buildAgentTools (Suc depth) es ns nodeId =
     (case find (\<lambda>x. nid x = nodeId) ns of
        None \<Rightarrow> Inr \<lparr>at_params = [], at_name = JUndef, at_id = JUndef\<rparr>
      | Some node \<Rightarrow>
          (let params = spread (form_or_empty node);
               result = (\<lambda>ps. \<lparr>at_params = ps, at_name = JStr (node_name node), at_id = JStr (nid node)\<rparr>)
           in if nlabel node = op_str OpAgent
              then bind_r (js_array (obj_get params ''tools''))
                     (\<lambda>tools. bind_r (map_r (buildAgentTools depth es ns) (subAgentIds es nodeId))
                        (\<lambda>subs. Inr (result (obj_put ''tools'' (JArr (tools @ map agent_tool_entry subs)) params))))
              else Inr (result params)))"

section \<open>Categories\<close>

definition handle_val :: "string nullable \<Rightarrow> jsval" where
  "handle_val h = (case h of Undefined \<Rightarrow> JUndef | Null \<Rightarrow> JNull | Val s \<Rightarrow> JStr s)"

definition filterTargetsBySourceHandleId :: "edge list \<Rightarrow> jsval \<Rightarrow> string list" where
  "filterTargetsBySourceHandleId es handleId =
     map target (filter (\<lambda>x. handle_val (sourceHandle x) = handleId) es)"

definition category_description_entry :: "libs \<Rightarrow> edge list \<Rightarrow> jsval \<Rightarrow> (string \<times> jsval) res" where
  "category_description_entry L subEdges val =
     bind_r (js_prop val ''name'')
       (\<lambda>nm. bind_r (js_opt_map (\<lambda>x. js_prop x ''value'') (js_opt val ''examples''))
          (\<lambda>ex. Inr (js_to_string nm,
             JObj (obj_put ''to'' (JArr (map JStr (filterTargetsBySourceHandleId subEdges (js_opt val ''uuid''))))
               (obj_put ''examples'' (js_or ex (JArr []))
                  (lodash_omit L (entries val) [''name'', ''uuid'']))))))"

definition buildCategorize :: "libs \<Rightarrow> edge list \<Rightarrow> node list \<Rightarrow> string \<Rightarrow> jsval obj res" where
  "buildCategorize L es ns nodeId =
     (case find (\<lambda>x. nid x = nodeId) ns of
        None \<Rightarrow> Inr (lodash_omit L [] [''items''])
      | Some node \<Rightarrow>
          (let params = spread (form_or_empty node) in
           if nlabel node = op_str OpCategorize
           then bind_r (js_array (js_or (obj_get params ''items'') (JArr [])))
                  (\<lambda>items. bind_r (map_r (category_description_entry L (filter (\<lambda>x. source x = nodeId) es)) items)
                     (\<lambda>ents. Inr (lodash_omit L
                        (obj_put ''category_description'' (JObj (obj_of_entries ents)) params) [''items''])))
           else Inr (lodash_omit L params [''items''])))"

section \<open>Forms of the data-flow operators\<close>

definition transformObjectArrayToPureArray :: "libs \<Rightarrow> jsval \<Rightarrow> string \<Rightarrow> jsval res" where
  "transformObjectArrayToPureArray L lst field =
     (case lst of
        JArr xs \<Rightarrow> bind_r (map_r (\<lambda>x. js_prop x field) xs)
                    (\<lambda>vs. Inr (JArr (filter (\<lambda>v. \<not> lodash_isEmpty L v) vs)))
      | _ \<Rightarrow> Inr (JArr []))"

datatype FileType = FtPDF | FtSpreadsheet | FtImage | FtEmail | FtTextMarkdown | FtDocx
  | FtPowerPoint | FtVideo | FtAudio

fun file_type_str :: "FileType \<Rightarrow> string" where
  "file_type_str FtPDF = ''pdf''"
| "file_type_str FtSpreadsheet = ''spreadsheet''"
| "file_type_str FtImage = ''image''"
| "file_type_str FtEmail = ''email''"
| "file_type_str FtTextMarkdown = ''text&markdown''"
| "file_type_str FtDocx = ''word''"
| "file_type_str FtPowerPoint = ''slides''"
| "file_type_str FtVideo = ''video''"
| "file_type_str FtAudio = ''audio''"

definition FileTypes :: "FileType list" where
  "FileTypes = [FtPDF, FtSpreadsheet, FtImage, FtEmail, FtTextMarkdown, FtDocx, FtPowerPoint, FtVideo, FtAudio]"

fun FileTypeSuffixMap :: "FileType \<Rightarrow> string list" where
  "FileTypeSuffixMap FtPDF = [''pdf'']"
| "FileTypeSuffixMap FtSpreadsheet = [''xls'', ''xlsx'', ''csv'']"
| "FileTypeSuffixMap FtImage = [''jpg'', ''jpeg'', ''png'', ''gif'']"
| "FileTypeSuffixMap FtEmail = [''eml'', ''msg'']"
| "FileTypeSuffixMap FtTextMarkdown = [''md'', ''markdown'', ''mdx'', ''txt'']"
| "FileTypeSuffixMap FtDocx = [''doc'', ''docx'']"
| "FileTypeSuffixMap FtPowerPoint = [''pptx'', ''ppt'']"
| "FileTypeSuffixMap FtVideo = [''mp4'', ''avi'', ''mkv'']"
| "FileTypeSuffixMap FtAudio = [''da'', ''wave'', ''wav'', ''mp3'', ''aac'', ''flac'', ''ogg'', ''aiff'',
     ''au'', ''midi'', ''wma'', ''realaudio'', ''vqf'', ''oggvorbis'', ''ape'']"

definition file_type_of :: "jsval \<Rightarrow> FileType option" where
  "file_type_of v = find (\<lambda>t. v = JStr (file_type_str t)) FileTypes"

definition put_fields :: "jsval \<Rightarrow> string list \<Rightarrow> jsval obj \<Rightarrow> jsval obj" where
  \<comment> \<open>\<open>{...ob, f: cur.f, ...}\<close>\<close>
  "put_fields cur fs ob = fold (\<lambda>f. obj_put f (js_opt cur f)) fs ob"

definition is_tcadp :: "jsval \<Rightarrow> bool res" where
  \<comment> \<open>\<open>m?.toLowerCase() === 'tcadp parser'\<close>\<close>
  "is_tcadp m =
     (case m of JStr s \<Rightarrow> Inr (toLowerCase s = ''tcadp parser'')
      | _ \<Rightarrow> if nullish m then Inr False else Inl TypeError)"

definition with_tcadp :: "jsval \<Rightarrow> jsval obj \<Rightarrow> jsval obj res" where
  "with_tcadp cur ob =
     bind_r (is_tcadp (js_opt cur ''parse_method''))
       (\<lambda>b. Inr (if b then put_fields cur [''table_result_type'', ''markdown_image_response_type''] ob else ob))"

definition parser_setup :: "jsval \<Rightarrow> jsval obj res" where
  "parser_setup cur =
     (let ft = file_type_of (js_opt cur ''fileFormat'');
          suffix = (case ft of None \<Rightarrow> JUndef | Some t \<Rightarrow> JArr (map JStr (FileTypeSuffixMap t)));
          setup = obj_put ''suffix'' suffix (put_fields cur [''output_format'', ''preprocess''] [])
      in case ft of
           Some FtPDF \<Rightarrow> with_tcadp cur (put_fields cur [''parse_method'', ''lang''] setup)
         | Some FtSpreadsheet \<Rightarrow> with_tcadp cur (put_fields cur [''parse_method''] setup)
         | Some FtPowerPoint \<Rightarrow> with_tcadp cur (put_fields cur [''parse_method''] setup)
         | Some FtImage \<Rightarrow> Inr (put_fields cur [''parse_method'', ''lang'', ''system_prompt''] setup)
         | Some FtEmail \<Rightarrow> Inr (put_fields cur [''fields''] setup)
         | Some FtVideo \<Rightarrow> Inr (put_fields cur [''llm_id''] setup)
         | Some FtAudio \<Rightarrow> Inr (put_fields cur [''llm_id''] setup)
         | _ \<Rightarrow> Inr setup)"

fun parser_setups :: "jsval obj \<Rightarrow> jsval list \<Rightarrow> jsval obj res" where
  "parser_setups pre [] = Inr pre"
| "parser_setups pre (cur # rest) =
     bind_r (js_prop cur ''fileFormat'')
       (\<lambda>fmt. if truthy fmt
              then bind_r (parser_setup cur) (\<lambda>s. parser_setups (obj_put (js_to_string fmt) (JObj s) pre) rest)
              else parser_setups pre rest)"

definition transformParserParams :: "jsval obj \<Rightarrow> jsval obj res" where
  "transformParserParams params =
     bind_r (js_array (obj_get params ''setups''))
       (\<lambda>setups. bind_r (parser_setups [] setups) (\<lambda>s. Inr (obj_put ''setups'' (JObj s) (spread (JObj params)))))"

definition transformSplitterParams :: "libs \<Rightarrow> jsval obj \<Rightarrow> jsval obj res" where
  "transformSplitterParams L params =
     (let rest = obj_del ''image_table_context_window'' params;
          imageTableContextWindow =
            JNum (js_number (js_or (obj_get params ''image_table_context_window'') (JNum (Fin 0))))
      in bind_r (transformObjectArrayToPureArray L (obj_get params ''delimiters'') ''value'')
        (\<lambda>delimiters. bind_r (if truthy (obj_get params ''enable_children'')
              then transformObjectArrayToPureArray L (obj_get params ''children_delimiters'') ''value''
              else Inr (JArr []))
           (\<lambda>children. Inr (obj_assign rest
              [(''overlapped_percent'', JNum (num_div (js_number (obj_get params ''overlapped_percent'')) 100)),
               (''delimiters'', delimiters), (''table_context_size'', imageTableContextWindow),
               (''image_context_size'', imageTableContextWindow), (''children_delimiters'', children)]))))"

definition transformHierarchicalMergerParams :: "libs \<Rightarrow> jsval obj \<Rightarrow> jsval obj res" where
  "transformHierarchicalMergerParams L params =
     bind_r (js_map (\<lambda>x. bind_r (js_prop x ''expressions'')
              (\<lambda>ex. transformObjectArrayToPureArray L ex ''expression'')) (obj_get params ''levels''))
       (\<lambda>levels. Inr (obj_assign (spread (JObj params))
          [(''hierarchy'', JNum (js_number (obj_get params ''hierarchy''))), (''levels'', levels)]))"

definition transformExtractorParams :: "jsval obj \<Rightarrow> jsval obj" where
  "transformExtractorParams params =
     obj_put ''prompts'' (JArr [JObj [(''content'', obj_get params ''prompts''), (''role'', JStr ''user'')]])
       (spread (JObj params))"

definition transformDataOperationsParams :: "jsval obj \<Rightarrow> jsval obj res" where
  "transformDataOperationsParams params =
     bind_r (js_opt_map (\<lambda>x. js_prop x ''name'') (obj_get params ''select_keys''))
       (\<lambda>sel. bind_r (js_opt_map (\<lambda>x. js_prop x ''name'') (obj_get params ''remove_keys''))
          (\<lambda>rem. bind_r (js_map (\<lambda>x. js_prop x ''input'') (obj_get params ''query''))
             (\<lambda>qry. Inr (obj_assign (spread (JObj params))
                [(''select_keys'', sel), (''remove_keys'', rem), (''query'', qry)]))))"

section \<open>The begin operator\<close>

definition request_schema :: "jsval list \<Rightarrow> jsval res" where
  "request_schema value =
     bind_r (map_r (\<lambda>x. bind_r (js_prop x ''required'') (\<lambda>r. Inr (if truthy r then [js_opt x ''key''] else []))) value)
       (\<lambda>req. Inr (JObj [(''type'', JStr ''object''), (''required'', JArr (concat req)),
          (''properties'', JObj (obj_of_entries
             (map (\<lambda>cur. (js_to_string (js_opt cur ''key''), JObj [(''type'', js_opt cur ''type'')])) value)))]))"

definition transformRequestSchemaToJsonschema :: "jsval \<Rightarrow> jsval obj res" where
  "transformRequestSchemaToJsonschema schema =
     bind_r (map_r (\<lambda>(key, value).
         case value of JArr xs \<Rightarrow> bind_r (request_schema xs) (\<lambda>s. Inr [(key, s)]) | _ \<Rightarrow> Inr [])
       (entries (js_or schema (JObj []))))
       (\<lambda>ess. Inr (obj_of_entries (concat ess)))"

definition js_value :: "jsval \<Rightarrow> jsval res" where
  "js_value x = js_prop x ''value''"

definition transformBeginParams :: "jsval obj \<Rightarrow> jsval obj res" where
  "transformBeginParams params =
     (if obj_get params ''mode'' = JStr ''Webhook''
      then (let security = obj_get params ''security''; jwt = js_opt security ''jwt'' in
        bind_r (if nullish security then Inr JUndef else js_map js_value (js_opt security ''ip_whitelist''))
          (\<lambda>ips. bind_r
             (if js_opt security ''auth_type'' = JStr ''jwt''
              then bind_r (if nullish jwt then Inr JUndef else js_map js_value (js_opt jwt ''required_claims''))
                     (\<lambda>claims. Inr [(''jwt'', JObj (obj_put ''required_claims'' claims (spread jwt)))])
              else Inr [])
             (\<lambda>jwtField. bind_r (transformRequestSchemaToJsonschema (obj_get params ''schema''))
                (\<lambda>schema. Inr (obj_assign (spread (JObj params))
                   [(''schema'', JObj schema),
                    (''security'', JObj (obj_assign (obj_put ''ip_whitelist'' ips
                       (spread (js_coalesce security (JObj [])))) jwtField))])))))
      else Inr (spread (JObj params)))"

section \<open>The components\<close>

definition ExcludeOperators :: "Operator list" where
  "ExcludeOperators = [OpNote, OpTool, OpPlaceholder]"

definition is_component :: "edge list \<Rightarrow> node \<Rightarrow> bool" where
  "is_component es x =
     (\<not> list_ex (\<lambda>y. op_str y = nlabel x) ExcludeOperators \<and> \<not> isBottomSubAgent es (Some (nid x)))"

definition operator_params :: "nat \<Rightarrow> libs \<Rightarrow> edge list \<Rightarrow> node list \<Rightarrow> node \<Rightarrow> jsval res" where
  \<comment> \<open>the switch over the operator name\<close>
  "operator_params depth L es ns x =
     (let params = form_or_empty x; ob = entries params; l = nlabel x; objr = (\<lambda>m. bind_r m (\<lambda>p. Inr (JObj p))) in
      if l = op_str OpAgent
      then bind_r (buildAgentTools depth es ns (nid x))
             (\<lambda>t. Inr (JObj (obj_put ''exception_goto'' (JArr (map JStr (buildAgentExceptionGoto es (nid x))))
                (spread (JObj (at_params t))))))
      else if l = op_str OpCategorize then objr (buildCategorize L es ns (nid x))
      else if l = op_str OpParser then objr (transformParserParams ob)
      else if l = op_str OpSplitter then objr (transformSplitterParams L ob)
      else if l = op_str OpHierarchicalMerger then objr (transformHierarchicalMergerParams L ob)
      else if l = op_str OpExtractor then Inr (JObj (transformExtractorParams ob))
      else if l = op_str OpDataOperations then objr (transformDataOperationsParams ob)
      else if l = op_str OpBegin then objr (transformBeginParams ob)
      else Inr params)"

definition build_component ::
    "nat \<Rightarrow> libs \<Rightarrow> node list \<Rightarrow> edge list \<Rightarrow> dsl_component obj \<Rightarrow> node \<Rightarrow> dsl_component res" where
  "build_component depth L ns es oldDslComponents x =
     bind_r (operator_params depth L es ns x)
       (\<lambda>params. Inr
          \<lparr>cobj = obj_assign (case map_of oldDslComponents (nid x) of None \<Rightarrow> [] | Some c \<Rightarrow> cobj c)
             [(''component_name'', JStr (nlabel x)),
              (''params'', js_coalesce (removeUselessDataInTheOperator L (nlabel x) params) (JObj []))],
           downstream = buildComponentDownstreamOrUpstream es (nid x) True ns,
           upstream = buildComponentDownstreamOrUpstream es (nid x) False ns,
           parent_id = parentId x\<rparr>)"

definition buildDslComponentsByGraph ::
    "nat \<Rightarrow> libs \<Rightarrow> node list \<Rightarrow> edge list \<Rightarrow> dsl_component obj \<Rightarrow> dsl_component obj res" where
  "buildDslComponentsByGraph depth L ns es oldDslComponents =
     bind_r (map_r (\<lambda>x. bind_r (build_component depth L ns es oldDslComponents x) (\<lambda>c. Inr (nid x, c)))
        (filter (is_component es) ns))
       (\<lambda>ents. Inr (obj_of_entries ents))"

section \<open>The DSL that is saved\<close>

record dsl =
  dsl_globals :: "jsval obj"
  dsl_variables :: "jsval obj option"
  dsl_nodes :: "node list"
  dsl_edges :: "edge list"
  dsl_components :: "dsl_component obj"

definition is_placeholder :: "node list \<Rightarrow> string \<Rightarrow> bool" where
  "is_placeholder ns i =
     (case find (\<lambda>n. nid n = i) ns of None \<Rightarrow> False | Some n \<Rightarrow> nlabel n = op_str OpPlaceholder)"

definition buildDslData ::
    "nat \<Rightarrow> libs \<Rightarrow> dsl \<Rightarrow> rf_state \<Rightarrow> node list option \<Rightarrow> jsval obj option \<Rightarrow> dsl res" where
  "buildDslData depth L d s currentNodes globalVariables =
     (let nodesToProcess = (case currentNodes of None \<Rightarrow> nodes s | Some ns \<Rightarrow> ns);
          filteredNodes = filter (\<lambda>n. nlabel n \<noteq> op_str OpPlaceholder) nodesToProcess;
          filteredEdges = filter (\<lambda>e. \<not> is_placeholder nodesToProcess (source e)
                            \<and> \<not> is_placeholder nodesToProcess (target e)) (edges s)
      in bind_r (buildDslComponentsByGraph depth L filteredNodes filteredEdges (dsl_components d))
        (\<lambda>comps. bind_r (buildDslGlobalVariables (dsl_globals d) (dsl_variables d) globalVariables)
           (\<lambda>(globs, vars). Inr (d\<lparr>dsl_globals := globs, dsl_variables := Some vars,
              dsl_nodes := filteredNodes, dsl_edges := filteredEdges, dsl_components := comps\<rparr>))))"

end
