(* ===== verification/Dsl_Correct.thy ===== *)
theory Dsl_Correct
  imports Dsl_Builder
begin

text \<open>
  What the construction of the DSL guarantees: which nodes become components, that upstream and
  downstream lists mirror each other, that the recursion over sub-agents ends exactly on
  hierarchies without cycles, how categories find their targets, which fields of a parser setup
  are sent and which model settings survive, and that the saved DSL has no placeholder.
\<close>

section \<open>Keys of objects built from lists\<close>

lemma keys_map_r:
  "map_r (\<lambda>x. bind_r (f x) (\<lambda>y. Inr (g x, y))) xs = Inr es \<Longrightarrow> keys es = map g xs"
  by (induction xs arbitrary: es) auto

lemma map_of_map_r:
  "map_r (\<lambda>x. bind_r (f x) (\<lambda>y. Inr (g x, y))) xs = Inr es \<Longrightarrow> distinct (map g xs) \<Longrightarrow> x \<in> set xs \<Longrightarrow>
     \<exists>y. f x = Inr y \<and> map_of es (g x) = Some y"
  by (induction xs arbitrary: es) (fastforce simp: image_iff)+

lemma set_keys_obj_of_entries: "set (keys (obj_of_entries es)) = set (keys es)"
  using set_keys_obj_assign [of "[]" es] by (simp add: obj_of_entries_def obj_assign_def)

lemma distinct_keys_obj_of_entries: "distinct (keys (obj_of_entries es))"
  using distinct_keys_obj_assign [of "[]" es] by (simp add: obj_of_entries_def obj_assign_def)

text \<open>An error of a mapped function is an error of one of its calls.\<close>

lemma map_r_Inl: "map_r f xs = Inl e \<Longrightarrow> \<exists>x\<in>set xs. f x = Inl e"
proof (induction xs)
  case (Cons x xs)
  then show ?case by (cases "f x"; cases "map_r f xs") auto
qed simp

lemma map_r_Inl_ex: "x \<in> set xs \<Longrightarrow> f x = Inl e \<Longrightarrow> \<exists>e'. map_r f xs = Inl e'"
proof (induction xs)
  case (Cons y ys)
  then show ?case by (cases "f y"; cases "map_r f ys") auto
qed simp

section \<open>Which nodes become components\<close>

lemma dsl_entries:
  assumes "buildDslComponentsByGraph depth L ns es old = Inr comps"
  obtains ents where "map_r (\<lambda>x. bind_r (build_component depth L ns es old x) (\<lambda>c. Inr (nid x, c)))
        (filter (is_component es) ns) = Inr ents" and "comps = obj_of_entries ents"
  using assms by (auto simp: buildDslComponentsByGraph_def)

lemma dsl_keys:
  assumes "buildDslComponentsByGraph depth L ns es old = Inr comps"
  shows "set (keys comps) = nid ` {x \<in> set ns. is_component es x} \<and> distinct (keys comps)"
  using assms
  by (auto elim!: dsl_entries simp: set_keys_obj_of_entries distinct_keys_obj_of_entries keys_map_r)

lemma dsl_lookup:
  assumes "buildDslComponentsByGraph depth L ns es old = Inr comps"
    and "distinct (map nid ns)" and "x \<in> set ns" "is_component es x"
  shows "\<exists>c. map_of comps (nid x) = Some c \<and> build_component depth L ns es old x = Inr c"
proof -
  from assms(1) obtain ents where
    m: "map_r (\<lambda>x. bind_r (build_component depth L ns es old x) (\<lambda>c. Inr (nid x, c)))
        (filter (is_component es) ns) = Inr ents" and c: "comps = obj_of_entries ents"
    by (rule dsl_entries)
  have d: "distinct (map nid (filter (is_component es) ns))"
    using assms(2) by (rule distinct_map_filter')
  with keys_map_r [OF m] have "map_of comps = map_of ents"
    by (simp add: c map_of_obj_of_entries)
  with map_of_map_r [OF m d, of x] assms(3,4) show ?thesis by auto
qed

lemma dsl_lookup_node:
  assumes "buildDslComponentsByGraph depth L ns es old = Inr comps"
    and "distinct (map nid ns)" and "map_of comps a = Some c"
  obtains x where "x \<in> set ns" "is_component es x" "nid x = a"
    "build_component depth L ns es old x = Inr c"
proof -
  have "a \<in> set (keys comps)" using assms(3) map_of_None_keys [of comps a] by auto
  then obtain x where x: "x \<in> set ns" "is_component es x" "nid x = a"
    using dsl_keys [OF assms(1)] by auto
  with dsl_lookup [OF assms(1,2), of x] assms(3) that show ?thesis by auto
qed

lemma build_component_fields:
  "build_component depth L ns es old x = Inr c \<Longrightarrow>
     downstream c = buildComponentDownstreamOrUpstream es (nid x) True ns
     \<and> upstream c = buildComponentDownstreamOrUpstream es (nid x) False ns
     \<and> parent_id c = parentId x
     \<and> obj_get (cobj c) ''component_name'' = JStr (nlabel x)
     \<and> (\<exists>ps. operator_params depth L es ns x = Inr ps
          \<and> obj_get (cobj c) ''params'' = js_coalesce (removeUselessDataInTheOperator L (nlabel x) ps) (JObj []))"
  by (auto simp: build_component_def obj_get_assign)

definition in_dsl :: "edge list \<Rightarrow> node \<Rightarrow> bool" where
  \<comment> \<open>neither a note, a tool nor a placeholder, and not entered from above by an agent\<close>
  "in_dsl es x = (nlabel x \<notin> {op_str OpNote, op_str OpTool, op_str OpPlaceholder}
     \<and> \<not> list_ex (\<lambda>e. target e = nid x \<and> has_handle (targetHandle e) HAgentTop) es)"

lemma in_dsl_component: "in_dsl es x = is_component es x"
proof -
  have "isBottomSubAgent es (Some (nid x)) = list_ex (\<lambda>e. target e = nid x \<and> has_handle (targetHandle e) HAgentTop) es"
    by (auto simp: isBottomSubAgent_def find_None_iff list_ex_iff)
  then show ?thesis by (auto simp: is_component_def in_dsl_def ExcludeOperators_def)
qed

text \<open>
  C5: when the construction of the DSL returns, its components are exactly the nodes that are
  neither notes, tools nor placeholders and that are not sub-agents of another agent, each once;
  a component keeps its operator name, its parent and the neighbours the edges give it, and
  the fields an earlier version of the component had besides.
\<close>

theorem dsl_components_exact:
  assumes "distinct (map nid ns)"
    and "buildDslComponentsByGraph depth L ns es old = Inr comps"
  shows "set (keys comps) = nid ` {x \<in> set ns. in_dsl es x} \<and> distinct (keys comps)
     \<and> (\<forall>x\<in>set ns. in_dsl es x \<longrightarrow>
          (\<exists>c. map_of comps (nid x) = Some c
             \<and> obj_get (cobj c) ''component_name'' = JStr (nlabel x) \<and> parent_id c = parentId x
             \<and> downstream c = buildComponentDownstreamOrUpstream es (nid x) True ns
             \<and> upstream c = map source (filter (\<lambda>e. target e = nid x) es)
             \<and> (\<forall>k o'. map_of old (nid x) = Some o' \<and> k \<noteq> ''component_name'' \<and> k \<noteq> ''params'' \<longrightarrow>
                  obj_get (cobj c) k = obj_get (cobj o') k)))"
proof -
  have "obj_get (cobj c) k = obj_get (cobj o') k"
    if "build_component depth L ns es old x = Inr c" "map_of old (nid x) = Some o'"
      "k \<noteq> ''component_name''" "k \<noteq> ''params''" for x c k o'
    using that by (auto simp: build_component_def obj_get_assign)
  moreover note dsl_lookup [OF assms(2,1)] build_component_fields
  moreover have "buildComponentDownstreamOrUpstream es (nid x) False ns = map source (filter (\<lambda>e. target e = nid x) es)" for x
    by (simp add: buildComponentDownstreamOrUpstream_def)
  ultimately show ?thesis unfolding in_dsl_component using dsl_keys [OF assms(2)] by fastforce
qed

definition dsl_example_nodes :: "node list" where
  "dsl_example_nodes =
     [mk_node ''begin'' ''Begin'' ''begin'' (JObj []) None,
      mk_node ''Agent:a'' ''Agent'' ''Agent_0'' (JObj [(''tools'', JArr [])]) None,
      mk_node ''Agent:b'' ''Agent'' ''Agent_1'' (JObj [(''tools'', JArr [])]) None,
      mk_node ''Message:m'' ''Message'' ''Message_0'' (JObj []) None,
      mk_node ''Message:e'' ''Message'' ''Message_1'' (JObj []) None,
      mk_node ''Tool:t'' ''Tool'' ''Tool_0'' (JObj []) None]"

definition dsl_example_edges :: "edge list" where
  "dsl_example_edges =
     [mk_edge ''e1'' ''begin'' ''Agent:a'' ''start'', mk_edge ''e2'' ''Agent:a'' ''Message:m'' ''start'',
      (mk_edge ''e3'' ''Agent:a'' ''Agent:b'' ''agentBottom'')\<lparr>targetHandle := Val ''agentTop''\<rparr>,
      mk_edge ''e4'' ''Agent:a'' ''Tool:t'' ''tool'', mk_edge ''e5'' ''Agent:a'' ''Message:e'' ''agentException'']"

lemma dsl_example_result:
  "\<exists>comps. buildDslComponentsByGraph 5 ref_libs dsl_example_nodes dsl_example_edges [] = Inr comps
     \<and> keys comps = [''begin'', ''Agent:a'', ''Message:m'', ''Message:e'']"
proof -
  have "(case buildDslComponentsByGraph 5 ref_libs dsl_example_nodes dsl_example_edges [] of
      Inl _ \<Rightarrow> False | Inr comps \<Rightarrow> keys comps = [''begin'', ''Agent:a'', ''Message:m'', ''Message:e''])"
    by code_simp
  then show ?thesis by (auto split: sum.splits)
qed

lemma dsl_example_distinct: "distinct (map nid dsl_example_nodes)"
  by code_simp

theorem dsl_components_exact_witness:
  "\<exists>comps. buildDslComponentsByGraph 5 ref_libs dsl_example_nodes dsl_example_edges [] = Inr comps
     \<and> set (keys comps) = nid ` {x \<in> set dsl_example_nodes. in_dsl dsl_example_edges x}"
proof -
  obtain comps where "buildDslComponentsByGraph 5 ref_libs dsl_example_nodes dsl_example_edges [] = Inr comps"
    using dsl_example_result by blast
  with dsl_components_exact [OF dsl_example_distinct this] show ?thesis by blast
qed

section \<open>Upstream and downstream\<close>

definition tool_ids_ok :: "node list \<Rightarrow> bool" where
  \<comment> \<open>ids are made from the operator name, so only tools have an id that starts with \<open>Tool\<close>\<close>
  "tool_ids_ok ns = (\<forall>n\<in>set ns. starts_with (nid n) (op_str OpTool) \<longrightarrow> nlabel n = op_str OpTool)"

lemma in_downstream:
  "b \<in> set (buildComponentDownstreamOrUpstream es a True ns) \<longleftrightarrow>
     (\<exists>e\<in>set es. source e = a \<and> target e = b \<and> downstream_edge ns a e)"
  by (auto simp: buildComponentDownstreamOrUpstream_def)

lemma in_upstream:
  "a \<in> set (buildComponentDownstreamOrUpstream es b False ns) \<longleftrightarrow> (\<exists>e\<in>set es. source e = a \<and> target e = b)"
  by (auto simp: buildComponentDownstreamOrUpstream_def)

lemma in_exception_goto:
  "b \<in> set (buildAgentExceptionGoto es a) \<longleftrightarrow>
     (\<exists>e\<in>set es. source e = a \<and> target e = b \<and> has_handle (sourceHandle e) HAgentException)"
  by (auto simp: buildAgentExceptionGoto_def)

lemma component_no_agent_top:
  "is_component es y \<Longrightarrow> e \<in> set es \<Longrightarrow> target e = nid y \<Longrightarrow> \<not> has_handle (targetHandle e) HAgentTop"
  by (auto simp: is_component_def isBottomSubAgent_def find_None_all)

lemma component_not_tool: "is_component es y \<Longrightarrow> nlabel y \<noteq> op_str OpTool"
  by (auto simp: is_component_def ExcludeOperators_def)

lemma downstream_edge_component:
  assumes "distinct (map nid ns)" "tool_ids_ok ns" "x \<in> set ns" "y \<in> set ns" "is_component es y"
    and "e \<in> set es" "target e = nid y"
  shows "downstream_edge ns (nid x) e \<longleftrightarrow>
     \<not> (nlabel x = op_str OpAgent \<and> has_handle (sourceHandle e) HAgentException)"
proof -
  have "find (\<lambda>n. nid n = nid x) ns = Some x"
    using find_distinct_key [OF assms(1,3)] by simp
  moreover have "\<not> starts_with (target e) (op_str OpTool)"
    using assms(2,4,7) component_not_tool [OF assms(5)] by (auto simp: tool_ids_ok_def)
  ultimately show ?thesis
    using component_no_agent_top [OF assms(5,6,7)] unfolding downstream_edge_def by auto
qed

text \<open>
  C4: between two components, \<open>a\<close> is upstream of \<open>b\<close> exactly when \<open>b\<close> is downstream of \<open>a\<close> or,
  for an agent, a target of its exception branch.
\<close>

theorem dsl_neighbours_mirror:
  assumes "distinct (map nid ns)" and "tool_ids_ok ns"
    and "buildDslComponentsByGraph depth L ns es old = Inr comps"
    and "map_of comps a = Some ca" and "map_of comps b = Some cb"
  shows "a \<in> set (upstream cb) \<longleftrightarrow>
     b \<in> set (downstream ca) \<or>
     obj_get (cobj ca) ''component_name'' = JStr (op_str OpAgent) \<and> b \<in> set (buildAgentExceptionGoto es a)"
proof -
  obtain x where x: "x \<in> set ns" "nid x = a" and cx: "build_component depth L ns es old x = Inr ca"
    using dsl_lookup_node [OF assms(3,1,4)] by metis
  obtain y where y: "y \<in> set ns" "is_component es y" "nid y = b"
    and cy: "build_component depth L ns es old y = Inr cb"
    using dsl_lookup_node [OF assms(3,1,5)] by metis
  note fx = build_component_fields [OF cx] and fy = build_component_fields [OF cy]
  have "downstream_edge ns a e \<longleftrightarrow> \<not> (nlabel x = op_str OpAgent \<and> has_handle (sourceHandle e) HAgentException)"
    if "e \<in> set es" "target e = b" for e
    using downstream_edge_component [OF assms(1,2) x(1) y(1,2) that(1)] that x(2) y(3) by simp
  moreover have "upstream cb = buildComponentDownstreamOrUpstream es b False ns"
    "downstream ca = buildComponentDownstreamOrUpstream es a True ns"
    "obj_get (cobj ca) ''component_name'' = JStr (nlabel x)"
    using fx fy x(2) y(3) by simp_all
  ultimately show ?thesis
    by (simp only: in_upstream in_downstream in_exception_goto jsval.inject) blast
qed

theorem dsl_neighbours_mirror_witness:
  "\<exists>comps ca cb. buildDslComponentsByGraph 5 ref_libs dsl_example_nodes dsl_example_edges [] = Inr comps
     \<and> map_of comps ''Agent:a'' = Some ca \<and> map_of comps ''Message:e'' = Some cb
     \<and> (''Agent:a'' \<in> set (upstream cb) \<longleftrightarrow> ''Message:e'' \<in> set (downstream ca) \<or>
       obj_get (cobj ca) ''component_name'' = JStr (op_str OpAgent)
       \<and> ''Message:e'' \<in> set (buildAgentExceptionGoto dsl_example_edges ''Agent:a''))"
proof -
  obtain comps where c: "buildDslComponentsByGraph 5 ref_libs dsl_example_nodes dsl_example_edges [] = Inr comps"
    and "keys comps = [''begin'', ''Agent:a'', ''Message:m'', ''Message:e'']"
    using dsl_example_result by blast
  then obtain ca cb where l: "map_of comps ''Agent:a'' = Some ca" "map_of comps ''Message:e'' = Some cb"
    using map_of_None_keys [of comps] by (metis list.set_intros(1,2) option.exhaust)
  have t: "tool_ids_ok dsl_example_nodes"
    by (simp add: tool_ids_ok_def dsl_example_nodes_def mk_node_def starts_with_def)
  show ?thesis using c l dsl_neighbours_mirror [OF dsl_example_distinct t c l] by blast
qed

section \<open>Sub-agents\<close>

abbreviation sub_agent_rel :: "edge list \<Rightarrow> (string \<times> string) set" where
  "sub_agent_rel es \<equiv> edge_rel es (\<lambda>e. has_handle (sourceHandle e) HAgentBottom)"

lemma subAgentIds_set: "set (subAgentIds es n) = sub_agent_rel es `` {n}"
  by (auto simp: subAgentIds_def edge_rel_def)

text \<open>Every agent has a list of tools, and sub-agents hang below agents of the graph.\<close>

definition agents_ok :: "edge list \<Rightarrow> node list \<Rightarrow> bool" where
  "agents_ok es ns =
     ((\<forall>n\<in>set ns. nlabel n = op_str OpAgent \<longrightarrow> is_array (obj_get (spread (form_or_empty n)) ''tools''))
      \<and> (\<forall>e\<in>set es. has_handle (sourceHandle e) HAgentBottom \<longrightarrow>
           target e \<in> set (map nid ns) \<and>
           (\<exists>n\<in>set ns. nid n = source e \<and> nlabel n = op_str OpAgent)))"

lemma agents_ok_tools:
  "agents_ok es ns \<Longrightarrow> x \<in> set ns \<Longrightarrow> nlabel x = op_str OpAgent \<Longrightarrow>
     \<exists>own. obj_get (spread (form_or_empty x)) ''tools'' = JArr own"
  by (auto simp: agents_ok_def elim!: is_array.elims)

lemma find_node: "distinct (map nid ns) \<Longrightarrow> x \<in> set ns \<Longrightarrow> find (\<lambda>y. nid y = nid x) ns = Some x"
  by (rule find_distinct_key)

lemma buildAgentTools_leaf:
  "distinct (map nid ns) \<Longrightarrow> x \<in> set ns \<Longrightarrow> nlabel x \<noteq> op_str OpAgent \<Longrightarrow>
     buildAgentTools (Suc d) es ns (nid x) =
       Inr \<lparr>at_params = spread (form_or_empty x), at_name = JStr (node_name x), at_id = JStr (nid x)\<rparr>"
  by (simp add: find_node)

lemma buildAgentTools_agent:
  assumes "distinct (map nid ns)" "x \<in> set ns" "nlabel x = op_str OpAgent"
    and "obj_get (spread (form_or_empty x)) ''tools'' = JArr own"
  shows "buildAgentTools (Suc d) es ns (nid x) =
     bind_r (map_r (buildAgentTools d es ns) (subAgentIds es (nid x)))
       (\<lambda>subs. Inr \<lparr>at_params = obj_put ''tools'' (JArr (own @ map agent_tool_entry subs)) (spread (form_or_empty x)),
                    at_name = JStr (node_name x), at_id = JStr (nid x)\<rparr>)"
  using assms by (simp add: find_node)

declare buildAgentTools.simps(2) [simp del]

lemma buildAgentTools_id:
  assumes "distinct (map nid ns)" "x \<in> set ns" "agents_ok es ns" "buildAgentTools d es ns (nid x) = Inr t"
  shows "at_id t = JStr (nid x)"
proof (cases d)
  case (Suc d')
  show ?thesis
  proof (cases "nlabel x = op_str OpAgent")
    case True
    then obtain own where "obj_get (spread (form_or_empty x)) ''tools'' = JArr own"
      using agents_ok_tools [OF assms(3,2)] by blast
    with True assms(4) Suc show ?thesis
      by (auto simp: buildAgentTools_agent [OF assms(1,2) True])
  qed (use assms(4) Suc buildAgentTools_leaf [OF assms(1,2)] in auto)
qed (use assms in simp)

lemma sub_agent_node:
  assumes "agents_ok es ns" and "m \<in> set (subAgentIds es n)"
  obtains y where "y \<in> set ns" "nid y = m"
  using assms by (auto simp: agents_ok_def subAgentIds_def)

lemma buildAgentTools_total:
  assumes d: "distinct (map nid ns)" and ok: "agents_ok es ns" and ac: "acyclic (sub_agent_rel es)"
  shows "x \<in> set ns \<Longrightarrow> card ((sub_agent_rel es)\<^sup>+ `` {nid x}) < k \<Longrightarrow>
     \<exists>t. buildAgentTools k es ns (nid x) = Inr t"
proof (induction k arbitrary: x)
  case (Suc k)
  have subs: "\<exists>t. buildAgentTools k es ns m = Inr t" if m: "m \<in> set (subAgentIds es (nid x))" for m
  proof -
    obtain y where "y \<in> set ns" "nid y = m" using sub_agent_node [OF ok m] .
    moreover have "card ((sub_agent_rel es)\<^sup>+ `` {m}) < k"
      using card_below [OF ac, of m "nid x"] m Suc.prems(2) by (simp add: subAgentIds_set)
    ultimately show ?thesis using Suc.IH [of y] by simp
  qed
  then obtain ts where ts: "map_r (buildAgentTools k es ns) (subAgentIds es (nid x)) = Inr ts"
    using map_r_exists [of "subAgentIds es (nid x)"] by blast
  show ?case
  proof (cases "nlabel x = op_str OpAgent")
    case True
    then show ?thesis
      using agents_ok_tools [OF ok Suc.prems(1) True] ts buildAgentTools_agent [OF d Suc.prems(1) True] by auto
  qed (simp add: buildAgentTools_leaf [OF d Suc.prems(1)])
qed simp

lemma entry_ids:
  assumes "distinct (map nid ns)" "agents_ok es ns"
  shows "map_r (buildAgentTools k es ns) ms = Inr ts \<Longrightarrow> set ms \<subseteq> set (subAgentIds es n) \<Longrightarrow>
     map (\<lambda>e. js_opt e ''id'') (map agent_tool_entry ts) = map JStr ms"
proof (induction ms arbitrary: ts)
  case (Cons m ms)
  then obtain t ts' where t: "buildAgentTools k es ns m = Inr t" "ts = t # ts'"
    "map_r (buildAgentTools k es ns) ms = Inr ts'" by auto
  obtain y where "y \<in> set ns" "nid y = m" using sub_agent_node [OF assms(2), of m n] Cons.prems(2) by auto
  then have "at_id t = JStr m" using buildAgentTools_id [OF assms(1) _ assms(2)] t(1) by auto
  with Cons.IH [OF t(3)] Cons.prems(2) t(2) show ?case by (simp add: agent_tool_entry_def)
qed simp

text \<open>
  C21: when no agent is below itself, a stack two deeper than the number of edges is enough to
  build an agent's parameters; its list of tools is its own list followed by one entry for
  each sub-agent, in the order of the edges and with the sub-agent's id.
\<close>

theorem agent_tools_total:
  assumes "distinct (map nid ns)" and "agents_ok es ns" and "acyclic (sub_agent_rel es)"
    and "x \<in> set ns" and "nlabel x = op_str OpAgent" and "length es + 2 \<le> depth"
  shows "\<exists>t own nested. buildAgentTools depth es ns (nid x) = Inr t \<and> at_id t = JStr (nid x)
     \<and> obj_get (spread (form_or_empty x)) ''tools'' = JArr own
     \<and> obj_get (at_params t) ''tools'' = JArr (own @ nested)
     \<and> map (\<lambda>e. js_opt e ''id'') nested = map JStr (subAgentIds es (nid x))"
proof -
  have "card ((sub_agent_rel es)\<^sup>+ `` {nid x}) < depth"
    using card_reachable_edges [of es "\<lambda>e. has_handle (sourceHandle e) HAgentBottom" "nid x"] assms(6)
    by linarith
  then obtain t where t: "buildAgentTools depth es ns (nid x) = Inr t"
    using buildAgentTools_total [OF assms(1-4)] by blast
  obtain own where own: "obj_get (spread (form_or_empty x)) ''tools'' = JArr own"
    using agents_ok_tools [OF assms(2,4,5)] by blast
  obtain k where "depth = Suc k" using assms(6) by (cases depth) auto
  then obtain ts where ts: "map_r (buildAgentTools k es ns) (subAgentIds es (nid x)) = Inr ts"
    and "at_params t = obj_put ''tools'' (JArr (own @ map agent_tool_entry ts)) (spread (form_or_empty x))"
    using t buildAgentTools_agent [OF assms(1,4,5) own] by auto
  then show ?thesis
    by (intro exI [of _ t] exI [of _ own] exI [of _ "map agent_tool_entry ts"] conjI t own
        buildAgentTools_id [OF assms(1,4,2) t] entry_ids [OF assms(1,2) ts subset_refl]) simp
qed

definition agent_a :: node where
  "agent_a = mk_node ''Agent:a'' ''Agent'' ''Agent_0'' (JObj [(''tools'', JArr [])]) None"

definition agent_b :: node where
  "agent_b = mk_node ''Agent:b'' ''Agent'' ''Agent_1'' (JObj [(''tools'', JArr [])]) None"

definition sub_edge :: "string \<Rightarrow> string \<Rightarrow> edge" where
  "sub_edge a b = (mk_edge ''e'' a b ''agentBottom'')\<lparr>targetHandle := Val ''agentTop''\<rparr>"

lemmas agent_example_simps = agent_a_def agent_b_def sub_edge_def mk_node_def mk_edge_def
  has_handle_def agents_ok_def form_or_empty_def js_coalesce_def spread_def obj_assign_def obj_put_def
  edge_rel_def

lemma acyclic_one_edge: "a \<noteq> b \<Longrightarrow> acyclic {(a, b)}"
  by (auto simp: acyclic_def elim: tranclE converse_tranclE dest: tranclD tranclD2)

theorem agent_tools_total_witness:
  "\<exists>t nested. buildAgentTools 3 [sub_edge ''Agent:a'' ''Agent:b''] [agent_a, agent_b] (nid agent_a) = Inr t
     \<and> obj_get (at_params t) ''tools'' = JArr nested
     \<and> map (\<lambda>e. js_opt e ''id'') nested = [JStr ''Agent:b'']"
proof -
  have rel: "sub_agent_rel [sub_edge ''Agent:a'' ''Agent:b''] = {(''Agent:a'', ''Agent:b'')}"
    by (auto simp: agent_example_simps)
  have ac: "acyclic (sub_agent_rel [sub_edge ''Agent:a'' ''Agent:b''])"
    unfolding rel by (rule acyclic_one_edge) simp
  have ok: "agents_ok [sub_edge ''Agent:a'' ''Agent:b''] [agent_a, agent_b]"
    by (simp add: agent_example_simps)
  have "subAgentIds [sub_edge ''Agent:a'' ''Agent:b''] (nid agent_a) = [''Agent:b'']" by code_simp
  moreover have "obj_get (spread (form_or_empty agent_a)) ''tools'' = JArr []" by code_simp
  ultimately show ?thesis
    using agent_tools_total [OF _ ok ac, of agent_a 3] by (auto simp: agent_a_def agent_b_def mk_node_def)
qed

lemma buildAgentTools_RangeError:
  assumes "distinct (map nid ns)" and "agents_ok es ns"
  shows "buildAgentTools d es ns n = Inl e \<Longrightarrow> e = RangeError"
proof (induction d arbitrary: n)
  case (Suc d)
  obtain x where "find (\<lambda>y. nid y = n) ns = Some x"
    using Suc.prems by (cases "find (\<lambda>y. nid y = n) ns") (simp_all add: buildAgentTools.simps(2))
  then have x: "x \<in> set ns" "nid x = n" using find_Some_in [of _ ns x] by auto
  show ?case
  proof (cases "nlabel x = op_str OpAgent")
    case True
    then obtain own where own: "obj_get (spread (form_or_empty x)) ''tools'' = JArr own"
      using agents_ok_tools [OF assms(2) x(1)] by blast
    then have "map_r (buildAgentTools d es ns) (subAgentIds es n) = Inl e"
      using Suc.prems x(2) buildAgentTools_agent [OF assms(1) x(1) True own, of d]
      by (cases "map_r (buildAgentTools d es ns) (subAgentIds es n)") auto
    then show ?thesis using map_r_Inl Suc.IH by blast
  qed (use Suc.prems x buildAgentTools_leaf [OF assms(1) x(1)] in auto)
qed simp

text \<open>
  An agent that reaches a cycle of sub-agents exhausts the call stack, whatever its size.
\<close>

theorem agent_tools_cycle:
  assumes "distinct (map nid ns)" and "agents_ok es ns"
    and "(c, c) \<in> (sub_agent_rel es)\<^sup>+" and "(n, c) \<in> (sub_agent_rel es)\<^sup>*"
  shows "buildAgentTools depth es ns n = Inl RangeError"
  using assms(4)
proof (induction depth arbitrary: n)
  case (Suc depth)
  have "(n, c) \<in> (sub_agent_rel es)\<^sup>+" using Suc.prems assms(3) by (rule rtrancl_trancl_trancl)
  then obtain m where m: "(n, m) \<in> sub_agent_rel es" "(m, c) \<in> (sub_agent_rel es)\<^sup>*"
    by (auto dest: tranclD)
  then obtain x where x: "x \<in> set ns" "nid x = n" "nlabel x = op_str OpAgent"
    using assms(2) by (auto simp: agents_ok_def edge_rel_def)
  have sub: "m \<in> set (subAgentIds es n)" using m(1) by (simp add: subAgentIds_set)
  obtain e where "map_r (buildAgentTools depth es ns) (subAgentIds es n) = Inl e"
    using map_r_Inl_ex [where f = "buildAgentTools depth es ns", OF sub Suc.IH [OF m(2)]] by blast
  moreover from this have "e = RangeError"
    using map_r_Inl buildAgentTools_RangeError [OF assms(1,2)] by blast
  ultimately show ?case
    using agents_ok_tools [OF assms(2) x(1,3)] buildAgentTools_agent [OF assms(1) x(1,3)] x(2) by auto
qed simp


theorem agent_tools_cycle_witness:
  "buildAgentTools 100 [sub_edge ''Agent:a'' ''Agent:b'', sub_edge ''Agent:b'' ''Agent:a'']
     [agent_a, agent_b] ''Agent:a'' = Inl RangeError"
proof (rule agent_tools_cycle)
  let ?es = "[sub_edge ''Agent:a'' ''Agent:b'', sub_edge ''Agent:b'' ''Agent:a'']"
  show "agents_ok ?es [agent_a, agent_b]" by (simp add: agent_example_simps)
  have "(''Agent:a'', ''Agent:b'') \<in> sub_agent_rel ?es" "(''Agent:b'', ''Agent:a'') \<in> sub_agent_rel ?es"
    by (simp_all add: edge_rel_iff sub_edge_def mk_edge_def has_handle_def)
  then show "(''Agent:a'', ''Agent:a'') \<in> (sub_agent_rel ?es)\<^sup>+"
    by (meson r_into_trancl trancl.trancl_into_trancl)
qed (simp_all add: agent_a_def agent_b_def mk_node_def)

section \<open>Model settings\<close>

lemma removed_keys_plain: "list_all plain_key (keys variableEnabledFieldMap @ [''parameter''] @ excludeUnEnabledVariables v [])"
  by (simp add: variableEnabledFieldMap_def excludeUnEnabledVariables_def)

lemma removeUseless_get:
  assumes "lodash_api L"
  shows "obj_get (removeUselessFieldsFromValues L v []) k =
     (if k \<in> set (keys variableEnabledFieldMap) \<or> k = ''parameter''
         \<or> (\<exists>(e, f)\<in>set variableEnabledFieldMap. f = k \<and> \<not> truthy (obj_get v e))
      then JUndef else obj_get v k)"
proof -
  have "k \<in> set (excludeUnEnabledVariables v []) \<longleftrightarrow>
      (\<exists>(e, f)\<in>set variableEnabledFieldMap. f = k \<and> \<not> truthy (obj_get v e))"
    by (force simp: excludeUnEnabledVariables_def)
  then show ?thesis
    unfolding removeUselessFieldsFromValues_def lodash_api.omit_get [OF assms removed_keys_plain] by auto
qed

lemma removeUseless_setting:
  assumes "lodash_api L" and "(e, f) \<in> set variableEnabledFieldMap"
  shows "obj_get (removeUselessFieldsFromValues L v []) f = (if truthy (obj_get v e) then obj_get v f else JUndef)
     \<and> obj_get (removeUselessFieldsFromValues L v []) e = JUndef"
proof -
  have "(e, f) = (''temperatureEnabled'', ''temperature'') \<or> (e, f) = (''topPEnabled'', ''top_p'')
      \<or> (e, f) = (''presencePenaltyEnabled'', ''presence_penalty'')
      \<or> (e, f) = (''frequencyPenaltyEnabled'', ''frequency_penalty'') \<or> (e, f) = (''maxTokensEnabled'', ''max_tokens'')"
    using assms(2) by (simp add: variableEnabledFieldMap_def)
  then show ?thesis
    by (elim disjE) (simp_all add: removeUseless_get [OF assms(1)] variableEnabledFieldMap_def)
qed

lemma removeUseless_other:
  "lodash_api L \<Longrightarrow> k \<notin> set (keys variableEnabledFieldMap) \<Longrightarrow> k \<noteq> ''parameter'' \<Longrightarrow>
     k \<notin> snd ` set variableEnabledFieldMap \<Longrightarrow> obj_get (removeUselessFieldsFromValues L v []) k = obj_get v k"
  by (force simp: removeUseless_get)

text \<open>
  Switches computed from stored settings and then applied to them send exactly the settings
  whose stored value is truthy: a stored temperature of 0 is taken for a disabled one and is
  lost. The switches themselves are never sent.
\<close>

theorem model_settings_roundtrip:
  assumes "lodash_api L" and "(e, f) \<in> set variableEnabledFieldMap"
  shows "obj_get (removeUselessFieldsFromValues L
       (obj_assign setting (map (\<lambda>(k, b). (k, JBool b)) (setLLMSettingEnabledValues (Some setting)))) []) f =
     (if truthy (obj_get setting f) then obj_get setting f else JUndef)
   \<and> obj_get (removeUselessFieldsFromValues L
       (obj_assign setting (map (\<lambda>(k, b). (k, JBool b)) (setLLMSettingEnabledValues (Some setting)))) []) e = JUndef"
proof -
  define v where "v = obj_assign setting (map (\<lambda>(k, b). (k, JBool b)) (setLLMSettingEnabledValues (Some setting)))"
  have "truthy (obj_get v e) = truthy (obj_get setting f)" "obj_get v f = obj_get setting f"
    using assms(2) by (auto simp: v_def obj_get_assign setLLMSettingEnabledValues_def variableEnabledFieldMap_def)
  then show ?thesis using removeUseless_setting [OF assms, of v] by (simp add: v_def)
qed

theorem model_settings_roundtrip_witness:
  "obj_get (removeUselessFieldsFromValues ref_libs
     (obj_assign [(''temperature'', JNum (Fin 0))]
        (map (\<lambda>(k, b). (k, JBool b)) (setLLMSettingEnabledValues (Some [(''temperature'', JNum (Fin 0))])))) [])
     ''temperature'' = JUndef"
  using model_settings_roundtrip [OF ref.lodash_api_axioms,
      of "''temperatureEnabled''" "''temperature''" "[(''temperature'', JNum (Fin 0))]"]
  by (simp add: variableEnabledFieldMap_def)

section \<open>Categories\<close>

lemma map_r_keyed:
  assumes "\<And>x y. x \<in> set xs \<Longrightarrow> f x = Inr y \<Longrightarrow> fst y = g x"
  shows "map_r f xs = Inr es \<Longrightarrow> keys es = map g xs \<and> (distinct (map g xs) \<longrightarrow>
     (\<forall>x\<in>set xs. \<exists>y. f x = Inr y \<and> map_of es (g x) = Some (snd y)))"
  using assms
proof (induction xs arbitrary: es)
  case (Cons x xs)
  then obtain y ys where y: "f x = Inr y" "map_r f xs = Inr ys" "es = y # ys" by auto
  have "fst y = g x" using Cons.prems(2) [OF _ y(1)] by simp
  moreover have "keys ys = map g xs \<and> (distinct (map g xs) \<longrightarrow>
     (\<forall>x\<in>set xs. \<exists>y. f x = Inr y \<and> map_of ys (g x) = Some (snd y)))"
    using Cons.IH [OF y(2)] Cons.prems(2) by simp
  ultimately show ?case using y by (cases y) (auto simp: image_iff)
qed simp

definition item_name :: "jsval \<Rightarrow> string" where
  "item_name it = js_to_string (js_opt it ''name'')"

lemma category_description_entry_result:
  assumes "category_description_entry L es it = Inr kv"
  shows "fst kv = item_name it \<and> (\<exists>ob. snd kv = JObj ob
     \<and> obj_get ob ''to'' = JArr (map JStr (filterTargetsBySourceHandleId es (js_opt it ''uuid''))))"
  using assms by (auto simp: category_description_entry_def item_name_def js_opt_def)

lemma buildCategorize_result:
  assumes L: "lodash_api L" and d: "distinct (map nid ns)" and x: "x \<in> set ns" "nlabel x = op_str OpCategorize"
    and f: "node_form x = Some (JObj f)" "distinct (keys f)" "obj_get f ''items'' = JArr its"
    and r: "buildCategorize L es ns (nid x) = Inr p"
  obtains ents where
    "map_r (category_description_entry L (filter (\<lambda>e. source e = nid x) es)) its = Inr ents"
    and "\<And>k. obj_get p k = (if k = ''items'' then JUndef
          else if k = ''category_description'' then JObj (obj_of_entries ents) else obj_get f k)"
proof -
  have fm: "form_or_empty x = JObj f" using f(1) by (simp add: form_or_empty_def js_coalesce_def)
  have get: "obj_get (spread (JObj f)) k = obj_get f k" for k using f(2) by (rule obj_get_spread)
  obtain ents where e: "map_r (category_description_entry L (filter (\<lambda>e. source e = nid x) es)) its = Inr ents"
    and p: "p = lodash_omit L (obj_put ''category_description'' (JObj (obj_of_entries ents)) (spread (JObj f))) [''items'']"
    using r by (auto simp: buildCategorize_def find_node [OF d x(1)] x(2) fm get f(3) js_or_def Let_def)
  have "obj_get p k = (if k = ''items'' then JUndef
          else if k = ''category_description'' then JObj (obj_of_entries ents) else obj_get f k)" for k
    by (simp add: p lodash_api.omit_get [OF L] get)
  with e show ?thesis by (rule that)
qed

lemma categorize_params:
  assumes "build_component depth L ns es old x = Inr c" and "nlabel x = op_str OpCategorize"
  obtains p where "buildCategorize L es ns (nid x) = Inr p"
    and "obj_get (cobj c) ''params'' = JObj (removeUselessFieldsFromValues L p [])"
  using assms build_component_fields [OF assms(1)]
  by (auto simp: operator_params_def removeUselessDataInTheOperator_def js_coalesce_def Let_def)

text \<open>
  In the component of a categorize node every category of the form's list is described under
  its name with the targets of exactly the edges that leave the node through the category's
  handle; the list itself is not sent, and a model setting is sent when its switch is on.
\<close>

theorem categorize_component:
  assumes L: "lodash_api L" and d: "distinct (map nid ns)"
    and x: "x \<in> set ns" "is_component es x" "nlabel x = op_str OpCategorize"
    and f: "node_form x = Some (JObj f)" "distinct (keys f)" "obj_get f ''items'' = JArr its"
    and names: "distinct (map item_name its)"
    and r: "buildDslComponentsByGraph depth L ns es old = Inr comps"
  shows "\<exists>c ps cd. map_of comps (nid x) = Some c \<and> obj_get (cobj c) ''params'' = JObj ps
     \<and> obj_get ps ''items'' = JUndef \<and> obj_get ps ''category_description'' = JObj cd
     \<and> set (keys cd) = item_name ` set its
     \<and> (\<forall>it\<in>set its. \<exists>ob. map_of cd (item_name it) = Some (JObj ob)
          \<and> obj_get ob ''to'' = JArr (map JStr (map target
              (filter (\<lambda>e. source e = nid x \<and> handle_val (sourceHandle e) = js_opt it ''uuid'') es))))
     \<and> (\<forall>(e, k)\<in>set variableEnabledFieldMap.
          obj_get ps k = (if truthy (obj_get f e) then obj_get f k else JUndef))"
proof -
  obtain c where c: "map_of comps (nid x) = Some c" "build_component depth L ns es old x = Inr c"
    using dsl_lookup [OF r d x(1,2)] by blast
  obtain p where p: "buildCategorize L es ns (nid x) = Inr p"
    and ps: "obj_get (cobj c) ''params'' = JObj (removeUselessFieldsFromValues L p [])"
    using categorize_params [OF c(2) x(3)] .
  define sub where "sub = filter (\<lambda>e. source e = nid x) es"
  obtain ents where e: "map_r (category_description_entry L sub) its = Inr ents"
    and get: "\<And>k. obj_get p k = (if k = ''items'' then JUndef
          else if k = ''category_description'' then JObj (obj_of_entries ents) else obj_get f k)"
    using buildCategorize_result [OF L d x(1,3) f p] unfolding sub_def by blast
  have ke: "keys ents = map item_name its"
    and le: "\<forall>it\<in>set its. \<exists>y. category_description_entry L sub it = Inr y \<and> map_of ents (item_name it) = Some (snd y)"
    using map_r_keyed [of its "category_description_entry L sub" item_name ents] e names
      category_description_entry_result by blast+
  have mo: "map_of (obj_of_entries ents) = map_of ents"
    using names by (intro map_of_obj_of_entries) (simp add: ke)
  have tgt: "filterTargetsBySourceHandleId sub v =
      map target (filter (\<lambda>e. source e = nid x \<and> handle_val (sourceHandle e) = v) es)" for v
    by (simp add: filterTargetsBySourceHandleId_def sub_def conj_commute)
  have ents: "\<exists>ob. map_of (obj_of_entries ents) (item_name it) = Some (JObj ob)
          \<and> obj_get ob ''to'' = JArr (map JStr (map target
              (filter (\<lambda>e. source e = nid x \<and> handle_val (sourceHandle e) = js_opt it ''uuid'') es)))"
    if "it \<in> set its" for it
    using le that category_description_entry_result [of L sub it] unfolding mo tgt by fastforce
  have sets: "obj_get (removeUselessFieldsFromValues L p []) k = (if truthy (obj_get f e) then obj_get f k else JUndef)"
    if "(e, k) \<in> set variableEnabledFieldMap" for e k
    using removeUseless_setting [OF L that, of p] that by (auto simp: get variableEnabledFieldMap_def)
  have "obj_get (removeUselessFieldsFromValues L p []) ''items'' = JUndef"
    "obj_get (removeUselessFieldsFromValues L p []) ''category_description'' = JObj (obj_of_entries ents)"
    using removeUseless_other [OF L, of _ p] by (simp_all add: variableEnabledFieldMap_def get)
  with c(1) ps ents sets show ?thesis
    by (intro exI [of _ c] exI [of _ "removeUselessFieldsFromValues L p []"] exI [of _ "obj_of_entries ents"])
      (auto simp: set_keys_obj_of_entries ke)
qed

definition categorize_example :: node where
  "categorize_example = mk_node ''Categorize:c'' ''Categorize'' ''Categorize_0''
     (JObj [(''items'', JArr [JObj [(''name'', JStr ''A''), (''uuid'', JStr ''u1'')]]),
            (''temperature'', JNum (Fin 1)), (''temperatureEnabled'', JBool True)]) None"

lemma categorize_example_result:
  "\<exists>comps. buildDslComponentsByGraph 5 ref_libs [categorize_example]
     [mk_edge ''e1'' ''Categorize:c'' ''Message:m'' ''u1''] [] = Inr comps"
proof -
  have "isl (buildDslComponentsByGraph 5 ref_libs [categorize_example]
     [mk_edge ''e1'' ''Categorize:c'' ''Message:m'' ''u1''] []) = False" by code_simp
  then show ?thesis by (simp add: isl_def) (metis sum.exhaust)
qed

theorem categorize_component_witness:
  "\<exists>comps c ps cd ob. buildDslComponentsByGraph 5 ref_libs [categorize_example]
      [mk_edge ''e1'' ''Categorize:c'' ''Message:m'' ''u1''] [] = Inr comps
     \<and> map_of comps ''Categorize:c'' = Some c \<and> obj_get (cobj c) ''params'' = JObj ps
     \<and> obj_get ps ''category_description'' = JObj cd \<and> map_of cd ''A'' = Some (JObj ob)
     \<and> obj_get ob ''to'' = JArr [JStr ''Message:m''] \<and> obj_get ps ''temperature'' = JNum (Fin 1)"
proof -
  let ?es = "[mk_edge ''e1'' ''Categorize:c'' ''Message:m'' ''u1'']"
  let ?it = "JObj [(''name'', JStr ''A''), (''uuid'', JStr ''u1'')]"
  obtain comps where r: "buildDslComponentsByGraph 5 ref_libs [categorize_example] ?es [] = Inr comps"
    using categorize_example_result by blast
  have i: "nid categorize_example = ''Categorize:c''" by code_simp
  have comp: "is_component ?es categorize_example" by code_simp
  have tg: "map target (filter (\<lambda>e. source e = ''Categorize:c'' \<and> handle_val (sourceHandle e) = JStr ''u1'') ?es)
      = [''Message:m'']"
    by (simp add: mk_edge_def handle_val_def)
  have f: "node_form categorize_example = Some (JObj (entries (form_or_empty categorize_example)))"
    by (simp add: categorize_example_def mk_node_def form_or_empty_def js_coalesce_def)
  have its: "obj_get (entries (form_or_empty categorize_example)) ''items'' = JArr [?it]"
    "distinct (keys (entries (form_or_empty categorize_example)))"
    "nlabel categorize_example = op_str OpCategorize"
    by code_simp+
  have temp: "truthy (obj_get (entries (form_or_empty categorize_example)) ''temperatureEnabled'')"
    "obj_get (entries (form_or_empty categorize_example)) ''temperature'' = JNum (Fin 1)"
    by code_simp+
  obtain c ps cd where "map_of comps ''Categorize:c'' = Some c" "obj_get (cobj c) ''params'' = JObj ps"
    "obj_get ps ''category_description'' = JObj cd"
    "\<exists>ob. map_of cd ''A'' = Some (JObj ob) \<and> obj_get ob ''to'' = JArr (map JStr (map target
       (filter (\<lambda>e. source e = ''Categorize:c'' \<and> handle_val (sourceHandle e) = JStr ''u1'') ?es)))"
    "obj_get ps ''temperature'' = JNum (Fin 1)"
    using categorize_component [OF ref.lodash_api_axioms _ _ comp its(3) f its(2,1) _ r] temp
    by (auto simp: i variableEnabledFieldMap_def item_name_def)
  with r show ?thesis unfolding tg by auto
qed

section \<open>Parser setups\<close>

lemma find_append: "find p (xs @ ys) = (case find p xs of None \<Rightarrow> find p ys | Some x \<Rightarrow> Some x)"
  by (induction xs) auto

definition has_format :: "string \<Rightarrow> jsval \<Rightarrow> bool" where
  "has_format k cur = (truthy (js_opt cur ''fileFormat'') \<and> js_to_string (js_opt cur ''fileFormat'') = k)"

text \<open>The last setup of a format wins.\<close>

lemma parser_setups_lookup:
  "parser_setups pre xs = Inr s \<Longrightarrow>
     (case find (has_format k) (rev xs) of
        None \<Rightarrow> map_of s k = map_of pre k
      | Some cur \<Rightarrow> \<exists>ob. parser_setup cur = Inr ob \<and> map_of s k = Some (JObj ob))"
proof (induction pre xs rule: parser_setups.induct)
  case (2 pre cur rest)
  obtain fmt where fmt: "js_prop cur ''fileFormat'' = Inr fmt" "js_opt cur ''fileFormat'' = fmt"
    using "2.prems" by (auto simp: js_opt_def)
  show ?case
  proof (cases "truthy fmt")
    case True
    then obtain ob where ob: "parser_setup cur = Inr ob"
      and r: "parser_setups (obj_put (js_to_string fmt) (JObj ob) pre) rest = Inr s"
      using "2.prems" fmt(1) by auto
    from "2.IH"(1) [OF fmt(1) True ob r] True fmt(2) ob show ?thesis
      by (auto simp: find_append has_format_def split: option.splits)
  next
    case False
    with "2.prems" fmt(1) have "parser_setups pre rest = Inr s" by simp
    from "2.IH"(2) [OF fmt(1) False this] False fmt(2) show ?thesis
      by (auto simp: find_append has_format_def split: option.splits)
  qed
qed simp

lemma file_type_of_str [simp]: "file_type_of (JStr (file_type_str t)) = Some t"
  by (cases t) (simp_all add: file_type_of_def FileTypes_def)

lemma file_type_str_nonempty [simp]: "file_type_str t \<noteq> []"
  by (cases t) simp_all

lemma obj_get_put_fields:
  "obj_get (put_fields cur fs ob) k = (if k \<in> set fs then js_opt cur k else obj_get ob k)"
proof -
  have "obj_get (fold (\<lambda>f. obj_put f (js_opt cur f)) fs ob) k = (if k \<in> set fs then js_opt cur k else obj_get ob k)"
    by (induction fs arbitrary: ob) auto
  then show ?thesis by (simp add: put_fields_def)
qed

lemma with_tcadp_get:
  assumes "with_tcadp cur ob = Inr ob'"
  shows "obj_get ob' k =
     (if is_tcadp (js_opt cur ''parse_method'') = Inr True \<and> k \<in> {''table_result_type'', ''markdown_image_response_type''}
      then js_opt cur k else obj_get ob k)"
  using assms by (auto simp: with_tcadp_def obj_get_put_fields)

text \<open>The fields of a setup that depend on the file type, besides the three common ones.\<close>

fun setup_fields :: "FileType \<Rightarrow> string list" where
  "setup_fields FtPDF = [''parse_method'', ''lang'']"
| "setup_fields FtSpreadsheet = [''parse_method'']"
| "setup_fields FtPowerPoint = [''parse_method'']"
| "setup_fields FtImage = [''parse_method'', ''lang'', ''system_prompt'']"
| "setup_fields FtEmail = [''fields'']"
| "setup_fields FtVideo = [''llm_id'']"
| "setup_fields FtAudio = [''llm_id'']"
| "setup_fields _ = []"

definition tcadp_fields :: "FileType \<Rightarrow> jsval \<Rightarrow> string list" where
  "tcadp_fields t cur =
     (if t \<in> {FtPDF, FtSpreadsheet, FtPowerPoint} \<and> is_tcadp (js_opt cur ''parse_method'') = Inr True
      then [''table_result_type'', ''markdown_image_response_type''] else [])"

lemma parser_setup_get:
  assumes "js_opt cur ''fileFormat'' = JStr (file_type_str t)" and "parser_setup cur = Inr ob"
  shows "obj_get ob k =
     (if k = ''suffix'' then JArr (map JStr (FileTypeSuffixMap t))
      else if k \<in> set ([''output_format'', ''preprocess''] @ setup_fields t @ tcadp_fields t cur) then js_opt cur k
      else JUndef)"
proof -
  have ft: "file_type_of (js_opt cur ''fileFormat'') = Some t" using assms(1) by simp
  define ob0 where "ob0 = obj_put ''suffix'' (JArr (map JStr (FileTypeSuffixMap t)))
     (put_fields cur [''output_format'', ''preprocess''] [])"
  have g0: "obj_get ob0 k = (if k = ''suffix'' then JArr (map JStr (FileTypeSuffixMap t))
      else if k \<in> {''output_format'', ''preprocess''} then js_opt cur k else JUndef)"
    by (simp add: ob0_def obj_get_put_fields)
  define ob1 where "ob1 = put_fields cur (setup_fields t) ob0"
  have "''suffix'' \<notin> set (setup_fields t)" by (cases t) simp_all
  then have g1: "obj_get ob1 k = (if k = ''suffix'' then JArr (map JStr (FileTypeSuffixMap t))
      else if k \<in> set ([''output_format'', ''preprocess''] @ setup_fields t) then js_opt cur k else JUndef)"
    by (cases "k \<in> set (setup_fields t)"; cases "k = ''suffix''") (use g0 in \<open>simp_all add: ob1_def obj_get_put_fields\<close>)
  have r: "(if t \<in> {FtPDF, FtSpreadsheet, FtPowerPoint} then with_tcadp cur ob1 else Inr ob1) = Inr ob"
    using assms(2) unfolding parser_setup_def ft ob1_def ob0_def Let_def option.case
    by (cases t) (simp_all add: put_fields_def [of _ "[]"])
  show ?thesis
  proof (cases "t \<in> {FtPDF, FtSpreadsheet, FtPowerPoint}")
    case True
    with r have "with_tcadp cur ob1 = Inr ob" by simp
    from with_tcadp_get [OF this, of k] show ?thesis
      unfolding g1 tcadp_fields_def using True by auto
  next
    case False
    with r have "ob = ob1" by simp
    then show ?thesis using False unfolding tcadp_fields_def by (simp only: g1) simp
  qed
qed

text \<open>
  For every file format the last setup of the form is sent, with the suffixes of the format,
  exactly the fields its file type uses, and the two TCADP fields only when the TCADP parser is
  selected for a PDF, a spreadsheet or slides.
\<close>

theorem parser_setups_fields:
  assumes "transformParserParams params = Inr ps" and "obj_get params ''setups'' = JArr xs"
    and "find (has_format (file_type_str t)) (rev xs) = Some cur"
    and "js_opt cur ''fileFormat'' = JStr (file_type_str t)"
  shows "\<exists>s ob. obj_get ps ''setups'' = JObj s \<and> map_of s (file_type_str t) = Some (JObj ob)
     \<and> (\<forall>k. obj_get ob k =
          (if k = ''suffix'' then JArr (map JStr (FileTypeSuffixMap t))
           else if k \<in> set ([''output_format'', ''preprocess''] @ setup_fields t @ tcadp_fields t cur)
           then js_opt cur k else JUndef))"
proof -
  obtain s where s: "parser_setups [] xs = Inr s" "obj_get ps ''setups'' = JObj s"
    using assms(1,2) by (auto simp: transformParserParams_def)
  obtain ob where "parser_setup cur = Inr ob" "map_of s (file_type_str t) = Some (JObj ob)"
    using parser_setups_lookup [OF s(1), of "file_type_str t"] assms(3) by auto
  with s(2) parser_setup_get [OF assms(4)] show ?thesis by blast
qed

definition parser_example :: jsval where
  "parser_example = JObj [(''fileFormat'', JStr ''pdf''), (''parse_method'', JStr ''TCADP Parser''),
     (''table_result_type'', JStr ''1''), (''llm_id'', JStr ''m'')]"

theorem parser_setups_fields_witness:
  "\<exists>ps s ob. transformParserParams [(''setups'', JArr [parser_example])] = Inr ps
     \<and> obj_get ps ''setups'' = JObj s \<and> map_of s ''pdf'' = Some (JObj ob)
     \<and> obj_get ob ''table_result_type'' = JStr ''1'' \<and> obj_get ob ''llm_id'' = JUndef"
proof -
  have "isl (transformParserParams [(''setups'', JArr [parser_example])]) = False" by code_simp
  then obtain ps where ps: "transformParserParams [(''setups'', JArr [parser_example])] = Inr ps"
    by (cases "transformParserParams [(''setups'', JArr [parser_example])]") simp_all
  have f: "find (has_format (file_type_str FtPDF)) (rev [parser_example]) = Some parser_example" by code_simp
  have ff: "js_opt parser_example ''fileFormat'' = JStr (file_type_str FtPDF)"
    "js_opt parser_example ''table_result_type'' = JStr ''1''" by code_simp+
  have tf: "tcadp_fields FtPDF parser_example = [''table_result_type'', ''markdown_image_response_type'']" by code_simp
  from parser_setups_fields [OF ps _ f ff(1)] obtain s ob where
    "obj_get ps ''setups'' = JObj s" "map_of s ''pdf'' = Some (JObj ob)"
    and "\<forall>k. obj_get ob k = (if k = ''suffix'' then JArr (map JStr (FileTypeSuffixMap FtPDF))
           else if k \<in> set ([''output_format'', ''preprocess''] @ setup_fields FtPDF @ tcadp_fields FtPDF parser_example)
           then js_opt parser_example k else JUndef)" by auto
  with ps show ?thesis by (auto simp: tf ff(2))
qed

section \<open>Schemas of webhook requests\<close>

fun plain_object :: "jsval \<Rightarrow> bool" where
  "plain_object (JObj _) = True"
| "plain_object _ = False"

definition schema_required :: "jsval list \<Rightarrow> jsval list" where
  "schema_required xs = map (\<lambda>x. js_opt x ''key'') (filter (\<lambda>x. truthy (js_opt x ''required'')) xs)"

definition schema_properties :: "jsval list \<Rightarrow> jsval obj" where
  "schema_properties xs =
     obj_of_entries (map (\<lambda>cur. (js_to_string (js_opt cur ''key''), JObj [(''type'', js_opt cur ''type'')])) xs)"

lemma request_schema_objects:
  assumes "list_all plain_object xs"
  shows "request_schema xs = Inr (JObj [(''type'', JStr ''object''), (''required'', JArr (schema_required xs)),
     (''properties'', JObj (schema_properties xs))])"
proof -
  have "map_r (\<lambda>x. bind_r (js_prop x ''required'') (\<lambda>r. Inr (if truthy r then [js_opt x ''key''] else []))) xs
      = Inr (map (\<lambda>x. if truthy (js_opt x ''required'') then [js_opt x ''key''] else []) xs)"
  proof (rule map_r_total)
    fix x
    assume "x \<in> set xs"
    then obtain ob where "x = JObj ob" using assms by (auto simp: list_all_iff elim: plain_object.elims)
    then show "bind_r (js_prop x ''required'') (\<lambda>r. Inr (if truthy r then [js_opt x ''key''] else []))
       = Inr (if truthy (js_opt x ''required'') then [js_opt x ''key''] else [])" by simp
  qed
  moreover have "concat (map (\<lambda>x. if truthy (js_opt x ''required'') then [js_opt x ''key''] else []) xs) = schema_required xs"
    by (induction xs) (simp_all add: schema_required_def)
  ultimately show ?thesis by (simp add: request_schema_def schema_properties_def)
qed

lemma schema_properties_keys: "set (keys (schema_properties xs)) = (\<lambda>x. js_to_string (js_opt x ''key'')) ` set xs"
  unfolding schema_properties_def set_keys_obj_of_entries by (simp add: keys_def image_image)

definition section_entries :: "string \<times> jsval \<Rightarrow> jsval obj" where
  "section_entries kv = (case snd kv of
     JArr xs \<Rightarrow> [(fst kv, JObj [(''type'', JStr ''object''), (''required'', JArr (schema_required xs)),
                   (''properties'', JObj (schema_properties xs))])]
   | _ \<Rightarrow> [])"

lemma section_entries_lookup:
  assumes "distinct (keys sc)"
  shows "distinct (keys (concat (map section_entries sc))) \<and> set (keys (concat (map section_entries sc))) \<subseteq> set (keys sc)
     \<and> (\<forall>k. map_of (concat (map section_entries sc)) k =
          (case map_of sc k of None \<Rightarrow> None | Some v \<Rightarrow> map_of (section_entries (k, v)) k))"
  using assms
proof (induction sc)
  case (Cons kv sc)
  have ks: "keys (section_entries kv) = [] \<and> section_entries kv = [] \<or>
      (\<exists>w. section_entries kv = [(fst kv, w)])"
    by (cases "snd kv") (simp_all add: section_entries_def)
  have none: "map_of sc (fst kv) = None" using Cons.prems map_of_None_keys [of sc] by simp
  show ?case
    using ks none Cons.IH Cons.prems map_of_None_keys [of "concat (map section_entries sc)" "fst kv"]
    by (cases kv) (auto simp: subset_iff)
qed simp

text \<open>
  Every part of a webhook's request schema that is a list of fields becomes a JSON schema of
  an object whose required names are the fields marked as required, in order, and are all among
  its properties; the other parts are dropped.
\<close>

theorem request_schema_correct:
  assumes "distinct (keys sc)" and "\<forall>k xs. map_of sc k = Some (JArr xs) \<longrightarrow> list_all plain_object xs"
  shows "\<exists>js. transformRequestSchemaToJsonschema (JObj sc) = Inr js
     \<and> (\<forall>k. map_of js k = (case map_of sc k of
          Some (JArr xs) \<Rightarrow> Some (JObj [(''type'', JStr ''object''), (''required'', JArr (schema_required xs)),
             (''properties'', JObj (schema_properties xs))])
        | _ \<Rightarrow> None))
     \<and> (\<forall>xs. js_to_string ` set (schema_required xs) \<subseteq> set (keys (schema_properties xs)))"
proof -
  have "map_r (\<lambda>(key, value).
         case value of JArr xs \<Rightarrow> bind_r (request_schema xs) (\<lambda>s. Inr [(key, s)]) | _ \<Rightarrow> Inr []) sc
      = Inr (map section_entries sc)"
  proof (rule map_r_total)
    fix kv
    assume "kv \<in> set sc"
    then have "map_of sc (fst kv) = Some (snd kv)" using assms(1) by (simp add: keys_def)
    then show "(case kv of (key, value) \<Rightarrow> case value of
         JArr xs \<Rightarrow> bind_r (request_schema xs) (\<lambda>s. Inr [(key, s)]) | _ \<Rightarrow> Inr []) = Inr (section_entries kv)"
      using assms(2) by (cases "snd kv") (auto simp: section_entries_def request_schema_objects split_def)
  qed
  then have "transformRequestSchemaToJsonschema (JObj sc) = Inr (obj_of_entries (concat (map section_entries sc)))"
    by (simp add: transformRequestSchemaToJsonschema_def js_or_def)
  moreover have "map_of (obj_of_entries (concat (map section_entries sc))) = map_of (concat (map section_entries sc))"
    using section_entries_lookup [OF assms(1)] by (simp add: map_of_obj_of_entries)
  moreover have "js_to_string ` set (schema_required xs) \<subseteq> set (keys (schema_properties xs))" for xs
    by (auto simp: schema_properties_keys schema_required_def)
  ultimately show ?thesis
    using section_entries_lookup [OF assms(1)]
    by (auto simp: section_entries_def split: option.split jsval.split)
qed

definition query_example :: "jsval list" where
  "query_example = [JObj [(''key'', JStr ''id''), (''type'', JStr ''string''), (''required'', JBool True)]]"

theorem request_schema_correct_witness:
  "\<exists>js. transformRequestSchemaToJsonschema (JObj [(''query'', JArr query_example)]) = Inr js
     \<and> map_of js ''query'' = Some (JObj [(''type'', JStr ''object''), (''required'', JArr [JStr ''id'']),
        (''properties'', JObj [(''id'', JObj [(''type'', JStr ''string'')])])])"
proof -
  have q: "schema_required query_example = [JStr ''id'']"
    "schema_properties query_example = [(''id'', JObj [(''type'', JStr ''string'')])]"
    "list_all plain_object query_example"
    by code_simp+
  have "\<forall>k xs. map_of [(''query'', JArr query_example)] k = Some (JArr xs) \<longrightarrow> list_all plain_object xs"
    using q(3) by simp
  from request_schema_correct [OF _ this] obtain js where
    js: "transformRequestSchemaToJsonschema (JObj [(''query'', JArr query_example)]) = Inr js"
    and lk: "\<forall>k. map_of js k = (case map_of [(''query'', JArr query_example)] k of
          Some (JArr xs) \<Rightarrow> Some (JObj [(''type'', JStr ''object''), (''required'', JArr (schema_required xs)),
             (''properties'', JObj (schema_properties xs))])
        | _ \<Rightarrow> None)" by auto
  from spec [OF lk, of "''query''"] js show ?thesis by (simp add: q(1,2))
qed

section \<open>The DSL that is saved\<close>

lemma is_placeholder_node:
  "distinct (map nid ns) \<Longrightarrow> n \<in> set ns \<Longrightarrow> is_placeholder ns (nid n) \<longleftrightarrow> nlabel n = op_str OpPlaceholder"
  by (simp add: is_placeholder_def find_node)

lemma neighbours_in_edges:
  "set (buildComponentDownstreamOrUpstream es i b ns) \<subseteq> source ` set es \<union> target ` set es"
  by (auto simp: buildComponentDownstreamOrUpstream_def)

text \<open>
  The DSL saved from a well-formed graph has no placeholder: none among its nodes or
  components, every edge joins two of its nodes, and every neighbour of a component is one of
  its nodes.
\<close>

theorem buildDslData_no_placeholder:
  assumes "wf_graph s" and "buildDslData depth L d s None globalVariables = Inr d'"
  shows "set (dsl_nodes d') = {n \<in> set (nodes s). nlabel n \<noteq> op_str OpPlaceholder}
     \<and> (\<forall>e\<in>set (dsl_edges d'). source e \<in> nid ` set (dsl_nodes d') \<and> target e \<in> nid ` set (dsl_nodes d'))
     \<and> set (keys (dsl_components d')) \<subseteq> nid ` set (dsl_nodes d')
     \<and> (\<forall>i c. map_of (dsl_components d') i = Some c \<longrightarrow>
          set (downstream c) \<union> set (upstream c) \<subseteq> nid ` set (dsl_nodes d'))"
proof -
  have dist: "distinct (map nid (nodes s))" using assms(1) by (simp add: wf_graph_def distinct_ids_def)
  define ns where "ns = filter (\<lambda>n. nlabel n \<noteq> op_str OpPlaceholder) (nodes s)"
  define es where "es = filter (\<lambda>e. \<not> is_placeholder (nodes s) (source e) \<and> \<not> is_placeholder (nodes s) (target e)) (edges s)"
  obtain comps where comps: "buildDslComponentsByGraph depth L ns es (dsl_components d) = Inr comps"
    and d': "dsl_nodes d' = ns" "dsl_edges d' = es" "dsl_components d' = comps"
    using assms(2) by (auto simp: buildDslData_def ns_def es_def Let_def)
  have ids: "i \<in> nid ` set ns" if "i \<in> set (node_ids s)" "\<not> is_placeholder (nodes s) i" for i
    using that is_placeholder_node [OF dist] by (auto simp: ns_def)
  have edge: "source e \<in> nid ` set ns \<and> target e \<in> nid ` set ns" if "e \<in> set es" for e
  proof -
    have "source e \<in> set (node_ids s)" "target e \<in> set (node_ids s)"
      using that assms(1) by (simp_all add: es_def wf_graph_def edges_ok_def)
    then show ?thesis using ids that by (simp add: es_def)
  qed
  have nb: "set (downstream c) \<union> set (upstream c) \<subseteq> nid ` set ns" if c: "map_of comps i = Some c" for i c
  proof -
    have dn: "distinct (map nid ns)" using dist by (simp add: ns_def distinct_map_filter')
    obtain x where "build_component depth L ns es (dsl_components d) x = Inr c"
      using dsl_lookup_node [OF comps dn c] by blast
    note fld = build_component_fields [OF this]
    have "source ` set es \<union> target ` set es \<subseteq> nid ` set ns" using edge by blast
    then show ?thesis using fld neighbours_in_edges [of es "nid x" _ ns] by (metis Un_least order_trans)
  qed
  have "set (keys comps) \<subseteq> nid ` set ns" using dsl_keys [OF comps] by auto
  then show ?thesis using edge nb unfolding d' by (auto simp: ns_def)
qed

definition save_example :: rf_state where
  "save_example = mk_state
     [mk_node ''begin'' ''Begin'' ''begin'' (JObj []) None, mk_node ''Placeholder:p'' ''Placeholder'' ''p'' (JObj []) None]
     [mk_edge ''e1'' ''begin'' ''Placeholder:p'' ''start'']"

definition empty_dsl :: dsl where
  "empty_dsl = \<lparr>dsl_globals = [], dsl_variables = None, dsl_nodes = [], dsl_edges = [], dsl_components = []\<rparr>"

theorem buildDslData_no_placeholder_witness:
  "\<exists>d'. buildDslData 5 ref_libs empty_dsl save_example None None = Inr d'
     \<and> set (dsl_nodes d') = {n \<in> set (nodes save_example). nlabel n \<noteq> op_str OpPlaceholder}"
proof -
  have "isl (buildDslData 5 ref_libs empty_dsl save_example None None) = False" by code_simp
  then obtain d' where d': "buildDslData 5 ref_libs empty_dsl save_example None None = Inr d'"
    by (cases "buildDslData 5 ref_libs empty_dsl save_example None None") simp_all
  have "wf_graph save_example"
    by (simp add: wf_graph_def distinct_ids_def edges_ok_def save_example_def mk_state_def mk_node_def mk_edge_def)
  from d' buildDslData_no_placeholder [OF this d'] show ?thesis by blast
qed

end
