(* ===== verification/Connection.thy ===== *)
theory Connection
  imports Graph_Store
begin

text \<open>
  The validation of a new connection, \<open>useValidateConnection\<close> in \<open>pages/agent/hooks.tsx\<close>: no
  self-loop, no restricted pair of operators, both ends in the same container, no cycle. The
  cycle search is a depth-first search over a shared set of visited nodes; the recursion depth
  is an argument, and one more than the number of nodes is always enough.

  \<open>getOutgoers\<close> belongs to the flow library and is a parameter; the locale \<open>outgoers_api\<close> states
  what the library documents about it.
\<close>

section \<open>Restricted pairs of operators\<close>

definition all_operators :: "Operator list" where
  "all_operators =
     [OpBegin, OpRetrieval, OpCategorize, OpMessage, OpRewriteQuestion, OpDuckDuckGo, OpWikipedia,
      OpPubMed, OpArXiv, OpGoogle, OpBing, OpGoogleScholar, OpGitHub, OpExeSQL, OpSwitch, OpWenCai,
      OpYahooFinance, OpNote, OpCrawler, OpInvoke, OpEmail, OpIteration, OpIterationStart, OpCode,
      OpWaitingDialogue, OpAgent, OpTool, OpTavilySearch, OpTavilyExtract, OpUserFillUp,
      OpStringTransform, OpSearXNG, OpPDFGenerator, OpPlaceholder, OpDataOperations, OpListOperations,
      OpVariableAssigner, OpVariableAggregator, OpFile, OpParser, OpTokenizer, OpSplitter,
      OpHierarchicalMerger, OpExtractor, OpLoop, OpLoopStart, OpExitLoop, OpExcelProcessor]"

definition operator_of :: "string \<Rightarrow> Operator option" where
  "operator_of s = find (\<lambda>p. op_str p = s) all_operators"

lemma operator_of_str [simp]: "operator_of (op_str p) = Some p"
  by (cases p) (simp_all add: operator_of_def all_operators_def)

fun RestrictedUpstreamMap :: "Operator \<Rightarrow> Operator list option" where
  "RestrictedUpstreamMap OpRetrieval = Some [OpBegin, OpRetrieval]"
| "RestrictedUpstreamMap OpMessage = Some [OpBegin, OpMessage, OpRetrieval, OpRewriteQuestion, OpCategorize]"
| "RestrictedUpstreamMap OpRewriteQuestion = Some [OpBegin, OpMessage, OpRewriteQuestion]"
| "RestrictedUpstreamMap OpDuckDuckGo = Some [OpBegin, OpRetrieval]"
| "RestrictedUpstreamMap OpWikipedia = Some [OpBegin, OpRetrieval]"
| "RestrictedUpstreamMap OpPubMed = Some [OpBegin, OpRetrieval]"
| "RestrictedUpstreamMap OpArXiv = Some [OpBegin, OpRetrieval]"
| "RestrictedUpstreamMap OpGoogle = Some [OpBegin, OpRetrieval]"
| "RestrictedUpstreamMap OpBing = Some [OpBegin, OpRetrieval]"
| "RestrictedUpstreamMap OpGoogleScholar = Some [OpBegin, OpRetrieval]"
| "RestrictedUpstreamMap OpGitHub = Some [OpBegin, OpRetrieval]"
| "RestrictedUpstreamMap OpSearXNG = Some [OpBegin, OpRetrieval]"
| "RestrictedUpstreamMap OpNote = Some []"
| "RestrictedUpstreamMap OpPDFGenerator = None"
| "RestrictedUpstreamMap OpExcelProcessor = None"
| "RestrictedUpstreamMap _ = Some [OpBegin]"

section \<open>The search for a cycle\<close>

type_synonym search = "(bool \<times> string list) res"

fun scan_outgoers :: "(node \<Rightarrow> string list \<Rightarrow> search) \<Rightarrow> string \<Rightarrow> node list \<Rightarrow> string list \<Rightarrow> search" where
  \<comment> \<open>the \<open>for\<close> loop over the outgoers of a node\<close>
  "scan_outgoers rec src [] visited = Inr (False, visited)"
| "scan_outgoers rec src (outgoer # rest) visited =
     (if nid outgoer = src then Inr (True, visited)
      else bind_r (rec outgoer visited)
             (\<lambda>(found, visited'). if found then Inr (True, visited') else scan_outgoers rec src rest visited'))"

fun hasCycle :: "nat \<Rightarrow> (node \<Rightarrow> node list) \<Rightarrow> string \<Rightarrow> node \<Rightarrow> string list \<Rightarrow> search" where
  "hasCycle 0 outgoers src n visited = Inl RangeError"
| "hasCycle (Suc depth) outgoers src n visited =
     (if nid n \<in> set visited then Inr (False, visited)
      else scan_outgoers (hasCycle depth outgoers src) src (outgoers n) (nid n # visited))"

definition hasCanvasCycle ::
    "nat \<Rightarrow> (node \<Rightarrow> node list \<Rightarrow> edge list \<Rightarrow> node list) \<Rightarrow> connection \<Rightarrow> rf_state \<Rightarrow> bool res" where
  \<comment> \<open>named as in the source; \<open>true\<close> means that the connection closes no cycle\<close>
  "hasCanvasCycle depth getOutgoers c s =
     (case find (\<lambda>n. nid n = ctarget c) (nodes s) of
        None \<Rightarrow> Inr False
      | Some tgt \<Rightarrow>
          if nid tgt = csource c then Inr False
          else bind_r (hasCycle depth (\<lambda>n. getOutgoers n (nodes s) (edges s)) (csource c) tgt [])
                 (\<lambda>(found, _). Inr (\<not> found)))"

definition isSameNodeChild :: "connection \<Rightarrow> rf_state \<Rightarrow> bool" where
  "isSameNodeChild c s =
     (let sourceParentId = getParentIdById (Val (csource c)) s;
          targetParentId = getParentIdById (Val (ctarget c)) s
      in if str_truthy (opt_nullable sourceParentId) \<or> str_truthy (opt_nullable targetParentId)
         then sourceParentId = targetParentId else True)"

definition not_restricted :: "connection \<Rightarrow> rf_state \<Rightarrow> bool" where
  \<comment> \<open>\<open>RestrictedUpstreamMap[...]?.every(...)\<close>; a missing entry gives \<open>undefined\<close>, which is falsy\<close>
  "not_restricted c s =
     (case getOperatorTypeFromId (Val (csource c)) s of
        None \<Rightarrow> False
      | Some t \<Rightarrow>
          (case operator_of t of
             None \<Rightarrow> False
           | Some p \<Rightarrow>
               (case RestrictedUpstreamMap p of
                  None \<Rightarrow> False
                | Some ops \<Rightarrow> list_all (\<lambda>x. getOperatorTypeFromId (Val (ctarget c)) s \<noteq> Some (op_str x)) ops)))"

definition isValidConnection ::
    "nat \<Rightarrow> (node \<Rightarrow> node list \<Rightarrow> edge list \<Rightarrow> node list) \<Rightarrow> connection \<Rightarrow> rf_state \<Rightarrow> bool res" where
  "isValidConnection depth getOutgoers c s =
     (if ctarget c \<noteq> csource c \<and> not_restricted c s \<and> isSameNodeChild c s
      then hasCanvasCycle depth getOutgoers c s else Inr False)"

section \<open>The flow library\<close>

definition canvas_rel :: "node list \<Rightarrow> edge list \<Rightarrow> (string \<times> string) set" where
  \<comment> \<open>the edges that lead to a node of the graph\<close>
  "canvas_rel ns es = edge_rel es (\<lambda>e. target e \<in> nid ` set ns)"

locale outgoers_api =
  fixes getOutgoers :: "node \<Rightarrow> node list \<Rightarrow> edge list \<Rightarrow> node list"
  assumes outgoers: "set (getOutgoers n ns es) = {m \<in> set ns. \<exists>e\<in>set es. source e = nid n \<and> target e = nid m}"
begin

lemma outgoer_rel: "nid ` set (getOutgoers n ns es) = canvas_rel ns es `` {nid n}"
proof (rule set_eqI)
  fix b
  show "b \<in> nid ` set (getOutgoers n ns es) \<longleftrightarrow> b \<in> canvas_rel ns es `` {nid n}"
    by (auto simp: outgoers canvas_rel_def edge_rel_iff)
qed

end

definition ref_getOutgoers :: "node \<Rightarrow> node list \<Rightarrow> edge list \<Rightarrow> node list" where
  "ref_getOutgoers n ns es = filter (\<lambda>m. list_ex (\<lambda>e. source e = nid n \<and> target e = nid m) es) ns"

interpretation ref_out: outgoers_api ref_getOutgoers
  by unfold_locales (auto simp: ref_getOutgoers_def list_ex_iff)

section \<open>Correctness of the search\<close>

text \<open>
  The search over an abstract successor relation: \<open>E\<close> relates ids, \<open>out\<close> lists the successors
  of a node, \<open>ids\<close> are the ids of the graph.
\<close>

locale successor_graph =
  fixes out :: "node \<Rightarrow> node list" and E :: "(string \<times> string) set" and ids :: "string set"
  assumes out_rel: "nid ` set (out n) = E `` {nid n}"
    and finite_ids: "finite ids"
    and closed: "E \<subseteq> UNIV \<times> ids"
begin

text \<open>Everything visited since \<open>vis\<close> has all its successors visited, and none is \<open>src\<close>.\<close>

definition closed_since :: "string \<Rightarrow> string set \<Rightarrow> string set \<Rightarrow> bool" where
  "closed_since src vis vis' = (vis \<subseteq> vis' \<and> (\<forall>a\<in>vis' - vis. \<forall>b. (a, b) \<in> E \<longrightarrow> b \<in> vis' \<and> b \<noteq> src))"

lemma closed_since_trans:
  "closed_since src a b \<Longrightarrow> closed_since src b c \<Longrightarrow> closed_since src a c"
  unfolding closed_since_def by blast

lemma scan_result:
  assumes "\<And>o' vis r vis'. o' \<in> set os \<Longrightarrow> rec o' vis = Inr (r, vis') \<Longrightarrow>
      (r \<longrightarrow> (nid o', src) \<in> E\<^sup>+) \<and> (\<not> r \<longrightarrow> closed_since src (set vis) (set vis') \<and> nid o' \<in> set vis')"
    and "scan_outgoers rec src os vis = Inr (r, vis')"
  shows "(r \<longrightarrow> (\<exists>o'\<in>set os. (nid o', src) \<in> E\<^sup>*)) \<and>
     (\<not> r \<longrightarrow> closed_since src (set vis) (set vis') \<and> (\<forall>o'\<in>set os. nid o' \<in> set vis' \<and> nid o' \<noteq> src))"
  using assms
proof (induction os arbitrary: vis)
  case Nil
  then show ?case by (simp add: closed_since_def)
next
  case (Cons x os)
  show ?case
  proof (cases "nid x = src")
    case True
    then show ?thesis using Cons.prems(2) by auto
  next
    case False
    then obtain b v where b: "rec x vis = Inr (b, v)"
      "(if b then Inr (True, v) else scan_outgoers rec src os v) = Inr (r, vis')"
      using Cons.prems(2) by auto
    have x: "(b \<longrightarrow> (nid x, src) \<in> E\<^sup>+) \<and> (\<not> b \<longrightarrow> closed_since src (set vis) (set v) \<and> nid x \<in> set v)"
      using Cons.prems(1) [of x] b(1) by simp
    show ?thesis
    proof (cases b)
      case True
      then show ?thesis using b(2) x by (auto intro: trancl_into_rtrancl)
    next
      case False
      then have rest: "scan_outgoers rec src os v = Inr (r, vis')" using b(2) by simp
      have ih: "(r \<longrightarrow> (\<exists>o'\<in>set os. (nid o', src) \<in> E\<^sup>*)) \<and>
         (\<not> r \<longrightarrow> closed_since src (set v) (set vis') \<and> (\<forall>o'\<in>set os. nid o' \<in> set vis' \<and> nid o' \<noteq> src))"
        by (rule Cons.IH [OF _ rest]) (rule Cons.prems(1), simp)
      have "nid x \<in> set vis'" if "closed_since src (set v) (set vis')"
        using x False that by (auto simp: closed_since_def)
      then show ?thesis
        using ih x False \<open>nid x \<noteq> src\<close> closed_since_trans by auto
    qed
  qed
qed

lemma hasCycle_result:
  "hasCycle d out src n vis = Inr (r, vis') \<Longrightarrow>
     (r \<longrightarrow> (nid n, src) \<in> E\<^sup>+) \<and> (\<not> r \<longrightarrow> closed_since src (set vis) (set vis') \<and> nid n \<in> set vis')"
proof (induction d arbitrary: n vis r vis')
  case (Suc d)
  show ?case
  proof (cases "nid n \<in> set vis")
    case True
    then show ?thesis using Suc.prems by (simp add: closed_since_def)
  next
    case False
    then have s: "scan_outgoers (hasCycle d out src) src (out n) (nid n # vis) = Inr (r, vis')"
      using Suc.prems by simp
    note res = scan_result [OF Suc.IH s]
    have out: "(nid n, b) \<in> E \<longleftrightarrow> (\<exists>o'\<in>set (out n). nid o' = b)" for b
      using out_rel [of n] unfolding set_eq_iff by (metis Image_singleton_iff image_iff)
    show ?thesis
    proof (cases r)
      case True
      then obtain o' where "o' \<in> set (out n)" "(nid o', src) \<in> E\<^sup>*" using res by blast
      then show ?thesis using True out [of "nid o'"] rtrancl_into_trancl2 [of "nid n" "nid o'" E src] by blast
    next
      case False
      then have c: "closed_since src (set (nid n # vis)) (set vis')"
        "\<forall>o'\<in>set (out n). nid o' \<in> set vis' \<and> nid o' \<noteq> src" using res by blast+
      then have "nid n \<in> set vis'" by (auto simp: closed_since_def)
      moreover have "b \<in> set vis' \<and> b \<noteq> src" if "a \<in> set vis' - set vis" "(a, b) \<in> E" for a b
      proof (cases "a = nid n")
        case True
        then show ?thesis using that(2) c(2) out [of b] by blast
      next
        case False
        then have "a \<in> set vis' - set (nid n # vis)" using that(1) by simp
        then show ?thesis using that(2) c(1) unfolding closed_since_def by blast
      qed
      moreover have "set vis \<subseteq> set vis'" using c(1) by (simp add: closed_since_def)
      ultimately show ?thesis using False unfolding closed_since_def by blast
    qed
  qed
qed simp

lemma scan_total:
  assumes "\<And>o' vis'. o' \<in> set os \<Longrightarrow> set vis \<subseteq> set vis' \<Longrightarrow> \<exists>r w. rec o' vis' = Inr (r, w) \<and> set vis' \<subseteq> set w"
  shows "\<exists>r w. scan_outgoers rec src os vis = Inr (r, w) \<and> set vis \<subseteq> set w"
  using assms
proof (induction os arbitrary: vis)
  case (Cons x os)
  show ?case
  proof (cases "nid x = src")
    case False
    obtain r w where rw: "rec x vis = Inr (r, w)" "set vis \<subseteq> set w"
      using Cons.prems [of x vis] by auto
    have "\<exists>r' w'. scan_outgoers rec src os w = Inr (r', w') \<and> set w \<subseteq> set w'"
    proof (rule Cons.IH)
      fix o' vis'
      assume "o' \<in> set os" "set w \<subseteq> set vis'"
      then show "\<exists>r w. rec o' vis' = Inr (r, w) \<and> set vis' \<subseteq> set w"
        using Cons.prems [of o' vis'] rw(2) by simp
    qed
    then show ?thesis using False rw by (cases r) auto
  qed auto
qed auto

lemma hasCycle_total:
  "nid n \<in> ids \<Longrightarrow> card (ids - set vis) < d \<Longrightarrow>
     \<exists>r w. hasCycle d out src n vis = Inr (r, w) \<and> set vis \<subseteq> set w"
proof (induction d arbitrary: n vis)
  case (Suc d)
  show ?case
  proof (cases "nid n \<in> set vis")
    case False
    have "\<exists>r w. scan_outgoers (hasCycle d out src) src (out n) (nid n # vis) = Inr (r, w) \<and> set (nid n # vis) \<subseteq> set w"
    proof (rule scan_total)
      fix o' vis'
      assume o': "o' \<in> set (out n)" and v: "set (nid n # vis) \<subseteq> set vis'"
      have "nid o' \<in> ids" using o' out_rel [of n] closed by auto
      moreover have "ids - set vis' \<subset> ids - set vis" using False Suc.prems(1) v by auto
      then have "card (ids - set vis') < card (ids - set vis)" by (intro psubset_card_mono) (simp add: finite_ids)
      then have "card (ids - set vis') < d" using Suc.prems(2) by simp
      ultimately show "\<exists>r w. hasCycle d out src o' vis' = Inr (r, w) \<and> set vis' \<subseteq> set w" by (rule Suc.IH)
    qed
    then show ?thesis using False by auto
  qed auto
qed simp

lemma search_decides:
  assumes "nid n \<in> ids" and "card ids < d"
  shows "\<exists>r w. hasCycle d out src n [] = Inr (r, w) \<and> (r \<longleftrightarrow> (nid n, src) \<in> E\<^sup>+)"
proof -
  obtain r w where r: "hasCycle d out src n [] = Inr (r, w)"
    using hasCycle_total [OF assms(1), of "[]" d src] assms(2) by auto
  note res = hasCycle_result [OF r]
  have "(nid n, src) \<notin> E\<^sup>+" if "\<not> r"
  proof
    assume p: "(nid n, src) \<in> E\<^sup>+"
    have cl: "\<forall>a\<in>set w. \<forall>b. (a, b) \<in> E \<longrightarrow> b \<in> set w \<and> b \<noteq> src" and n: "nid n \<in> set w"
      using res that by (auto simp: closed_since_def)
    have "b \<in> set w \<and> b \<noteq> src" if "(nid n, b) \<in> E\<^sup>+" for b
      using that cl n by (induction rule: trancl_induct) blast+
    with p show False by blast
  qed
  with res r show ?thesis by blast
qed

end


sublocale outgoers_api \<subseteq> canvas_graph: successor_graph "\<lambda>n. getOutgoers n ns es" "canvas_rel ns es" "nid ` set ns" for ns es
  by unfold_locales (auto simp: outgoer_rel canvas_rel_def edge_rel_def)

context outgoers_api
begin

lemma hasCanvasCycle_decides:
  assumes "length (nodes s) < d"
  shows "hasCanvasCycle d getOutgoers c s =
     Inr (ctarget c \<in> set (node_ids s) \<and> ctarget c \<noteq> csource c
          \<and> (ctarget c, csource c) \<notin> (canvas_rel (nodes s) (edges s))\<^sup>+)"
proof (cases "find (\<lambda>n. nid n = ctarget c) (nodes s)")
  case None
  then have "ctarget c \<notin> set (node_ids s)" by (auto simp: find_None_all)
  with None show ?thesis by (simp add: hasCanvasCycle_def)
next
  case (Some n)
  then have n: "n \<in> set (nodes s)" "nid n = ctarget c" using find_Some_in [OF Some] by simp_all
  have "card (nid ` set (nodes s)) < d"
    using assms card_image_le [of "set (nodes s)" nid] card_length [of "nodes s"] by simp
  then obtain r w where "hasCycle d (\<lambda>n. getOutgoers n (nodes s) (edges s)) (csource c) n [] = Inr (r, w)"
    "r \<longleftrightarrow> (nid n, csource c) \<in> (canvas_rel (nodes s) (edges s))\<^sup>+"
    using canvas_graph.search_decides n(1) by blast
  moreover have "ctarget c \<in> set (node_ids s)" using n by force
  ultimately show ?thesis using Some n by (auto simp: hasCanvasCycle_def)
qed

end

section \<open>What a valid connection guarantees\<close>

definition edges_of :: "rf_state \<Rightarrow> (string \<times> string) set" where
  "edges_of s = {(source e, target e) | e. e \<in> set (edges s)}"

lemma edges_of_canvas_rel: "edges_ok s \<Longrightarrow> canvas_rel (nodes s) (edges s) = edges_of s"
  by (auto simp: canvas_rel_def edges_of_def edge_rel_def edges_ok_def)

lemma edges_of_addEdge:
  assumes "xyflow_api L"
  shows "edges_of (addEdge L c s) \<subseteq> insert (csource c, ctarget c) (edges_of s)"
proof -
  have "edges (addEdge L c s) = xy_addEdge L c (edges s)"
    by (simp add: addEdge_def connect_frame)
  then show ?thesis using xyflow_api.addEdge [OF assms, of c "edges s"] by (auto simp: edges_of_def)
qed

text \<open>
  C3: the validation of a connection always returns on a stack deeper than the number of nodes,
  and a connection it accepts joins two different nodes of the graph without closing a cycle:
  added to an acyclic canvas, it leaves the canvas acyclic. A connection that would close a cycle
  is always refused.
\<close>

theorem valid_connection_acyclic:
  assumes "outgoers_api getOutgoers" and "xyflow_api L" and "wf_graph s" and "length (nodes s) < depth"
  shows "\<exists>b. isValidConnection depth getOutgoers c s = Inr b
     \<and> (b \<longrightarrow> csource c \<noteq> ctarget c \<and> ctarget c \<in> set (node_ids s)
           \<and> (acyclic (edges_of s) \<longrightarrow> acyclic (edges_of (addEdge L c s))))
     \<and> ((ctarget c, csource c) \<in> (edges_of s)\<^sup>* \<longrightarrow> \<not> b)"
proof -
  define ok where "ok = (ctarget c \<in> set (node_ids s) \<and> ctarget c \<noteq> csource c
      \<and> (ctarget c, csource c) \<notin> (edges_of s)\<^sup>+)"
  have e: "edges_ok s" using assms(3) by (simp add: wf_graph_def)
  have "hasCanvasCycle depth getOutgoers c s = Inr ok"
    using outgoers_api.hasCanvasCycle_decides [OF assms(1,4)] by (simp add: ok_def edges_of_canvas_rel [OF e])
  then obtain b where b: "isValidConnection depth getOutgoers c s = Inr b" "b \<longrightarrow> ok"
    by (cases "ctarget c \<noteq> csource c \<and> not_restricted c s \<and> isSameNodeChild c s")
      (auto simp: isValidConnection_def)
  have "acyclic (edges_of (addEdge L c s))" if "ok" "acyclic (edges_of s)"
  proof (rule acyclic_subset [OF _ edges_of_addEdge [OF assms(2)]])
    have "(ctarget c, csource c) \<notin> (edges_of s)\<^sup>*"
      using that(1) by (auto simp: ok_def rtrancl_eq_or_trancl)
    then show "acyclic (insert (csource c, ctarget c) (edges_of s))"
      using that(2) by (simp add: acyclic_insert)
  qed
  moreover have "\<not> ok" if "(ctarget c, csource c) \<in> (edges_of s)\<^sup>*"
    using that by (auto simp: ok_def rtrancl_eq_or_trancl)
  ultimately show ?thesis using b by (auto simp: ok_def)
qed

definition chain_example :: rf_state where
  "chain_example = mk_state
     [mk_node ''a'' ''Agent'' ''Agent_0'' (JObj []) None, mk_node ''b'' ''Message'' ''Message_0'' (JObj []) None]
     [mk_edge ''e1'' ''a'' ''b'' ''start'']"

theorem valid_connection_acyclic_witness:
  "isValidConnection 5 ref_getOutgoers
     \<lparr>csource = ''b'', ctarget = ''a'', csourceHandle = Val ''start'', ctargetHandle = Val ''end''\<rparr> chain_example = Inr False"
proof -
  let ?c = "\<lparr>csource = ''b'', ctarget = ''a'', csourceHandle = Val ''start'', ctargetHandle = Val ''end''\<rparr>"
  have "wf_graph chain_example"
    by (simp add: wf_graph_def distinct_ids_def edges_ok_def chain_example_def mk_state_def mk_node_def mk_edge_def)
  moreover have "length (nodes chain_example) < 5" by code_simp
  moreover have "(''a'', ''b'') \<in> (edges_of chain_example)\<^sup>*"
    by (rule r_into_rtrancl) (simp add: edges_of_def chain_example_def mk_state_def mk_edge_def)
  ultimately show ?thesis
    using valid_connection_acyclic [OF ref_out.outgoers_api_axioms ref.xyflow_api_axioms, of chain_example 5 ?c]
    by auto
qed

text \<open>
  The table of restricted pairs has no entry for the PDF generator and the Excel processor,
  so no connection that starts at such a node is ever valid.
\<close>

theorem no_connection_from_unlisted_operator:
  assumes "getOperatorTypeFromId (Val (csource c)) s = Some (op_str p)"
    and "p = OpPDFGenerator \<or> p = OpExcelProcessor"
  shows "isValidConnection depth getOutgoers c s = Inr False"
  using assms by (auto simp: isValidConnection_def not_restricted_def)

theorem no_connection_from_unlisted_operator_witness:
  "isValidConnection 5 ref_getOutgoers
     \<lparr>csource = ''p'', ctarget = ''m'', csourceHandle = Val ''start'', ctargetHandle = Val ''end''\<rparr>
     (mk_state [mk_node ''p'' ''PDFGenerator'' ''PDFGenerator_0'' (JObj []) None,
                mk_node ''m'' ''Message'' ''Message_0'' (JObj []) None] []) = Inr False"
  by (rule no_connection_from_unlisted_operator [where p = OpPDFGenerator])
    (simp_all add: getOperatorTypeFromId_def getNode_def mk_state_def mk_node_def)

end
