(* ===== verification/Initial_Values.thy ===== *)
theory Initial_Values
  imports Dsl_Builder Connection
begin

text \<open>
  The initial form values of the operators (\<open>constants/agent.tsx\<close>, \<open>pages/agent/constant\<close>), the
  table of node types, and the map from operator to initial form of \<open>hooks/use-add-node.ts\<close>. The
  translation function is an argument. The last section shows that the form every new node
  starts with can be turned into a component of the DSL.
\<close>

section \<open>Initial values\<close>

definition setInitialChatVariableEnabledFieldValue :: "string \<Rightarrow> bool" where
  "setInitialChatVariableEnabledFieldValue field = (field \<noteq> ''maxTokensEnabled'')"

definition variableCheckBoxFieldMap :: "jsval obj" where
  "variableCheckBoxFieldMap =
     obj_of_entries (map (\<lambda>cur. (cur, JBool (setInitialChatVariableEnabledFieldValue cur))) (keys variableEnabledFieldMap))"

definition initialSimilarityThresholdValue :: "jsval obj" where
  "initialSimilarityThresholdValue =
     [(''similarity_threshold'', JNum (Fin (1 / 5)))]"

definition initialKeywordsSimilarityWeightValue :: "jsval obj" where
  "initialKeywordsSimilarityWeightValue =
     [(''keywords_similarity_weight'', JNum (Fin (7 / 10)))]"

definition initialLlmBaseValues :: "jsval obj" where
  "initialLlmBaseValues =
     obj_assign variableCheckBoxFieldMap [(''temperature'', JNum (Fin (1 / 10))),
      (''top_p'', JNum (Fin (3 / 10))),
      (''frequency_penalty'', JNum (Fin (7 / 10))),
      (''presence_penalty'', JNum (Fin (2 / 5))),
      (''max_tokens'', JNum (Fin 256))]"

definition initialBeginValues :: "jsval obj" where
  "initialBeginValues =
     [(''mode'', JStr ''conversational''),
      (''prologue'', JStr (''Hi! I'' @ [CHR 0x27] @ ''m your assistant. What can I do for you?''))]"

definition initialRetrievalValues :: "jsval obj" where
  "initialRetrievalValues =
     obj_assign (obj_assign (obj_assign ([(''query'', JStr ''{sys.query}''),
      (''top_n'', JNum (Fin 8)),
      (''top_k'', JNum (Fin 1024)),
      (''kb_ids'', JArr []),
      (''rerank_id'', JStr []),
      (''empty_response'', 
      JStr [])]) initialSimilarityThresholdValue) initialKeywordsSimilarityWeightValue) [(''use_kg'', JBool False),
      (''toc_enhance'', JBool False),
      (''cross_languages'', JArr []),
      (''retrieval_from'', JStr ''dataset''),
      (''outputs'', JObj [(''formalized_content'', JObj [(''type'', JStr ''string''),
      (''value'', JStr [])]),
      (''json'', JObj [(''type'', JStr ''Array<Object>''),
      (''value'', JArr [])])])]"

definition initialRewriteQuestionValues :: "jsval obj" where
  "initialRewriteQuestionValues =
     obj_assign initialLlmBaseValues [(''language'', JStr []),
      (''message_history_window_size'', JNum (Fin 6))]"

definition initialCategorizeValues :: "jsval obj" where
  "initialCategorizeValues =
     obj_assign initialLlmBaseValues [(''query'', JStr ''sys.query''),
      (''parameter'', JStr ''Precise''),
      (''message_history_window_size'', JNum (Fin 1)),
      (''items'', JArr []),
      (''outputs'', JObj [(''category_name'', JObj [(''type'', JStr ''string'')])])]"

definition initialMessageValues :: "jsval obj" where
  "initialMessageValues =
     [(''content'', JArr [JStr []])]"

definition initialDuckValues :: "jsval obj" where
  "initialDuckValues =
     [(''top_n'', JNum (Fin 10)),
      (''channel'', JStr ''text''),
      (''query'', JStr ''sys.query''),
      (''outputs'', JObj [(''formalized_content'', JObj [(''value'', JStr []),
      (''type'', JStr ''string'')]),
      (''json'', JObj [(''value'', JArr []),
      (''type'', JStr ''Array<Object>'')])])]"

definition initialSearXNGValues :: "jsval obj" where
  "initialSearXNGValues =
     [(''top_n'', JStr ''10''),
      (''searxng_url'', JStr []),
      (''query'', JStr ''sys.query''),
      (''outputs'', JObj [(''formalized_content'', JObj [(''value'', JStr []),
      (''type'', JStr ''string'')]),
      (''json'', JObj [(''value'', JArr []),
      (''type'', JStr ''Array<Object>'')])])]"

definition initialWikipediaValues :: "jsval obj" where
  "initialWikipediaValues =
     [(''top_n'', JNum (Fin 10)),
      (''language'', JStr ''en''),
      (''query'', JStr ''sys.query''),
      (''outputs'', JObj [(''formalized_content'', JObj [(''value'', JStr []),
      (''type'', JStr ''string'')])])]"

definition initialPubMedValues :: "jsval obj" where
  "initialPubMedValues =
     [(''top_n'', JNum (Fin 12)),
      (''email'', JStr []),
      (''query'', JStr ''sys.query''),
      (''outputs'', JObj [(''formalized_content'', JObj [(''value'', JStr []),
      (''type'', JStr ''string'')])])]"

definition initialArXivValues :: "jsval obj" where
  "initialArXivValues =
     [(''top_n'', JNum (Fin 12)),
      (''sort_by'', JStr ''relevance''),
      (''query'', JStr ''sys.query''),
      (''outputs'', JObj [(''formalized_content'', JObj [(''value'', JStr []),
      (''type'', JStr ''string'')])])]"

definition initialGoogleValues :: "jsval obj" where
  "initialGoogleValues =
     [(''q'', JStr ''sys.query''),
      (''start'', JNum (Fin 0)),
      (''num'', JNum (Fin 12)),
      (''api_key'', JStr []),
      (''country'', JStr ''us''),
      (''language'', JStr ''en''),
      (''outputs'', JObj [(''formalized_content'', JObj [(''value'', JStr []),
      (''type'', JStr ''string'')]),
      (''json'', JObj [(''value'', JArr []),
      (''type'', JStr ''Array<Object>'')])])]"

definition initialBingValues :: "jsval obj" where
  "initialBingValues =
     [(''top_n'', JNum (Fin 10)),
      (''channel'', JStr ''Webpages''),
      (''api_key'', 
      JStr ''YOUR_API_KEY (obtained from https://www.microsoft.com/en-us/bing/apis/bing-web-search-api)''),
      (''country'', JStr ''CH''),
      (''language'', JStr ''en''),
      (''query'', JStr [])]"

definition initialGoogleScholarValues :: "jsval obj" where
  "initialGoogleScholarValues =
     [(''top_n'', JNum (Fin 12)),
      (''sort_by'', JStr ''relevance''),
      (''patents'', JBool True),
      (''query'', JStr ''sys.query''),
      (''year_low'', JUndef),
      (''year_high'', JUndef),
      (''outputs'', JObj [(''formalized_content'', JObj [(''value'', JStr []),
      (''type'', JStr ''string'')]),
      (''json'', JObj [(''value'', JArr []),
      (''type'', JStr ''Array<Object>'')])])]"

definition initialGithubValues :: "jsval obj" where
  "initialGithubValues =
     [(''top_n'', JNum (Fin 5)),
      (''query'', JStr ''sys.query''),
      (''outputs'', JObj [(''formalized_content'', JObj [(''value'', JStr []),
      (''type'', JStr ''string'')]),
      (''json'', JObj [(''value'', JArr []),
      (''type'', JStr ''Array<Object>'')])])]"

definition initialExeSqlValues :: "jsval obj" where
  "initialExeSqlValues =
     [(''sql'', JStr []),
      (''db_type'', JStr ''mysql''),
      (''database'', JStr []),
      (''username'', JStr []),
      (''host'', JStr []),
      (''port'', JNum (Fin 3306)),
      (''password'', JStr []),
      (''max_records'', JNum (Fin 1024)),
      (''outputs'', JObj [(''formalized_content'', JObj [(''value'', JStr []),
      (''type'', JStr ''string'')]),
      (''json'', JObj [(''value'', JArr []),
      (''type'', JStr ''Array<Object>'')])])]"

definition initialSwitchValues :: "jsval obj" where
  "initialSwitchValues =
     [(''conditions'', JArr [JObj [(''logical_operator'', JStr ''and''),
      (''items'', JArr [JObj [(''operator'', JStr ''='')]]),
      (''to'', JArr [])]]),
      (''end_cpn_ids'', JArr [])]"

definition initialWenCaiValues :: "jsval obj" where
  "initialWenCaiValues =
     [(''top_n'', JNum (Fin 20)),
      (''query_type'', JStr ''stock''),
      (''query'', JStr ''sys.query''),
      (''outputs'', JObj [(''report'', JObj [(''value'', JStr []),
      (''type'', JStr ''string'')])])]"

definition initialYahooFinanceValues :: "jsval obj" where
  "initialYahooFinanceValues =
     [(''stock_code'', JStr []),
      (''info'', JBool True),
      (''history'', JBool False),
      (''financials'', JBool False),
      (''balance_sheet'', JBool False),
      (''cash_flow_statement'', JBool False),
      (''news'', JBool True),
      (''outputs'', JObj [(''report'', JObj [(''value'', JStr []),
      (''type'', JStr ''string'')])])]"

definition initialNoteValues :: "jsval obj" where
  "initialNoteValues =
     [(''text'', JStr [])]"

definition initialCrawlerValues :: "jsval obj" where
  "initialCrawlerValues =
     [(''extract_type'', JStr ''markdown''),
      (''query'', JStr [])]"

definition initialInvokeValues :: "jsval obj" where
  "initialInvokeValues =
     [(''url'', JStr []),
      (''method'', JStr ''GET''),
      (''timeout'', JNum (Fin 60)),
      (''headers'', JStr (''{'' @ [CHR 0x0A] @ ''  '' @ [CHR 0x22] @ ''Accept'' @ [CHR 0x22] @ '': '' @
      [CHR 0x22] @ ''*/*'' @ [CHR 0x22] @ '','' @ [CHR 0x0A] @ ''  '' @ [CHR 0x22] @ ''Cache-Control'' @
      [CHR 0x22] @ '': '' @ [CHR 0x22] @ ''no-cache'' @ [CHR 0x22] @ '','' @ [CHR 0x0A] @ ''  '' @ [CHR 0x22] @
      ''Connection'' @ [CHR 0x22] @ '': '' @ [CHR 0x22] @ ''keep-alive'' @ [CHR 0x22] @ [CHR 0x0A] @ ''}'')),
      (''proxy'', JStr []),
      (''clean_html'', JBool False),
      (''variables'', JArr []),
      (''outputs'', JObj [(''result'', JObj [(''value'', JStr []),
      (''type'', JStr ''string'')])])]"

definition initialEmailValues :: "jsval obj" where
  "initialEmailValues =
     [(''smtp_server'', JStr []),
      (''smtp_port'', JNum (Fin 465)),
      (''email'', JStr []),
      (''smtp_username'', JStr []),
      (''password'', JStr []),
      (''sender_name'', JStr []),
      (''to_email'', JStr []),
      (''cc_email'', JStr []),
      (''subject'', JStr []),
      (''content'', JStr []),
      (''outputs'', JObj [(''success'', JObj [(''value'', JBool True),
      (''type'', JStr ''boolean'')])])]"

definition initialIterationValues :: "jsval obj" where
  "initialIterationValues =
     [(''items_ref'', JStr []),
      (''outputs'', JObj [])]"

definition initialIterationStartValues :: "jsval obj" where
  "initialIterationStartValues =
     [(''outputs'', JObj [(''item'', JObj [(''type'', JStr ''unkown'')]),
      (''index'', JObj [(''type'', JStr ''integer'')])])]"

definition initialCodeValues :: "jsval obj" where
  "initialCodeValues =
     [(''lang'', JStr ''python''),
      (''script'', JStr (''def main(arg1: str, arg2: str) -> str:'' @ [CHR 0x0A] @ ''    return f'' @ [CHR 0x22] @
      ''result: {arg1 + arg2}'' @ [CHR 0x22] @ [CHR 0x0A])),
      (''arguments'', JObj [(''arg1'', JStr []),
      (''arg2'', JStr [])]),
      (''outputs'', JObj [])]"

definition initialWaitingDialogueValues :: "jsval obj" where
  "initialWaitingDialogueValues =
     []"

definition initialAgentValues :: "(string \<Rightarrow> string) \<Rightarrow> jsval obj" where
  "initialAgentValues tr =
     obj_assign initialLlmBaseValues [(''description'', JStr []),
      (''user_prompt'', JStr []),
      (''sys_prompt'', JStr (tr ''flow.sysPromptDefaultValue'')),
      (''prompts'', JArr [JObj [(''role'', JStr ''user''),
      (''content'', JStr ''{sys.query}'')]]),
      (''message_history_window_size'', JNum (Fin 12)),
      (''max_retries'', JNum (Fin 3)),
      (''delay_after_error'', JNum (Fin 1)),
      (''visual_files_var'', JStr []),
      (''max_rounds'', JNum (Fin 1)),
      (''exception_method'', JStr []),
      (''exception_goto'', JArr []),
      (''exception_default_value'', JStr []),
      (''tools'', JArr []),
      (''mcp'', JArr []),
      (''cite'', JBool True),
      (''showStructuredOutput'', JBool False),
      (''outputs'', JObj [(''content'', JObj [(''type'', JStr ''string''),
      (''value'', JStr [])])])]"

definition initialUserFillUpValues :: "jsval obj" where
  "initialUserFillUpValues =
     [(''enable_tips'', JBool True),
      (''tips'', JStr []),
      (''inputs'', JArr []),
      (''outputs'', JObj [])]"

definition initialStringTransformValues :: "jsval obj" where
  "initialStringTransformValues =
     [(''method'', JStr ''merge''),
      (''split_ref'', JStr []),
      (''script'', JStr []),
      (''delimiters'', JArr [JStr '','']),
      (''outputs'', JObj [(''result'', JObj [(''type'', JStr ''string'')])])]"

definition initialTavilyValues :: "jsval obj" where
  "initialTavilyValues =
     [(''api_key'', JStr []),
      (''query'', JStr ''sys.query''),
      (''search_depth'', JStr ''basic''),
      (''topic'', JStr ''general''),
      (''max_results'', JNum (Fin 5)),
      (''days'', JNum (Fin 7)),
      (''include_answer'', JBool False),
      (''include_raw_content'', JBool True),
      (''include_images'', JBool False),
      (''include_image_descriptions'', JBool False),
      (''include_domains'', JArr []),
      (''exclude_domains'', JArr []),
      (''outputs'', JObj [(''formalized_content'', JObj [(''value'', JStr []),
      (''type'', JStr ''string'')]),
      (''json'', JObj [(''value'', JArr []),
      (''type'', JStr ''Array<Object>'')])])]"

definition initialTavilyExtractValues :: "jsval obj" where
  "initialTavilyExtractValues =
     [(''urls'', JStr []),
      (''extract_depth'', JStr ''basic''),
      (''format'', JStr ''markdown''),
      (''outputs'', JObj [(''formalized_content'', JObj [(''value'', JStr []),
      (''type'', JStr ''string'')]),
      (''json'', JObj [(''value'', JArr []),
      (''type'', JStr ''Array<Object>'')])])]"

definition initialDataOperationsValues :: "jsval obj" where
  "initialDataOperationsValues =
     [(''query'', JArr []),
      (''operations'', JStr ''select_keys''),
      (''outputs'', JObj [(''result'', JObj [(''type'', JStr ''Array<Object>'')])])]"

definition initialListOperationsValues :: "jsval obj" where
  "initialListOperationsValues =
     [(''query'', JStr []),
      (''operations'', JStr ''topN''),
      (''outputs'', JObj [])]"

definition initialVariableAssignerValues :: "jsval obj" where
  "initialVariableAssignerValues =
     []"

definition initialVariableAggregatorValues :: "jsval obj" where
  "initialVariableAggregatorValues =
     [(''outputs'', JObj []),
      (''groups'', JArr [])]"

definition initialLoopValues :: "jsval obj" where
  "initialLoopValues =
     [(''loop_variables'', JArr []),
      (''loop_termination_condition'', JArr []),
      (''maximum_loop_count'', JNum (Fin 10)),
      (''outputs'', JObj [])]"

definition initialPDFGeneratorValues :: "jsval obj" where
  "initialPDFGeneratorValues =
     [(''output_format'', JStr ''pdf''),
      (''content'', JStr []),
      (''title'', JStr []),
      (''subtitle'', JStr []),
      (''header_text'', JStr []),
      (''footer_text'', JStr []),
      (''logo_image'', JStr []),
      (''logo_position'', JStr ''left''),
      (''logo_width'', JNum (Fin 2)),
      (''logo_height'', JNum (Fin 1)),
      (''font_family'', JStr ''Helvetica''),
      (''font_size'', JNum (Fin 12)),
      (''title_font_size'', JNum (Fin 24)),
      (''heading1_font_size'', JNum (Fin 18)),
      (''heading2_font_size'', JNum (Fin 16)),
      (''heading3_font_size'', JNum (Fin 14)),
      (''text_color'', JStr ''#000000''),
      (''title_color'', JStr ''#000000''),
      (''page_size'', JStr ''A4''),
      (''orientation'', JStr ''portrait''),
      (''margin_top'', JNum (Fin 1)),
      (''margin_bottom'', JNum (Fin 1)),
      (''margin_left'', JNum (Fin 1)),
      (''margin_right'', JNum (Fin 1)),
      (''line_spacing'', JNum (Fin (6 / 5))),
      (''filename'', JStr []),
      (''output_directory'', JStr ''/tmp/pdf_outputs''),
      (''add_page_numbers'', JBool True),
      (''add_timestamp'', JBool True),
      (''watermark_text'', JStr []),
      (''enable_toc'', JBool False),
      (''outputs'', JObj [(''file_path'', JObj [(''type'', JStr ''string'')]),
      (''pdf_base64'', JObj [(''type'', JStr ''string'')]),
      (''download'', JObj [(''type'', JStr ''string'')]),
      (''success'', JObj [(''type'', JStr ''boolean'')])])]"

definition initialTokenizerValues :: "jsval obj" where
  "initialTokenizerValues =
     [(''search_method'', JArr [JStr ''embedding'', JStr ''full_text'']),
      (''filename_embd_weight'', JNum (Fin (1 / 10))),
      (''fields'', JStr ''text''),
      (''outputs'', JObj [])]"

definition initialParserValues :: "jsval obj" where
  "initialParserValues =
     [(''outputs'', JObj [(''markdown'', JObj [(''type'', JStr ''string''),
      (''value'', JStr [])]),
      (''text'', JObj [(''type'', JStr ''string''),
      (''value'', JStr [])]),
      (''html'', JObj [(''type'', JStr ''string''),
      (''value'', JStr [])]),
      (''json'', JObj [(''type'', JStr ''Array<object>''),
      (''value'', JArr [])])]),
      (''setups'', JArr [JObj [(''fileFormat'', JStr ''pdf''),
      (''output_format'', JStr ''json''),
      (''parse_method'', JStr ''DeepDOC''),
      (''preprocess'', JStr ''main_content'')], JObj [(''fileFormat'', JStr ''spreadsheet''),
      (''output_format'', JStr ''html''),
      (''parse_method'', JStr ''DeepDOC''),
      (''preprocess'', JStr ''main_content'')], JObj [(''fileFormat'', JStr ''image''),
      (''output_format'', JStr ''text''),
      (''parse_method'', JStr ''ocr''),
      (''preprocess'', JStr ''main_content''),
      (''system_prompt'', JStr [])], JObj [(''fileFormat'', JStr ''email''),
      (''fields'', JArr [JStr ''from'', JStr ''to'', JStr ''cc'', JStr ''bcc'', JStr ''date'', JStr ''subject'', 
      JStr ''body'', JStr ''attachments'']),
      (''output_format'', JStr ''text''),
      (''preprocess'', JStr ''main_content'')], JObj [(''fileFormat'', JStr ''text&markdown''),
      (''output_format'', JStr ''text''),
      (''preprocess'', JStr ''main_content'')], JObj [(''fileFormat'', JStr ''word''),
      (''output_format'', JStr ''json''),
      (''preprocess'', JStr ''main_content'')], JObj [(''fileFormat'', JStr ''slides''),
      (''output_format'', JStr ''json''),
      (''parse_method'', JStr ''DeepDOC''),
      (''preprocess'', JStr ''main_content'')]])]"

definition initialSplitterValues :: "jsval obj" where
  "initialSplitterValues =
     [(''outputs'', JObj [(''chunks'', JObj [(''type'', JStr ''Array<Object>''),
      (''value'', JArr [])])]),
      (''chunk_token_size'', JNum (Fin 512)),
      (''overlapped_percent'', JNum (Fin 0)),
      (''delimiters'', JArr [JObj [(''value'', JStr [CHR 0x0A])]]),
      (''image_table_context_window'', JNum (Fin 0))]"

definition initialHierarchicalMergerValues :: "jsval obj" where
  "initialHierarchicalMergerValues =
     [(''outputs'', JObj [(''chunks'', JObj [(''type'', JStr ''Array<Object>''),
      (''value'', JArr [])])]),
      (''hierarchy'', JStr ''3''),
      (''levels'', JArr [JObj [(''expressions'', JArr [JObj [(''expression'', JStr ''^#[^#]'')]])], 
      JObj [(''expressions'', JArr [JObj [(''expression'', JStr ''^##[^#]'')]])], JObj [(''expressions'', 
      JArr [JObj [(''expression'', JStr ''^###[^#]'')]])], JObj [(''expressions'', JArr [JObj [(''expression'', 
      JStr ''^####[^#]'')]])]])]"

definition initialExtractorValues :: "jsval obj" where
  "initialExtractorValues =
     obj_assign initialLlmBaseValues [(''field_name'', JStr ''summary''),
      (''outputs'', JObj [(''chunks'', JObj [(''type'', JStr ''Array<Object>''),
      (''value'', JArr [])])])]"

section \<open>Types of nodes and initial forms\<close>

fun NodeMap :: "Operator \<Rightarrow> string" where
  "NodeMap OpBegin = ''beginNode''"
| "NodeMap OpCategorize = ''categorizeNode''"
| "NodeMap OpRetrieval = ''retrievalNode''"
| "NodeMap OpMessage = ''messageNode''"
| "NodeMap OpRewriteQuestion = ''rewriteNode''"
| "NodeMap OpDuckDuckGo = ''ragNode''"
| "NodeMap OpWikipedia = ''ragNode''"
| "NodeMap OpPubMed = ''ragNode''"
| "NodeMap OpArXiv = ''ragNode''"
| "NodeMap OpGoogle = ''ragNode''"
| "NodeMap OpBing = ''ragNode''"
| "NodeMap OpGoogleScholar = ''ragNode''"
| "NodeMap OpGitHub = ''ragNode''"
| "NodeMap OpSearXNG = ''ragNode''"
| "NodeMap OpExeSQL = ''ragNode''"
| "NodeMap OpSwitch = ''switchNode''"
| "NodeMap OpWenCai = ''ragNode''"
| "NodeMap OpYahooFinance = ''ragNode''"
| "NodeMap OpNote = ''noteNode''"
| "NodeMap OpCrawler = ''ragNode''"
| "NodeMap OpInvoke = ''ragNode''"
| "NodeMap OpEmail = ''ragNode''"
| "NodeMap OpIteration = ''group''"
| "NodeMap OpIterationStart = ''iterationStartNode''"
| "NodeMap OpCode = ''ragNode''"
| "NodeMap OpWaitingDialogue = ''ragNode''"
| "NodeMap OpAgent = ''agentNode''"
| "NodeMap OpTool = ''toolNode''"
| "NodeMap OpTavilySearch = ''ragNode''"
| "NodeMap OpUserFillUp = ''ragNode''"
| "NodeMap OpStringTransform = ''ragNode''"
| "NodeMap OpTavilyExtract = ''ragNode''"
| "NodeMap OpPlaceholder = ''placeholderNode''"
| "NodeMap OpFile = ''fileNode''"
| "NodeMap OpParser = ''parserNode''"
| "NodeMap OpTokenizer = ''tokenizerNode''"
| "NodeMap OpSplitter = ''splitterNode''"
| "NodeMap OpHierarchicalMerger = ''splitterNode''"
| "NodeMap OpExtractor = ''contextNode''"
| "NodeMap OpDataOperations = ''dataOperationsNode''"
| "NodeMap OpListOperations = ''listOperationsNode''"
| "NodeMap OpVariableAssigner = ''variableAssignerNode''"
| "NodeMap OpVariableAggregator = ''variableAggregatorNode''"
| "NodeMap OpLoop = ''loopNode''"
| "NodeMap OpLoopStart = ''loopStartNode''"
| "NodeMap OpExitLoop = ''exitLoopNode''"
| "NodeMap OpExcelProcessor = ''ragNode''"
| "NodeMap OpPDFGenerator = ''ragNode''"

fun initialFormValuesMap :: "(string \<Rightarrow> string) \<Rightarrow> jsval \<Rightarrow> Operator \<Rightarrow> jsval obj" where
  "initialFormValuesMap tr llmId OpBegin = initialBeginValues"
| "initialFormValuesMap tr llmId OpRetrieval = initialRetrievalValues"
| "initialFormValuesMap tr llmId OpCategorize = obj_assign initialCategorizeValues [(''llm_id'', llmId)]"
| "initialFormValuesMap tr llmId OpRewriteQuestion = obj_assign initialRewriteQuestionValues [(''llm_id'', llmId)]"
| "initialFormValuesMap tr llmId OpMessage = initialMessageValues"
| "initialFormValuesMap tr llmId OpDuckDuckGo = initialDuckValues"
| "initialFormValuesMap tr llmId OpWikipedia = initialWikipediaValues"
| "initialFormValuesMap tr llmId OpPubMed = initialPubMedValues"
| "initialFormValuesMap tr llmId OpArXiv = initialArXivValues"
| "initialFormValuesMap tr llmId OpGoogle = initialGoogleValues"
| "initialFormValuesMap tr llmId OpBing = initialBingValues"
| "initialFormValuesMap tr llmId OpGoogleScholar = initialGoogleScholarValues"
| "initialFormValuesMap tr llmId OpSearXNG = initialSearXNGValues"
| "initialFormValuesMap tr llmId OpGitHub = initialGithubValues"
| "initialFormValuesMap tr llmId OpExeSQL = initialExeSqlValues"
| "initialFormValuesMap tr llmId OpSwitch = initialSwitchValues"
| "initialFormValuesMap tr llmId OpWenCai = initialWenCaiValues"
| "initialFormValuesMap tr llmId OpYahooFinance = initialYahooFinanceValues"
| "initialFormValuesMap tr llmId OpNote = initialNoteValues"
| "initialFormValuesMap tr llmId OpCrawler = initialCrawlerValues"
| "initialFormValuesMap tr llmId OpInvoke = initialInvokeValues"
| "initialFormValuesMap tr llmId OpEmail = initialEmailValues"
| "initialFormValuesMap tr llmId OpIteration = initialIterationValues"
| "initialFormValuesMap tr llmId OpIterationStart = initialIterationStartValues"
| "initialFormValuesMap tr llmId OpCode = initialCodeValues"
| "initialFormValuesMap tr llmId OpWaitingDialogue = initialWaitingDialogueValues"
| "initialFormValuesMap tr llmId OpAgent = obj_assign (initialAgentValues tr) [(''llm_id'', llmId)]"
| "initialFormValuesMap tr llmId OpTool = []"
| "initialFormValuesMap tr llmId OpTavilySearch = initialTavilyValues"
| "initialFormValuesMap tr llmId OpUserFillUp = initialUserFillUpValues"
| "initialFormValuesMap tr llmId OpStringTransform = initialStringTransformValues"
| "initialFormValuesMap tr llmId OpTavilyExtract = initialTavilyExtractValues"
| "initialFormValuesMap tr llmId OpPlaceholder = []"
| "initialFormValuesMap tr llmId OpFile = []"
| "initialFormValuesMap tr llmId OpParser = initialParserValues"
| "initialFormValuesMap tr llmId OpTokenizer = initialTokenizerValues"
| "initialFormValuesMap tr llmId OpSplitter = initialSplitterValues"
| "initialFormValuesMap tr llmId OpHierarchicalMerger = initialHierarchicalMergerValues"
| "initialFormValuesMap tr llmId OpExtractor = obj_assign initialExtractorValues [(''llm_id'', llmId), (''sys_prompt'', JStr (tr ''flow.prompts.system.summary'')), (''prompts'', JStr (tr ''flow.prompts.user.summary''))]"
| "initialFormValuesMap tr llmId OpDataOperations = initialDataOperationsValues"
| "initialFormValuesMap tr llmId OpListOperations = initialListOperationsValues"
| "initialFormValuesMap tr llmId OpVariableAssigner = initialVariableAssignerValues"
| "initialFormValuesMap tr llmId OpVariableAggregator = initialVariableAggregatorValues"
| "initialFormValuesMap tr llmId OpLoop = initialLoopValues"
| "initialFormValuesMap tr llmId OpLoopStart = []"
| "initialFormValuesMap tr llmId OpExitLoop = []"
| "initialFormValuesMap tr llmId OpPDFGenerator = initialPDFGeneratorValues"
| "initialFormValuesMap tr llmId OpExcelProcessor = []"

end
