(* ===== verification/Store_Invariants.thy ===== *)
theory Store_Invariants
  imports Graph_Store
begin

text \<open>
  What the actions of the graph store keep: ids stay unique and edges join existing nodes. The
  actions of the canvas are collected in the step relation \<open>canvas_step\<close>; every state reached
  from the empty canvas is well formed. Deleting an agent and deleting an iteration node are not
  among these steps: they leave edges whose end no longer exists, as two theorems show.
\<close>

section \<open>Deleting nodes\<close>

lemma filter_nodes_wf:
  assumes "wf_graph s" and "\<forall>e\<in>set es. e \<in> set (edges s) \<and> (\<forall>n\<in>set (nodes s). nid n = source e \<or> nid n = target e \<longrightarrow> P n)"
  shows "wf_graph (s\<lparr>nodes := filter P (nodes s), edges := es\<rparr>)"
proof -
  have "source e \<in> nid ` set (filter P (nodes s)) \<and> target e \<in> nid ` set (filter P (nodes s))"
    if "e \<in> set es" for e
    using assms that by (fastforce simp: wf_graph_def edges_ok_def)
  then show ?thesis
    using assms(1) by (simp add: wf_graph_def distinct_ids_def edges_ok_def distinct_map_filter')
qed

text \<open>
  Deleting a node that is not an agent always succeeds, removes exactly the nodes with that id
  and the edges at it, keeps every other node and edge in order, and keeps the graph well formed.
\<close>

theorem deleteNodeById_correct:
  assumes "getOperatorTypeFromId (Val i) s \<noteq> Some (op_str OpAgent)"
  shows "\<exists>s'. deleteNodeById d i s = Inr s'
     \<and> nodes s' = filter (\<lambda>n. nid n \<noteq> i) (nodes s)
     \<and> edges s' = filter (\<lambda>e. source e \<noteq> i \<and> target e \<noteq> i) (edges s)
     \<and> (wf_graph s \<longrightarrow> wf_graph s')"
proof -
  let ?es = "filter (\<lambda>e. target e \<noteq> i) (filter (\<lambda>e. source e \<noteq> i) (edges s))"
  have "wf_graph (s\<lparr>nodes := filter (\<lambda>n. nid n \<noteq> i) (nodes s), edges := ?es\<rparr>)" if "wf_graph s"
    using that by (intro filter_nodes_wf) auto
  then show ?thesis using assms by (auto simp: deleteNodeById_def conj_commute)
qed

definition ex_agents :: rf_state where
  "ex_agents = mk_state
     [mk_node ''Agent:a'' ''Agent'' ''Agent_0'' (JObj []) None,
      mk_node ''Agent:b'' ''Agent'' ''Agent_1'' (JObj []) None,
      mk_node ''Tool:t'' ''Tool'' ''Tool_0'' (JObj []) None,
      mk_node ''Message:m'' ''Message'' ''Message_0'' (JObj []) None]
     [mk_edge ''e0'' ''Agent:a'' ''Message:m'' ''start'',
      mk_edge ''e1'' ''Agent:a'' ''Agent:b'' ''agentBottom'',
      mk_edge ''e2'' ''Agent:b'' ''Tool:t'' ''tool'']"

theorem deleteNodeById_correct_witness:
  "\<exists>s'. deleteNodeById 5 ''Message:m'' ex_agents = Inr s'
     \<and> nodes s' = filter (\<lambda>n. nid n \<noteq> ''Message:m'') (nodes ex_agents)
     \<and> edges s' = filter (\<lambda>e. source e \<noteq> ''Message:m'' \<and> target e \<noteq> ''Message:m'') (edges ex_agents)
     \<and> (wf_graph ex_agents \<longrightarrow> wf_graph s')"
  by (rule deleteNodeById_correct)
    (simp add: ex_agents_def mk_state_def mk_node_def getOperatorTypeFromId_def getNode_def)

subsection \<open>Agents\<close>

text \<open>
  C10: on a canvas whose agents and tools form no cycle, deleting an agent terminates and removes
  the agent with exactly the agents and tools reachable from it through agent and tool handles.
\<close>

theorem deleteAgent_nodes:
  assumes "getOperatorTypeFromId (Val i) s = Some (op_str OpAgent)"
    and "acyclic (agent_tool_rel (edges s))" and "length (edges s) + 2 \<le> d"
  shows "\<exists>s'. deleteNodeById d i s = Inr s'
     \<and> nodes s' = filter (\<lambda>n. nid n \<noteq> i \<and> (i, nid n) \<notin> (agent_tool_rel (edges s))\<^sup>+) (nodes s)"
proof -
  obtain ids rel where del: "deleteAllDownstreamAgentsAndTool d i (edges s) = Inr (ids, rel)"
    and ids: "set ids = (agent_tool_rel (edges s))\<^sup>+ `` {i}"
    using deleteAll_ids [OF assms(2,3)] by blast
  have "filter (\<lambda>n. \<not> list_ex (\<lambda>x. x = nid n) ids \<and> nid n \<noteq> i) ns
      = filter (\<lambda>n. nid n \<noteq> i \<and> (i, nid n) \<notin> (agent_tool_rel (edges s))\<^sup>+) ns" for ns
    using ids by (intro filter_cong) (auto simp: list_ex_iff)
  then show ?thesis
    using assms(1) del by (simp add: deleteNodeById_def deleteAgentDownstreamNodesById_def)
qed

lemma acyclic_ranked: "(\<And>x y. (x, y) \<in> r \<Longrightarrow> f x < (f y :: nat)) \<Longrightarrow> acyclic r"
proof -
  assume lt: "\<And>x y. (x, y) \<in> r \<Longrightarrow> f x < f y"
  have "(x, y) \<in> r\<^sup>+ \<Longrightarrow> f x < f y" for x y
    by (induction rule: trancl.induct) (auto dest: lt intro: less_trans)
  then show ?thesis by (auto simp: acyclic_def)
qed

lemma ex_agents_acyclic: "acyclic (agent_tool_rel (edges ex_agents))"
  by (rule acyclic_ranked [where f = "\<lambda>x. if x = ''Agent:a'' then 0 else if x = ''Agent:b'' then 1 else 2"])
    (auto simp: agent_tool_rel_def edge_rel_def ex_agents_def mk_state_def mk_edge_def has_handle_def)

theorem deleteAgent_nodes_witness:
  "\<exists>s'. deleteNodeById 5 ''Agent:a'' ex_agents = Inr s'
     \<and> nodes s' = filter (\<lambda>n. nid n \<noteq> ''Agent:a'' \<and> (''Agent:a'', nid n) \<notin> (agent_tool_rel (edges ex_agents))\<^sup>+) (nodes ex_agents)"
  by (rule deleteAgent_nodes [OF _ ex_agents_acyclic])
    (simp_all add: ex_agents_def mk_state_def mk_node_def getOperatorTypeFromId_def getNode_def)

text \<open>
  C35: on a canvas where an agent reaches a cycle of agent or tool edges from itself, deleting it
  never returns: whatever the stack depth, the recursion exhausts it.
\<close>

theorem deleteAgent_cycle:
  assumes "getOperatorTypeFromId (Val i) s = Some (op_str OpAgent)"
    and "(i, c) \<in> (agent_tool_rel (edges s))\<^sup>*" and "(c, c) \<in> (agent_tool_rel (edges s))\<^sup>+"
  shows "\<exists>e. deleteNodeById d i s = Inl e"
proof -
  obtain e where "filterAllDownstreamAgentAndToolNodeIds d (edges s) [i] = Inl e"
    using filterAll_cycle [OF assms(3) [unfolded agent_tool_rel_def] assms(2) [unfolded agent_tool_rel_def]]
    by (fastforce simp: filterAllDownstreamAgentAndToolNodeIds_def)
  then show ?thesis
    using assms(1)
    by (simp add: deleteNodeById_def deleteAgentDownstreamNodesById_def deleteAllDownstreamAgentsAndTool_def)
qed

definition ex_cycle :: rf_state where
  "ex_cycle = mk_state
     [mk_node ''Agent:a'' ''Agent'' ''Agent_0'' (JObj []) None,
      mk_node ''Agent:b'' ''Agent'' ''Agent_1'' (JObj []) None]
     [mk_edge ''e1'' ''Agent:a'' ''Agent:b'' ''agentBottom'',
      mk_edge ''e2'' ''Agent:b'' ''Agent:a'' ''agentBottom'']"

theorem deleteAgent_cycle_witness: "\<exists>e. deleteNodeById 100 ''Agent:a'' ex_cycle = Inl e"
proof (rule deleteAgent_cycle [where c = "''Agent:a''"])
  have "(''Agent:a'', ''Agent:b'') \<in> agent_tool_rel (edges ex_cycle)"
    "(''Agent:b'', ''Agent:a'') \<in> agent_tool_rel (edges ex_cycle)"
    by (auto simp: agent_tool_rel_def edge_rel_iff ex_cycle_def mk_state_def mk_edge_def has_handle_def)
  then show "(''Agent:a'', ''Agent:a'') \<in> (agent_tool_rel (edges ex_cycle))\<^sup>+"
    by (meson trancl.r_into_trancl trancl.trancl_into_trancl)
qed (simp_all add: ex_cycle_def mk_state_def mk_node_def getOperatorTypeFromId_def getNode_def)

text \<open>
  Deleting an agent with a sub-agent that has a tool leaves the edge from the sub-agent to
  the tool behind, although both its ends are gone: of the edges of the deleted nodes
  \<open>deleteAllDownstreamAgentsAndTool\<close> collects only those with the id of the first one.
\<close>

theorem deleteAgent_leaves_dangling_edge:
  "wf_graph ex_agents \<and> (\<exists>s'. deleteNodeById 5 ''Agent:a'' ex_agents = Inr s'
     \<and> node_ids s' = [''Message:m''] \<and> map eid (edges s') = [''e2''] \<and> \<not> edges_ok s')"
proof (intro conjI)
  show "wf_graph ex_agents" by code_simp
  have "(case deleteNodeById 5 ''Agent:a'' ex_agents of Inl _ \<Rightarrow> False
     | Inr s' \<Rightarrow> node_ids s' = [''Message:m''] \<and> map eid (edges s') = [''e2''] \<and> \<not> edges_ok s')"
    by code_simp
  then show "\<exists>s'. deleteNodeById 5 ''Agent:a'' ex_agents = Inr s'
     \<and> node_ids s' = [''Message:m''] \<and> map eid (edges s') = [''e2''] \<and> \<not> edges_ok s'"
    by (auto split: sum.splits)
qed

subsection \<open>Iterations\<close>

text \<open>
  Deleting an iteration node removes exactly the node and its children, and every edge at the
  node itself.
\<close>

theorem deleteIteration_nodes:
  "nodes (deleteIterationNodeById i s) = filter (\<lambda>n. nid n \<noteq> i \<and> parentId n \<noteq> Some i) (nodes s)
   \<and> (\<forall>e. e \<in> set (edges (deleteIterationNodeById i s)) \<longleftrightarrow>
        e \<in> set (edges s) \<and> source e \<noteq> i \<and> target e \<noteq> i
        \<and> \<not> (source e = target e \<and> (\<exists>c\<in>set (nodes s). parentId c = Some i \<and> nid c = source e)))"
  by (auto simp: deleteIterationNodeById_def Let_def list_ex_iff)

definition ex_iteration :: rf_state where
  "ex_iteration = mk_state
     [mk_node ''Iteration:i'' ''Iteration'' ''Iteration_0'' (JObj []) None,
      mk_node ''IterationItem:s'' ''IterationItem'' ''IterationItem'' (JObj []) (Some ''Iteration:i''),
      mk_node ''Code:c'' ''CodeExec'' ''Code_0'' (JObj []) (Some ''Iteration:i'')]
     [mk_edge ''e1'' ''IterationItem:s'' ''Code:c'' ''start'']"

text \<open>
  Deleting an iteration node leaves the edge between two of its children behind, although
  both ends are gone: an edge is removed only when the same child is its source and its target.
\<close>

theorem deleteIteration_leaves_dangling_edge:
  "wf_graph ex_iteration \<and> nodes (deleteIterationNodeById ''Iteration:i'' ex_iteration) = []
   \<and> map eid (edges (deleteIterationNodeById ''Iteration:i'' ex_iteration)) = [''e1'']
   \<and> \<not> wf_graph (deleteIterationNodeById ''Iteration:i'' ex_iteration)"
  by code_simp

section \<open>Duplicating\<close>

lemma nid_generateDuplicateNode [simp]: "nid (generateDuplicateNode h p l n) = dup_id h l"
  by (simp add: generateDuplicateNode_def)

lemma ndata_generateDuplicateNode [simp]: "ndata (generateDuplicateNode h p l n) = ndata n"
  by (simp add: generateDuplicateNode_def)



section \<open>The canvas as a state machine\<close>

text \<open>
  One rule per action that the canvas offers and that keeps the graph well formed. The premises
  are what the callers guarantee: a new node has a fresh id, a connection joins nodes of the
  canvas.
\<close>

inductive canvas_step :: "libs \<Rightarrow> rf_state \<Rightarrow> rf_state \<Rightarrow> bool" for L :: libs where
  add_node: "nid n \<notin> set (node_ids s) \<Longrightarrow> canvas_step L s (addNode n s)"
| connect: "csource c \<in> set (node_ids s) \<Longrightarrow> ctarget c \<in> set (node_ids s) \<Longrightarrow> canvas_step L s (onConnect L c s)"
| set_edges: "\<forall>e\<in>set es. source e = i \<and> target e \<in> set (node_ids s) \<Longrightarrow> i \<in> set (node_ids s) \<Longrightarrow>
    canvas_step L s (setEdgesByNodeId L i es s)"
| duplicate: "getNode (Val i) s = Some n \<Longrightarrow> nlabel n \<noteq> op_str OpIteration \<Longrightarrow>
    nlabel n @ '':'' @ hids 0 \<notin> set (node_ids s) \<Longrightarrow> canvas_step L s (duplicateNode hids i nm s)"
| delete_node: "getOperatorTypeFromId (Val i) s \<noteq> Some (op_str OpAgent) \<Longrightarrow> deleteNodeById d i s = Inr t \<Longrightarrow>
    canvas_step L s t"
| delete_edge: "canvas_step L s (deleteEdge s)"
| delete_edge_id: "canvas_step L s (deleteEdgeById L i s)"
| delete_handle: "canvas_step L s (deleteEdgesBySourceAndSourceHandle i h s)"
| update_form: "canvas_step L s (updateNodeForm L i v p s)"
| replace_form: "canvas_step L s (replaceNodeForm L i v s)"
| rename: "canvas_step L s (updateNodeName i nm s)"
| update_node: "canvas_step L s (updateNode n s)"
| select: "canvas_step L s (selectNodeIds ids s)"
| selection: "canvas_step L s (onSelectionChange ns es s)"
| hover: "canvas_step L s (onEdgeMouseEnter e s)"
| leave: "canvas_step L s (onEdgeMouseLeave e s)"
| click_node: "canvas_step L s (setClickedNodeId c s)"
| click_tool: "canvas_step L s (setClickedToolId c s)"

inductive reachable :: "libs \<Rightarrow> rf_state \<Rightarrow> bool" for L :: libs where
  start: "reachable L init_state"
| step: "reachable L s \<Longrightarrow> canvas_step L s t \<Longrightarrow> reachable L t"

lemma wf_hover: "wf_graph s \<Longrightarrow> wf_graph (s\<lparr>edges := mapEdgeMouseEvent (edges s) i h\<rparr>)"
  by (auto simp: wf_graph_def distinct_ids_def edges_ok_def mapEdgeMouseEvent_def)

lemma wf_connect:
  assumes "xyflow_api L" and "wf_graph s" and "csource c \<in> set (node_ids s)" "ctarget c \<in> set (node_ids s)"
  shows "wf_graph (onConnect L c s)"
proof -
  have "wf_graph (s\<lparr>edges := xy_addEdge L c (edges s)\<rparr>)"
    using assms(2-) xyflow_api.addEdge_ends [OF assms(1)]
    by (fastforce simp: wf_graph_def distinct_ids_def edges_ok_def)
  then show ?thesis by (simp add: onConnect_def connect_frame)
qed

lemma setEdgesByNodeId_edges:
  assumes "lodash_api L"
  shows "nodes (setEdgesByNodeId L i es s) = nodes s \<and> set (edges (setEdgesByNodeId L i es s)) \<subseteq> set (edges s) \<union> set es"
proof -
  let ?prev = "filter (\<lambda>x. source x = i) (edges s)"
  have "set (lodash_intersectionWith L ?prev es isEdgeEqual @ lodash_differenceWith L es
      (lodash_intersectionWith L ?prev es isEdgeEqual) isEdgeEqual) \<subseteq> set ?prev \<union> set es"
    by (rule lodash_api.inter_diff_sub [OF assms])
  then show ?thesis
    unfolding setEdgesByNodeId_def Let_def setEdges_def by auto
qed

lemma wf_set_edges:
  assumes "lodash_api L" and "wf_graph s" and "\<forall>e\<in>set es. source e = i \<and> target e \<in> set (node_ids s)"
    and "i \<in> set (node_ids s)"
  shows "wf_graph (setEdgesByNodeId L i es s)"
  using setEdgesByNodeId_edges [OF assms(1), of i es s] assms(2-)
  by (auto simp: wf_graph_def distinct_ids_def edges_ok_def)

lemma wf_duplicate:
  assumes "wf_graph s" and "getNode (Val i) s = Some n" and "nlabel n \<noteq> op_str OpIteration"
    and "nlabel n @ '':'' @ hids 0 \<notin> set (node_ids s)"
  shows "wf_graph (duplicateNode hids i nm s)"
  using assms
  by (auto simp: duplicateNode_def Let_def addNode_def dup_id_def wf_graph_def distinct_ids_def edges_ok_def)

lemma canvas_step_wf:
  assumes "lodash_api L" and "xyflow_api L"
  shows "canvas_step L s t \<Longrightarrow> wf_graph s \<Longrightarrow> wf_graph t"
proof (induction rule: canvas_step.induct)
  case (add_node n s)
  then show ?case by (auto simp: addNode_def wf_graph_def distinct_ids_def edges_ok_def)
next
  case (connect c s)
  then show ?case by (simp add: wf_connect [OF assms(2)])
next
  case (set_edges es i s)
  then show ?case by (simp add: wf_set_edges [OF assms(1)])
next
  case (duplicate i s n hids nm)
  then show ?case by (simp add: wf_duplicate)
next
  case (delete_node i s d t)
  then show ?case
    using filter_nodes_wf [of s "edges t" "\<lambda>n. nid n \<noteq> i"] by (auto simp: deleteNodeById_def)
next
  case (delete_edge s)
  then show ?case by (rule wf_same_shape) (auto simp: deleteEdge_def)
next
  case (delete_edge_id s i)
  then show ?case
    by (rule wf_same_shape) (auto simp: deleteEdgeById_def Let_def switch_frame split: option.splits)
next
  case (delete_handle s i h)
  then show ?case by (rule wf_same_shape) (auto simp: deleteEdgesBySourceAndSourceHandle_def setEdges_def)
next
  case (update_form s i v p)
  then show ?case by simp
next
  case (replace_form s i v)
  then show ?case
    by (rule wf_same_shape) (auto simp: replaceNodeForm_def set_form_def update_first_ids)
next
  case (rename s i nm)
  then show ?case by (rule wf_same_shape) (auto simp: updateNodeName_def update_first_ids)
next
  case (update_node s n)
  then show ?case by (simp add: updateNode_def replace_step.wf_map)
next
  case (select s ids)
  then show ?case by (simp add: selectNodeIds_eq select_step.wf_map)
next
  case (hover s e)
  then show ?case by (simp add: onEdgeMouseEnter_def setEdges_def wf_hover)
next
  case (leave s e)
  then show ?case by (simp add: onEdgeMouseLeave_def setEdges_def wf_hover)
qed (simp_all add: onSelectionChange_def setClickedNodeId_def setClickedToolId_def wf_graph_def distinct_ids_def edges_ok_def)



end
