(* ===== verification/Add_Node.thy ===== *)
theory Add_Node
  imports Initial_Values Store_Invariants
begin

text \<open>
  Adding a node to the canvas: \<open>pages/agent/hooks/use-add-node.ts\<close>. One call of \<open>addCanvasNode\<close>
  places the node, fills its form, resizes the container it is put into and connects it. The
  random id, the translated base name, the translation function, the model id and the position
  computed from the mouse event are arguments. The drawing hints \<open>sourcePosition\<close> and
  \<open>targetPosition\<close> are not part of the node record.

  The start nodes of the groups are objects of the module, made once when it is loaded: their
  ids are arguments \<open>startIds\<close> that do not change between calls. In the source the same
  object is put into the store each time; the model has the state after the flow library has
  replaced it by its own copy.
\<close>

section \<open>Where and with which form\<close>

datatype Position = PLeft | PTop | PRight | PBottom

definition isBottomSubAgentType :: "string \<Rightarrow> Position \<Rightarrow> bool" where
  "isBottomSubAgentType type pos = (type = op_str OpAgent \<and> pos = PBottom \<or> type = op_str OpTool)"

definition initializeOperatorParams :: "(string \<Rightarrow> string) \<Rightarrow> jsval \<Rightarrow> string \<Rightarrow> Position \<Rightarrow> jsval" where
  "initializeOperatorParams tr llmId operatorName pos =
     (let initialValues = (case operator_of operatorName of
            None \<Rightarrow> JUndef | Some p \<Rightarrow> JObj (initialFormValuesMap tr llmId p)) in
      if isBottomSubAgentType operatorName pos
      then JObj (obj_assign (spread initialValues)
             [(''description'', JStr (tr ''flow.descriptionMessage'')),
              (''user_prompt'', JStr (tr ''flow.userPromptDefaultValue''))])
      else initialValues)"

definition max_of :: "rat list \<Rightarrow> rat" where
  \<comment> \<open>\<open>Math.max(...xs)\<close> of a non-empty list\<close>
  "max_of xs = fold max (tl xs) (hd xs)"

definition child_nodes :: "string nullable \<Rightarrow> string nullable \<Rightarrow> rf_state \<Rightarrow> node list" where
  \<comment> \<open>the nodes at the end of the edges that leave a node through a handle\<close>
  "child_nodes i h s =
     (let ids = map target (filter (\<lambda>x. Val (source x) = i \<and> sourceHandle x = h) (edges s))
      in filter (\<lambda>x. nid x \<in> set ids) (nodes s))"

definition calculateNewlyBackChildPosition :: "string nullable \<Rightarrow> string nullable \<Rightarrow> rf_state \<Rightarrow> xy_position" where
  "calculateNewlyBackChildPosition i h s =
     (let parentNode = getNode i s;
          yAxises = map (\<lambda>x. py (position x)) (child_nodes i h s)
      in \<lparr>px = (case parentNode of None \<Rightarrow> 0 | Some n \<Rightarrow> px (position n)) + 300,
          py = (if yAxises \<noteq> [] then max_of yAxises + 150
                else case parentNode of None \<Rightarrow> 0 | Some n \<Rightarrow> py (position n))\<rparr>)"

section \<open>Connecting the new node\<close>

definition handle_conn :: "string \<Rightarrow> string \<Rightarrow> string nullable \<Rightarrow> NodeHandleId \<Rightarrow> connection" where
  "handle_conn src tgt sh th =
     \<lparr>csource = src, ctarget = tgt, csourceHandle = sh, ctargetHandle = Val (handle_str th)\<rparr>"

definition addChildEdge :: "libs \<Rightarrow> Position \<Rightarrow> string nullable \<Rightarrow> string \<Rightarrow> string nullable \<Rightarrow> rf_state \<Rightarrow> rf_state" where
  "addChildEdge L pos src tgt sh s =
     (case (src, sh) of
        (Val i, Val h) \<Rightarrow>
          if pos = PRight \<and> i \<noteq> [] \<and> tgt \<noteq> [] \<and> h \<noteq> [] then addEdge L (handle_conn i tgt (Val h) HEnd) s else s
      | _ \<Rightarrow> s)"

definition addEdgeFrom :: "libs \<Rightarrow> string nullable \<Rightarrow> string \<Rightarrow> NodeHandleId \<Rightarrow> NodeHandleId \<Rightarrow> rf_state \<Rightarrow> rf_state" where
  \<comment> \<open>\<open>if (nodeId) addEdge(...)\<close>\<close>
  "addEdgeFrom L nodeId tgt sh th s =
     (case nodeId of
        Val i \<Rightarrow> if i \<noteq> [] then addEdge L (handle_conn i tgt (Val (handle_str sh)) th) s else s
      | _ \<Rightarrow> s)"

definition GroupStartNode :: "(string \<times> string) \<Rightarrow> string \<Rightarrow> node" where
  \<comment> \<open>\<open>GroupStartNodeMap\<close>; \<open>startIds\<close> are the two ids made at load time\<close>
  "GroupStartNode startIds type =
     (let isIteration = (type = op_str OpIteration);
          lbl = (if isIteration then op_str OpIterationStart else op_str OpLoopStart)
      in \<lparr>nid = lbl @ '':'' @ (if isIteration then fst startIds else snd startIds),
          ntype = Some (if isIteration then ''iterationStartNode'' else ''loopStartNode''),
          position = \<lparr>px = 50, py = 100\<rparr>,
          ndata = \<lparr>label = lbl, nname = lbl,
                   form = Some (JObj (if isIteration then initialIterationStartValues else []))\<rparr>,
          parentId = None, width = None, height = None, selected = None, dragging = None,
          draggable = None, dragHandle = None, extent = Some ''parent''\<rparr>)"

definition addGroupNode ::
    "libs \<Rightarrow> (string \<times> string) \<Rightarrow> string \<Rightarrow> node \<Rightarrow> string nullable \<Rightarrow> rf_state \<Rightarrow> rf_state" where
  "addGroupNode L startIds operatorType newNode nodeId s =
     (let group = newNode\<lparr>width := Some 500, height := Some 250\<rparr>;
          startNode = (GroupStartNode startIds operatorType)\<lparr>parentId := Some (nid newNode)\<rparr>
      in addEdgeFrom L nodeId (nid newNode) HStart HEnd (addNode startNode (addNode group s)))"

definition addToolNode :: "libs \<Rightarrow> node \<Rightarrow> string nullable \<Rightarrow> rf_state \<Rightarrow> (rf_state \<times> bool)" where
  "addToolNode L newNode nodeId s =
     (case getNode nodeId s of
        None \<Rightarrow> (s, False)
      | Some agentNode \<Rightarrow>
          (let childToolNodeIds =
                 map target (filter (\<lambda>x. Val (source x) = nodeId \<and> has_handle (sourceHandle x) HTool) (edges s))
           in if childToolNodeIds \<noteq> [] \<and> list_ex (\<lambda>x. nid x = hd childToolNodeIds) (nodes s) then (s, False)
              else (addEdgeFrom L nodeId (nid newNode) HTool HEnd
                      (addNode (newNode\<lparr>position := \<lparr>px = px (position agentNode) - 82,
                                                   py = py (position agentNode) + 140\<rparr>\<rparr>) s), True)))"

definition resizeIterationNode :: "string \<Rightarrow> Position \<Rightarrow> string nullable \<Rightarrow> rf_state \<Rightarrow> rf_state" where
  "resizeIterationNode type pos parent s =
     (case getNode parent s of
        None \<Rightarrow> s
      | Some parentNode \<Rightarrow>
          if isBottomSubAgentType type pos then s
          else
            (let xs = map (\<lambda>x. px (position x)) (filter (\<lambda>x. opt_nullable (parentId x) = parent) (nodes s)) in
             if xs \<noteq> [] \<and> max_of xs + 310 > px (position parentNode)
             then updateNode (parentNode\<lparr>width := Some ((case width parentNode of None \<Rightarrow> 0 | Some w \<Rightarrow> w) + 310),
                    position := \<lparr>px = px (position parentNode) + 155, py = py (position parentNode)\<rparr>\<rparr>) s
             else s))"

section \<open>Adding a node\<close>

record add_params =
  ap_nodeId :: "string nullable"
  ap_position :: Position
  ap_handle :: "string nullable"          \<comment> \<open>\<open>params.id\<close>\<close>
  ap_fromDrag :: bool                     \<comment> \<open>\<open>isFromConnectionDrag\<close>\<close>

record add_env =
  humanId :: string
  startIds :: "string \<times> string"
  nodeBaseName :: string                  \<comment> \<open>\<open>getNodeName(type)\<close>\<close>
  translate :: "string \<Rightarrow> string"
  modelId :: jsval
  dropPosition :: "xy_position option"    \<comment> \<open>\<open>reactFlowInstance?.screenToFlowPosition(...)\<close>\<close>

definition new_node :: "add_env \<Rightarrow> string \<Rightarrow> add_params \<Rightarrow> rf_state \<Rightarrow> node" where
  "new_node env type params s =
     (let pos = (if ap_position params = PRight \<and> type \<noteq> op_str OpNote \<and> \<not> ap_fromDrag params
                 then Some (calculateNewlyBackChildPosition (ap_nodeId params) (ap_handle params) s)
                 else dropPosition env)
      in \<lparr>nid = type @ '':'' @ humanId env,
          ntype = Some (case operator_of type of None \<Rightarrow> ''ragNode'' | Some p \<Rightarrow> NodeMap p),
          position = (case pos of None \<Rightarrow> \<lparr>px = 0, py = 0\<rparr> | Some p \<Rightarrow> p),
          ndata = \<lparr>label = type, nname = generateNodeNamesWithIncreasingIndex (nodeBaseName env) (nodes s),
                   form = Some (initializeOperatorParams (translate env) (modelId env) type (ap_position params))\<rparr>,
          parentId = None, width = None, height = None, selected = None, dragging = None,
          draggable = (if type = op_str OpPlaceholder then Some False else None),
          dragHandle = getNodeDragHandle type, extent = None\<rparr>)"

definition place_in_group :: "string \<Rightarrow> add_params \<Rightarrow> node \<Rightarrow> rf_state \<Rightarrow> rf_state \<times> node" where
  \<comment> \<open>\<open>if (node && node.parentId)\<close>\<close>
  "place_in_group type params newNode s =
     (case getNode (ap_nodeId params) s of
        None \<Rightarrow> (s, newNode)
      | Some n \<Rightarrow>
          (case parentId n of
             None \<Rightarrow> (s, newNode)
           | Some p \<Rightarrow>
               if p = [] then (s, newNode)
               else (if getNode (Val p) s \<noteq> None \<and> \<not> isBottomSubAgentType type (ap_position params)
                     then resizeIterationNode type (ap_position params) (Val p) s else s,
                     newNode\<lparr>parentId := Some p, extent := Some ''parent''\<rparr>)))"

definition sub_agent_position :: "add_params \<Rightarrow> rf_state \<Rightarrow> rf_state \<Rightarrow> node \<Rightarrow> node" where
  \<comment> \<open>\<open>s\<close> is the state the handler has captured, \<open>s1\<close> the current one\<close>
  "sub_agent_position params s s1 newNode =
     (case getNode (ap_nodeId params) s1 of
        None \<Rightarrow> newNode
      | Some agentNode \<Rightarrow>
          (let xAxises = map (\<lambda>x. px (position x))
                 (child_nodes (ap_nodeId params) (Val (handle_str HAgentBottom)) s)
           in newNode\<lparr>position :=
                \<lparr>px = (if xAxises \<noteq> [] then max_of xAxises + 262 else px (position agentNode) + 82),
                 py = py (position agentNode) + 140\<rparr>\<rparr>))"

definition addCanvasNode :: "libs \<Rightarrow> add_env \<Rightarrow> string \<Rightarrow> add_params \<Rightarrow> rf_state \<Rightarrow> rf_state \<times> string option" where
  "addCanvasNode L env type params s =
     (let (s1, newNode) = place_in_group type params (new_node env type params s) s in
      if type = op_str OpIteration \<or> type = op_str OpLoop
      then (addGroupNode L (startIds env) type newNode (ap_nodeId params) s1, Some (nid newNode))
      else if type = op_str OpAgent \<and> ap_position params = PBottom
      then (addEdgeFrom L (ap_nodeId params) (nid newNode) HAgentBottom HAgentTop
              (addNode (sub_agent_position params s s1 newNode) s1), Some (nid newNode))
      else if type = op_str OpTool
      then (let (s2, added) = addToolNode L newNode (ap_nodeId params) s1
            in (s2, if added then Some (nid newNode) else None))
      else (addChildEdge L (ap_position params) (ap_nodeId params) (nid newNode) (ap_handle params) (addNode newNode s1),
            Some (nid newNode)))"

definition addNoteNode :: "libs \<Rightarrow> add_env \<Rightarrow> rf_state \<Rightarrow> rf_state" where
  "addNoteNode L env s =
     fst (addCanvasNode L env (op_str OpNote)
            \<lparr>ap_nodeId = Undefined, ap_position = PRight, ap_handle = Undefined, ap_fromDrag = False\<rparr> s)"

section \<open>The graph stays well formed\<close>

lemma wf_addNode: "wf_graph s \<Longrightarrow> nid n \<notin> set (node_ids s) \<Longrightarrow> wf_graph (addNode n s)"
  by (auto simp: addNode_def wf_graph_def distinct_ids_def edges_ok_def)

lemma addNode_frame: "node_ids (addNode n s) = node_ids s @ [nid n]" "edges_of (addNode n s) = edges_of s"
  by (simp_all add: addNode_def edges_of_def)

lemma updateNode_frame:
  "wf_graph (updateNode n s) = wf_graph s" "node_ids (updateNode n s) = node_ids s" "edges_of (updateNode n s) = edges_of s"
  unfolding updateNode_def by (rule replace_step.wf_map) (simp_all add: edges_of_def)

lemma resize_frame:
  "wf_graph (resizeIterationNode t p q s) = wf_graph s"
  "node_ids (resizeIterationNode t p q s) = node_ids s"
  "edges_of (resizeIterationNode t p q s) = edges_of s"
  by (simp_all add: resizeIterationNode_def Let_def updateNode_frame split: option.split)

lemma ids_connect: "node_ids (updateFormDataOnConnect L c s) = node_ids s"
  unfolding updateFormDataOnConnect_def by (simp add: switch_frame(4))

lemma place_frame:
  assumes "place_in_group type params n s = (s1, n1)"
  shows "wf_graph s1 = wf_graph s \<and> node_ids s1 = node_ids s \<and> edges_of s1 = edges_of s
     \<and> nid n1 = nid n \<and> ndata n1 = ndata n"
  using assms by (auto simp: place_in_group_def resize_frame split: option.splits if_splits)

definition grown :: "rf_state \<Rightarrow> bool" where
  "grown t = (wf_graph t \<and> acyclic (edges_of t))"

lemma grown_edge:
  assumes "xyflow_api L" and "grown t" and "i \<in> set (node_ids t)" "j \<in> set (node_ids t)" "i \<noteq> j"
    and "j \<notin> Domain (edges_of t)"
  shows "grown (addEdge L (handle_conn i j h th) t)"
proof -
  let ?c = "handle_conn i j h th"
  have c: "csource ?c = i" "ctarget ?c = j" by (simp_all add: handle_conn_def)
  have "wf_graph (addEdge L ?c t)"
    using wf_connect [OF assms(1), of t ?c] assms(2-4) c by (simp add: grown_def addEdge_def onConnect_def)
  moreover have "(j, i) \<notin> (edges_of t)\<^sup>*"
    using assms(5,6) by (blast elim: converse_rtranclE)
  then have "acyclic (insert (i, j) (edges_of t))"
    using assms(2) by (simp add: grown_def acyclic_insert)
  then have "acyclic (edges_of (addEdge L ?c t))"
    using edges_of_addEdge [OF assms(1), of ?c t] acyclic_subset c by metis
  ultimately show ?thesis by (simp add: grown_def)
qed

text \<open>A node to connect from: none, or a node of the graph.\<close>

definition anchor_ok :: "string nullable \<Rightarrow> rf_state \<Rightarrow> bool" where
  "anchor_ok i s = (case i of Val j \<Rightarrow> j = [] \<or> j \<in> set (node_ids s) | _ \<Rightarrow> True)"

lemma grown_edge_from:
  assumes "xyflow_api L" and "grown t" and "anchor_ok i s" and "set (node_ids s) \<subseteq> set (node_ids t)"
    and "j \<in> set (node_ids t)" "j \<notin> set (node_ids s)" and "j \<notin> Domain (edges_of t)"
  shows "grown (addEdgeFrom L i j sh th t)" and "grown (addChildEdge L p i j h t)"
proof -
  have e: "grown (addEdge L (handle_conn k j h' th') t)" if "k \<in> set (node_ids s)" for k h' th'
    using that assms(4-6) by (intro grown_edge [OF assms(1,2) _ assms(5) _ assms(7)]) blast+
  show "grown (addEdgeFrom L i j sh th t)"
    using assms(2,3) e by (cases i) (auto simp: addEdgeFrom_def anchor_ok_def simp del: set_map)
  show "grown (addChildEdge L p i j h t)"
    using assms(2,3) e by (cases i; cases h) (auto simp: addChildEdge_def anchor_ok_def simp del: set_map)
qed

lemma grown_addNode:
  "grown s \<Longrightarrow> nid n \<notin> set (node_ids s) \<Longrightarrow> grown (addNode n s)"
  by (simp add: grown_def wf_addNode addNode_frame)

lemma fresh_no_edge: "wf_graph s \<Longrightarrow> j \<notin> set (node_ids s) \<Longrightarrow> j \<notin> Domain (edges_of s)"
  by (auto simp: wf_graph_def edges_ok_def edges_of_def)

lemma grown_add_connected:
  assumes "xyflow_api L" and "grown s" and "anchor_ok i s" and "nid n \<notin> set (node_ids s)"
  shows "grown (addEdgeFrom L i (nid n) sh th (addNode n s))" and "grown (addChildEdge L p i (nid n) h (addNode n s))"
proof -
  have "nid n \<notin> Domain (edges_of (addNode n s))"
    using assms(2,4) fresh_no_edge by (simp add: grown_def addNode_frame)
  moreover have "set (node_ids s) \<subseteq> set (node_ids (addNode n s))" "nid n \<in> set (node_ids (addNode n s))"
    by (simp_all add: addNode_def) blast
  ultimately show "grown (addEdgeFrom L i (nid n) sh th (addNode n s))"
    "grown (addChildEdge L p i (nid n) h (addNode n s))"
    using grown_edge_from [OF assms(1) grown_addNode [OF assms(2,4)] assms(3)] assms(4) by blast+
qed

lemma grown_group:
  assumes "xyflow_api L" and "grown s" and "anchor_ok i s" and "nid n \<notin> set (node_ids s)"
    and "nid (GroupStartNode ids type) \<notin> set (node_ids s)" "nid (GroupStartNode ids type) \<noteq> nid n"
  shows "grown (addGroupNode L ids type n i s)"
proof -
  define g where "g = n\<lparr>width := Some 500, height := Some 250\<rparr>"
  define st where "st = (GroupStartNode ids type)\<lparr>parentId := Some (nid n)\<rparr>"
  have ids: "nid g = nid n" "nid st = nid (GroupStartNode ids type)" by (simp_all add: g_def st_def)
  define t where "t = addNode st (addNode g s)"
  have gt: "grown t"
    unfolding t_def using assms(2,4-6) ids by (intro grown_addNode) (simp_all add: addNode_def)
  have "nid n \<notin> Domain (edges_of t)"
    using assms(2,4) fresh_no_edge by (simp add: grown_def t_def addNode_frame)
  moreover have "set (node_ids s) \<subseteq> set (node_ids t)" "nid n \<in> set (node_ids t)"
    using ids by (auto simp: t_def addNode_def)
  ultimately have "grown (addEdgeFrom L i (nid n) HStart HEnd t)"
    using grown_edge_from(1) [OF assms(1) gt assms(3)] assms(4) by blast
  then show ?thesis by (simp add: addGroupNode_def g_def st_def t_def)
qed

lemma nid_new_node [simp]: "nid (new_node env type params s) = type @ '':'' @ humanId env"
  by (simp add: new_node_def Let_def)

lemma nid_sub_agent_position [simp]: "nid (sub_agent_position params s s1 n) = nid n"
  by (simp add: sub_agent_position_def Let_def split: option.splits)

text \<open>
  C8: adding a node of any type to a well-formed canvas without cycles, next to an existing node or
  on its own, keeps the canvas well formed and without cycles, whenever the random id is new; a
  group also needs the id of its start node to be unused.
\<close>

theorem addCanvasNode_keeps_graph:
  assumes L: "xyflow_api L" and wf: "wf_graph s" "acyclic (edges_of s)" and anchor: "anchor_ok (ap_nodeId params) s"
    and fresh: "type @ '':'' @ humanId env \<notin> set (node_ids s)"
    and start: "type = op_str OpIteration \<or> type = op_str OpLoop \<longrightarrow>
        nid (GroupStartNode (startIds env) type) \<notin> set (node_ids s)
        \<and> nid (GroupStartNode (startIds env) type) \<noteq> type @ '':'' @ humanId env"
  shows "wf_graph (fst (addCanvasNode L env type params s)) \<and> acyclic (edges_of (fst (addCanvasNode L env type params s)))"
proof -
  obtain s1 n where p: "place_in_group type params (new_node env type params s) s = (s1, n)"
    by (cases "place_in_group type params (new_node env type params s) s")
  note fr = place_frame [OF p]
  have n: "nid n = type @ '':'' @ humanId env" using fr by simp
  have s1: "grown s1" using fr wf by (simp add: grown_def)
  have "anchor_ok i s1 = anchor_ok i s" for i using fr unfolding anchor_ok_def by metis
  then have anc: "anchor_ok (ap_nodeId params) s1" using anchor by simp
  have new: "nid n \<notin> set (node_ids s1)" using fr n fresh by simp
  define sub where "sub = sub_agent_position params s s1 n"
  have sub: "nid sub = nid n" by (simp add: sub_def)
  have "grown (fst (addToolNode L n (ap_nodeId params) s1))"
    using s1 grown_add_connected(1) [OF L s1 anc, of "n\<lparr>position := _\<rparr>"] new
    by (auto simp: addToolNode_def Let_def split: option.splits)
  moreover have "grown (addGroupNode L (startIds env) type n (ap_nodeId params) s1)"
    if "type = op_str OpIteration \<or> type = op_str OpLoop"
    using that start fr n by (intro grown_group [OF L s1 anc new]) simp_all
  moreover have "grown (addEdgeFrom L (ap_nodeId params) (nid n) HAgentBottom HAgentTop (addNode sub s1))"
    using grown_add_connected(1) [OF L s1 anc, of sub HAgentBottom HAgentTop] new sub by simp
  moreover have "grown (addChildEdge L (ap_position params) (ap_nodeId params) (nid n) (ap_handle params) (addNode n s1))"
    by (rule grown_add_connected(2) [OF L s1 anc new])
  ultimately have "grown (fst (addCanvasNode L env type params s))"
    unfolding addCanvasNode_def p by (simp add: sub_def split_def Let_def)
  then show ?thesis by (simp add: grown_def)
qed

definition add_example_env :: add_env where
  "add_example_env = \<lparr>humanId = ''BigCatsJump'', startIds = (''OldDogsRun'', ''NewFishSwim''), nodeBaseName = ''Agent'',
     translate = (\<lambda>k. k), modelId = JStr ''m'', dropPosition = None\<rparr>"

definition add_example_params :: add_params where
  "add_example_params = \<lparr>ap_nodeId = Val ''begin'', ap_position = PRight, ap_handle = Val ''start'', ap_fromDrag = False\<rparr>"

definition begin_state :: rf_state where
  "begin_state = mk_state [mk_node ''begin'' ''Begin'' ''begin'' (JObj []) None] []"

lemma begin_state_ok: "wf_graph begin_state" "acyclic (edges_of begin_state)" "anchor_ok (ap_nodeId add_example_params) begin_state"
  by (simp_all add: begin_state_def mk_state_def mk_node_def wf_graph_def distinct_ids_def edges_ok_def edges_of_def
      acyclic_def anchor_ok_def add_example_params_def)

theorem addCanvasNode_keeps_graph_witness:
  "wf_graph (fst (addCanvasNode ref_libs add_example_env (op_str OpIteration) add_example_params begin_state))
   \<and> snd (addCanvasNode ref_libs add_example_env (op_str OpIteration) add_example_params begin_state) = Some ''Iteration:BigCatsJump''"
proof -
  have "snd (addCanvasNode ref_libs add_example_env (op_str OpIteration) add_example_params begin_state) = Some ''Iteration:BigCatsJump''"
    by (simp add: addCanvasNode_def place_in_group_def new_node_def Let_def add_example_env_def split: option.splits prod.splits)
  moreover have "wf_graph (fst (addCanvasNode ref_libs add_example_env (op_str OpIteration) add_example_params begin_state))"
    by (rule addCanvasNode_keeps_graph [OF ref.xyflow_api_axioms begin_state_ok, THEN conjunct1])
      (simp_all add: begin_state_def mk_state_def mk_node_def add_example_env_def GroupStartNode_def Let_def)
  ultimately show ?thesis by blast
qed

text \<open>
  The start node of every iteration carries the id made when the module was loaded, so
  adding a second iteration leaves two nodes with one id on the canvas; the same holds for loops.
\<close>

theorem second_group_repeats_id:
  assumes "type = op_str OpIteration \<or> type = op_str OpLoop"
    and "nid (GroupStartNode (startIds env) type) \<in> set (node_ids s)"
  shows "\<not> distinct_ids (fst (addCanvasNode L env type params s))"
proof -
  obtain s1 n where p: "place_in_group type params (new_node env type params s) s = (s1, n)"
    by (cases "place_in_group type params (new_node env type params s) s")
  define t where "t = addNode ((GroupStartNode (startIds env) type)\<lparr>parentId := Some (nid n)\<rparr>)
      (addNode (n\<lparr>width := Some 500, height := Some 250\<rparr>) s1)"
  have "\<not> distinct_ids t"
    using place_frame [OF p] assms(2) by (auto simp: t_def addNode_def distinct_ids_def)
  moreover have "distinct_ids (addEdgeFrom L i j sh th u) = distinct_ids u" for i j sh th u
    by (simp add: addEdgeFrom_def addEdge_def ids_connect distinct_ids_def split: nullable.splits)
  ultimately show ?thesis using assms(1) p
    by (auto simp: addCanvasNode_def addGroupNode_def t_def)
qed

theorem second_group_repeats_id_witness:
  "\<not> distinct_ids (fst (addCanvasNode ref_libs (add_example_env\<lparr>humanId := ''TwoHensSing''\<rparr>) (op_str OpIteration) add_example_params
      (mk_state [mk_node ''IterationItem:OldDogsRun'' ''IterationItem'' ''IterationItem'' (JObj []) (Some ''Iteration:BigCatsJump'')] [])))"
  by (rule second_group_repeats_id) (simp_all add: add_example_env_def GroupStartNode_def Let_def mk_state_def mk_node_def)

section \<open>A new node can be saved\<close>

lemma initial_agent_tools:
  assumes "initializeOperatorParams tr llmId (op_str OpAgent) pos = JObj f"
  shows "obj_get (spread (JObj f)) ''tools'' = JArr []"
proof -
  have d: "distinct (keys initialLlmBaseValues)"
    by (simp add: initialLlmBaseValues_def distinct_keys_obj_assign variableCheckBoxFieldMap_def
        obj_of_entries_def flip: obj_assign_def)
  define g where "g = obj_assign (initialAgentValues tr) [(''llm_id'', llmId)]"
  have dg: "distinct (keys g)"
    by (simp add: g_def initialAgentValues_def d distinct_keys_obj_assign)
  have g: "obj_get g ''tools'' = JArr []"
    by (simp add: g_def initialAgentValues_def obj_get_assign)
  have f: "f = g \<or> f = obj_assign (spread (JObj g)) [(''description'', JStr (tr ''flow.descriptionMessage'')),
              (''user_prompt'', JStr (tr ''flow.userPromptDefaultValue''))]"
    using assms unfolding initializeOperatorParams_def operator_of_str Let_def option.case g_def
    by (auto split: if_splits)
  then have "distinct (keys f)" using dg by (auto simp: spread_def distinct_keys_obj_assign)
  then show ?thesis using f g dg by (auto simp: obj_get_spread obj_get_assign)
qed

lemma initial_form_plain:
  "p \<noteq> OpAgent \<Longrightarrow> p \<noteq> OpTool \<Longrightarrow>
     initializeOperatorParams tr llmId (op_str p) pos = JObj (initialFormValuesMap tr llmId p)"
  by (cases p) (simp_all add: initializeOperatorParams_def isBottomSubAgentType_def operator_of_def all_operators_def Let_def)

lemma initial_parser_ok: "\<exists>ps. transformParserParams initialParserValues = Inr ps"
proof -
  have "isl (transformParserParams initialParserValues) = False" by code_simp
  then show ?thesis by (cases "transformParserParams initialParserValues") simp_all
qed

lemma initial_splitter_ok: "\<exists>ps. transformSplitterParams L initialSplitterValues = Inr ps"
  by (simp add: transformSplitterParams_def initialSplitterValues_def transformObjectArrayToPureArray_def Let_def)

lemma initial_merger_ok: "\<exists>ps. transformHierarchicalMergerParams L initialHierarchicalMergerValues = Inr ps"
  by (simp add: transformHierarchicalMergerParams_def initialHierarchicalMergerValues_def js_map_def
      transformObjectArrayToPureArray_def)

lemma initial_data_operations_ok: "\<exists>ps. transformDataOperationsParams initialDataOperationsValues = Inr ps"
  by (simp add: transformDataOperationsParams_def initialDataOperationsValues_def js_map_def js_opt_map_def)

lemma initial_begin_ok: "\<exists>ps. transformBeginParams initialBeginValues = Inr ps"
  by (simp add: transformBeginParams_def initialBeginValues_def)

lemma initial_categorize_items:
  "obj_get (spread (JObj (initialFormValuesMap tr llmId OpCategorize))) ''items'' = JArr []"
proof -
  have "distinct (keys (initialFormValuesMap tr llmId OpCategorize))"
    by (simp add: initialCategorizeValues_def initialLlmBaseValues_def distinct_keys_obj_assign variableCheckBoxFieldMap_def
        obj_of_entries_def flip: obj_assign_def)
  then show ?thesis
    by (simp add: obj_get_spread obj_get_assign initialCategorizeValues_def)
qed

text \<open>
  C22: the form that every operator starts with can be turned into a component of the DSL: for a
  new node of any type, wherever it was attached, building its component does not throw.
\<close>

theorem new_node_can_be_saved:
  assumes "distinct (map nid ns)" and "x \<in> set ns" and "nlabel x = op_str p"
    and "node_form x = Some (initializeOperatorParams tr llmId (op_str p) pos)"
    and "subAgentIds es (nid x) = []"
  shows "\<exists>c. build_component (Suc depth) L ns es old x = Inr c"
proof -
  have find: "find (\<lambda>y. nid y = nid x) ns = Some x" using find_distinct_key [OF assms(1,2)] by simp
  obtain f where f: "initializeOperatorParams tr llmId (op_str p) pos = JObj f"
    unfolding initializeOperatorParams_def operator_of_str Let_def option.case by (metis (full_types))
  have form: "form_or_empty x = JObj f" using assms(4) f by (simp add: form_or_empty_def js_coalesce_def)
  have init: "f = initialFormValuesMap tr llmId p" if "p \<noteq> OpAgent" "p \<noteq> OpTool"
    using f initial_form_plain [OF that] by simp
  note defs = operator_params_def Let_def form assms(3) find
  have "\<exists>ps. operator_params (Suc depth) L es ns x = Inr ps"
  proof (cases p)
    case OpAgent
    then have "obj_get (spread (JObj f)) ''tools'' = JArr []" using initial_agent_tools f by blast
    then show ?thesis using OpAgent assms(5) by (simp add: defs)
  next
    case OpCategorize
    then have "obj_get (spread (JObj f)) ''items'' = JArr []"
      using initial_categorize_items init by simp
    then show ?thesis using OpCategorize by (simp add: defs buildCategorize_def js_or_def)
  next
    case OpParser
    then show ?thesis using initial_parser_ok init by (auto simp: defs)
  next
    case OpSplitter
    then show ?thesis using initial_splitter_ok init by (auto simp: defs)
  next
    case OpHierarchicalMerger
    then show ?thesis using initial_merger_ok init by (auto simp: defs)
  next
    case OpDataOperations
    then show ?thesis using initial_data_operations_ok init by (auto simp: defs)
  next
    case OpBegin
    then show ?thesis using initial_begin_ok init by (auto simp: defs)
  qed (simp_all add: defs)
  then show ?thesis by (auto simp: build_component_def)
qed

theorem new_node_can_be_saved_witness:
  "\<exists>c. build_component (Suc 0) ref_libs
     [new_node add_example_env (op_str OpParser) add_example_params begin_state] [] []
     (new_node add_example_env (op_str OpParser) add_example_params begin_state) = Inr c"
  by (rule new_node_can_be_saved [where p = OpParser and tr = "translate add_example_env" and
        llmId = "modelId add_example_env" and pos = "ap_position add_example_params"])
    (simp_all add: new_node_def Let_def subAgentIds_def)

end
