(* ===== verification/Chat_Messages.thy ===== *)
theory Chat_Messages
  imports Third_Party
begin

text \<open>
  The list of messages of a conversation: \<open>utils/chat.ts\<close>, and \<open>useSelectDerivedMessages\<close>,
  \<open>useRemoveMessagesAfterCurrentMessage\<close>, \<open>useRegenerateMessage\<close> and
  \<open>useHandleMessageInputChange\<close> of \<open>hooks/logic-hooks.ts\<close>. A message is an object; every state
  updater is a function from the list to the next list. The generated uuids are arguments.
\<close>

type_synonym message = "jsval obj"

section \<open>Ids\<close>

abbreviation msg_id :: "message \<Rightarrow> jsval" where
  "msg_id m \<equiv> obj_get m ''id''"

definition isConversationIdExist :: "string \<Rightarrow> bool" where
  "isConversationIdExist conversationId = (conversationId \<noteq> ''empty'' \<and> conversationId \<noteq> [])"

definition buildMessageUuid :: "string \<Rightarrow> message \<Rightarrow> jsval" where
  "buildMessageUuid uuid m = (if truthy (msg_id m) then msg_id m else JStr uuid)"

definition buildMessageListWithUuid :: "libs \<Rightarrow> (nat \<Rightarrow> string) \<Rightarrow> message list option \<Rightarrow> message list" where
  "buildMessageListWithUuid L uuids messages =
     (case messages of
        None \<Rightarrow> []
      | Some ms \<Rightarrow> map (\<lambda>(i, x). obj_put ''id'' (buildMessageUuid (uuids i) x) (lodash_omit L x [''reference'']))
                   (enumerate 0 ms))"

definition generateConversationId :: "string \<Rightarrow> string" where
  "generateConversationId uuid = filter (\<lambda>c. c \<noteq> CHR ''-'') uuid"

definition buildMessageUuidWithRole :: "message \<Rightarrow> string" where
  "buildMessageUuidWithRole m = js_to_string (obj_get m ''role'') @ ''_'' @ js_to_string (msg_id m)"

section \<open>Text\<close>

text \<open>The part before and the part after the first occurrence of a pattern.\<close>

fun split_first :: "string \<Rightarrow> string \<Rightarrow> (string \<times> string) option" where
  "split_first p [] = (if p = [] then Some ([], []) else None)"
| "split_first p (c # cs) =
     (if starts_with (c # cs) p then Some ([], drop (length p) (c # cs))
      else map_option (\<lambda>(a, b). (c # a, b)) (split_first p cs))"

lemma split_first_Some: "split_first p s = Some (a, b) \<Longrightarrow> s = a @ p @ b"
  by (induction s arbitrary: a) (auto simp: starts_with_iff split: if_splits)

text \<open>\<open>text.replace(/<think>([\s\S]*?)<\/think>/g, '<section class="think">$1</section>')\<close>\<close>

definition section_open :: string where
  "section_open = ''<section class='' @ [CHR 0x22] @ ''think'' @ [CHR 0x22] @ ''>''"

function replaceThinkToSection :: "string \<Rightarrow> string" where
  "replaceThinkToSection text =
     (case split_first ''<think>'' text of
        None \<Rightarrow> text
      | Some (before, rest) \<Rightarrow>
          (case split_first ''</think>'' rest of
             None \<Rightarrow> text
           | Some (body, after) \<Rightarrow> before @ section_open @ body @ ''</section>'' @ replaceThinkToSection after))"
  by pat_completeness auto

termination
  by (relation "measure length") (auto dest!: split_first_Some)

text \<open>\<open>s.replaceAll(p, r)\<close> for a non-empty pattern.\<close>

function js_replace_all :: "string \<Rightarrow> string \<Rightarrow> string \<Rightarrow> string" where
  "js_replace_all p r s =
     (if p = [] then s
      else case split_first p s of
             None \<Rightarrow> s
           | Some (before, after) \<Rightarrow> before @ r @ js_replace_all p r after)"
  by pat_completeness auto

termination
  by (relation "measure (\<lambda>(p, r, s). length s)") (auto dest!: split_first_Some)

declare replaceThinkToSection.simps [simp del] js_replace_all.simps [simp del]

definition handleInputChange :: "string \<Rightarrow> string" where
  "handleInputChange val =
     js_replace_all [CHR 0x5C, CHR ''t''] [CHR 0x09] (js_replace_all [CHR 0x5C, CHR ''n''] [CHR 0x0A] val)"

definition showImage :: "string option \<Rightarrow> bool" where
  "showImage filed = (filed = Some ''image'' \<or> filed = Some ''table'')"

section \<open>State updaters\<close>

definition addNewestQuestion :: "string \<Rightarrow> string \<Rightarrow> message \<Rightarrow> string \<Rightarrow> message list \<Rightarrow> message list" where
  "addNewestQuestion u1 u2 m answer pre =
     pre @ [obj_put ''id'' (buildMessageUuid u1 m) m,
            [(''role'', JStr ''assistant''), (''content'', JStr answer),
             (''conversationId'', obj_get m ''conversationId''),
             (''id'', buildMessageUuid u2 (obj_put ''role'' (JStr ''assistant'') m))]]"

definition addNewestOneQuestion :: "string \<Rightarrow> message \<Rightarrow> message list \<Rightarrow> message list" where
  "addNewestOneQuestion u m pre = pre @ [obj_put ''id'' (buildMessageUuid u m) m]"

definition answer_message :: "libs \<Rightarrow> string \<Rightarrow> jsval obj \<Rightarrow> message" where
  "answer_message L u answer =
     obj_assign
       [(''role'', JStr ''assistant''), (''content'', obj_get answer ''answer''),
        (''reference'', obj_get answer ''reference''),
        (''id'', buildMessageUuid u [(''id'', msg_id answer), (''role'', JStr ''assistant'')]),
        (''prompt'', obj_get answer ''prompt''), (''audio_binary'', obj_get answer ''audio_binary'')]
       (lodash_omit L answer [''reference''])"

definition addNewestAnswer :: "libs \<Rightarrow> string \<Rightarrow> jsval obj \<Rightarrow> message list \<Rightarrow> message list" where
  "addNewestAnswer L u answer pre = butlast pre @ [answer_message L u answer]"

definition addNewestOneAnswer :: "libs \<Rightarrow> string \<Rightarrow> jsval obj \<Rightarrow> message list \<Rightarrow> message list" where
  "addNewestOneAnswer L u answer pre =
     (case find_index (\<lambda>x. msg_id x = msg_id answer) pre of
        Some _ \<Rightarrow> map (\<lambda>x. if msg_id x = msg_id answer
                          then obj_put ''content'' (obj_get answer ''answer'') (obj_assign x answer) else x) pre
      | None \<Rightarrow> pre @ [answer_message L u answer])"

definition addPrologue :: "string \<Rightarrow> string \<Rightarrow> message list \<Rightarrow> message list" where
  "addPrologue u prologue pre =
     (case pre of
        m # rest \<Rightarrow> obj_put ''content'' (JStr prologue) m # rest
      | [] \<Rightarrow> [[(''role'', JStr ''assistant''), (''content'', JStr prologue),
                (''id'', buildMessageUuid u [(''role'', JStr ''assistant'')])]])"

definition removeLatestMessage :: "message list \<Rightarrow> message list" where
  \<comment> \<open>\<open>pre.slice(0, -2)\<close>\<close>
  "removeLatestMessage pre = take (length pre - 2) pre"

definition removeMessageById :: "string \<Rightarrow> message list \<Rightarrow> message list" where
  "removeMessageById messageId pre = filter (\<lambda>x. msg_id x \<noteq> JStr messageId) pre"

definition clear_answer :: "message \<Rightarrow> message" where
  "clear_answer m = obj_assign m [(''content'', JStr []), (''reference'', JUndef), (''prompt'', JUndef)]"

definition clear_last :: "message list \<Rightarrow> message list" where
  "clear_last ms = (if ms = [] then ms else butlast ms @ [clear_answer (last ms)])"

definition removeMessagesAfterCurrentMessage :: "string \<Rightarrow> message list \<Rightarrow> message list" where
  "removeMessagesAfterCurrentMessage messageId pre =
     (case find_index (\<lambda>x. msg_id x = JStr messageId) pre of
        None \<Rightarrow> pre
      | Some index \<Rightarrow> clear_last (take (index + 2) pre))"

text \<open>
  The same on a conversation object (\<open>useRemoveMessagesAfterCurrentMessage\<close>). Without a message
  list the index is \<open>undefined\<close>, which is not -1, and the list becomes empty.
\<close>

definition removeMessagesAfterInConversation :: "string \<Rightarrow> message list option \<Rightarrow> message list option" where
  "removeMessagesAfterInConversation messageId ms =
     (case ms of None \<Rightarrow> Some [] | Some pre \<Rightarrow> Some (removeMessagesAfterCurrentMessage messageId pre))"

definition removeAllMessages :: "message list \<Rightarrow> message list" where
  "removeAllMessages pre = []"

definition removeAllMessagesExceptFirst :: "message list \<Rightarrow> message list" where
  "removeAllMessagesExceptFirst lst = (if length lst \<le> 1 then lst else take 1 lst)"

text \<open>
  What \<open>regenerateMessage\<close> does: the next list, and the message and history that are sent.
\<close>

definition regenerateMessage ::
    "string \<Rightarrow> message \<Rightarrow> message list \<Rightarrow> (message list \<times> message \<times> message list option) option" where
  "regenerateMessage uuid m messages =
     (case msg_id m of
        JStr i \<Rightarrow>
          if i = [] then None
          else Some (removeMessagesAfterCurrentMessage i messages,
                     obj_put ''id'' (JStr uuid) m,
                     map_option (\<lambda>k. take k messages) (find_index (\<lambda>x. msg_id x = msg_id m) messages))
      | _ \<Rightarrow> None)"

section \<open>A question and its streamed answer\<close>

lemma msg_id_answer:
  assumes "lodash_api L" and "distinct (keys answer)" and "truthy (msg_id answer)"
  shows "msg_id (answer_message L u answer) = msg_id answer"
proof -
  have k: "''id'' \<in> set (keys answer)" using assms(3) obj_get_missing [of "''id''" answer] by force
  have o: "lodash_omit L answer [''reference''] = filter (\<lambda>kv. fst kv \<notin> set [''reference'']) answer"
    by (rule lodash_api.omit [OF assms(1)]) simp
  have "distinct (keys (lodash_omit L answer [''reference'']))"
    using assms(2) by (simp add: o keys_def distinct_map_filter')
  moreover have "''id'' \<in> set (keys (lodash_omit L answer [''reference'']))"
    using k by (auto simp: o keys_def)
  ultimately show ?thesis
    by (simp add: answer_message_def obj_get_assign lodash_api.omit_get [OF assms(1)])
qed

lemma content_of_new_answer:
  assumes "lodash_api L" and "distinct (keys a)" and "''content'' \<notin> set (keys a)"
  shows "obj_get (answer_message L u a) ''content'' = obj_get a ''answer''"
proof -
  have o: "lodash_omit L a [''reference''] = filter (\<lambda>kv. fst kv \<notin> set [''reference'']) a"
    by (rule lodash_api.omit [OF assms(1)]) simp
  have "distinct (keys (lodash_omit L a [''reference'']))" "''content'' \<notin> set (keys (lodash_omit L a [''reference'']))"
    using assms(2,3) by (auto simp: o keys_def distinct_map_filter')
  then show ?thesis by (simp add: answer_message_def obj_get_assign)
qed

definition answers_question :: "string \<Rightarrow> jsval obj \<Rightarrow> bool" where
  "answers_question q a = (distinct (keys a) \<and> msg_id a = JStr q)"

lemma stream_answers:
  assumes "lodash_api L" and "q \<noteq> []" and "\<forall>a\<in>set as. answers_question q a" and "as \<noteq> []"
  shows "fold (\<lambda>a. addNewestAnswer L u a) as (ms @ [p]) = ms @ [answer_message L u (last as)]"
  using assms(4)
proof (induction as arbitrary: p)
  case (Cons a as)
  then show ?case by (cases "as = []") (simp_all add: addNewestAnswer_def)
qed simp

text \<open>
  C28: a question asked with a new id is followed by its answer, whatever number of stream events
  arrive: the list grows by exactly two messages, the second one has the content of the latest event,
  and removing the question's id removes the pair and restores the list.
\<close>

theorem chat_pair_roundtrip:
  assumes L: "lodash_api L" and q: "q \<noteq> []" "msg_id m = JStr q"
    and new: "\<forall>x\<in>set ms. msg_id x \<noteq> JStr q"
    and ans: "\<forall>a\<in>set as. answers_question q a" "as \<noteq> []"
  shows "\<exists>question reply. fold (\<lambda>a. addNewestAnswer L u a) as (addNewestQuestion u1 u2 m answer ms) = ms @ [question, reply]
     \<and> msg_id question = JStr q \<and> msg_id reply = JStr q
     \<and> (''content'' \<notin> set (keys (last as)) \<longrightarrow> obj_get reply ''content'' = obj_get (last as) ''answer'')
     \<and> removeMessageById q (ms @ [question, reply]) = ms"
proof -
  define question where "question = obj_put ''id'' (buildMessageUuid u1 m) m"
  define reply where "reply = answer_message L u (last as)"
  have a: "distinct (keys (last as))" "msg_id (last as) = JStr q"
    using ans by (auto simp: answers_question_def)
  have "fold (\<lambda>a. addNewestAnswer L u a) as (addNewestQuestion u1 u2 m answer ms) = ms @ [question, reply]"
    using stream_answers [OF L q(1) ans, of u "ms @ [question]"]
    by (simp add: addNewestQuestion_def question_def reply_def)
  moreover have iq: "msg_id question = JStr q" using q by (simp add: question_def buildMessageUuid_def)
  moreover have ir: "msg_id reply = JStr q" using msg_id_answer [OF L a(1)] a(2) q(1) by (simp add: reply_def)
  moreover have "obj_get reply ''content'' = obj_get (last as) ''answer''" if "''content'' \<notin> set (keys (last as))"
    unfolding reply_def by (rule content_of_new_answer [OF L a(1) that])
  moreover have "removeMessageById q (ms @ [question, reply]) = ms"
    using new iq ir by (simp add: removeMessageById_def filter_id_conv)
  ultimately show ?thesis by blast
qed

theorem chat_pair_roundtrip_witness:
  "\<exists>question reply. fold (\<lambda>a. addNewestAnswer ref_libs ''u'' a)
      [[(''id'', JStr ''q''), (''answer'', JStr ''He'')], [(''id'', JStr ''q''), (''answer'', JStr ''Hello'')]]
      (addNewestQuestion ''u1'' ''u2'' [(''id'', JStr ''q''), (''content'', JStr ''Hi'')] [] []) = [question, reply]
     \<and> obj_get reply ''content'' = JStr ''Hello'' \<and> removeMessageById ''q'' [question, reply] = []"
  using chat_pair_roundtrip [OF ref.lodash_api_axioms, of "''q''" "[(''id'', JStr ''q''), (''content'', JStr ''Hi'')]" "[]"
      "[[(''id'', JStr ''q''), (''answer'', JStr ''He'')], [(''id'', JStr ''q''), (''answer'', JStr ''Hello'')]]"
      "''u''" "''u1''" "''u2''" "[]"]
  by (simp add: answers_question_def) blast

text \<open>
  When sending to an agent fails before any answer has arrived, taking back the question removes
  one message too many: the question is a single message, the updater drops the last two.
\<close>

theorem agent_question_undo_drops_answer:
  "removeLatestMessage (addNewestOneQuestion u m ms) = butlast ms
   \<and> removeLatestMessage (addNewestQuestion u u2 m answer ms) = ms"
  by (simp add: removeLatestMessage_def addNewestOneQuestion_def addNewestQuestion_def butlast_conv_take)

text \<open>
  An answer of an agent is stored once: when it arrives again, or grows, the stored message is
  updated in place and the list keeps its length; the messages with other ids never change.
\<close>

theorem agent_answer_upsert:
  assumes "lodash_api L" and "distinct (keys a)" "distinct (keys b)" and "truthy (msg_id a)" and "msg_id b = msg_id a"
  shows "length (addNewestOneAnswer L u b (addNewestOneAnswer L u a ms)) = length (addNewestOneAnswer L u a ms)
     \<and> filter (\<lambda>x. msg_id x \<noteq> msg_id a) (addNewestOneAnswer L u b (addNewestOneAnswer L u a ms))
         = filter (\<lambda>x. msg_id x \<noteq> msg_id a) ms
     \<and> (\<forall>x\<in>set (addNewestOneAnswer L u b (addNewestOneAnswer L u a ms)).
          msg_id x = msg_id a \<longrightarrow> obj_get x ''content'' = obj_get b ''answer'')"
proof -
  have upd: "msg_id (obj_put ''content'' v (obj_assign x y)) = msg_id a"
    if "msg_id y = msg_id a" "distinct (keys y)" for v x y
  proof -
    have "''id'' \<in> set (keys y)" using assms(4) that(1) obj_get_missing [of "''id''" y] by force
    with that show ?thesis by (simp add: obj_get_assign)
  qed
  define f where "f y = (\<lambda>x. if msg_id x = msg_id y
      then obj_put ''content'' (obj_get y ''answer'') (obj_assign x y) else x)" for y
  have fid: "msg_id (f y x) = msg_id x" if "msg_id y = msg_id a" "distinct (keys y)" for x y
    using upd [OF that] that(1) by (simp add: f_def)
  have other: "filter (\<lambda>x. msg_id x \<noteq> msg_id a) (map (f y) l) = filter (\<lambda>x. msg_id x \<noteq> msg_id a) l"
    if "msg_id y = msg_id a" "distinct (keys y)" for y l
    using that by (induction l) (auto simp: fid, auto simp: f_def)
  define s1 where "s1 = addNewestOneAnswer L u a ms"
  have s1: "filter (\<lambda>x. msg_id x \<noteq> msg_id a) s1 = filter (\<lambda>x. msg_id x \<noteq> msg_id a) ms"
    "\<exists>x\<in>set s1. msg_id x = msg_id a"
  proof -
    consider (old) i where "find_index (\<lambda>x. msg_id x = msg_id a) ms = Some i" "s1 = map (f a) ms"
      | (new) "find_index (\<lambda>x. msg_id x = msg_id a) ms = None" "s1 = ms @ [answer_message L u a]"
      by (auto simp: s1_def addNewestOneAnswer_def f_def split: option.splits)
    then have "filter (\<lambda>x. msg_id x \<noteq> msg_id a) s1 = filter (\<lambda>x. msg_id x \<noteq> msg_id a) ms
       \<and> (\<exists>x\<in>set s1. msg_id x = msg_id a)"
    proof cases
      case old
      then have "i < length ms" "msg_id (ms ! i) = msg_id a" using find_index_Some [OF old(1)] by simp_all
      then show ?thesis using old(2) other [OF refl assms(2)] fid [OF refl assms(2)] nth_mem by fastforce
    next
      case new
      then show ?thesis using msg_id_answer [OF assms(1,2,4)] by simp
    qed
    then show "filter (\<lambda>x. msg_id x \<noteq> msg_id a) s1 = filter (\<lambda>x. msg_id x \<noteq> msg_id a) ms"
      "\<exists>x\<in>set s1. msg_id x = msg_id a" by blast+
  qed
  have "find_index (\<lambda>x. msg_id x = msg_id b) s1 \<noteq> None" using s1(2) assms(5) by (simp add: find_index_None)
  then have s2: "addNewestOneAnswer L u b s1 = map (f b) s1"
    by (auto simp: addNewestOneAnswer_def f_def)
  have "obj_get (f b x) ''content'' = obj_get b ''answer''" if "msg_id (f b x) = msg_id a" for x
    using that fid [OF assms(5,3), of x] assms(5) by (simp add: f_def)
  then show ?thesis using s1(1) other [OF assms(5,3), of s1] unfolding s1_def [symmetric] s2 by auto
qed

theorem agent_answer_upsert_witness:
  "length (addNewestOneAnswer ref_libs ''u'' [(''id'', JStr ''a''), (''answer'', JStr ''Hello'')]
     (addNewestOneAnswer ref_libs ''u'' [(''id'', JStr ''a''), (''answer'', JStr ''He'')] [])) = 1"
proof -
  have "length (addNewestOneAnswer ref_libs ''u'' [(''id'', JStr ''a''), (''answer'', JStr ''He'')] []) = 1"
    by (simp add: addNewestOneAnswer_def)
  then show ?thesis
    using agent_answer_upsert [OF ref.lodash_api_axioms, of "[(''id'', JStr ''a''), (''answer'', JStr ''He'')]"
        "[(''id'', JStr ''a''), (''answer'', JStr ''Hello'')]" "''u''" "[]"] by simp
qed

text \<open>
  Regenerating a question keeps everything up to and including its answer, which is emptied, and
  sends the messages before the question.
\<close>

lemma regenerate_result:
  assumes "msg_id m = JStr q" "q \<noteq> []" and "find_index (\<lambda>x. msg_id x = JStr q) messages = Some k" and "k + 1 < length messages"
  shows "regenerateMessage u m messages =
     Some (take (k + 1) messages @ [clear_answer (messages ! (k + 1))], obj_put ''id'' (JStr u) m, Some (take k messages))"
proof -
  have t: "take (k + 2) messages = take (k + 1) messages @ [messages ! (k + 1)]"
    using take_Suc_conv_app_nth [OF assms(4)] by simp
  have "clear_last (take (k + 2) messages) = take (k + 1) messages @ [clear_answer (messages ! (k + 1))]"
    unfolding t clear_last_def by simp
  then show ?thesis
    using assms(1-3) by (simp add: regenerateMessage_def removeMessagesAfterCurrentMessage_def)
qed

end
