(* ===== verification/Chat_Stream.thy ===== *)
theory Chat_Stream
  imports Chat_Messages
begin

text \<open>
  Streamed answers: the reading loops of \<open>hooks/logic-hooks.ts\<close> (\<open>useSendMessageWithSse\<close>) and
  \<open>hooks/use-send-message.ts\<close> (\<open>useSendMessageBySSE\<close>), and what the agent chat makes of the events
  (\<open>pages/agent/chat/use-send-agent-message.ts\<close>).

  The outcomes of the successive reads are a function from the number of the read. The loop has
  no bound of its own, so it takes fuel; \<open>None\<close> means that the loop is still running. An error that
  a state updater raises is the outcome of the call.
\<close>

section \<open>The reading loop\<close>

datatype read_result =
    NoValue                  \<comment> \<open>\<open>reader?.read()\<close> without a reader gives \<open>undefined\<close>\<close>
  | EndOfStream
  | Event "jsval option"     \<comment> \<open>\<open>None\<close>: the data is not JSON\<close>
  | AbortError
  | ReadFailure              \<comment> \<open>any other exception\<close>

fun read_loop :: "nat \<Rightarrow> (nat \<Rightarrow> read_result) \<Rightarrow> nat \<Rightarrow> (jsval \<Rightarrow> 'a \<Rightarrow> 'a res) \<Rightarrow> 'a \<Rightarrow> 'a res option" where
  "read_loop 0 reads i step s = None"
| "read_loop (Suc fuel) reads i step s =
     (case reads i of
        EndOfStream \<Rightarrow> Some (Inr s)
      | AbortError \<Rightarrow> Some (Inr s)
      | Event (Some v) \<Rightarrow>
          (case step v s of Inl e \<Rightarrow> Some (Inl e) | Inr s' \<Rightarrow> read_loop fuel reads (Suc i) step s')
      | _ \<Rightarrow> read_loop fuel reads (Suc i) step s)"

section \<open>One answer that grows\<close>

record sse_state =
  answer :: "jsval obj"
  is_done :: bool
  doneRecord :: "bool obj"

definition setDoneRecordById :: "string \<Rightarrow> bool \<Rightarrow> bool obj \<Rightarrow> bool obj" where
  "setDoneRecordById i val prev = obj_put i val prev"

definition allDone :: "bool obj \<Rightarrow> bool" where
  "allDone r = list_all (\<lambda>kv. snd kv) r"

definition clearDoneRecordWhenAllDone :: "bool obj \<Rightarrow> bool obj" where
  \<comment> \<open>the effect of \<open>useSetDoneRecord\<close>\<close>
  "clearDoneRecordWhenAllDone r = (if r \<noteq> [] \<and> allDone r then [] else r)"

definition setDoneValue :: "jsval obj \<Rightarrow> bool \<Rightarrow> sse_state \<Rightarrow> sse_state" where
  "setDoneValue body val st =
     (if ''chatBoxId'' \<in> set (keys body)
      then st\<lparr>doneRecord := setDoneRecordById (js_to_string (obj_get body ''chatBoxId'')) val (doneRecord st)\<rparr>
      else st\<lparr>is_done := val\<rparr>)"

definition merge_text :: "string \<Rightarrow> jsval \<Rightarrow> string res" where
  "merge_text prevAnswer currentAnswer =
     (if prevAnswer = [] then Inr (js_to_string currentAnswer)
      else case currentAnswer of
             JStr c \<Rightarrow> Inr (if starts_with c prevAnswer then c else prevAnswer @ c)
           | _ \<Rightarrow> Inl TypeError)"

definition merge_answer :: "jsval obj \<Rightarrow> jsval \<Rightarrow> jsval obj \<Rightarrow> jsval obj res" where
  \<comment> \<open>the updater of \<open>setAnswer\<close>\<close>
  "merge_answer body d prev =
     (let prevAnswer = (case obj_get prev ''answer'' of JStr s \<Rightarrow> s | _ \<Rightarrow> []) in
      bind_r (js_prop d ''answer'') (\<lambda>a.
      bind_r (merge_text prevAnswer (js_or a (JStr []))) (\<lambda>t1.
        let t2 = (if js_opt d ''start_to_think'' = JBool True then t1 @ ''<think>'' else t1);
            t3 = (if js_opt d ''end_to_think'' = JBool True then t2 @ ''</think>'' else t2)
        in Inr (obj_assign (spread d)
             [(''answer'', JStr t3), (''conversationId'', obj_get body ''conversation_id''),
              (''chatBoxId'', obj_get body ''chatBoxId'')]))))"

fun is_boolean :: "jsval \<Rightarrow> bool" where
  "is_boolean (JBool _) = True"
| "is_boolean _ = False"

definition receive_chunk :: "jsval obj \<Rightarrow> jsval \<Rightarrow> sse_state \<Rightarrow> sse_state res" where
  "receive_chunk body val st =
     (let d = js_opt val ''data'' in
      if is_boolean d then Inr st
      else bind_r (merge_answer body d (answer st)) (\<lambda>a. Inr (st\<lparr>answer := a\<rparr>)))"

definition sendMessageWithSse ::
    "nat \<Rightarrow> jsval obj \<Rightarrow> (nat \<Rightarrow> read_result) option \<Rightarrow> sse_state \<Rightarrow> sse_state res option" where
  \<comment> \<open>\<open>send\<close>; \<open>None\<close> for the response when \<open>fetch\<close> rejects\<close>
  "sendMessageWithSse fuel body response st =
     (let st1 = setDoneValue body False st in
      case response of
        None \<Rightarrow> Some (Inr (setDoneValue body True st1))
      | Some reads \<Rightarrow>
          map_option (\<lambda>r. bind_r r (\<lambda>st2. Inr (setDoneValue body True st2)))
            (read_loop fuel reads 0 (receive_chunk body) st1))"

definition resetAnswer :: "sse_state \<Rightarrow> sse_state" where
  \<comment> \<open>when the timer fires\<close>
  "resetAnswer st = st\<lparr>answer := []\<rparr>"

section \<open>A list of events\<close>

record sse_list_state =
  answerList :: "jsval list"
  list_done :: bool

definition push_event :: "jsval \<Rightarrow> sse_list_state \<Rightarrow> sse_list_state res" where
  "push_event val st = Inr (st\<lparr>answerList := answerList st @ [val]\<rparr>)"

definition sendMessageBySSE ::
    "nat \<Rightarrow> (nat \<Rightarrow> read_result) option \<Rightarrow> sse_list_state \<Rightarrow> sse_list_state res option" where
  "sendMessageBySSE fuel response st =
     (let st1 = st\<lparr>list_done := False\<rparr> in
      case response of
        None \<Rightarrow> Some (Inr (st1\<lparr>list_done := True\<rparr>))
      | Some reads \<Rightarrow>
          map_option (\<lambda>r. bind_r r (\<lambda>st2. Inr (st2\<lparr>list_done := True\<rparr>)))
            (read_loop fuel reads 0 push_event st1))"

definition resetAnswerList :: "sse_list_state \<Rightarrow> sse_list_state" where
  "resetAnswerList st = st\<lparr>answerList := []\<rparr>"

section \<open>What the loops compute\<close>

definition ends :: "read_result \<Rightarrow> bool" where
  "ends r = (r = EndOfStream \<or> r = AbortError)"

definition parsed :: "read_result \<Rightarrow> jsval list" where
  "parsed r = (case r of Event (Some v) \<Rightarrow> [v] | _ \<Rightarrow> [])"

fun run_steps :: "(jsval \<Rightarrow> 'a \<Rightarrow> 'a res) \<Rightarrow> jsval list \<Rightarrow> 'a \<Rightarrow> 'a res" where
  "run_steps step [] s = Inr s"
| "run_steps step (v # vs) s = bind_r (step v s) (run_steps step vs)"

lemma read_loop_runs:
  assumes "ends (reads (i + k))" and "\<forall>j<k. \<not> ends (reads (i + j))" and "k < fuel"
  shows "read_loop fuel reads i step s = Some (run_steps step (concat (map (\<lambda>j. parsed (reads (i + j))) [0..<k])) s)"
  using assms
proof (induction k arbitrary: fuel i s)
  case 0
  then show ?case by (cases fuel) (auto simp: ends_def)
next
  case (Suc k)
  obtain f where f: "fuel = Suc f" using Suc.prems(3) by (cases fuel) auto
  have ih: "read_loop f reads (Suc i) step s' =
      Some (run_steps step (concat (map (\<lambda>j. parsed (reads (Suc i + j))) [0..<k])) s')" for s'
    using Suc.prems f by (intro Suc.IH) auto
  have up: "[0..<Suc k] = 0 # map Suc [0..<k]" by (simp add: upt_conv_Cons map_Suc_upt)
  have vs: "concat (map (\<lambda>j. parsed (reads (i + j))) [0..<Suc k]) =
      parsed (reads i) @ concat (map (\<lambda>j. parsed (reads (Suc i + j))) [0..<k])"
    unfolding up by (simp add: comp_def)
  have "\<not> ends (reads i)" using Suc.prems(2) by (metis add.right_neutral zero_less_Suc)
  then show ?case
    unfolding f vs by (cases "reads i") (auto simp: ends_def parsed_def ih split: option.splits sum.splits)
qed

lemma run_push: "run_steps push_event vs st = Inr (st\<lparr>answerList := answerList st @ vs\<rparr>)"
  by (induction vs arbitrary: st) (simp_all add: push_event_def)


definition reads_example :: "nat \<Rightarrow> read_result" where
  "reads_example i = (if i = 0 then Event (Some (JStr ''a'')) else if i = 1 then Event None else EndOfStream)"


lemma read_loop_no_value: "\<forall>i. reads i = NoValue \<Longrightarrow> read_loop fuel reads i step s = None"
  by (induction fuel arbitrary: i) simp_all

text \<open>
  When the response has no body there is no reader, every read gives \<open>undefined\<close>, and neither
  loop ever ends: no amount of fuel is enough, and the request is never marked as done.
\<close>

theorem sse_without_body_never_ends:
  assumes "\<forall>i. reads i = NoValue"
  shows "sendMessageBySSE fuel (Some reads) st = None \<and> sendMessageWithSse fuel body (Some reads) st' = None"
  by (simp add: sendMessageBySSE_def sendMessageWithSse_def read_loop_no_value [OF assms] Let_def)

theorem sse_without_body_never_ends_witness:
  "sendMessageBySSE 1000 (Some (\<lambda>_. NoValue)) \<lparr>answerList = [], list_done = True\<rparr> = None"
  using sse_without_body_never_ends [of "\<lambda>_. NoValue"] by simp


section \<open>The text of a growing answer\<close>

definition chunk :: "string \<Rightarrow> jsval" where
  "chunk t = JObj [(''data'', JObj [(''answer'', JStr t)])]"

definition answer_text :: "sse_state \<Rightarrow> string" where
  "answer_text st = (case obj_get (answer st) ''answer'' of JStr s \<Rightarrow> s | _ \<Rightarrow> [])"

definition step_text :: "string \<Rightarrow> string \<Rightarrow> string" where
  "step_text prev t = (if prev \<noteq> [] \<and> starts_with t prev then t else prev @ t)"

lemma receive_text:
  obtains st' where "receive_chunk body (chunk t) st = Inr st'" and "answer_text st' = step_text (answer_text st) t"
proof -
  have m: "merge_text p (js_or (JStr t) (JStr [])) = Inr (step_text p t)" for p
    by (auto simp: merge_text_def js_or_def step_text_def)
  have "\<exists>st'. receive_chunk body (chunk t) st = Inr st' \<and> answer_text st' = step_text (answer_text st) t"
    by (simp add: receive_chunk_def chunk_def merge_answer_def m Let_def answer_text_def obj_get_assign)
  then show ?thesis using that by blast
qed

lemma run_chunks:
  "\<exists>st'. run_steps (receive_chunk body) (map chunk ts) st = Inr st'
     \<and> answer_text st' = foldl step_text (answer_text st) ts"
proof (induction ts arbitrary: st)
  case (Cons t ts)
  obtain st' where "receive_chunk body (chunk t) st = Inr st'" "answer_text st' = step_text (answer_text st) t"
    using receive_text .
  with Cons.IH [of st'] show ?case by simp
qed simp

definition cumulative :: "string list \<Rightarrow> bool" where
  "cumulative ts = sorted_wrt (\<lambda>a b. starts_with b a) ts"

lemma foldl_cumulative:
  "starts_with t p \<Longrightarrow> cumulative (t # ts) \<Longrightarrow> foldl step_text p (t # ts) = last (t # ts)"
proof (induction ts arbitrary: p t)
  case Nil
  then show ?case by (auto simp: step_text_def starts_with_iff)
next
  case (Cons u ts)
  have "step_text p t = t" using Cons.prems(1) by (auto simp: step_text_def starts_with_iff)
  moreover have "foldl step_text t (u # ts) = last (u # ts)"
    using Cons.prems(2) by (intro Cons.IH) (simp_all add: cumulative_def)
  ultimately show ?case by simp
qed

fun fresh_deltas :: "string \<Rightarrow> string list \<Rightarrow> bool" where
  \<comment> \<open>no piece begins with all the text before it\<close>
  "fresh_deltas p [] = True"
| "fresh_deltas p (t # ts) = ((p = [] \<or> \<not> starts_with t p) \<and> fresh_deltas (p @ t) ts)"

lemma foldl_deltas: "fresh_deltas p ts \<Longrightarrow> foldl step_text p ts = p @ concat ts"
  by (induction p ts rule: fresh_deltas.induct) (auto simp: step_text_def)

text \<open>
  The client shows the right text whether the server repeats the whole answer in every event,
  each one extending the one before, or sends only the new piece, as long as no piece begins with
  all of the text before it.
\<close>

theorem streamed_answer_text:
  assumes "answer_text st = []" and "cumulative ts \<and> ts \<noteq> [] \<and> final = last ts \<or> fresh_deltas [] ts \<and> final = concat ts"
  shows "\<exists>st'. run_steps (receive_chunk body) (map chunk ts) st = Inr st' \<and> answer_text st' = final"
proof -
  have "foldl step_text [] ts = final"
    using assms(2) foldl_deltas [of "[]" ts] foldl_cumulative [of "hd ts" "[]" "tl ts"]
    by (cases ts) (auto simp: starts_with_def simp del: foldl_Cons last.simps)
  then show ?thesis using run_chunks [of body ts st] assms(1) by simp
qed

theorem streamed_answer_text_witness:
  "\<exists>st'. run_steps (receive_chunk []) (map chunk [''Hel'', ''Hello'']) \<lparr>answer = [], is_done = False, doneRecord = []\<rparr> = Inr st'
     \<and> answer_text st' = ''Hello''"
  by (rule streamed_answer_text) (simp_all add: answer_text_def cumulative_def starts_with_def)

text \<open>
  A piece that happens to begin with everything before it is taken for the whole answer: the
  pieces \<open>ha\<close> and \<open>haha\<close> show \<open>haha\<close> instead of \<open>hahaha\<close>.
\<close>

theorem streamed_delta_lost:
  assumes "answer_text st = []" and "p \<noteq> []"
  shows "\<exists>st'. run_steps (receive_chunk body) (map chunk [p, p @ t]) st = Inr st' \<and> answer_text st' = p @ t"
  using run_chunks [of body "[p, p @ t]" st] assms by (simp add: step_text_def)

theorem streamed_delta_lost_witness:
  "\<exists>st'. run_steps (receive_chunk []) (map chunk [''ha'', ''ha'' @ ''ha'']) \<lparr>answer = [], is_done = False, doneRecord = []\<rparr> = Inr st'
     \<and> answer_text st' = ''haha''"
  using streamed_delta_lost [of "\<lparr>answer = [], is_done = False, doneRecord = []\<rparr>" "''ha''" "[]" "''ha''"]
  by (simp add: answer_text_def)

section \<open>Messages of an agent run\<close>

type_synonym event = "jsval obj"

definition has_type :: "string \<Rightarrow> event \<Rightarrow> bool" where
  "has_type t e = (obj_get e ''event'' = JStr t)"

record think_state =
  nextContent :: string
  startIndex :: "nat option"      \<comment> \<open>\<open>None\<close> for -1\<close>
  endIndex :: "nat option"
  audioBinary :: jsval

definition think_step :: "nat \<Rightarrow> jsval \<Rightarrow> think_state \<Rightarrow> think_state res" where
  \<comment> \<open>the callback of \<open>messageEventList.forEach\<close> on the data of an event\<close>
  "think_step idx data s =
     bind_r (js_prop data ''content'') (\<lambda>content.
       let c = js_to_string content; audio = js_opt data ''audio_binary'';
           s1 = (if truthy audio then s\<lparr>audioBinary := audio\<rparr> else s)
       in Inr (if js_opt data ''start_to_think'' = JBool True
               then s1\<lparr>nextContent := nextContent s1 @ ''<think>'' @ c, startIndex := Some idx\<rparr>
               else if js_opt data ''end_to_think'' = JBool True
               then s1\<lparr>endIndex := Some idx, nextContent := nextContent s1 @ c @ ''</think>''\<rparr>
               else s1\<lparr>nextContent := nextContent s1 @ c\<rparr>))"

fun think_loop :: "nat \<Rightarrow> jsval list \<Rightarrow> think_state \<Rightarrow> think_state res" where
  "think_loop idx [] s = Inr s"
| "think_loop idx (d # ds) s = bind_r (think_step idx d s) (think_loop (Suc idx) ds)"

definition findMessageFromList :: "event list \<Rightarrow> jsval obj res" where
  "findMessageFromList eventList =
     (let datas = map (\<lambda>e. obj_get e ''data'') (filter (has_type ''message'') eventList) in
      bind_r (think_loop 0 datas \<lparr>nextContent = [], startIndex = None, endIndex = None, audioBinary = JUndef\<rparr>)
        (\<lambda>s. let content = (if (case startIndex s of None \<Rightarrow> False | Some i \<Rightarrow> int i \<le> int (length datas) - 1)
                               \<and> endIndex s = None
                            then nextContent s @ ''</think>'' else nextContent s);
                 finished = (case find (has_type ''workflow_finished'') eventList of
                     None \<Rightarrow> JUndef | Some e \<Rightarrow> js_opt (js_opt (obj_get e ''data'') ''outputs'') ''attachment'')
             in Inr [(''id'', case eventList of [] \<Rightarrow> JUndef | e # _ \<Rightarrow> obj_get e ''message_id''),
                     (''content'', JStr content), (''audio_binary'', audioBinary s),
                     (''attachment'', js_or finished (JObj []))]))"

definition findInputFromList :: "event list \<Rightarrow> jsval obj" where
  "findInputFromList eventList =
     (case find (has_type ''user_inputs'') eventList of
        None \<Rightarrow> []
      | Some e \<Rightarrow> [(''id'', obj_get e ''message_id''), (''data'', obj_get e ''data'')])"

definition getLatestError :: "event list \<Rightarrow> jsval" where
  "getLatestError eventList =
     (let latest = (if eventList = [] then JUndef else JObj (last eventList));
          code = js_opt latest ''code''
      in js_or (js_opt (js_opt (js_opt latest ''data'') ''outputs'') ''_ERROR'')
           (if truthy code \<and> code \<noteq> JNum (Fin 0) then js_opt latest ''message'' else JUndef))"

subsection \<open>Thinking sections\<close>

definition starts :: "jsval \<Rightarrow> bool" where
  "starts d = (js_opt d ''start_to_think'' = JBool True)"

definition stops :: "jsval \<Rightarrow> bool" where
  "stops d = (\<not> starts d \<and> js_opt d ''end_to_think'' = JBool True)"

definition decorated :: "jsval \<Rightarrow> string" where
  "decorated d =
     (let c = js_to_string (js_opt d ''content'') in
      if starts d then ''<think>'' @ c else if stops d then c @ ''</think>'' else c)"

lemma think_step_result:
  assumes "\<not> nullish d"
  shows "\<exists>s'. think_step i d s = Inr s' \<and> nextContent s' = nextContent s @ decorated d
     \<and> startIndex s' = (if starts d then Some i else startIndex s)
     \<and> endIndex s' = (if stops d then Some i else endIndex s)"
proof -
  obtain c where "js_prop d ''content'' = Inr c" using assms by (cases d) simp_all
  then show ?thesis
    by (simp add: think_step_def decorated_def starts_def stops_def js_opt_def Let_def)
qed

lemma think_loop_result:
  assumes "\<forall>d\<in>set ds. \<not> nullish d"
  shows "\<exists>s'. think_loop i ds s = Inr s' \<and> nextContent s' = nextContent s @ concat (map decorated ds)
     \<and> (endIndex s' = None \<longleftrightarrow> endIndex s = None \<and> \<not> list_ex stops ds)
     \<and> (if list_ex starts ds then \<exists>j. startIndex s' = Some j \<and> i \<le> j \<and> j < i + length ds
        else startIndex s' = startIndex s)"
  using assms
proof (induction ds arbitrary: i s)
  case (Cons d ds)
  obtain s1 where s1: "think_step i d s = Inr s1" "nextContent s1 = nextContent s @ decorated d"
    "startIndex s1 = (if starts d then Some i else startIndex s)"
    "endIndex s1 = (if stops d then Some i else endIndex s)"
    using think_step_result [of d i s] Cons.prems by auto
  obtain s' where s': "think_loop (Suc i) ds s1 = Inr s'"
    "nextContent s' = nextContent s1 @ concat (map decorated ds)"
    "endIndex s' = None \<longleftrightarrow> endIndex s1 = None \<and> \<not> list_ex stops ds"
    "if list_ex starts ds then \<exists>j. startIndex s' = Some j \<and> Suc i \<le> j \<and> j < Suc i + length ds
     else startIndex s' = startIndex s1"
    using Cons.IH [of "Suc i" s1, OF _] Cons.prems by (metis list.set_intros(2))
  have st: "if list_ex starts (d # ds) then \<exists>j. startIndex s' = Some j \<and> i \<le> j \<and> j < i + length (d # ds)
        else startIndex s' = startIndex s"
    using s'(4) s1(3) by (cases "list_ex starts ds"; cases "starts d") auto
  show ?case using s1 s'(1-3) by (intro exI [of _ s'] conjI st) simp_all
qed simp

lemma message_of_events:
  assumes "\<forall>d\<in>set ds. \<not> nullish d"
    and "ds = map (\<lambda>e. obj_get e ''data'') (filter (has_type ''message'') es)"
  shows "\<exists>r. findMessageFromList es = Inr r
     \<and> obj_get r ''content'' = JStr (concat (map decorated ds)
         @ (if list_ex starts ds \<and> \<not> list_ex stops ds then ''</think>'' else []))
     \<and> obj_get r ''id'' = (case es of [] \<Rightarrow> JUndef | e # _ \<Rightarrow> obj_get e ''message_id'')"
proof -
  obtain s where s: "think_loop 0 ds \<lparr>nextContent = [], startIndex = None, endIndex = None, audioBinary = JUndef\<rparr> = Inr s"
    "nextContent s = concat (map decorated ds)" "endIndex s = None \<longleftrightarrow> \<not> list_ex stops ds"
    "if list_ex starts ds then \<exists>j. startIndex s = Some j \<and> j < length ds else startIndex s = None"
    using think_loop_result [OF assms(1), of 0 "\<lparr>nextContent = [], startIndex = None, endIndex = None, audioBinary = JUndef\<rparr>"]
    by (cases "list_ex starts ds") auto
  have "(case startIndex s of None \<Rightarrow> False | Some i \<Rightarrow> int i \<le> int (length ds) - 1) = list_ex starts ds"
    using s(4) by (cases "list_ex starts ds") auto
  with s(1-3) show ?thesis
    unfolding findMessageFromList_def assms(2) [symmetric] Let_def by simp
qed

text \<open>
  The text of an agent's message is the text of its events in order, a thinking section opened
  by a start event and closed by an end event; a closing tag is added at the end exactly when
  some section was started and none has ever been ended. So a first section is always closed,
  but a second one that is still streaming is not.
\<close>

theorem agent_message_text:
  assumes "\<forall>d\<in>set ds. \<not> nullish d"
    and "ds = map (\<lambda>e. obj_get e ''data'') (filter (has_type ''message'') es)"
  shows "\<exists>r. findMessageFromList es = Inr r
     \<and> obj_get r ''content'' = JStr (concat (map decorated ds)
         @ (if list_ex starts ds \<and> \<not> list_ex stops ds then ''</think>'' else []))"
  using message_of_events [OF assms] by blast

definition think_event :: "string \<Rightarrow> string list \<Rightarrow> event" where
  "think_event c flags = [(''event'', JStr ''message''),
     (''data'', JObj ((''content'', JStr c) # map (\<lambda>f. (f, JBool True)) flags))]"

theorem agent_message_text_witness:
  "\<exists>r. findMessageFromList [think_event ''a'' [''start_to_think''], think_event ''b'' [''end_to_think''],
        think_event ''c'' [''start_to_think'']] = Inr r
     \<and> obj_get r ''content'' = JStr ''<think>ab</think><think>c''"
proof -
  let ?es = "[think_event ''a'' [''start_to_think''], think_event ''b'' [''end_to_think''], think_event ''c'' [''start_to_think'']]"
  let ?ds = "map (\<lambda>e. obj_get e ''data'') (filter (has_type ''message'') ?es)"
  have d: "\<forall>d\<in>set ?ds. \<not> nullish d" by code_simp
  have "concat (map decorated ?ds) @ (if list_ex starts ?ds \<and> \<not> list_ex stops ?ds then ''</think>'' else [])
      = ''<think>ab</think><think>c''" by code_simp
  with agent_message_text [OF d refl] show ?thesis by simp
qed

end
