(* ===== verification/Js_Json.thy ===== *)
theory Js_Json
  imports Js_Prelude "HOL-Library.List_Lexorder"
begin

text \<open>
  \<open>JSON.stringify\<close>, the default order of \<open>Array.prototype.sort\<close> and the insertion order of \<open>Map\<close>
  and \<open>Set\<close>, as the sources use them.
\<close>

section \<open>\<open>JSON.stringify\<close>\<close>

definition hex_char :: "nat \<Rightarrow> char" where
  "hex_char d = (if d < 10 then char_of (48 + d) else char_of (87 + d))"

definition quote_char :: "char \<Rightarrow> string" where
  "quote_char c =
     (let n = (of_char c :: nat); bs = CHR 0x5C in
      if n = 0x22 \<or> n = 0x5C then [bs, c]
      else if n = 8 then [bs, CHR ''b''] else if n = 9 then [bs, CHR ''t''] else if n = 10 then [bs, CHR ''n'']
      else if n = 12 then [bs, CHR ''f''] else if n = 13 then [bs, CHR ''r'']
      else if n < 32 then [bs, CHR ''u'', CHR ''0'', CHR ''0'', hex_char (n div 16), hex_char (n mod 16)]
      else [c])"

definition quote_string :: "string \<Rightarrow> string" where
  "quote_string s = [CHR 0x22] @ concat (map quote_char s) @ [CHR 0x22]"

text \<open>\<open>undefined\<close> has no text; it is left out of objects and printed as \<open>null\<close> in arrays.\<close>

fun js_stringify :: "jsval \<Rightarrow> string option" where
  "js_stringify JUndef = None"
| "js_stringify JNull = Some ''null''"
| "js_stringify (JBool b) = Some (if b then ''true'' else ''false'')"
| "js_stringify (JNum n) = Some (case n of Fin _ \<Rightarrow> num_to_string n | _ \<Rightarrow> ''null'')"
| "js_stringify (JStr s) = Some (quote_string s)"
| "js_stringify (JArr xs) =
     Some (''['' @ js_join (CHR '','') (map (\<lambda>x. case js_stringify x of None \<Rightarrow> ''null'' | Some t \<Rightarrow> t) xs) @ '']'')"
| "js_stringify (JObj ob) =
     Some (''{'' @ js_join (CHR '','') (concat (map (\<lambda>(k, x). case js_stringify x of
        None \<Rightarrow> [] | Some t \<Rightarrow> [quote_string k @ '':'' @ t]) ob)) @ ''}'')"

section \<open>Sorting\<close>

definition js_text_sort :: "jsval list \<Rightarrow> jsval list" where
  \<comment> \<open>\<open>xs.sort()\<close>: stable, by the texts of the elements\<close>
  "js_text_sort xs = sort_key js_to_string xs"

lemma set_js_text_sort [simp]: "set (js_text_sort xs) = set xs"
  by (simp add: js_text_sort_def)

section \<open>Maps and sets in insertion order\<close>

fun map_set :: "'k \<Rightarrow> 'v \<Rightarrow> ('k \<times> 'v) list \<Rightarrow> ('k \<times> 'v) list" where
  "map_set k v [] = [(k, v)]"
| "map_set k v ((k', v') # m) = (if k' = k then (k, v) # m else (k', v') # map_set k v m)"

definition unique_by_json :: "jsval list \<Rightarrow> jsval list" where
  \<comment> \<open>\<open>[...new Map(xs.map((s) => [JSON.stringify(s), s])).values()]\<close>\<close>
  "unique_by_json xs = map snd (fold (\<lambda>s. map_set (js_stringify s) s) xs [])"

definition set_add :: "'a \<Rightarrow> 'a list \<Rightarrow> 'a list" where
  "set_add x xs = (if x \<in> set xs then xs else xs @ [x])"

lemma set_set_add [simp]: "set (set_add x xs) = insert x (set xs)"
  by (auto simp: set_add_def)

lemma distinct_set_add: "distinct xs \<Longrightarrow> distinct (set_add x xs)"
  by (simp add: set_add_def)

lemma unique_by_json_replicate: "unique_by_json (replicate (Suc n) s) = [s]"
proof -
  have "fold (\<lambda>s. map_set (js_stringify s) s) (replicate n s) [(js_stringify s, s)] = [(js_stringify s, s)]"
    by (induction n) simp_all
  then show ?thesis by (simp add: unique_by_json_def)
qed

end
