(* ===== verification/Agent_Chat.thy ===== *)
theory Agent_Chat
  imports Chat_Stream Js_Json
begin

text \<open>
  The chat of an agent: the log of events per message (\<open>pages/agent/hooks/use-cache-chat-log.ts\<close>), the nodes
  that are running (\<open>use-node-loading.ts\<close>), and the rest of \<open>pages/agent/chat/use-send-agent-message.ts\<close>:
  references, uploads, requests, and the effects that follow the stream of events.

  Events are objects and are compared by identity: an event comes with a number that stands for the object.
\<close>

section \<open>The log of events\<close>

type_synonym ref_event = "nat \<times> event"

record chat_log =
  messageIdPool :: "ref_event list obj"
  latestTaskId :: jsval
  currentMessageId :: string

definition ExcludeTypes :: "string list" where
  "ExcludeTypes = [''message'', ''message_end'']"

definition pool_get :: "string \<Rightarrow> chat_log \<Rightarrow> ref_event list option" where
  "pool_get i cl = map_of (messageIdPool cl) i"

definition of_message :: "string \<Rightarrow> ref_event \<Rightarrow> bool" where
  "of_message i e = (obj_get (snd e) ''message_id'' = JStr i)"

definition filterEventListByMessageId :: "string \<Rightarrow> chat_log \<Rightarrow> ref_event list option" where
  "filterEventListByMessageId i cl = map_option (filter (of_message i)) (pool_get i cl)"

definition filterEventListByEventType :: "string \<Rightarrow> chat_log \<Rightarrow> ref_event list option" where
  "filterEventListByEventType t cl = map_option (filter (\<lambda>e. has_type t (snd e))) (pool_get (currentMessageId cl) cl)"

definition clearEventList :: "chat_log \<Rightarrow> chat_log" where
  "clearEventList cl = cl\<lparr>messageIdPool := []\<rparr>"

definition add_ref :: "ref_event list \<Rightarrow> ref_event \<Rightarrow> ref_event list" where
  "add_ref l e = (if list_ex (\<lambda>y. fst y = fst e) l then l else l @ [e])"

definition logged :: "string \<Rightarrow> chat_log \<Rightarrow> ref_event list" where
  \<comment> \<open>\<open>prev[message_id] ?? []\<close>\<close>
  "logged i cl = (case pool_get i cl of None \<Rightarrow> [] | Some l \<Rightarrow> l)"

definition addEventList :: "ref_event list \<Rightarrow> string \<Rightarrow> chat_log \<Rightarrow> chat_log" where
  "addEventList events i cl =
     (if events = [] then cl
      else cl\<lparr>latestTaskId := obj_get (snd (hd events)) ''task_id'',
               messageIdPool := obj_put i (foldl add_ref (logged i cl) events) (messageIdPool cl)\<rparr>)"

definition currentEventListWithoutMessageById :: "string \<Rightarrow> chat_log \<Rightarrow> ref_event list option" where
  "currentEventListWithoutMessageById i cl =
     map_option (filter (\<lambda>e. of_message i e \<and> list_all (\<lambda>t. \<not> has_type t (snd e)) ExcludeTypes)) (pool_get i cl)"

definition currentEventListWithoutMessage :: "chat_log \<Rightarrow> ref_event list option" where
  "currentEventListWithoutMessage cl = currentEventListWithoutMessageById (currentMessageId cl) cl"

section \<open>The nodes that are running\<close>

text \<open>A node event has data, by its type.\<close>

definition component_id :: "ref_event \<Rightarrow> jsval" where
  "component_id e = js_opt (obj_get (snd e) ''data'') ''component_id''"

definition last_message_events :: "message list \<Rightarrow> chat_log \<Rightarrow> ref_event list option" where
  "last_message_events ms cl =
     (case (if ms = [] then JUndef else obj_get (last ms) ''id'') of
        JStr i \<Rightarrow> if i = [] then Some [] else currentEventListWithoutMessageById i cl
      | _ \<Rightarrow> Some [])"

definition add_started :: "ref_event list \<Rightarrow> ref_event \<Rightarrow> ref_event list" where
  "add_started pre cur = (if list_all (\<lambda>x. component_id x \<noteq> component_id cur) pre then pre @ [cur] else pre)"

definition startedNodeList :: "ref_event list \<Rightarrow> ref_event list" where
  "startedNodeList es = foldl add_started [] (filter (\<lambda>e. has_type ''node_started'' (snd e)) es)"

definition filterFinishedNodeList :: "ref_event list \<Rightarrow> jsval list" where
  "filterFinishedNodeList es = map (\<lambda>e. obj_get (snd e) ''data'') (filter (\<lambda>e. has_type ''node_finished'' (snd e)) es)"

definition lastNode :: "ref_event list option \<Rightarrow> ref_event option" where
  "lastNode es = (case es of None \<Rightarrow> None | Some l \<Rightarrow> if startedNodeList l = [] then None else Some (last (startedNodeList l)))"

definition finishNodeIds :: "ref_event list option \<Rightarrow> jsval list" where
  "finishNodeIds es =
     (case (lastNode es, es) of
        (Some _, Some l) \<Rightarrow> foldl (\<lambda>acc x. set_add x acc) [] (map (\<lambda>d. js_opt d ''component_id'') (filterFinishedNodeList l))
      | _ \<Rightarrow> [])"

definition startButNotFinishedNodeIds :: "ref_event list option \<Rightarrow> jsval list" where
  "startButNotFinishedNodeIds es =
     filter (\<lambda>x. x \<notin> set (finishNodeIds es)) (case es of None \<Rightarrow> [] | Some l \<Rightarrow> map component_id (startedNodeList l))"

section \<open>References, uploads and requests\<close>

definition reference_effect :: "event list \<Rightarrow> event list \<Rightarrow> event list" where
  \<comment> \<open>the effect of \<open>useFindMessageReference\<close> on \<open>messageEndEventList\<close>\<close>
  "reference_effect answers l =
     (case find (has_type ''message_end'') answers of
        None \<Rightarrow> l
      | Some e \<Rightarrow> if list_all (\<lambda>x. obj_get x ''message_id'' \<noteq> obj_get e ''message_id'') l then l @ [e] else l)"

definition findReferenceByMessageId :: "string \<Rightarrow> event list \<Rightarrow> jsval" where
  "findReferenceByMessageId i l =
     (case find (\<lambda>x. obj_get x ''message_id'' = JStr i) l of
        None \<Rightarrow> JUndef | Some e \<Rightarrow> js_opt (obj_get e ''data'') ''reference'')"

record upload_state =
  uploadResponseList :: "jsval obj list"
  fileList :: "(nat \<times> string) list"       \<comment> \<open>a file, by identity, and its name\<close>

definition appendUploadResponse :: "jsval obj \<Rightarrow> (nat \<times> string) list \<Rightarrow> upload_state \<Rightarrow> upload_state" where
  "appendUploadResponse d fs st = st\<lparr>uploadResponseList := uploadResponseList st @ [d], fileList := fileList st @ fs\<rparr>"

definition clearUploadResponse :: "upload_state \<Rightarrow> upload_state" where
  "clearUploadResponse st = st\<lparr>uploadResponseList := [], fileList := []\<rparr>"

definition removeUploadedFile :: "nat \<times> string \<Rightarrow> upload_state \<Rightarrow> upload_state" where
  "removeUploadedFile f st =
     st\<lparr>fileList := filter (\<lambda>g. fst g \<noteq> fst f) (fileList st),
        uploadResponseList := filter (\<lambda>r. obj_get r ''name'' \<noteq> JStr (snd f)) (uploadResponseList st)\<rparr>"

definition buildRequestBody :: "string \<Rightarrow> string \<Rightarrow> message" where
  \<comment> \<open>the new id and the text in the input\<close>
  "buildRequestBody u value = [(''id'', JStr u), (''content'', JStr (js_trim value)), (''role'', JStr ''user'')]"

definition receiveMessageError :: "(jsnum \<times> jsval) option \<Rightarrow> bool" where
  \<comment> \<open>the status of the response and its data; \<open>None\<close> when \<open>send\<close> gave nothing\<close>
  "receiveMessageError res =
     (case res of None \<Rightarrow> False
      | Some (status, d) \<Rightarrow> \<not> num_eq status (Fin 200) \<or> js_opt d ''code'' \<noteq> JNum (Fin 0))"

section \<open>Following a run\<close>

record run_state =
  run_answers :: "event list"
  run_done :: bool
  run_timer :: bool               \<comment> \<open>\<open>resetAnswerList\<close> has been called, its timer has not fired\<close>

definition idle_run :: run_state where
  "idle_run = \<lparr>run_answers = [], run_done = True, run_timer = False\<rparr>"

definition start_run :: "run_state \<Rightarrow> run_state" where
  "start_run st = st\<lparr>run_done := False\<rparr>"

definition receive_event :: "event \<Rightarrow> run_state \<Rightarrow> run_state" where
  "receive_event e st = st\<lparr>run_answers := run_answers st @ [e]\<rparr>"

definition finish_run :: "run_state \<Rightarrow> run_state" where
  "finish_run st = st\<lparr>run_done := True, run_timer := True\<rparr>"

definition reset_timer :: "run_state \<Rightarrow> run_state" where
  \<comment> \<open>one second later\<close>
  "reset_timer st = st\<lparr>run_answers := [], run_timer := False\<rparr>"

definition answer_of :: "event list \<Rightarrow> jsval obj \<Rightarrow> jsval obj" where
  "answer_of answers found =
     (let answer = js_or (obj_get found ''content'') (getLatestError answers) in
      obj_assign [(''answer'', js_coalesce answer (JStr [])), (''audio_binary'', obj_get found ''audio_binary''),
                  (''attachment'', obj_get found ''attachment''), (''id'', obj_get found ''id'')]
        (findInputFromList answers))"

definition answer_effect :: "libs \<Rightarrow> string \<Rightarrow> event list \<Rightarrow> message list \<Rightarrow> message list res" where
  \<comment> \<open>the effect that puts the answer so far into the message list\<close>
  "answer_effect L u answers ms =
     bind_r (findMessageFromList answers)
       (\<lambda>found. Inr (if answers = [] then ms else addNewestOneAnswer L u (answer_of answers found) ms))"

definition session_effect :: "event list \<Rightarrow> jsval \<Rightarrow> jsval" where
  "session_effect answers sessionId =
     (case answers of [] \<Rightarrow> sessionId | e # _ \<Rightarrow> if truthy (obj_get e ''session_id'') then obj_get e ''session_id'' else sessionId)"

section \<open>The log is complete\<close>

lemma add_ref_known: "fst ` set es \<subseteq> fst ` set l \<Longrightarrow> foldl add_ref l es = l"
  by (induction es) (auto simp: add_ref_def list_ex_iff image_iff)

lemma add_ref_new: "distinct (map fst (l @ es)) \<Longrightarrow> foldl add_ref l es = l @ es"
proof (induction es arbitrary: l)
  case (Cons e es)
  have "\<not> list_ex (\<lambda>y. fst y = fst e) l" using Cons.prems by (auto simp: list_ex_iff image_iff)
  then show ?case using Cons.IH [of "l @ [e]"] Cons.prems by (simp add: add_ref_def)
qed simp

lemma add_ref_prefixes:
  assumes "distinct (map fst es)"
  shows "foldl add_ref (take m es) (take k es) = take (max m k) es"
proof (cases "k \<le> m")
  case True
  then have "set (take k es) \<subseteq> set (take m es)" by (rule set_take_subset_set_take)
  then show ?thesis using True by (simp add: add_ref_known image_mono max_def)
next
  case False
  then have "take m (take k es) = take m es" by (simp add: min_def)
  then have split: "take k es = take m es @ drop m (take k es)" by (metis append_take_drop_id)
  have "foldl add_ref (take m es) (take k es) = foldl add_ref (take m es) (drop m (take k es))"
    by (subst split) (simp add: add_ref_known)
  also have "\<dots> = take m es @ drop m (take k es)"
    by (rule add_ref_new) (metis assms distinct_take split take_map)
  finally show ?thesis using False split by (simp add: max_def)
qed

lemma logged_addEventList:
  "logged i (addEventList es i cl) = foldl add_ref (logged i cl) es"
  by (simp add: addEventList_def logged_def pool_get_def)

text \<open>
  The log of a message has every event of the run exactly once and in order, however often the
  effect runs and with whichever of the growing lists of events: after it, the log is the longest of them.
\<close>

theorem event_log_complete:
  assumes "distinct (map fst es)" and "logged i cl = []"
  shows "logged i (foldl (\<lambda>c k. addEventList (take k es) i c) cl ks) = take (fold max ks 0) es"
proof -
  have "logged i (foldl (\<lambda>c k. addEventList (take k es) i c) c ks) = take (fold max ks m) es" if "logged i c = take m es" for c m
    using that
  proof (induction ks arbitrary: c m)
    case (Cons k ks)
    then show ?case using Cons.IH [of "addEventList (take k es) i c" "max k m"] add_ref_prefixes [OF assms(1), of m k]
      by (simp add: logged_addEventList max.commute)
  qed simp
  from this [of cl 0] show ?thesis using assms(2) by simp
qed

definition log_events :: "ref_event list" where
  "log_events = [(1, [(''event'', JStr ''node_started'')]), (2, [(''event'', JStr ''message'')]), (3, [(''event'', JStr ''message_end'')])]"

theorem event_log_complete_witness:
  "logged ''m'' (foldl (\<lambda>c k. addEventList (take k log_events) ''m'' c) \<lparr>messageIdPool = [], latestTaskId = JUndef, currentMessageId = []\<rparr> [1, 2, 2, 3])
     = log_events"
proof -
  have "distinct (map fst log_events)" by (simp add: log_events_def)
  from event_log_complete [OF this, of "''m''" "\<lparr>messageIdPool = [], latestTaskId = JUndef, currentMessageId = []\<rparr>" "[1, 2, 2, 3]"]
  show ?thesis by (simp add: logged_def pool_get_def log_events_def)
qed

section \<open>The running nodes\<close>

lemma started_ids:
  "component_id ` set (foldl add_started acc es) = component_id ` set acc \<union> component_id ` set es"
  "distinct (map component_id acc) \<Longrightarrow> distinct (map component_id (foldl add_started acc es))"
proof (induction es arbitrary: acc)
  case (Cons e es)
  {
    case 1
    have "component_id ` set (add_started acc e) = insert (component_id e) (component_id ` set acc)"
    proof (cases "list_all (\<lambda>x. component_id x \<noteq> component_id e) acc")
      case False
      then have "component_id e \<in> component_id ` set acc" by (metis (mono_tags, lifting) imageI list_all_iff)
      then show ?thesis using False by (simp add: add_started_def insert_absorb)
    qed (simp add: add_started_def)
    then show ?case using Cons.IH(1) [of "add_started acc e"] by simp
  next
    case 2
    then have "distinct (map component_id (add_started acc e))" by (auto simp: add_started_def list_all_iff image_iff)
    then show ?case using Cons.IH(2) [of "add_started acc e"] by simp
  }
qed simp_all

lemma set_unique: "set (foldl (\<lambda>acc x. set_add x acc) acc xs) = set acc \<union> set xs"
  by (induction xs arbitrary: acc) auto

text \<open>The nodes shown as running are those that have started and not finished, each once.\<close>

theorem running_nodes_exact:
  "distinct (startButNotFinishedNodeIds (Some es))
   \<and> set (startButNotFinishedNodeIds (Some es)) =
       component_id ` {e \<in> set es. has_type ''node_started'' (snd e)} - component_id ` {e \<in> set es. has_type ''node_finished'' (snd e)}"
proof -
  have st: "component_id ` set (startedNodeList es) = component_id ` {e \<in> set es. has_type ''node_started'' (snd e)}"
    "distinct (map component_id (startedNodeList es))"
    using started_ids [of "[]"] by (simp_all add: startedNodeList_def)
  have fin: "set (finishNodeIds (Some es)) = (if startedNodeList es = [] then {} else component_id ` {e \<in> set es. has_type ''node_finished'' (snd e)})"
    by (cases "last (startedNodeList es)")
       (simp add: finishNodeIds_def lastNode_def set_unique filterFinishedNodeList_def image_image component_id_def)
  show ?thesis using st fin by (cases "startedNodeList es = []") (auto simp: startButNotFinishedNodeIds_def)
qed

section \<open>Two runs in quick succession\<close>

text \<open>The text a list of events stands for when no section of thinking occurs.\<close>

definition message_data :: "event list \<Rightarrow> jsval list" where
  "message_data es = map (\<lambda>e. obj_get e ''data'') (filter (has_type ''message'') es)"

definition run_text :: "event list \<Rightarrow> string" where
  "run_text es = concat (map (\<lambda>d. js_to_string (js_opt d ''content'')) (message_data es))"

definition plain_events :: "event list \<Rightarrow> bool" where
  "plain_events es = list_all (\<lambda>d. \<not> nullish d \<and> \<not> starts d \<and> \<not> stops d) (message_data es)"

lemma message_data_append: "message_data (xs @ ys) = message_data xs @ message_data ys"
  by (simp add: message_data_def)

lemma plain_message:
  assumes "plain_events es"
  shows "\<exists>r. findMessageFromList es = Inr r \<and> obj_get r ''content'' = JStr (run_text es)
     \<and> obj_get r ''id'' = (case es of [] \<Rightarrow> JUndef | e # _ \<Rightarrow> obj_get e ''message_id'')"
proof -
  have d: "\<forall>d\<in>set (message_data es). \<not> nullish d" "\<not> list_ex starts (message_data es)"
    "map decorated (message_data es) = map (\<lambda>d. js_to_string (js_opt d ''content'')) (message_data es)"
    using assms by (auto simp: plain_events_def list_all_iff list_ex_iff decorated_def Let_def)
  show ?thesis using message_of_events [OF d(1) message_data_def] d(2,3) by (simp add: run_text_def)
qed

lemma receive_events: "foldl (\<lambda>s e. receive_event e s) st es = st\<lparr>run_answers := run_answers st @ es\<rparr>"
  by (induction es arbitrary: st) (simp_all add: receive_event_def)

text \<open>
  A message sent within a second of the end of a run continues the list of its events: until the
  timer fires, what arrives is appended to the old answer and shown under its id; when it fires, what has
  arrived of the new answer is forgotten, and the new answer shows only what comes later.
\<close>

theorem quick_resend_mixes_answers:
  assumes "plain_events (e # es1)" "plain_events es2" "plain_events es3"
  shows "let st1 = finish_run (foldl (\<lambda>s e. receive_event e s) (start_run idle_run) (e # es1));
             st2 = foldl (\<lambda>s e. receive_event e s) (start_run st1) es2;
             st3 = foldl (\<lambda>s e. receive_event e s) (reset_timer st2) es3
     in run_done st1
      \<and> (\<exists>r. findMessageFromList (run_answers st2) = Inr r \<and> obj_get r ''id'' = obj_get e ''message_id''
            \<and> obj_get r ''content'' = JStr (run_text (e # es1) @ run_text es2))
      \<and> (\<exists>r. findMessageFromList (run_answers st3) = Inr r \<and> obj_get r ''content'' = JStr (run_text es3))"
proof -
  have "plain_events ((e # es1) @ es2)" "run_text ((e # es1) @ es2) = run_text (e # es1) @ run_text es2"
    using assms(1,2) unfolding plain_events_def run_text_def message_data_append by simp_all
  then have "\<exists>r. findMessageFromList ((e # es1) @ es2) = Inr r \<and> obj_get r ''id'' = obj_get e ''message_id''
      \<and> obj_get r ''content'' = JStr (run_text (e # es1) @ run_text es2)"
    using plain_message [of "(e # es1) @ es2"] by auto
  moreover have "\<exists>r. findMessageFromList es3 = Inr r \<and> obj_get r ''content'' = JStr (run_text es3)"
    using plain_message [OF assms(3)] by blast
  ultimately show ?thesis
    by (simp add: Let_def receive_events start_run_def finish_run_def reset_timer_def idle_run_def)
qed

definition text_event :: "string \<Rightarrow> string \<Rightarrow> event" where
  "text_event i c = [(''event'', JStr ''message''), (''message_id'', JStr i), (''data'', JObj [(''content'', JStr c)])]"

theorem quick_resend_mixes_answers_witness:
  "\<exists>r. findMessageFromList (run_answers (foldl (\<lambda>s e. receive_event e s)
        (start_run (finish_run (foldl (\<lambda>s e. receive_event e s) (start_run idle_run) [text_event ''1'' ''Yes.''])))
        [text_event ''2'' ''No.''])) = Inr r
     \<and> obj_get r ''id'' = JStr ''1'' \<and> obj_get r ''content'' = JStr ''Yes.No.''"
proof -
  have "plain_events [text_event ''1'' ''Yes.'']" "plain_events [text_event ''2'' ''No.'']" "plain_events []" by code_simp+
  from quick_resend_mixes_answers [OF this]
  have "\<exists>r. findMessageFromList (run_answers (foldl (\<lambda>s e. receive_event e s)
        (start_run (finish_run (foldl (\<lambda>s e. receive_event e s) (start_run idle_run) [text_event ''1'' ''Yes.''])))
        [text_event ''2'' ''No.''])) = Inr r
     \<and> obj_get r ''id'' = obj_get (text_event ''1'' ''Yes.'') ''message_id''
     \<and> obj_get r ''content'' = JStr (run_text [text_event ''1'' ''Yes.''] @ run_text [text_event ''2'' ''No.''])"
    unfolding Let_def by blast
  moreover have "obj_get (text_event ''1'' ''Yes.'') ''message_id'' = JStr ''1''"
    "run_text [text_event ''1'' ''Yes.''] @ run_text [text_event ''2'' ''No.''] = ''Yes.No.''" by code_simp+
  ultimately show ?thesis by simp
qed

section \<open>Uploads\<close>

text \<open>Removing one of two files with one name drops the responses of both, while one file stays in the list.\<close>

theorem removed_upload_drops_namesake:
  "let st = appendUploadResponse [(''id'', JStr ''b''), (''name'', JStr n)] [(2, n)]
              (appendUploadResponse [(''id'', JStr ''a''), (''name'', JStr n)] [(1, n)] \<lparr>uploadResponseList = [], fileList = []\<rparr>)
   in fileList (removeUploadedFile (1, n) st) = [(2, n)] \<and> uploadResponseList (removeUploadedFile (1, n) st) = []"
  by (simp add: appendUploadResponse_def removeUploadedFile_def Let_def)

end
