(* ===== verification/Variable_Options.thy ===== *)
theory Variable_Options
  imports Graph_Store Js_Json
begin

text \<open>
  Which variables a node of the canvas may refer to, and what they are: \<open>utils/canvas-util.tsx\<close>,
  \<open>pages/agent/hooks/use-get-begin-query.tsx\<close>, \<open>use-build-structured-output.ts\<close> and
  \<open>pages/agent/form/begin-form/utils.ts\<close>, \<open>use-watch-change.ts\<close>.

  A hook is a function of the state it subscribes to. Icons and rendered labels are left out; a
  translation key stands for its text. \<open>get\<close> along a fixed path is optional chaining. The search for
  upstream nodes recurses without a check for cycles, so it has an explicit depth; running out of it
  is the exhausted call stack.
\<close>

section \<open>Upstream nodes\<close>

fun filterAllUpstreamNodeIds :: "nat \<Rightarrow> edge list \<Rightarrow> string list \<Rightarrow> string list res" where
  "filterAllUpstreamNodeIds 0 es nodeIds = Inl RangeError"
| "filterAllUpstreamNodeIds (Suc depth) es nodeIds =
     foldl (\<lambda>acc nodeId. bind_r acc (\<lambda>pre.
         let upstreamNodeIds = map source (filter (\<lambda>x. target x = nodeId) es) in
         bind_r (filterAllUpstreamNodeIds depth es upstreamNodeIds)
           (\<lambda>rest. Inr (add_new pre (upstreamNodeIds @ rest)))))
       (Inr []) nodeIds"

definition filterChildNodeIds :: "node list \<Rightarrow> string option \<Rightarrow> string list" where
  "filterChildNodeIds ns nodeId = map nid (filter (\<lambda>x. parentId x = nodeId) ns)"

section \<open>Output options\<close>

definition AgentStructuredOutputField :: string where
  "AgentStructuredOutputField = ''structured''"

definition isAgentStructured :: "string option \<Rightarrow> string \<Rightarrow> bool" where
  "isAgentStructured i lbl =
     (lbl = AgentStructuredOutputField \<and> (case i of None \<Rightarrow> False | Some n \<Rightarrow> starts_with n (op_str OpAgent @ '':'')))"

definition buildVariableValue :: "string \<Rightarrow> string option \<Rightarrow> string" where
  "buildVariableValue val nodeId = (case nodeId of None \<Rightarrow> ''undefined'' | Some n \<Rightarrow> n) @ ''@'' @ val"

record var_option =
  olabel :: string
  ovalue :: string
  oparent :: string     \<comment> \<open>\<open>parentLabel\<close>\<close>
  otype :: jsval

record option_group =
  gtitle :: string
  gvalue :: "string option"
  goptions :: "var_option list"

definition buildSecondaryOutputOptions :: "jsval \<Rightarrow> string option \<Rightarrow> string \<Rightarrow> var_option list" where
  "buildSecondaryOutputOptions outputs nodeId parentLabel =
     map (\<lambda>(x, out). \<lparr>olabel = x, ovalue = buildVariableValue x nodeId, oparent = parentLabel,
                      otype = (if isAgentStructured nodeId x then JStr ''object'' else js_opt out ''type'')\<rparr>)
       (entries outputs)"

definition node_outputs :: "node \<Rightarrow> jsval" where
  \<comment> \<open>\<open>x.data?.form?.outputs\<close>\<close>
  "node_outputs x = (case node_form x of None \<Rightarrow> JUndef | Some f \<Rightarrow> js_opt f ''outputs'')"

definition buildOutputOptions :: "node \<Rightarrow> option_group res" where
  "buildOutputOptions x =
     (case node_form x of
        None \<Rightarrow> Inl TypeError
      | Some f \<Rightarrow> bind_r (js_prop f ''outputs'') (\<lambda>outputs.
          if outputs = JNull then Inl TypeError
          else Inr \<lparr>gtitle = node_name x, gvalue = Some (nid x),
                    goptions = buildSecondaryOutputOptions outputs (Some (nid x)) (node_name x)\<rparr>))"

definition buildNodeOutputOptions :: "libs \<Rightarrow> node list \<Rightarrow> string list \<Rightarrow> option_group list res" where
  "buildNodeOutputOptions L ns nodeIds =
     map_r buildOutputOptions (filter (\<lambda>x. nid x \<in> set nodeIds \<and> \<not> lodash_isEmpty L (node_outputs x)) ns)"

definition buildUpstreamNodeOutputOptions :: "libs \<Rightarrow> nat \<Rightarrow> node list \<Rightarrow> edge list \<Rightarrow> string option \<Rightarrow> option_group list res" where
  "buildUpstreamNodeOutputOptions L depth ns es nodeId =
     (case nodeId of
        None \<Rightarrow> Inr []
      | Some n \<Rightarrow> if n = [] then Inr []
                  else bind_r (filterAllUpstreamNodeIds depth es [n]) (\<lambda>ids. buildNodeOutputOptions L ns ids))"

definition buildChildOutputOptions :: "libs \<Rightarrow> node list \<Rightarrow> string option \<Rightarrow> option_group list res" where
  "buildChildOutputOptions L ns nodeId =
     map_r buildOutputOptions (filter (\<lambda>x. parentId x = nodeId \<and> \<not> lodash_isEmpty L (node_outputs x)) ns)"

definition getStructuredDatatype :: "jsval \<Rightarrow> jsval \<times> jsval" where
  \<comment> \<open>\<open>dataType\<close> and \<open>compositeDataType\<close>\<close>
  "getStructuredDatatype val =
     (let dataType = js_opt val ''type'';
          it = js_opt (js_opt val ''items'') ''type'';
          arrayItemsType = (if it = JUndef then JStr ''string'' else it)
      in (dataType, if dataType = JStr ''array'' then JStr (''array<'' @ js_to_string arrayItemsType @ ''>'') else dataType))"

section \<open>The begin node\<close>

definition BeginId :: string where
  "BeginId = ''begin''"

definition begin_form :: "rf_state \<Rightarrow> jsval" where
  "begin_form s = (case getNode (Val BeginId) s of None \<Rightarrow> JUndef | Some n \<Rightarrow> (case node_form n of None \<Rightarrow> JUndef | Some f \<Rightarrow> f))"

definition buildBeginInputListFromObject :: "jsval \<Rightarrow> jsval obj list" where
  "buildBeginInputListFromObject inputs =
     map (\<lambda>(key, val). obj_put ''key'' (JStr key) (spread (js_or val (JObj [])))) (entries (js_or inputs (JObj [])))"

definition transferInputsArrayToObject :: "libs \<Rightarrow> jsval obj list \<Rightarrow> jsval obj" where
  "transferInputsArrayToObject L inputs =
     obj_of_entries (map (\<lambda>cur. (js_to_string (obj_get cur ''key''), JObj (lodash_omit L cur [''key'']))) inputs)"

definition transformRequestSchemaToOutput :: "jsval \<Rightarrow> jsval obj res" where
  "transformRequestSchemaToOutput schema =
     bind_r (map_r (\<lambda>(key, val). case val of
         JArr cs \<Rightarrow> map_r (\<lambda>cur. bind_r (js_prop cur ''key'') (\<lambda>k. bind_r (js_prop cur ''type'') (\<lambda>t.
                       Inr (key @ ''.'' @ js_to_string k, JObj [(''type'', t)])))) cs
       | _ \<Rightarrow> Inr []) (entries (js_or schema (JObj []))))
       (\<lambda>outs. Inr (obj_of_entries (concat outs)))"

definition useSelectBeginNodeDataInputs :: "rf_state \<Rightarrow> jsval obj list" where
  "useSelectBeginNodeDataInputs s = buildBeginInputListFromObject (js_coalesce (js_opt (begin_form s) ''inputs'') (JObj []))"

definition useIsTaskMode :: "bool option \<Rightarrow> rf_state \<Rightarrow> bool" where
  "useIsTaskMode isTask s = (case isTask of Some b \<Rightarrow> b | None \<Rightarrow> js_opt (begin_form s) ''mode'' = JStr ''task'')"

definition useGetBeginNodeDataQueryIsSafe :: "rf_state \<Rightarrow> bool" where
  "useGetBeginNodeDataQueryIsSafe s =
     (\<not> list_ex (\<lambda>q. \<not> truthy (obj_get q ''optional'') \<and> obj_get q ''type'' = JStr ''file'') (useSelectBeginNodeDataInputs s))"

section \<open>Groups of options\<close>

definition useBuildParentOutputOptions :: "string option \<Rightarrow> rf_state \<Rightarrow> option_group list res" where
  "useBuildParentOutputOptions parent s =
     (case getNode (opt_nullable parent) s of
        Some parentNode \<Rightarrow>
          if getOperatorTypeFromId (opt_nullable parent) s = Some (op_str OpLoop)
          then bind_r (buildOutputOptions parentNode) (\<lambda>g. Inr [g]) else Inr []
      | None \<Rightarrow> Inr [])"

definition transferToVariableType :: "jsval \<Rightarrow> jsval" where
  "transferToVariableType type = (if type \<in> {JStr ''line'', JStr ''paragraph'', JStr ''options''} then JStr ''string'' else type)"

definition useBuildBeginDynamicVariableOptions :: "rf_state \<Rightarrow> option_group" where
  "useBuildBeginDynamicVariableOptions s =
     \<lparr>gtitle = ''flow.beginInput'', gvalue = None,
      goptions = map (\<lambda>x. \<lparr>olabel = js_to_string (obj_get x ''name''), ovalue = ''begin@'' @ js_to_string (obj_get x ''key''),
                            oparent = ''flow.beginInput'', otype = transferToVariableType (obj_get x ''type'')\<rparr>)
                   (useSelectBeginNodeDataInputs s)\<rparr>"

definition Env :: string where
  "Env = ''env.''"

fun js_typeof :: "jsval \<Rightarrow> string" where
  "js_typeof JUndef = ''undefined''"
| "js_typeof (JBool _) = ''boolean''"
| "js_typeof (JNum _) = ''number''"
| "js_typeof (JStr _) = ''string''"
| "js_typeof _ = ''object''"

definition useBuildGlobalWithBeginVariableOptions :: "jsval \<Rightarrow> rf_state \<Rightarrow> option_group" where
  \<comment> \<open>the first argument is \<open>data?.dsl?.globals\<close>\<close>
  "useBuildGlobalWithBeginVariableOptions globals s =
     (let dynamic = useBuildBeginDynamicVariableOptions s;
          globalOptions = map (\<lambda>(k, v). \<lparr>olabel = k, ovalue = k, oparent = ''flow.beginInput'',
              otype = JStr (if is_array v then ''array'' @ (if k = ''sys.files'' then ''<file>'' else []) else js_typeof v)\<rparr>)
            (filter (\<lambda>kv. \<not> starts_with (fst kv) Env) (entries (js_coalesce globals (JObj []))))
      in dynamic\<lparr>goptions := goptions dynamic @ globalOptions\<rparr>)"

definition useBuildConversationVariableOptions :: "jsval \<Rightarrow> option_group res" where
  \<comment> \<open>the argument is \<open>data?.dsl?.variables\<close>\<close>
  "useBuildConversationVariableOptions variables =
     bind_r (map_r (\<lambda>(k, v). bind_r (js_prop v ''type'') (\<lambda>t.
         Inr \<lparr>olabel = Env @ k, ovalue = Env @ k, oparent = ''flow.conversationVariable'', otype = t\<rparr>))
       (entries (js_coalesce variables (JObj []))))
       (\<lambda>os. Inr \<lparr>gtitle = ''flow.conversationVariable'', gvalue = None, goptions = os\<rparr>)"

definition useBuildVariableOptions :: "libs \<Rightarrow> nat \<Rightarrow> string option \<Rightarrow> string option \<Rightarrow> rf_state \<Rightarrow> option_group list res" where
  "useBuildVariableOptions L depth nodeId parent s =
     bind_r (buildUpstreamNodeOutputOptions L depth (nodes s) (edges s) nodeId) (\<lambda>a.
     bind_r (useBuildParentOutputOptions parent s) (\<lambda>b.
     bind_r (buildUpstreamNodeOutputOptions L depth (nodes s) (edges s) parent) (\<lambda>c. Inr (a @ b @ c))))"

datatype agent_variable_type = VarBegin | VarConversation

definition useBuildQueryVariableOptions ::
    "libs \<Rightarrow> nat \<Rightarrow> jsval \<Rightarrow> jsval \<Rightarrow> node option \<Rightarrow> string list \<Rightarrow> agent_variable_type list option \<Rightarrow> rf_state \<Rightarrow> option_group list res" where
  "useBuildQueryVariableOptions L depth globals variables n nodeIds except s =
     bind_r (useBuildVariableOptions L depth (map_option nid n) (case n of None \<Rightarrow> None | Some x \<Rightarrow> parentId x) s) (\<lambda>options.
     bind_r (useBuildConversationVariableOptions variables) (\<lambda>conversation.
       let global = useBuildGlobalWithBeginVariableOptions globals s in
       if nodeIds \<noteq> [] \<or> (case except of None \<Rightarrow> False | Some xs \<Rightarrow> xs \<noteq> [])
       then bind_r (buildNodeOutputOptions L (nodes s) nodeIds) (\<lambda>nodeOutput.
              Inr (map (\<lambda>x. case x of VarBegin \<Rightarrow> global | VarConversation \<Rightarrow> conversation) (case except of None \<Rightarrow> [] | Some xs \<Rightarrow> xs)
                   @ nodeOutput))
       else Inr ([global, conversation] @ options)))"

definition toLower :: "jsval \<Rightarrow> string" where
  "toLower v = (if nullish v then [] else toLowerCase (js_to_string v))"

definition slice_end :: "nat \<Rightarrow> string \<Rightarrow> string" where
  \<comment> \<open>\<open>s.slice(-n)\<close> for a positive \<open>n\<close>\<close>
  "slice_end n s = drop (length s - n) s"

definition option_has_type :: "string list \<Rightarrow> var_option \<Rightarrow> bool" where
  "option_has_type types y =
     (list_ex (\<lambda>x. if starts_with (toLowerCase x) ''array'' then includes_str (toLower (otype y)) (toLowerCase x)
                   else toLower (otype y) = toLowerCase x) types
      \<or> isAgentStructured (Some (ovalue y)) (slice_end (length AgentStructuredOutputField) (ovalue y)))"

definition useFilterQueryVariableOptionsByTypes :: "string list \<Rightarrow> option_group list \<Rightarrow> option_group list" where
  "useFilterQueryVariableOptionsByTypes types nextOptions =
     (if types \<noteq> [] then map (\<lambda>g. g\<lparr>goptions := filter (option_has_type types) (goptions g)\<rparr>) nextOptions else nextOptions)"

definition ExcludedNodes :: "Operator list" where
  "ExcludedNodes = [OpCategorize, OpBegin, OpNote]"

definition useBuildComponentIdOptions :: "string option \<Rightarrow> string option \<Rightarrow> rf_state \<Rightarrow> (string \<times> string) list" where
  \<comment> \<open>labels and values\<close>
  "useBuildComponentIdOptions nodeId parent s =
     map (\<lambda>x. (node_name x, nid x))
       (filter (\<lambda>x. Some (nid x) \<noteq> nodeId \<and> \<not> list_ex (\<lambda>y. op_str y = nlabel x) ExcludedNodes
          \<and> (case parent of
               Some p \<Rightarrow> if p \<noteq> [] then (parentId x = Some p \<or> parentId x = None) \<and> nid x \<noteq> p else parentId x = None
             | None \<Rightarrow> parentId x = None)) (nodes s))"

definition flatOptions :: "option_group list \<Rightarrow> var_option list" where
  "flatOptions options = foldl (\<lambda>pre cur. pre @ goptions cur) [] options"

section \<open>Structured outputs\<close>

definition splitValue :: "string \<Rightarrow> string list" where
  "splitValue val = js_split (CHR ''@'') val"

definition getNodeId :: "string \<Rightarrow> string" where
  "getNodeId val = hd (splitValue val)"

definition showSecondaryMenu :: "string \<Rightarrow> string \<Rightarrow> rf_state \<Rightarrow> bool" where
  "showSecondaryMenu val outputLabel s =
     (getOperatorTypeFromId (Val (getNodeId val)) s = Some (op_str OpAgent) \<and> outputLabel = AgentStructuredOutputField)"

definition getStructuredOutput :: "string \<Rightarrow> rf_state \<Rightarrow> jsval" where
  "getStructuredOutput val s =
     (case getNode (Val (getNodeId val)) s of
        None \<Rightarrow> JUndef
      | Some n \<Rightarrow> js_opt (node_outputs n) AgentStructuredOutputField)"

definition schema_fields :: "jsval \<Rightarrow> jsval obj" where
  \<comment> \<open>\<open>get(values, 'properties') || get(values, 'items.properties')\<close> of a plain object; both are
     objects in a schema\<close>
  "schema_fields values =
     (case values of
        JObj _ \<Rightarrow> (case js_or (js_opt values ''properties'') (js_opt (js_opt values ''items'') ''properties'') of JObj ps \<Rightarrow> ps | _ \<Rightarrow> [])
      | _ \<Rightarrow> [])"

lemma obj_get_smaller: "obj_get ob k = JObj ps \<Longrightarrow> size (JObj ps) < size (JObj ob)"
  by (induction ob) (auto split: if_splits)

lemma schema_fields_size: "size (JObj (schema_fields v)) \<le> Suc (size v)"
proof (cases "schema_fields v = []")
  case False
  then obtain ob ps where v: "v = JObj ob" "schema_fields v = ps"
    and ps: "js_or (js_opt v ''properties'') (js_opt (js_opt v ''items'') ''properties'') = JObj ps"
    unfolding schema_fields_def by (auto split: jsval.splits)
  have nx: "\<not> is_array_index ''properties''" by code_simp
  consider "obj_get ob ''properties'' = JObj ps" | it where "obj_get ob ''items'' = JObj it" "obj_get it ''properties'' = JObj ps"
    using v ps nx by (cases "obj_get ob ''items''") (auto simp: js_or_def js_opt_def split: if_splits)
  then have "size (JObj ps) < size (JObj ob)"
    using obj_get_smaller [of ob] obj_get_smaller [of _ "''properties''" ps] by cases (blast intro: less_trans)+
  then show ?thesis using v by simp
qed simp

text \<open>The loop of \<open>findTypeByValue\<close> over the properties, with the recursive call.\<close>

function find_type :: "jsval obj \<Rightarrow> string \<Rightarrow> string \<Rightarrow> jsval" where
  "find_type [] goal path = JUndef"
| "find_type ((k, v) # rest) goal path =
     (let nextPath = (if path \<noteq> [] then path @ ''.'' @ k else k); (dataType, composite) = getStructuredDatatype v in
      if nextPath = goal then composite
      else let type = (if dataType = JStr ''object'' \<or> dataType = JStr ''array'' then find_type (schema_fields v) goal nextPath else JUndef)
           in if truthy type then type else find_type rest goal path)"
  by pat_completeness auto

termination
proof (relation "measure (\<lambda>(es, t, p). size (JObj es))")
  show "wf (measure (\<lambda>(es :: jsval obj, t :: string, p :: string). size (JObj es)))" by simp
next
  fix k v rest goal path np d c
  show "((schema_fields v, goal, np), ((k, v) # rest, goal, path)) \<in> measure (\<lambda>(es, t, p). size (JObj es))"
    using schema_fields_size [of v] by simp
next
  fix k v rest goal path np d c ty
  show "((rest, goal, path), ((k, v) # rest, goal, path)) \<in> measure (\<lambda>(es, t, p). size (JObj es))" by simp
qed

definition findTypeByValue :: "jsval \<Rightarrow> string \<Rightarrow> string \<Rightarrow> jsval" where
  "findTypeByValue values goal path = find_type (schema_fields values) goal path"

definition structured_path :: "string \<Rightarrow> string option" where
  \<comment> \<open>what follows \<open>node@structured\<close>\<close>
  "structured_path val =
     (case splitValue val of
        _ # f # _ \<Rightarrow> if starts_with f AgentStructuredOutputField then Some (drop (length AgentStructuredOutputField) f) else None
      | _ \<Rightarrow> None)"

definition findAgentStructuredOutputTypeByValue :: "string \<Rightarrow> rf_state \<Rightarrow> jsval" where
  "findAgentStructuredOutputTypeByValue val s =
     (if val = [] then JUndef
      else if getOperatorTypeFromId (Val (getNodeId val)) s = Some (op_str OpAgent)
      then (case structured_path val of
              None \<Rightarrow> JUndef
            | Some f \<Rightarrow> if drop 1 f = [] then JUndef else findTypeByValue (getStructuredOutput val s) (drop 1 f) [])
      else JUndef)"

definition findAgentStructuredOutputLabel :: "string \<Rightarrow> var_option list \<Rightarrow> rf_state \<Rightarrow> (string \<times> string) option" where
  \<comment> \<open>label and value of the option\<close>
  "findAgentStructuredOutputLabel val options s =
     (if getOperatorTypeFromId (Val (getNodeId val)) s = Some (op_str OpAgent)
      then map_option (\<lambda>f. ((case find (\<lambda>x. includes_str val (ovalue x)) options of None \<Rightarrow> [] | Some o' \<Rightarrow> olabel o') @ f, val))
             (structured_path val)
      else None)"

definition findAgentStructuredOutputLabelByValue :: "string \<Rightarrow> rf_state \<Rightarrow> string" where
  "findAgentStructuredOutputLabelByValue val s =
     (if val = [] then []
      else case getNode (Val (getNodeId val)) s of
             None \<Rightarrow> []
           | Some n \<Rightarrow> if node_name n = [] then []
                       else node_name n @ '' / '' @ (case splitValue val of _ # f # _ \<Rightarrow> f | _ \<Rightarrow> ''undefined''))"

definition BeginQueryTypeMap :: "string \<Rightarrow> string option" where
  "BeginQueryTypeMap t =
     map_of [(''line'', ''string''), (''paragraph'', ''string''), (''options'', ''array<string>''), (''file'', ''File''),
             (''integer'', ''number''), (''boolean'', ''boolean'')] t"

definition getType :: "var_option list \<Rightarrow> string \<Rightarrow> rf_state \<Rightarrow> jsval" where
  "getType flattenOptions val s =
     (let item = find (\<lambda>x. ovalue x = val) flattenOptions;
          currentType = js_or (case item of None \<Rightarrow> JUndef | Some x \<Rightarrow> otype x) (findAgentStructuredOutputTypeByValue val s)
      in case BeginQueryTypeMap (js_to_string currentType) of
           Some t \<Rightarrow> if truthy currentType then JStr t else currentType
         | None \<Rightarrow> currentType)"

section \<open>Upstream nodes are the nodes that reach a node\<close>

definition reverse_edge :: "edge \<Rightarrow> edge" where
  "reverse_edge e = e\<lparr>source := target e, target := source e\<rparr>"

definition flow_rel :: "edge list \<Rightarrow> (string \<times> string) set" where
  "flow_rel es = edge_rel es (\<lambda>_. True)"

lemma reverse_direct: "direct_downstream (map reverse_edge es) (\<lambda>_. True) n = map source (filter (\<lambda>x. target x = n) es)"
  by (induction es) (auto simp: direct_downstream_def reverse_edge_def)

lemma reverse_rel: "edge_rel (map reverse_edge es) (\<lambda>_. True) = (flow_rel es)\<inverse>"
  by (auto simp: edge_rel_iff flow_rel_def reverse_edge_def)

text \<open>
  C25: the search for upstream nodes is the search for downstream nodes on the graph with all edges
  reversed, results, order and exhausted stack included.
\<close>

theorem upstream_is_reversed_downstream:
  "filterAllUpstreamNodeIds depth es ns = filterAllDownstreamNodeIds depth (map reverse_edge es) (\<lambda>_. True) ns"
  by (induction depth arbitrary: ns) (simp_all add: reverse_direct Let_def)

lemma upstream_ids:
  assumes "acyclic (flow_rel es)" and "length es + 2 \<le> d"
  shows "\<exists>ids. filterAllUpstreamNodeIds d es ns = Inr ids \<and> set ids = {m. \<exists>n\<in>set ns. (m, n) \<in> (flow_rel es)\<^sup>+} \<and> distinct ids"
proof -
  have e: "filterAllUpstreamNodeIds d es ns = filterAllDownstreamNodeIds d (map reverse_edge es) (\<lambda>_. True) ns"
    by (induction d arbitrary: ns) (simp_all add: reverse_direct Let_def)
  have "acyclic (edge_rel (map reverse_edge es) (\<lambda>_. True))" using assms(1) by (simp add: reverse_rel acyclic_converse)
  then obtain ids where "filterAllUpstreamNodeIds d es ns = Inr ids" "distinct ids"
    "set ids = ((flow_rel es)\<inverse>)\<^sup>+ `` set ns"
    using filterAll_enough_depth [of "map reverse_edge es" "\<lambda>_. True" d ns] assms(2) by (auto simp: e reverse_rel)
  then show ?thesis by (auto simp: trancl_converse)
qed

lemma output_group:
  assumes "lodash_api L" and "\<not> lodash_isEmpty L (node_outputs x)"
  shows "buildOutputOptions x = Inr \<lparr>gtitle = node_name x, gvalue = Some (nid x),
     goptions = buildSecondaryOutputOptions (node_outputs x) (Some (nid x)) (node_name x)\<rparr>"
proof -
  have n: "\<not> nullish (node_outputs x)" using assms(2) lodash_api.isEmpty_nullish [OF assms(1)] by blast
  then obtain f where f: "node_form x = Some f" by (cases "node_form x") (simp_all add: node_outputs_def)
  then obtain out where "js_prop f ''outputs'' = Inr out" "node_outputs x = out"
    using n by (cases "js_prop f ''outputs''") (simp_all add: node_outputs_def js_opt_def)
  then show ?thesis using f n by (auto simp: buildOutputOptions_def)
qed

lemma option_node: "CHR ''@'' \<notin> set n \<Longrightarrow> o' \<in> set (buildSecondaryOutputOptions outs (Some n) p) \<Longrightarrow> getNodeId (ovalue o') = n"
  by (auto simp: buildSecondaryOutputOptions_def buildVariableValue_def getNodeId_def splitValue_def js_split_append)

text \<open>
  The operator outputs that are offered to a node are those of exactly the nodes with outputs
  from which the node can be reached, in the order of the canvas, and every offered value names the
  node that produces it.
\<close>

theorem upstream_options_exact:
  assumes L: "lodash_api L" and ac: "acyclic (flow_rel es)" and d: "length es + 2 \<le> depth"
    and n: "n \<noteq> []" and ids: "\<forall>x\<in>set ns. CHR ''@'' \<notin> set (nid x)"
  shows "\<exists>gs. buildUpstreamNodeOutputOptions L depth ns es (Some n) = Inr gs
     \<and> map gvalue gs = map (\<lambda>x. Some (nid x)) (filter (\<lambda>x. (nid x, n) \<in> (flow_rel es)\<^sup>+ \<and> \<not> lodash_isEmpty L (node_outputs x)) ns)
     \<and> (\<forall>g\<in>set gs. \<forall>o'\<in>set (goptions g). Some (getNodeId (ovalue o')) = gvalue g)"
proof -
  obtain up where up: "filterAllUpstreamNodeIds depth es [n] = Inr up" "set up = {m. (m, n) \<in> (flow_rel es)\<^sup>+}"
    using upstream_ids [OF ac d, of "[n]"] by auto
  define xs where "xs = filter (\<lambda>x. nid x \<in> set up \<and> \<not> lodash_isEmpty L (node_outputs x)) ns"
  define g where "g x = \<lparr>gtitle = node_name x, gvalue = Some (nid x),
     goptions = buildSecondaryOutputOptions (node_outputs x) (Some (nid x)) (node_name x)\<rparr>" for x
  have "map_r buildOutputOptions xs = Inr (map g xs)"
    by (rule map_r_total) (simp add: xs_def g_def output_group [OF L])
  then have "buildUpstreamNodeOutputOptions L depth ns es (Some n) = Inr (map g xs)"
    using n by (simp add: buildUpstreamNodeOutputOptions_def up buildNodeOutputOptions_def xs_def)
  moreover have "map gvalue (map g xs) = map (\<lambda>x. Some (nid x)) (filter (\<lambda>x. (nid x, n) \<in> (flow_rel es)\<^sup>+ \<and> \<not> lodash_isEmpty L (node_outputs x)) ns)"
    by (simp add: xs_def g_def up comp_def)
  moreover have "Some (getNodeId (ovalue o')) = gvalue (g x)" if "x \<in> set xs" "o' \<in> set (goptions (g x))" for x o'
  proof -
    have "CHR ''@'' \<notin> set (nid x)" using that(1) ids by (simp add: xs_def)
    then show ?thesis using option_node [of "nid x" o'] that(2) by (simp add: g_def)
  qed
  ultimately show ?thesis by auto
qed

definition options_node :: "string \<Rightarrow> node" where
  "options_node i = \<lparr>nid = i, ntype = None, position = \<lparr>px = 0, py = 0\<rparr>,
     ndata = \<lparr>label = ''Retrieval'', nname = i, form = Some (JObj [(''outputs'', JObj [(''content'', JObj [(''type'', JStr ''string'')])])])\<rparr>,
     parentId = None, width = None, height = None, selected = None, dragging = None, draggable = None, dragHandle = None, extent = None\<rparr>"

definition options_edge :: edge where
  "options_edge = \<lparr>eid = ''e'', source = ''a'', target = ''b'', sourceHandle = Null, targetHandle = Null, edata = JUndef\<rparr>"

theorem upstream_options_exact_witness:
  "\<exists>gs. buildUpstreamNodeOutputOptions ref_libs 3 [options_node ''a'', options_node ''b''] [options_edge] (Some ''b'') = Inr gs
     \<and> map gvalue gs = [Some ''a'']"
proof -
  have r: "flow_rel [options_edge] = {(''a'', ''b'')}"
    by (auto simp: flow_rel_def edge_rel_iff options_edge_def)
  have tr: "{(''a'', ''b'')}\<^sup>+ = {(''a'', ''b'')}"
    by (rule trancl_id) (simp add: trans_def)
  have "acyclic (flow_rel [options_edge])" by (simp add: r acyclic_def tr)
  moreover have "filter (\<lambda>x. (nid x, ''b'') \<in> (flow_rel [options_edge])\<^sup>+ \<and> \<not> lodash_isEmpty ref_libs (node_outputs x))
      [options_node ''a'', options_node ''b''] = [options_node ''a'']"
    by (simp add: r tr options_node_def node_outputs_def)
  ultimately show ?thesis
    using upstream_options_exact [OF ref.lodash_api_axioms, of "[options_edge]" 3 "''b''" "[options_node ''a'', options_node ''b'']"]
    by (auto simp: options_node_def)
qed

end
