(* ===== verification/Agent_Session.thy ===== *)
theory Agent_Session
  imports Agent_Chat Variable_Options
begin

text \<open>
  The chat session of an agent: \<open>useSendAgentMessage\<close> of \<open>pages/agent/chat/use-send-agent-message.ts\<close>, which
  composes the input, the uploads, the message list, the stream of events and the session id.

  A call that waits for the stream is split where it waits: the part up to the request, the effects of every
  event, and the part after the stream has ended. New uuids are arguments, requests are results.
\<close>

section \<open>State and environment\<close>

record chat_env =
  env_agentId :: jsval
  env_hint :: string                            \<comment> \<open>the translated \<open>runningHintText\<close>\<close>
  env_inputs :: "jsval obj list"                \<comment> \<open>\<open>useSelectBeginNodeDataInputs\<close>\<close>
  env_beginParams :: "jsval obj list option"
  env_releaseMode :: jsval
  env_isShared :: bool
  env_isTaskMode :: bool

record agent_chat =
  chat_value :: string
  chat_sessionId :: jsval
  chat_messages :: "message list"
  chat_uploads :: upload_state
  chat_run :: run_state
  chat_references :: "event list"               \<comment> \<open>\<open>messageEndEventList\<close>\<close>
  chat_taskSent :: bool                         \<comment> \<open>\<open>sendedTaskMessage.current\<close>\<close>

definition new_chat :: agent_chat where
  "new_chat = \<lparr>chat_value = [], chat_sessionId = JNull, chat_messages = [],
     chat_uploads = \<lparr>uploadResponseList = [], fileList = []\<rparr>, chat_run = idle_run, chat_references = [], chat_taskSent = False\<rparr>"

section \<open>Sending\<close>

definition send_params :: "libs \<Rightarrow> chat_env \<Rightarrow> message \<Rightarrow> jsval obj list option \<Rightarrow> jsval \<Rightarrow> agent_chat \<Rightarrow> jsval obj" where
  "send_params L env message beginInputs exploreSessionId st =
     (let params = [(''id'', env_agentId env), (''running_hint_text'', JStr (env_hint env))] in
      case obj_get message ''content'' of
        JStr content \<Rightarrow>
          let inputs = (case beginInputs of Some i \<Rightarrow> i | None \<Rightarrow> (case env_beginParams env of Some i \<Rightarrow> i | None \<Rightarrow> env_inputs env));
              params = params @ [(''query'', JStr content), (''inputs'', JObj (transferInputsArrayToObject L inputs)),
                 (''files'', JArr (map JObj (uploadResponseList (chat_uploads st)))),
                 (''session_id'', js_or (chat_sessionId st) exploreSessionId)]
          in (if truthy (env_releaseMode env) then params @ [(''release'', env_releaseMode env)] else params)
      | _ \<Rightarrow> params)"

definition sendMessage :: "libs \<Rightarrow> chat_env \<Rightarrow> message \<Rightarrow> jsval obj list option \<Rightarrow> jsval \<Rightarrow> agent_chat \<Rightarrow> agent_chat \<times> jsval obj" where
  \<comment> \<open>up to the request\<close>
  "sendMessage L env message beginInputs exploreSessionId st =
     (st\<lparr>chat_run := start_run (chat_run st)\<rparr>, send_params L env message beginInputs exploreSessionId st)"

definition sendMessage_settled :: "string \<Rightarrow> (jsnum \<times> jsval) option \<Rightarrow> agent_chat \<Rightarrow> agent_chat" where
  \<comment> \<open>the stream has ended with the response; the content of the message is put back after an error\<close>
  "sendMessage_settled content res st =
     (let st1 = st\<lparr>chat_run := finish_run (chat_run st), chat_uploads := clearUploadResponse (chat_uploads st)\<rparr> in
      if receiveMessageError res
      then st1\<lparr>chat_value := content, chat_messages := removeLatestMessage (chat_messages st1)\<rparr> else st1)"

definition file_value :: "nat \<times> string \<Rightarrow> jsval" where
  "file_value f = JObj [(''name'', JStr (snd f))]"

definition handlePressEnter :: "libs \<Rightarrow> chat_env \<Rightarrow> string \<Rightarrow> jsval \<Rightarrow> agent_chat \<Rightarrow> agent_chat \<times> jsval obj option" where
  "handlePressEnter L env u exploreSessionId st =
     (if js_trim (chat_value st) = [] then (st, None)
      else let msgBody = buildRequestBody u (chat_value st);
               (st1, request) =
                 (if run_done (chat_run st)
                  then (case sendMessage L env msgBody None exploreSessionId (st\<lparr>chat_value := []\<rparr>) of (s, p) \<Rightarrow> (s, Some p))
                  else (st, None))
           in (st1\<lparr>chat_messages := addNewestOneQuestion u
                      (msgBody @ [(''files'', JArr (map file_value (fileList (chat_uploads st))))]) (chat_messages st1)\<rparr>, request))"

fun join_text :: "string \<Rightarrow> string list \<Rightarrow> string" where
  "join_text sep [] = []"
| "join_text sep [x] = x"
| "join_text sep (x # y # xs) = x @ sep @ join_text sep (y # xs)"

definition form_text :: "jsval obj \<Rightarrow> string" where
  "form_text inputs = join_text ''<br/>''
     (map (\<lambda>(_, val). js_to_string (js_opt val ''name'') @ '': '' @ js_to_string (js_opt val ''value'')) (entries (JObj inputs)))"

definition sendFormMessage :: "chat_env \<Rightarrow> string \<Rightarrow> jsval obj \<Rightarrow> jsval obj \<Rightarrow> agent_chat \<Rightarrow> agent_chat \<times> jsval obj" where
  \<comment> \<open>up to the request; the body and its inputs\<close>
  "sendFormMessage env u body inputs st =
     (st\<lparr>chat_messages := addNewestOneQuestion u [(''content'', JStr (form_text inputs)), (''role'', JStr ''user'')] (chat_messages st),
         chat_run := start_run (chat_run st)\<rparr>,
      obj_assign body ((''session_id'', chat_sessionId st) #
        (if truthy (env_releaseMode env) then [(''release'', env_releaseMode env)] else [])))"

definition sendMessageInTaskMode :: "libs \<Rightarrow> chat_env \<Rightarrow> string \<Rightarrow> agent_chat \<Rightarrow> agent_chat \<times> jsval obj option" where
  "sendMessageInTaskMode L env u st =
     (if env_isShared env \<or> \<not> env_isTaskMode env \<or> chat_taskSent st then (st, None)
      else (case sendMessage L env (buildRequestBody u []) None JUndef st of (s, p) \<Rightarrow> (s\<lparr>chat_taskSent := True\<rparr>, Some p)))"

section \<open>Effects, stopping and resetting\<close>

definition receive :: "libs \<Rightarrow> string \<Rightarrow> event \<Rightarrow> agent_chat \<Rightarrow> agent_chat res" where
  \<comment> \<open>an event arrives and the effects run: answer, references, session (which depends on the first event only)\<close>
  "receive L u e st =
     (let run = receive_event e (chat_run st) in
      bind_r (answer_effect L u (run_answers run) (chat_messages st)) (\<lambda>ms.
        Inr (st\<lparr>chat_run := run, chat_messages := ms,
                chat_references := reference_effect (run_answers run) (chat_references st),
                chat_sessionId := (if run_answers (chat_run st) = [] then session_effect (run_answers run) (chat_sessionId st)
                                   else chat_sessionId st)\<rparr>)))"

definition stopConversation :: "chat_env \<Rightarrow> agent_chat \<Rightarrow> jsval option" where
  \<comment> \<open>the task the service is asked to stop; the stream is aborted and ends\<close>
  "stopConversation env st =
     (if env_isShared env then None
      else Some (case run_answers (chat_run st) of [] \<Rightarrow> JUndef | e # _ \<Rightarrow> obj_get e ''task_id''))"

definition resetSession :: "chat_env \<Rightarrow> agent_chat \<Rightarrow> agent_chat" where
  "resetSession env st =
     st\<lparr>chat_run := (chat_run st)\<lparr>run_timer := True\<rparr>, chat_sessionId := JNull,
        chat_messages := (if env_isTaskMode env then removeAllMessages (chat_messages st)
                          else removeAllMessagesExceptFirst (chat_messages st))\<rparr>"

definition useGetBeginNodePrologue :: "rf_state \<Rightarrow> jsval" where
  "useGetBeginNodePrologue s =
     (if truthy (js_opt (begin_form s) ''enablePrologue'') then js_opt (begin_form s) ''prologue'' else JUndef)"

definition prologue_effect :: "chat_env \<Rightarrow> string \<Rightarrow> jsval \<Rightarrow> agent_chat \<Rightarrow> agent_chat" where
  "prologue_effect env u prologue st =
     (if env_isTaskMode env then st
      else case prologue of JStr p \<Rightarrow> if p = [] then st else st\<lparr>chat_messages := addPrologue u p (chat_messages st)\<rparr> | _ \<Rightarrow> st)"

section \<open>Reachable sessions\<close>

definition fresh_id :: "string \<Rightarrow> agent_chat \<Rightarrow> bool" where
  "fresh_id u st = (u \<noteq> [] \<and> list_all (\<lambda>m. msg_id m \<noteq> JStr u) (chat_messages st))"

inductive chat_step :: "libs \<Rightarrow> chat_env \<Rightarrow> agent_chat \<Rightarrow> agent_chat \<Rightarrow> bool" for L env where
  typed: "chat_step L env st (st\<lparr>chat_value := handleInputChange v\<rparr>)"
| enter: "fresh_id u st \<Longrightarrow> chat_step L env st (fst (handlePressEnter L env u explore st))"
| form: "fresh_id u st \<Longrightarrow> chat_step L env st (fst (sendFormMessage env u body inputs st))"
| task: "fresh_id u st \<Longrightarrow> chat_step L env st (fst (sendMessageInTaskMode L env u st))"
| event: "fresh_id u st \<Longrightarrow> receive L u e st = Inr st' \<Longrightarrow> chat_step L env st st'"
| settled: "chat_step L env st (sendMessage_settled content response st)"
| form_settled: "chat_step L env st (st\<lparr>chat_run := finish_run (chat_run st)\<rparr>)"
| timer: "chat_step L env st (st\<lparr>chat_run := reset_timer (chat_run st)\<rparr>)"
| reset: "chat_step L env st (resetSession env st)"
| prologue: "fresh_id u st \<Longrightarrow> chat_step L env st (prologue_effect env u p st)"
| uploaded: "chat_step L env st (st\<lparr>chat_uploads := appendUploadResponse d fs (chat_uploads st)\<rparr>)"
| unloaded: "chat_step L env st (st\<lparr>chat_uploads := removeUploadedFile f (chat_uploads st)\<rparr>)"
| deleted: "chat_step L env st (st\<lparr>chat_messages := removeMessageById i (chat_messages st)\<rparr>)"

definition chat_inv :: "agent_chat \<Rightarrow> bool" where
  "chat_inv st = (distinct (map msg_id (chat_messages st))
     \<and> distinct (map (\<lambda>e. obj_get e ''message_id'') (chat_references st)))"

lemma id_of_upsert:
  assumes "lodash_api L" and "distinct (keys a)" and "''id'' \<in> set (keys a)"
  shows "msg_id (answer_message L u a) = msg_id a"
proof -
  have o: "lodash_omit L a [''reference''] = filter (\<lambda>kv. fst kv \<notin> set [''reference'']) a"
    by (rule lodash_api.omit [OF assms(1)]) simp
  have "distinct (keys (lodash_omit L a [''reference'']))" "''id'' \<in> set (keys (lodash_omit L a [''reference'']))"
    using assms(2,3) by (auto simp: o keys_def distinct_map_filter')
  then show ?thesis by (simp add: answer_message_def obj_get_assign lodash_api.omit_get [OF assms(1)])
qed

lemma ids_of_upsert:
  assumes "lodash_api L" and "distinct (keys a)" and "''id'' \<in> set (keys a)"
  shows "map msg_id (addNewestOneAnswer L u a ms) =
     (if msg_id a \<in> msg_id ` set ms then map msg_id ms else map msg_id ms @ [msg_id a])"
proof (cases "find_index (\<lambda>x. msg_id x = msg_id a) ms")
  case None
  then have "msg_id a \<notin> msg_id ` set ms" by (simp add: find_index_None image_iff) metis
  then show ?thesis using None id_of_upsert [OF assms] by (simp add: addNewestOneAnswer_def)
next
  case (Some i)
  then have "msg_id a \<in> msg_id ` set ms" using find_index_Some [OF Some] by (metis image_eqI nth_mem)
  then show ?thesis using Some assms(2,3) by (simp add: addNewestOneAnswer_def obj_get_assign)
qed

lemma answer_of_keys: "distinct (keys (answer_of answers found))" "''id'' \<in> set (keys (answer_of answers found))"
  unfolding answer_of_def Let_def
  by (rule distinct_keys_obj_assign, simp add: keys_def) (subst set_keys_obj_assign, simp add: keys_def)

lemma reference_effect_distinct:
  "distinct (map (\<lambda>e. obj_get e k) l) \<Longrightarrow> k = ''message_id'' \<Longrightarrow> distinct (map (\<lambda>e. obj_get e k) (reference_effect answers l))"
  by (auto simp: reference_effect_def list_all_iff image_iff split: option.split)

lemma receive_inv:
  assumes "lodash_api L" "chat_inv st" "receive L u e st = Inr st'"
  shows "chat_inv st'"
proof -
  have "distinct (map msg_id (chat_messages st'))"
  proof -
    obtain found where "chat_messages st' = addNewestOneAnswer L u (answer_of (run_answers (chat_run st) @ [e]) found) (chat_messages st)"
      using assms(3) by (auto simp: receive_def answer_effect_def receive_event_def Let_def bind_r_def split: sum.splits)
    then show ?thesis using ids_of_upsert [OF assms(1) answer_of_keys] assms(2) by (simp add: chat_inv_def)
  qed
  moreover have "chat_references st' = reference_effect (run_answers (chat_run st) @ [e]) (chat_references st)"
    using assms(3) by (auto simp: receive_def receive_event_def Let_def bind_r_def split: sum.splits)
  ultimately show ?thesis using assms(2) reference_effect_distinct by (simp add: chat_inv_def)
qed

lemma ids_of_question:
  assumes "fresh_id u st" and "msg_id m = JStr u \<or> msg_id m = JUndef"
  shows "map msg_id (addNewestOneQuestion u m (chat_messages st)) = map msg_id (chat_messages st) @ [JStr u]"
  using assms by (auto simp: addNewestOneQuestion_def buildMessageUuid_def fresh_id_def)

lemma fresh_not_used: "fresh_id u st \<Longrightarrow> JStr u \<notin> msg_id ` set (chat_messages st)"
  by (auto simp: fresh_id_def list_all_iff)

lemma handlePressEnter_result:
  "handlePressEnter L env u explore st =
     (if js_trim (chat_value st) = [] then (st, None)
      else let question = addNewestOneQuestion u (buildRequestBody u (chat_value st)
                   @ [(''files'', JArr (map file_value (fileList (chat_uploads st))))]) (chat_messages st)
           in if run_done (chat_run st)
              then (st\<lparr>chat_value := [], chat_run := start_run (chat_run st), chat_messages := question\<rparr>,
                    Some (send_params L env (buildRequestBody u (chat_value st)) None explore st))
              else (st\<lparr>chat_messages := question\<rparr>, None))"
  by (simp add: handlePressEnter_def sendMessage_def send_params_def buildRequestBody_def Let_def)

lemma question_inv:
  assumes "chat_inv st" and "fresh_id u st" and "msg_id m = JStr u \<or> msg_id m = JUndef"
    and "chat_messages st' = addNewestOneQuestion u m (chat_messages st)" and "chat_references st' = chat_references st"
  shows "chat_inv st'"
  using assms(1,5) ids_of_question [OF assms(2,3)] fresh_not_used [OF assms(2)] by (simp add: chat_inv_def assms(4))

lemma enter_inv:
  assumes "chat_inv st" and "fresh_id u st"
  shows "chat_inv (fst (handlePressEnter L env u explore st))"
proof (cases "js_trim (chat_value st) = []")
  case False
  show ?thesis
    by (rule question_inv [OF assms, of "buildRequestBody u (chat_value st) @ [(''files'', JArr (map file_value (fileList (chat_uploads st))))]"])
       (simp_all add: handlePressEnter_result False Let_def buildRequestBody_def)
qed (simp add: handlePressEnter_result assms)

lemma form_inv:
  assumes "chat_inv st" and "fresh_id u st"
  shows "chat_inv (fst (sendFormMessage env u body inputs st))"
  by (rule question_inv [OF assms, of "[(''content'', JStr (form_text inputs)), (''role'', JStr ''user'')]"])
     (simp_all add: sendFormMessage_def)

lemma settled_inv: "chat_inv st \<Longrightarrow> chat_inv (sendMessage_settled content response st)"
  by (simp add: chat_inv_def sendMessage_settled_def removeLatestMessage_def Let_def take_map [symmetric])

lemma reset_inv: "chat_inv st \<Longrightarrow> chat_inv (resetSession env st)"
  by (simp add: chat_inv_def resetSession_def removeAllMessages_def removeAllMessagesExceptFirst_def take_map [symmetric])

lemma prologue_inv: "chat_inv st \<Longrightarrow> chat_inv (prologue_effect env u p st)"
  by (auto simp: chat_inv_def prologue_effect_def addPrologue_def split: jsval.split list.split)

text \<open>
  C33: in every state that a chat session can reach, no two messages have one id and no two references
  belong to one message, whatever the order of typing, sending, events, errors, timers, resets and deletions, as
  long as a generated uuid is not the id of a message that is already in the list.
\<close>

theorem chat_session_invariant:
  assumes "lodash_api L" and "(chat_step L env)\<^sup>*\<^sup>* new_chat st"
  shows "distinct (map msg_id (chat_messages st)) \<and> distinct (map (\<lambda>e. obj_get e ''message_id'') (chat_references st))"
proof -
  have step: "chat_inv st''" if "chat_step L env st' st''" "chat_inv st'" for st' st''
    using that
  proof (induction rule: chat_step.induct)
    case (task u st)
    then show ?case by (simp add: sendMessageInTaskMode_def sendMessage_def chat_inv_def)
  qed (simp_all add: enter_inv form_inv settled_inv reset_inv prologue_inv receive_inv [OF assms(1)],
       simp_all add: chat_inv_def removeMessageById_def distinct_map_filter)
  from assms(2) have "chat_inv st"
    by (induction rule: rtranclp_induct) (simp add: chat_inv_def new_chat_def, blast intro: step)
  then show ?thesis by (simp add: chat_inv_def)
qed

definition sample_env :: chat_env where
  "sample_env = \<lparr>env_agentId = JStr ''agent'', env_hint = ''...'', env_inputs = [], env_beginParams = None,
     env_releaseMode = JUndef, env_isShared = False, env_isTaskMode = False\<rparr>"

definition asking :: agent_chat where
  "asking = fst (handlePressEnter ref_libs sample_env ''q'' JUndef (new_chat\<lparr>chat_value := handleInputChange ''Hi''\<rparr>))"

theorem chat_session_invariant_witness:
  "distinct (map msg_id (chat_messages asking)) \<and> map msg_id (chat_messages asking) = [JStr ''q'']"
proof -
  have "chat_step ref_libs sample_env new_chat (new_chat\<lparr>chat_value := handleInputChange ''Hi''\<rparr>)" by (rule chat_step.typed)
  moreover have "chat_step ref_libs sample_env (new_chat\<lparr>chat_value := handleInputChange ''Hi''\<rparr>) asking"
    unfolding asking_def by (rule chat_step.enter) (simp add: fresh_id_def new_chat_def)
  ultimately have "(chat_step ref_libs sample_env)\<^sup>*\<^sup>* new_chat asking" by simp
  from chat_session_invariant [OF ref.lodash_api_axioms this]
  have "distinct (map msg_id (chat_messages asking))" by blast
  moreover have "map msg_id (chat_messages asking) = [JStr ''q'']" by code_simp
  ultimately show ?thesis by blast
qed

section \<open>A turn of the conversation\<close>

fun receive_all :: "libs \<Rightarrow> string \<Rightarrow> event list \<Rightarrow> agent_chat \<Rightarrow> agent_chat res" where
  "receive_all L u [] st = Inr st"
| "receive_all L u (e # es) st = bind_r (receive L u e st) (receive_all L u es)"

definition event_text :: "event list \<Rightarrow> string" where
  "event_text es = concat (map decorated (message_data es))
     @ (if list_ex starts (message_data es) \<and> \<not> list_ex stops (message_data es) then ''</think>'' else [])"

definition events_of :: "string \<Rightarrow> event list \<Rightarrow> bool" where
  "events_of mid es = (list_all (\<lambda>e. obj_get e ''message_id'' = JStr mid) es \<and> list_all (\<lambda>d. \<not> nullish d) (message_data es))"

lemma found_message:
  assumes "events_of mid es" and "es \<noteq> []"
  shows "\<exists>r. findMessageFromList es = Inr r \<and> obj_get r ''content'' = JStr (event_text es) \<and> msg_id r = JStr mid"
proof -
  have d: "\<forall>d\<in>set (message_data es). \<not> nullish d" and i: "obj_get (hd es) ''message_id'' = JStr mid"
    using assms by (auto simp: events_of_def list_all_iff)
  show ?thesis using message_of_events [OF d message_data_def] i assms(2) by (auto simp: event_text_def neq_Nil_conv)
qed

definition inputs_of :: "string \<Rightarrow> event list \<Rightarrow> bool" where
  "inputs_of mid es = list_all (\<lambda>e. has_type ''user_inputs'' e \<longrightarrow> obj_get e ''message_id'' = JStr mid) es"

lemma inputs_of_events: "events_of mid es \<Longrightarrow> inputs_of mid es"
  by (auto simp: events_of_def inputs_of_def list_all_iff)

lemma answer_of_events:
  assumes "inputs_of mid es" and "obj_get r ''content'' = JStr (event_text es)" and "msg_id r = JStr mid"
  shows "msg_id (answer_of es r) = JStr mid"
    and "event_text es \<noteq> [] \<Longrightarrow> obj_get (answer_of es r) ''answer'' = JStr (event_text es)"
    and "''content'' \<notin> set (keys (answer_of es r))"
proof -
  have i: "findInputFromList es = [] \<or> (\<exists>d. findInputFromList es = [(''id'', JStr mid), (''data'', d)])"
    using assms(1) by (auto simp: findInputFromList_def inputs_of_def list_all_iff find_Some_iff split: option.split)
  have k: "distinct (keys (findInputFromList es))" using i by (auto simp: keys_def)
  show "msg_id (answer_of es r) = JStr mid" using i assms(3) by (auto simp: answer_of_def Let_def obj_get_assign [OF k])
  show "obj_get (answer_of es r) ''answer'' = JStr (event_text es)" if "event_text es \<noteq> []"
    using i assms(2) that by (auto simp: answer_of_def Let_def obj_get_assign [OF k] js_or_def js_coalesce_def keys_def)
  show "''content'' \<notin> set (keys (answer_of es r))"
    using i by (auto simp: answer_of_def Let_def set_keys_obj_assign)
qed

text \<open>The answer so far is the last message: it is appended at first and replaced afterwards.\<close>

lemma upsert_last:
  assumes "lodash_api L" and "distinct (keys a)" "''id'' \<in> set (keys a)" "''content'' \<notin> set (keys a)"
    and "\<forall>m\<in>set base. msg_id m \<noteq> msg_id a" and "tail = [] \<or> (\<exists>b. tail = [b] \<and> msg_id b = msg_id a)"
  shows "\<exists>a'. addNewestOneAnswer L u a (base @ tail) = base @ [a'] \<and> msg_id a' = msg_id a \<and> obj_get a' ''content'' = obj_get a ''answer''"
proof -
  consider "tail = []" | b where "tail = [b]" "msg_id b = msg_id a" using assms(6) by blast
  then show ?thesis
  proof cases
    case 1
    have "find_index (\<lambda>x. msg_id x = msg_id a) base = None" using assms(5) by (simp add: find_index_None)
    then show ?thesis using 1 id_of_upsert [OF assms(1-3)] content_of_new_answer [OF assms(1,2,4)]
      by (simp add: addNewestOneAnswer_def)
  next
    case 2
    have "find_index (\<lambda>x. msg_id x = msg_id a) (base @ [b]) \<noteq> None" using 2(2) by (simp add: find_index_None)
    moreover have "map (\<lambda>x. if msg_id x = msg_id a then f x else x) base = base" for f
      using assms(5) by (induction base) auto
    ultimately show ?thesis using 2 assms(2,3) by (auto simp: addNewestOneAnswer_def obj_get_assign)
  qed
qed

definition answering :: "string \<Rightarrow> message list \<Rightarrow> event list \<Rightarrow> agent_chat \<Rightarrow> bool" where
  "answering mid base es st =
     (run_answers (chat_run st) = es
      \<and> (if es = [] then chat_messages st = base
         else \<exists>a. chat_messages st = base @ [a] \<and> msg_id a = JStr mid
                \<and> (event_text es \<noteq> [] \<longrightarrow> obj_get a ''content'' = JStr (event_text es))))"

lemma receive_answer:
  assumes "lodash_api L" and "events_of mid (pre @ [e])" and "\<forall>m\<in>set base. msg_id m \<noteq> JStr mid" and "answering mid base pre st"
  shows "\<exists>st'. receive L u e st = Inr st' \<and> answering mid base (pre @ [e]) st'
     \<and> chat_value st' = chat_value st \<and> chat_uploads st' = chat_uploads st
     \<and> chat_sessionId st' = (if pre = [] then session_effect [e] (chat_sessionId st) else chat_sessionId st)"
proof -
  obtain r where r: "findMessageFromList (pre @ [e]) = Inr r" "obj_get r ''content'' = JStr (event_text (pre @ [e]))" "msg_id r = JStr mid"
    using found_message [OF assms(2)] by auto
  obtain tail where tail: "chat_messages st = base @ tail" "tail = [] \<or> (\<exists>b. tail = [b] \<and> msg_id b = JStr mid)"
    using assms(4) by (auto simp: answering_def split: if_splits)
  note a = answer_of_events [OF inputs_of_events [OF assms(2)] r(2,3)]
  obtain a' where a': "addNewestOneAnswer L u (answer_of (pre @ [e]) r) (base @ tail) = base @ [a']" "msg_id a' = JStr mid"
    "obj_get a' ''content'' = obj_get (answer_of (pre @ [e]) r) ''answer''"
    using upsert_last [OF assms(1) answer_of_keys a(3), of base tail] a(1) assms(3) tail(2) by auto
  have run: "run_answers (chat_run st) = pre" using assms(4) by (simp add: answering_def)
  show ?thesis
    by (simp add: receive_def receive_event_def answer_effect_def run r(1) tail(1) a' Let_def) (use a(2) in \<open>auto simp: answering_def a'\<close>)
qed

lemma receive_all_answer:
  assumes "lodash_api L" and "\<forall>m\<in>set base. msg_id m \<noteq> JStr mid"
  shows "events_of mid (pre @ es) \<Longrightarrow> answering mid base pre st \<Longrightarrow>
     \<exists>st'. receive_all L u es st = Inr st' \<and> answering mid base (pre @ es) st'
       \<and> chat_value st' = chat_value st \<and> chat_uploads st' = chat_uploads st
       \<and> chat_sessionId st' = (if pre = [] then session_effect es (chat_sessionId st) else chat_sessionId st)"
proof (induction es arbitrary: pre st)
  case (Cons e es)
  have "events_of mid (pre @ [e])" using Cons.prems(1) by (auto simp: events_of_def message_data_append message_data_def)
  from receive_answer [OF assms(1) this assms(2) Cons.prems(2), of u]
  obtain st1 where st1: "receive L u e st = Inr st1" "answering mid base (pre @ [e]) st1" "chat_value st1 = chat_value st"
    "chat_uploads st1 = chat_uploads st"
    "chat_sessionId st1 = (if pre = [] then session_effect [e] (chat_sessionId st) else chat_sessionId st)" by blast
  from Cons.IH [of "pre @ [e]" st1] Cons.prems(1) st1(2) obtain st' where "receive_all L u es st1 = Inr st'"
    "answering mid base (pre @ e # es) st'" "chat_value st' = chat_value st1" "chat_uploads st' = chat_uploads st1"
    "chat_sessionId st' = chat_sessionId st1" by auto
  with st1 show ?case by (auto simp: session_effect_def)
qed (auto simp: session_effect_def)

text \<open>
  C29: a turn of the conversation. A text entered when the chat is idle is sent with the files that have been
  uploaded and the session; when the stream has delivered the events of one message and ends
  without an error, exactly two messages have been added, the trimmed question and the answer with the text of the
  events under the id of the message; the input and the uploads are empty, and the session is the one of the first event.
\<close>

theorem agent_turn:
  assumes L: "lodash_api L" and idle: "run_answers (chat_run st) = []" "run_done (chat_run st)"
    and entered: "js_trim (chat_value st) \<noteq> []"
    and ids: "fresh_id u st" "u \<noteq> mid" "\<forall>m\<in>set (chat_messages st). msg_id m \<noteq> JStr mid"
    and events: "events_of mid es" "event_text es \<noteq> []"
    and response: "\<not> receiveMessageError response"
  shows "\<exists>params st' question reply.
     snd (handlePressEnter L env u explore st) = Some params
     \<and> obj_get params ''query'' = JStr (js_trim (chat_value st))
     \<and> obj_get params ''files'' = JArr (map JObj (uploadResponseList (chat_uploads st)))
     \<and> obj_get params ''session_id'' = js_or (chat_sessionId st) explore
     \<and> bind_r (receive_all L v es (fst (handlePressEnter L env u explore st))) (\<lambda>s. Inr (sendMessage_settled content response s)) = Inr st'
     \<and> chat_messages st' = chat_messages st @ [question, reply]
     \<and> msg_id question = JStr u \<and> obj_get question ''content'' = JStr (js_trim (chat_value st))
     \<and> msg_id reply = JStr mid \<and> obj_get reply ''content'' = JStr (event_text es)
     \<and> chat_value st' = [] \<and> uploadResponseList (chat_uploads st') = [] \<and> fileList (chat_uploads st') = []
     \<and> chat_sessionId st' = session_effect es (chat_sessionId st) \<and> run_done (chat_run st')"
proof -
  define question where "question = obj_put ''id'' (JStr u) (buildRequestBody u (chat_value st)
     @ [(''files'', JArr (map file_value (fileList (chat_uploads st))))])"
  define st0 where "st0 = st\<lparr>chat_value := [], chat_run := start_run (chat_run st), chat_messages := chat_messages st @ [question]\<rparr>"
  define params where "params = send_params L env (buildRequestBody u (chat_value st)) None explore st"
  have u: "u \<noteq> []" using ids(1) by (simp add: fresh_id_def)
  then have enter: "handlePressEnter L env u explore st = (st0, Some params)"
    by (simp add: handlePressEnter_result entered idle(2) st0_def params_def question_def addNewestOneQuestion_def buildMessageUuid_def buildRequestBody_def Let_def)
  have q: "msg_id question = JStr u" "obj_get question ''content'' = JStr (js_trim (chat_value st))"
    by (simp_all add: question_def buildRequestBody_def)
  have "answering mid (chat_messages st @ [question]) [] st0" by (simp add: answering_def st0_def start_run_def idle(1))
  from receive_all_answer [OF L _ _ this, of es v] events(1) ids(2,3) q(1)
  obtain s where s: "receive_all L v es st0 = Inr s" "answering mid (chat_messages st @ [question]) es s" "chat_value s = []"
    "chat_sessionId s = session_effect es (chat_sessionId st)" by (auto simp: st0_def)
  have "es \<noteq> []" using events(2) by (auto simp: event_text_def message_data_def)
  then obtain reply where "chat_messages s = chat_messages st @ [question, reply]" "msg_id reply = JStr mid" "obj_get reply ''content'' = JStr (event_text es)"
    using s(2) events(2) by (auto simp: answering_def)
  moreover have "obj_get params ''query'' = JStr (js_trim (chat_value st))"
    "obj_get params ''files'' = JArr (map JObj (uploadResponseList (chat_uploads st)))"
    "obj_get params ''session_id'' = js_or (chat_sessionId st) explore"
    by (simp_all add: params_def send_params_def buildRequestBody_def Let_def)
  ultimately show ?thesis
    using s(1,3,4) q by (simp add: enter sendMessage_settled_def response clearUploadResponse_def finish_run_def Let_def)
qed

definition turn_events :: "event list" where
  "turn_events = [[(''event'', JStr ''message''), (''message_id'', JStr ''m''), (''session_id'', JStr ''s''), (''data'', JObj [(''content'', JStr ''Good '')])],
                  [(''event'', JStr ''message''), (''message_id'', JStr ''m''), (''session_id'', JStr ''s''), (''data'', JObj [(''content'', JStr ''day.'')])]]"

theorem agent_turn_witness:
  "\<exists>st' question reply.
     bind_r (receive_all ref_libs ''v'' turn_events (fst (handlePressEnter ref_libs sample_env ''q'' JUndef (new_chat\<lparr>chat_value := '' Hi''\<rparr>))))
       (\<lambda>s. Inr (sendMessage_settled ''Hi'' None s)) = Inr st'
     \<and> chat_messages st' = [question, reply]
     \<and> obj_get question ''content'' = JStr ''Hi'' \<and> obj_get reply ''content'' = JStr ''Good day.''"
proof -
  have e: "js_trim (chat_value (new_chat\<lparr>chat_value := '' Hi''\<rparr>)) = ''Hi''" "events_of ''m'' turn_events" "event_text turn_events = ''Good day.''"
    by code_simp+
  show ?thesis
    using agent_turn [OF ref.lodash_api_axioms, of "new_chat\<lparr>chat_value := '' Hi''\<rparr>" "''q''" "''m''" turn_events None sample_env JUndef "''v''" "''Hi''"] e
    by (simp add: new_chat_def idle_run_def fresh_id_def receiveMessageError_def) blast
qed

section \<open>Entering and resetting during a run\<close>

text \<open>
  A text entered while a run is in progress is shown as a question but is not sent, and stays in the input.
\<close>

theorem enter_while_running_not_sent:
  assumes "\<not> run_done (chat_run st)" and "js_trim (chat_value st) \<noteq> []"
  shows "snd (handlePressEnter L env u explore st) = None
     \<and> length (chat_messages (fst (handlePressEnter L env u explore st))) = Suc (length (chat_messages st))
     \<and> chat_value (fst (handlePressEnter L env u explore st)) = chat_value st"
  using assms by (simp add: handlePressEnter_result addNewestOneQuestion_def Let_def)

text \<open>
  A question entered within a second after the session has been reset brings the old answer back: the first
  event of the new run is appended to the old events and shown, with their text, under the old id, and
  the id of the new session is not taken from it.
\<close>

theorem reset_shows_old_answer:
  assumes "lodash_api L" and run: "run_answers (chat_run st) = es" "es \<noteq> []" "events_of mid es"
    and e: "\<not> has_type ''user_inputs'' e" "list_all (\<lambda>d. \<not> nullish d) (message_data [e])" "event_text (es @ [e]) \<noteq> []"
    and ids: "q \<noteq> []" "q \<noteq> mid" "\<forall>m\<in>set (take 1 (chat_messages st)). msg_id m \<noteq> JStr mid"
    and entered: "js_trim (chat_value st) \<noteq> []"
  shows "\<exists>st' m. receive L u e (fst (handlePressEnter L env q explore (resetSession env st))) = Inr st'
     \<and> last (chat_messages st') = m \<and> msg_id m = JStr mid \<and> obj_get m ''content'' = JStr (event_text (es @ [e]))
     \<and> chat_sessionId st' = JNull"
proof -
  define s where "s = fst (handlePressEnter L env q explore (resetSession env st))"
  have s: "run_answers (chat_run s) = es" "chat_sessionId s = JNull"
    by (simp_all add: s_def handlePressEnter_result resetSession_def start_run_def run(1) Let_def)
  have base: "\<forall>m\<in>set (chat_messages s). msg_id m \<noteq> JStr mid"
    using ids entered by (cases "chat_messages st")
      (auto simp: s_def handlePressEnter_result resetSession_def addNewestOneQuestion_def removeAllMessages_def
        removeAllMessagesExceptFirst_def buildMessageUuid_def buildRequestBody_def Let_def)
  have d: "\<forall>d\<in>set (message_data (es @ [e])). \<not> nullish d"
    using run(3) e(2) unfolding events_of_def message_data_append by (auto simp: list_all_iff)
  have hd: "(case es @ [e] of [] \<Rightarrow> JUndef | x # _ \<Rightarrow> obj_get x ''message_id'') = JStr mid"
    using run(2,3) by (cases es) (simp_all add: events_of_def)
  obtain r where r: "findMessageFromList (es @ [e]) = Inr r" "obj_get r ''content'' = JStr (event_text (es @ [e]))" "msg_id r = JStr mid"
    using message_of_events [OF d message_data_def] unfolding hd event_text_def by blast
  have "inputs_of mid (es @ [e])" using inputs_of_events [OF run(3)] e(1) by (simp add: inputs_of_def)
  note a = answer_of_events [OF this r(2,3)]
  obtain a' where a': "addNewestOneAnswer L u (answer_of (es @ [e]) r) (chat_messages s) = chat_messages s @ [a']" "msg_id a' = JStr mid"
    "obj_get a' ''content'' = JStr (event_text (es @ [e]))"
    using upsert_last [OF assms(1) answer_of_keys a(3), of "chat_messages s" "[]"] a(1) a(2) [OF e(3)] base by auto
  show ?thesis unfolding s_def [symmetric]
    by (simp add: receive_def receive_event_def answer_effect_def s run(2) r(1) a' Let_def)
qed

end
