(* ===== verification/Js_Regex.thy ===== *)
theory Js_Regex
  imports Js_Prelude
begin

text \<open>
  Regular expressions without captures, groups of which only \<open>test\<close> is used. A pattern is a
  value of \<open>regex\<close>; matching takes derivatives, so that it computes, and is proved equal to
  membership in the language of the pattern, which is what a backtracking matcher decides for
  patterns with no back reference and no assertion other than the anchors.
\<close>

datatype regex =
    ReNone
  | ReEps
  | ReChar "char \<Rightarrow> bool"
  | ReSeq regex regex
  | ReAlt regex regex
  | ReStar regex

section \<open>Matching\<close>

fun nullable_re :: "regex \<Rightarrow> bool" where
  "nullable_re ReNone = False"
| "nullable_re ReEps = True"
| "nullable_re (ReChar _) = False"
| "nullable_re (ReSeq a b) = (nullable_re a \<and> nullable_re b)"
| "nullable_re (ReAlt a b) = (nullable_re a \<or> nullable_re b)"
| "nullable_re (ReStar _) = True"

text \<open>Constructors that drop the parts that cannot match, to keep derivatives small.\<close>

fun is_none :: "regex \<Rightarrow> bool" where
  "is_none ReNone = True"
| "is_none _ = False"

definition mk_seq :: "regex \<Rightarrow> regex \<Rightarrow> regex" where
  "mk_seq a b = (if is_none a \<or> is_none b then ReNone else ReSeq a b)"

definition mk_alt :: "regex \<Rightarrow> regex \<Rightarrow> regex" where
  "mk_alt a b = (if is_none a then b else if is_none b then a else ReAlt a b)"

fun deriv_re :: "char \<Rightarrow> regex \<Rightarrow> regex" where
  "deriv_re c ReNone = ReNone"
| "deriv_re c ReEps = ReNone"
| "deriv_re c (ReChar p) = (if p c then ReEps else ReNone)"
| "deriv_re c (ReSeq a b) =
     (if nullable_re a then mk_alt (mk_seq (deriv_re c a) b) (deriv_re c b) else mk_seq (deriv_re c a) b)"
| "deriv_re c (ReAlt a b) = mk_alt (deriv_re c a) (deriv_re c b)"
| "deriv_re c (ReStar a) = mk_seq (deriv_re c a) (ReStar a)"

fun re_match :: "regex \<Rightarrow> string \<Rightarrow> bool" where
  \<comment> \<open>\<open>/^...$/.test(s)\<close>\<close>
  "re_match r [] = nullable_re r"
| "re_match r (c # cs) = re_match (deriv_re c r) cs"

definition any_char :: regex where
  \<comment> \<open>\<open>[\s\S]\<close>\<close>
  "any_char = ReChar (\<lambda>_. True)"

definition re_test :: "regex \<Rightarrow> string \<Rightarrow> bool" where
  \<comment> \<open>\<open>/.../.test(s)\<close> without anchors\<close>
  "re_test r s = re_match (ReSeq (ReStar any_char) (ReSeq r (ReStar any_char))) s"

section \<open>Derived forms\<close>

definition re_opt :: "regex \<Rightarrow> regex" where
  "re_opt r = ReAlt r ReEps"

definition re_plus :: "regex \<Rightarrow> regex" where
  "re_plus r = ReSeq r (ReStar r)"

fun re_times :: "nat \<Rightarrow> regex \<Rightarrow> regex" where
  "re_times 0 r = ReEps"
| "re_times (Suc n) r = ReSeq r (re_times n r)"

fun re_seq :: "regex list \<Rightarrow> regex" where
  "re_seq [] = ReEps"
| "re_seq (r # rs) = ReSeq r (re_seq rs)"

fun re_alt :: "regex list \<Rightarrow> regex" where
  "re_alt [] = ReNone"
| "re_alt (r # rs) = ReAlt r (re_alt rs)"

definition re_char :: "char \<Rightarrow> regex" where
  "re_char c = ReChar (\<lambda>d. d = c)"

definition re_lit :: "string \<Rightarrow> regex" where
  "re_lit s = re_seq (map re_char s)"

definition re_lit_i :: "string \<Rightarrow> regex" where
  \<comment> \<open>a literal of a pattern with the flag \<open>i\<close>\<close>
  "re_lit_i s = re_seq (map (\<lambda>c. ReChar (\<lambda>d. lower_char d = lower_char c)) s)"

definition re_digit :: regex where
  "re_digit = ReChar is_digit"

definition re_nonspace :: regex where
  "re_nonspace = ReChar (\<lambda>c. \<not> is_space c)"

definition re_dot :: regex where
  \<comment> \<open>\<open>.\<close>: anything but a line terminator\<close>
  "re_dot = ReChar (\<lambda>c. c \<noteq> CHR 0x0A \<and> c \<noteq> CHR 0x0D)"

section \<open>The language of a pattern\<close>

inductive_set star_lang :: "string set \<Rightarrow> string set" for A where
  star_empty [intro]: "[] \<in> star_lang A"
| star_step [intro]: "s \<in> A \<Longrightarrow> t \<in> star_lang A \<Longrightarrow> s @ t \<in> star_lang A"

fun re_lang :: "regex \<Rightarrow> string set" where
  "re_lang ReNone = {}"
| "re_lang ReEps = {[]}"
| "re_lang (ReChar p) = {[c] | c. p c}"
| "re_lang (ReSeq a b) = {s @ t | s t. s \<in> re_lang a \<and> t \<in> re_lang b}"
| "re_lang (ReAlt a b) = re_lang a \<union> re_lang b"
| "re_lang (ReStar a) = star_lang (re_lang a)"

lemma nullable_re_iff: "nullable_re r \<longleftrightarrow> [] \<in> re_lang r"
  by (induction r) auto

lemma is_none_lang: "is_none r \<Longrightarrow> re_lang r = {}"
  by (cases r) simp_all

lemma mk_lang [simp]:
  "re_lang (mk_seq a b) = re_lang (ReSeq a b)"
  "re_lang (mk_alt a b) = re_lang (ReAlt a b)"
  using is_none_lang [of a] is_none_lang [of b] by (auto simp: mk_seq_def mk_alt_def)

lemma star_Cons: "c # s \<in> star_lang A \<Longrightarrow> \<exists>u t. s = u @ t \<and> c # u \<in> A \<and> t \<in> star_lang A"
proof (induction "c # s" rule: star_lang.induct)
  case (star_step v t)
  then show ?case by (cases v) auto
qed

lemma deriv_re_lang: "re_lang (deriv_re c r) = {s. c # s \<in> re_lang r}"
proof (induction r)
  case (ReSeq a b)
  have "c # s \<in> re_lang (ReSeq a b) \<longleftrightarrow>
      (\<exists>u t. s = u @ t \<and> c # u \<in> re_lang a \<and> t \<in> re_lang b) \<or> ([] \<in> re_lang a \<and> c # s \<in> re_lang b)" for s
    by (auto simp: Cons_eq_append_conv)
  with ReSeq show ?case by (auto simp: nullable_re_iff)
next
  case (ReStar a)
  have "c # s \<in> star_lang (re_lang a) \<longleftrightarrow> (\<exists>u t. s = u @ t \<and> c # u \<in> re_lang a \<and> t \<in> star_lang (re_lang a))" for s
    using star_Cons [of c s "re_lang a"] star_step [of "c # u" "re_lang a" t for u t] by auto
  with ReStar show ?case by auto
qed auto

theorem re_match_iff: "re_match r s \<longleftrightarrow> s \<in> re_lang r"
  by (induction r s rule: re_match.induct) (auto simp: nullable_re_iff deriv_re_lang)

lemma star_any: "s \<in> re_lang (ReStar any_char)"
proof (induction s)
  case (Cons c s)
  then show ?case using star_step [of "[c]" "re_lang any_char" s] by (simp add: any_char_def)
qed (simp add: star_empty)

theorem re_test_iff: "re_test r s \<longleftrightarrow> (\<exists>a b c. s = a @ b @ c \<and> b \<in> re_lang r)"
  using star_any by (fastforce simp: re_test_def re_match_iff simp del: re_lang.simps(6))

lemma lang_lit [simp]: "re_lang (re_lit s) = {s}"
  by (induction s) (auto simp: re_lit_def re_char_def)

lemma star_char: "s \<in> star_lang {[c] | c. p c} \<longleftrightarrow> list_all p s"
proof
  show "s \<in> star_lang {[c] | c. p c} \<Longrightarrow> list_all p s" by (induction rule: star_lang.induct) auto
  show "list_all p s \<Longrightarrow> s \<in> star_lang {[c] | c. p c}"
  proof (induction s)
    case (Cons c s)
    then show ?case using star_step [of "[c]" "{[c] | c. p c}" s] by auto
  qed auto
qed

end
