(* ===== verification/Json_Schema.thy ===== *)
theory Json_Schema
  imports Js_Regex
begin

text \<open>
  The editor of JSON schemas (\<open>components/jsonjoy-builder\<close>): \<open>types/json-schema.ts\<close>,
  \<open>lib/schema-editor.ts\<close> and the handlers of \<open>schema-visual-editor.tsx\<close>.

  A schema is a value: a boolean or an object. As the types of the source say, \<open>properties\<close> is an
  object and \<open>required\<close> an array wherever they are present; a copy (\<open>copySchema\<close>) is the same value.
\<close>

section \<open>Kinds of schemas\<close>

definition isBooleanSchema :: "jsval \<Rightarrow> bool" where
  "isBooleanSchema schema = (case schema of JBool _ \<Rightarrow> True | _ \<Rightarrow> False)"

definition isObjectSchema :: "jsval \<Rightarrow> bool" where
  "isObjectSchema schema = (\<not> isBooleanSchema schema)"

definition asObjectSchema :: "jsval \<Rightarrow> jsval" where
  "asObjectSchema schema = (if isObjectSchema schema then schema else JObj [(''type'', JStr ''null'')])"

definition withObjectSchema :: "jsval \<Rightarrow> (jsval \<Rightarrow> 'a) \<Rightarrow> 'a \<Rightarrow> 'a" where
  "withObjectSchema schema fn defaultValue = (if isObjectSchema schema then fn schema else defaultValue)"

definition getSchemaDescription :: "jsval \<Rightarrow> jsval" where
  "getSchemaDescription schema =
     (if isObjectSchema schema then js_or (js_opt schema ''description'') (JStr []) else JStr [])"

definition props_of :: "jsval \<Rightarrow> jsval obj" where
  "props_of v = (case v of JObj ps \<Rightarrow> ps | _ \<Rightarrow> [])"

definition items_of :: "jsval \<Rightarrow> jsval list" where
  "items_of v = (case v of JArr xs \<Rightarrow> xs | _ \<Rightarrow> [])"

lemma props_of_simps [simp]: "props_of (JObj ps) = ps" "props_of JUndef = []"
  by (simp_all add: props_of_def)

lemma items_of_simps [simp]: "items_of (JArr xs) = xs" "items_of JUndef = []"
  by (simp_all add: items_of_def)

section \<open>Operations on schemas\<close>

definition updateObjectProperty :: "jsval \<Rightarrow> string \<Rightarrow> jsval \<Rightarrow> jsval" where
  "updateObjectProperty schema propertyName propertySchema =
     (case schema of
        JObj s \<Rightarrow> JObj (obj_put ''properties''
                    (JObj (obj_put propertyName propertySchema (props_of (obj_get s ''properties'')))) s)
      | _ \<Rightarrow> schema)"

definition removeObjectProperty :: "jsval \<Rightarrow> string \<Rightarrow> jsval" where
  "removeObjectProperty schema propertyName =
     (case schema of
        JObj s \<Rightarrow>
          if \<not> truthy (obj_get s ''properties'') then schema
          else let s1 = obj_put ''properties'' (JObj (obj_del propertyName (props_of (obj_get s ''properties'')))) s
               in JObj (if truthy (obj_get s1 ''required'')
                        then obj_put ''required''
                               (JArr (filter (\<lambda>n. n \<noteq> JStr propertyName) (items_of (obj_get s1 ''required'')))) s1
                        else s1)
      | _ \<Rightarrow> schema)"

definition updatePropertyRequired :: "jsval \<Rightarrow> string \<Rightarrow> bool \<Rightarrow> jsval" where
  "updatePropertyRequired schema propertyName required =
     (case schema of
        JObj s \<Rightarrow>
          (let old = items_of (obj_get s ''required'');
               new = (if required
                      then if JStr propertyName \<in> set old then old else old @ [JStr propertyName]
                      else filter (\<lambda>n. n \<noteq> JStr propertyName) old)
           in JObj (obj_put ''required'' (JArr new) s))
      | _ \<Rightarrow> schema)"

definition updateArrayItems :: "jsval \<Rightarrow> jsval \<Rightarrow> jsval" where
  "updateArrayItems schema itemsSchema =
     (case schema of
        JObj s \<Rightarrow> if obj_get s ''type'' = JStr ''array'' then JObj (obj_put ''items'' itemsSchema s) else schema
      | _ \<Rightarrow> schema)"

record new_field =
  field_name :: string
  field_type :: jsval
  field_description :: jsval
  field_required :: bool
  field_validation :: jsval

definition createFieldSchema :: "new_field \<Rightarrow> jsval" where
  "createFieldSchema field =
     (if isObjectSchema (field_validation field)
      then JObj (obj_assign [(''type'', field_type field), (''description'', field_description field)]
                   (entries (field_validation field)))
      else field_validation field)"

definition name_start :: "char \<Rightarrow> bool" where
  \<comment> \<open>\<open>[a-zA-Z_$]\<close>, by character codes\<close>
  "name_start c = (let n = (of_char c :: nat) in n \<in> {97..122} \<union> {65..90} \<or> c \<in> {CHR ''_'', CHR ''$''})"

definition validateFieldName :: "string \<Rightarrow> bool" where
  "validateFieldName name =
     (if name = [] \<or> js_trim name = [] then False
      else re_match (ReSeq (ReChar name_start) (ReStar (ReChar (\<lambda>c. name_start c \<or> is_digit c)))) name)"

record schema_property =
  prop_name :: string
  prop_schema :: jsval
  prop_required :: bool

definition getSchemaProperties :: "jsval \<Rightarrow> schema_property list" where
  "getSchemaProperties schema =
     (case schema of
        JObj s \<Rightarrow>
          (let required = items_of (js_or (obj_get s ''required'') (JArr []))
           in map (\<lambda>(name, propSchema). \<lparr>prop_name = name, prop_schema = propSchema,
                                          prop_required = (JStr name \<in> set required)\<rparr>)
                (props_of (obj_get s ''properties'')))
      | _ \<Rightarrow> [])"

definition getArrayItemsSchema :: "jsval \<Rightarrow> jsval" where
  "getArrayItemsSchema schema =
     (if isBooleanSchema schema then JNull
      else if js_opt schema ''type'' \<noteq> JStr ''array'' then JNull
      else js_or (js_opt schema ''items'') JNull)"

definition hasChildren :: "jsval \<Rightarrow> bool" where
  "hasChildren schema =
     (if \<not> isObjectSchema schema then False
      else if js_opt schema ''type'' = JStr ''object'' \<and> truthy (js_opt schema ''properties'')
      then entries (js_opt schema ''properties'') \<noteq> []
      else if js_opt schema ''type'' = JStr ''array'' \<and> truthy (js_opt schema ''items'')
              \<and> isObjectSchema (js_opt schema ''items'')
      then js_opt (js_opt schema ''items'') ''type'' = JStr ''object''
           \<and> truthy (js_opt (js_opt schema ''items'') ''properties'')
      else False)"

section \<open>The handlers of the visual editor\<close>

text \<open>Each handler gives the schema that is handed to \<open>onChange\<close>, or none.\<close>

definition handleAddField :: "jsval \<Rightarrow> new_field \<Rightarrow> jsval" where
  "handleAddField schema newField =
     (let fieldSchema = createFieldSchema newField;
          newSchema = updateObjectProperty (asObjectSchema schema) (field_name newField) fieldSchema
      in if field_required newField then updatePropertyRequired newSchema (field_name newField) True else newSchema)"

definition drop_renamed :: "string \<Rightarrow> jsval \<Rightarrow> jsval" where
  \<comment> \<open>\<open>const { properties, ...rest } = newSchema; ... newSchema = { ...rest, properties: remainingProps }\<close>\<close>
  "drop_renamed name newSchema =
     (case newSchema of
        JObj s \<Rightarrow> JObj (obj_put ''properties'' (JObj (obj_del name (props_of (obj_get s ''properties''))))
                         (obj_del ''properties'' s))
      | _ \<Rightarrow> newSchema)"

definition handleEditField :: "jsval \<Rightarrow> string \<Rightarrow> new_field \<Rightarrow> jsval" where
  "handleEditField schema name updatedField =
     (let fieldSchema = createFieldSchema updatedField;
          s1 = updateObjectProperty (asObjectSchema schema) (field_name updatedField) fieldSchema;
          s2 = updatePropertyRequired s1 (field_name updatedField) (field_required updatedField)
      in if name \<noteq> field_name updatedField
         then let s3 = updateObjectProperty (drop_renamed name s2) (field_name updatedField) fieldSchema
              in if field_required updatedField then updatePropertyRequired s3 (field_name updatedField) True else s3
         else s2)"

definition handleDeleteField :: "jsval \<Rightarrow> string \<Rightarrow> jsval option" where
  "handleDeleteField schema name =
     (case schema of
        JObj s \<Rightarrow>
          if \<not> truthy (obj_get s ''properties'') then None
          else let s1 = obj_put ''properties'' (JObj (obj_del name (props_of (obj_get s ''properties'')))) s
               in Some (JObj (if truthy (obj_get s1 ''required'')
                              then obj_put ''required''
                                     (JArr (filter (\<lambda>n. n \<noteq> JStr name) (items_of (obj_get s1 ''required'')))) s1
                              else s1))
      | _ \<Rightarrow> None)"

end
