(* ===== verification/Schema_Editor_Laws.thy ===== *)
theory Schema_Editor_Laws
  imports Json_Schema
begin

text \<open>
  What the schema operations do to the two things a field has, its schema and its required flag,
  as an interface (\<open>field_editor\<close>) with the lemmas that the editors rest on, and its
  interpretation on the operations of \<open>lib/schema-editor.ts\<close>.
\<close>

section \<open>The interface\<close>

locale field_editor =
  fixes ok :: "'s \<Rightarrow> bool" and lookup :: "'s \<Rightarrow> string \<Rightarrow> 'p option" and req :: "'s \<Rightarrow> string \<Rightarrow> bool"
    and put :: "'s \<Rightarrow> string \<Rightarrow> 'p \<Rightarrow> 's" and mark :: "'s \<Rightarrow> string \<Rightarrow> bool \<Rightarrow> 's" and del :: "'s \<Rightarrow> string \<Rightarrow> 's"
  assumes ok_put: "ok s \<Longrightarrow> ok (put s n p)"
    and ok_mark: "ok s \<Longrightarrow> ok (mark s n b)"
    and ok_del: "ok s \<Longrightarrow> ok (del s n)"
    and lookup_put: "ok s \<Longrightarrow> lookup (put s n p) = (lookup s)(n \<mapsto> p)"
    and lookup_mark: "ok s \<Longrightarrow> lookup (mark s n b) = lookup s"
    and lookup_del: "ok s \<Longrightarrow> lookup (del s n) = (lookup s)(n := None)"
    and req_put: "ok s \<Longrightarrow> req (put s n p) = req s"
    and req_mark: "ok s \<Longrightarrow> req (mark s n b) = (req s)(n := b)"
    and req_del: "ok s \<Longrightarrow> lookup s k \<noteq> None \<Longrightarrow> req (del s n) = (req s)(n := False)"
begin

text \<open>Every required name is a property.\<close>

definition complete :: "'s \<Rightarrow> bool" where
  "complete s = (\<forall>n. req s n \<longrightarrow> lookup s n \<noteq> None)"

definition add :: "'s \<Rightarrow> string \<Rightarrow> 'p \<Rightarrow> bool \<Rightarrow> 's" where
  "add s n p b = (if b then mark (put s n p) n True else put s n p)"

lemma add_fields:
  assumes "ok s"
  shows "ok (add s n p b)" "lookup (add s n p b) = (lookup s)(n \<mapsto> p)"
    "req (add s n p b) = (req s)(n := b \<or> req s n)"
  using assms by (auto simp: add_def ok_put ok_mark lookup_put lookup_mark req_put req_mark)

lemma add_complete: "ok s \<Longrightarrow> complete s \<Longrightarrow> complete (add s n p b)"
  by (auto simp: complete_def add_fields)

lemma del_complete:
  assumes "ok s" "complete s" and "lookup s n \<noteq> None"
  shows "complete (del s n)"
  using assms by (auto simp: complete_def lookup_del req_del [OF assms(1,3)])

lemma mark_complete: "ok s \<Longrightarrow> complete s \<Longrightarrow> lookup s n \<noteq> None \<or> \<not> b \<Longrightarrow> complete (mark s n b)"
  by (auto simp: complete_def lookup_mark req_mark)

lemma rename_fields:
  assumes "ok s" and "old \<noteq> new"
  shows "lookup (del (add s new p b) old) = (lookup s)(new \<mapsto> p, old := None)"
    "req (del (add s new p b) old) = (req s)(new := b \<or> req s new, old := False)"
  using assms req_del [OF add_fields(1), of s new p b new]
  by (auto simp: lookup_del add_fields)

lemma rename_complete:
  assumes "ok s" "complete s" "old \<noteq> new"
  shows "complete (del (add s new p b) old)"
  using assms(2) by (auto simp: complete_def rename_fields [OF assms(1,3)])

end

section \<open>The operations of the code\<close>

definition schema_typed :: "jsval \<Rightarrow> bool" where
  "schema_typed schema =
     (case schema of
        JObj s \<Rightarrow> distinct (keys s)
                \<and> (case obj_get s ''properties'' of JUndef \<Rightarrow> True | JObj _ \<Rightarrow> True | _ \<Rightarrow> False)
                \<and> (case obj_get s ''required'' of JUndef \<Rightarrow> True | JArr _ \<Rightarrow> True | _ \<Rightarrow> False)
      | _ \<Rightarrow> False)"

definition prop_at :: "jsval \<Rightarrow> string \<Rightarrow> jsval option" where
  "prop_at schema n = map_of (props_of (js_opt schema ''properties'')) n"

definition req_at :: "jsval \<Rightarrow> string \<Rightarrow> bool" where
  "req_at schema n = (JStr n \<in> set (items_of (js_opt schema ''required'')))"

lemma schema_typed_cases:
  assumes "schema_typed schema"
  obtains s where "schema = JObj s" and "distinct (keys s)"
    and "obj_get s ''properties'' = JUndef \<or> (\<exists>ps. obj_get s ''properties'' = JObj ps)"
    and "obj_get s ''required'' = JUndef \<or> (\<exists>rs. obj_get s ''required'' = JArr rs)"
  using assms unfolding schema_typed_def by (auto split: jsval.splits)

lemmas editor_defs =
  updateObjectProperty_def updatePropertyRequired_def removeObjectProperty_def prop_at_def req_at_def schema_typed_def

interpretation se: field_editor schema_typed prop_at req_at updateObjectProperty updatePropertyRequired removeObjectProperty
proof
  fix s n p b k assume ok: "schema_typed s"
  obtain ob where s: "s = JObj ob" and ds: "distinct (keys ob)"
    and ps: "obj_get ob ''properties'' = JUndef \<or> (\<exists>ps. obj_get ob ''properties'' = JObj ps)"
    and rs: "obj_get ob ''required'' = JUndef \<or> (\<exists>rs. obj_get ob ''required'' = JArr rs)"
    using schema_typed_cases [OF ok] .
  show "schema_typed (updateObjectProperty s n p)" "schema_typed (updatePropertyRequired s n b)"
    "schema_typed (removeObjectProperty s n)"
    using ds ps rs by (auto simp: s editor_defs Let_def)
  show "prop_at (updateObjectProperty s n p) = (prop_at s)(n \<mapsto> p)"
    "prop_at (updatePropertyRequired s n b) = prop_at s"
    "prop_at (removeObjectProperty s n) = (prop_at s)(n := None)"
    using ps by (auto simp: s editor_defs Let_def fun_eq_iff)
  show "req_at (updateObjectProperty s n p) = req_at s"
    "req_at (updatePropertyRequired s n b) = (req_at s)(n := b)"
    using ps rs by (auto simp: s editor_defs Let_def fun_eq_iff)
  show "req_at (removeObjectProperty s n) = (req_at s)(n := False)" if "prop_at s k \<noteq> None"
    using that ps rs by (auto simp: s editor_defs Let_def fun_eq_iff)
qed

text \<open>The handlers in terms of the interface.\<close>

lemma handleAddField_add:
  "handleAddField schema f = se.add (asObjectSchema schema) (field_name f) (createFieldSchema f) (field_required f)"
  by (simp add: handleAddField_def se.add_def Let_def)

lemma handleDeleteField_del:
  "schema_typed schema \<Longrightarrow> prop_at schema n \<noteq> None \<Longrightarrow> handleDeleteField schema n = Some (removeObjectProperty schema n)"
  by (auto simp: handleDeleteField_def editor_defs Let_def split: jsval.splits)

lemma drop_renamed_fields:
  assumes "schema_typed s"
  shows "schema_typed (drop_renamed n s)" "prop_at (drop_renamed n s) = (prop_at s)(n := None)"
    "req_at (drop_renamed n s) = req_at s"
proof -
  have get: "obj_get (obj_del k ob) k' = (if k' = k then JUndef else obj_get ob k')" for k k' ob
    by (simp add: obj_get_def)
  have ds: "distinct (keys ob) \<Longrightarrow> distinct (keys (obj_del k ob))" for k ob
    by (simp add: obj_del_def keys_def distinct_map_filter')
  obtain ob where "s = JObj ob" "distinct (keys ob)" "obj_get ob ''properties'' = JUndef \<or> (\<exists>ps. obj_get ob ''properties'' = JObj ps)"
    "obj_get ob ''required'' = JUndef \<or> (\<exists>rs. obj_get ob ''required'' = JArr rs)"
    using schema_typed_cases [OF assms] .
  then show "schema_typed (drop_renamed n s)" "prop_at (drop_renamed n s) = (prop_at s)(n := None)"
    "req_at (drop_renamed n s) = req_at s"
    by (auto simp: drop_renamed_def editor_defs get fun_eq_iff intro: ds)
qed

lemma typed_object: "schema_typed s \<Longrightarrow> asObjectSchema s = s"
  by (auto simp: asObjectSchema_def isObjectSchema_def isBooleanSchema_def schema_typed_def split: jsval.splits)

lemma handleEditField_fields:
  assumes s: "schema_typed s"
  shows "schema_typed (handleEditField s n f)"
    "prop_at (handleEditField s n f) =
       (if n = field_name f then prop_at s else (prop_at s)(n := None))(field_name f \<mapsto> createFieldSchema f)"
    "req_at (handleEditField s n f) = (req_at s)(field_name f := field_required f)"
proof -
  let ?k = "field_name f" and ?p = "createFieldSchema f" and ?b = "field_required f"
  define s2 where "s2 = updatePropertyRequired (updateObjectProperty s ?k ?p) ?k ?b"
  have s2: "schema_typed s2" "prop_at s2 = (prop_at s)(?k \<mapsto> ?p)" "req_at s2 = (req_at s)(?k := ?b)"
    using s by (simp_all add: s2_def se.ok_put se.ok_mark se.lookup_put se.lookup_mark se.req_put se.req_mark)
  note d = drop_renamed_fields [OF s2(1), of n]
  have e: "handleEditField s n f = (if n \<noteq> ?k then se.add (drop_renamed n s2) ?k ?p ?b else s2)"
    by (simp add: handleEditField_def s2_def Let_def typed_object [OF s] se.add_def)
  show "schema_typed (handleEditField s n f)" using e d(1) s2(1) by (simp add: se.add_fields)
  show "prop_at (handleEditField s n f) =
      (if n = ?k then prop_at s else (prop_at s)(n := None))(?k \<mapsto> ?p)"
    using e d s2 by (auto simp: se.add_fields fun_eq_iff)
  show "req_at (handleEditField s n f) = (req_at s)(?k := ?b)"
    using e d s2 by (auto simp: se.add_fields fun_eq_iff)
qed

section \<open>Claims\<close>

definition required_described :: "jsval \<Rightarrow> bool" where
  \<comment> \<open>every required name is a property\<close>
  "required_described schema =
     list_all (\<lambda>v. case v of JStr n \<Rightarrow> prop_at schema n \<noteq> None | _ \<Rightarrow> True) (items_of (js_opt schema ''required''))"

lemma complete_iff: "se.complete = required_described"
  by (auto simp: fun_eq_iff se.complete_def required_described_def req_at_def list_all_iff split: jsval.splits)

definition fields_of :: "jsval \<Rightarrow> string \<Rightarrow> (jsval \<times> bool) option" where
  "fields_of schema n = map_option (\<lambda>p. (p, req_at schema n)) (prop_at schema n)"

text \<open>
  C20: the visual editor implements a map from names to a schema and a required flag: adding a field
  binds its name, editing one rebinds it (under the new name when it was renamed, the old name being
  unbound), deleting one unbinds it, and no other field changes.
\<close>

theorem schema_editor_refines:
  assumes s: "schema_typed s"
  shows "fields_of (handleAddField s f) =
           (fields_of s)(field_name f \<mapsto> (createFieldSchema f, field_required f \<or> req_at s (field_name f)))
     \<and> fields_of (handleEditField s n f) =
           (if n = field_name f then fields_of s else (fields_of s)(n := None))
             (field_name f \<mapsto> (createFieldSchema f, field_required f))
     \<and> (prop_at s n \<noteq> None \<longrightarrow> map_option fields_of (handleDeleteField s n) = Some ((fields_of s)(n := None)))"
proof (intro conjI impI)
  show "fields_of (handleAddField s f) =
      (fields_of s)(field_name f \<mapsto> (createFieldSchema f, field_required f \<or> req_at s (field_name f)))"
    by (simp add: handleAddField_add typed_object [OF s] fields_of_def se.add_fields [OF s] fun_eq_iff)
  show "fields_of (handleEditField s n f) = (if n = field_name f then fields_of s else (fields_of s)(n := None))
      (field_name f \<mapsto> (createFieldSchema f, field_required f))"
    by (simp add: fields_of_def handleEditField_fields [OF s] fun_eq_iff)
  show "map_option fields_of (handleDeleteField s n) = Some ((fields_of s)(n := None))" if "prop_at s n \<noteq> None"
    using that by (simp add: handleDeleteField_del [OF s] fields_of_def se.lookup_del [OF s] se.req_del [OF s] fun_eq_iff)
qed

definition schema_example :: jsval where
  "schema_example = JObj [(''type'', JStr ''object''), (''properties'', JObj [(''a'', JObj [(''type'', JStr ''string'')])]),
     (''required'', JArr [JStr ''a''])]"

definition field_example :: new_field where
  "field_example = \<lparr>field_name = ''b'', field_type = JStr ''string'', field_description = JStr [], field_required = True, field_validation = JUndef\<rparr>"

theorem schema_editor_refines_witness:
  "schema_typed schema_example \<and> fields_of (handleAddField schema_example field_example) ''b'' =
     Some (JObj [(''type'', JStr ''string''), (''description'', JStr [])], True)"
proof
  show s: "schema_typed schema_example" by code_simp
  have "createFieldSchema field_example = JObj [(''type'', JStr ''string''), (''description'', JStr [])]" by code_simp
  then show "fields_of (handleAddField schema_example field_example) ''b'' =
      Some (JObj [(''type'', JStr ''string''), (''description'', JStr [])], True)"
    using schema_editor_refines [OF s, of field_example] by (simp add: field_example_def)
qed

text \<open>
  Renaming a required field in the visual editor leaves its old name in \<open>required\<close> although the
  property is gone, so that the schema then demands a property it does not describe; adding,
  deleting and editing without a rename keep every required name described.
\<close>

theorem rename_leaves_required:
  assumes s: "schema_typed s" "required_described s"
  shows "required_described (handleAddField s f)
     \<and> (n = field_name f \<longrightarrow> required_described (handleEditField s n f))
     \<and> (prop_at s n \<noteq> None \<longrightarrow> required_described (the (handleDeleteField s n)))
     \<and> (n \<noteq> field_name f \<and> req_at s n \<longrightarrow>
          req_at (handleEditField s n f) n \<and> prop_at (handleEditField s n f) n = None)"
proof (intro conjI impI)
  show "required_described (handleAddField s f)"
    using se.add_complete [OF s(1)] s(2) by (simp add: handleAddField_add typed_object [OF s(1)] complete_iff)
  show "required_described (handleEditField s n f)" if "n = field_name f"
    using that s(2) unfolding complete_iff [symmetric] by (auto simp: se.complete_def handleEditField_fields [OF s(1)])
  show "required_described (the (handleDeleteField s n))" if "prop_at s n \<noteq> None"
    using that se.del_complete [OF s(1)] s(2) by (simp add: handleDeleteField_del [OF s(1)] complete_iff)
  show "req_at (handleEditField s n f) n" "prop_at (handleEditField s n f) n = None"
    if "n \<noteq> field_name f \<and> req_at s n"
    using that by (simp_all add: handleEditField_fields [OF s(1)])
qed

theorem rename_leaves_required_witness:
  "required_described schema_example \<and> req_at (handleEditField schema_example ''a'' field_example) ''a''
     \<and> prop_at (handleEditField schema_example ''a'' field_example) ''a'' = None"
proof -
  have s: "schema_typed schema_example" by code_simp
  have c: "required_described schema_example"
    by code_simp
  have "req_at schema_example ''a''" by code_simp
  then show ?thesis using c rename_leaves_required [OF s c, of field_example "''a''"] by (simp add: field_example_def)
qed

section \<open>Sequences of edits\<close>

datatype schema_edit = AddEdit new_field | ChangeEdit string new_field | DeleteEdit string

fun apply_edit :: "jsval \<Rightarrow> schema_edit \<Rightarrow> jsval" where
  "apply_edit s (AddEdit f) = handleAddField s f"
| "apply_edit s (ChangeEdit n f) = handleEditField s n f"
| "apply_edit s (DeleteEdit n) = (case handleDeleteField s n of None \<Rightarrow> s | Some s' \<Rightarrow> s')"

fun renames :: "schema_edit \<Rightarrow> bool" where
  "renames (ChangeEdit n f) = (n \<noteq> field_name f)"
| "renames _ = False"

lemma handleDeleteField_fields:
  assumes "schema_typed s" and "handleDeleteField s n = Some s'"
  shows "schema_typed s'" "prop_at s' = (prop_at s)(n := None)" "req_at s' = (req_at s)(n := False)"
proof -
  obtain ob where s: "s = JObj ob" and ds: "distinct (keys ob)"
    and ps: "obj_get ob ''properties'' = JUndef \<or> (\<exists>ps. obj_get ob ''properties'' = JObj ps)"
    and rs: "obj_get ob ''required'' = JUndef \<or> (\<exists>rs. obj_get ob ''required'' = JArr rs)"
    using schema_typed_cases [OF assms(1)] .
  have t: "truthy (obj_get ob ''properties'')" and e: "s' = removeObjectProperty s n"
    using assms(2) by (auto simp: s handleDeleteField_def removeObjectProperty_def Let_def split: if_splits)
  show "schema_typed s'" "prop_at s' = (prop_at s)(n := None)" unfolding e
    by (simp_all add: se.ok_del se.lookup_del assms(1))
  show "req_at s' = (req_at s)(n := False)"
    using t ps rs by (auto simp: e s editor_defs Let_def fun_eq_iff)
qed

lemma apply_edit_keeps:
  assumes "schema_typed s"
  shows "schema_typed (apply_edit s e)" "required_described s \<Longrightarrow> \<not> renames e \<Longrightarrow> required_described (apply_edit s e)"
proof -
  show "schema_typed (apply_edit s e)"
    using assms handleDeleteField_fields(1) [OF assms]
    by (cases e) (auto simp: handleAddField_add typed_object se.add_fields handleEditField_fields split: option.split)
  assume r: "required_described s" and n: "\<not> renames e"
  show "required_described (apply_edit s e)"
    unfolding complete_iff [symmetric] se.complete_def
  proof (cases e)
    case (AddEdit f)
    then show "\<forall>n. req_at (apply_edit s e) n \<longrightarrow> prop_at (apply_edit s e) n \<noteq> None"
      using r unfolding complete_iff [symmetric] se.complete_def
      by (simp add: handleAddField_add typed_object assms se.add_fields)
  next
    case (ChangeEdit m f)
    then show "\<forall>n. req_at (apply_edit s e) n \<longrightarrow> prop_at (apply_edit s e) n \<noteq> None"
      using r n unfolding complete_iff [symmetric] se.complete_def by (simp add: handleEditField_fields assms)
  next
    case (DeleteEdit m)
    then show "\<forall>n. req_at (apply_edit s e) n \<longrightarrow> prop_at (apply_edit s e) n \<noteq> None"
      using r handleDeleteField_fields [OF assms, of m] unfolding complete_iff [symmetric] se.complete_def
      by (auto split: option.split)
  qed
qed

text \<open>
  C34: every sequence of edits in the visual editor keeps the schema an object whose \<open>properties\<close> are an
  object and whose \<open>required\<close> is a list; as long as no field is renamed, every required name stays the
  name of a property.
\<close>

theorem schema_edits_typed:
  assumes "schema_typed s"
  shows "schema_typed (foldl apply_edit s es)
     \<and> (required_described s \<and> list_all (\<lambda>e. \<not> renames e) es \<longrightarrow> required_described (foldl apply_edit s es))"
  using assms
proof (induction es arbitrary: s)
  case (Cons e es)
  then show ?case using apply_edit_keeps [of s e] by simp
qed simp

theorem schema_edits_typed_witness:
  "required_described (foldl apply_edit schema_example [AddEdit field_example, DeleteEdit ''a'', DeleteEdit ''z''])"
proof -
  have "schema_typed schema_example" "required_described schema_example" by code_simp+
  then show ?thesis
    using schema_edits_typed [of schema_example "[AddEdit field_example, DeleteEdit ''a'', DeleteEdit ''z'']"] by simp
qed

end
