(* ===== verification/Schema_Type_Editors.thy ===== *)
theory Schema_Type_Editors
  imports Schema_Editor_Laws
begin

text \<open>
  The editors of one field and of the schema types, under
  \<open>components/jsonjoy-builder/components/schema-editor\<close>: \<open>schema-field-list.tsx\<close>,
  \<open>schema-property-editor.tsx\<close>, \<open>add-field-button.tsx\<close> and \<open>types/*.tsx\<close>. A handler gives the
  argument of the callback it calls (none when it does not call it), and the next value of the local
  state that it sets.
\<close>

section \<open>Objects\<close>

definition normalizedSchema :: "jsval \<Rightarrow> jsval" where
  "normalizedSchema schema =
     (if isBooleanSchema schema then JObj [(''type'', JStr ''object''), (''properties'', JObj [])]
      else JObj (obj_put ''properties'' (js_or (js_opt schema ''properties'') (JObj []))
                  (obj_put ''type'' (JStr ''object'') (spread schema))))"

definition handleAddProperty :: "jsval \<Rightarrow> new_field \<Rightarrow> jsval" where
  "handleAddProperty schema newField =
     (let fieldSchema = JObj (obj_assign [(''type'', field_type newField),
                                          (''description'', js_or (field_description newField) JUndef)]
                                (entries (js_or (field_validation newField) (JObj []))));
          newSchema = updateObjectProperty (normalizedSchema schema) (field_name newField) fieldSchema
      in if field_required newField then updatePropertyRequired newSchema (field_name newField) True else newSchema)"

definition handleDeleteProperty :: "jsval \<Rightarrow> string \<Rightarrow> jsval" where
  "handleDeleteProperty schema propertyName = removeObjectProperty (normalizedSchema schema) propertyName"

definition handlePropertyNameChange :: "jsval \<Rightarrow> string \<Rightarrow> string \<Rightarrow> jsval option" where
  "handlePropertyNameChange schema oldName newName =
     (if oldName = newName then None
      else case find (\<lambda>p. prop_name p = oldName) (getSchemaProperties schema) of
             None \<Rightarrow> None
           | Some p \<Rightarrow>
               (let s1 = updateObjectProperty (normalizedSchema schema) newName (asObjectSchema (prop_schema p));
                    s2 = (if prop_required p then updatePropertyRequired s1 newName True else s1)
                in Some (removeObjectProperty s2 oldName)))"

definition handlePropertyRequiredChange :: "jsval \<Rightarrow> string \<Rightarrow> bool \<Rightarrow> jsval" where
  "handlePropertyRequiredChange schema propertyName required =
     updatePropertyRequired (normalizedSchema schema) propertyName required"

definition handlePropertySchemaChange :: "jsval \<Rightarrow> string \<Rightarrow> jsval \<Rightarrow> jsval" where
  "handlePropertySchemaChange schema propertyName propertySchema =
     updateObjectProperty (normalizedSchema schema) propertyName propertySchema"

section \<open>Numbers\<close>

datatype num_property = Minimum | Maximum | ExclusiveMinimum | ExclusiveMaximum | MultipleOf | EnumP

fun num_key :: "num_property \<Rightarrow> string" where
  "num_key Minimum = ''minimum''"
| "num_key Maximum = ''maximum''"
| "num_key ExclusiveMinimum = ''exclusiveMinimum''"
| "num_key ExclusiveMaximum = ''exclusiveMaximum''"
| "num_key MultipleOf = ''multipleOf''"
| "num_key EnumP = ''enum''"

definition num_properties :: "num_property list" where
  "num_properties = [Minimum, Maximum, ExclusiveMinimum, ExclusiveMaximum, MultipleOf, EnumP]"

definition number_base :: "bool \<Rightarrow> jsval \<Rightarrow> jsval obj" where
  \<comment> \<open>\<open>baseProperties\<close>: the type and the constraints that are set\<close>
  "number_base integer schema =
     fold (\<lambda>p b. if \<not> isBooleanSchema schema \<and> js_opt schema (num_key p) \<noteq> JUndef
                 then obj_put (num_key p) (js_opt schema (num_key p)) b else b)
       num_properties [(''type'', JStr (if integer then ''integer'' else ''number''))]"

definition numberValidationChange :: "bool \<Rightarrow> jsval \<Rightarrow> num_property \<Rightarrow> jsval \<Rightarrow> jsval" where
  "numberValidationChange integer schema property val =
     (let base = number_base integer schema
      in JObj (if val \<noteq> JUndef then obj_put (num_key property) val base else obj_del (num_key property) base))"

definition enum_values :: "jsval \<Rightarrow> jsval list" where
  "enum_values schema = withObjectSchema schema (\<lambda>s. items_of (js_or (js_opt s ''enum'') (JArr []))) []"

definition num_floor :: "jsnum \<Rightarrow> jsnum" where
  "num_floor n = (case n of Fin q \<Rightarrow> int_num \<lfloor>q\<rfloor> | _ \<Rightarrow> n)"

definition numberAddEnumValue :: "bool \<Rightarrow> jsval \<Rightarrow> string \<Rightarrow> jsval option \<times> string" where
  \<comment> \<open>the schema for \<open>onChange\<close>, and the next \<open>enumValue\<close>\<close>
  "numberAddEnumValue integer schema enumValue =
     (let numValue = num_of_string enumValue; validValue = JNum (if integer then num_floor numValue else numValue)
      in if js_trim enumValue = [] \<or> numValue = NaN then (None, enumValue)
         else (if validValue \<in> set (enum_values schema) then None
               else Some (numberValidationChange integer schema EnumP (JArr (enum_values schema @ [validValue]))), []))"

definition remove_at :: "nat \<Rightarrow> 'a list \<Rightarrow> 'a list" where
  \<comment> \<open>\<open>xs.splice(i, 1)\<close>\<close>
  "remove_at i xs = take i xs @ drop (Suc i) xs"

definition numberRemoveEnumValue :: "bool \<Rightarrow> jsval \<Rightarrow> nat \<Rightarrow> jsval" where
  "numberRemoveEnumValue integer schema index =
     (let newEnumValues = remove_at index (enum_values schema)
      in numberValidationChange integer schema EnumP (if newEnumValues = [] then JUndef else JArr newEnumValues))"

section \<open>Strings\<close>

definition stringValidationChange :: "jsval \<Rightarrow> string \<Rightarrow> jsval \<Rightarrow> jsval" where
  "stringValidationChange schema property val =
     (let baseSchema = (if isBooleanSchema schema then [(''type'', JStr ''string'')] else spread schema);
          validationProps = obj_del ''description'' (obj_del ''type'' baseSchema)
      in JObj (obj_put property val (obj_put ''type'' (JStr ''string'') validationProps)))"

definition stringAddEnumValue :: "jsval \<Rightarrow> string \<Rightarrow> jsval option \<times> string" where
  "stringAddEnumValue schema enumValue =
     (if js_trim enumValue = [] then (None, enumValue)
      else (if JStr enumValue \<in> set (enum_values schema) then None
            else Some (stringValidationChange schema ''enum'' (JArr (enum_values schema @ [JStr enumValue]))), []))"

definition stringRemoveEnumValue :: "jsval \<Rightarrow> nat \<Rightarrow> jsval" where
  "stringRemoveEnumValue schema index =
     (let newEnumValues = remove_at index (enum_values schema);
          baseSchema = (if isBooleanSchema schema then [(''type'', JStr ''string'')] else spread schema)
      in if newEnumValues = [] then JObj (obj_del ''enum'' baseSchema)
         else stringValidationChange schema ''enum'' (JArr newEnumValues))"

section \<open>Booleans\<close>

definition allowed_values :: "jsval \<Rightarrow> jsval list option" where
  \<comment> \<open>the restriction, when there is one\<close>
  "allowed_values schema = withObjectSchema schema (\<lambda>s. case js_opt s ''enum'' of JArr vs \<Rightarrow> Some vs | _ \<Rightarrow> None) None"

definition handleAllowedChange :: "jsval \<Rightarrow> bool \<Rightarrow> bool \<Rightarrow> jsval option" where
  "handleAllowedChange schema val allowed =
     (if allowed
      then case allowed_values schema of
             None \<Rightarrow> None
           | Some vs \<Rightarrow>
               if JBool val \<in> set vs then None
               else let newEnum = vs @ [JBool val] in
                    Some (JObj (if JBool True \<in> set newEnum \<and> JBool False \<in> set newEnum
                                then [(''type'', JStr ''boolean'')]
                                else [(''type'', JStr ''boolean''), (''enum'', JArr newEnum)]))
      else if (case allowed_values schema of None \<Rightarrow> False | Some vs \<Rightarrow> JBool val \<notin> set vs) then None
      else Some (JObj [(''type'', JStr ''boolean''), (''enum'', JArr [JBool (\<not> val)])]))"

section \<open>Arrays\<close>

definition arrayItemsSchema :: "jsval \<Rightarrow> jsval" where
  "arrayItemsSchema schema = js_or (getArrayItemsSchema schema) (JObj [(''type'', JStr ''string'')])"

definition array_base :: "jsval \<Rightarrow> jsval obj" where
  \<comment> \<open>\<open>{ type: 'array', ...(isBooleanSchema(schema) ? {} : schema) }\<close>\<close>
  "array_base schema = obj_assign [(''type'', JStr ''array'')] (if isBooleanSchema schema then [] else entries schema)"

definition arrayValidationChange :: "jsval \<Rightarrow> jsval \<Rightarrow> jsval \<Rightarrow> bool \<Rightarrow> jsval" where
  "arrayValidationChange schema minItems maxItems uniqueItems =
     (let v1 = obj_assign (array_base schema)
                 [(''minItems'', minItems), (''maxItems'', maxItems),
                  (''uniqueItems'', if uniqueItems then JBool True else JUndef)];
          v2 = (if obj_get v1 ''items'' = JUndef then obj_put ''items'' (arrayItemsSchema schema) v1 else v1)
      in JObj (obj_of_entries (filter (\<lambda>kv. snd kv \<noteq> JUndef) v2)))"

definition handleItemSchemaChange :: "jsval \<Rightarrow> jsval \<Rightarrow> jsval" where
  "handleItemSchemaChange schema updatedItemSchema = JObj (obj_put ''items'' updatedItemSchema (array_base schema))"

text \<open>
  The switch for \<open>uniqueItems\<close> sets the state and then calls the handler of the same rendering,
  which still has the value from before.
\<close>

definition uniqueItemsToggle :: "jsval \<Rightarrow> jsval \<Rightarrow> jsval \<Rightarrow> bool \<Rightarrow> bool \<Rightarrow> jsval \<times> bool" where
  "uniqueItemsToggle schema minItems maxItems uniqueItems checked =
     (arrayValidationChange schema minItems maxItems uniqueItems, checked)"

section \<open>One field\<close>

definition handleNameSubmit :: "string \<Rightarrow> string \<Rightarrow> string option \<times> string" where
  \<comment> \<open>the name for \<open>onNameChange\<close>, and the next \<open>tempName\<close>\<close>
  "handleNameSubmit name tempName =
     (let trimmedName = js_trim tempName
      in if trimmedName \<noteq> [] \<and> trimmedName \<noteq> name then (Some trimmedName, tempName) else (None, name))"

definition handleDescSubmit :: "jsval \<Rightarrow> string \<Rightarrow> jsval option" where
  "handleDescSubmit schema tempDesc =
     (let trimmedDesc = js_trim tempDesc
      in if JStr trimmedDesc \<noteq> getSchemaDescription schema
         then Some (JObj (obj_put ''description'' (if trimmedDesc = [] then JUndef else JStr trimmedDesc)
                           (spread (asObjectSchema schema))))
         else None)"

definition handleSchemaUpdate :: "jsval \<Rightarrow> jsval \<Rightarrow> jsval" where
  "handleSchemaUpdate schema updatedSchema =
     JObj (obj_put ''description'' (js_or (getSchemaDescription schema) JUndef) (spread updatedSchema))"

definition getValidSchemaType :: "jsval \<Rightarrow> jsval" where
  "getValidSchemaType propSchema =
     (case propSchema of
        JBool _ \<Rightarrow> JStr ''object''
      | _ \<Rightarrow> (case js_opt propSchema ''type'' of
                JArr ts \<Rightarrow> js_or (if ts = [] then JUndef else hd ts) (JStr ''object'')
              | t \<Rightarrow> js_or t (JStr ''object'')))"

definition field_of_property :: "string \<Rightarrow> bool \<Rightarrow> jsval \<Rightarrow> new_field" where
  \<comment> \<open>the edit event that \<open>handleNameChange\<close> and \<open>handleRequiredChange\<close> build\<close>
  "field_of_property name required propSchema =
     \<lparr>field_name = name, field_type = getValidSchemaType propSchema,
      field_description = (if isBooleanSchema propSchema then JStr [] else js_or (js_opt propSchema ''description'') (JStr [])),
      field_required = required,
      field_validation = (if isBooleanSchema propSchema then JObj [(''type'', JStr ''object'')] else propSchema)\<rparr>"

definition handleNameChange :: "jsval \<Rightarrow> string \<Rightarrow> string \<Rightarrow> (string \<times> new_field) option" where
  "handleNameChange schema oldName newName =
     map_option (\<lambda>p. (oldName, field_of_property newName (prop_required p) (prop_schema p)))
       (find (\<lambda>p. prop_name p = oldName) (getSchemaProperties schema))"

definition handleRequiredChange :: "jsval \<Rightarrow> string \<Rightarrow> bool \<Rightarrow> (string \<times> new_field) option" where
  "handleRequiredChange schema name required =
     map_option (\<lambda>p. (name, field_of_property name required (prop_schema p)))
       (find (\<lambda>p. prop_name p = name) (getSchemaProperties schema))"

definition handleSchemaChange :: "jsval \<Rightarrow> string \<Rightarrow> jsval \<Rightarrow> (string \<times> new_field) option" where
  "handleSchemaChange schema name updatedSchema =
     map_option (\<lambda>p. (name,
         \<lparr>field_name = name,
          field_type = (case js_or (js_opt updatedSchema ''type'') (JStr ''object'') of
                          JArr ts \<Rightarrow> js_or (if ts = [] then JUndef else hd ts) (JStr ''object'') | t \<Rightarrow> t),
          field_description = js_or (js_opt updatedSchema ''description'') (JStr []),
          field_required = prop_required p, field_validation = updatedSchema\<rparr>))
       (find (\<lambda>p. prop_name p = name) (getSchemaProperties schema))"

definition addFieldSubmit :: "string \<Rightarrow> string \<Rightarrow> string \<Rightarrow> bool \<Rightarrow> new_field option" where
  "addFieldSubmit fieldName fieldType fieldDesc fieldRequired =
     (if js_trim fieldName = [] then None
      else Some \<lparr>field_name = fieldName, field_type = JStr fieldType, field_description = JStr fieldDesc,
                 field_required = fieldRequired, field_validation = JUndef\<rparr>)"

section \<open>Claims\<close>

lemma normalized_fields:
  assumes "schema_typed s"
  shows "schema_typed (normalizedSchema s)" "prop_at (normalizedSchema s) = prop_at s" "req_at (normalizedSchema s) = req_at s"
proof -
  obtain ob where s: "s = JObj ob" and d: "distinct (keys ob)"
    and ps: "obj_get ob ''properties'' = JUndef \<or> (\<exists>ps. obj_get ob ''properties'' = JObj ps)"
    and rs: "obj_get ob ''required'' = JUndef \<or> (\<exists>rs. obj_get ob ''required'' = JArr rs)"
    using schema_typed_cases [OF assms] .
  have sp: "obj_get (spread (JObj ob)) k = obj_get ob k" for k by (rule obj_get_spread [OF d])
  have ds: "distinct (keys (spread (JObj ob)))" by (simp add: spread_def distinct_keys_obj_assign)
  show "schema_typed (normalizedSchema s)"
    using ps rs ds by (auto simp: s normalizedSchema_def isBooleanSchema_def schema_typed_def sp js_or_def)
  show "prop_at (normalizedSchema s) = prop_at s" "req_at (normalizedSchema s) = req_at s"
    using ps by (auto simp: s normalizedSchema_def isBooleanSchema_def prop_at_def req_at_def sp js_or_def fun_eq_iff)
qed

lemma find_property:
  assumes "schema_typed s"
  shows "find (\<lambda>p. prop_name p = n) (getSchemaProperties s) =
     map_option (\<lambda>x. \<lparr>prop_name = n, prop_schema = x, prop_required = req_at s n\<rparr>) (prop_at s n)"
proof -
  have f: "find (\<lambda>p. prop_name p = n) (map (\<lambda>(k, x). \<lparr>prop_name = k, prop_schema = x, prop_required = R k\<rparr>) ps) =
      map_option (\<lambda>x. \<lparr>prop_name = n, prop_schema = x, prop_required = R n\<rparr>) (map_of ps n)" for ps R
    by (induction ps) auto
  obtain ob where "s = JObj ob" "obj_get ob ''required'' = JUndef \<or> (\<exists>rs. obj_get ob ''required'' = JArr rs)"
    using schema_typed_cases [OF assms] .
  then show ?thesis by (auto simp: getSchemaProperties_def prop_at_def req_at_def js_or_def Let_def f)
qed

text \<open>
  Renaming a property in the editor of an object type moves its schema and its required flag to
  the new name, leaves every other property alone, and keeps every required name described.
\<close>

theorem object_editor_rename:
  assumes s: "schema_typed s" "required_described s" and p: "prop_at s old = Some p" and new: "old \<noteq> new"
  shows "\<exists>s'. handlePropertyNameChange s old new = Some s' \<and> required_described s'
     \<and> fields_of s' = (fields_of s)(new \<mapsto> (asObjectSchema p, req_at s old \<or> req_at s new), old := None)"
proof -
  let ?n = "normalizedSchema s"
  note n = normalized_fields [OF s(1)]
  define s' where "s' = removeObjectProperty (se.add ?n new (asObjectSchema p) (req_at s old)) old"
  have h: "handlePropertyNameChange s old new = Some s'"
    using new by (simp add: handlePropertyNameChange_def find_property [OF s(1)] p s'_def se.add_def Let_def)
  have c: "se.complete ?n" using s(2) by (auto simp: complete_iff [symmetric] se.complete_def n)
  have "required_described s'"
    using se.rename_complete [OF n(1) c new] by (simp add: s'_def complete_iff)
  moreover have "fields_of s' = (fields_of s)(new \<mapsto> (asObjectSchema p, req_at s old \<or> req_at s new), old := None)"
    unfolding s'_def fields_of_def
    by (auto simp: se.rename_fields [OF n(1) new] n(2,3) fun_eq_iff)
  ultimately show ?thesis using h by blast
qed

theorem object_editor_rename_witness:
  "\<exists>s'. handlePropertyNameChange schema_example ''a'' ''c'' = Some s' \<and> required_described s'
     \<and> fields_of s' ''c'' = Some (JObj [(''type'', JStr ''string'')], True) \<and> fields_of s' ''a'' = None"
proof -
  have h: "schema_typed schema_example" "required_described schema_example"
    "prop_at schema_example ''a'' = Some (JObj [(''type'', JStr ''string'')])" "req_at schema_example ''a''"
    "asObjectSchema (JObj [(''type'', JStr ''string'')]) = JObj [(''type'', JStr ''string'')]"
    by code_simp+
  show ?thesis using object_editor_rename [OF h(1-3), of "''c''"] h(4,5) by auto
qed

lemma num_key_inj: "num_key p = num_key q \<longleftrightarrow> p = q"
  by (cases p; cases q) simp_all

lemma num_key_type: "num_key p \<noteq> ''type''"
  by (cases p) simp_all

lemma fold_put_other:
  "(\<forall>p\<in>set ps. key p \<noteq> k) \<Longrightarrow> obj_get (fold (\<lambda>p b. if P p then obj_put (key p) (f p) b else b) ps ob) k = obj_get ob k"
  by (induction ps arbitrary: ob) auto

lemma fold_put_own:
  "distinct (map key ps) \<Longrightarrow> p \<in> set ps \<Longrightarrow>
     obj_get (fold (\<lambda>p b. if P p then obj_put (key p) (f p) b else b) ps ob) (key p) =
       (if P p then f p else obj_get ob (key p))"
proof (induction ps arbitrary: ob)
  case (Cons q ps)
  show ?case
  proof (cases "p \<in> set ps")
    case True
    then have "key p \<in> key ` set ps" by blast
    then have "key p \<noteq> key q" using Cons.prems(1) by auto
    then show ?thesis using True Cons by simp
  next
    case False
    then have "p = q" "key q \<notin> key ` set ps" using Cons.prems by auto
    then have "\<forall>q\<in>set ps. key q \<noteq> key p" by (metis imageI)
    then show ?thesis using False Cons.prems by (simp add: fold_put_other)
  qed
qed simp

lemma number_base_get:
  "obj_get (number_base integer schema) (num_key p) = (if isBooleanSchema schema then JUndef else js_opt schema (num_key p))"
  "obj_get (number_base integer schema) ''type'' = JStr (if integer then ''integer'' else ''number'')"
proof -
  have d: "distinct (map num_key num_properties)" and p: "p \<in> set num_properties"
    by (simp add: num_properties_def) (cases p; simp add: num_properties_def)
  show "obj_get (number_base integer schema) (num_key p) = (if isBooleanSchema schema then JUndef else js_opt schema (num_key p))"
    unfolding number_base_def fold_put_own [OF d p] by (simp add: num_key_type)
  show "obj_get (number_base integer schema) ''type'' = JStr (if integer then ''integer'' else ''number'')"
    unfolding number_base_def by (subst fold_put_other) (simp_all add: num_key_type)
qed

text \<open>
  Changing one constraint of a number sets exactly that constraint (or removes it when the value
  is undefined), keeps the five others as they were, and sets the type.
\<close>

theorem number_editor_one_constraint:
  "js_opt (numberValidationChange integer schema p v) (num_key q) =
     (if q = p then v else if isBooleanSchema schema then JUndef else js_opt schema (num_key q))
   \<and> js_opt (numberValidationChange integer schema p v) ''type'' = JStr (if integer then ''integer'' else ''number'')"
  by (auto simp: numberValidationChange_def Let_def obj_get_del num_key_inj number_base_get num_key_type num_key_type [symmetric])

definition accepts_bool :: "jsval \<Rightarrow> bool \<Rightarrow> bool" where
  "accepts_bool schema b = (case allowed_values schema of None \<Rightarrow> True | Some vs \<Rightarrow> JBool b \<in> set vs)"

text \<open>
  Allowing a boolean value adds it to the accepted ones; disallowing an accepted one removes it
  and accepts the other one, so a schema never ends up accepting neither.
\<close>

theorem boolean_editor_allowed:
  "accepts_bool (case handleAllowedChange s v allowed of None \<Rightarrow> s | Some s' \<Rightarrow> s') b =
     (if b = v then allowed else if allowed then accepts_bool s b else accepts_bool s v \<or> accepts_bool s b)"
proof -
  have n: "allowed_values (JObj [(''type'', t), (''enum'', JArr vs)]) = Some vs" "allowed_values (JObj [(''type'', t)]) = None" for t vs
    by (simp_all add: allowed_values_def withObjectSchema_def isObjectSchema_def isBooleanSchema_def)
  show ?thesis
    by (cases "allowed_values s"; cases b; cases v; cases allowed)
      (auto simp: handleAllowedChange_def accepts_bool_def n Let_def)
qed

text \<open>
  The switch that forces unique items changes nothing in the schema: the schema that is saved
  has the value the switch had before.
\<close>

theorem unique_items_switch_is_late:
  assumes "schema_typed s"
  shows "js_opt (fst (uniqueItemsToggle s mn mx old checked)) ''uniqueItems'' = (if old then JBool True else JUndef)"
proof -
  obtain ob where s: "s = JObj ob" and d: "distinct (keys ob)" using schema_typed_cases [OF assms] .
  have f: "obj_get (obj_of_entries (filter (\<lambda>kv. snd kv \<noteq> JUndef) o2)) k = obj_get o2 k" if "distinct (keys o2)" for o2 k
  proof -
    have dk: "distinct (keys (filter (\<lambda>kv. snd kv \<noteq> JUndef) o2))"
      using that by (simp add: keys_def distinct_map_filter')
    show ?thesis
    proof (cases "map_of o2 k")
      case None
      then have "map_of (filter (\<lambda>kv. snd kv \<noteq> JUndef) o2) k = None"
        by (auto simp: map_of_None_keys keys_def)
      then show ?thesis using None by (simp add: obj_get_def map_of_obj_of_entries [OF dk])
    next
      case (Some v)
      then have "map_of (filter (\<lambda>kv. snd kv \<noteq> JUndef) o2) k = (if v = JUndef then None else Some v)"
        using that dk by (auto simp: keys_def map_of_eq_Some_iff map_of_eq_None_iff dest: eq_key_imp_eq_value)
      then show ?thesis using Some by (simp add: obj_get_def map_of_obj_of_entries [OF dk])
    qed
  qed
  have a: "distinct (keys (array_base s))" by (simp add: array_base_def distinct_keys_obj_assign)
  show ?thesis
    by (auto simp: uniqueItemsToggle_def arrayValidationChange_def Let_def f distinct_keys_obj_assign a obj_get_assign
        distinct_keys_obj_put)
qed

theorem unique_items_switch_is_late_witness:
  "js_opt (fst (uniqueItemsToggle schema_example JUndef JUndef False True)) ''uniqueItems'' = JUndef"
proof -
  have "schema_typed schema_example" by code_simp
  then show ?thesis using unique_items_switch_is_late [of schema_example JUndef JUndef False True] by simp
qed

end
