(* ===== verification/Schema_Inference.thy ===== *)
theory Schema_Inference
  imports Js_Json Json_Schema
begin

text \<open>
  Inference of a JSON schema from a value: \<open>components/jsonjoy-builder/lib/schema-inference.ts\<close>.

  Inferred schemas are objects, so reading one of their properties never throws. The clock
  (\<open>Date.now()\<close>) is an argument. The objects that collect properties inherit from
  \<open>Object.prototype\<close>: a property of the input that has one of its names (\<open>constructor\<close>,
  \<open>toString\<close>) is outside the model.
\<close>

section \<open>Merging\<close>

definition mergeSchemas :: "jsval \<Rightarrow> jsval \<Rightarrow> jsval" where
  "mergeSchemas schema1 schema2 =
     (let s1 = asObjectSchema schema1; s2 = asObjectSchema schema2 in
      if js_stringify s1 = js_stringify s2 then schema1
      else if js_opt s1 ''type'' = JStr ''integer'' \<and> js_opt s2 ''type'' = JStr ''number'' then JObj [(''type'', JStr ''number'')]
      else if js_opt s1 ''type'' = JStr ''number'' \<and> js_opt s2 ''type'' = JStr ''integer'' then JObj [(''type'', JStr ''number'')]
      else
        let existingOneOf = (case js_opt s1 ''oneOf'' of JArr xs \<Rightarrow> xs | _ \<Rightarrow> [s1]) in
        if \<not> list_ex (\<lambda>s. js_stringify s = js_stringify s2) existingOneOf
        then let uniqueSchemas = unique_by_json (existingOneOf @ [s2])
             in if length uniqueSchemas = 1 then hd uniqueSchemas else JObj [(''oneOf'', JArr uniqueSchemas)]
        else if truthy (js_opt s1 ''oneOf'') then s1 else JObj [(''oneOf'', JArr [s1])])"

section \<open>Objects\<close>

definition object_schema :: "jsval obj \<Rightarrow> string list \<Rightarrow> jsval" where
  "object_schema properties required =
     JObj [(''type'', JStr ''object''), (''properties'', JObj properties),
           (''required'', if required \<noteq> [] then JArr (map JStr (sort required)) else JUndef)]"

definition inferObjectSchema :: "jsval obj \<Rightarrow> jsval obj \<Rightarrow> jsval" where
  \<comment> \<open>the second argument has the inferred schemas of the entries\<close>
  "inferObjectSchema ob schemas =
     object_schema (obj_of_entries schemas) (map fst (filter (\<lambda>kv. \<not> nullish (snd kv)) ob))"

section \<open>Arrays of objects\<close>

definition is_str_or_num :: "jsval \<Rightarrow> bool" where
  "is_str_or_num v = (case v of JStr _ \<Rightarrow> True | JNum _ \<Rightarrow> True | _ \<Rightarrow> False)"

definition own :: "jsval \<Rightarrow> string \<Rightarrow> bool" where
  \<comment> \<open>\<open>Object.prototype.hasOwnProperty.call(item, key)\<close>\<close>
  "own item k = (k \<in> set (keys (entries item)))"

definition distinct_values :: "string \<Rightarrow> jsval list \<Rightarrow> jsval list" where
  \<comment> \<open>\<open>valueMap[key]\<close> after the loop over the items\<close>
  "distinct_values key items =
     fold (\<lambda>item acc. if own item key \<and> is_str_or_num (js_opt item key) then set_add (js_opt item key) acc else acc) items []"

definition enum_schema :: "jsval list \<Rightarrow> nat \<Rightarrow> string \<Rightarrow> jsval \<Rightarrow> jsval" where
  "enum_schema items totalItems key sch =
     (let distinctValues = distinct_values key items; t = js_opt (asObjectSchema sch) ''type'' in
      if length distinctValues > 1 \<and> length distinctValues \<le> 10 \<and> 2 * length distinctValues < totalItems
         \<and> (t = JStr ''string'' \<or> t = JStr ''number'' \<or> t = JStr ''integer'')
      then JObj [(''type'', t), (''enum'', JArr (js_text_sort distinctValues))] else sch)"

text \<open>The loop over the items is moved into the loop over the keys: the sets of different keys do not interact.\<close>

definition detectEnumsInArrayItems :: "jsval obj \<Rightarrow> jsval list \<Rightarrow> nat \<Rightarrow> jsval obj" where
  "detectEnumsInArrayItems mergedProperties originalArray totalItems =
     (if totalItems < 10 \<or> mergedProperties = [] then mergedProperties
      else map (\<lambda>(key, sch). (key, enum_schema originalArray totalItems key sch)) mergedProperties)"

definition coordinates_re :: regex where
  \<comment> \<open>\<open>/coordinates?|coords?|latLon|lonLat|point/i\<close>\<close>
  "coordinates_re = re_alt
     [ReSeq (re_lit_i ''coordinate'') (re_opt (re_lit_i ''s'')), ReSeq (re_lit_i ''coord'') (re_opt (re_lit_i ''s'')),
      re_lit_i ''latLon'', re_lit_i ''lonLat'', re_lit_i ''point'']"

definition timestamp_re :: regex where
  \<comment> \<open>\<open>/timestamp|createdAt|updatedAt|occurredAt/i\<close>\<close>
  "timestamp_re = re_alt [re_lit_i ''timestamp'', re_lit_i ''createdAt'', re_lit_i ''updatedAt'', re_lit_i ''occurredAt'']"

definition is_number :: "jsval \<Rightarrow> bool" where
  "is_number v = (case v of JNum _ \<Rightarrow> True | _ \<Rightarrow> False)"

fun coord_loop :: "string \<Rightarrow> jsval list \<Rightarrow> nat option \<Rightarrow> nat option option" where
  \<comment> \<open>\<open>None\<close> when the array is not valid, otherwise the final \<open>coordLength\<close>\<close>
  "coord_loop key [] coordLength = Some coordLength"
| "coord_loop key (item # items) coordLength =
     (if own item key
      then case js_opt item key of
             JArr arr \<Rightarrow>
               (let n = (case coordLength of None \<Rightarrow> length arr | Some m \<Rightarrow> m) in
                if length arr \<noteq> n \<or> (length arr \<noteq> 2 \<and> length arr \<noteq> 3) \<or> \<not> list_all is_number arr
                then None else coord_loop key items (Some n))
           | _ \<Rightarrow> None
      else coord_loop key items coordLength)"

definition is_integer :: "jsnum \<Rightarrow> bool" where
  \<comment> \<open>\<open>Number.isInteger\<close>\<close>
  "is_integer n = (case n of Fin q \<Rightarrow> q = of_int \<lfloor>q\<rfloor> | _ \<Rightarrow> False)"

definition timestamp_like :: "rat \<Rightarrow> string \<Rightarrow> jsval list \<Rightarrow> bool" where
  "timestamp_like now key items =
     list_all (\<lambda>item. own item key \<longrightarrow>
       (case js_opt item key of JNum n \<Rightarrow> is_integer n \<and> \<not> n < Fin (now - 50 * 365 * 24 * 60 * 60 * 1000) | _ \<Rightarrow> False)) items"

definition semantic_schema :: "rat \<Rightarrow> jsval list \<Rightarrow> string \<Rightarrow> jsval \<Rightarrow> jsval" where
  "semantic_schema now items key sch =
     (let currentSchema = asObjectSchema sch; t = js_opt currentSchema ''type'';
          it = js_opt (asObjectSchema (js_opt currentSchema ''items'')) ''type'';
          s1 = (if re_test coordinates_re key \<and> t = JStr ''array'' \<and> (it = JStr ''number'' \<or> it = JStr ''integer'')
                then case coord_loop key items None of
                       Some (Some n) \<Rightarrow>
                         JObj [(''type'', JStr ''array''), (''items'', JObj [(''type'', JStr ''number'')]),
                               (''minItems'', JNum (Fin (of_nat n))), (''maxItems'', JNum (Fin (of_nat n)))]
                     | _ \<Rightarrow> sch
                else sch)
      in if re_test timestamp_re key \<and> t = JStr ''integer'' \<and> timestamp_like now key items
         then JObj [(''type'', JStr ''integer''), (''format'', JStr ''unix-timestamp''),
                    (''description'', JStr ''Unix timestamp (likely milliseconds)'')]
         else s1)"

definition detectSemanticFormatsInArrayItems :: "rat \<Rightarrow> jsval obj \<Rightarrow> jsval list \<Rightarrow> jsval obj" where
  "detectSemanticFormatsInArrayItems now mergedProperties originalArray =
     map (\<lambda>(key, sch). (key, semantic_schema now originalArray key sch)) mergedProperties"

definition merge_property :: "string \<times> jsval \<Rightarrow> jsval obj \<times> nat obj \<Rightarrow> jsval obj \<times> nat obj" where
  \<comment> \<open>one round of the inner loop: \<open>mergedProperties\<close> and \<open>propertyCounts\<close>\<close>
  "merge_property kv st =
     (let (key, val) = kv; (merged, counts) = st in
      ((case map_of merged key of
          Some old \<Rightarrow> obj_put key (mergeSchemas old val) merged
        | None \<Rightarrow> obj_put key val merged),
       obj_put key (Suc (case map_of counts key of None \<Rightarrow> 0 | Some n \<Rightarrow> n)) counts))"

definition merge_items :: "jsval list \<Rightarrow> jsval obj \<times> nat obj" where
  "merge_items itemSchemas =
     fold (\<lambda>sch. fold merge_property (props_of (js_opt (asObjectSchema sch) ''properties''))) itemSchemas ([], [])"

definition processArrayOfObjects :: "rat \<Rightarrow> jsval list \<Rightarrow> jsval list \<Rightarrow> jsval" where
  "processArrayOfObjects now itemSchemas originalArray =
     (let (merged, counts) = merge_items itemSchemas;
          totalItems = length itemSchemas;
          requiredProps = map fst (filter (\<lambda>kc. snd kc = totalItems) counts);
          m1 = detectEnumsInArrayItems merged originalArray totalItems;
          m2 = detectSemanticFormatsInArrayItems now m1 originalArray
      in object_schema m2 requiredProps)"

section \<open>Arrays\<close>

definition array_schema :: "jsval \<Rightarrow> jsval" where
  "array_schema items = JObj [(''type'', JStr ''array''), (''items'', items), (''minItems'', JNum (Fin 0))]"

definition inferArraySchema :: "rat \<Rightarrow> jsval list \<Rightarrow> jsval list \<Rightarrow> jsval" where
  \<comment> \<open>the last argument is \<open>itemSchemas\<close>\<close>
  "inferArraySchema now xs itemSchemas =
     (if xs = [] then JObj [(''type'', JStr ''array''), (''items'', JObj [])]
      else let ty = (\<lambda>s. js_opt (asObjectSchema s) ''type''); first = hd itemSchemas in
        if list_all (\<lambda>s. ty s = ty first) itemSchemas
        then if ty first = JStr ''object'' then array_schema (processArrayOfObjects now itemSchemas xs)
             else array_schema first
        else let uniqueSchemas = unique_by_json itemSchemas in
             array_schema (if length uniqueSchemas = 1 then hd uniqueSchemas else JObj [(''oneOf'', JArr uniqueSchemas)]))"

section \<open>Strings and numbers\<close>

definition date_re :: regex where
  \<comment> \<open>\<open>/^\d{4}-\d{2}-\d{2}$/\<close>\<close>
  "date_re = re_seq [re_times 4 re_digit, re_lit ''-'', re_times 2 re_digit, re_lit ''-'', re_times 2 re_digit]"

definition date_time_re :: regex where
  \<comment> \<open>\<open>/^\d{4}-\d{2}-\d{2}T\d{2}:\d{2}:\d{2}(?:\.\d+)?(?:Z|[+-]\d{2}:\d{2})?$/\<close>\<close>
  "date_time_re = re_seq
     [date_re, re_lit ''T'', re_times 2 re_digit, re_lit '':'', re_times 2 re_digit, re_lit '':'', re_times 2 re_digit,
      re_opt (ReSeq (re_lit ''.'') (re_plus re_digit)),
      re_opt (ReAlt (re_lit ''Z'')
        (re_seq [ReChar (\<lambda>c. c = CHR ''+'' \<or> c = CHR ''-''), re_times 2 re_digit, re_lit '':'', re_times 2 re_digit]))]"

definition email_re :: regex where
  \<comment> \<open>\<open>/^[^@]+@[^@]+\.[^@]+$/\<close>\<close>
  "email_re = (let n = re_plus (ReChar (\<lambda>c. c \<noteq> CHR ''@'')) in re_seq [n, re_lit ''@'', n, re_lit ''.'', n])"

definition is_hex_i :: "char \<Rightarrow> bool" where
  "is_hex_i c = (is_digit c \<or> CHR ''a'' \<le> lower_char c \<and> lower_char c \<le> CHR ''f'')"

definition uuid_re :: regex where
  \<comment> \<open>\<open>/^[0-9a-f]{8}-[0-9a-f]{4}-[0-9a-f]{4}-[0-9a-f]{4}-[0-9a-f]{12}$/i\<close>\<close>
  "uuid_re = (let h = ReChar is_hex_i in
     re_seq [re_times 8 h, re_lit ''-'', re_times 4 h, re_lit ''-'', re_times 4 h, re_lit ''-'', re_times 4 h, re_lit ''-'', re_times 12 h])"

definition uri_re :: regex where
  \<comment> \<open>a scheme of \<open>http\<close>, \<open>https\<close> or \<open>ftp\<close>, two slashes, a character that may begin a host,
     any character, and no white space up to the end; the letters in either case\<close>
  "uri_re = re_seq
     [ReAlt (ReSeq (re_lit_i ''http'') (re_opt (re_lit_i ''s''))) (re_lit_i ''ftp''), re_lit ''://'',
      ReChar (\<lambda>c. \<not> is_space c \<and> c \<notin> set ''/$.?#''), re_dot, ReStar re_nonspace]"

definition string_formats :: "(string \<times> regex) list" where
  "string_formats = [(''date'', date_re), (''date-time'', date_time_re), (''email'', email_re), (''uuid'', uuid_re), (''uri'', uri_re)]"

definition inferStringSchema :: "string \<Rightarrow> jsval" where
  "inferStringSchema str =
     (case find (\<lambda>(format, regex). re_match regex str) string_formats of
        Some (format, _) \<Rightarrow> JObj [(''type'', JStr ''string''), (''format'', JStr format)]
      | None \<Rightarrow> JObj [(''type'', JStr ''string'')])"

definition inferNumberSchema :: "jsnum \<Rightarrow> jsval" where
  "inferNumberSchema num = JObj [(''type'', JStr (if is_integer num then ''integer'' else ''number''))]"

section \<open>Values\<close>

fun inferSchema :: "rat \<Rightarrow> jsval \<Rightarrow> jsval" where
  "inferSchema now JNull = JObj [(''type'', JStr ''null'')]"
| "inferSchema now (JObj ob) = inferObjectSchema ob (map (\<lambda>(k, v). (k, inferSchema now v)) ob)"
| "inferSchema now (JArr xs) = inferArraySchema now xs (map (inferSchema now) xs)"
| "inferSchema now (JStr s) = inferStringSchema s"
| "inferSchema now (JNum n) = inferNumberSchema n"
| "inferSchema now (JBool b) = JObj [(''type'', JStr ''boolean'')]"
| "inferSchema now JUndef = JObj []"

definition schema_document :: "string \<Rightarrow> string \<Rightarrow> jsval obj \<Rightarrow> jsval" where
  "schema_document title description rest =
     JObj ([(''$schema'', JStr ''https://json-schema.org/draft-07/schema''), (''title'', JStr title),
            (''description'', JStr description)] @ rest)"

definition createSchemaFromJson :: "rat \<Rightarrow> jsval \<Rightarrow> jsval" where
  "createSchemaFromJson now jsonObject =
     (let rootSchema = asObjectSchema (inferSchema now jsonObject);
          get = js_opt rootSchema;
          doc = schema_document ''Generated Schema'' ''Generated from JSON data'';
          opt = (\<lambda>k. if get k \<noteq> JUndef then [(k, get k)] else [])
      in if get ''type'' = JStr ''object'' \<or> truthy (get ''properties'')
         then doc ([(''type'', JStr ''object''), (''properties'', get ''properties'')]
                   @ (if truthy (get ''required'') then [(''required'', get ''required'')] else []))
         else if get ''type'' = JStr ''array'' \<or> truthy (get ''items'')
         then doc ([(''type'', JStr ''array''), (''items'', get ''items'')] @ opt ''minItems'' @ opt ''maxItems'')
         else if truthy (get ''type'')
         then schema_document ''Generated Schema (Primitive Root)'' ''Input was a primitive value, wrapped in an object.''
                [(''type'', JStr ''object''), (''properties'', JObj [(''value'', rootSchema)]), (''required'', JArr [JStr ''value''])]
         else doc [(''type'', JStr ''object'')])"

end
