(* ===== verification/Schema_Soundness.thy ===== *)
theory Schema_Soundness
  imports Schema_Inference
begin

text \<open>
  What it means that a value satisfies a schema, for the keywords that inference produces, as the
  JSON Schema standard defines them (\<open>format\<close> asserts nothing, as the client configures its
  validator), and for which values the inferred schema is satisfied by the value it came from.
\<close>

section \<open>The meaning of a schema\<close>

fun type_ok :: "string \<Rightarrow> jsval \<Rightarrow> bool" where
  "type_ok t JNull = (t = ''null'')"
| "type_ok t (JBool _) = (t = ''boolean'')"
| "type_ok t (JStr _) = (t = ''string'')"
| "type_ok t (JArr _) = (t = ''array'')"
| "type_ok t (JObj _) = (t = ''object'')"
| "type_ok t (JNum n) = (t = ''number'' \<or> t = ''integer'' \<and> is_integer n)"
| "type_ok t JUndef = False"

definition keyword_ok :: "string \<Rightarrow> jsval \<Rightarrow> jsval \<Rightarrow> bool" where
  "keyword_ok k sub v =
     (if k = ''type'' then (case sub of JStr t \<Rightarrow> type_ok t v | _ \<Rightarrow> True)
      else if k = ''enum'' then (case sub of JArr vs \<Rightarrow> v \<in> set vs | _ \<Rightarrow> True)
      else if k = ''required'' then
        (case (sub, v) of (JArr rs, JObj ob) \<Rightarrow> \<forall>r\<in>set rs. case r of JStr n \<Rightarrow> n \<in> set (keys ob) | _ \<Rightarrow> True | _ \<Rightarrow> True)
      else if k = ''minItems'' then (case (sub, v) of (JNum n, JArr xs) \<Rightarrow> n \<le> Fin (of_nat (length xs)) | _ \<Rightarrow> True)
      else if k = ''maxItems'' then (case (sub, v) of (JNum n, JArr xs) \<Rightarrow> Fin (of_nat (length xs)) \<le> n | _ \<Rightarrow> True)
      else True)"

fun validates :: "jsval \<Rightarrow> jsval \<Rightarrow> bool" where
  "validates (JObj s) v = list_all (\<lambda>(k, sub).
     if k = ''properties'' then
       (case sub of
          JObj ps \<Rightarrow> (case v of JObj ob \<Rightarrow> list_all (\<lambda>(n, p). n \<in> set (keys ob) \<longrightarrow> validates p (obj_get ob n)) ps | _ \<Rightarrow> True)
        | _ \<Rightarrow> True)
     else if k = ''items'' then (case v of JArr xs \<Rightarrow> list_all (validates sub) xs | _ \<Rightarrow> True)
     else if k = ''oneOf'' then (case sub of JArr ss \<Rightarrow> length (filter (\<lambda>s'. validates s' v) ss) = 1 | _ \<Rightarrow> True)
     else keyword_ok k sub v) s"
| "validates (JBool b) v = b"
| "validates _ v = True"

section \<open>Values\<close>

fun is_json :: "jsval \<Rightarrow> bool" where
  "is_json JUndef = False"
| "is_json (JNum n) = (case n of Fin _ \<Rightarrow> True | _ \<Rightarrow> False)"
| "is_json (JArr xs) = list_all is_json xs"
| "is_json (JObj ob) = (distinct (keys ob) \<and> list_all (\<lambda>(k, v). is_json v) ob)"
| "is_json _ = True"

text \<open>In every array all items have the same inferred schema.\<close>

fun uniform :: "rat \<Rightarrow> jsval \<Rightarrow> bool" where
  "uniform now (JArr xs) =
     (list_all (uniform now) xs \<and> list_all (\<lambda>x. inferSchema now x = inferSchema now (hd xs)) xs)"
| "uniform now (JObj ob) = list_all (\<lambda>(k, v). uniform now v) ob"
| "uniform now _ = True"

fun type_name :: "jsval \<Rightarrow> string" where
  "type_name JNull = ''null''"
| "type_name (JBool _) = ''boolean''"
| "type_name (JStr _) = ''string''"
| "type_name (JArr _) = ''array''"
| "type_name (JObj _) = ''object''"
| "type_name (JNum n) = (if is_integer n then ''integer'' else ''number'')"
| "type_name JUndef = ''undefined''"

lemma infer_object: "\<exists>s. inferSchema now v = JObj s"
  by (cases v) (auto simp: inferObjectSchema_def object_schema_def inferArraySchema_def array_schema_def
      inferStringSchema_def inferNumberSchema_def Let_def split: option.splits prod.splits)

lemma infer_as_object [simp]: "asObjectSchema (inferSchema now v) = inferSchema now v"
  using infer_object [of now v] by (auto simp: asObjectSchema_def isObjectSchema_def isBooleanSchema_def)

lemma infer_type: "v \<noteq> JUndef \<Longrightarrow> js_opt (inferSchema now v) ''type'' = JStr (type_name v)"
  by (cases v) (auto simp: inferObjectSchema_def object_schema_def inferArraySchema_def array_schema_def
      inferStringSchema_def inferNumberSchema_def Let_def split: option.splits prod.splits)

lemma type_ok_name: "v \<noteq> JUndef \<Longrightarrow> type_ok (type_name v) v"
  by (cases v) auto

lemma set_obj_of_entries:
  assumes "distinct (keys es)"
  shows "set (obj_of_entries es) = set es" and "distinct (keys (obj_of_entries es))"
proof -
  show d: "distinct (keys (obj_of_entries es))"
    using distinct_keys_obj_assign [of "[]" es] by (simp add: obj_of_entries_def obj_assign_def)
  have "kv \<in> set (obj_of_entries es) \<longleftrightarrow> kv \<in> set es" for kv
    using map_of_eq_Some_iff [of "obj_of_entries es" "fst kv" "snd kv"] map_of_eq_Some_iff [of es "fst kv" "snd kv"]
      map_of_obj_of_entries [OF assms] d assms by (simp add: keys_def)
  then show "set (obj_of_entries es) = set es" by blast
qed

section \<open>Objects\<close>

lemma validates_object_schema:
  "validates (object_schema ps rs) v \<longleftrightarrow> (\<exists>ob. v = JObj ob
     \<and> (\<forall>(n, p)\<in>set ps. n \<in> set (keys ob) \<longrightarrow> validates p (obj_get ob n)) \<and> set rs \<subseteq> set (keys ob))"
  by (cases v) (auto simp: object_schema_def keyword_ok_def list_all_iff split: prod.splits)

definition entry_schemas :: "rat \<Rightarrow> jsval obj \<Rightarrow> jsval obj" where
  "entry_schemas now ob = obj_of_entries (map (\<lambda>(k, v). (k, inferSchema now v)) ob)"

lemma entry_schemas:
  assumes "distinct (keys ob)"
  shows "(n, p) \<in> set (entry_schemas now ob) \<longleftrightarrow> (\<exists>v. (n, v) \<in> set ob \<and> p = inferSchema now v)"
    and "distinct (keys (entry_schemas now ob))"
proof -
  have "keys (map (\<lambda>(k, v). (k, inferSchema now v)) ob) = keys ob" by (simp add: keys_def case_prod_unfold)
  then show "(n, p) \<in> set (entry_schemas now ob) \<longleftrightarrow> (\<exists>v. (n, v) \<in> set ob \<and> p = inferSchema now v)"
    "distinct (keys (entry_schemas now ob))"
    using assms set_obj_of_entries [of "map (\<lambda>(k, v). (k, inferSchema now v)) ob"]
    by (auto simp: entry_schemas_def)
qed

lemma infer_obj:
  "inferSchema now (JObj ob) = object_schema (entry_schemas now ob) (map fst (filter (\<lambda>kv. \<not> nullish (snd kv)) ob))"
  by (simp add: inferObjectSchema_def entry_schemas_def)

lemma obj_get_in: "distinct (keys ob) \<Longrightarrow> (k, v) \<in> set ob \<Longrightarrow> obj_get ob k = v"
  by (simp add: obj_get_def keys_def)

lemma object_sound:
  assumes "distinct (keys ob)" and "\<And>k v. (k, v) \<in> set ob \<Longrightarrow> validates (inferSchema now v) v"
  shows "validates (inferSchema now (JObj ob)) (JObj ob)"
proof -
  have "validates p (obj_get ob n)" if "(n, p) \<in> set (entry_schemas now ob)" for n p
    using that assms by (auto simp: entry_schemas(1) [OF assms(1)] obj_get_in)
  then show ?thesis unfolding infer_obj validates_object_schema by (auto simp: keys_def)
qed

section \<open>Arrays of objects with the same schema\<close>

lemma mergeSchemas_same: "mergeSchemas s s = s"
  by (simp add: mergeSchemas_def)

lemma merge_property_simp [simp]:
  "merge_property (key, v) (m, c) =
     (obj_put key (case map_of m key of None \<Rightarrow> v | Some old \<Rightarrow> mergeSchemas old v) m,
      obj_put key (Suc (case map_of c key of None \<Rightarrow> 0 | Some n \<Rightarrow> n)) c)"
  by (simp add: merge_property_def split: option.splits)

lemma merge_fold_props:
  "distinct (keys ps) \<Longrightarrow> map_of (fst (fold merge_property ps (m, c))) k =
     (case map_of ps k of None \<Rightarrow> map_of m k | Some v \<Rightarrow> Some (case map_of m k of None \<Rightarrow> v | Some old \<Rightarrow> mergeSchemas old v))"
proof (induction ps arbitrary: m c)
  case (Cons kv ps)
  obtain key v where kv: "kv = (key, v)" by (cases kv)
  have "map_of ps key = None" using Cons.prems kv by (simp add: map_of_None_keys)
  then show ?case using Cons kv by (cases "k = key") (simp_all split: option.splits)
qed simp

lemma merge_fold_counts:
  "distinct (keys ps) \<Longrightarrow> map_of (snd (fold merge_property ps (m, c))) k =
     (if k \<in> set (keys ps) then Some (Suc (case map_of c k of None \<Rightarrow> 0 | Some n \<Rightarrow> n)) else map_of c k)"
proof (induction ps arbitrary: m c)
  case (Cons kv ps)
  obtain key v where kv: "kv = (key, v)" by (cases kv)
  then show ?case using Cons by (cases "k = key") simp_all
qed simp

lemma merge_fold_distinct:
  "distinct (keys m) \<Longrightarrow> distinct (keys c) \<Longrightarrow>
     distinct (keys (fst (fold merge_property ps (m, c)))) \<and> distinct (keys (snd (fold merge_property ps (m, c))))"
  by (induction ps arbitrary: m c) (auto simp: distinct_keys_obj_put)

lemma merge_same:
  assumes "distinct (keys ps)" and "props_of (js_opt (asObjectSchema s) ''properties'') = ps"
  shows "map_of (fst (merge_items (replicate (Suc n) s))) = map_of ps
    \<and> map_of (snd (merge_items (replicate (Suc n) s))) = (\<lambda>k. if k \<in> set (keys ps) then Some (Suc n) else None)
    \<and> distinct (keys (fst (merge_items (replicate (Suc n) s)))) \<and> distinct (keys (snd (merge_items (replicate (Suc n) s))))"
proof (induction n)
  case 0
  have "merge_items (replicate (Suc 0) s) = fold merge_property ps ([], [])" by (simp add: merge_items_def assms(2))
  then show ?case
    using merge_fold_distinct [of "[]" "[]" ps]
    by (auto simp: merge_fold_props [OF assms(1)] merge_fold_counts [OF assms(1)] fun_eq_iff split: option.splits)
next
  case (Suc n)
  obtain m c where mc: "merge_items (replicate (Suc n) s) = (m, c)" by (cases "merge_items (replicate (Suc n) s)")
  have "replicate (Suc (Suc n)) s = replicate (Suc n) s @ [s]" by (simp only: replicate_append_same) simp
  then have st: "merge_items (replicate (Suc (Suc n)) s) = fold merge_property ps (m, c)"
    unfolding mc [symmetric] by (simp only: merge_items_def fold_append comp_apply fold.simps assms(2)) simp
  have ih: "map_of m = map_of ps" "map_of c = (\<lambda>k. if k \<in> set (keys ps) then Some (Suc n) else None)"
    "distinct (keys m)" "distinct (keys c)" using Suc.IH mc by simp_all
  show ?case unfolding st
    using merge_fold_distinct [OF ih(3,4), of ps]
    by (auto simp: merge_fold_props [OF assms(1)] merge_fold_counts [OF assms(1)] ih mergeSchemas_same fun_eq_iff
        split: option.splits)
qed

lemma fold_adds_mono: "(\<And>i acc. set acc \<subseteq> set (f i acc)) \<Longrightarrow> set acc \<subseteq> set (fold f xs acc)"
proof (induction xs arbitrary: acc)
  case (Cons i xs)
  then show ?case by (metis fold_simps(2) order_trans)
qed simp

lemma distinct_values_in:
  assumes "item \<in> set items" and "own item key" and "is_str_or_num (js_opt item key)"
  shows "js_opt item key \<in> set (distinct_values key items)"
proof -
  let ?f = "\<lambda>item acc. if own item key \<and> is_str_or_num (js_opt item key) then set_add (js_opt item key) acc else acc"
  have mono: "set acc \<subseteq> set (fold ?f xs acc)" for acc xs
    by (rule fold_adds_mono) auto
  obtain xs ys where "items = xs @ item # ys" using assms(1) by (auto dest: split_list)
  then have "distinct_values key items = fold ?f ys (set_add (js_opt item key) (fold ?f xs []))"
    using assms(2,3) by (simp add: distinct_values_def)
  then show ?thesis using mono [of "set_add (js_opt item key) (fold ?f xs [])" ys] by auto
qed

lemma coord_loop_items:
  "coord_loop key items n0 = Some (Some n) \<Longrightarrow> item \<in> set items \<Longrightarrow> own item key \<Longrightarrow>
     (\<exists>arr. js_opt item key = JArr arr \<and> length arr = n \<and> list_all is_number arr)"
  "coord_loop key items (Some m) = Some r \<Longrightarrow> r = Some m"
proof -
  have keep: "coord_loop key items (Some m) = Some r \<Longrightarrow> r = Some m" for items m r
    by (induction items) (auto simp: Let_def split: if_splits jsval.splits)
  show "coord_loop key items (Some m) = Some r \<Longrightarrow> r = Some m" by (rule keep)
  show "coord_loop key items n0 = Some (Some n) \<Longrightarrow> item \<in> set items \<Longrightarrow> own item key \<Longrightarrow>
     (\<exists>arr. js_opt item key = JArr arr \<and> length arr = n \<and> list_all is_number arr)"
  proof (induction items arbitrary: n0)
    case (Cons i xs)
    obtain n1 where rest: "coord_loop key xs n1 = Some (Some n)"
      and own: "own i key \<Longrightarrow> \<exists>arr. js_opt i key = JArr arr \<and> n1 = Some (length arr) \<and> list_all is_number arr"
      using Cons.prems(1) by (auto simp: Let_def split: if_splits jsval.splits)
    show ?case
    proof (cases "item \<in> set xs")
      case True
      then show ?thesis using Cons.IH [OF rest] Cons.prems(3) by simp
    next
      case False
      then obtain arr where "js_opt item key = JArr arr" "n1 = Some (length arr)" "list_all is_number arr"
        using own Cons.prems by auto
      then show ?thesis using keep [of xs "length arr" "Some n"] rest by simp
    qed
  qed simp
qed

lemma type_name_cases:
  assumes "v \<noteq> JUndef"
  shows "type_name v = ''string'' \<Longrightarrow> is_str_or_num v" "type_name v = ''number'' \<Longrightarrow> is_str_or_num v"
    "type_name v = ''integer'' \<Longrightarrow> is_str_or_num v" "type_name v = ''object'' \<Longrightarrow> \<exists>ob. v = JObj ob"
  using assms by (cases v; auto simp: is_str_or_num_def split: if_splits)+

lemma enum_sound:
  assumes "item \<in> set items" "own item key" and v: "js_opt item key \<noteq> JUndef"
    and ok: "validates (inferSchema now (js_opt item key)) (js_opt item key)"
  shows "validates (enum_schema items n key (inferSchema now (js_opt item key))) (js_opt item key)"
proof -
  have "js_opt item key \<in> set (distinct_values key items)"
    if "JStr (type_name (js_opt item key)) \<in> {JStr ''string'', JStr ''number'', JStr ''integer''}"
    using that assms(1,2) type_name_cases(1-3) [OF v] by (intro distinct_values_in) auto
  then show ?thesis
    using ok type_ok_name [OF v] by (auto simp: enum_schema_def infer_type [OF v] keyword_ok_def Let_def)
qed

lemma enum_type:
  "v \<noteq> JUndef \<Longrightarrow> js_opt (asObjectSchema (enum_schema items n key (inferSchema now v))) ''type'' = JStr (type_name v)"
  unfolding enum_schema_def Let_def infer_as_object
  by (simp add: infer_type) (simp add: asObjectSchema_def isObjectSchema_def isBooleanSchema_def)

lemma semantic_sound:
  assumes item: "item \<in> set items" "own item key" and v: "js_opt item key \<noteq> JUndef"
    and ty: "js_opt (asObjectSchema sch) ''type'' = JStr (type_name (js_opt item key))"
    and ok: "validates sch (js_opt item key)"
  shows "validates (semantic_schema now items key sch) (js_opt item key)"
proof (cases "re_test timestamp_re key \<and> type_name (js_opt item key) = ''integer'' \<and> timestamp_like now key items")
  case True
  then show ?thesis using type_ok_name [OF v] ty by (simp add: semantic_schema_def keyword_ok_def Let_def)
next
  case False
  have "validates (JObj [(''type'', JStr ''array''), (''items'', JObj [(''type'', JStr ''number'')]),
      (''minItems'', JNum (Fin (of_nat n))), (''maxItems'', JNum (Fin (of_nat n)))]) (js_opt item key)"
    if cl: "coord_loop key items None = Some (Some n)" for n
  proof -
    obtain arr where "js_opt item key = JArr arr" "length arr = n" "list_all is_number arr"
      using coord_loop_items(1) [OF cl item] by blast
    moreover have "type_ok ''number'' x" if "is_number x" for x using that by (cases x) (simp_all add: is_number_def)
    ultimately show ?thesis by (simp add: keyword_ok_def list_all_iff)
  qed
  with False ok ty show ?thesis
    by (auto simp: semantic_schema_def Let_def split: option.splits simp del: validates.simps)
qed

lemma final_properties:
  assumes "(k, sch) \<in> set (detectSemanticFormatsInArrayItems now (detectEnumsInArrayItems merged items n) items)"
  obtains p where "(k, p) \<in> set merged"
    and "sch = semantic_schema now items k p \<or> sch = semantic_schema now items k (enum_schema items n k p)"
  using assms by (auto simp: detectSemanticFormatsInArrayItems_def detectEnumsInArrayItems_def split: if_splits)

lemma objects_sound:
  assumes same: "\<forall>x\<in>set items. inferSchema now x = s" and items: "items \<noteq> []"
    and json: "\<forall>x\<in>set items. is_json x" and ok: "\<forall>x\<in>set items. validates s x"
    and ty: "js_opt s ''type'' = JStr ''object''" and x: "x \<in> set items"
  shows "validates (processArrayOfObjects now (map (inferSchema now) items) items) x"
proof -
  have obj: "\<exists>ob. y = JObj ob \<and> distinct (keys ob) \<and> s = inferSchema now (JObj ob)" if y: "y \<in> set items" for y
  proof -
    have j: "is_json y" and i: "inferSchema now y = s" using json same y by auto
    then have "y \<noteq> JUndef" by auto
    then show ?thesis using infer_type [of y now] ty i j type_name_cases(4) [of y] by auto
  qed
  obtain ob where ob: "x = JObj ob" "distinct (keys ob)" "s = inferSchema now (JObj ob)" using obj [OF x] by blast
  define ps where "ps = entry_schemas now ob"
  have d: "distinct (keys ps)" and ps: "props_of (js_opt (asObjectSchema s) ''properties'') = ps"
    using entry_schemas(2) [OF ob(2)] unfolding ob(3) infer_obj ps_def
    by (simp_all add: object_schema_def asObjectSchema_def isObjectSchema_def isBooleanSchema_def)
  obtain n where n: "length items = Suc n" using items by (cases items) auto
  have rep: "map (inferSchema now) items = replicate (Suc n) s"
    using same n by (metis length_map map_replicate_const nth_equalityI map_eq_conv)
  obtain merged counts where mc: "merge_items (replicate (Suc n) s) = (merged, counts)" by (cases "merge_items (replicate (Suc n) s)")
  note m = merge_same [OF d ps, of n, unfolded mc fst_conv snd_conv]
  have k: "set (keys ps) = set (keys ob)" using entry_schemas(1) [OF ob(2)] by (force simp: ps_def keys_def image_iff)
  have req: "set (map fst (filter (\<lambda>kc. snd kc = Suc n) counts)) \<subseteq> set (keys ob)"
    using m k by (auto simp: keys_def dest!: map_of_is_SomeI [rotated] split: if_splits)
  have props: "validates sch (obj_get ob key)"
    if sch: "(key, sch) \<in> set (detectSemanticFormatsInArrayItems now (detectEnumsInArrayItems merged items (Suc n)) items)" for key sch
  proof -
    obtain p where p: "(key, p) \<in> set merged"
      and sch': "sch = semantic_schema now items key p \<or> sch = semantic_schema now items key (enum_schema items (Suc n) key p)"
      using final_properties [OF sch] .
    have "map_of ps key = Some p" using p m by (metis keys_def map_of_eq_Some_iff)
    then have in_ps: "(key, p) \<in> set ps" by (rule map_of_SomeD)
    then obtain v where v: "(key, v) \<in> set ob" "p = inferSchema now v" using entry_schemas(1) [OF ob(2)] by (auto simp: ps_def)
    then have g: "js_opt x key = v" using ob(1) obj_get_in [OF ob(2)] by simp
    have "is_json (JObj ob)" using bspec [OF json x] ob(1) by simp
    then have jv: "v \<noteq> JUndef" using v(1) by (auto simp: list_all_iff)
    have key: "key \<in> set (keys ob)" using v(1) by (force simp: keys_def)
    then have own: "own x key" by (simp add: own_def ob(1))
    have vp: "validates p v"
      using bspec [OF ok x] in_ps key g unfolding ob(3) infer_obj validates_object_schema
      by (auto simp: ob(1) ps_def [symmetric])
    note h = x own jv [folded g]
    have e: "validates (enum_schema items (Suc n) key p) v"
      using enum_sound [OF h, of now "Suc n"] vp by (simp add: g v(2))
    show ?thesis
      using sch' semantic_sound [OF h, of p now] semantic_sound [OF h, of "enum_schema items (Suc n) key p" now] vp e
        infer_type [OF jv, of now] enum_type [OF jv, of items "Suc n" key now] g ob(1)
      by (auto simp: v(2) simp del: validates.simps)
  qed
  show ?thesis
    unfolding rep processArrayOfObjects_def mc Let_def prod.case validates_object_schema length_replicate
    using ob(1) props req by blast
qed

section \<open>Claims\<close>

lemma validates_array_schema:
  "validates (array_schema s) (JArr xs) = list_all (validates s) xs"
  by (simp add: array_schema_def keyword_ok_def)

lemma infer_sound:
  assumes "is_json v" and "uniform now v"
  shows "validates (inferSchema now v) v"
  using assms
proof (induction v)
  case (JArr xs)
  then have ok: "\<forall>x\<in>set xs. validates (inferSchema now x) x" by (auto simp: list_all_iff)
  show ?case
  proof (cases "xs = []")
    case False
    define s where "s = inferSchema now (hd xs)"
    have same: "\<forall>x\<in>set xs. inferSchema now x = s" using JArr.prems(2) by (auto simp: list_all_iff s_def)
    have hd: "hd (map (inferSchema now) xs) = s" using False by (simp add: hd_map s_def)
    have all: "list_all (\<lambda>s'. js_opt (asObjectSchema s') ''type'' = js_opt (asObjectSchema s) ''type'') (map (inferSchema now) xs)"
      using same by (auto simp: list_all_iff)
    have so: "asObjectSchema s = s" by (simp add: s_def)
    have json: "\<forall>x\<in>set xs. is_json x" using JArr.prems(1) by (auto simp: list_all_iff)
    have "list_all (validates (if js_opt s ''type'' = JStr ''object''
        then processArrayOfObjects now (map (inferSchema now) xs) xs else s)) xs"
      using objects_sound [OF same False json] ok same by (auto simp: list_all_iff)
    then show ?thesis
      using False all by (simp add: inferArraySchema_def hd so Let_def validates_array_schema del: validates.simps)
        (auto simp: validates_array_schema simp del: validates.simps)
  qed (simp add: inferArraySchema_def keyword_ok_def)
next
  case (JObj ob)
  have "validates (inferSchema now v) v" if kv: "(k, v) \<in> set ob" for k v
    using JObj.prems kv by (intro JObj.IH [OF kv]) (auto simp: list_all_iff)
  then show ?case using JObj.prems(1) by (intro object_sound) simp_all
qed (auto simp: inferStringSchema_def inferNumberSchema_def keyword_ok_def split: option.splits prod.splits)

lemma array_inferred:
  "\<exists>items rest. inferSchema now (JArr xs) = JObj ([(''type'', JStr ''array''), (''items'', items)] @ rest)
     \<and> rest \<in> {[], [(''minItems'', JNum (Fin 0))]}"
  by (auto simp: inferArraySchema_def array_schema_def Let_def)

lemma document_keywords [simp]:
  "validates (schema_document t d rest) v = validates (JObj rest) v"
  by (simp add: schema_document_def keyword_ok_def)

lemma document_sound:
  assumes ok: "validates (inferSchema now v) v" and v: "v \<noteq> JUndef"
  shows "validates (createSchemaFromJson now v) (case v of JObj _ \<Rightarrow> v | JArr _ \<Rightarrow> v | _ \<Rightarrow> JObj [(''value'', v)])"
proof -
  note doc = createSchemaFromJson_def Let_def infer_as_object
  have prim: "validates (createSchemaFromJson now v) (JObj [(''value'', v)])"
    if ty: "type_name v \<noteq> ''object''" "type_name v \<noteq> ''array''" "type_name v \<noteq> []"
      and no: "js_opt (inferSchema now v) ''properties'' = JUndef" "js_opt (inferSchema now v) ''items'' = JUndef"
    using ok ty no unfolding doc infer_type [OF v]
    by (simp add: keyword_ok_def del: inferSchema.simps)
  show ?thesis
  proof (cases v)
    case (JObj ob)
    have o: "js_opt (object_schema ps rs) ''type'' = JStr ''object''" "js_opt (object_schema ps rs) ''properties'' = JObj ps"
      "js_opt (object_schema ps rs) ''required'' = (if rs \<noteq> [] then JArr (map JStr (sort rs)) else JUndef)"
      "asObjectSchema (object_schema ps rs) = object_schema ps rs" for ps rs
      by (simp_all add: object_schema_def asObjectSchema_def isObjectSchema_def isBooleanSchema_def)
    show ?thesis
      using ok unfolding JObj infer_obj validates_object_schema doc o
      by (auto simp: keyword_ok_def list_all_iff split: prod.splits) (force simp: keys_def)
  next
    case (JArr xs)
    obtain items rest where "inferSchema now (JArr xs) = JObj ([(''type'', JStr ''array''), (''items'', items)] @ rest)"
      "rest \<in> {[], [(''minItems'', JNum (Fin 0))]}" using array_inferred [of now xs] by blast
    then show ?thesis using ok unfolding JArr doc by (auto simp: keyword_ok_def)
  qed (use v prim in \<open>auto simp: inferStringSchema_def inferNumberSchema_def simp del: validates.simps split: option.splits prod.splits\<close>)
qed

text \<open>
  C6: a value in whose arrays all items have the same inferred schema satisfies the schema that is
  inferred from it, whatever objects, arrays, formats, enumerations, coordinates and timestamps occur;
  and the generated document accepts it, under the name \<open>value\<close> when it is neither an object nor an array.
\<close>

theorem inferred_schema_sound:
  assumes "is_json v" and "uniform now v"
  shows "validates (inferSchema now v) v
     \<and> validates (createSchemaFromJson now v) (case v of JObj _ \<Rightarrow> v | JArr _ \<Rightarrow> v | _ \<Rightarrow> JObj [(''value'', v)])"
proof -
  have "v \<noteq> JUndef" using assms(1) by auto
  then show ?thesis using infer_sound [OF assms] document_sound [of now v] by blast
qed

definition json_example :: jsval where
  "json_example = JObj [(''name'', JStr ''x''), (''rows'', JArr [JObj [(''point'', JArr [JNum (Fin 1), JNum (Fin 2)])],
     JObj [(''point'', JArr [JNum (Fin 3), JNum (Fin 4)])]])]"

theorem inferred_schema_sound_witness:
  "is_json json_example \<and> uniform 0 json_example \<and> validates (inferSchema 0 json_example) json_example"
proof (intro conjI)
  show j: "is_json json_example" by code_simp
  show u: "uniform 0 json_example" by code_simp
  show "validates (inferSchema 0 json_example) json_example" using inferred_schema_sound [OF j u] by blast
qed

text \<open>
  An array with an integer and a fraction does not satisfy the schema inferred from it (the
  integer matches both alternatives of \<open>oneOf\<close>), and neither does an array of arrays whose items
  differ in type (only the first one is looked at).
\<close>

theorem inferred_schema_rejects:
  assumes "is_integer m" and "\<not> is_integer q"
  shows "\<not> validates (inferSchema now (JArr [JNum m, JNum q])) (JArr [JNum m, JNum q])
     \<and> \<not> validates (inferSchema now (JArr [JArr [JNum m], JArr [JStr t]])) (JArr [JArr [JNum m], JArr [JStr t]])"
proof
  have u: "unique_by_json [inferNumberSchema m, inferNumberSchema q] = [inferNumberSchema m, inferNumberSchema q]"
    using assms by (simp add: inferNumberSchema_def unique_by_json_def) code_simp
  have "inferSchema now (JArr [JNum m, JNum q]) = array_schema (JObj [(''oneOf'', JArr [inferNumberSchema m, inferNumberSchema q])])"
    using u assms by (simp add: inferArraySchema_def Let_def)
      (simp add: inferNumberSchema_def asObjectSchema_def isObjectSchema_def isBooleanSchema_def)
  then show "\<not> validates (inferSchema now (JArr [JNum m, JNum q])) (JArr [JNum m, JNum q])"
    using assms by (simp add: validates_array_schema del: validates.simps)
      (simp add: inferNumberSchema_def keyword_ok_def)
  have a: "inferSchema now (JArr [v]) = array_schema (inferSchema now v)" if "js_opt (inferSchema now v) ''type'' \<noteq> JStr ''object''" for v
    using that by (simp add: inferArraySchema_def Let_def)
  have ty: "js_opt (asObjectSchema (array_schema s)) ''type'' = JStr ''array''" for s
    by (simp add: array_schema_def asObjectSchema_def isObjectSchema_def isBooleanSchema_def)
  have "inferSchema now (JArr [JArr [JNum m], JArr [JStr t]]) = array_schema (array_schema (inferNumberSchema m))"
  proof -
    have e: "inferSchema now (JArr [JNum m]) = array_schema (inferNumberSchema m)"
      "inferSchema now (JArr [JStr t]) = array_schema (inferStringSchema t)"
      using a [of "JNum m"] a [of "JStr t"] infer_type [of "JNum m" now] infer_type [of "JStr t" now] assms(1) by simp_all
    have "inferSchema now (JArr [JArr [JNum m], JArr [JStr t]]) =
        inferArraySchema now [JArr [JNum m], JArr [JStr t]] [array_schema (inferNumberSchema m), array_schema (inferStringSchema t)]"
      unfolding e [symmetric] by (rule trans [OF inferSchema.simps(3)]) (simp only: list.map)
    then show ?thesis by (simp add: inferArraySchema_def Let_def ty)
  qed
  then show "\<not> validates (inferSchema now (JArr [JArr [JNum m], JArr [JStr t]])) (JArr [JArr [JNum m], JArr [JStr t]])"
    using assms(1) by (simp add: validates_array_schema inferNumberSchema_def keyword_ok_def)
qed

theorem inferred_schema_rejects_witness:
  "\<not> validates (inferSchema 0 (JArr [JNum (Fin 1), JNum (Fin (1/2))])) (JArr [JNum (Fin 1), JNum (Fin (1/2))])"
proof -
  have "is_integer (Fin 1)" "\<not> is_integer (Fin (1/2))" by code_simp+
  then show ?thesis using inferred_schema_rejects [of "Fin 1" "Fin (1/2)" 0] by simp
qed

end
