(* ===== verification/Schema_Validation.thy ===== *)
theory Schema_Validation
  imports Json_Schema
begin

text \<open>
  Checks of the constraints in a schema and the tree of their errors:
  \<open>components/jsonjoy-builder/types/validation.ts\<close>.

  The library \<open>zod\<close> is a parameter: the source describes an object type by the checks of its fields
  and by refinements on the whole object, and calls \<open>safeParse\<close>. What it relies on is that the
  result has no issue exactly when every check and every refinement holds (locale \<open>zod_api\<close>).
\<close>

section \<open>Ranges\<close>

text \<open>A comparison with \<open>undefined\<close>, and any arithmetic on it, involves \<open>NaN\<close> and is false.\<close>

definition js_lt :: "jsnum \<Rightarrow> jsnum \<Rightarrow> bool" where
  "js_lt a b = (a \<noteq> NaN \<and> b \<noteq> NaN \<and> a < b)"

definition num_or_nan :: "jsnum option \<Rightarrow> jsnum" where
  "num_or_nan n = (case n of None \<Rightarrow> NaN | Some x \<Rightarrow> x)"

definition refineRangeConsistency :: "jsnum option \<Rightarrow> bool \<Rightarrow> jsnum option \<Rightarrow> bool \<Rightarrow> bool" where
  "refineRangeConsistency mn isMinExclusive mx isMaxExclusive =
     (let diff = num_sub (num_or_nan mx) (num_or_nan mn) in
      if mn \<noteq> None \<and> mx \<noteq> None \<and> js_lt (num_or_nan mx) (num_or_nan mn) then False
      else if isMinExclusive \<and> isMaxExclusive \<and> js_lt diff (Fin 2) then False
      else if (isMinExclusive \<or> isMaxExclusive) \<and> js_lt diff (Fin 1) then False
      else True)"

section \<open>Descriptions of object types\<close>

datatype field_check =
    NumberField      \<comment> \<open>\<open>z.number().optional()\<close>\<close>
  | LengthField      \<comment> \<open>\<open>z.number().int().min(0).optional()\<close>\<close>
  | PositiveField    \<comment> \<open>\<open>z.number().positive().optional()\<close>\<close>
  | StringField
  | BooleanField
  | ArrayField       \<comment> \<open>\<open>z.array(z.unknown()).optional()\<close>\<close>

record zod_object =
  shape :: "field_check obj"
  refinements :: "((jsval obj \<Rightarrow> bool) \<times> string) list"   \<comment> \<open>the predicate, and the path of its issue\<close>

definition num_at :: "jsval obj \<Rightarrow> string \<Rightarrow> jsnum option" where
  "num_at s k = (case obj_get s k of JNum n \<Rightarrow> Some n | _ \<Rightarrow> None)"

definition range_refinement :: "string \<Rightarrow> string \<Rightarrow> jsval obj \<Rightarrow> bool" where
  "range_refinement lo hi s = refineRangeConsistency (num_at s lo) False (num_at s hi) False"

definition getJsonStringType :: zod_object where
  "getJsonStringType =
     \<lparr>shape = [(''minLength'', LengthField), (''maxLength'', LengthField), (''pattern'', StringField), (''format'', StringField),
               (''enum'', ArrayField), (''contentMediaType'', StringField), (''contentEncoding'', StringField)],
      refinements = [(range_refinement ''minLength'' ''maxLength'', ''length'')]\<rparr>"

definition minmax_refinement :: "jsval obj \<Rightarrow> bool" where
  "minmax_refinement s =
     (let minimum = num_at s ''minimum''; exclusiveMinimum = num_at s ''exclusiveMinimum'';
          maximum = num_at s ''maximum''; exclusiveMaximum = num_at s ''exclusiveMaximum''
      in refineRangeConsistency minimum False maximum False
         \<and> refineRangeConsistency minimum False exclusiveMaximum True
         \<and> refineRangeConsistency exclusiveMinimum True maximum False
         \<and> refineRangeConsistency exclusiveMinimum True exclusiveMaximum True)"

definition enum_in_range :: "jsval obj \<Rightarrow> bool" where
  "enum_in_range s =
     (case obj_get s ''enum'' of
        JArr enumValues \<Rightarrow>
          list_all (\<lambda>val. case val of
             JNum v \<Rightarrow>
               (case num_at s ''minimum'' of None \<Rightarrow> True | Some m \<Rightarrow> \<not> js_lt v m)
               \<and> (case num_at s ''maximum'' of None \<Rightarrow> True | Some m \<Rightarrow> \<not> js_lt m v)
               \<and> (case num_at s ''exclusiveMinimum'' of None \<Rightarrow> True | Some m \<Rightarrow> \<not> (js_lt v m \<or> num_eq v m))
               \<and> (case num_at s ''exclusiveMaximum'' of None \<Rightarrow> True | Some m \<Rightarrow> \<not> (js_lt m v \<or> num_eq v m))
           | _ \<Rightarrow> False) enumValues
      | _ \<Rightarrow> True)"

definition getJsonNumberType :: zod_object where
  "getJsonNumberType =
     \<lparr>shape = [(''multipleOf'', PositiveField), (''minimum'', NumberField), (''maximum'', NumberField),
               (''exclusiveMinimum'', NumberField), (''exclusiveMaximum'', NumberField), (''enum'', ArrayField)],
      refinements =
        [(minmax_refinement, ''minMax''),
         (\<lambda>s. obj_get s ''exclusiveMinimum'' = JUndef \<or> obj_get s ''minimum'' = JUndef, ''redundantMinimum''),
         (\<lambda>s. obj_get s ''exclusiveMaximum'' = JUndef \<or> obj_get s ''maximum'' = JUndef, ''redundantMaximum''),
         (enum_in_range, ''enum'')]\<rparr>"

definition getJsonArrayType :: zod_object where
  "getJsonArrayType =
     \<lparr>shape = [(''minItems'', LengthField), (''maxItems'', LengthField), (''uniqueItems'', BooleanField),
               (''minContains'', LengthField), (''maxContains'', LengthField)],
      refinements = [(range_refinement ''minItems'' ''maxItems'', ''minmax''),
                     (range_refinement ''minContains'' ''maxContains'', ''minmaxContains'')]\<rparr>"

definition getJsonObjectType :: zod_object where
  "getJsonObjectType =
     \<lparr>shape = [(''minProperties'', LengthField), (''maxProperties'', LengthField)],
      refinements = [(range_refinement ''minProperties'' ''maxProperties'', ''minmax'')]\<rparr>"

definition getTypeValidation :: "string option \<Rightarrow> zod_object option" where
  \<comment> \<open>\<open>None\<close> for \<open>z.any()\<close>\<close>
  "getTypeValidation type =
     (if type = Some ''string'' then Some getJsonStringType
      else if type = Some ''number'' then Some getJsonNumberType
      else if type = Some ''array'' then Some getJsonArrayType
      else if type = Some ''object'' then Some getJsonObjectType
      else None)"

type_synonym issue = "string list"   \<comment> \<open>the path of an issue\<close>

definition validateSchemaByType :: "(zod_object \<Rightarrow> jsval \<Rightarrow> issue list) \<Rightarrow> jsval \<Rightarrow> string option \<Rightarrow> issue list" where
  \<comment> \<open>the errors; the result is a success when there are none\<close>
  "validateSchemaByType safeParse schema type =
     (case getTypeValidation type of None \<Rightarrow> [] | Some z \<Rightarrow> safeParse z schema)"

section \<open>The tree\<close>

definition deriveType :: "jsval \<Rightarrow> string option" where
  "deriveType sch =
     (case sch of
        JObj s \<Rightarrow> (case obj_get s ''type'' of
                    JStr t \<Rightarrow> Some t
                  | JArr (JStr t # _) \<Rightarrow> Some t
                  | _ \<Rightarrow> None)
      | _ \<Rightarrow> None)"

definition indexed :: "string \<Rightarrow> string \<Rightarrow> jsval list \<Rightarrow> jsval obj" where
  "indexed pre post xs = map (\<lambda>(i, x). (pre @ nat_to_string i @ post, x)) (enumerate 0 xs)"

definition prefixed :: "string \<Rightarrow> jsval \<Rightarrow> jsval obj" where
  \<comment> \<open>the entries of a truthy object, under names with a prefix\<close>
  "prefixed pre v = (if truthy v then (case v of JObj _ \<Rightarrow> map (\<lambda>(n, x). (pre @ n, x)) (entries v)
                                       | JArr _ \<Rightarrow> map (\<lambda>(n, x). (pre @ n, x)) (entries v) | _ \<Rightarrow> []) else [])"

definition array_children :: "string \<Rightarrow> string \<Rightarrow> jsval \<Rightarrow> jsval obj" where
  "array_children pre post v = (case v of JArr xs \<Rightarrow> indexed pre post xs | _ \<Rightarrow> [])"

definition own_child :: "string \<Rightarrow> jsval \<Rightarrow> jsval obj" where
  "own_child name v = (if truthy v then [(name, v)] else [])"

text \<open>The assignments to \<open>children\<close>, in the order of the code.\<close>

definition subschemas :: "jsval obj \<Rightarrow> jsval obj" where
  "subschemas s =
     (let currentType = deriveType (JObj s); get = obj_get s in
      (if currentType = Some ''object'' then prefixed [] (get ''properties'') @ prefixed ''pattern:'' (get ''patternProperties'') else [])
      @ (if currentType = Some ''array''
         then (if is_array (get ''items'') then array_children ''items['' '']'' (get ''items'') else own_child ''items'' (get ''items''))
              @ array_children ''prefixItems['' '']'' (get ''prefixItems'')
         else [])
      @ array_children ''allOf:'' [] (get ''allOf'') @ array_children ''anyOf:'' [] (get ''anyOf'') @ array_children ''oneOf:'' [] (get ''oneOf'')
      @ own_child ''not'' (get ''not'')
      @ prefixed ''$defs:'' (get ''$defs'') @ prefixed ''definitions:'' (get ''definitions''))"

datatype validation_node =
  VNode (node_name: "string option") (node_errors: "issue list") (node_children: "validation_node obj") (cumulativeChildrenErrors: nat)

lemma indexed_size: "(n, x) \<in> set (indexed pre post xs) \<Longrightarrow> size x < size (JArr xs)"
  using size_list_estimation' [of x xs "size x" size]
  by (auto simp: indexed_def in_set_enumerate_eq dest: nth_mem)

lemma prefixed_size:
  assumes "(n, x) \<in> set (prefixed pre v)"
  shows "size x < size v"
proof -
  obtain m where "(m, x) \<in> set (entries v)" "case v of JObj _ \<Rightarrow> True | JArr _ \<Rightarrow> True | _ \<Rightarrow> False"
    using assms unfolding prefixed_def by (cases v) (auto split: if_splits simp del: entries.simps)
  then show ?thesis by (rule entries_size)
qed

lemma sub_size: "x = obj_get s k \<or> size x < size (obj_get s k) \<Longrightarrow> obj_get s k \<noteq> JUndef \<Longrightarrow> size x < size (JObj s)"
  using obj_get_size [of s k] by auto

lemma prefixed_undef [simp]: "prefixed pre JUndef = []"
  by (simp add: prefixed_def)

lemma subschemas_size:
  assumes "(n, x) \<in> set (subschemas s)"
  shows "size x < size (JObj s)"
proof -
  have pre: "size x < size (JObj s)" if "(n, x) \<in> set (prefixed pre (obj_get s k))" for pre k
    using that prefixed_size [OF that] by (intro sub_size [of x s k]) auto
  have ix: "size x < size (JObj s)" if ac: "(n, x) \<in> set (array_children pre post (obj_get s k))" for pre post k
  proof -
    obtain xs where xs: "obj_get s k = JArr xs" "(n, x) \<in> set (indexed pre post xs)"
      using ac unfolding array_children_def by (cases "obj_get s k") simp_all
    then show ?thesis using indexed_size [OF xs(2)] by (intro sub_size [of x s k]) simp_all
  qed
  have own: "size x < size (JObj s)" if "(n, x) \<in> set (own_child m (obj_get s k))" for m k
    using that by (intro sub_size [of x s k]) (auto simp: own_child_def split: if_splits)
  show ?thesis
    using assms unfolding subschemas_def Let_def set_append Un_iff
    by (elim disjE) (auto split: if_splits intro: pre ix own simp del: jsval.size)
qed

text \<open>
  A schema that is \<open>null\<close> or \<open>undefined\<close> makes the property reads throw; other values that are not
  objects have no properties.
\<close>

function buildValidationTree :: "(zod_object \<Rightarrow> jsval \<Rightarrow> issue list) \<Rightarrow> jsval \<Rightarrow> validation_node res" where
  "buildValidationTree safeParse (JBool b) =
     Inr (let errors = (if b then [] else [[]])
          in VNode (Some (if b then ''true'' else ''false'')) errors [] (length errors))"
| "buildValidationTree safeParse JNull = Inl TypeError"
| "buildValidationTree safeParse JUndef = Inl TypeError"
| "buildValidationTree safeParse (JNum x) = Inr (VNode None [] [] 0)"
| "buildValidationTree safeParse (JStr x) = Inr (VNode None [] [] 0)"
| "buildValidationTree safeParse (JArr x) = Inr (VNode None [] [] 0)"
| "buildValidationTree safeParse (JObj s) =
     (let currentType = deriveType (JObj s);
          errors = validateSchemaByType safeParse (JObj s) currentType
      in bind_r (map_r (\<lambda>nx. bind_r (buildValidationTree safeParse (snd nx)) (\<lambda>t. Inr (fst nx, t))) (subschemas s)) (\<lambda>assigned.
         let children = obj_of_entries assigned
         in Inr (VNode currentType errors children
                   (length errors + sum_list (map (\<lambda>c. cumulativeChildrenErrors (snd c)) children)))))"
  by pat_completeness auto

termination
proof (relation "measure (\<lambda>(z, v). size v)")
  show "wf (measure (\<lambda>(z :: zod_object \<Rightarrow> jsval \<Rightarrow> issue list, v). size v))" by simp
  fix safeParse :: "zod_object \<Rightarrow> jsval \<Rightarrow> issue list" and s and ct :: "string option" and e :: "issue list" and z :: "string \<times> jsval"
  assume "z \<in> set (subschemas s)"
  then have "size (snd z) < size (JObj s)" using subschemas_size [of "fst z" "snd z" s] by simp
  then show "((safeParse, snd z), (safeParse, JObj s)) \<in> measure (\<lambda>(z, v). size v)" by simp
qed

section \<open>What the code relies on\<close>

definition check_ok :: "field_check \<Rightarrow> jsval \<Rightarrow> bool" where
  \<comment> \<open>every check is optional\<close>
  "check_ok c v =
     (v = JUndef \<or>
      (case c of
         NumberField \<Rightarrow> (case v of JNum (Fin _) \<Rightarrow> True | _ \<Rightarrow> False)
       | LengthField \<Rightarrow> (case v of JNum (Fin q) \<Rightarrow> q = of_int \<lfloor>q\<rfloor> \<and> 0 \<le> q | _ \<Rightarrow> False)
       | PositiveField \<Rightarrow> (case v of JNum (Fin q) \<Rightarrow> 0 < q | _ \<Rightarrow> False)
       | StringField \<Rightarrow> (case v of JStr _ \<Rightarrow> True | _ \<Rightarrow> False)
       | BooleanField \<Rightarrow> (case v of JBool _ \<Rightarrow> True | _ \<Rightarrow> False)
       | ArrayField \<Rightarrow> is_array v))"

definition zod_accepts :: "zod_object \<Rightarrow> jsval obj \<Rightarrow> bool" where
  "zod_accepts z s = (list_all (\<lambda>(k, c). check_ok c (obj_get s k)) (shape z) \<and> list_all (\<lambda>(p, _). p s) (refinements z))"

definition finite_numbers :: "jsval obj \<Rightarrow> bool" where
  \<comment> \<open>as in every schema that was read from JSON text\<close>
  "finite_numbers s = list_all (\<lambda>(k, v). case v of JNum n \<Rightarrow> (case n of Fin _ \<Rightarrow> True | _ \<Rightarrow> False) | _ \<Rightarrow> True) s"

locale zod_api =
  fixes safeParse :: "zod_object \<Rightarrow> jsval \<Rightarrow> issue list"
  assumes no_issue: "finite_numbers s \<Longrightarrow> safeParse z (JObj s) = [] \<longleftrightarrow> zod_accepts z s"
begin

lemma valid_iff:
  "finite_numbers s \<Longrightarrow> validateSchemaByType safeParse (JObj s) type = [] \<longleftrightarrow>
     (case getTypeValidation type of None \<Rightarrow> True | Some z \<Rightarrow> zod_accepts z s)"
  by (simp add: validateSchemaByType_def no_issue split: option.splits)

lemma valid_range:
  assumes f: "finite_numbers s" and "validateSchemaByType safeParse (JObj s) type = []" and "getTypeValidation type = Some z"
    and "(range_refinement lo hi, path) \<in> set (refinements z)" and "num_at s lo = Some (Fin a)" and "num_at s hi = Some (Fin b)"
  shows "a \<le> b"
proof -
  have "range_refinement lo hi s"
    using assms(2-4) unfolding valid_iff [OF f] zod_accepts_def by (auto simp: list_all_iff)
  then show ?thesis
    using assms(5,6) by (auto simp: range_refinement_def refineRangeConsistency_def num_or_nan_def js_lt_def Let_def split: if_splits)
qed

end

definition ref_safeParse :: "zod_object \<Rightarrow> jsval \<Rightarrow> issue list" where
  \<comment> \<open>one issue for every check and every refinement that fails\<close>
  "ref_safeParse z v =
     (case v of
        JObj s \<Rightarrow> map (\<lambda>(k, c). [k]) (filter (\<lambda>(k, c). \<not> check_ok c (obj_get s k)) (shape z))
                 @ map (\<lambda>(p, path). [path]) (filter (\<lambda>(p, path). \<not> p s) (refinements z))
      | _ \<Rightarrow> [[]])"

interpretation ref_zod: zod_api ref_safeParse
  by unfold_locales (auto simp: ref_safeParse_def zod_accepts_def list_all_iff filter_empty_conv)

section \<open>Claims\<close>

definition in_bounds :: "jsval obj \<Rightarrow> rat \<Rightarrow> bool" where
  "in_bounds s x =
     ((case num_at s ''minimum'' of Some m \<Rightarrow> m \<le> Fin x | None \<Rightarrow> True)
      \<and> (case num_at s ''maximum'' of Some m \<Rightarrow> Fin x \<le> m | None \<Rightarrow> True)
      \<and> (case num_at s ''exclusiveMinimum'' of Some m \<Rightarrow> m < Fin x | None \<Rightarrow> True)
      \<and> (case num_at s ''exclusiveMaximum'' of Some m \<Rightarrow> Fin x < m | None \<Rightarrow> True))"

lemma num_at_number:
  assumes "check_ok NumberField (obj_get s k)"
  obtains q where "num_at s k = map_option Fin q" and "obj_get s k = JUndef \<longleftrightarrow> q = None"
proof (cases "obj_get s k")
  case JUndef
  then show ?thesis using that [of None] by (simp add: num_at_def)
next
  case (JNum n)
  then obtain r where "n = Fin r" using assms by (cases n) (simp_all add: check_ok_def)
  then show ?thesis using that [of "Some r"] JNum by (simp add: num_at_def)
qed (use assms in \<open>simp_all add: check_ok_def\<close>)

lemma num_sub_nan [simp]: "num_sub NaN x = NaN" "num_sub x NaN = NaN"
  by (simp_all add: num_sub_def) (cases x; simp)

lemma num_sub_Fin [simp]: "num_sub (Fin b) (Fin a) = Fin (b - a)"
  by (simp add: num_sub_def)

lemma js_lt_simps [simp]: "\<not> js_lt NaN x" "\<not> js_lt x NaN" "js_lt (Fin a) (Fin b) = (a < b)"
  by (simp_all add: js_lt_def)

lemma refine_range:
  "refineRangeConsistency (Some (Fin a)) x (Some (Fin b)) y \<longleftrightarrow> a \<le> b \<and> (x \<and> y \<longrightarrow> 2 \<le> b - a) \<and> (x \<or> y \<longrightarrow> 1 \<le> b - a)"
  by (auto simp: refineRangeConsistency_def num_or_nan_def Let_def)

lemma refine_open_range [simp]: "refineRangeConsistency None x m y" "refineRangeConsistency m x None y"
  by (simp_all add: refineRangeConsistency_def num_or_nan_def Let_def)



text \<open>
  The checks refuse some number schemas that can be satisfied (two exclusive bounds less than two
  apart), and there are none at all for integers, not even for an empty range.
\<close>

theorem number_checks_incomplete:
  assumes "zod_api safeParse" and "a < b" and "b - a < 2"
  shows "validateSchemaByType safeParse (JObj [(''exclusiveMinimum'', JNum (Fin a)), (''exclusiveMaximum'', JNum (Fin b))]) (Some ''number'') \<noteq> []
     \<and> in_bounds [(''exclusiveMinimum'', JNum (Fin a)), (''exclusiveMaximum'', JNum (Fin b))] ((a + b) / 2)
     \<and> validateSchemaByType safeParse v (Some ''integer'') = []"
proof (intro conjI)
  let ?s = "[(''exclusiveMinimum'', JNum (Fin a)), (''exclusiveMaximum'', JNum (Fin b))]"
  have f: "finite_numbers ?s" by (simp add: finite_numbers_def)
  have "\<not> minmax_refinement ?s" using assms(3) by (simp add: minmax_refinement_def num_at_def refine_range)
  then show "validateSchemaByType safeParse (JObj ?s) (Some ''number'') \<noteq> []"
    unfolding zod_api.valid_iff [OF assms(1) f] by (simp add: getTypeValidation_def zod_accepts_def getJsonNumberType_def)
  show "in_bounds ?s ((a + b) / 2)" using assms(2) by (simp add: in_bounds_def num_at_def field_simps)
  show "validateSchemaByType safeParse v (Some ''integer'') = []" by (simp add: validateSchemaByType_def getTypeValidation_def)
qed

fun total_errors :: "validation_node \<Rightarrow> nat" where
  "total_errors (VNode name errors children n) = length errors + sum_list (map (\<lambda>c. total_errors (snd c)) children)"

fun tree_nodes :: "validation_node \<Rightarrow> validation_node list" where
  "tree_nodes (VNode name errors children n) = VNode name errors children n # concat (map (\<lambda>c. tree_nodes (snd c)) children)"

fun well_counted :: "validation_node \<Rightarrow> bool" where
  "well_counted (VNode name errors children n) =
     (n = length errors + sum_list (map (\<lambda>c. cumulativeChildrenErrors (snd c)) children) \<and> (\<forall>c\<in>set children. well_counted (snd c)))"

lemma set_obj_of_entries_subset: "set (obj_of_entries es) \<subseteq> set es"
  using set_fold_put [of es "[]"] by (simp add: obj_of_entries_def)

lemma tree_well_counted: "buildValidationTree z v = Inr t \<Longrightarrow> well_counted t"
proof (induction z v arbitrary: t rule: buildValidationTree.induct)
  case (7 safeParse s)
  let ?f = "\<lambda>nx. bind_r (buildValidationTree safeParse (snd nx)) (\<lambda>t. Inr (fst nx, t))"
  obtain assigned where a: "map_r ?f (subschemas s) = Inr assigned"
    and t: "t = VNode (deriveType (JObj s)) (validateSchemaByType safeParse (JObj s) (deriveType (JObj s))) (obj_of_entries assigned)
      (length (validateSchemaByType safeParse (JObj s) (deriveType (JObj s))) + sum_list (map (\<lambda>c. cumulativeChildrenErrors (snd c)) (obj_of_entries assigned)))"
    using 7 (2) by (auto simp: Let_def)
  have "well_counted (snd c)" if c: "c \<in> set assigned" for c
  proof -
    obtain i where i: "i < length assigned" "c = assigned ! i" using c by (auto simp: in_set_conv_nth)
    then have l: "i < length (subschemas s)" using map_r_length [OF a] by simp
    have "?f (subschemas s ! i) = Inr c" using map_r_nth [OF a l] i by simp
    then obtain t' where "buildValidationTree safeParse (snd (subschemas s ! i)) = Inr t'" "c = (fst (subschemas s ! i), t')"
      by auto
    then show ?thesis using 7 (1) [OF refl refl nth_mem [OF l]] by simp
  qed
  then show ?case using set_obj_of_entries_subset [of assigned] by (auto simp: t)
qed auto

lemma well_counted_total: "well_counted t \<Longrightarrow> cumulativeChildrenErrors t = total_errors t"
proof (induction t)
  case (VNode name errors children n)
  have "cumulativeChildrenErrors (snd c) = total_errors (snd c)" if c: "c \<in> set children" for c
    using VNode c by (cases c) auto
  then have "map (\<lambda>c. cumulativeChildrenErrors (snd c)) children = map (\<lambda>c. total_errors (snd c)) children" by simp
  then show ?case using VNode.prems by (simp only: well_counted.simps total_errors.simps validation_node.sel)
qed

lemma total_zero: "total_errors t = 0 \<longleftrightarrow> (\<forall>u\<in>set (tree_nodes t). node_errors u = [])"
proof (induction t)
  case (VNode name errors children n)
  have "total_errors (snd c) = 0 \<longleftrightarrow> (\<forall>u\<in>set (tree_nodes (snd c)). node_errors u = [])" if c: "c \<in> set children" for c
    using VNode c by (cases c) auto
  then show ?case by (auto simp: sum_list_eq_0_iff)
qed

text \<open>
  The number on a node of the validation tree is the number of errors in the node and in all nodes
  below it, so it is zero exactly when none of them has an error.
\<close>

theorem validation_tree_counts:
  assumes "buildValidationTree safeParse schema = Inr t"
  shows "cumulativeChildrenErrors t = total_errors t
     \<and> (cumulativeChildrenErrors t = 0 \<longleftrightarrow> (\<forall>u\<in>set (tree_nodes t). node_errors u = []))"
  using well_counted_total [OF tree_well_counted [OF assms]] total_zero [of t] by simp

definition tree_example :: jsval where
  "tree_example = JObj [(''type'', JStr ''object''), (''properties'', JObj [(''a'', JObj [(''type'', JStr ''string''),
     (''minLength'', JNum (Fin 3)), (''maxLength'', JNum (Fin 1))]), (''b'', JBool True)])]"

theorem validation_tree_counts_witness:
  "\<exists>t. buildValidationTree ref_safeParse tree_example = Inr t \<and> cumulativeChildrenErrors t = 1 \<and> total_errors t = 1"
proof -
  obtain t where t: "buildValidationTree ref_safeParse tree_example = Inr t"
    "map_sum id cumulativeChildrenErrors (buildValidationTree ref_safeParse tree_example) = Inr 1"
  proof -
    have "map_sum id cumulativeChildrenErrors (buildValidationTree ref_safeParse tree_example) = Inr 1" by code_simp
    then show ?thesis using that by (cases "buildValidationTree ref_safeParse tree_example") auto
  qed
  then show ?thesis using validation_tree_counts [OF t(1)] by simp
qed

text \<open>
  The children of a node are kept by name, and the name \<open>not\<close> is used both for a property that is
  called so and for the keyword: the node of the property is overwritten and its errors are lost.
\<close>

theorem property_named_not_is_lost:
  "map_sum id cumulativeChildrenErrors (buildValidationTree safeParse
     (JObj [(''type'', JStr ''object''), (''properties'', JObj [(''not'', JBool False)]), (''not'', JBool True)])) =
   Inr (length (validateSchemaByType safeParse
     (JObj [(''type'', JStr ''object''), (''properties'', JObj [(''not'', JBool False)]), (''not'', JBool True)]) (Some ''object'')))"
proof -
  have "subschemas [(''type'', JStr ''object''), (''properties'', JObj [(''not'', JBool False)]), (''not'', JBool True)] =
      [(''not'', JBool False), (''not'', JBool True)]"
    by code_simp
  moreover have "obj_of_entries [(''not'', x), (''not'', y)] = [(''not'', y)]" for x y :: validation_node
    by (simp add: obj_of_entries_def obj_put_def)
  ultimately show ?thesis by (simp add: Let_def deriveType_def)
qed

end
