(* ===== verification/History.thy ===== *)
theory History
  imports Js_Json
begin

text \<open>
  Undo and redo of the agent canvas: \<open>pages/agent/use-agent-history-manager.ts\<close>, the class
  \<open>HistoryManager\<close>, the effect that saves the state of the store and the keyboard shortcuts.

  A snapshot is the object with the nodes and edges; the copies that the class makes with
  \<open>JSON.parse(JSON.stringify(x))\<close> are \<open>json_clone\<close>.
\<close>

section \<open>Copies\<close>

fun json_clone :: "jsval \<Rightarrow> jsval" where
  "json_clone JUndef = JNull"   \<comment> \<open>inside an array\<close>
| "json_clone (JNum n) = (case n of Fin _ \<Rightarrow> JNum n | _ \<Rightarrow> JNull)"
| "json_clone (JArr xs) = JArr (map json_clone xs)"
| "json_clone (JObj ob) = JObj (concat (map (\<lambda>(k, v). if v = JUndef then [] else [(k, json_clone v)]) ob))"
| "json_clone v = v"

lemma stringify_None: "js_stringify v = None \<longleftrightarrow> v = JUndef"
  by (cases v) simp_all

lemma clone_defined [simp]: "json_clone v \<noteq> JUndef"
  by (cases v) (simp_all split: jsnum.splits)

lemma stringify_clone: "v \<noteq> JUndef \<Longrightarrow> js_stringify (json_clone v) = js_stringify v"
proof (induction v)
  case (JNum n)
  then show ?case by (cases n) simp_all
next
  case (JArr xs)
  have "(case js_stringify (json_clone x) of None \<Rightarrow> ''null'' | Some t \<Rightarrow> t) = (case js_stringify x of None \<Rightarrow> ''null'' | Some t \<Rightarrow> t)"
    if x: "x \<in> set xs" for x
    using JArr.IH [OF x] by (cases "x = JUndef") simp_all
  then show ?case by (simp add: comp_def cong: map_cong)
next
  case (JObj ob)
  let ?p = "\<lambda>(k, x). case js_stringify x of None \<Rightarrow> [] | Some t \<Rightarrow> [quote_string k @ '':'' @ t]"
  have c: "concat (map ?p (if v = JUndef then [] else [(k, json_clone v)])) = ?p (k, v)" if kv: "(k, v) \<in> set ob" for k v
    using JObj.IH [OF kv] by (cases "v = JUndef") simp_all
  have "concat (map ?p (concat (map (\<lambda>(k, v). if v = JUndef then [] else [(k, json_clone v)]) ob))) = concat (map ?p ob)"
    using c
  proof (induction ob)
    case (Cons kv ob)
    obtain k v where kv: "kv = (k, v)" by (cases kv)
    have "concat (map ?p (if v = JUndef then [] else [(k, json_clone v)])) = ?p (k, v)" using Cons.prems kv by simp
    then show ?case using Cons kv by simp
  qed simp
  then show ?case by simp
qed simp_all

section \<open>The class\<close>

record history_manager =
  history :: "jsval list"
  currentIndex :: int
  lastSavedState :: "string option"

definition maxSize :: nat where
  "maxSize = 50"

definition new_history :: history_manager where
  "new_history = \<lparr>history = [], currentIndex = -1, lastSavedState = Some []\<rparr>"

definition snapshot :: "jsval list \<Rightarrow> jsval list \<Rightarrow> jsval" where
  "snapshot nodes edges = JObj [(''nodes'', json_clone (JArr nodes)), (''edges'', json_clone (JArr edges))]"

definition statesEqual :: "jsval \<Rightarrow> jsval \<Rightarrow> bool" where
  "statesEqual state1 state2 = (js_stringify state1 = js_stringify state2)"

definition history_push :: "jsval list \<Rightarrow> jsval list \<Rightarrow> history_manager \<Rightarrow> history_manager" where
  "history_push nodes edges h =
     (let currentState = snapshot nodes edges in
      if history h \<noteq> [] \<and> statesEqual currentState (history h ! nat (currentIndex h)) then h
      else
        let kept = (if currentIndex h < int (length (history h)) - 1 then take (nat (currentIndex h + 1)) (history h) else history h);
            pushed = kept @ [currentState];
            limited = (if length pushed > maxSize then tl pushed else pushed)
        in \<lparr>history = limited, currentIndex = int (length limited) - 1, lastSavedState = js_stringify currentState\<rparr>)"

definition canUndo :: "history_manager \<Rightarrow> bool" where
  "canUndo h = (currentIndex h > 0)"

definition canRedo :: "history_manager \<Rightarrow> bool" where
  "canRedo h = (currentIndex h < int (length (history h)) - 1)"

definition restored :: "jsval \<Rightarrow> jsval list \<times> jsval list" where
  \<comment> \<open>the arguments of \<open>setNodes\<close> and \<open>setEdges\<close>\<close>
  "restored state = (let get = (\<lambda>k. case json_clone (js_opt state k) of JArr xs \<Rightarrow> xs | _ \<Rightarrow> []) in (get ''nodes'', get ''edges''))"

definition undo :: "history_manager \<Rightarrow> history_manager \<times> (jsval list \<times> jsval list) option" where
  "undo h =
     (if canUndo h
      then let i = currentIndex h - 1 in (h\<lparr>currentIndex := i\<rparr>, Some (restored (history h ! nat i)))
      else (h, None))"

definition redo :: "history_manager \<Rightarrow> history_manager \<times> (jsval list \<times> jsval list) option" where
  "redo h =
     (if canRedo h
      then let i = currentIndex h + 1 in (h\<lparr>currentIndex := i\<rparr>, Some (restored (history h ! nat i)))
      else (h, None))"

definition reset_history :: "history_manager \<Rightarrow> history_manager" where
  "reset_history h = \<lparr>history = [], currentIndex = -1, lastSavedState = Some []\<rparr>"

section \<open>The hook\<close>

text \<open>
  The canvas and its history. A change of the store is followed by the effect, which saves it; the
  two setters that undo and redo call are batched, so the effect sees both.
\<close>

record canvas_history =
  cnodes :: "jsval list"
  cedges :: "jsval list"
  manager :: history_manager

definition save_effect :: "canvas_history \<Rightarrow> canvas_history" where
  "save_effect c = c\<lparr>manager := history_push (cnodes c) (cedges c) (manager c)\<rparr>"

definition apply_restored :: "history_manager \<times> (jsval list \<times> jsval list) option \<Rightarrow> canvas_history \<Rightarrow> canvas_history" where
  "apply_restored r c =
     (case snd r of
        None \<Rightarrow> c\<lparr>manager := fst r\<rparr>
      | Some (ns, es) \<Rightarrow> save_effect (c\<lparr>cnodes := ns, cedges := es, manager := fst r\<rparr>))"

record key_event =
  ctrlKey :: bool
  metaKey :: bool
  shiftKey :: bool
  key :: string

definition handleKeyDown :: "bool \<Rightarrow> key_event \<Rightarrow> canvas_history \<Rightarrow> canvas_history" where
  "handleKeyDown isInputFocused e c =
     (if isInputFocused then c
      else if (ctrlKey e \<or> metaKey e) \<and> (key e = ''z'' \<or> key e = ''Z'') \<and> \<not> shiftKey e then apply_restored (undo (manager c)) c
      else if (ctrlKey e \<or> metaKey e) \<and> (key e = ''z'' \<or> key e = ''Z'') \<and> shiftKey e then apply_restored (redo (manager c)) c
      else c)"

definition edit_canvas :: "jsval list \<Rightarrow> jsval list \<Rightarrow> canvas_history \<Rightarrow> canvas_history" where
  \<comment> \<open>any action of the store that sets the nodes and edges\<close>
  "edit_canvas ns es c = save_effect (c\<lparr>cnodes := ns, cedges := es\<rparr>)"

inductive canvas_run :: "canvas_history \<Rightarrow> canvas_history \<Rightarrow> bool" for c0 where
  run_start: "canvas_run c0 c0"
| run_edit: "canvas_run c0 c \<Longrightarrow> canvas_run c0 (edit_canvas ns es c)"
| run_key: "canvas_run c0 c \<Longrightarrow> canvas_run c0 (handleKeyDown foc e c)"

section \<open>Invariant\<close>

definition is_snapshot :: "jsval \<Rightarrow> bool" where
  "is_snapshot s = (\<exists>ns es. s = snapshot ns es)"

definition history_ok :: "history_manager \<Rightarrow> bool" where
  "history_ok h =
     (length (history h) \<le> maxSize \<and> - 1 \<le> currentIndex h \<and> currentIndex h < int (length (history h))
      \<and> (history h \<noteq> [] \<longrightarrow> 0 \<le> currentIndex h)
      \<and> successively (\<lambda>a b. \<not> statesEqual a b) (history h)
      \<and> (\<forall>s\<in>set (history h). is_snapshot s))"

lemma successively_take: "successively P xs \<Longrightarrow> successively P (take n xs)"
  by (metis append_take_drop_id successively_append_iff)

lemma successively_tl: "successively P xs \<Longrightarrow> successively P (tl xs)"
  by (cases xs) (auto simp: successively_Cons)

lemma history_ok_push:
  assumes "history_ok h"
  shows "history_ok (history_push ns es h)"
proof (cases "history h \<noteq> [] \<and> statesEqual (snapshot ns es) (history h ! nat (currentIndex h))")
  case True
  then show ?thesis using assms by (simp add: history_push_def)
next
  case False
  define kept where "kept = (if currentIndex h < int (length (history h)) - 1 then take (nat (currentIndex h + 1)) (history h) else history h)"
  define pushed where "pushed = kept @ [snapshot ns es]"
  define limited where "limited = (if length pushed > maxSize then tl pushed else pushed)"
  have p: "history_push ns es h = \<lparr>history = limited, currentIndex = int (length limited) - 1, lastSavedState = js_stringify (snapshot ns es)\<rparr>"
    by (simp only: history_push_def Let_def if_not_P [OF False] kept_def pushed_def limited_def)
  have len: "length kept \<le> maxSize" "kept \<noteq> [] \<Longrightarrow> history h \<noteq> []" using assms by (auto simp: kept_def history_ok_def)
  have last: "last kept = history h ! nat (currentIndex h)" if "kept \<noteq> []"
  proof -
    have i: "0 \<le> currentIndex h" "currentIndex h < int (length (history h))" using assms len(2) that by (simp_all add: history_ok_def)
    then have "length kept = Suc (nat (currentIndex h))" "kept = take (Suc (nat (currentIndex h))) (history h)"
      by (auto simp: kept_def Suc_nat_eq_nat_zadd1 add.commute)
    then show ?thesis using that by (simp add: last_conv_nth)
  qed
  have eq_sym: "statesEqual a b = statesEqual b a" for a b by (auto simp: statesEqual_def)
  have "successively (\<lambda>a b. \<not> statesEqual a b) kept" using assms by (simp add: kept_def history_ok_def successively_take)
  then have s: "successively (\<lambda>a b. \<not> statesEqual a b) pushed"
    using False last len(2) eq_sym [of "snapshot ns es"] by (auto simp: pushed_def successively_append_iff)
  have "\<forall>s\<in>set pushed. is_snapshot s"
    using assms by (auto simp: pushed_def kept_def history_ok_def is_snapshot_def split: if_splits dest: in_set_takeD)
  then have "\<forall>s\<in>set limited. is_snapshot s" by (auto simp: limited_def dest: list.set_sel(2) [rotated] split: if_splits)
  moreover have "limited \<noteq> []" "length limited \<le> maxSize" using len(1) by (auto simp: limited_def pushed_def maxSize_def tl_append split: list.splits)
  moreover have "successively (\<lambda>a b. \<not> statesEqual a b) limited" using s by (simp add: limited_def successively_tl)
  ultimately show ?thesis by (simp add: p history_ok_def Suc_le_eq)
qed

lemma history_ok_undo: "history_ok h \<Longrightarrow> history_ok (fst (undo h))"
  by (auto simp: undo_def history_ok_def canUndo_def Let_def)

lemma history_ok_redo: "history_ok h \<Longrightarrow> history_ok (fst (redo h))"
  by (auto simp: redo_def history_ok_def canRedo_def Let_def)

lemma manager_save [simp]: "manager (save_effect c) = history_push (cnodes c) (cedges c) (manager c)"
  by (simp add: save_effect_def)

lemma history_ok_apply: "history_ok (fst r) \<Longrightarrow> history_ok (manager (apply_restored r c))"
  by (auto simp: apply_restored_def history_ok_push split: option.splits)

text \<open>
  C7: however edits, undo and redo are interleaved, the history never has more than fifty snapshots,
  the index points at one of them as soon as there is one, and neighbouring snapshots differ.
\<close>

theorem history_invariant:
  assumes "history_ok (manager c0)" and "canvas_run c0 c"
  shows "history_ok (manager c)"
  using assms(2)
proof induction
  case run_start
  then show ?case by (rule assms(1))
next
  case (run_edit c ns es)
  then show ?case by (simp add: edit_canvas_def history_ok_push)
next
  case (run_key c foc e)
  then show ?case by (simp add: handleKeyDown_def history_ok_apply history_ok_undo history_ok_redo)
qed

definition start_canvas :: canvas_history where
  "start_canvas = \<lparr>cnodes = [], cedges = [], manager = new_history\<rparr>"

definition undo_key :: key_event where
  "undo_key = \<lparr>ctrlKey = True, metaKey = False, shiftKey = False, key = ''z''\<rparr>"

definition redo_key :: key_event where
  "redo_key = \<lparr>ctrlKey = True, metaKey = False, shiftKey = True, key = ''Z''\<rparr>"

lemma start_ok: "history_ok (manager start_canvas)"
  by (simp add: start_canvas_def new_history_def history_ok_def)

theorem history_invariant_witness:
  "history_ok (manager (handleKeyDown False undo_key (edit_canvas [JStr ''b''] [] (edit_canvas [JStr ''a''] [] start_canvas))))"
proof (rule history_invariant [OF start_ok])
  show "canvas_run start_canvas (handleKeyDown False undo_key (edit_canvas [JStr ''b''] [] (edit_canvas [JStr ''a''] [] start_canvas)))"
    by (intro canvas_run.intros)
qed

section \<open>Undo and redo\<close>

lemma restored_equal:
  assumes "is_snapshot s"
  shows "statesEqual (snapshot (fst (restored s)) (snd (restored s))) s"
proof -
  obtain ns es where s: "s = snapshot ns es" using assms by (auto simp: is_snapshot_def)
  have r: "restored s = (map json_clone (map json_clone ns), map json_clone (map json_clone es))"
    by (simp add: s snapshot_def restored_def Let_def)
  have "js_stringify (json_clone (JArr (map json_clone (map json_clone xs)))) = js_stringify (JArr (map json_clone xs))" for xs
  proof -
    have "js_stringify (json_clone (JArr (map json_clone (map json_clone xs)))) = js_stringify (JArr (map json_clone (map json_clone xs)))"
      by (rule stringify_clone) simp
    also have "\<dots> = js_stringify (json_clone (JArr (map json_clone xs)))" by simp
    also have "\<dots> = js_stringify (JArr (map json_clone xs))" by (rule stringify_clone) simp
    finally show ?thesis .
  qed
  then show ?thesis unfolding r by (simp add: s statesEqual_def snapshot_def del: json_clone.simps js_stringify.simps(6)) simp
qed

lemma push_same:
  "history h \<noteq> [] \<Longrightarrow> statesEqual (snapshot ns es) (history h ! nat (currentIndex h)) \<Longrightarrow> history_push ns es h = h"
  by (simp add: history_push_def)

lemma apply_at:
  assumes "history_ok h" and "0 \<le> i" "i < int (length (history h))"
  shows "apply_restored (h\<lparr>currentIndex := i\<rparr>, Some (restored (history h ! nat i))) c =
     c\<lparr>cnodes := fst (restored (history h ! nat i)), cedges := snd (restored (history h ! nat i)), manager := h\<lparr>currentIndex := i\<rparr>\<rparr>"
proof -
  have "is_snapshot (history h ! nat i)" using assms by (auto simp: history_ok_def)
  moreover have "history h \<noteq> []" using assms by auto
  ultimately have "history_push (fst (restored (history h ! nat i))) (snd (restored (history h ! nat i))) (h\<lparr>currentIndex := i\<rparr>) = h\<lparr>currentIndex := i\<rparr>"
    by (intro push_same) (simp_all add: restored_equal)
  then show ?thesis by (simp add: apply_restored_def save_effect_def case_prod_unfold)
qed

lemma undo_key_at:
  assumes "history_ok (manager c)" and "0 < currentIndex (manager c)"
  shows "handleKeyDown False undo_key c =
     (let i = currentIndex (manager c) - 1; r = restored (history (manager c) ! nat i)
      in c\<lparr>cnodes := fst r, cedges := snd r, manager := (manager c)\<lparr>currentIndex := i\<rparr>\<rparr>)"
  using apply_at [OF assms(1), of "currentIndex (manager c) - 1" c] assms
  by (simp add: handleKeyDown_def undo_key_def undo_def canUndo_def Let_def history_ok_def)

lemma redo_key_at:
  assumes "history_ok (manager c)" and "currentIndex (manager c) < int (length (history (manager c))) - 1"
  shows "handleKeyDown False redo_key c =
     (let i = currentIndex (manager c) + 1; r = restored (history (manager c) ! nat i)
      in c\<lparr>cnodes := fst r, cedges := snd r, manager := (manager c)\<lparr>currentIndex := i\<rparr>\<rparr>)"
  using apply_at [OF assms(1), of "currentIndex (manager c) + 1" c] assms
  by (simp add: handleKeyDown_def redo_key_def redo_def canRedo_def Let_def history_ok_def)

text \<open>
  Undo followed by redo brings back the canvas and the history: the effect that runs after the
  undo finds the restored state equal to its snapshot and does not cut off the states that redo needs.
\<close>

theorem undo_redo_roundtrip:
  assumes ok: "history_ok (manager c)" and can: "canUndo (manager c)"
  shows "manager (handleKeyDown False redo_key (handleKeyDown False undo_key c)) = manager c
     \<and> statesEqual (snapshot (cnodes (handleKeyDown False redo_key (handleKeyDown False undo_key c)))
                            (cedges (handleKeyDown False redo_key (handleKeyDown False undo_key c))))
         (history (manager c) ! nat (currentIndex (manager c)))"
proof -
  let ?m = "manager c" and ?i = "currentIndex (manager c)"
  have i: "0 < ?i" "?i < int (length (history ?m))" using ok can by (simp_all add: history_ok_def canUndo_def)
  note u = undo_key_at [OF ok i(1), unfolded Let_def]
  have ok1: "history_ok (manager (handleKeyDown False undo_key c))"
    using ok i by (simp add: u history_ok_def)
  have "is_snapshot (history ?m ! nat ?i)" using ok i by (auto simp: history_ok_def)
  then show ?thesis
    using redo_key_at [OF ok1] i restored_equal [of "history ?m ! nat ?i"] by (simp add: u Let_def)
qed

theorem undo_redo_roundtrip_witness:
  "manager (handleKeyDown False redo_key (handleKeyDown False undo_key (edit_canvas [JStr ''b''] [] (edit_canvas [JStr ''a''] [] start_canvas))))
     = manager (edit_canvas [JStr ''b''] [] (edit_canvas [JStr ''a''] [] start_canvas))"
proof -
  let ?c = "edit_canvas [JStr ''b''] [] (edit_canvas [JStr ''a''] [] start_canvas)"
  have "history_ok (manager ?c)" by (simp add: edit_canvas_def history_ok_push start_ok)
  moreover have "canUndo (manager ?c)" by code_simp
  ultimately show ?thesis using undo_redo_roundtrip [of ?c] by blast
qed

text \<open>
  An edit that changes the canvas can be taken back: undo restores the state that was current
  before the edit, also when the history is full and its oldest state has been dropped.
\<close>

theorem edit_undo_restores:
  assumes ok: "history_ok (manager c)" and "history (manager c) \<noteq> []"
    and new: "\<not> statesEqual (snapshot ns es) (history (manager c) ! nat (currentIndex (manager c)))"
  shows "(cnodes (handleKeyDown False undo_key (edit_canvas ns es c)), cedges (handleKeyDown False undo_key (edit_canvas ns es c)))
     = restored (history (manager c) ! nat (currentIndex (manager c)))"
proof -
  let ?h = "history (manager c)" and ?i = "currentIndex (manager c)"
  define kept where "kept = (if ?i < int (length ?h) - 1 then take (nat (?i + 1)) ?h else ?h)"
  define limited where "limited = (if length (kept @ [snapshot ns es]) > maxSize then tl (kept @ [snapshot ns es]) else kept @ [snapshot ns es])"
  have i: "0 \<le> ?i" "?i < int (length ?h)" "length ?h \<le> maxSize" using ok assms(2) by (simp_all add: history_ok_def)
  have k: "length kept = Suc (nat ?i)" "kept ! nat ?i = ?h ! nat ?i"
    using i by (auto simp: kept_def nat_add_distrib)
  have f: "\<not> (?h \<noteq> [] \<and> statesEqual (snapshot ns es) (?h ! nat ?i))" using new by simp
  have m: "manager (edit_canvas ns es c) = \<lparr>history = limited, currentIndex = int (length limited) - 1,
      lastSavedState = js_stringify (snapshot ns es)\<rparr>"
  proof -
    have "manager (edit_canvas ns es c) = history_push ns es (manager c)" by (simp add: edit_canvas_def)
    then show ?thesis by (simp only: history_push_def Let_def if_not_P [OF f] kept_def limited_def)
  qed
  have ok1: "history_ok (manager (edit_canvas ns es c))" using ok by (simp add: edit_canvas_def history_ok_push)
  have l: "1 < length limited" "limited ! (length limited - 2) = ?h ! nat ?i"
    using k by (auto simp: limited_def maxSize_def nth_append nth_tl)
  have "nat (int (length limited) - 1 - 1) = length limited - 2" using l(1) by simp
  then show ?thesis using undo_key_at [OF ok1] l by (simp add: m Let_def)
qed

theorem edit_undo_restores_witness:
  "cnodes (handleKeyDown False undo_key (edit_canvas [JStr ''b''] [] (edit_canvas [JStr ''a''] [] start_canvas))) = [JStr ''a'']"
proof -
  let ?c = "edit_canvas [JStr ''a''] [] start_canvas"
  have ok: "history_ok (manager ?c)" by (simp add: edit_canvas_def history_ok_push start_ok)
  have h: "history (manager ?c) = [snapshot [JStr ''a''] []]" "currentIndex (manager ?c) = 0" by code_simp+
  have "\<not> statesEqual (snapshot [JStr ''b''] []) (snapshot [JStr ''a''] [])" by code_simp
  moreover have "restored (snapshot [JStr ''a''] []) = ([JStr ''a''], [])" by code_simp
  ultimately show ?thesis using edit_undo_restores [OF ok, of "[JStr ''b'']" "[]"] h by simp
qed

end
