(* ===== verification/Canvas_Hooks.thy ===== *)
theory Canvas_Hooks
  imports Add_Node Agent_Tools
begin

text \<open>
  Handlers of the canvas, under \<open>pages/agent/hooks\<close>: what is deleted with a selection
  (\<open>use-before-delete.tsx\<close>), the placeholder node that stands for a node yet to be chosen
  (\<open>use-placeholder-manager.ts\<close>, \<open>use-connection-drag.ts\<close>), renaming
  (\<open>use-change-node-name.ts\<close>), and copying and pasting (\<open>useCopyPaste\<close> of \<open>hooks.tsx\<close>).

  The deletion of elements is done by the flow library: the effect of its \<open>deleteElements\<close> on the
  state is a parameter of the claims, and what is relied on is in the locale \<open>flow_instance\<close>.
\<close>

section \<open>Deleting a selection\<close>

definition UndeletableNodes :: "Operator list" where
  "UndeletableNodes = [OpBegin, OpIterationStart]"

definition may_delete_node :: "node list \<Rightarrow> node \<Rightarrow> bool" where
  "may_delete_node ns n =
     (if nlabel n = op_str OpBegin then False
      else if nlabel n = op_str OpIterationStart \<and> \<not> list_ex (\<lambda>x. Some (nid x) = parentId n) ns then False
      else True)"

definition may_delete_edge :: "rf_state \<Rightarrow> node list \<Rightarrow> edge \<Rightarrow> bool" where
  "may_delete_edge s ns e =
     (if list_ex (\<lambda>x. getOperatorTypeFromId (Val (source e)) s = Some (op_str x)) UndeletableNodes
         \<and> filter (\<lambda>x. nid x = target e) ns = []
      then \<not> list_ex (\<lambda>x. nid x = source e) ns
      else True)"

definition push_node :: "rf_state \<Rightarrow> node list \<Rightarrow> string \<Rightarrow> node list" where
  "push_node s acc nodeId =
     (case getNode (Val nodeId) s of
        Some n \<Rightarrow> if list_all (\<lambda>x. nid x \<noteq> nodeId) acc then acc @ [n] else acc
      | None \<Rightarrow> acc)"

definition push_edge :: "edge list \<Rightarrow> edge \<Rightarrow> edge list" where
  "push_edge acc e = (if list_all (\<lambda>x. eid x \<noteq> eid e) acc then acc @ [e] else acc)"

definition delete_below :: "nat \<Rightarrow> rf_state \<Rightarrow> edge list \<Rightarrow> (node list \<times> edge list) res \<Rightarrow> node \<Rightarrow> (node list \<times> edge list) res" where
  \<comment> \<open>the callback of \<open>nodes.filter(agentPredicate).forEach\<close>\<close>
  "delete_below depth s es acc n =
     bind_r acc (\<lambda>(dn, de).
     bind_r (deleteAllDownstreamAgentsAndTool depth (nid n) es) (\<lambda>(ids, related).
       Inr (foldl (push_node s) dn ids, foldl push_edge de related)))"

definition handleBeforeDelete :: "nat \<Rightarrow> rf_state \<Rightarrow> node list \<Rightarrow> edge list \<Rightarrow> (node list \<times> edge list) res" where
  "handleBeforeDelete depth s ns es =
     foldl (delete_below depth s es)
       (Inr (filter (may_delete_node ns) ns, filter (may_delete_edge s ns) es))
       (filter (\<lambda>n. getOperatorTypeFromId (Val (nid n)) s = Some (op_str OpAgent)) ns)"

section \<open>The placeholder\<close>

text \<open>
  The two refs of the hook, the store, and the calls of \<open>deleteElements\<close> that were made and have not
  taken effect yet: the library awaits the deletion handler, so the rest of the caller runs first.
\<close>

record placeholder_state =
  createdPlaceholderRef :: "string option"
  userSelectedNodeRef :: bool
  pending :: "(node list \<times> edge list) list"
  store :: rf_state

type_synonym delete_elements = "node list \<Rightarrow> edge list \<Rightarrow> rf_state \<Rightarrow> rf_state"

definition incident :: "string \<Rightarrow> edge list \<Rightarrow> edge list" where
  "incident i es = filter (\<lambda>e. target e = i \<or> source e = i) es"

definition deleteElements :: "node list \<Rightarrow> edge list \<Rightarrow> placeholder_state \<Rightarrow> placeholder_state" where
  \<comment> \<open>the guard and the call\<close>
  "deleteElements ns es st = (if length ns > 0 \<or> length es > 0 then st\<lparr>pending := pending st @ [(ns, es)]\<rparr> else st)"

definition checkAndRemoveExistingPlaceholder :: "bool \<Rightarrow> placeholder_state \<Rightarrow> placeholder_state" where
  \<comment> \<open>whether there is an instance of the flow library\<close>
  "checkAndRemoveExistingPlaceholder inst st =
     (case find (\<lambda>n. nlabel n = op_str OpPlaceholder) (nodes (store st)) of
        None \<Rightarrow> st
      | Some p \<Rightarrow>
          if inst
          then (let st' = deleteElements [p] (incident (nid p) (edges (store st))) st
                in if createdPlaceholderRef st' = Some (nid p) then st'\<lparr>createdPlaceholderRef := None\<rparr> else st')
          else st)"

definition live_ref :: "placeholder_state \<Rightarrow> string option" where
  \<comment> \<open>\<open>createdPlaceholderRef.current\<close> in a condition\<close>
  "live_ref st = (case createdPlaceholderRef st of None \<Rightarrow> None | Some i \<Rightarrow> if i = [] then None else Some i)"

definition remove_created :: "string \<Rightarrow> rf_state \<Rightarrow> placeholder_state \<Rightarrow> placeholder_state" where
  \<comment> \<open>the nodes and edges read from the state \<open>s\<close>\<close>
  "remove_created p s st = deleteElements (filter (\<lambda>n. nid n = p) (nodes s)) (incident p (edges s)) st"

definition removePlaceholderNode :: "bool \<Rightarrow> placeholder_state \<Rightarrow> placeholder_state" where
  "removePlaceholderNode inst st =
     (let st' = (case live_ref st of
                   None \<Rightarrow> st
                 | Some p \<Rightarrow> if inst \<and> \<not> userSelectedNodeRef st
                             then (remove_created p (store st) st)\<lparr>createdPlaceholderRef := None\<rparr>
                             else st)
      in st'\<lparr>userSelectedNodeRef := False\<rparr>)"

definition or_null :: "string nullable \<Rightarrow> string nullable" where
  "or_null h = (if str_truthy h then h else Null)"

definition take_place :: "node \<Rightarrow> node \<Rightarrow> node" where
  \<comment> \<open>\<open>{ ...newNode, ...pick(placeholderNode, ['position', 'parentId', 'extent']) }\<close>: a property the placeholder lacks is kept\<close>
  "take_place p n =
     n\<lparr>position := position p,
       parentId := (case parentId p of None \<Rightarrow> parentId n | Some q \<Rightarrow> Some q),
       extent := (case extent p of None \<Rightarrow> extent n | Some q \<Rightarrow> Some q)\<rparr>"

definition place_created :: "string \<Rightarrow> string \<Rightarrow> rf_state \<Rightarrow> rf_state" where
  "place_created p newNodeId s =
     (case (find (\<lambda>n. nid n = p) (nodes s), find (\<lambda>n. nid n = newNodeId) (nodes s)) of
        (Some pn, Some nn) \<Rightarrow> updateNode (take_place pn nn) s
      | _ \<Rightarrow> s)"

definition connect_created :: "libs \<Rightarrow> string \<Rightarrow> string \<Rightarrow> edge list \<Rightarrow> rf_state \<Rightarrow> rf_state" where
  "connect_created L p newNodeId es s =
     (case find (\<lambda>e. target e = p) es of
        Some e \<Rightarrow> addEdge L \<lparr>csource = source e, ctarget = newNodeId,
                      csourceHandle = or_null (sourceHandle e), ctargetHandle = or_null (targetHandle e)\<rparr> s
      | None \<Rightarrow> s)"

definition onNodeCreated :: "libs \<Rightarrow> bool \<Rightarrow> string \<Rightarrow> placeholder_state \<Rightarrow> placeholder_state" where
  "onNodeCreated L inst newNodeId st =
     (let st' = (case live_ref st of
                   None \<Rightarrow> st
                 | Some p \<Rightarrow>
                     if inst
                     then (let s = store st
                           in remove_created p s
                                (st\<lparr>store := connect_created L p newNodeId (edges s) (place_created p newNodeId s)\<rparr>))
                     else st)
      in st'\<lparr>userSelectedNodeRef := True, createdPlaceholderRef := None\<rparr>)"

definition setCreatedPlaceholderRef :: "string option \<Rightarrow> placeholder_state \<Rightarrow> placeholder_state" where
  "setCreatedPlaceholderRef nodeId st = st\<lparr>createdPlaceholderRef := nodeId\<rparr>"

definition resetUserSelectedFlag :: "placeholder_state \<Rightarrow> placeholder_state" where
  "resetUserSelectedFlag st = st\<lparr>userSelectedNodeRef := False\<rparr>"

definition settle :: "delete_elements \<Rightarrow> placeholder_state \<Rightarrow> rf_state" where
  \<comment> \<open>the store once every pending deletion has taken effect\<close>
  "settle del st = foldl (\<lambda>s (ns, es). del ns es s) (store st) (pending st)"

section \<open>Dragging a connection\<close>

record drag_state =
  isConnectedRef :: bool
  connectionStartRef :: "(string \<times> string) option"     \<comment> \<open>node and handle\<close>
  preventCloseRef :: bool
  mouseStartPosRef :: "(rat \<times> rat) option"
  dropdownPosition :: "rat \<times> rat"
  dragDropdown :: bool                                   \<comment> \<open>the active dropdown is \<open>drag\<close>\<close>
  modalVisible :: bool
  placeholders :: placeholder_state

definition on_placeholders :: "(placeholder_state \<Rightarrow> placeholder_state) \<Rightarrow> drag_state \<Rightarrow> drag_state" where
  "on_placeholders f d = d\<lparr>placeholders := f (placeholders d)\<rparr>"

definition onConnectStart :: "(rat \<times> rat) option \<Rightarrow> string nullable \<Rightarrow> string nullable \<Rightarrow> drag_state \<Rightarrow> drag_state" where
  \<comment> \<open>the mouse position when the event has one, and \<open>params\<close>\<close>
  "onConnectStart mouse nodeId handleId d =
     (let d1 = d\<lparr>isConnectedRef := False\<rparr>;
          d2 = (case mouse of None \<Rightarrow> d1 | Some p \<Rightarrow> d1\<lparr>mouseStartPosRef := Some p\<rparr>)
      in d2\<lparr>connectionStartRef :=
           (case (nodeId, handleId) of (Val n, Val h) \<Rightarrow> if n \<noteq> [] \<and> h \<noteq> [] then Some (n, h) else None | _ \<Rightarrow> None)\<rparr>)"

definition close_menu :: "drag_state \<Rightarrow> drag_state" where
  "close_menu d = d\<lparr>modalVisible := False, dragDropdown := False\<rparr>"

definition is_handle_click :: "rat \<Rightarrow> rat \<Rightarrow> drag_state \<Rightarrow> bool" where
  \<comment> \<open>the distance is below 5, compared by squares\<close>
  "is_handle_click x y d =
     (case mouseStartPosRef d of None \<Rightarrow> False | Some (mx, my) \<Rightarrow> (x - mx) ^ 2 + (y - my) ^ 2 < 25)"

definition add_placeholder :: "libs \<Rightarrow> add_env \<Rightarrow> string \<Rightarrow> string \<Rightarrow> placeholder_state \<Rightarrow> placeholder_state" where
  \<comment> \<open>\<open>addCanvasNode(Operator.Placeholder, contextData)(mockEvent)\<close> and the update of the ref\<close>
  "add_placeholder L env n h st =
     (let (s', newNodeId) = addCanvasNode L env (op_str OpPlaceholder)
            \<lparr>ap_nodeId = Val n, ap_position = PRight, ap_handle = Val h, ap_fromDrag = True\<rparr> (store st);
          st' = st\<lparr>store := s'\<rparr>
      in case newNodeId of
           None \<Rightarrow> st'
         | Some i \<Rightarrow> if i \<noteq> [] then setCreatedPlaceholderRef (Some i) st' else st')"

definition open_menu :: "rat \<times> rat \<Rightarrow> drag_state \<Rightarrow> drag_state" where
  "open_menu pos d = d\<lparr>dropdownPosition := pos, dragDropdown := True, modalVisible := True, preventCloseRef := True\<rparr>"

definition end_drag :: "drag_state \<Rightarrow> drag_state" where
  "end_drag d = d\<lparr>connectionStartRef := None, mouseStartPosRef := None\<rparr>"

definition onConnectEnd ::
    "libs \<Rightarrow> add_env \<Rightarrow> (rat \<times> rat \<Rightarrow> rat \<times> rat) \<Rightarrow> bool \<Rightarrow> (rat \<times> rat) option \<Rightarrow> drag_state \<Rightarrow> drag_state" where
  \<comment> \<open>the id of a new placeholder is never empty, so \<open>newNodeId\<close> is truthy whenever it is there\<close>
  "onConnectEnd L env calculateDropdownPosition inst mouse d =
     (case mouse of
        None \<Rightarrow> d
      | Some (x, y) \<Rightarrow>
          (let d0 = d\<lparr>dropdownPosition := (x, y)\<rparr> in
           case connectionStartRef d0 of
             None \<Rightarrow> d0
           | Some (n, h) \<Rightarrow>
               if isConnectedRef d0 then d0
               else if is_handle_click x y d0
               then end_drag (close_menu (on_placeholders (removePlaceholderNode inst) d0))
               else
                 let d1 = on_placeholders (\<lambda>st. add_placeholder L env n h (checkAndRemoveExistingPlaceholder inst st)) d0
                 in end_drag (if inst then open_menu (calculateDropdownPosition (x, y)) d1 else d1)))"

definition handleConnect :: "libs \<Rightarrow> connection \<Rightarrow> drag_state \<Rightarrow> drag_state" where
  "handleConnect L c d =
     (on_placeholders (\<lambda>st. st\<lparr>store := onConnect L c (store st)\<rparr>) d)\<lparr>isConnectedRef := True\<rparr>"

definition getConnectionStartContext :: "drag_state \<Rightarrow> add_params option" where
  "getConnectionStartContext d =
     (case connectionStartRef d of
        None \<Rightarrow> None
      | Some (n, h) \<Rightarrow> Some \<lparr>ap_nodeId = Val n, ap_position = PRight, ap_handle = Val h, ap_fromDrag = True\<rparr>)"

definition preventCloseTimeout :: "drag_state \<Rightarrow> drag_state" where
  \<comment> \<open>when the timer fires\<close>
  "preventCloseTimeout d = d\<lparr>preventCloseRef := False\<rparr>"

definition onMove :: "bool \<Rightarrow> drag_state \<Rightarrow> drag_state" where
  "onMove inst d = close_menu (on_placeholders (removePlaceholderNode inst) d)"

definition shouldPreventClose :: "drag_state \<Rightarrow> bool" where
  "shouldPreventClose d = preventCloseRef d"

section \<open>Renaming\<close>

text \<open>The result of a blur handler: the value it returns, the next name in the input, the next state.\<close>

definition handleNameBlur :: "string option \<Rightarrow> string option \<Rightarrow> string \<Rightarrow> rf_state \<Rightarrow> bool \<times> string \<times> rf_state" where
  \<comment> \<open>the node's id, its previous name, and the name in the input\<close>
  "handleNameBlur i previousName name s =
     (if js_trim name = [] then (True, case previousName of None \<Rightarrow> [] | Some p \<Rightarrow> p, s)
      else if list_ex (\<lambda>x. node_name x = name) (nodes s) \<and> previousName \<noteq> Some name then (False, name, s)
      else (True, name, case i of Some n \<Rightarrow> if n \<noteq> [] then updateNodeName n name s else s | None \<Rightarrow> s))"

definition handleToolNameBlur ::
    "libs \<Rightarrow> node option \<Rightarrow> string \<Rightarrow> string \<Rightarrow> rf_state \<Rightarrow> (bool \<times> string \<times> rf_state) res" where
  \<comment> \<open>the agent above the tool node, the id of the clicked tool, and the name in the input\<close>
  "handleToolNameBlur L agentNode clicked name s =
     bind_r (js_array (getAgentNodeTools L agentNode)) (\<lambda>tools.
     bind_r (find_r (key_is clicked) tools) (\<lambda>tool.
     bind_r (find_r (\<lambda>x. bind_r (js_prop x ''name'') (\<lambda>n. Inr (n = JStr (js_trim name)))) tools) (\<lambda>sameName.
       let previousName = (case tool of None \<Rightarrow> JUndef | Some t \<Rightarrow> js_opt t ''name''); trimmedName = js_trim name in
       if trimmedName = [] then Inr (True, js_to_string (js_or previousName (JStr [])), s)
       else if sameName \<noteq> None \<and> previousName \<noteq> JStr name then Inr (False, name, s)
       else case agentNode of
              None \<Rightarrow> Inr (True, name, s)
            | Some a \<Rightarrow> if nid a = [] then Inr (True, name, s)
                        else bind_r (updateAgentToolById L agentNode clicked [(''name'', JStr name)] s) (\<lambda>s'. Inr (True, name, s')))))"

section \<open>Copying and pasting\<close>

definition onCopyCapture :: "string \<Rightarrow> rf_state \<Rightarrow> node list option" where
  \<comment> \<open>the nodes put on the clipboard; none when the event is not from the body\<close>
  "onCopyCapture tagName s =
     (if tagName \<noteq> ''BODY'' then None
      else Some (filter (\<lambda>n. selected n = Some True \<and> nlabel n \<noteq> op_str OpBegin) (nodes s)))"

definition onPasteCapture :: "(nat \<Rightarrow> nat \<Rightarrow> string) \<Rightarrow> (string \<Rightarrow> string) \<Rightarrow> node list \<Rightarrow> rf_state \<Rightarrow> rf_state" where
  \<comment> \<open>the ids made for each duplicate, and \<open>getNodeName\<close>\<close>
  "onPasteCapture humanIds getNodeName ns s =
     foldl (\<lambda>st (k, n). duplicateNode (humanIds k) (nid n) (getNodeName (nlabel n)) st) s (enumerate 0 ns)"

section \<open>What is deleted with a selection\<close>

lemma getNode_nid': "getNode (Val i) s = Some n \<Longrightarrow> nid n = i \<and> n \<in> set (nodes s)"
  by (rule getNode_nid)

lemma getNode_defined: "getNode (Val i) s \<noteq> None \<longleftrightarrow> i \<in> set (node_ids s)"
  by (auto simp: getNode_def find_None_iff)

lemma push_nodes_ids:
  "nid ` set (foldl (push_node s) acc ids) = nid ` set acc \<union> (set ids \<inter> set (node_ids s))"
proof (induction ids arbitrary: acc)
  case (Cons i ids)
  have "nid ` set (push_node s acc i) = nid ` set acc \<union> ({i} \<inter> set (node_ids s))"
  proof (cases "getNode (Val i) s")
    case None
    then have "i \<notin> set (node_ids s)" using getNode_defined [of i s] by simp
    then show ?thesis by (simp add: push_node_def None)
  next
    case (Some n)
    then have "nid n = i" "i \<in> set (node_ids s)" using getNode_nid' [OF Some] by auto
    moreover have "list_all (\<lambda>x. nid x \<noteq> i) acc \<longleftrightarrow> i \<notin> nid ` set acc" by (auto simp: list_all_iff)
    ultimately show ?thesis using Some by (cases "i \<in> nid ` set acc") (simp_all add: push_node_def insert_absorb)
  qed
  then show ?case using Cons.IH [of "push_node s acc i"] by auto
qed simp

lemma push_nodes_sub: "n \<in> set (foldl (push_node s) acc ids) \<Longrightarrow> n \<in> set acc \<or> nid n \<in> set ids"
proof (induction ids arbitrary: acc)
  case (Cons i ids)
  then have "n \<in> set (push_node s acc i) \<or> nid n \<in> set ids" using Cons.IH [of "push_node s acc i"] by simp
  then show ?case using getNode_nid' [of i s] by (auto simp: push_node_def split: option.splits if_splits)
qed simp

definition below :: "edge list \<Rightarrow> node list \<Rightarrow> string set" where
  "below es as = {i. \<exists>a\<in>set as. (nid a, i) \<in> (agent_tool_rel es)\<^sup>+}"

lemma delete_below_fold:
  assumes "acyclic (agent_tool_rel es)" and "length es + 2 \<le> depth"
  shows "\<exists>dn de. foldl (delete_below depth s es) (Inr (dn0, de0)) as = Inr (dn, de)
     \<and> nid ` set dn = nid ` set dn0 \<union> (below es as \<inter> set (node_ids s))
     \<and> (\<forall>n\<in>set dn. n \<in> set dn0 \<or> nid n \<in> below es as)"
proof (induction as arbitrary: dn0 de0)
  case Nil
  then show ?case by (simp add: below_def)
next
  case (Cons a as)
  obtain ids related where d: "deleteAllDownstreamAgentsAndTool depth (nid a) es = Inr (ids, related)"
    and ids: "set ids = (agent_tool_rel es)\<^sup>+ `` {nid a}" using deleteAll_ids [OF assms] by blast
  define dn1 where "dn1 = foldl (push_node s) dn0 ids"
  have step: "delete_below depth s es (Inr (dn0, de0)) a = Inr (dn1, foldl push_edge de0 related)"
    by (simp add: delete_below_def d dn1_def)
  have b: "below es (a # as) = set ids \<union> below es as" by (auto simp: below_def ids)
  obtain dn de where r: "foldl (delete_below depth s es) (Inr (dn1, foldl push_edge de0 related)) as = Inr (dn, de)"
    "nid ` set dn = nid ` set dn1 \<union> (below es as \<inter> set (node_ids s))" "\<forall>n\<in>set dn. n \<in> set dn1 \<or> nid n \<in> below es as"
    using Cons.IH [of dn1 "foldl push_edge de0 related"] by blast
  have "nid ` set dn = nid ` set dn0 \<union> (below es (a # as) \<inter> set (node_ids s))"
    unfolding r(2) b dn1_def push_nodes_ids by blast
  moreover have "\<forall>n\<in>set dn. n \<in> set dn0 \<or> nid n \<in> below es (a # as)"
    using r(3) push_nodes_sub [of _ s dn0 ids] unfolding b dn1_def by blast
  ultimately show ?case using r(1) by (simp add: step)
qed

definition selected_agents :: "rf_state \<Rightarrow> node list \<Rightarrow> node list" where
  "selected_agents s ns = filter (\<lambda>n. getOperatorTypeFromId (Val (nid n)) s = Some (op_str OpAgent)) ns"



section \<open>Renaming keeps names apart\<close>

lemma update_first_names:
  assumes "distinct (map nid ns)"
  shows "map node_name (update_first (\<lambda>n. nid n = i) (\<lambda>n. n\<lparr>ndata := (ndata n)\<lparr>nname := nm\<rparr>\<rparr>) ns) =
     map (\<lambda>n. if nid n = i then nm else node_name n) ns"
  using assms
proof (induction ns)
  case (Cons n ns)
  then show ?case by (cases "nid n = i") (auto simp: image_iff)
qed simp

text \<open>
  No sequence of accepted renames gives two nodes one name: a name another node has is refused,
  and every other node keeps its name.
\<close>

theorem rename_keeps_names_distinct:
  assumes wf: "distinct (node_ids s)" and names: "distinct (map node_name (nodes s))"
    and n: "n \<in> set (nodes s)" "i = nid n"
    and blur: "handleNameBlur (Some i) (Some (node_name n)) name s = (accepted, shown, s')"
  shows "distinct (map node_name (nodes s')) \<and> node_ids s' = node_ids s
     \<and> (\<forall>m\<in>set (nodes s). node_name m = name \<and> nid m \<noteq> i \<and> js_trim name \<noteq> [] \<longrightarrow> \<not> accepted \<and> s' = s)"
proof -
  consider (same) "s' = s" "js_trim name = [] \<or> \<not> accepted"
    | (new) "js_trim name \<noteq> []" "(\<forall>x\<in>set (nodes s). node_name x \<noteq> name) \<or> node_name n = name"
      "s' = updateNodeName i name s \<or> s' = s"
    using blur by (auto simp: handleNameBlur_def list_ex_iff split: if_splits)
  then show ?thesis
  proof cases
    case same
    have "\<not> accepted" if "m \<in> set (nodes s)" "node_name m = name \<and> nid m \<noteq> i \<and> js_trim name \<noteq> []" for m
      using same(2) that by blast
    then show ?thesis using names same(1) by blast
  next
    case new
    have uniq: "m = n" if "m \<in> set (nodes s)" "node_name m = node_name n" for m
      using names that n(1) by (metis distinct_map inj_on_def)
    have "distinct (map (\<lambda>m. if nid m = i then name else node_name m) (nodes s))"
      using names new(2) uniq wf n
      by (auto simp: distinct_map inj_on_def split: if_splits)
    then have "distinct (map node_name (nodes (updateNodeName i name s)))"
      using names update_first_names [OF wf, of i name] by (simp add: updateNodeName_def)
    moreover have "node_ids (updateNodeName i name s) = node_ids s"
      by (simp add: updateNodeName_def update_first_ids)
    moreover have "\<not> (node_name m = name \<and> nid m \<noteq> i)" if "m \<in> set (nodes s)" for m
      using new(2) uniq [OF that] that n(2) by metis
    ultimately show ?thesis using new(3) names by auto
  qed
qed

theorem rename_keeps_names_distinct_witness:
  "distinct (map node_name (nodes (snd (snd (handleNameBlur (Some ''Agent:b'') (Some ''Agent_1'') ''Helper'' ex_agents)))))
   \<and> \<not> fst (handleNameBlur (Some ''Agent:b'') (Some ''Agent_1'') ''Tool_0'' ex_agents)"
proof -
  define n where "n = nodes ex_agents ! 1"
  define m where "m = nodes ex_agents ! 2"
  have n: "n \<in> set (nodes ex_agents)" "''Agent:b'' = nid n" "node_name n = ''Agent_1''"
    and m: "m \<in> set (nodes ex_agents)" "nid m = ''Tool:t''" "node_name m = ''Tool_0''"
    by (simp_all add: n_def m_def ex_agents_def mk_state_def mk_node_def)
  have d: "distinct (node_ids ex_agents)" "distinct (map node_name (nodes ex_agents))"
    by (simp_all add: ex_agents_def mk_state_def mk_node_def)
  have t: "js_trim ''Tool_0'' \<noteq> []" by code_simp
  have "distinct (map node_name (nodes s'))" if "handleNameBlur (Some ''Agent:b'') (Some ''Agent_1'') nm ex_agents = (a, sh, s')" for nm a sh s'
    using rename_keeps_names_distinct [OF d n(1,2), of nm a sh s'] that n(3) by simp
  moreover have "\<not> a" if "handleNameBlur (Some ''Agent:b'') (Some ''Agent_1'') ''Tool_0'' ex_agents = (a, sh, s')" for a sh s'
    using rename_keeps_names_distinct [OF d n(1,2), of "''Tool_0''" a sh s'] that n(3) m t by auto
  ultimately show ?thesis by (metis prod.collapse)
qed

end
