(* ===== verification/Placeholder_Claims.thy ===== *)
theory Placeholder_Claims
  imports Canvas_Hooks
begin

text \<open>
  The placeholder node: what the claims rely on of the flow library's \<open>deleteElements\<close>, that a drag
  into the void leaves one placeholder, and that the node the user chooses takes its place.
\<close>

section \<open>Deleting elements\<close>

text \<open>The ids stand for placeholders of the canvas, and no node is inside one.\<close>

definition only_placeholders :: "string set \<Rightarrow> rf_state \<Rightarrow> bool" where
  "only_placeholders ids s =
     (ids \<subseteq> set (node_ids s) \<and> list_all (\<lambda>n. (nid n \<in> ids \<longrightarrow> nlabel n = op_str OpPlaceholder)
                 \<and> (case parentId n of None \<Rightarrow> True | Some p \<Rightarrow> p \<notin> ids)) (nodes s))"

definition touches :: "string set \<Rightarrow> edge \<Rightarrow> bool" where
  "touches ids e = (source e \<in> ids \<or> target e \<in> ids)"

text \<open>
  The nodes and the edges asked for are deleted, and with a node its edges, as long as the handler of
  \<open>use-before-delete.tsx\<close> does not object; other nodes and edges stay. The edges are found by id.
\<close>

locale flow_instance =
  fixes del :: delete_elements
  assumes del_nodes: "only_placeholders (nid ` set ns) s \<Longrightarrow> list_all (touches (nid ` set ns)) es \<Longrightarrow>
      nodes (del ns es s) = filter (\<lambda>n. nid n \<notin> nid ` set ns) (nodes s)"
    and del_edges: "only_placeholders (nid ` set ns) s \<Longrightarrow> list_all (touches (nid ` set ns)) es \<Longrightarrow>
      e \<in> set (edges (del ns es s)) \<Longrightarrow> e \<in> set (edges s) \<and> e \<notin> set es"
    and del_keeps: "only_placeholders (nid ` set ns) s \<Longrightarrow> list_all (touches (nid ` set ns)) es \<Longrightarrow>
      e \<in> set (edges s) \<Longrightarrow> eid e \<notin> eid ` set es \<Longrightarrow>
      (\<forall>x\<in>set (edges s). touches (nid ` set ns) x \<longrightarrow> eid x \<noteq> eid e) \<Longrightarrow> e \<in> set (edges (del ns es s))"
begin

lemma placeholder_gone:
  assumes "only_placeholders {p} s" and ids: "nid ` set ns = {p}"
  shows "nodes (del ns (incident p es) s) = filter (\<lambda>n. nid n \<noteq> p) (nodes s)"
    and "e \<in> set (edges (del ns (incident p es) s)) \<Longrightarrow> e \<in> set (edges s) \<and> e \<notin> set (incident p es)"
    and "e \<in> set (edges s) \<Longrightarrow> (\<forall>x\<in>set (edges s) \<union> set es. touches {p} x \<longrightarrow> eid x \<noteq> eid e) \<Longrightarrow>
      e \<in> set (edges (del ns (incident p es) s))"
proof -
  have t: "list_all (touches (nid ` set ns)) (incident p es)"
    by (auto simp: incident_def touches_def ids list_all_iff)
  have o: "only_placeholders (nid ` set ns) s" using assms(1) ids by simp
  show "nodes (del ns (incident p es) s) = filter (\<lambda>n. nid n \<noteq> p) (nodes s)"
    using del_nodes [OF o t] by (simp add: ids)
  show "e \<in> set (edges (del ns (incident p es) s)) \<Longrightarrow> e \<in> set (edges s) \<and> e \<notin> set (incident p es)"
    using del_edges [OF o t] by blast
  assume e: "e \<in> set (edges s)" "\<forall>x\<in>set (edges s) \<union> set es. touches {p} x \<longrightarrow> eid x \<noteq> eid e"
  have "eid e \<notin> eid ` set (incident p es)" using e(2) by (auto simp: incident_def touches_def)
  then show "e \<in> set (edges (del ns (incident p es) s))"
    using del_keeps [OF o t e(1)] e(2) by (auto simp: ids)
qed

end

text \<open>The library's own steps, with the handler of the canvas: the elements, what goes with them, and the veto.\<close>

definition ref_delete :: delete_elements where
  "ref_delete ns es s =
     (let ns' = filter (\<lambda>n. nid n \<in> nid ` set ns \<or> (case parentId n of None \<Rightarrow> False | Some p \<Rightarrow> p \<in> nid ` set ns)) (nodes s);
          es' = filter (\<lambda>e. eid e \<in> eid ` set es \<or> touches (nid ` set ns') e) (edges s)
      in case handleBeforeDelete (length (edges s) + 2) s ns' es' of
           Inl _ \<Rightarrow> s
         | Inr (dn, de) \<Rightarrow> s\<lparr>nodes := filter (\<lambda>n. nid n \<notin> nid ` set dn) (nodes s),
                           edges := filter (\<lambda>e. eid e \<notin> eid ` set de) (edges s)\<rparr>)"

lemma no_agents_deleted:
  assumes "\<forall>n\<in>set ns. getOperatorTypeFromId (Val (nid n)) s \<noteq> Some (op_str OpAgent)"
  shows "handleBeforeDelete depth s ns es = Inr (filter (may_delete_node ns) ns, filter (may_delete_edge s ns) es)"
proof -
  have "filter (\<lambda>n. getOperatorTypeFromId (Val (nid n)) s = Some (op_str OpAgent)) ns = []"
    using assms by (simp add: filter_empty_conv)
  then show ?thesis by (simp add: handleBeforeDelete_def)
qed

lemma placeholder_type:
  assumes "only_placeholders ids s" "i \<in> ids"
  shows "getOperatorTypeFromId (Val i) s = Some (op_str OpPlaceholder)"
proof -
  have "i \<in> set (node_ids s)" using assms by (auto simp: only_placeholders_def)
  then obtain n where n: "getNode (Val i) s = Some n" using getNode_defined [of i s] by (auto simp del: set_map)
  then show ?thesis using getNode_nid' [OF n] assms by (auto simp: getOperatorTypeFromId_def only_placeholders_def list_all_iff)
qed

lemma ref_delete_placeholders:
  fixes es :: "edge list"
  assumes "only_placeholders (nid ` set ns) s"
  defines "es' \<equiv> filter (\<lambda>e. eid e \<in> eid ` set es \<or> touches (nid ` set ns) e) (edges s)"
  shows "ref_delete ns es s =
     s\<lparr>nodes := filter (\<lambda>n. nid n \<notin> nid ` set ns) (nodes s),
       edges := filter (\<lambda>e. eid e \<notin> eid ` set (filter (may_delete_edge s (filter (\<lambda>n. nid n \<in> nid ` set ns) (nodes s))) es')) (edges s)\<rparr>"
proof -
  define ns' where "ns' = filter (\<lambda>n. nid n \<in> nid ` set ns) (nodes s)"
  have f: "filter (\<lambda>n. nid n \<in> nid ` set ns \<or> (case parentId n of None \<Rightarrow> False | Some p \<Rightarrow> p \<in> nid ` set ns)) (nodes s) = ns'"
    unfolding ns'_def using assms(1)
    by (intro filter_cong) (auto simp: only_placeholders_def list_all_iff split: option.splits)
  have "nid ` set ns' = nid ` set (nodes s) \<inter> nid ` set ns" by (auto simp: ns'_def)
  then have ids: "nid ` set ns' = nid ` set ns" using assms(1) by (auto simp: only_placeholders_def)
  have lbl: "nlabel n = op_str OpPlaceholder" if "n \<in> set ns'" for n
    using that assms(1) by (auto simp: ns'_def only_placeholders_def list_all_iff)
  have "filter (may_delete_node ns') ns' = ns'"
    using lbl by (intro filter_True) (auto simp: may_delete_node_def)
  moreover have "getOperatorTypeFromId (Val (nid n)) s \<noteq> Some (op_str OpAgent)" if "n \<in> set ns'" for n
  proof -
    have "nid n \<in> nid ` set ns" using imageI [OF that, of nid] ids by simp
    then show ?thesis using placeholder_type [OF assms(1)] by simp
  qed
  ultimately have "handleBeforeDelete (length (edges s) + 2) s ns' es' = Inr (ns', filter (may_delete_edge s ns') es')"
    using no_agents_deleted [of ns' s "length (edges s) + 2" es'] by simp
  then show ?thesis by (simp add: ref_delete_def f ids ns'_def [symmetric] es'_def)
qed

lemma may_delete_touching:
  assumes "only_placeholders (nid ` set ns) s" "touches (nid ` set ns) e"
  shows "may_delete_edge s (filter (\<lambda>n. nid n \<in> nid ` set ns) (nodes s)) e"
proof (cases "source e \<in> nid ` set ns")
  case True
  then have "getOperatorTypeFromId (Val (source e)) s = Some (op_str OpPlaceholder)" by (rule placeholder_type [OF assms(1)])
  then show ?thesis by (simp add: may_delete_edge_def UndeletableNodes_def)
next
  case False
  then have t: "target e \<in> nid ` set ns" using assms(2) by (simp add: touches_def)
  then obtain n where n: "n \<in> set (nodes s)" "nid n = target e"
    using assms(1) by (auto simp: only_placeholders_def)
  then have "n \<in> set (filter (\<lambda>x. nid x = target e) (filter (\<lambda>n. nid n \<in> nid ` set ns) (nodes s)))"
    using t n by simp
  then have "filter (\<lambda>x. nid x = target e) (filter (\<lambda>n. nid n \<in> nid ` set ns) (nodes s)) \<noteq> []" by (metis empty_iff empty_set)
  then show ?thesis unfolding may_delete_edge_def by metis
qed

interpretation rf: flow_instance ref_delete
proof unfold_locales
  fix ns :: "node list" and es and s :: rf_state and e :: edge
  assume o: "only_placeholders (nid ` set ns) s" and t: "list_all (touches (nid ` set ns)) es"
  show "nodes (ref_delete ns es s) = filter (\<lambda>n. nid n \<notin> nid ` set ns) (nodes s)"
    by (simp add: ref_delete_placeholders [OF o])
  show "e \<in> set (edges (ref_delete ns es s)) \<Longrightarrow> e \<in> set (edges s) \<and> e \<notin> set es"
    using may_delete_touching [OF o] t by (auto simp: ref_delete_placeholders [OF o] list_all_iff image_iff)
  show "e \<in> set (edges s) \<Longrightarrow> eid e \<notin> eid ` set es \<Longrightarrow>
      \<forall>x\<in>set (edges s). touches (nid ` set ns) x \<longrightarrow> eid x \<noteq> eid e \<Longrightarrow> e \<in> set (edges (ref_delete ns es s))"
    by (auto simp: ref_delete_placeholders [OF o] image_iff)
qed

section \<open>What the additions keep\<close>

definition layout :: "rf_state \<Rightarrow> (string \<times> string \<times> string option \<times> xy_position) list" where
  "layout s = map (\<lambda>n. (nid n, nlabel n, parentId n, position n)) (nodes s)"

definition shape :: "rf_state \<Rightarrow> (string \<times> string \<times> string option) list" where
  "shape s = map (\<lambda>n. (nid n, nlabel n, parentId n)) (nodes s)"

lemma shape_layout: "shape s = map (\<lambda>(i, l, p, _). (i, l, p)) (layout s)"
  by (simp add: shape_def layout_def comp_def)

lemma layout_form_update [simp]: "layout (updateNodeForm L i v p s) = layout s"
  by (simp add: updateNodeForm_eq layout_def comp_def form_step.keeps_id) (simp add: form_step_def set_form_def)

lemma layout_connect: "layout (addEdge L c s) = layout s"
proof -
  have "layout (updateSwitchFormData L src sh tgt k t) = layout t" for src sh tgt k t
    using updateSwitchFormData_cases [of L src sh tgt k t] by auto
  moreover have "layout (s\<lparr>edges := es\<rparr>) = layout s" for es by (simp add: layout_def)
  ultimately show ?thesis by (simp add: addEdge_def updateFormDataOnConnect_def)
qed

lemma shape_connect: "shape (addEdge L c s) = shape s"
  by (simp add: shape_layout layout_connect)

lemma shape_updateNode:
  assumes "distinct_ids s" "n \<in> set (nodes s)" "nid m = nid n" "nlabel m = nlabel n" "parentId m = parentId n"
  shows "shape (updateNode m s) = shape s"
proof -
  have "x = n" if "x \<in> set (nodes s)" "nid x = nid n" for x
    using assms(1,2) that by (auto simp: distinct_ids_def distinct_map inj_on_def)
  then show ?thesis using assms(3-5) by (auto simp: shape_def updateNode_def)
qed

lemma shape_place:
  assumes "distinct_ids s" "place_in_group type params n s = (s1, n1)"
  shows "shape s1 = shape s" "nid n1 = nid n" "nlabel n1 = nlabel n"
    "parentId n1 = parentId n \<or> (\<exists>m\<in>set (nodes s). parentId n1 = parentId m)"
proof -
  have "shape (resizeIterationNode t p q s) = shape s" for t p q
  proof (cases "getNode q s")
    case (Some m)
    then have "m \<in> set (nodes s)" using find_Some_in [of _ "nodes s" m] by (simp add: getNode_def)
    then show ?thesis using shape_updateNode [OF assms(1)] Some by (auto simp: resizeIterationNode_def Let_def)
  qed (simp add: resizeIterationNode_def)
  then show "shape s1 = shape s" "nid n1 = nid n" "nlabel n1 = nlabel n"
    using assms(2) by (auto simp: place_in_group_def split: option.splits if_splits)
  have "m \<in> set (nodes s)" if "getNode q s = Some m" for q m
    using that find_Some_in [of _ "nodes s" m] by (simp add: getNode_def)
  then show "parentId n1 = parentId n \<or> (\<exists>m\<in>set (nodes s). parentId n1 = parentId m)"
    using assms(2) by (fastforce simp: place_in_group_def split: option.splits if_splits)
qed

lemma only_placeholders_shape:
  "only_placeholders ids s = (ids \<subseteq> fst ` set (shape s) \<and>
     list_all (\<lambda>(i, l, q). (i \<in> ids \<longrightarrow> l = op_str OpPlaceholder) \<and> (case q of None \<Rightarrow> True | Some p \<Rightarrow> p \<notin> ids)) (shape s))"
  by (simp add: only_placeholders_def shape_def list_all_iff image_image)

section \<open>A drag leaves one placeholder\<close>

definition placeholder_ids :: "rf_state \<Rightarrow> string list" where
  "placeholder_ids s = map nid (filter (\<lambda>n. nlabel n = op_str OpPlaceholder) (nodes s))"

lemma placeholder_ids_shape: "placeholder_ids s = map fst (filter (\<lambda>(i, l, p). l = op_str OpPlaceholder) (shape s))"
  by (simp add: placeholder_ids_def shape_def filter_map comp_def)

definition leaf :: "string \<Rightarrow> rf_state \<Rightarrow> bool" where
  \<comment> \<open>no node is inside the node\<close>
  "leaf i s = list_all (\<lambda>n. parentId n \<noteq> Some i) (nodes s)"

lemma leaf_shape: "leaf i s = list_all (\<lambda>(j, l, p). p \<noteq> Some i) (shape s)"
  by (auto simp: leaf_def shape_def list_all_iff)

lemma only_placeholders_one:
  assumes "distinct_ids s" "p \<in> set (placeholder_ids s)" "leaf p s"
  shows "only_placeholders {p} s"
proof -
  obtain n where n: "n \<in> set (nodes s)" "nid n = p" "nlabel n = op_str OpPlaceholder"
    using assms(2) by (auto simp: placeholder_ids_def)
  have "x = n" if "x \<in> set (nodes s)" "nid x = p" for x
    using assms(1) n(1,2) that by (auto simp: distinct_ids_def distinct_map inj_on_def)
  then have "nid x = p \<longrightarrow> nlabel x = op_str OpPlaceholder" if "x \<in> set (nodes s)" for x using that n(3) by blast
  moreover have "p \<in> set (node_ids s)" using n by auto
  ultimately show ?thesis using assms(3)
    unfolding only_placeholders_def leaf_def list_all_iff by (auto split: option.split)
qed

lemma node_ids_shape: "node_ids s = map fst (shape s)"
  by (simp add: shape_def comp_def)

lemma added_placeholder:
  fixes env :: add_env
  assumes "distinct_ids (store st)"
  defines "i \<equiv> ''Placeholder:'' @ humanId env"
  shows "\<exists>p. shape (store (add_placeholder L env n h st)) = shape (store st) @ [(i, op_str OpPlaceholder, p)]
       \<and> (p = None \<or> p \<in> parentId ` set (nodes (store st)))"
    and "createdPlaceholderRef (add_placeholder L env n h st) = Some i" "pending (add_placeholder L env n h st) = pending st"
proof -
  define ps where "ps = \<lparr>ap_nodeId = Val n, ap_position = PRight, ap_handle = Val h, ap_fromDrag = True\<rparr>"
  obtain s1 m where pl: "place_in_group (op_str OpPlaceholder) ps (new_node env (op_str OpPlaceholder) ps (store st)) (store st) = (s1, m)"
    by (cases "place_in_group (op_str OpPlaceholder) ps (new_node env (op_str OpPlaceholder) ps (store st)) (store st)")
  note sp = shape_place [OF assms(1) pl]
  have m: "nid m = i" "nlabel m = op_str OpPlaceholder" using sp(2,3) by (simp_all add: i_def new_node_def Let_def)
  have np: "parentId m = None \<or> parentId m \<in> parentId ` set (nodes (store st))"
    using sp(4) by (auto simp: new_node_def Let_def)
  have ac: "addCanvasNode L env (op_str OpPlaceholder) ps (store st) =
      (addChildEdge L PRight (Val n) i (Val h) (addNode m s1), Some i)"
    unfolding addCanvasNode_def pl by (simp add: m) (simp add: ps_def)
  have "shape (addChildEdge L PRight (Val n) i (Val h) (addNode m s1)) = shape (addNode m s1)"
    by (simp add: addChildEdge_def shape_connect)
  also have "\<dots> = shape (store st) @ [(i, op_str OpPlaceholder, parentId m)]"
    using sp(1) m by (simp add: shape_def addNode_def)
  finally have sh: "shape (addChildEdge L PRight (Val n) i (Val h) (addNode m s1)) = shape (store st) @ [(i, op_str OpPlaceholder, parentId m)]" .
  have ap: "add_placeholder L env n h st =
      st\<lparr>store := addChildEdge L PRight (Val n) i (Val h) (addNode m s1), createdPlaceholderRef := Some i\<rparr>"
    unfolding add_placeholder_def ps_def [symmetric] ac by (simp add: setCreatedPlaceholderRef_def i_def)
  show "\<exists>p. shape (store (add_placeholder L env n h st)) = shape (store st) @ [(i, op_str OpPlaceholder, p)]
       \<and> (p = None \<or> p \<in> parentId ` set (nodes (store st)))"
    using sh np ap by auto
  show "createdPlaceholderRef (add_placeholder L env n h st) = Some i" "pending (add_placeholder L env n h st) = pending st"
    using ap by simp_all
qed

lemma settle_old_placeholder:
  assumes del: "flow_instance del" and s: "distinct_ids s" "length (placeholder_ids s) \<le> 1" "\<forall>p\<in>set (placeholder_ids s). leaf p s"
    and st: "store st = s" "pending st = []" and i: "i \<notin> set (node_ids s)"
    and st2: "shape (store st2) = shape s @ [(i, op_str OpPlaceholder, q)]" "q = None \<or> q \<in> parentId ` set (nodes s)"
      "pending st2 = pending (checkAndRemoveExistingPlaceholder True st)"
  shows "placeholder_ids (settle del st2) = [i]"
    "node_ids (settle del st2) = filter (\<lambda>j. j \<notin> set (placeholder_ids s)) (node_ids s) @ [i]"
proof -
  have new: "placeholder_ids (store st2) = placeholder_ids s @ [i]" "node_ids (store st2) = node_ids s @ [i]"
    unfolding placeholder_ids_shape node_ids_shape st2(1) by simp_all
  have "placeholder_ids (settle del st2) = [i]
      \<and> node_ids (settle del st2) = filter (\<lambda>j. j \<notin> set (placeholder_ids s)) (node_ids s) @ [i]"
  proof (cases "find (\<lambda>n. nlabel n = op_str OpPlaceholder) (nodes s)")
    case None
    then have "pending st2 = []" using st2(3) st by (simp add: checkAndRemoveExistingPlaceholder_def)
    moreover have "placeholder_ids s = []" using None by (auto simp: placeholder_ids_def find_None_iff filter_empty_conv)
    ultimately show ?thesis using new by (simp add: settle_def)
  next
    case (Some pn)
    define p where "p = nid pn"
    have pn: "pn \<in> set (nodes s)" "nlabel pn = op_str OpPlaceholder" using find_Some_in [OF Some] by auto
    then have "p \<in> set (placeholder_ids s)" by (auto simp: placeholder_ids_def p_def)
    then have p: "placeholder_ids s = [p]" using s(2) by (cases "placeholder_ids s") auto
    have pend: "pending st2 = [([pn], incident p (edges s))]"
      using st2(3) st Some by (simp add: checkAndRemoveExistingPlaceholder_def deleteElements_def Let_def p_def)
    have ip: "i \<noteq> p" using i pn(1) by (auto simp: p_def)
    have lf: "leaf p s" using s(3) p by simp
    then have "q \<noteq> Some p" using st2(2) by (force simp: leaf_def list_all_iff)
    then have "leaf p (store st2)" using lf unfolding leaf_shape st2(1) by simp
    moreover have "distinct_ids (store st2)" using s(1) i new(2) by (simp add: distinct_ids_def)
    ultimately have "only_placeholders {p} (store st2)" using new(1) p by (intro only_placeholders_one) simp_all
    then have "nodes (settle del st2) = filter (\<lambda>n. nid n \<noteq> p) (nodes (store st2))"
      using flow_instance.placeholder_gone(1) [OF del] by (simp add: settle_def pend p_def)
    then have "placeholder_ids (settle del st2) = filter (\<lambda>j. j \<noteq> p) (placeholder_ids (store st2))"
      "node_ids (settle del st2) = filter (\<lambda>j. j \<noteq> p) (node_ids (store st2))"
      by (simp_all add: placeholder_ids_def filter_map comp_def conj_commute)
    then show ?thesis using new p ip by simp
  qed
  then show "placeholder_ids (settle del st2) = [i]"
    "node_ids (settle del st2) = filter (\<lambda>j. j \<notin> set (placeholder_ids s)) (node_ids s) @ [i]" by simp_all
qed

text \<open>
  C24: a connection dragged into the void leaves exactly one placeholder on the canvas once the pending
  deletions have taken effect: an older one is deleted, the new one is the one the hook remembers, no
  other node comes or goes, and the menu is open.
\<close>

theorem drag_leaves_one_placeholder:
  assumes del: "flow_instance del"
    and d: "connectionStartRef d = Some (n, h)" "\<not> isConnectedRef d" "\<not> is_handle_click x y d"
    and s: "store (placeholders d) = s" "distinct_ids s" "pending (placeholders d) = []"
    and one: "length (placeholder_ids s) \<le> 1" "\<forall>p\<in>set (placeholder_ids s). leaf p s"
    and fresh: "''Placeholder:'' @ humanId env \<notin> set (node_ids s)"
  shows "let d' = onConnectEnd L env calc True (Some (x, y)) d; s' = settle del (placeholders d')
     in placeholder_ids s' = [''Placeholder:'' @ humanId env]
      \<and> createdPlaceholderRef (placeholders d') = Some (''Placeholder:'' @ humanId env)
      \<and> node_ids s' = filter (\<lambda>i. i \<notin> set (placeholder_ids s)) (node_ids s) @ [''Placeholder:'' @ humanId env]
      \<and> modalVisible d' \<and> connectionStartRef d' = None"
proof -
  define i where "i = ''Placeholder:'' @ humanId env"
  define st1 where "st1 = checkAndRemoveExistingPlaceholder True (placeholders d)"
  define st2 where "st2 = add_placeholder L env n h st1"
  define d' where "d' = onConnectEnd L env calc True (Some (x, y)) d"
  have click: "\<not> is_handle_click x y (d\<lparr>dropdownPosition := (x, y)\<rparr>)" using d(3) by (simp add: is_handle_click_def)
  have d': "d' = end_drag (open_menu (calc (x, y)) (on_placeholders (\<lambda>st. add_placeholder L env n h (checkAndRemoveExistingPlaceholder True st))
      (d\<lparr>dropdownPosition := (x, y)\<rparr>)))"
    unfolding d'_def onConnectEnd_def using d(1,2) click by simp
  have ph: "placeholders d' = st2" and menu: "modalVisible d'" "connectionStartRef d' = None"
    by (simp_all add: d' end_drag_def open_menu_def on_placeholders_def st2_def st1_def)
  have store1: "store st1 = s" using s(1) by (simp add: st1_def checkAndRemoveExistingPlaceholder_def deleteElements_def Let_def split: option.split)
  have ds1: "distinct_ids (store st1)" using store1 s(2) by simp
  obtain q where sh: "shape (store st2) = shape s @ [(i, op_str OpPlaceholder, q)]" and q: "q = None \<or> q \<in> parentId ` set (nodes s)"
    using added_placeholder(1) [OF ds1, where L = L and env = env and n = n and h = h] unfolding store1 st2_def i_def by blast
  have ref: "createdPlaceholderRef st2 = Some i" and pen: "pending st2 = pending st1"
    using added_placeholder(2,3) [OF ds1] by (simp_all add: st2_def i_def)
  have "i \<notin> set (node_ids s)" using fresh by (simp add: i_def)
  note settled = settle_old_placeholder [OF del s(2) one s(1,3) this sh q pen [unfolded st1_def]]
  show ?thesis using settled ref menu ph by (simp add: Let_def d'_def [symmetric] i_def)
qed

definition drag_example :: drag_state where
  "drag_example = \<lparr>isConnectedRef = False, connectionStartRef = Some (''begin'', ''start''), preventCloseRef = False,
     mouseStartPosRef = Some (0, 0), dropdownPosition = (0, 0), dragDropdown = False, modalVisible = False,
     placeholders = \<lparr>createdPlaceholderRef = Some ''Placeholder:old'', userSelectedNodeRef = False, pending = [],
       store = mk_state [mk_node ''begin'' ''Begin'' ''begin'' (JObj []) None,
                         mk_node ''Placeholder:old'' ''Placeholder'' ''p'' (JObj []) None]
                        [mk_edge ''e0'' ''begin'' ''Placeholder:old'' ''start'']\<rparr>\<rparr>"

lemma drag_example_facts:
  "connectionStartRef drag_example = Some (''begin'', ''start'')" "\<not> isConnectedRef drag_example"
  "\<not> is_handle_click 30 40 drag_example" "distinct_ids (store (placeholders drag_example))"
  "pending (placeholders drag_example) = []" "length (placeholder_ids (store (placeholders drag_example))) \<le> 1"
  "\<forall>p\<in>set (placeholder_ids (store (placeholders drag_example))). leaf p (store (placeholders drag_example))"
  "''Placeholder:'' @ humanId add_example_env \<notin> set (node_ids (store (placeholders drag_example)))"
  by (simp_all add: drag_example_def is_handle_click_def add_example_env_def placeholder_ids_def leaf_def mk_state_def mk_node_def
      mk_edge_def distinct_ids_def)

theorem drag_leaves_one_placeholder_witness:
  "placeholder_ids (settle ref_delete (placeholders (onConnectEnd ref_libs add_example_env (\<lambda>p. p) True (Some (30, 40)) drag_example)))
     = [''Placeholder:BigCatsJump'']"
proof -
  have "humanId add_example_env = ''BigCatsJump''" by (simp add: add_example_env_def)
  then show ?thesis
    using drag_leaves_one_placeholder [OF rf.flow_instance_axioms drag_example_facts(1-3) refl drag_example_facts(4-8),
        of ref_libs "\<lambda>p. p"]
    by (simp add: Let_def)
qed

section \<open>The chosen node takes its place\<close>

definition fresh_edge_id :: "libs \<Rightarrow> connection \<Rightarrow> edge list \<Rightarrow> bool" where
  \<comment> \<open>an edge added for the connection gets an id of its own\<close>
  "fresh_edge_id L c es = list_all (\<lambda>e. e \<in> set es \<or> eid e \<notin> eid ` set es) (xy_addEdge L c es)"

lemma layout_place:
  assumes "distinct_ids s" "p \<noteq> j" "find (\<lambda>n. nid n = p) (nodes s) = Some pn" "find (\<lambda>n. nid n = j) (nodes s) = Some nn"
  shows "node_ids (place_created p j s) = node_ids s" "edges (place_created p j s) = edges s"
    "take_place pn nn \<in> set (nodes (place_created p j s))"
    "\<forall>n\<in>set (nodes (place_created p j s)). n \<in> set (nodes s) \<or> n = take_place pn nn"
proof -
  have nn: "nn \<in> set (nodes s)" "nid nn = j" using find_Some_in [OF assms(4)] by auto
  have e: "place_created p j s = updateNode (take_place pn nn) s" using assms(3,4) by (simp add: place_created_def)
  show "node_ids (place_created p j s) = node_ids s" by (simp only: e updateNode_frame)
  show "edges (place_created p j s) = edges s" by (simp add: e updateNode_def)
  have "nid (take_place pn nn) = nid nn" by (simp add: take_place_def)
  then show "take_place pn nn \<in> set (nodes (place_created p j s))" using nn(1) by (force simp: e updateNode_def)
  show "\<forall>n\<in>set (nodes (place_created p j s)). n \<in> set (nodes s) \<or> n = take_place pn nn" by (auto simp: e updateNode_def)
qed

lemma placed_only_placeholders:
  assumes "distinct_ids s" "p \<noteq> j" "find (\<lambda>n. nid n = p) (nodes s) = Some pn" "nlabel pn = op_str OpPlaceholder" "leaf p s"
    "find (\<lambda>n. nid n = j) (nodes s) = Some nn"
  shows "only_placeholders {p} (place_created p j s)"
proof -
  note lp = layout_place [OF assms(1-3,6)]
  have pn: "pn \<in> set (nodes s)" "nid pn = p" using find_Some_in [OF assms(3)] by auto
  have "nlabel n = op_str OpPlaceholder" if "n \<in> set (nodes s)" "nid n = p" for n
    using that pn assms(1,4) by (metis distinct_ids_def distinct_map inj_onD)
  moreover have "parentId n \<noteq> Some p" if "n \<in> set (nodes s)" for n using assms(5) that by (simp add: leaf_def list_all_iff)
  moreover have "nn \<in> set (nodes s)" "nid nn = j" using find_Some_in [OF assms(6)] by auto
  ultimately have "(nid n = p \<longrightarrow> nlabel n = op_str OpPlaceholder) \<and> parentId n \<noteq> Some p" if "n \<in> set (nodes (place_created p j s))" for n
    using lp(4) that pn(1) assms(2) by (auto simp: take_place_def split: option.splits)
  moreover have "p \<in> set (node_ids (place_created p j s))" using lp(1) pn by (metis image_eqI list.set_map)
  ultimately show ?thesis unfolding only_placeholders_def list_all_iff by (auto split: option.split)
qed

text \<open>
  The node chosen from the menu replaces the placeholder: it gets the placeholder's place and the
  connection from the node the drag began at, and once the pending deletion has taken effect neither the
  placeholder nor an edge at it is left, while every other node is still there.
\<close>

theorem chosen_node_takes_place:
  assumes del: "flow_instance del" and L: "xyflow_api L"
    and st: "store st = s" "distinct_ids s" "pending st = []" "createdPlaceholderRef st = Some p" "p \<noteq> []"
    and p: "find (\<lambda>n. nid n = p) (nodes s) = Some pn" "nlabel pn = op_str OpPlaceholder" "leaf p s"
    and j: "find (\<lambda>n. nid n = j) (nodes s) = Some nn" "j \<noteq> p" "j \<noteq> []"
    and e: "find (\<lambda>e. target e = p) (edges s) = Some e" "source e \<noteq> p" "source e \<noteq> []"
      "list_all (\<lambda>x. target x \<noteq> j) (edges s)"
    and ids: "fresh_edge_id L \<lparr>csource = source e, ctarget = j, csourceHandle = or_null (sourceHandle e),
        ctargetHandle = or_null (targetHandle e)\<rparr> (edges s)"
  shows "let st' = onNodeCreated L True j st; s' = settle del st'
     in node_ids s' = filter (\<lambda>i. i \<noteq> p) (node_ids s) \<and> createdPlaceholderRef st' = None
      \<and> (\<exists>n\<in>set (nodes s'). nid n = j \<and> nlabel n = nlabel nn \<and> position n = position pn)
      \<and> (\<exists>x\<in>set (edges s'). source x = source e \<and> target x = j \<and> sourceHandle x = or_null (sourceHandle e))
      \<and> list_all (\<lambda>x. source x \<noteq> p \<and> target x \<noteq> p) (edges s')"
proof -
  define c where "c = \<lparr>csource = source e, ctarget = j, csourceHandle = or_null (sourceHandle e), ctargetHandle = or_null (targetHandle e)\<rparr>"
  define s1 where "s1 = place_created p j s"
  define s2 where "s2 = addEdge L c s1"
  define ns where "ns = filter (\<lambda>n. nid n = p) (nodes s)"
  note lp = layout_place [OF st(2) j(2) [symmetric] p(1) j(1), folded s1_def]
  have pn: "pn \<in> set (nodes s)" "nid pn = p" using find_Some_in [OF p(1)] by auto
  then have ns: "nid ` set ns = {p}" by (force simp: ns_def)
  then have nonempty: "ns \<noteq> []" by auto
  have st': "onNodeCreated L True j st = st\<lparr>store := s2, pending := [(ns, incident p (edges s))],
      userSelectedNodeRef := True, createdPlaceholderRef := None\<rparr>"
    using st e(1) nonempty
    by (simp add: onNodeCreated_def live_ref_def remove_created_def deleteElements_def connect_created_def ns_def s2_def s1_def c_def Let_def)
  have settled: "settle del (onNodeCreated L True j st) = del ns (incident p (edges s)) s2"
    by (simp add: st' settle_def)
  have lay: "layout s2 = layout s1" by (simp add: s2_def layout_connect)
  then have ids2: "node_ids s2 = node_ids s" using lp(1) by (simp add: node_ids_shape shape_layout)
  have "only_placeholders {p} s1" unfolding s1_def by (rule placed_only_placeholders [OF st(2) j(2) [symmetric] p j(1)])
  then have o: "only_placeholders {p} s2" using lay by (simp add: only_placeholders_shape shape_layout)
  note gone = flow_instance.placeholder_gone [OF del o ns]
  have "edges s2 = xy_addEdge L c (edges s)" by (simp add: s2_def addEdge_def connect_frame lp(2))
  moreover have "xy_addEdge L c (edges s) \<noteq> edges s"
    using e(3,4) j(3) by (intro xyflow_api.addEdge_new [OF L]) (auto simp: c_def list_all_iff)
  ultimately obtain x where x: "edges s2 = edges s @ [x]" "source x = source e" "target x = j" "sourceHandle x = or_null (sourceHandle e)"
    and add: "xy_addEdge L c (edges s) = edges s @ [x]"
    using xyflow_api.addEdge [OF L, of c "edges s"] by (auto simp: c_def)
  have "x \<notin> set (edges s)" using e(4) x(3) by (auto simp: list_all_iff)
  then have fresh: "eid x \<notin> eid ` set (edges s)" using ids add by (simp add: fresh_edge_id_def c_def)
  have "x \<in> set (edges (del ns (incident p (edges s)) s2))"
    using fresh x e(2) j(2) by (intro gone(3)) (auto simp: touches_def image_iff)
  moreover have "source y \<noteq> p \<and> target y \<noteq> p" if "y \<in> set (edges (del ns (incident p (edges s)) s2))" for y
    using gone(2) [OF that] x e(2) j(2) by (auto simp: incident_def)
  moreover have "\<exists>n\<in>set (nodes s2). nid n = j \<and> nlabel n = nlabel nn \<and> position n = position pn"
  proof -
    let ?t = "take_place pn nn"
    have "(nid ?t, nlabel ?t, parentId ?t, position ?t) \<in> set (layout s2)"
      unfolding lay using lp(3) by (simp add: layout_def)
    then have "(j, nlabel nn, parentId ?t, position pn) \<in> set (layout s2)"
      using find_Some_in [OF j(1)] by (simp add: take_place_def)
    then show ?thesis by (auto simp: layout_def)
  qed
  moreover have "nodes (del ns (incident p (edges s)) s2) = filter (\<lambda>n. nid n \<noteq> p) (nodes s2)" by (rule gone(1))
  moreover have "map nid (filter (\<lambda>n. nid n \<noteq> p) (nodes s2)) = filter (\<lambda>i. i \<noteq> p) (node_ids s)"
    unfolding ids2 [symmetric] by (simp add: filter_map comp_def)
  moreover have "createdPlaceholderRef (onNodeCreated L True j st) = None" by (simp add: st')
  ultimately show ?thesis using j(2) x(2-4) by (auto simp: Let_def settled list_all_iff)
qed

definition chosen_example :: placeholder_state where
  "chosen_example = \<lparr>createdPlaceholderRef = Some ''Placeholder:p'', userSelectedNodeRef = False, pending = [],
     store = mk_state [mk_node ''begin'' ''Begin'' ''begin'' (JObj []) None,
                       (mk_node ''Placeholder:p'' ''Placeholder'' ''p'' (JObj []) None)\<lparr>position := \<lparr>px = 7, py = 9\<rparr>\<rparr>,
                       mk_node ''Message:m'' ''Message'' ''Message_0'' (JObj []) None]
                      [mk_edge ''e0'' ''begin'' ''Placeholder:p'' ''start'']\<rparr>"

theorem chosen_node_takes_place_witness:
  "node_ids (settle ref_delete (onNodeCreated ref_libs True ''Message:m'' chosen_example)) = [''begin'', ''Message:m'']"
proof -
  note defs = chosen_example_def mk_state_def mk_node_def mk_edge_def distinct_ids_def leaf_def
  have f: "find (\<lambda>n. nid n = ''Placeholder:p'') (nodes (store chosen_example)) = Some (nodes (store chosen_example) ! 1)"
    "nlabel (nodes (store chosen_example) ! 1) = op_str OpPlaceholder"
    "find (\<lambda>n. nid n = ''Message:m'') (nodes (store chosen_example)) = Some (nodes (store chosen_example) ! 2)"
    "find (\<lambda>e. target e = ''Placeholder:p'') (edges (store chosen_example)) = Some (mk_edge ''e0'' ''begin'' ''Placeholder:p'' ''start'')"
    "distinct_ids (store chosen_example)" "leaf ''Placeholder:p'' (store chosen_example)"
    "list_all (\<lambda>x. target x \<noteq> ''Message:m'') (edges (store chosen_example))"
    by (simp_all add: defs)
  have c: "pending chosen_example = []" "createdPlaceholderRef chosen_example = Some ''Placeholder:p''"
    "source (mk_edge ''e0'' ''begin'' ''Placeholder:p'' ''start'') = ''begin''"
    "fresh_edge_id ref_libs \<lparr>csource = source (mk_edge ''e0'' ''begin'' ''Placeholder:p'' ''start''), ctarget = ''Message:m'',
       csourceHandle = or_null (sourceHandle (mk_edge ''e0'' ''begin'' ''Placeholder:p'' ''start'')),
       ctargetHandle = or_null (targetHandle (mk_edge ''e0'' ''begin'' ''Placeholder:p'' ''start''))\<rparr> (edges (store chosen_example))"
    by (simp_all add: defs fresh_edge_id_def ref_addEdge_def connects_def)
  have "node_ids (settle ref_delete (onNodeCreated ref_libs True ''Message:m'' chosen_example)) =
      filter (\<lambda>i. i \<noteq> ''Placeholder:p'') (node_ids (store chosen_example))"
    using chosen_node_takes_place [OF rf.flow_instance_axioms ref.xyflow_api_axioms refl f(5) c(1,2) _ f(1,2,6,3) _ _ f(4) _ _ f(7) c(4)]
    by (simp add: Let_def c(3))
  then show ?thesis by (simp add: defs)
qed

end
