(* ===== verification/Metadata.thy ===== *)
theory Metadata
  imports Js_Json
begin

text \<open>
  The metadata manager of a dataset, \<open>pages/dataset/components/metedata\<close>: the table of fields and
  values, the list of operations that is sent to the server when it is saved
  (\<open>hooks/use-manage-modal.ts\<close>), the dialog that edits the values of one field
  (\<open>hooks/use-manage-values-modal.ts\<close>), and how the dialog's row goes back into the table
  (\<open>manage-modal.tsx\<close>, \<open>manage-modal-column.tsx\<close>).

  Values are strings, as the types of the sources say. Every state update is a function on the state;
  a call of \<open>addUpdateValue\<close> or \<open>addDeleteValue\<close> from the dialog changes the operations of the table.
\<close>

section \<open>Types\<close>

datatype MetadataType = Manage | UpdateSingle | Setting | SingleFileSetting

record meta_row =
  mfield :: string
  mdescription :: string
  restrictDefinedValues :: "bool option option"     \<comment> \<open>absent, or present and perhaps undefined\<close>
  mvalues :: "string list"
  mvalueType :: "string option"

definition DEFAULT_VALUE_TYPE :: string where
  "DEFAULT_VALUE_TYPE = ''string''"

definition VALUE_TYPE_LABELS :: "(string \<times> string) list" where
  "VALUE_TYPE_LABELS = [(''string'', ''String''), (''time'', ''Time''), (''number'', ''Number''), (''list'', ''List'')]"

definition getMetadataValueTypeLabel :: "string option \<Rightarrow> string" where
  "getMetadataValueTypeLabel v =
     (let key = (case v of None \<Rightarrow> DEFAULT_VALUE_TYPE | Some t \<Rightarrow> if t = [] then DEFAULT_VALUE_TYPE else t)
      in case map_of VALUE_TYPE_LABELS key of None \<Rightarrow> ''String'' | Some l \<Rightarrow> l)"

record delete_texts =
  dtitle :: string
  warnFieldText :: string
  warnValueText :: string
  warnFieldName :: string
  warnValueName :: string

definition md_key :: "(string \<Rightarrow> string) \<Rightarrow> string \<Rightarrow> string" where
  "md_key t k = t (''knowledgeDetails.metadata.'' @ k)"

definition MetadataDeleteMap :: "(string \<Rightarrow> string) \<Rightarrow> MetadataType \<Rightarrow> delete_texts" where
  "MetadataDeleteMap t ty =
     (let title = t ''common.delete'' @ '' '' @ md_key t ''metadata'' in
      case ty of
        Manage \<Rightarrow> \<lparr>dtitle = title, warnFieldText = md_key t ''deleteManageFieldAllWarn'', warnValueText = md_key t ''deleteManageValueAllWarn'',
                    warnFieldName = md_key t ''fieldNameExists'', warnValueName = md_key t ''valueExists''\<rparr>
      | Setting \<Rightarrow> \<lparr>dtitle = title, warnFieldText = md_key t ''deleteSettingFieldWarn'', warnValueText = md_key t ''deleteSettingValueWarn'',
                    warnFieldName = md_key t ''fieldExists'', warnValueName = md_key t ''valueExists''\<rparr>
      | UpdateSingle \<Rightarrow> \<lparr>dtitle = title, warnFieldText = md_key t ''deleteManageFieldSingleWarn'', warnValueText = md_key t ''deleteManageValueSingleWarn'',
                    warnFieldName = md_key t ''fieldSingleNameExists'', warnValueName = md_key t ''valueSingleExists''\<rparr>
      | SingleFileSetting \<Rightarrow> \<lparr>dtitle = title, warnFieldText = md_key t ''deleteSettingFieldWarn'', warnValueText = md_key t ''deleteSettingValueWarn'',
                    warnFieldName = md_key t ''fieldExists'', warnValueName = md_key t ''valueSingleExists''\<rparr>)"

section \<open>Conversions\<close>

definition first_text :: "jsval \<Rightarrow> string res" where
  \<comment> \<open>\<open>([v]) => v.toString()\<close>: the argument is iterated, its first element read\<close>
  "first_text w =
     (case w of
        JArr (v # _) \<Rightarrow> if v = JNull \<or> v = JUndef then Inl TypeError else Inr (js_to_string v)
      | JStr (c # _) \<Rightarrow> Inr [c]
      | _ \<Rightarrow> Inl TypeError)"

definition changeToMetaDataTableData :: "jsval obj \<Rightarrow> meta_row list res" where
  "changeToMetaDataTableData data =
     map_r (\<lambda>(key, value).
       bind_r (case value of
                 JArr xs \<Rightarrow> bind_r (map_r first_text xs) (\<lambda>vs. Inr (Some DEFAULT_VALUE_TYPE, vs))
               | _ \<Rightarrow> bind_r (js_prop value ''type'') (\<lambda>ty. bind_r (js_prop value ''values'') (\<lambda>vals.
                        bind_r (js_array vals) (\<lambda>xs. bind_r (map_r first_text xs) (\<lambda>vs.
                          Inr (case ty of JStr t \<Rightarrow> Some t | _ \<Rightarrow> None, vs))))))
         (\<lambda>(ty, vs). Inr \<lparr>mfield = key, mdescription = [], restrictDefinedValues = None, mvalues = vs, mvalueType = ty\<rparr>)) data"

record setting_item =
  skey :: string
  sdescription :: "string option"
  senum :: "string list option"

definition tableDataToMetaDataSettingJSON :: "meta_row list \<Rightarrow> setting_item list" where
  "tableDataToMetaDataSettingJSON rows =
     map (\<lambda>r. \<lparr>skey = mfield r, sdescription = Some (mdescription r), senum = Some (mvalues r)\<rparr>) rows"

definition row_of_setting :: "setting_item \<Rightarrow> meta_row" where
  "row_of_setting s =
     \<lparr>mfield = skey s, mdescription = (case sdescription s of None \<Rightarrow> [] | Some d \<Rightarrow> d),
      restrictDefinedValues = Some (Some (case senum s of None \<Rightarrow> False | Some vs \<Rightarrow> vs \<noteq> [])),
      mvalues = (case senum s of None \<Rightarrow> [] | Some vs \<Rightarrow> vs), mvalueType = Some DEFAULT_VALUE_TYPE\<rparr>"

record schema_setting =
  pdescription :: "string option"
  penum :: "string list option"
  itemsEnum :: "string list option"            \<comment> \<open>\<open>property.items?.enum\<close>\<close>

datatype settings = SettingList "setting_item list" | SettingSchema "(string \<times> schema_setting) list"

definition row_of_property :: "string \<times> schema_setting \<Rightarrow> meta_row" where
  "row_of_property kp =
     (let (key, property) = kp;
          vs = (case penum property of Some e \<Rightarrow> e | None \<Rightarrow> (case itemsEnum property of Some e \<Rightarrow> e | None \<Rightarrow> []))
      in \<lparr>mfield = key, mdescription = (case pdescription property of None \<Rightarrow> [] | Some d \<Rightarrow> d),
          restrictDefinedValues = Some (Some (vs \<noteq> [])), mvalues = vs, mvalueType = Some ''string''\<rparr>)"

definition metaDataSettingJSONToMetaDataTableData :: "settings option \<Rightarrow> meta_row list" where
  "metaDataSettingJSONToMetaDataTableData data =
     (case data of
        None \<Rightarrow> []
      | Some (SettingList items) \<Rightarrow> map row_of_setting items
      | Some (SettingSchema properties) \<Rightarrow> map row_of_property properties)"

section \<open>The operations to send\<close>

text \<open>An array value is compared by identity: the number stands for the object.\<close>

datatype op_value = OneValue string | ManyValues nat "string list"

fun same_value :: "op_value \<Rightarrow> op_value \<Rightarrow> bool" where
  "same_value (OneValue a) (OneValue b) = (a = b)"
| "same_value (ManyValues r _) (ManyValues r' _) = (r = r')"
| "same_value _ _ = False"

record delete_op =
  dkey :: string
  dvalue :: "string option"

record update_op =
  ukey :: string
  umatch :: "string option"
  uvalue :: op_value
  uvalueType :: "string option"

record operations =
  deletes :: "delete_op list"
  updates :: "update_op list"

definition no_operations :: operations where
  "no_operations = \<lparr>deletes = [], updates = []\<rparr>"

definition addDeleteRow :: "string \<Rightarrow> operations \<Rightarrow> operations" where
  "addDeleteRow key ops = ops\<lparr>deletes := deletes ops @ [\<lparr>dkey = key, dvalue = None\<rparr>]\<rparr>"

definition addDeleteBatch :: "string list \<Rightarrow> operations \<Rightarrow> operations" where
  "addDeleteBatch ks ops = ops\<lparr>deletes := deletes ops @ map (\<lambda>k. \<lparr>dkey = k, dvalue = None\<rparr>) ks\<rparr>"

definition addDeleteValue :: "string \<Rightarrow> string option \<Rightarrow> operations \<Rightarrow> operations" where
  "addDeleteValue key val ops = ops\<lparr>deletes := deletes ops @ [\<lparr>dkey = key, dvalue = val\<rparr>]\<rparr>"

definition new_value :: "op_value \<Rightarrow> string option \<Rightarrow> op_value" where
  \<comment> \<open>\<open>newValuesRes\<close>\<close>
  "new_value v ty =
     (if ty \<noteq> Some ''list'' then (case v of ManyValues r (x # _) \<Rightarrow> OneValue x | _ \<Rightarrow> v) else v)"

definition add_unique :: "update_op list \<Rightarrow> update_op \<Rightarrow> update_op list" where
  "add_unique pre cur =
     (if list_ex (\<lambda>item. ukey item = ukey cur \<and> umatch item = umatch cur \<and> same_value (uvalue item) (uvalue cur)) pre
      then pre else pre @ [cur])"

definition type_or_default :: "string option \<Rightarrow> string option" where
  \<comment> \<open>\<open>type || DEFAULT_VALUE_TYPE\<close>\<close>
  "type_or_default ty = (case ty of None \<Rightarrow> Some DEFAULT_VALUE_TYPE | Some t \<Rightarrow> if t = [] then Some DEFAULT_VALUE_TYPE else Some t)"

definition addUpdateValue :: "string \<Rightarrow> string option \<Rightarrow> op_value \<Rightarrow> string option \<Rightarrow> operations \<Rightarrow> operations" where
  "addUpdateValue key originalValue newValue ty ops =
     (let v = new_value newValue ty;
          entry = \<lparr>ukey = key, umatch = originalValue, uvalue = v, uvalueType = ty\<rparr>;
          us = (case find_index (\<lambda>u. ukey u = key \<and> umatch u = originalValue \<and> umatch u \<noteq> Some []) (updates ops) of
                  Some i \<Rightarrow> (updates ops)[i := entry\<lparr>uvalueType := type_or_default ty\<rparr>]
                | None \<Rightarrow> updates ops @ [entry])
      in ops\<lparr>updates := foldl add_unique [] us\<rparr>)"

section \<open>The table\<close>

record manage_state =
  tableData :: "meta_row list"
  mops :: operations

definition fetchTypeList :: "MetadataType list" where
  "fetchTypeList = [Manage, UpdateSingle]"

definition table_effect :: "MetadataType \<Rightarrow> meta_row list option \<Rightarrow> meta_row list option \<Rightarrow> manage_state \<Rightarrow> manage_state" where
  \<comment> \<open>the two effects: the fetched rows, or the rows passed in\<close>
  "table_effect ty data metaData st =
     (let rows = (if ty \<in> set fetchTypeList then data else metaData)
      in st\<lparr>tableData := (case rows of None \<Rightarrow> [] | Some r \<Rightarrow> r)\<rparr>)"

definition handleDeleteSingleValue :: "string \<Rightarrow> string \<Rightarrow> manage_state \<Rightarrow> manage_state" where
  "handleDeleteSingleValue fld val st =
     st\<lparr>mops := addDeleteValue fld (Some val) (mops st),
        tableData := map (\<lambda>r. if mfield r = fld then r\<lparr>mvalues := filter (\<lambda>v. v \<noteq> val) (mvalues r)\<rparr> else r) (tableData st)\<rparr>"

definition handleDeleteSingleRow :: "string \<Rightarrow> manage_state \<Rightarrow> manage_state" where
  "handleDeleteSingleRow fld st =
     st\<lparr>mops := addDeleteRow fld (mops st), tableData := filter (\<lambda>r. mfield r \<noteq> fld) (tableData st)\<rparr>"

definition handleDeleteBatchRow :: "string list \<Rightarrow> manage_state \<Rightarrow> manage_state" where
  "handleDeleteBatchRow flds st =
     st\<lparr>mops := addDeleteBatch flds (mops st), tableData := filter (\<lambda>r. mfield r \<notin> set flds) (tableData st)\<rparr>"

definition handleDeleteSelected :: "string list \<Rightarrow> manage_state \<Rightarrow> manage_state" where
  \<comment> \<open>\<open>handleDelete\<close> of \<open>useOperateData\<close>: the selected ids that are fields of the table\<close>
  "handleDeleteSelected selectedRowKeys st =
     handleDeleteBatchRow (filter (\<lambda>x. list_ex (\<lambda>r. mfield r = x) (tableData st)) selectedRowKeys) st"

text \<open>What saving sends, and what the table keeps when the server answers with code 0.\<close>

datatype save_request =
    UpdateMetaData operations
  | KbUpdateMetaData "setting_item list"
  | DocumentUpdateMetaData "setting_item list"

definition save_request_of :: "MetadataType \<Rightarrow> bool \<Rightarrow> manage_state \<Rightarrow> save_request option" where
  \<comment> \<open>\<open>handleSave\<close>; the flag tells whether \<open>otherData.documentId\<close> is there\<close>
  "save_request_of ty hasDocument st =
     (case ty of
        Setting \<Rightarrow> Some (KbUpdateMetaData (tableDataToMetaDataSettingJSON (tableData st)))
      | SingleFileSetting \<Rightarrow> if hasDocument then Some (DocumentUpdateMetaData (tableDataToMetaDataSettingJSON (tableData st))) else None
      | _ \<Rightarrow> Some (UpdateMetaData (mops st)))"

definition saved :: "MetadataType \<Rightarrow> manage_state \<Rightarrow> manage_state" where
  \<comment> \<open>\<open>resetOperations\<close> after \<open>handleSaveManage\<close>\<close>
  "saved ty st = (case ty of Setting \<Rightarrow> st | SingleFileSetting \<Rightarrow> st | _ \<Rightarrow> st\<lparr>mops := no_operations\<rparr>)"

definition saveEditedValue :: "string \<Rightarrow> string \<Rightarrow> string \<Rightarrow> manage_state \<Rightarrow> manage_state" where
  \<comment> \<open>a value edited in its cell: the field, the old and the new value\<close>
  "saveEditedValue fld old new st =
     st\<lparr>tableData := map (\<lambda>r. if mfield r = fld then r\<lparr>mvalues := map (\<lambda>v. if v = old then new else v) (mvalues r)\<rparr> else r) (tableData st)\<rparr>"

definition js_set :: "string list \<Rightarrow> string list" where
  \<comment> \<open>\<open>[...new Set(xs)]\<close>\<close>
  "js_set xs = foldl (\<lambda>acc x. set_add x acc) [] xs"

definition put_row :: "meta_row list \<Rightarrow> meta_row \<Rightarrow> meta_row list" where
  \<comment> \<open>one step of \<open>newData.forEach\<close>: the rows of \<open>fieldMap\<close>, in the order of their insertion; of \<open>...existingItem, ...item\<close>
     only an absent \<open>restrictDefinedValues\<close> comes from the existing row, the other properties are always there\<close>
  "put_row rows item =
     (case find (\<lambda>r. mfield r = mfield item) rows of
        None \<Rightarrow> rows @ [item]
      | Some ex \<Rightarrow>
          map (\<lambda>r. if mfield r = mfield item
                   then item\<lparr>mvalues := js_set (mvalues ex @ mvalues item),
                            restrictDefinedValues := (case restrictDefinedValues item of None \<Rightarrow> restrictDefinedValues ex | Some b \<Rightarrow> Some b)\<rparr>
                   else r) rows)"

definition handleSaveValues :: "nat \<Rightarrow> meta_row \<Rightarrow> meta_row list \<Rightarrow> meta_row list" where
  \<comment> \<open>\<open>currentValueIndex\<close>, the dialog's row, the rows of the table\<close>
  "handleSaveValues currentValueIndex data prev =
     (let newData = (if currentValueIndex \<ge> length prev then prev @ [data] else prev[currentValueIndex := data])
      in foldl put_row [] newData)"

section \<open>The dialog for the values of a field\<close>

record values_modal =
  vdata :: meta_row                \<comment> \<open>the prop \<open>data\<close>, the row as it was opened\<close>
  isAddValueMode :: bool
  existsKeys :: "string list"
  vmeta :: meta_row                \<comment> \<open>\<open>metaData\<close>\<close>
  tempValues :: "string list"
  fieldError :: string
  valuesError :: string
  shouldSave :: bool
  dialogOpen :: bool

definition typed_row :: "meta_row \<Rightarrow> meta_row" where
  "typed_row r = r\<lparr>mvalueType := type_or_default (mvalueType r)\<rparr>"

definition open_values :: "meta_row \<Rightarrow> bool \<Rightarrow> string list \<Rightarrow> values_modal" where
  \<comment> \<open>the initial state, and the effect on \<open>data\<close>\<close>
  "open_values data addMode ks =
     \<lparr>vdata = data, isAddValueMode = addMode, existsKeys = ks, vmeta = typed_row data, tempValues = mvalues data,
      fieldError = [], valuesError = [], shouldSave = False, dialogOpen = True\<rparr>"

datatype row_change =
    ChangeField string
  | ChangeValueType string
  | ChangeDescription string
  | ChangeRestrict bool
  | ChangeValues "string list"

fun apply_change :: "row_change \<Rightarrow> meta_row \<Rightarrow> meta_row" where
  "apply_change (ChangeField n) r = r\<lparr>mfield := n\<rparr>"
| "apply_change (ChangeValueType v) r =
     r\<lparr>mvalueType := Some (if v = [] then ''string'' else v),
       restrictDefinedValues := Some (case restrictDefinedValues r of None \<Rightarrow> None | Some b \<Rightarrow> b)\<rparr>"
| "apply_change (ChangeDescription d) r = r\<lparr>mdescription := d\<rparr>"
| "apply_change (ChangeRestrict b) r = r\<lparr>restrictDefinedValues := Some (Some b)\<rparr>"
| "apply_change (ChangeValues vs) r = r\<lparr>mvalues := vs\<rparr>"

definition handleChange :: "(string \<Rightarrow> string) \<Rightarrow> MetadataType \<Rightarrow> row_change \<Rightarrow> values_modal \<Rightarrow> values_modal" where
  "handleChange t ty ch vm =
     (let vm1 = (case ch of
                   ChangeField n \<Rightarrow> vm\<lparr>fieldError := if n \<in> set (existsKeys vm) then warnFieldName (MetadataDeleteMap t ty) else []\<rparr>
                 | _ \<Rightarrow> vm)
      in vm1\<lparr>vmeta := apply_change ch (vmeta vm1)\<rparr>)"

definition handleSaveDialog :: "MetadataType \<Rightarrow> nat \<Rightarrow> values_modal \<times> operations \<Rightarrow> values_modal \<times> operations" where
  \<comment> \<open>\<open>handleSave\<close> of the dialog; the number is the identity of the array \<open>metaData.values\<close>\<close>
  "handleSaveDialog ty ref st =
     (let (vm, ops) = st in
      if ty = Setting \<and> fieldError vm \<noteq> [] then st
      else (vm\<lparr>shouldSave := True\<rparr>,
            if isAddValueMode vm
            then addUpdateValue (mfield (vmeta vm)) None (ManyValues ref (mvalues (vmeta vm))) (mvalueType (vmeta vm)) ops
            else ops))"

definition saveTimeout :: "values_modal \<Rightarrow> values_modal \<times> meta_row option" where
  \<comment> \<open>the timer of the effect on \<open>shouldSave\<close>: the row handed to \<open>onSave\<close>; the dialog is closed\<close>
  "saveTimeout vm = (if shouldSave vm then (vm\<lparr>shouldSave := False, dialogOpen := False\<rparr>, Some (vmeta vm)) else (vm, None))"

definition blur_step :: "meta_row \<Rightarrow> string list \<Rightarrow> operations \<Rightarrow> nat \<times> string \<Rightarrow> operations" where
  \<comment> \<open>the callback of \<open>newValues.forEach\<close>: the row being edited, the values of \<open>data\<close>\<close>
  "blur_step row old ops iv =
     (let (i, newValue) = iv in
      if i < length old
      then (if old ! i \<noteq> newValue then addUpdateValue (mfield row) (Some (old ! i)) (OneValue newValue) (mvalueType row) ops else ops)
      else (if newValue \<noteq> [] then addUpdateValue (mfield row) (Some []) (OneValue newValue) (mvalueType row) ops else ops))"

definition handleValueBlur ::
    "(string \<Rightarrow> string) \<Rightarrow> MetadataType \<Rightarrow> string list option \<Rightarrow> values_modal \<times> operations \<Rightarrow> values_modal \<times> operations" where
  "handleValueBlur t ty vs st =
     (let (vm, ops) = st;
          newValues = (case vs of None \<Rightarrow> tempValues vm | Some w \<Rightarrow> w);
          old = mvalues (vdata vm);
          ops' = (if length old > 0 \<and> \<not> isAddValueMode vm then foldl (blur_step (vmeta vm) old) ops (enumerate 0 newValues) else ops)
      in (handleChange t ty (ChangeValues (js_set newValues)) vm, ops'))"

definition assign_at :: "nat \<Rightarrow> string \<Rightarrow> string list \<Rightarrow> string list" where
  \<comment> \<open>\<open>newValues[index] = value\<close> at an index of the list or just behind it\<close>
  "assign_at i v xs = (if i < length xs then xs[i := v] else xs @ [v])"

definition handleValueChange ::
    "(string \<Rightarrow> string) \<Rightarrow> MetadataType \<Rightarrow> nat \<Rightarrow> string \<Rightarrow> bool \<Rightarrow> values_modal \<times> operations \<Rightarrow> values_modal \<times> operations" where
  "handleValueChange t ty i v isUpdate st =
     (let (vm, ops) = st;
          vm1 = vm\<lparr>valuesError := if v \<in> set (tempValues vm) then warnValueName (MetadataDeleteMap t ty) else []\<rparr>;
          newValues = assign_at i v (tempValues vm);
          (vm2, ops2) = (if isUpdate then handleValueBlur t ty (Some newValues) (vm1, ops) else (vm1, ops))
      in (vm2\<lparr>tempValues := newValues\<rparr>, ops2))"

definition splice_one :: "nat \<Rightarrow> 'a list \<Rightarrow> 'a list" where
  "splice_one i xs = take i xs @ drop (Suc i) xs"

definition handleDelete :: "nat \<Rightarrow> values_modal \<times> operations \<Rightarrow> values_modal \<times> operations" where
  "handleDelete i st =
     (let (vm, ops) = st
      in (vm\<lparr>tempValues := splice_one i (tempValues vm),
             vmeta := (vmeta vm)\<lparr>mvalues := splice_one i (mvalues (vmeta vm))\<rparr>\<rparr>,
          addDeleteValue (mfield (vmeta vm)) (if i < length (tempValues vm) then Some (tempValues vm ! i) else None) ops))"

definition handleClearValues :: "bool \<Rightarrow> values_modal \<Rightarrow> values_modal" where
  "handleClearValues isClearInitialValues vm =
     (let vs = (if isClearInitialValues then [] else [[]])
      in vm\<lparr>tempValues := vs, vmeta := (vmeta vm)\<lparr>mvalues := vs\<rparr>\<rparr>)"

definition handleAddValue :: "values_modal \<Rightarrow> values_modal" where
  "handleAddValue vm =
     vm\<lparr>tempValues := js_set (tempValues vm @ [[]]), vmeta := (vmeta vm)\<lparr>mvalues := js_set (mvalues (vmeta vm) @ [[]])\<rparr>\<rparr>"

definition changeValueType :: "(string \<Rightarrow> string) \<Rightarrow> MetadataType \<Rightarrow> string \<Rightarrow> values_modal \<Rightarrow> values_modal" where
  \<comment> \<open>\<open>onChange\<close> of the type in \<open>manage-values-modal.tsx\<close>\<close>
  "changeValueType t ty v vm =
     (let vm1 = handleChange t ty (ChangeValueType v) vm;
          vm2 = (if ty = Manage \<or> ty = UpdateSingle then handleClearValues False vm1 else vm1)
      in if (ty = Setting \<or> ty = SingleFileSetting) \<and> v \<noteq> ''list'' \<and> v \<noteq> ''string''
         then handleClearValues True (handleChange t ty (ChangeRestrict False) vm2) else vm2)"

end
