(* ===== verification/Metadata_Claims.thy ===== *)
theory Metadata_Claims
  imports Metadata
begin

text \<open>
  What is stored of the edits in the metadata manager. The server's side is
  \<open>batch_update_metadata\<close> of \<open>api/db/services/doc_metadata_service.py\<close>: the metadata of one document is a
  map from fields to a string or a list of strings, to which the updates and then the deletes are applied.
\<close>

section \<open>The server\<close>

datatype py_value = PyStr string | PyList "string list"

type_synonym metadata = "string \<rightharpoonup> py_value"

definition dedupe_list :: "string list \<Rightarrow> string list" where
  "dedupe_list xs = foldl (\<lambda>seen x. if x \<in> set seen then seen else seen @ [x]) [] xs"

definition replace_match :: "string \<Rightarrow> string \<Rightarrow> string list \<Rightarrow> string list" where
  "replace_match m v xs = map (\<lambda>x. if x = m then v else x) xs"

definition apply_update :: "update_op \<Rightarrow> metadata \<Rightarrow> metadata option" where
  \<comment> \<open>one round of \<open>_apply_updates\<close>; no result when a list would be put into a list\<close>
  "apply_update u meta =
     (let key = ukey u; provided = (umatch u \<noteq> None \<and> umatch u \<noteq> Some []) in
      if key = [] then Some meta
      else case meta key of
        None \<Rightarrow>
          if provided then Some meta
          else Some (meta(key \<mapsto> (case uvalue u of OneValue v \<Rightarrow> PyStr v | ManyValues _ vs \<Rightarrow> PyList (dedupe_list vs))))
      | Some (PyList xs) \<Rightarrow>
          if \<not> provided
          then Some (meta(key \<mapsto> PyList (dedupe_list (xs @ (case uvalue u of OneValue v \<Rightarrow> [v] | ManyValues _ vs \<Rightarrow> vs)))))
          else if the (umatch u) \<in> set xs
          then (case uvalue u of
                  OneValue v \<Rightarrow> Some (meta(key \<mapsto> PyList (dedupe_list (replace_match (the (umatch u)) v xs))))
                | ManyValues _ _ \<Rightarrow> None)
          else Some meta
      | Some (PyStr x) \<Rightarrow>
          if \<not> provided \<or> umatch u = Some x
          then Some (meta(key \<mapsto> (case uvalue u of OneValue v \<Rightarrow> PyStr v | ManyValues _ vs \<Rightarrow> PyList vs)))
          else Some meta)"

definition apply_delete :: "delete_op \<Rightarrow> metadata \<Rightarrow> metadata" where
  \<comment> \<open>one round of \<open>_apply_deletes\<close>\<close>
  "apply_delete d meta =
     (let key = dkey d in
      if key = [] then meta
      else case meta key of
        None \<Rightarrow> meta
      | Some (PyList xs) \<Rightarrow>
          (case dvalue d of
             None \<Rightarrow> meta(key := None)
           | Some v \<Rightarrow>
               (let new_list = filter (\<lambda>x. x \<noteq> v) xs
                in if length new_list \<noteq> length xs
                   then (if new_list \<noteq> [] then meta(key \<mapsto> PyList new_list) else meta(key := None))
                   else meta))
      | Some (PyStr x) \<Rightarrow> if dvalue d = None \<or> dvalue d = Some x then meta(key := None) else meta)"

fun apply_updates :: "update_op list \<Rightarrow> metadata \<Rightarrow> metadata option" where
  "apply_updates [] meta = Some meta"
| "apply_updates (u # us) meta = (case apply_update u meta of None \<Rightarrow> None | Some m \<Rightarrow> apply_updates us m)"

definition batch_update_metadata :: "operations \<Rightarrow> metadata \<Rightarrow> metadata option" where
  "batch_update_metadata ops meta = map_option (fold apply_delete (deletes ops)) (apply_updates (updates ops) meta)"

section \<open>Deletions are stored as shown\<close>

definition values_at :: "meta_row list \<Rightarrow> string \<Rightarrow> string list" where
  "values_at rows k = (case find (\<lambda>r. mfield r = k) rows of None \<Rightarrow> [] | Some r \<Rightarrow> mvalues r)"

definition meta_values :: "metadata \<Rightarrow> string \<Rightarrow> string list" where
  "meta_values meta k = (case meta k of None \<Rightarrow> [] | Some (PyStr v) \<Rightarrow> [v] | Some (PyList xs) \<Rightarrow> xs)"

datatype table_edit = DeleteValue string string | DeleteRow string | DeleteRows "string list"

fun edit_table :: "manage_state \<Rightarrow> table_edit \<Rightarrow> manage_state" where
  "edit_table st (DeleteValue k v) = handleDeleteSingleValue k v st"
| "edit_table st (DeleteRow k) = handleDeleteSingleRow k st"
| "edit_table st (DeleteRows ks) = handleDeleteSelected ks st"

definition named :: "meta_row list \<Rightarrow> bool" where
  "named rows = list_all (\<lambda>r. mfield r \<noteq> []) rows"

lemma values_at_filter: "values_at (filter (\<lambda>r. P (mfield r)) rows) k = (if P k then values_at rows k else [])"
  by (induction rows) (auto simp: values_at_def)

lemma values_at_delete:
  "values_at (map (\<lambda>r. if mfield r = f then r\<lparr>mvalues := filter p (mvalues r)\<rparr> else r) rows) k =
     (if k = f then filter p (values_at rows k) else values_at rows k)"
  by (induction rows) (auto simp: values_at_def)

lemma filter_same_length:
  assumes "length (filter p xs) = length xs"
  shows "xs = filter p xs"
proof -
  have "p x" if "x \<in> set xs" for x
    using length_filter_less [OF that, of p] assms by auto
  then show ?thesis by simp
qed

lemma meta_values_delete:
  "meta_values (apply_delete \<lparr>dkey = f, dvalue = v\<rparr> meta) k =
     (if k = f \<and> f \<noteq> [] then (case v of None \<Rightarrow> [] | Some w \<Rightarrow> filter (\<lambda>x. x \<noteq> w) (meta_values meta k)) else meta_values meta k)"
proof (cases "meta f")
  case (Some p)
  then show ?thesis
  proof (cases p)
    case (PyList xs)
    show ?thesis using Some PyList
      by (auto simp: apply_delete_def meta_values_def Let_def split: option.split intro: filter_same_length)
  qed (auto simp: apply_delete_def meta_values_def Let_def split: option.split)
qed (auto simp: apply_delete_def meta_values_def Let_def split: option.split)

lemma meta_values_delete_rows:
  "meta_values (fold apply_delete (map (\<lambda>f. \<lparr>dkey = f, dvalue = None\<rparr>) fs) meta) k =
     (if k \<in> set fs \<and> k \<noteq> [] then [] else meta_values meta k)"
  by (induction fs arbitrary: meta) (auto simp: meta_values_delete)

lemma values_at_unnamed: "named rows \<Longrightarrow> values_at rows [] = []"
  by (induction rows) (auto simp: values_at_def named_def)

definition in_sync :: "metadata \<Rightarrow> manage_state \<Rightarrow> bool" where
  "in_sync meta st = (named (tableData st) \<and> updates (mops st) = []
     \<and> (\<forall>k. values_at (tableData st) k = meta_values (fold apply_delete (deletes (mops st)) meta) k))"

lemma edit_in_sync:
  assumes "in_sync meta st"
  shows "in_sync meta (edit_table st e)"
proof (cases e)
  case (DeleteValue f v)
  then show ?thesis using assms values_at_unnamed [of "tableData st"]
    by (auto simp: in_sync_def handleDeleteSingleValue_def addDeleteValue_def values_at_delete meta_values_delete named_def list_all_iff)
next
  case (DeleteRow f)
  then show ?thesis using assms values_at_unnamed [of "tableData st"] values_at_filter [of "\<lambda>g. g \<noteq> f" "tableData st"]
    by (auto simp: in_sync_def handleDeleteSingleRow_def addDeleteRow_def values_at_filter meta_values_delete named_def list_all_iff)
next
  case (DeleteRows fs)
  define gs where "gs = filter (\<lambda>x. list_ex (\<lambda>r. mfield r = x) (tableData st)) fs"
  have "edit_table st e = handleDeleteBatchRow gs st" by (simp add: DeleteRows handleDeleteSelected_def gs_def)
  then show ?thesis using assms values_at_unnamed [of "tableData st"] values_at_filter [of "\<lambda>f. f \<notin> set gs" "tableData st"]
    by (auto simp: in_sync_def handleDeleteBatchRow_def addDeleteBatch_def meta_values_delete_rows named_def list_all_iff)
qed

text \<open>
  C32: whatever values, rows and selections of rows are deleted in the table, saving makes the server keep
  for every field exactly the values the table shows.
\<close>

theorem metadata_deletes_saved:
  assumes "named rows" and "\<forall>k. values_at rows k = meta_values meta k"
  shows "let st = foldl edit_table \<lparr>tableData = rows, mops = no_operations\<rparr> es
     in \<exists>meta'. batch_update_metadata (mops st) meta = Some meta' \<and> (\<forall>k. values_at (tableData st) k = meta_values meta' k)"
proof -
  have "in_sync meta (foldl edit_table s es)" if "in_sync meta s" for s
    using that by (induction es arbitrary: s) (auto simp: edit_in_sync)
  moreover have "in_sync meta \<lparr>tableData = rows, mops = no_operations\<rparr>"
    using assms(1,2) by (simp add: in_sync_def no_operations_def)
  ultimately have "in_sync meta (foldl edit_table \<lparr>tableData = rows, mops = no_operations\<rparr> es)" by blast
  then show ?thesis by (simp add: in_sync_def batch_update_metadata_def Let_def)
qed

definition meta_example_rows :: "meta_row list" where
  "meta_example_rows =
     [\<lparr>mfield = ''tags'', mdescription = [], restrictDefinedValues = None, mvalues = [''a'', ''b'', ''c''], mvalueType = Some ''list''\<rparr>,
      \<lparr>mfield = ''author'', mdescription = [], restrictDefinedValues = None, mvalues = [''x''], mvalueType = Some ''string''\<rparr>]"

definition meta_example :: metadata where
  "meta_example = [''tags'' \<mapsto> PyList [''a'', ''b'', ''c''], ''author'' \<mapsto> PyStr ''x'']"

theorem metadata_deletes_saved_witness:
  "\<exists>meta'. batch_update_metadata
       (mops (foldl edit_table \<lparr>tableData = meta_example_rows, mops = no_operations\<rparr> [DeleteValue ''tags'' ''b'', DeleteRow ''author'']))
       meta_example = Some meta' \<and> meta_values meta' ''tags'' = [''a'', ''c''] \<and> meta_values meta' ''author'' = []"
proof -
  have "named meta_example_rows" "\<forall>k. values_at meta_example_rows k = meta_values meta_example k"
    by (simp_all add: named_def meta_example_rows_def meta_example_def values_at_def meta_values_def)
  note saved = metadata_deletes_saved [OF this, of "[DeleteValue ''tags'' ''b'', DeleteRow ''author'']", unfolded Let_def]
  have "values_at (tableData (foldl edit_table \<lparr>tableData = meta_example_rows, mops = no_operations\<rparr>
      [DeleteValue ''tags'' ''b'', DeleteRow ''author''])) k = (if k = ''tags'' then [''a'', ''c''] else [])" for k
    by (simp add: meta_example_rows_def values_at_def handleDeleteSingleValue_def handleDeleteSingleRow_def)
  then obtain meta' where "batch_update_metadata
       (mops (foldl edit_table \<lparr>tableData = meta_example_rows, mops = no_operations\<rparr> [DeleteValue ''tags'' ''b'', DeleteRow ''author'']))
       meta_example = Some meta'" "\<And>k. meta_values meta' k = (if k = ''tags'' then [''a'', ''c''] else [])"
    using saved by metis
  then show ?thesis by (intro exI [of _ meta']) simp
qed

section \<open>The dialog loses values\<close>

lemma add_unique_distinct:
  assumes "distinct (map umatch (acc @ us))"
  shows "foldl add_unique acc us = acc @ us"
  using assms
proof (induction us arbitrary: acc)
  case (Cons u us)
  have "\<not> list_ex (\<lambda>item. ukey item = ukey u \<and> umatch item = umatch u \<and> same_value (uvalue item) (uvalue u)) acc"
    using Cons.prems by (auto simp: list_ex_iff image_iff)
  then show ?case using Cons.IH [of "acc @ [u]"] Cons.prems by (simp add: add_unique_def)
qed simp

lemma addUpdateValue_new:
  assumes "distinct (map umatch (updates ops))" "Some m \<notin> umatch ` set (updates ops)"
  shows "addUpdateValue k (Some m) (OneValue v) ty ops =
     ops\<lparr>updates := updates ops @ [\<lparr>ukey = k, umatch = Some m, uvalue = OneValue v, uvalueType = ty\<rparr>]\<rparr>"
proof -
  have "find_index (\<lambda>u. ukey u = k \<and> umatch u = Some m \<and> umatch u \<noteq> Some []) (updates ops) = None"
    using assms(2) by (force simp: find_index_None)
  moreover have "new_value (OneValue v) ty = OneValue v" by (simp add: new_value_def)
  ultimately show ?thesis
    using assms add_unique_distinct [of "[]" "updates ops @ [\<lparr>ukey = k, umatch = Some m, uvalue = OneValue v, uvalueType = ty\<rparr>]"]
    by (simp add: addUpdateValue_def Let_def)
qed

definition shift_update :: "meta_row \<Rightarrow> string list \<Rightarrow> nat \<Rightarrow> update_op" where
  "shift_update row ys i = \<lparr>ukey = mfield row, umatch = Some (ys ! i), uvalue = OneValue (ys ! Suc i), uvalueType = mvalueType row\<rparr>"

lemma blur_shifted:
  assumes "distinct ys" and "n < length ys" and "updates ops = []"
  shows "foldl (blur_step row ys) ops (enumerate 0 (take n (tl ys))) = ops\<lparr>updates := map (shift_update row ys) [0..<n]\<rparr>"
  using assms(2)
proof (induction n)
  case 0
  then show ?case using assms(3) by simp
next
  case (Suc n)
  have tl: "take (Suc n) (tl ys) = take n (tl ys) @ [ys ! Suc n]"
    using Suc.prems by (simp add: take_Suc_conv_app_nth nth_tl)
  have len: "length (take n (tl ys)) = n" using Suc.prems by simp
  have ne: "ys ! n \<noteq> ys ! Suc n" using assms(1) Suc.prems by (simp add: nth_eq_iff_index_eq)
  have d: "distinct (map umatch (map (shift_update row ys) [0..<n]))"
    using assms(1) Suc.prems by (auto simp: distinct_conv_nth shift_update_def nth_eq_iff_index_eq)
  have f: "Some (ys ! n) \<notin> umatch ` set (map (shift_update row ys) [0..<n])"
    using assms(1) Suc.prems by (auto simp: shift_update_def nth_eq_iff_index_eq)
  have "foldl (blur_step row ys) ops (enumerate 0 (take (Suc n) (tl ys))) =
      blur_step row ys (ops\<lparr>updates := map (shift_update row ys) [0..<n]\<rparr>) (n, ys ! Suc n)"
    using Suc.IH Suc.prems by (simp add: tl enumerate_append_eq len)
  also have "\<dots> = ops\<lparr>updates := map (shift_update row ys) [0..<Suc n]\<rparr>"
    using ne Suc.prems addUpdateValue_new [of "ops\<lparr>updates := map (shift_update row ys) [0..<n]\<rparr>" "ys ! n"] d f
    by (simp add: blur_step_def shift_update_def)
  finally show ?case .
qed

lemma dedupe_distinct: "distinct (acc @ xs) \<Longrightarrow> foldl (\<lambda>seen x. if x \<in> set seen then seen else seen @ [x]) acc xs = acc @ xs"
  by (induction xs arbitrary: acc) auto

lemma dedupe_twice: "distinct (y # zs) \<Longrightarrow> dedupe_list (y # y # zs) = y # zs"
  using dedupe_distinct [of "[y]" zs] by (simp add: dedupe_list_def)

lemma apply_shift:
  assumes "distinct ys" "Suc n < length ys" "mfield row \<noteq> []" "[] \<notin> set ys"
    and "meta (mfield row) = Some (PyList (drop n ys))"
  shows "apply_update (shift_update row ys n) meta = Some (meta(mfield row \<mapsto> PyList (drop (Suc n) ys)))"
proof -
  have d: "drop n ys = ys ! n # ys ! Suc n # drop (Suc (Suc n)) ys"
    using assms(2) by (metis Cons_nth_drop_Suc Suc_lessD)
  have dist: "distinct (drop n ys)" using assms(1) by simp
  have "ys ! n \<noteq> []" using assms(2,4) by (metis Suc_lessD nth_mem)
  moreover have "replace_match (ys ! n) (ys ! Suc n) (drop n ys) = ys ! Suc n # ys ! Suc n # drop (Suc (Suc n)) ys"
    using dist unfolding d by (auto simp: replace_match_def intro: map_idI)
  moreover have "dedupe_list (ys ! Suc n # ys ! Suc n # drop (Suc (Suc n)) ys) = ys ! Suc n # drop (Suc (Suc n)) ys"
    using dist unfolding d by (intro dedupe_twice) simp
  moreover have "ys ! Suc n # drop (Suc (Suc n)) ys = drop (Suc n) ys" using assms(2) by (rule Cons_nth_drop_Suc)
  moreover have "ys ! n \<in> set (drop n ys)" by (simp add: d)
  ultimately show ?thesis using assms(3,5) by (simp add: apply_update_def shift_update_def)
qed

lemma apply_updates_append:
  "apply_updates (us @ vs) meta = (case apply_updates us meta of None \<Rightarrow> None | Some m \<Rightarrow> apply_updates vs m)"
  by (induction us arbitrary: meta) (auto split: option.split)

lemma apply_shifts:
  assumes "distinct ys" "n < length ys" "mfield row \<noteq> []" "[] \<notin> set ys" "meta (mfield row) = Some (PyList ys)"
  shows "apply_updates (map (shift_update row ys) [0..<n]) meta = Some (meta(mfield row \<mapsto> PyList (drop n ys)))"
  using assms(2)
proof (induction n)
  case 0
  then show ?case using assms(5) by (simp add: fun_upd_idem)
next
  case (Suc n)
  let ?m = "meta(mfield row \<mapsto> PyList (drop n ys))"
  have "apply_updates (map (shift_update row ys) [0..<n]) meta = Some ?m" using Suc.IH Suc.prems by (simp only: Suc_lessD)
  then have "apply_updates (map (shift_update row ys) [0..<Suc n]) meta = apply_updates [shift_update row ys n] ?m"
    by (simp only: upt_Suc_append [OF le0] map_append list.map apply_updates_append option.case)
  also have "\<dots> = Some (?m(mfield row \<mapsto> PyList (drop (Suc n) ys)))"
    using apply_shift [of ys n row ?m] assms Suc.prems by simp
  finally show ?case by (auto simp: fun_eq_iff)
qed

text \<open>
  Removing the first of the values of a field in the dialog and then leaving an input shifts the
  remaining values against the values the dialog was opened with, so that each is sent as a renaming of
  the one before it: the dialog shows the remaining values, but of them the server keeps only the last.
\<close>

theorem blur_after_delete_loses_values:
  assumes "mvalues row = x # xs" "xs \<noteq> []" "distinct (x # xs)" "[] \<notin> set (x # xs)" "mfield row \<noteq> []"
    and "meta (mfield row) = Some (PyList (x # xs))"
  shows "let (vm, ops) = handleValueBlur t ty None (handleDelete 0 (open_values row False ks, no_operations))
     in mvalues (vmeta vm) = xs \<and> batch_update_metadata ops meta = Some (meta(mfield row \<mapsto> PyList [last xs]))"
proof -
  define ys where "ys = x # xs"
  define vm where "vm = (open_values row False ks)\<lparr>tempValues := xs, vmeta := (typed_row row)\<lparr>mvalues := xs\<rparr>\<rparr>"
  define ops0 where "ops0 = \<lparr>deletes = [\<lparr>dkey = mfield row, dvalue = Some x\<rparr>], updates = []\<rparr>"
  have del: "handleDelete 0 (open_values row False ks, no_operations) = (vm, ops0)"
    using assms(1) by (simp add: handleDelete_def open_values_def vm_def ops0_def no_operations_def addDeleteValue_def splice_one_def typed_row_def)
  let ?r = "(typed_row row)\<lparr>mvalues := xs\<rparr>"
  have "foldl (blur_step ?r ys) ops0 (enumerate 0 xs) = ops0\<lparr>updates := map (shift_update ?r ys) [0..<length xs]\<rparr>"
    using blur_shifted [of ys "length xs" ops0 ?r] assms(3) by (simp add: ys_def ops0_def)
  moreover have "handleValueBlur t ty None (vm, ops0) =
      (handleChange t ty (ChangeValues (js_set xs)) vm, foldl (blur_step ?r ys) ops0 (enumerate 0 xs))"
    using assms(1) by (simp add: handleValueBlur_def vm_def open_values_def ys_def)
  moreover have "js_set xs = xs"
    using dedupe_distinct [of "[]" xs] assms(3) by (simp add: js_set_def set_add_def)
  moreover have "apply_updates (map (shift_update ?r ys) [0..<length xs]) meta = Some (meta(mfield row \<mapsto> PyList [last xs]))"
  proof -
    have "mfield ?r = mfield row" by (simp add: typed_row_def)
    moreover have "drop (length xs) ys = [last xs]" using assms(2)
      by (metis append_butlast_last_id append_eq_conv_conj length_Cons length_append_singleton length_butlast last_ConsR
          diff_Suc_1 list.distinct(1) ys_def)
    ultimately show ?thesis using apply_shifts [of ys "length xs" ?r meta] assms(3-6) by (simp add: ys_def)
  qed
  moreover have "last xs \<noteq> x" using assms(2,3) by (metis distinct.simps(2) last_in_set)
  ultimately show ?thesis using assms(5)
    by (simp add: del handleChange_def batch_update_metadata_def ops0_def apply_delete_def Let_def vm_def)
qed

theorem blur_after_delete_loses_values_witness:
  "batch_update_metadata (snd (handleValueBlur (\<lambda>k. k) UpdateSingle None
       (handleDelete 0 (open_values (hd meta_example_rows) False [], no_operations)))) meta_example =
     Some (meta_example(''tags'' \<mapsto> PyList [''c'']))"
proof -
  let ?r = "hd meta_example_rows"
  have r: "mvalues ?r = ''a'' # [''b'', ''c'']" "mfield ?r = ''tags''" by (simp_all add: meta_example_rows_def)
  have "meta_example (mfield ?r) = Some (PyList (''a'' # [''b'', ''c'']))" by (simp add: meta_example_def r)
  then show ?thesis
    using blur_after_delete_loses_values [OF r(1), of meta_example "\<lambda>k. k" UpdateSingle "[]"] by (simp add: r(2) split_def Let_def)
qed

section \<open>Saving the dialog's row\<close>

lemma set_js_set: "set (foldl (\<lambda>acc x. set_add x acc) acc xs) = set acc \<union> set xs"
  by (induction xs arbitrary: acc) auto

lemma put_row_fields:
  "map mfield (put_row rows item) = (if mfield item \<in> mfield ` set rows then map mfield rows else map mfield rows @ [mfield item])"
proof (cases "find (\<lambda>r. mfield r = mfield item) rows")
  case None
  then have "mfield item \<notin> mfield ` set rows" by (auto simp: find_None_iff)
  then show ?thesis by (simp add: put_row_def None)
next
  case (Some ex)
  then have "mfield item \<in> mfield ` set rows" using find_Some_in [OF Some] by (metis imageI)
  then show ?thesis by (simp add: put_row_def Some comp_def)
qed

lemma put_row_values:
  "set (values_at (put_row rows item) f) = set (values_at rows f) \<union> (if f = mfield item then set (mvalues item) else {})"
proof (cases "find (\<lambda>r. mfield r = mfield item) rows")
  case None
  then have "values_at (rows @ [item]) f = (if f = mfield item then mvalues item else values_at rows f)"
    by (induction rows) (auto simp: values_at_def)
  moreover have "values_at rows (mfield item) = []" using None by (simp add: values_at_def)
  ultimately show ?thesis using None by (simp add: put_row_def)
next
  case (Some ex)
  define new where "new = (\<lambda>r. if mfield r = mfield item
      then item\<lparr>mvalues := js_set (mvalues ex @ mvalues item),
                restrictDefinedValues := (case restrictDefinedValues item of None \<Rightarrow> restrictDefinedValues ex | Some b \<Rightarrow> Some b)\<rparr> else r)"
  have "find (\<lambda>r. mfield r = f) (map new rows) = map_option new (find (\<lambda>r. mfield r = f) rows)"
    by (induction rows) (auto simp: new_def)
  moreover have "put_row rows item = map new rows" using Some by (simp add: put_row_def new_def)
  ultimately have v: "values_at (put_row rows item) f = (case find (\<lambda>r. mfield r = f) rows of None \<Rightarrow> [] | Some r \<Rightarrow> mvalues (new r))"
    by (simp add: values_at_def option.case_eq_if option.map_sel)
  show ?thesis
  proof (cases "find (\<lambda>r. mfield r = f) rows")
    case None
    then show ?thesis using v Some by (auto simp: values_at_def)
  next
    case (Some r)
    then have "mfield r = f" using find_Some_in [OF Some] by simp
    then show ?thesis using v Some \<open>find (\<lambda>r. mfield r = mfield item) rows = Some ex\<close>
      by (cases "f = mfield item") (auto simp: values_at_def new_def js_set_def set_js_set)
  qed
qed

lemma put_rows:
  shows "distinct (map mfield acc) \<Longrightarrow> distinct (map mfield (foldl put_row acc rows))"
    "set (values_at (foldl put_row acc rows) f) = set (values_at acc f) \<union> \<Union> (set ` mvalues ` {r \<in> set rows. mfield r = f})"
    "distinct (map mfield (acc @ rows)) \<Longrightarrow> foldl put_row acc rows = acc @ rows"
proof (induction rows arbitrary: acc)
  case (Cons r rows)
  {
    case 1
    have "distinct (map mfield (put_row acc r))" using 1 by (auto simp: put_row_fields)
    then show ?case using Cons.IH(1) [of "put_row acc r"] by simp
  next
    case 2
    show ?case using Cons.IH(2) [of "put_row acc r"] by (auto simp: put_row_values)
  next
    case 3
    then have "mfield r \<notin> mfield ` set acc" by auto
    then have "find (\<lambda>x. mfield x = mfield r) acc = None" by (auto simp: find_None_iff image_iff)
    then have "put_row acc r = acc @ [r]" by (simp add: put_row_def)
    then show ?case using Cons.IH(3) [of "acc @ [r]"] 3 by simp
  }
qed simp_all

text \<open>
  Putting the dialog's row back leaves one row per field, and no value is lost: a field has exactly
  the values of the rows that carried its name. Without a clash of names the row is just put in its place,
  or at the end when it is new.
\<close>

theorem save_values_merges:
  "let newData = (if i \<ge> length prev then prev @ [data] else prev[i := data])
   in distinct (map mfield (handleSaveValues i data prev))
     \<and> (\<forall>f. set (values_at (handleSaveValues i data prev) f) = \<Union> (set ` mvalues ` {r \<in> set newData. mfield r = f}))
     \<and> (distinct (map mfield newData) \<longrightarrow> handleSaveValues i data prev = newData)"
proof -
  define newData where "newData = (if i \<ge> length prev then prev @ [data] else prev[i := data])"
  show ?thesis
    unfolding handleSaveValues_def Let_def newData_def [symmetric]
    using put_rows(1) [of "[]" newData] put_rows(2) [of "[]" newData] put_rows(3) [of "[]" newData]
    by (simp add: values_at_def [of "[]"])
qed

theorem save_values_merges_witness:
  "handleSaveValues 1 (hd meta_example_rows\<lparr>mfield := ''topics''\<rparr>) meta_example_rows =
     meta_example_rows[1 := hd meta_example_rows\<lparr>mfield := ''topics''\<rparr>]
   \<and> set (values_at (handleSaveValues 1 (hd meta_example_rows) meta_example_rows) ''tags'') = {''a'', ''b'', ''c''}"
proof
  show "handleSaveValues 1 (hd meta_example_rows\<lparr>mfield := ''topics''\<rparr>) meta_example_rows =
      meta_example_rows[1 := hd meta_example_rows\<lparr>mfield := ''topics''\<rparr>]"
    using save_values_merges [where i = 1 and prev = meta_example_rows and data = "hd meta_example_rows\<lparr>mfield := ''topics''\<rparr>"]
    by (simp add: Let_def meta_example_rows_def)
  have "{r \<in> set (meta_example_rows[1 := hd meta_example_rows]). mfield r = ''tags''} = {hd meta_example_rows}"
    by (auto simp: meta_example_rows_def)
  then show "set (values_at (handleSaveValues 1 (hd meta_example_rows) meta_example_rows) ''tags'') = {''a'', ''b'', ''c''}"
    using save_values_merges [where i = 1 and prev = meta_example_rows and data = "hd meta_example_rows"]
    by (simp add: Let_def meta_example_rows_def)
qed

section \<open>Settings\<close>

text \<open>
  Settings that are saved and read again have the same fields, descriptions and values; but every field
  comes back with the type \<open>string\<close>, whatever type was chosen, since the type is not saved.
\<close>

theorem settings_lose_type:
  "metaDataSettingJSONToMetaDataTableData (Some (SettingList (tableDataToMetaDataSettingJSON rows))) =
     map (\<lambda>r. r\<lparr>restrictDefinedValues := Some (Some (mvalues r \<noteq> [])), mvalueType := Some ''string''\<rparr>) rows"
  by (simp add: metaDataSettingJSONToMetaDataTableData_def tableDataToMetaDataSettingJSON_def row_of_setting_def DEFAULT_VALUE_TYPE_def)

lemma map_same_iff: "map f xs = xs \<longleftrightarrow> (\<forall>x\<in>set xs. f x = x)"
  by (induction xs) auto

text \<open>A value edited in its cell changes the table, but not what is sent when the table is saved.\<close>

theorem cell_edit_not_sent:
  assumes "r \<in> set (tableData st)" "old \<in> set (mvalues r)" "old \<noteq> new"
  shows "tableData (saveEditedValue (mfield r) old new st) \<noteq> tableData st
     \<and> save_request_of Manage d (saveEditedValue (mfield r) old new st) = save_request_of Manage d st"
proof -
  let ?f = "\<lambda>x. if mfield x = mfield r then x\<lparr>mvalues := map (\<lambda>v. if v = old then new else v) (mvalues x)\<rparr> else x"
  have "map (\<lambda>v. if v = old then new else v) (mvalues r) \<noteq> mvalues r"
    using assms(2,3) unfolding map_same_iff by auto
  then have "mvalues (?f r) \<noteq> mvalues r" by simp
  then have "?f r \<noteq> r" by (rule contrapos_nn) (rule arg_cong)
  then have "map ?f (tableData st) \<noteq> tableData st" using assms(1) unfolding map_same_iff by blast
  then show ?thesis by (simp add: saveEditedValue_def save_request_of_def)
qed

end
