(* ===== verification/Page_Lists.thy ===== *)
theory Page_Lists
  imports Js_Prelude
begin

text \<open>
  What the list pages share: the parameters of the URL and the pagination kept in them
  (\<open>hooks/route-hook.ts\<close>, \<open>hooks/logic-hooks.ts\<close>), pagination, search and selection in the client
  (\<open>use-pagination.ts\<close>, \<open>use-client-search.ts\<close>, \<open>use-row-selection.ts\<close>), and the filters
  (\<open>components/list-filter-bar\<close>, \<open>pages/dataset/dataset/use-select-filters.ts\<close>).
\<close>

section \<open>URL parameters and pagination\<close>

text \<open>\<open>URLSearchParams\<close>: entries in order; \<open>set\<close> changes the first entry and deletes the others.\<close>

type_synonym url_params = "(string \<times> string) list"

fun params_set :: "string \<Rightarrow> string \<Rightarrow> url_params \<Rightarrow> url_params" where
  "params_set k v [] = [(k, v)]"
| "params_set k v (p # ps) = (if fst p = k then (k, v) # filter (\<lambda>q. fst q \<noteq> k) ps else p # params_set k v ps)"

lemma params_get_set [simp]: "map_of (params_set k v ps) k' = (if k' = k then Some v else map_of ps k')"
proof (induction ps)
  case (Cons p ps)
  have "map_of (filter (\<lambda>q. fst q \<noteq> k) ps) k' = map_of ps k'" if "k' \<noteq> k" using that by (induction ps) auto
  with Cons show ?case by auto
qed simp

definition number_or :: "string option \<Rightarrow> int \<Rightarrow> jsnum" where
  \<comment> \<open>\<open>Number(params.get(k)) || d\<close>; \<open>Number(null)\<close> is 0\<close>
  "number_or s d = (let n = (case s of None \<Rightarrow> Fin 0 | Some t \<Rightarrow> num_of_string t) in if n = Fin 0 \<or> n = NaN then int_num d else n)"

definition page_param :: "url_params \<Rightarrow> jsnum" where
  "page_param ps = number_or (map_of ps ''page'') 1"

definition size_param :: "url_params \<Rightarrow> jsnum" where
  "size_param ps = number_or (map_of ps ''size'') 50"

definition setPaginationParams :: "int option \<Rightarrow> int option \<Rightarrow> url_params \<Rightarrow> url_params" where
  "setPaginationParams page pageSize ps =
     (let ps1 = params_set ''page'' (int_to_string (case page of None \<Rightarrow> 1 | Some p \<Rightarrow> p)) ps in
      case pageSize of
        Some n \<Rightarrow> if n = 0 then ps1 else params_set ''size'' (int_to_string n) ps1
      | None \<Rightarrow> ps1)"

definition setCurrentPagination :: "int \<Rightarrow> int option \<Rightarrow> url_params \<Rightarrow> url_params" where
  "setCurrentPagination page pageSize ps =
     (let page = (if (case pageSize of None \<Rightarrow> True | Some n \<Rightarrow> int_num n \<noteq> size_param ps) then 1 else page) in
      setPaginationParams (Some page) pageSize ps)"

definition onPageChange :: "int \<Rightarrow> int option \<Rightarrow> url_params \<Rightarrow> url_params" where
  "onPageChange pageNumber pageSize ps = setPaginationParams (Some pageNumber) pageSize ps"

definition js_slice :: "int \<Rightarrow> int \<Rightarrow> 'a list \<Rightarrow> 'a list" where
  \<comment> \<open>\<open>xs.slice(a, b)\<close>\<close>
  "js_slice a b xs =
     (let n = int (length xs); clip = (\<lambda>i. if i < 0 then max 0 (n + i) else min n i) in
      take (nat (clip b - clip a)) (drop (nat (clip a)) xs))"

definition pagedList :: "int \<Rightarrow> int \<Rightarrow> 'a list \<Rightarrow> 'a list" where
  "pagedList page pageSize xs = js_slice ((page - 1) * pageSize) (page * pageSize) xs"

section \<open>Search and selection\<close>

definition clientSearch :: "string \<Rightarrow> ('a \<Rightarrow> string) list \<Rightarrow> 'a list \<Rightarrow> 'a list" where
  \<comment> \<open>the search fields as functions; a property is \<open>String(item[field] ?? '')\<close>\<close>
  "clientSearch keyword fields xs =
     (if js_trim keyword = [] then xs
      else let k = js_trim (toLowerCase keyword) in
           filter (\<lambda>item. list_ex (\<lambda>field. includes_str (toLowerCase (field item)) k) fields) xs)"

definition selectedIds :: "bool obj \<Rightarrow> ('a \<Rightarrow> string) \<Rightarrow> 'a list \<Rightarrow> string list" where
  "selectedIds rowSelection id_of xs =
     map (id_of \<circ> snd) (filter (\<lambda>(idx, x). list_ex (\<lambda>y. num_of_string y = int_num (int idx)) (keys rowSelection)) (enumerate 0 xs))"

definition selectedCount :: "bool obj \<Rightarrow> nat" where
  "selectedCount rowSelection = length (keys rowSelection)"

section \<open>Filters\<close>

datatype filter_type = Filter
  (flt_id: "string option")        \<comment> \<open>a collection has a field instead of an id\<close>
  (flt_label: string)
  (flt_count: "int option")
  (flt_list: "filter_type list option")

record filter_collection =
  col_field :: string
  col_label :: string
  col_list :: "filter_type list option"
  col_canSearch :: bool

datatype filter_value = Ids "string list" | Group "(string \<times> filter_value) list"

fun getFilterIds :: "filter_type \<Rightarrow> string option list" where
  "getFilterIds (Filter i l c None) = [i]"
| "getFilterIds (Filter i l c (Some fs)) = concat (map getFilterIds fs)"

definition defined_ids :: "string option list \<Rightarrow> string list" where
  \<comment> \<open>an undefined id is never among the selected ones\<close>
  "defined_ids ids = List.map_filter id ids"

fun mergeFilterValue :: "string option list \<Rightarrow> filter_value \<Rightarrow> filter_value" where
  "mergeFilterValue ids (Ids xs) = Ids (filter (\<lambda>x. x \<in> set xs) (defined_ids ids))"
| "mergeFilterValue ids (Group g) = Group (map (\<lambda>(k, v). (k, mergeFilterValue ids v)) g)"

definition valid_fields :: "filter_collection list \<Rightarrow> string option list" where
  "valid_fields filters = concat (map (\<lambda>c. getFilterIds (Filter None (col_label c) None (col_list c))) filters)"

definition checkValue :: "filter_collection list \<Rightarrow> filter_value \<Rightarrow> filter_value" where
  "checkValue filters v =
     (if filters = [] \<or> valid_fields filters = [] then v else mergeFilterValue (valid_fields filters) v)"

definition handleFilterSubmit :: "filter_value \<Rightarrow> url_params \<Rightarrow> filter_value \<times> url_params" where
  "handleFilterSubmit v ps = (v, setCurrentPagination 1 None ps)"

fun filterNestedList :: "filter_type list \<Rightarrow> string \<Rightarrow> filter_type list" where
  "filterNestedList l searchTerm =
     (if searchTerm = [] then l
      else let term = toLowerCase searchTerm in
           filter (\<lambda>item. case item of Filter i label c sub \<Rightarrow>
             includes_str (toLowerCase label) term
             \<or> includes_str (toLowerCase (case i of None \<Rightarrow> [] | Some x \<Rightarrow> x)) term
             \<or> (case sub of None \<Rightarrow> False | Some fs \<Rightarrow> fs \<noteq> [] \<and> filterNestedList fs searchTerm \<noteq> [])) l)"

definition getFilteredFilters :: "string obj \<Rightarrow> filter_collection list \<Rightarrow> filter_collection list" where
  "getFilteredFilters searchTerms cs =
     map (\<lambda>c. case map_of searchTerms (col_field c) of
          Some t \<Rightarrow> if col_canSearch c \<and> t \<noteq> [] then c\<lparr>col_list := map_option (\<lambda>l. filterNestedList l t) (col_list c)\<rparr> else c
        | None \<Rightarrow> c) cs"

definition has_nested :: "filter_collection \<Rightarrow> bool" where
  "has_nested c = (case col_list c of None \<Rightarrow> False | Some l \<Rightarrow> list_ex (\<lambda>x. case flt_list x of None \<Rightarrow> False | Some fs \<Rightarrow> fs \<noteq> []) l)"

definition fieldsDict :: "filter_collection list \<Rightarrow> filter_value" where
  "fieldsDict filters = Group (foldl (\<lambda>pre c. obj_put (col_field c) (if has_nested c then Group [] else Ids []) pre) [] filters)"

definition handleCheckChange :: "bool \<Rightarrow> string \<Rightarrow> filter_value option \<Rightarrow> filter_value" where
  "handleCheckChange checked i value =
     (let xs = (case value of Some (Ids l) \<Rightarrow> l | _ \<Rightarrow> []) in Ids (if checked then xs @ [i] else filter (\<lambda>x. x \<noteq> i) xs))"

definition value_length :: "filter_value \<Rightarrow> jsnum" where
  \<comment> \<open>\<open>cur.length\<close>, which is \<open>undefined\<close> for an object and makes the sum \<open>NaN\<close>\<close>
  "value_length v = (case v of Ids xs \<Rightarrow> int_num (int (length xs)) | Group _ \<Rightarrow> NaN)"

definition filterCount :: "filter_value \<Rightarrow> jsnum" where
  "filterCount v =
     (case v of Ids _ \<Rightarrow> Fin 0
      | Group g \<Rightarrow> foldl (\<lambda>pre (k, cur). case cur of
            Ids xs \<Rightarrow> num_add pre (int_num (int (length xs)))
          | Group h \<Rightarrow> num_add pre (foldl (\<lambda>p (k, c). num_add p (value_length c)) (Fin 0) h)) (Fin 0) g)"

subsection \<open>The filters of a dataset\<close>

definition upper_char :: "char \<Rightarrow> string" where
  "upper_char c = (let n = (of_char c :: nat) in
     if 97 \<le> n \<and> n \<le> 122 \<or> 224 \<le> n \<and> n \<le> 254 \<and> n \<noteq> 247 then [char_of (n - 32)] else if n = 223 then ''SS'' else [c])"

definition toUpperCase :: "string \<Rightarrow> string" where
  "toUpperCase s = concat (map upper_char s)"

definition EMPTY_METADATA_FIELD :: string where
  "EMPTY_METADATA_FIELD = ''empty_metadata''"

record document_filter =
  df_suffix :: "(int obj) option"
  df_run_status :: "(int obj) option"
  df_metadata :: "((int obj) obj) option"

definition fileTypes :: "document_filter \<Rightarrow> filter_type list option" where
  "fileTypes f = map_option (map (\<lambda>(x, n). Filter (Some x) (toUpperCase x) (Some n) None)) (df_suffix f)"

definition fileStatus :: "(string \<Rightarrow> string) \<Rightarrow> document_filter \<Rightarrow> filter_type list" where
  "fileStatus t f =
     (case df_run_status f of None \<Rightarrow> [] | Some st \<Rightarrow> map (\<lambda>(x, n). Filter (Some x) (t (''runningStatus'' @ x)) (Some n) None) st)
     @ (case df_metadata f of None \<Rightarrow> []
        | Some md \<Rightarrow> (case map_of md EMPTY_METADATA_FIELD of None \<Rightarrow> []
            | Some e \<Rightarrow> [Filter (Some EMPTY_METADATA_FIELD) (t ''emptyMetadata'') (map_of e ''true'') None]))"

definition metaDataList :: "document_filter \<Rightarrow> filter_type list option" where
  "metaDataList f =
     map_option (\<lambda>md. map (\<lambda>(x, vs). Filter (Some x) x (Some (sum_list (map snd vs)))
         (Some (map (\<lambda>(y, n). Filter (Some y) y (Some n) None) vs)))
       (filter (\<lambda>(m, _). m \<noteq> EMPTY_METADATA_FIELD) md)) (df_metadata f)"

definition dataset_filters :: "(string \<Rightarrow> string) \<Rightarrow> document_filter \<Rightarrow> filter_collection list" where
  "dataset_filters t f =
     [\<lparr>col_field = ''type'', col_label = ''File Type'', col_list = fileTypes f, col_canSearch = False\<rparr>,
      \<lparr>col_field = ''run'', col_label = ''Status'', col_list = Some (fileStatus t f), col_canSearch = False\<rparr>,
      \<lparr>col_field = ''metadata'', col_label = ''Metadata field'', col_list = metaDataList f, col_canSearch = True\<rparr>]"

section \<open>Pages\<close>

lemma js_slice_nat: "js_slice (int a) (int b) xs = take (b - a) (drop a xs)"
proof (cases "a \<le> length xs")
  case True
  then have "nat (min (int (length xs)) (int b) - int a) = min (length xs) b - a" by (auto simp: min_def nat_diff_distrib')
  then show ?thesis using True by (auto simp: js_slice_def Let_def min_def)
next
  case False
  then show ?thesis by (simp add: js_slice_def Let_def)
qed

lemma pagedList_nat: "pagedList (int (Suc p)) (int n) xs = take n (drop (p * n) xs)"
proof -
  have "(int (Suc p) - 1) * int n = int (p * n)" "int (Suc p) * int n = int (Suc p * n)" by (simp_all add: algebra_simps)
  then have "pagedList (int (Suc p)) (int n) xs = js_slice (int (p * n)) (int (Suc p * n)) xs" unfolding pagedList_def by (simp only:)
  also have "\<dots> = take n (drop (p * n) xs)" unfolding js_slice_nat by simp
  finally show ?thesis .
qed

text \<open>
  The pages of a list show every element exactly once and in order: the first \<open>k\<close> pages are the first
  \<open>k\<close> times \<open>n\<close> elements, and the whole list when there are enough of them; no page has more than \<open>n\<close> elements.
\<close>

theorem pages_partition:
  fixes n k :: nat
  shows "concat (map (\<lambda>p. pagedList (int (Suc p)) (int n) xs) [0..<k]) = take (k * n) xs
     \<and> (length xs \<le> k * n \<longrightarrow> concat (map (\<lambda>p. pagedList (int (Suc p)) (int n) xs) [0..<k]) = xs)
     \<and> length (pagedList (int (Suc p)) (int n) xs) \<le> n"
proof -
  have "concat (map (\<lambda>p. pagedList (int (Suc p)) (int n) xs) [0..<k]) = take (k * n) xs"
  proof (induction k)
    case (Suc k)
    have "take (Suc k * n) xs = take (k * n) xs @ take n (drop (k * n) xs)" by (simp add: take_add add.commute [of n])
    then show ?case using Suc by (simp add: pagedList_nat del: of_nat_Suc)
  qed simp
  then show ?thesis by (simp add: pagedList_nat del: of_nat_Suc)
qed

theorem pages_partition_witness:
  "concat (map (\<lambda>p. pagedList (int (Suc p)) (int 2) [1, 2, 3, 4, 5 :: nat]) [0..<3]) = [1, 2, 3, 4, 5]"
  using pages_partition [where n = 2 and k = 3 and xs = "[1, 2, 3, 4, 5 :: nat]"] by simp

text \<open>
  The page and the size that are written to the URL are read back, and no other parameter changes. A change of the
  page that does not name the size always leads to the first page, since the missing size differs from the
  current one.
\<close>

theorem pagination_roundtrip:
  assumes "0 < page" and "0 < n"
  shows "page_param (setPaginationParams (Some page) (Some n) ps) = int_num page
     \<and> size_param (setPaginationParams (Some page) (Some n) ps) = int_num n
     \<and> (k \<noteq> ''page'' \<longrightarrow> k \<noteq> ''size'' \<longrightarrow> map_of (setPaginationParams (Some page) (Some n) ps) k = map_of ps k)"
  using assms by (simp add: page_param_def size_param_def setPaginationParams_def number_or_def num_of_int_to_string Let_def)

theorem page_without_size_is_first: "page_param (setCurrentPagination page None ps) = int_num 1"
  using num_of_int_to_string [of 1]
  by (simp add: page_param_def setCurrentPagination_def setPaginationParams_def number_or_def Let_def)

section \<open>Searching a tree of filters\<close>

fun nodes_of :: "filter_type \<Rightarrow> filter_type list" where
  "nodes_of (Filter i l c None) = [Filter i l c None]"
| "nodes_of (Filter i l c (Some fs)) = Filter i l c (Some fs) # concat (map nodes_of fs)"

definition node_matches :: "string \<Rightarrow> filter_type \<Rightarrow> bool" where
  "node_matches t x = (includes_str (toLowerCase (flt_label x)) (toLowerCase t)
     \<or> includes_str (toLowerCase (case flt_id x of None \<Rightarrow> [] | Some i \<Rightarrow> i)) (toLowerCase t))"

text \<open>
  The search in the filters keeps exactly those entries that match themselves or have a match
  anywhere below them, with their whole subtree.
\<close>

theorem filter_search_exact:
  assumes "t \<noteq> []"
  shows "filterNestedList l t = filter (\<lambda>x. \<exists>y\<in>set (nodes_of x). node_matches t y) l"
  using assms
proof (induction l t rule: filterNestedList.induct)
  case (1 l t)
  have *: "(case x of Filter i label c sub \<Rightarrow> includes_str (toLowerCase label) (toLowerCase t)
             \<or> includes_str (toLowerCase (case i of None \<Rightarrow> [] | Some x \<Rightarrow> x)) (toLowerCase t)
             \<or> (case sub of None \<Rightarrow> False | Some fs \<Rightarrow> fs \<noteq> [] \<and> filterNestedList fs t \<noteq> []))
      \<longleftrightarrow> (\<exists>y\<in>set (nodes_of x). node_matches t y)" if "x \<in> set l" for x
  proof (cases x rule: nodes_of.cases)
    case (1 i lab c)
    then show ?thesis by (simp add: node_matches_def)
  next
    case (2 i lab c fs)
    have "filterNestedList fs t = filter (\<lambda>x. \<exists>y\<in>set (nodes_of x). node_matches t y) fs"
      using "1.IH" [OF "1.prems" refl that 2 refl "1.prems"] .
    then have "fs \<noteq> [] \<and> filterNestedList fs t \<noteq> [] \<longleftrightarrow> (\<exists>z\<in>set fs. \<exists>y\<in>set (nodes_of z). node_matches t y)"
      by (auto simp: filter_empty_conv simp del: filterNestedList.simps)
    then show ?thesis by (simp add: 2 node_matches_def del: filterNestedList.simps)
  qed
  show ?case by (subst filterNestedList.simps) (simp add: "1.prems" * Let_def cong: filter_cong del: filterNestedList.simps)
qed

definition sample_filters :: "filter_type list" where
  "sample_filters = [Filter (Some ''author'') ''author'' (Some 2) (Some [Filter (Some ''Ann'') ''Ann'' (Some 2) None]),
     Filter (Some ''year'') ''year'' (Some 1) (Some [Filter (Some ''1999'') ''1999'' (Some 1) None])]"

theorem filter_search_exact_witness: "filterNestedList sample_filters ''ANN'' = [hd sample_filters]"
proof -
  have "filter (\<lambda>x. \<exists>y\<in>set (nodes_of x). node_matches ''ANN'' y) sample_filters = [hd sample_filters]" by code_simp
  then show ?thesis using filter_search_exact [of "''ANN''" sample_filters] by simp
qed

section \<open>Checking a selection against the filters on offer\<close>

fun value_at :: "string list \<Rightarrow> filter_value \<Rightarrow> string list option" where
  "value_at [] (Ids xs) = Some xs"
| "value_at (k # ks) (Group g) = (case map_of g k of None \<Rightarrow> None | Some v \<Rightarrow> value_at ks v)"
| "value_at _ _ = None"

lemma value_at_merge:
  "value_at ks (mergeFilterValue ids v) =
     map_option (\<lambda>xs. filter (\<lambda>x. x \<in> set xs) (defined_ids ids)) (value_at ks v)"
proof (induction ks v rule: value_at.induct)
  case (2 k ks g)
  have "map_of (map (\<lambda>(k, v). (k, mergeFilterValue ids v)) g) k = map_option (mergeFilterValue ids) (map_of g k)"
    by (induction g) auto
  with 2 show ?case by (auto split: option.split)
qed simp_all

lemma count_selected:
  "count_list (filter (\<lambda>x. x \<in> set xs) (defined_ids ids)) x = (if x \<in> set xs then count_list ids (Some x) else 0)"
  by (induction ids) (auto simp: defined_ids_def List.map_filter_simps split: option.split)

text \<open>
  After the check, a group of the selection has a value as often as the value is offered by all
  filters together, if it was selected, and not at all otherwise. So values that are no longer offered
  anywhere are dropped and checking twice changes nothing; but a value offered under two
  filters is doubled, and one that is offered under another filter only is kept.
\<close>

theorem filter_check_exact:
  assumes "valid_fields filters \<noteq> []" and "value_at ks v = Some xs"
  shows "\<exists>ys. value_at ks (checkValue filters v) = Some ys
     \<and> (\<forall>x. count_list ys x = (if x \<in> set xs then count_list (valid_fields filters) (Some x) else 0))
     \<and> value_at ks (checkValue filters (checkValue filters v)) = Some ys"
proof -
  have c: "checkValue filters w = mergeFilterValue (valid_fields filters) w" for w
    using assms(1) by (auto simp: checkValue_def valid_fields_def)
  show ?thesis using assms(2) by (auto simp: c value_at_merge count_selected intro: filter_cong)
qed

definition two_fields :: "filter_collection list" where
  "two_fields = dataset_filters id \<lparr>df_suffix = Some [], df_run_status = Some [(''1'', 4)],
     df_metadata = Some [(''volume'', [(''1'', 2)]), (''issue'', [(''1'', 3)])]\<rparr>"

theorem filter_check_exact_witness:
  "\<exists>ys. value_at [''run''] (checkValue two_fields (Group [(''run'', Ids [''1'', ''3''])])) = Some ys \<and> count_list ys ''1'' = 3 \<and> count_list ys ''3'' = 0"
proof -
  have "valid_fields two_fields \<noteq> []" "value_at [''run''] (Group [(''run'', Ids [''1'', ''3''])]) = Some [''1'', ''3'']"
    "count_list (valid_fields two_fields) (Some ''1'') = 3" "count_list (valid_fields two_fields) (Some ''3'') = 0" by code_simp+
  with filter_check_exact [of two_fields "[''run'']" "Group [(''run'', Ids [''1'', ''3''])]"] show ?thesis by force
qed

text \<open>Checking a box adds its id once, and unchecking it restores the selection.\<close>

theorem check_uncheck: "i \<notin> set xs \<Longrightarrow> handleCheckChange False i (Some (handleCheckChange True i (Some (Ids xs)))) = Ids xs"
  by (auto simp: handleCheckChange_def filter_id_conv)

text \<open>Every row that is selected by its index is found, each once and in the order of the list.\<close>

theorem selected_ids_exact:
  assumes "keys sel = map (int_to_string \<circ> int) is"
  shows "selectedIds sel f xs = map (\<lambda>i. f (xs ! i)) (filter (\<lambda>i. i \<in> set is) [0..<length xs])"
proof -
  have "list_ex (\<lambda>y. num_of_string y = int_num (int i)) (keys sel) \<longleftrightarrow> i \<in> set is" for i
    by (simp add: assms list_ex_iff num_of_int_to_string image_iff)
  moreover have "enumerate 0 xs = map (\<lambda>i. (i, xs ! i)) [0..<length xs]" by (simp add: enumerate_map_upt [symmetric] map_nth)
  ultimately show ?thesis by (simp add: selectedIds_def filter_map comp_def)
qed

end
