(* ===== verification/File_Upload.thy ===== *)
theory File_Upload
  imports Js_Prelude "HOL-Library.AList"
begin

text \<open>
  The file upload widget, \<open>components/file-upload.tsx\<close>: the store and its reducer, the admission of files,
  the upload, the handlers of the drop zone, and the preview URLs.

  A file is an object and is compared by identity, the number \<open>file_ref\<close>. The map from files to their states
  keeps the order of insertion. Callbacks of the client and the object URLs that are released are effects, listed
  in the order in which they happen.
\<close>

section \<open>Files and the store\<close>

record upload_file =
  file_ref :: nat
  file_name :: string
  file_type :: string
  file_size :: nat

datatype file_status = IdleFile | UploadingFile | ErrorFile | SuccessFile

record file_state =
  fs_file :: upload_file
  fs_progress :: jsnum
  fs_error :: "string option"
  fs_status :: file_status

record store_state =
  st_files :: "(nat \<times> file_state) list"
  st_dragOver :: bool
  st_invalid :: bool
  st_urlCache :: "(nat \<times> string) list"

datatype store_action =
    ADD_FILES "upload_file list"
  | SET_FILES "upload_file list"
  | SET_PROGRESS upload_file jsnum
  | SET_SUCCESS upload_file
  | SET_ERROR upload_file string
  | REMOVE_FILE upload_file
  | SET_DRAG_OVER bool
  | SET_INVALID bool
  | CLEAR

datatype upload_effect =
    ValueChange "upload_file list"
  | Rejected upload_file string
  | AcceptAll "upload_file list"
  | Accepted upload_file
  | Revoked string
  | StartUpload "upload_file list"      \<comment> \<open>in the next animation frame\<close>
  | ResetInvalid                        \<comment> \<open>after two seconds\<close>

definition idle_file :: "upload_file \<Rightarrow> file_state" where
  "idle_file f = \<lparr>fs_file = f, fs_progress = Fin 0, fs_error = None, fs_status = IdleFile\<rparr>"

definition file_list :: "store_state \<Rightarrow> upload_file list" where
  "file_list s = map (fs_file \<circ> snd) (st_files s)"

definition change_file :: "upload_file \<Rightarrow> (file_state \<Rightarrow> file_state) \<Rightarrow> store_state \<Rightarrow> store_state" where
  "change_file f g s =
     (case map_of (st_files s) (file_ref f) of
        None \<Rightarrow> s
      | Some x \<Rightarrow> s\<lparr>st_files := AList.update (file_ref f) (g x) (st_files s)\<rparr>)"

definition value_change :: "bool \<Rightarrow> store_state \<Rightarrow> upload_effect list" where
  \<comment> \<open>whether the client has passed \<open>onValueChange\<close>\<close>
  "value_change cb s = (if cb then [ValueChange (file_list s)] else [])"

definition cached_urls :: "nat list \<Rightarrow> store_state \<Rightarrow> string list" where
  "cached_urls fs s = concat (map (\<lambda>f. case map_of (st_urlCache s) f of None \<Rightarrow> [] | Some u \<Rightarrow> if u = [] then [] else [u]) fs)"

definition drop_urls :: "nat list \<Rightarrow> store_state \<Rightarrow> store_state" where
  "drop_urls fs s = s\<lparr>st_urlCache := filter (\<lambda>(f, u). f \<notin> set fs \<or> u = []) (st_urlCache s)\<rparr>"

fun reducer :: "bool \<Rightarrow> store_action \<Rightarrow> store_state \<Rightarrow> store_state \<times> upload_effect list" where
  "reducer cb (ADD_FILES fs) s =
     (let s1 = s\<lparr>st_files := foldl (\<lambda>m f. AList.update (file_ref f) (idle_file f) m) (st_files s) fs\<rparr>
      in (s1, value_change cb s1))"
| "reducer cb (SET_FILES fs) s =
     (let kept = filter (\<lambda>(k, _). k \<in> file_ref ` set fs) (st_files s) in
      (s\<lparr>st_files := foldl (\<lambda>m f. if map_of m (file_ref f) = None then AList.update (file_ref f) (idle_file f) m else m) kept fs\<rparr>, []))"
| "reducer cb (SET_PROGRESS f p) s = (change_file f (\<lambda>x. x\<lparr>fs_progress := p, fs_status := UploadingFile\<rparr>) s, [])"
| "reducer cb (SET_SUCCESS f) s = (change_file f (\<lambda>x. x\<lparr>fs_progress := Fin 100, fs_status := SuccessFile\<rparr>) s, [])"
| "reducer cb (SET_ERROR f e) s = (change_file f (\<lambda>x. x\<lparr>fs_error := Some e, fs_status := ErrorFile\<rparr>) s, [])"
| "reducer cb (REMOVE_FILE f) s =
     (let urls = map Revoked (cached_urls [file_ref f] s);
          s1 = (drop_urls [file_ref f] s)\<lparr>st_files := AList.delete (file_ref f) (st_files s)\<rparr>
      in (s1, urls @ value_change cb s1))"
| "reducer cb (SET_DRAG_OVER b) s = (s\<lparr>st_dragOver := b\<rparr>, [])"
| "reducer cb (SET_INVALID b) s = (s\<lparr>st_invalid := b\<rparr>, [])"
| "reducer cb CLEAR s =
     (let urls = map Revoked (cached_urls (map fst (st_files s)) s);
          s1 = (drop_urls (map fst (st_files s)) s)\<lparr>st_files := [], st_invalid := False\<rparr>
      in (s1, urls @ value_change cb s1))"

fun dispatch_all :: "bool \<Rightarrow> store_action list \<Rightarrow> store_state \<Rightarrow> store_state \<times> upload_effect list" where
  "dispatch_all cb [] s = (s, [])"
| "dispatch_all cb (a # as) s =
     (case reducer cb a s of (s1, e1) \<Rightarrow> case dispatch_all cb as s1 of (s2, e2) \<Rightarrow> (s2, e1 @ e2))"

section \<open>Admission\<close>

record upload_config =
  up_disabled :: bool
  up_controlled :: bool                                  \<comment> \<open>\<open>value\<close> is given\<close>
  up_onValueChange :: bool
  up_onUpload :: bool
  up_onAccept :: bool
  up_maxFiles :: "int option"
  up_maxSize :: "int option"
  up_accept :: "string option"
  up_validate :: "(upload_file \<Rightarrow> string option) option"  \<comment> \<open>\<open>onFileValidate\<close>\<close>

definition acceptTypes :: "upload_config \<Rightarrow> string list option" where
  "acceptTypes c = map_option (\<lambda>a. map js_trim (js_split (CHR '','') a)) (up_accept c)"

fun replace_first :: "string \<Rightarrow> string \<Rightarrow> string \<Rightarrow> string" where
  "replace_first p r [] = (if p = [] then r else [])"
| "replace_first p r (x # xs) =
     (if starts_with (x # xs) p then r @ drop (length p) (x # xs) else x # replace_first p r xs)"

definition type_accepted :: "upload_file \<Rightarrow> string \<Rightarrow> bool" where
  "type_accepted f type =
     (type = file_type f \<or> type = CHR ''.'' # last (js_split (CHR ''.'') (file_name f))
      \<or> includes_str type ''/*'' \<and> starts_with (file_type f) (replace_first ''/*'' ''/'' type))"

definition validation_message :: "upload_config \<Rightarrow> upload_file \<Rightarrow> string" where
  \<comment> \<open>the empty string when there is no validation or it passes\<close>
  "validation_message c f = (case up_validate c of None \<Rightarrow> [] | Some v \<Rightarrow> (case v f of None \<Rightarrow> [] | Some msg \<Rightarrow> msg))"

definition js_limit :: "int option \<Rightarrow> int option" where
  \<comment> \<open>zero is falsy\<close>
  "js_limit n = (case n of Some k \<Rightarrow> if k = 0 then None else Some k | None \<Rightarrow> None)"

definition rejections :: "upload_config \<Rightarrow> upload_file \<Rightarrow> string list" where
  \<comment> \<open>the messages with which the loop rejects a file, none if it is accepted\<close>
  "rejections c f =
     (if validation_message c f \<noteq> [] then [validation_message c f]
      else (case acceptTypes c of None \<Rightarrow> []
            | Some types \<Rightarrow> if list_ex (type_accepted f) types then [] else [''File type not accepted''])
         @ (case js_limit (up_maxSize c) of None \<Rightarrow> []
            | Some n \<Rightarrow> if int (file_size f) > n then [''File too large''] else []))"

fun admit :: "upload_config \<Rightarrow> upload_file list \<Rightarrow> upload_file list \<times> upload_effect list" where
  "admit c [] = ([], [])"
| "admit c (f # fs) =
     (case admit c fs of (ok, es) \<Rightarrow>
        (if rejections c f = [] then (f # ok, es) else (ok, map (Rejected f) (rejections c f) @ es)))"

definition slots :: "upload_config \<Rightarrow> store_state \<Rightarrow> upload_file list \<Rightarrow> nat" where
  \<comment> \<open>how many of the files are processed\<close>
  "slots c s fs =
     (case js_limit (up_maxFiles c) of None \<Rightarrow> length fs
      | Some n \<Rightarrow> min (length fs) (nat (max 0 (n - int (length (st_files s))))))"

definition limit_message :: "upload_config \<Rightarrow> upload_file \<Rightarrow> string" where
  "limit_message c f =
     (if validation_message c f \<noteq> [] then validation_message c f
      else ''Maximum '' @ (case up_maxFiles c of None \<Rightarrow> ''undefined'' | Some n \<Rightarrow> int_to_string n) @ '' files allowed'')"

definition onFilesChange :: "upload_config \<Rightarrow> upload_file list \<Rightarrow> store_state \<Rightarrow> store_state \<times> upload_effect list" where
  "onFilesChange c fs s =
     (if up_disabled c then (s, [])
      else let over = map (\<lambda>f. Rejected f (limit_message c f)) (drop (slots c s fs) fs);
               (accepted, rejected) = admit c (take (slots c s fs) fs);
               invalid = (over \<noteq> [] \<or> rejected \<noteq> []);
               (s1, e1) = (if invalid then reducer (up_onValueChange c) (SET_INVALID True) s else (s, []));
               (s2, e2) = (if accepted = [] then (s1, []) else reducer (up_onValueChange c) (ADD_FILES accepted) s1);
               e3 = (if accepted = [] then []
                     else (if up_controlled c then value_change (up_onValueChange c) s2 else [])
                       @ (if up_onAccept c then [AcceptAll accepted] else []) @ map Accepted accepted
                       @ (if up_onUpload c then [StartUpload accepted] else []))
           in (s2, over @ rejected @ (if invalid then ResetInvalid # e1 else []) @ e2 @ e3))"

section \<open>Uploading\<close>

text \<open>
  The client's \<open>onUpload\<close> reports progress, success and errors in some order and may throw at the end. Progress
  is put off to the next animation frame, for one report at a time: what is reported while a frame is pending is
  dropped.
\<close>

datatype upload_report = Progress upload_file jsnum | Succeeded upload_file | Failed upload_file "string option" | Frame

definition clamp :: "jsnum \<Rightarrow> jsnum" where
  \<comment> \<open>\<open>Math.min(Math.max(0, progress), 100)\<close>\<close>
  "clamp p = (case p of NaN \<Rightarrow> NaN | _ \<Rightarrow> if p \<le> Fin 0 then Fin 0 else if Fin 100 \<le> p then Fin 100 else p)"

type_synonym upload_run = "store_state \<times> (upload_file \<times> jsnum) option"   \<comment> \<open>the pending frame\<close>

fun report :: "upload_report \<Rightarrow> upload_run \<Rightarrow> upload_run" where
  "report (Progress f p) (s, None) = (s, Some (f, clamp p))"
| "report (Progress f p) (s, Some x) = (s, Some x)"
| "report (Succeeded f) (s, frame) = (fst (reducer False (SET_SUCCESS f) s), frame)"
| "report (Failed f msg) (s, frame) =
     (fst (reducer False (SET_ERROR f (case msg of None \<Rightarrow> ''Upload failed'' | Some m \<Rightarrow> m)) s), frame)"
| "report Frame (s, None) = (s, None)"
| "report Frame (s, Some (f, p)) = (fst (reducer False (SET_PROGRESS f p) s), None)"

definition onFilesUpload :: "upload_config \<Rightarrow> upload_file list \<Rightarrow> upload_report list \<Rightarrow> string option \<Rightarrow> upload_run \<Rightarrow> upload_run" where
  \<comment> \<open>the reports of the client, and the message of the exception it throws, if any\<close>
  "onFilesUpload c fs reports thrown r =
     (let r1 = (fst (dispatch_all False (map (\<lambda>f. SET_PROGRESS f (Fin 0)) fs) (fst r)), snd r) in
      if up_onUpload c
      then let r2 = fold report reports r1 in
           (case thrown of None \<Rightarrow> r2
            | Some m \<Rightarrow> (fst (dispatch_all False (map (\<lambda>f. SET_ERROR f m) fs) (fst r2)), snd r2))
      else (fst (dispatch_all False (map SET_SUCCESS fs) (fst r1)), snd r1))"

section \<open>The drop zone and the items\<close>

record drag_event =
  default_prevented :: bool
  stays_inside :: bool           \<comment> \<open>\<open>relatedTarget\<close> is a node inside the drop zone\<close>

definition onDragOver :: "bool \<Rightarrow> drag_event \<Rightarrow> store_state \<Rightarrow> store_state \<times> upload_effect list" where
  \<comment> \<open>also \<open>onDragEnter\<close>\<close>
  "onDragOver cb ev s = (if default_prevented ev then (s, []) else reducer cb (SET_DRAG_OVER True) s)"

definition onDragLeave :: "bool \<Rightarrow> drag_event \<Rightarrow> store_state \<Rightarrow> store_state \<times> upload_effect list" where
  "onDragLeave cb ev s = (if default_prevented ev \<or> stays_inside ev then (s, []) else reducer cb (SET_DRAG_OVER False) s)"

definition onDrop :: "upload_config \<Rightarrow> drag_event \<Rightarrow> upload_file list \<Rightarrow> store_state \<Rightarrow> store_state \<times> upload_effect list" where
  \<comment> \<open>the input element exists while the widget is mounted; its change event runs \<open>onFilesChange\<close>\<close>
  "onDrop c ev fs s =
     (if default_prevented ev then (s, [])
      else onFilesChange c fs (fst (reducer (up_onValueChange c) (SET_DRAG_OVER False) s)))"

definition onPaste :: "upload_config \<Rightarrow> drag_event \<Rightarrow> upload_file option list option \<Rightarrow> store_state \<Rightarrow> store_state \<times> upload_effect list" where
  \<comment> \<open>the items of the clipboard, \<open>None\<close> for one that is not a file\<close>
  "onPaste c ev items s =
     (if default_prevented ev then (s, [])
      else let s1 = fst (reducer (up_onValueChange c) (SET_DRAG_OVER False) s) in
           case items of None \<Rightarrow> (s1, [])
           | Some is \<Rightarrow> let fs = List.map_filter id is in if fs = [] then (s1, []) else onFilesChange c fs s1)"

definition value_effect :: "upload_config \<Rightarrow> upload_file list option \<Rightarrow> upload_file list option \<Rightarrow> store_state \<Rightarrow> store_state" where
  \<comment> \<open>the effect on \<open>value\<close> and \<open>defaultValue\<close>\<close>
  "value_effect c value defaultValue s =
     (case value of Some fs \<Rightarrow> fst (reducer (up_onValueChange c) (SET_FILES fs) s)
      | None \<Rightarrow> (case defaultValue of
          Some fs \<Rightarrow> if fs \<noteq> [] \<and> st_files s = [] then fst (reducer (up_onValueChange c) (SET_FILES fs) s) else s
        | None \<Rightarrow> s))"

definition statusText :: "file_state \<Rightarrow> string" where
  "statusText x =
     (case fs_error x of
        Some (c # cs) \<Rightarrow> ''Error: '' @ c # cs
      | _ \<Rightarrow> (case fs_status x of
          UploadingFile \<Rightarrow> ''Uploading: '' @ num_to_string (fs_progress x) @ ''% complete''
        | SuccessFile \<Rightarrow> ''Upload complete'' | _ \<Rightarrow> ''Ready to upload''))"

definition fileIndex :: "upload_file \<Rightarrow> store_state \<Rightarrow> nat" where
  "fileIndex f s = (case find_index (\<lambda>k. k = file_ref f) (map fst (st_files s)) of None \<Rightarrow> 0 | Some i \<Rightarrow> i + 1)"

definition onPreviewRender :: "upload_file \<Rightarrow> string \<Rightarrow> store_state \<Rightarrow> store_state" where
  \<comment> \<open>without a \<open>render\<close> of the client; a new object URL is an argument\<close>
  "onPreviewRender f url s =
     (if starts_with (file_type f) ''image/'' \<and> (case map_of (st_urlCache s) (file_ref f) of None \<Rightarrow> True | Some u \<Rightarrow> u = [])
      then s\<lparr>st_urlCache := AList.update (file_ref f) url (st_urlCache s)\<rparr> else s)"

definition unmount :: "store_state \<Rightarrow> upload_effect list" where
  "unmount s = map Revoked (cached_urls (map fst (st_files s)) s)"

section \<open>The invariant of the store\<close>

definition shown_progress :: "jsnum \<Rightarrow> bool" where
  "shown_progress p = (p = NaN \<or> Fin 0 \<le> p \<and> p \<le> Fin 100)"

definition entry_ok :: "nat \<times> file_state \<Rightarrow> bool" where
  "entry_ok kx = (file_ref (fs_file (snd kx)) = fst kx \<and> shown_progress (fs_progress (snd kx)))"

definition store_ok :: "store_state \<Rightarrow> bool" where
  "store_ok s = (distinct (map fst (st_files s)) \<and> list_all entry_ok (st_files s))"

lemma clamp_shown: "shown_progress (clamp p)"
  by (cases p) (auto simp: clamp_def shown_progress_def)

lemma set_update_subset: "set (AList.update k v xs) \<subseteq> insert (k, v) (set xs)"
  by (induction xs) auto

lemma length_update: "length (AList.update k v xs) = (if k \<in> fst ` set xs then length xs else Suc (length xs))"
  by (induction xs) auto

lemma update_ok:
  assumes "distinct (map fst m)" "list_all entry_ok m" "entry_ok (k, v)"
  shows "distinct (map fst (AList.update k v m)) \<and> list_all entry_ok (AList.update k v m)"
  using assms set_update_subset [of k v m] by (auto simp: distinct_update list_all_iff)

lemma idle_ok: "entry_ok (file_ref f, idle_file f)"
  by (simp add: entry_ok_def idle_file_def shown_progress_def)

lemma change_file_ok:
  assumes "store_ok s" and "\<And>x. entry_ok (file_ref f, x) \<Longrightarrow> entry_ok (file_ref f, g x)"
  shows "store_ok (change_file f g s)" "length (st_files (change_file f g s)) = length (st_files s)"
proof -
  have "entry_ok (file_ref f, x)" if "map_of (st_files s) (file_ref f) = Some x" for x
    using assms(1) map_of_SomeD [OF that] by (auto simp: store_ok_def list_all_iff)
  then show "store_ok (change_file f g s)"
    using assms update_ok [of "st_files s" "file_ref f"] by (auto simp: change_file_def store_ok_def split: option.split)
  show "length (st_files (change_file f g s)) = length (st_files s)"
  proof (cases "map_of (st_files s) (file_ref f)")
    case (Some x)
    then have "file_ref f \<in> fst ` set (st_files s)" using map_of_SomeD [OF Some] by (metis fst_conv imageI)
    then show ?thesis by (simp add: change_file_def Some length_update)
  qed (simp add: change_file_def)
qed

lemma add_files_ok:
  assumes "distinct (map fst m)" "list_all entry_ok m"
  shows "distinct (map fst (foldl (\<lambda>m f. AList.update (file_ref f) (idle_file f) m) m fs))
    \<and> list_all entry_ok (foldl (\<lambda>m f. AList.update (file_ref f) (idle_file f) m) m fs)
    \<and> length (foldl (\<lambda>m f. AList.update (file_ref f) (idle_file f) m) m fs) \<le> length m + length fs"
  using assms
proof (induction fs arbitrary: m)
  case (Cons f fs)
  then show ?case using Cons.IH [of "AList.update (file_ref f) (idle_file f) m"] update_ok [OF Cons.prems idle_ok, of f]
    by (auto simp: length_update split: if_splits)
qed simp

lemma set_files_ok:
  assumes "distinct (map fst m)" "list_all entry_ok m"
  shows "distinct (map fst (foldl (\<lambda>m f. if map_of m (file_ref f) = None then AList.update (file_ref f) (idle_file f) m else m) m fs))
    \<and> list_all entry_ok (foldl (\<lambda>m f. if map_of m (file_ref f) = None then AList.update (file_ref f) (idle_file f) m else m) m fs)
    \<and> fst ` set (foldl (\<lambda>m f. if map_of m (file_ref f) = None then AList.update (file_ref f) (idle_file f) m else m) m fs)
        = fst ` set m \<union> file_ref ` set fs"
  using assms
proof (induction fs arbitrary: m)
  case (Cons f fs)
  have "fst ` set (AList.update (file_ref f) (idle_file f) m) = insert (file_ref f) (fst ` set m)"
    by (simp add: dom_update)
  moreover have "file_ref f \<in> fst ` set m" if "map_of m (file_ref f) \<noteq> None"
    using that by (metis dom_map_of_conv_image_fst domIff)
  ultimately show ?case
    using Cons.IH [of "AList.update (file_ref f) (idle_file f) m"] Cons.IH [OF Cons.prems] update_ok [OF Cons.prems idle_ok, of f]
    by (cases "map_of m (file_ref f) = None") auto
qed simp

lemma reducer_ok:
  assumes "store_ok s" and "\<And>f p. a = SET_PROGRESS f p \<Longrightarrow> shown_progress p"
  shows "store_ok (fst (reducer cb a s))"
proof (cases a)
  case (ADD_FILES fs)
  then show ?thesis using assms(1) add_files_ok [of "st_files s" fs] by (simp add: store_ok_def Let_def)
next
  case (SET_FILES fs)
  have "distinct (map fst (filter (\<lambda>(k, _). k \<in> file_ref ` set fs) (st_files s)))"
    "list_all entry_ok (filter (\<lambda>(k, _). k \<in> file_ref ` set fs) (st_files s))"
    using assms(1) by (auto simp: store_ok_def list_all_iff distinct_map_filter)
  from set_files_ok [OF this, of fs] show ?thesis using SET_FILES by (simp add: store_ok_def Let_def)
next
  case (REMOVE_FILE f)
  then show ?thesis using assms(1)
    by (simp add: store_ok_def Let_def list_all_iff drop_urls_def distinct_map_filter AList.delete_eq)
next
  case (SET_PROGRESS f p)
  then show ?thesis using change_file_ok(1) [OF assms(1), of f] assms(2) by (simp add: entry_ok_def)
next
  case (SET_SUCCESS f)
  then show ?thesis using change_file_ok(1) [OF assms(1), of f] by (simp add: entry_ok_def shown_progress_def)
next
  case (SET_ERROR f e)
  then show ?thesis using change_file_ok(1) [OF assms(1), of f] by (simp add: entry_ok_def)
qed (use assms(1) in \<open>simp_all add: store_ok_def Let_def drop_urls_def\<close>)

lemma dispatch_all_ok:
  assumes "store_ok s" and "\<forall>a\<in>set as. \<forall>f p. a = SET_PROGRESS f p \<longrightarrow> shown_progress p"
  shows "store_ok (fst (dispatch_all cb as s))"
  using assms
proof (induction as arbitrary: s)
  case (Cons a as)
  have "store_ok (fst (reducer cb a s))" using Cons.prems by (intro reducer_ok) auto
  with Cons.IH [OF this] Cons.prems(2) show ?case by (auto split: prod.split)
qed simp

lemma admit_result:
  "admit c fs = (filter (\<lambda>f. rejections c f = []) fs, concat (map (\<lambda>f. map (Rejected f) (rejections c f)) fs))"
  by (induction fs) simp_all

definition accepted_files :: "upload_config \<Rightarrow> store_state \<Rightarrow> upload_file list \<Rightarrow> upload_file list" where
  "accepted_files c s fs = filter (\<lambda>f. rejections c f = []) (take (slots c s fs) fs)"

lemma onFilesChange_files:
  "st_files (fst (onFilesChange c fs s)) =
     (if up_disabled c then st_files s
      else foldl (\<lambda>m f. AList.update (file_ref f) (idle_file f) m) (st_files s) (accepted_files c s fs))"
  by (auto simp: onFilesChange_def accepted_files_def admit_result Let_def split: prod.split)

definition within_limit :: "upload_config \<Rightarrow> nat \<Rightarrow> bool" where
  "within_limit c n = (case js_limit (up_maxFiles c) of None \<Rightarrow> True | Some k \<Rightarrow> int n \<le> max 0 k)"

lemma accepted_within: "within_limit c (length (st_files s)) \<Longrightarrow> within_limit c (length (st_files s) + length (accepted_files c s fs))"
proof (cases "js_limit (up_maxFiles c)")
  case (Some k)
  have "length (accepted_files c s fs) \<le> slots c s fs" unfolding accepted_files_def by (rule order.trans [OF length_filter_le]) simp
  then have "length (accepted_files c s fs) \<le> nat (max 0 (k - int (length (st_files s))))" by (simp add: slots_def Some)
  then show "within_limit c (length (st_files s)) \<Longrightarrow> ?thesis" by (simp add: within_limit_def Some)
qed (simp add: within_limit_def)

inductive upload_step :: "upload_config \<Rightarrow> upload_run \<Rightarrow> upload_run \<Rightarrow> bool" for c where
  choose: "upload_step c (s, fr) (fst (onFilesChange c fs s), fr)"
| drop: "upload_step c (s, fr) (fst (onDrop c ev fs s), fr)"
| paste: "upload_step c (s, fr) (fst (onPaste c ev items s), fr)"
| over: "upload_step c (s, fr) (fst (onDragOver cb ev s), fr)"
| leave: "upload_step c (s, fr) (fst (onDragLeave cb ev s), fr)"
| remove: "upload_step c (s, fr) (fst (reducer cb (REMOVE_FILE f) s), fr)"
| clear: "upload_step c (s, fr) (fst (reducer cb CLEAR s), fr)"
| valid_again: "upload_step c (s, fr) (fst (reducer cb (SET_INVALID False) s), fr)"
| render: "upload_step c (s, fr) (onPreviewRender f url s, fr)"
| upload: "upload_step c (s, fr) (onFilesUpload c fs reports thrown (s, fr))"
| frame: "upload_step c r (report x r)"
| "value": "within_limit c (card (file_ref ` set fs)) \<Longrightarrow> upload_step c (s, fr) (value_effect c (Some fs) d s, fr)"

definition new_store :: store_state where
  "new_store = \<lparr>st_files = [], st_dragOver = False, st_invalid = False, st_urlCache = []\<rparr>"

definition run_ok :: "upload_config \<Rightarrow> upload_run \<Rightarrow> bool" where
  "run_ok c r = (store_ok (fst r) \<and> within_limit c (length (st_files (fst r))) \<and> (case snd r of None \<Rightarrow> True | Some (f, p) \<Rightarrow> shown_progress p))"

lemma report_ok:
  assumes "run_ok c r"
  shows "run_ok c (report x r)"
proof (cases "(x, r)" rule: report.cases)
  case (1 f p s)
  then show ?thesis using assms by (simp add: run_ok_def clamp_shown)
next
  case (3 f s fr)
  then show ?thesis using assms change_file_ok [of s f]
    by (simp add: run_ok_def entry_ok_def shown_progress_def)
next
  case (4 f msg s fr)
  then show ?thesis using assms change_file_ok [of s f] by (simp add: run_ok_def entry_ok_def)
next
  case (6 s f p)
  then show ?thesis using assms change_file_ok [of s f] by (simp add: run_ok_def entry_ok_def)
qed (use assms in \<open>simp_all add: run_ok_def\<close>)

lemma dispatch_changes_length:
  assumes "store_ok s" and "\<forall>a\<in>set as. \<exists>f. a = SET_PROGRESS f (Fin 0) \<or> a = SET_SUCCESS f \<or> (\<exists>e. a = SET_ERROR f e)"
  shows "store_ok (fst (dispatch_all cb as s)) \<and> length (st_files (fst (dispatch_all cb as s))) = length (st_files s)"
  using assms
proof (induction as arbitrary: s)
  case (Cons a as)
  from Cons.prems(2) obtain f where a: "a = SET_PROGRESS f (Fin 0) \<or> a = SET_SUCCESS f \<or> (\<exists>e. a = SET_ERROR f e)" by auto
  then have "store_ok (fst (reducer cb a s)) \<and> length (st_files (fst (reducer cb a s))) = length (st_files s)"
    using change_file_ok [OF Cons.prems(1), of f] by (auto simp: entry_ok_def shown_progress_def)
  with Cons.IH [of "fst (reducer cb a s)"] Cons.prems(2) show ?case by (auto split: prod.split)
qed simp

lemma onFilesUpload_ok:
  assumes "run_ok c r"
  shows "run_ok c (onFilesUpload c fs reports thrown r)"
proof -
  define r1 where "r1 = (fst (dispatch_all False (map (\<lambda>f. SET_PROGRESS f (Fin 0)) fs) (fst r)), snd r)"
  have keep: "run_ok c (fst (dispatch_all False as (fst q)), snd q)"
    if "run_ok c q" "\<forall>a\<in>set as. \<exists>f. a = SET_PROGRESS f (Fin 0) \<or> a = SET_SUCCESS f \<or> (\<exists>e. a = SET_ERROR f e)" for q as
    using that dispatch_changes_length [of "fst q" as False] by (simp add: run_ok_def)
  have r1: "run_ok c r1" unfolding r1_def by (rule keep [OF assms]) auto
  then have r2: "run_ok c (fold report reports r1)" by (induction reports arbitrary: r1) (simp_all add: report_ok)
  show ?thesis
    using keep [OF r1, of "map SET_SUCCESS fs"] r2 keep [OF r2, of "map (\<lambda>f. SET_ERROR f (the thrown)) fs"]
    by (auto simp: onFilesUpload_def r1_def [symmetric] Let_def split: option.split)
qed

lemma onFilesChange_ok:
  assumes "run_ok c (s, fr)"
  shows "run_ok c (fst (onFilesChange c fs s), fr)"
proof -
  have "within_limit c (length (st_files (fst (onFilesChange c fs s))))"
    using assms add_files_ok [of "st_files s" "accepted_files c s fs"] accepted_within [of c s fs]
    by (auto simp: onFilesChange_files run_ok_def store_ok_def within_limit_def split: option.splits)
  then show ?thesis using assms add_files_ok [of "st_files s" "accepted_files c s fs"]
    by (simp add: run_ok_def store_ok_def onFilesChange_files)
qed

lemma value_effect_ok:
  assumes "run_ok c (s, fr)" and "within_limit c (card (file_ref ` set fs))"
  shows "run_ok c (value_effect c (Some fs) d s, fr)"
proof -
  let ?m = "filter (\<lambda>(k, _). k \<in> file_ref ` set fs) (st_files s)"
  have m: "distinct (map fst ?m)" "list_all entry_ok ?m"
    using assms(1) by (auto simp: run_ok_def store_ok_def list_all_iff distinct_map_filter)
  have "fst ` set (st_files (value_effect c (Some fs) d s)) = file_ref ` set fs"
    using set_files_ok [OF m, of fs] by (auto simp: value_effect_def Let_def)
  moreover have "distinct (map fst (st_files (value_effect c (Some fs) d s)))"
    using set_files_ok [OF m, of fs] by (simp add: value_effect_def Let_def)
  ultimately have "length (st_files (value_effect c (Some fs) d s)) = card (file_ref ` set fs)"
    by (metis distinct_card length_map list.set_map)
  then show ?thesis using assms reducer_ok [of s "SET_FILES fs"] by (simp add: run_ok_def value_effect_def)
qed

lemma run_ok_files: "run_ok c (s, fr) \<Longrightarrow> st_files s' = st_files s \<Longrightarrow> run_ok c (s', fr)"
  by (simp add: run_ok_def store_ok_def)

lemma step_ok:
  assumes "upload_step c r r'" and "run_ok c r"
  shows "run_ok c r'"
  using assms
proof (induction rule: upload_step.induct)
  case (drop s fr ev fs)
  then show ?case using onFilesChange_ok [OF run_ok_files, of c s fr] by (simp add: onDrop_def)
next
  case (paste s fr ev items)
  then show ?case using onFilesChange_ok [OF run_ok_files, of c s fr] run_ok_files [OF paste]
    by (auto simp: onPaste_def Let_def split: option.split)
next
  case (remove s fr cb f)
  have "length (AList.delete (file_ref f) (st_files s)) \<le> length (st_files s)" by (rule length_delete_le)
  then show ?case using remove reducer_ok [of s "REMOVE_FILE f" cb]
    by (auto simp: run_ok_def Let_def within_limit_def split: option.splits)
next
  case (clear s fr cb)
  then show ?case by (simp add: run_ok_def store_ok_def Let_def within_limit_def split: option.split)
qed (auto intro: run_ok_files onFilesChange_ok onFilesUpload_ok report_ok value_effect_ok
      simp: onDragOver_def onDragLeave_def onPreviewRender_def)

text \<open>
  C37: Whatever the order of choosing, dropping and pasting files, removing and clearing, uploads with
  their reports and exceptions, animation frames and changes of the value within the limit, the store holds at
  most \<open>maxFiles\<close> files, each of them once and under its own key, and shows a progress between 0 and 100 (or \<open>NaN\<close>
  when the client reports it).
\<close>

theorem upload_store_invariant:
  assumes "(upload_step c)\<^sup>*\<^sup>* (new_store, None) (s, fr)" and "up_maxFiles c = Some n" and "0 < n"
  shows "int (length (st_files s)) \<le> n \<and> distinct (map fst (st_files s))
     \<and> (\<forall>(k, x)\<in>set (st_files s). file_ref (fs_file x) = k \<and> (fs_progress x = NaN \<or> Fin 0 \<le> fs_progress x \<and> fs_progress x \<le> Fin 100))"
proof -
  have "run_ok c (new_store, None)" by (simp add: run_ok_def new_store_def store_ok_def within_limit_def split: option.split)
  with assms(1) have "run_ok c (s, fr)"
    by (induction rule: rtranclp_induct) (auto intro: step_ok)
  then show ?thesis using assms(2,3)
    by (auto simp: run_ok_def store_ok_def list_all_iff entry_ok_def shown_progress_def within_limit_def js_limit_def)
qed

definition sample_file :: "nat \<Rightarrow> string \<Rightarrow> upload_file" where
  "sample_file i name = \<lparr>file_ref = i, file_name = name, file_type = ''image/png'', file_size = 10\<rparr>"

definition sample_config :: upload_config where
  "sample_config = \<lparr>up_disabled = False, up_controlled = False, up_onValueChange = True, up_onUpload = True, up_onAccept = False,
     up_maxFiles = Some 1, up_maxSize = Some 100, up_accept = Some ''image/*'', up_validate = None\<rparr>"

theorem upload_store_invariant_witness:
  "length (st_files (fst (onFilesChange sample_config [sample_file 1 ''a.png'', sample_file 2 ''b.png''] new_store))) = 1
   \<and> distinct (map fst (st_files (fst (onFilesChange sample_config [sample_file 1 ''a.png'', sample_file 2 ''b.png''] new_store))))"
proof -
  let ?s = "fst (onFilesChange sample_config [sample_file 1 ''a.png'', sample_file 2 ''b.png''] new_store)"
  have "upload_step sample_config (new_store, None) (?s, None)" by (rule upload_step.choose)
  then have "(upload_step sample_config)\<^sup>*\<^sup>* (new_store, None) (?s, None)" by simp
  from upload_store_invariant [OF this, of 1] have "distinct (map fst (st_files ?s))" by (simp add: sample_config_def)
  moreover have "length (st_files ?s) = 1" by code_simp
  ultimately show ?thesis by blast
qed

section \<open>Which files are admitted\<close>

lemma add_new_files:
  assumes "distinct (map file_ref fs)" and "\<forall>f\<in>set fs. file_ref f \<notin> fst ` set m"
  shows "foldl (\<lambda>m f. AList.update (file_ref f) (idle_file f) m) m fs = m @ map (\<lambda>f. (file_ref f, idle_file f)) fs"
  using assms
proof (induction fs arbitrary: m)
  case (Cons f fs)
  have "AList.update (file_ref f) (idle_file f) m = m @ [(file_ref f, idle_file f)]"
    using Cons.prems(2) by (induction m) auto
  moreover have ne: "file_ref g \<noteq> file_ref f" if "g \<in> set fs" for g
    using Cons.prems(1) that by (metis distinct.simps(2) imageI list.set_map list.simps(9))
  moreover have "\<forall>g\<in>set fs. file_ref g \<notin> fst ` set (m @ [(file_ref f, idle_file f)])"
    using ne Cons.prems(2) by simp
  ultimately show ?case using Cons.IH [of "m @ [(file_ref f, idle_file f)]"] Cons.prems(1) by simp
qed simp

definition rejected_in :: "upload_file \<Rightarrow> upload_effect list \<Rightarrow> bool" where
  "rejected_in f es = list_ex (\<lambda>e. case e of Rejected g _ \<Rightarrow> g = f | _ \<Rightarrow> False) es"

lemma rejected_in_simps [simp]:
  "rejected_in f [] = False"
  "rejected_in f (e # es) = ((\<exists>msg. e = Rejected f msg) \<or> rejected_in f es)"
  "rejected_in f (es @ es') = (rejected_in f es \<or> rejected_in f es')"
  by (auto simp: rejected_in_def split: upload_effect.splits)

lemma rejected_in_loop:
  "rejected_in f (concat (map (\<lambda>g. map (Rejected g) (rejections c g)) gs)) \<longleftrightarrow> f \<in> set gs \<and> rejections c f \<noteq> []"
proof (induction gs)
  case (Cons g gs)
  have "rejected_in f (map (Rejected g) xs) \<longleftrightarrow> f = g \<and> xs \<noteq> []" for xs by (induction xs) auto
  with Cons show ?case by auto
qed simp

lemma rejected_in_over: "rejected_in f (map (\<lambda>g. Rejected g (msg g)) gs) \<longleftrightarrow> f \<in> set gs"
  by (induction gs) auto

lemma rejected_in_others: "rejected_in f (map Accepted gs) = False" "rejected_in f (value_change cb s) = False"
  by (induction gs) (simp_all add: value_change_def)

lemma some_filtered: "length (filter P xs) < length xs \<longleftrightarrow> (\<exists>x\<in>set xs. \<not> P x)"
proof (induction xs)
  case (Cons x xs)
  show ?case using Cons length_filter_le [of P xs] by (auto simp: less_Suc_eq_le)
qed simp

lemma filtered_part: "length (filter P xs) < length (xs @ ys) \<longleftrightarrow> ys \<noteq> [] \<or> (\<exists>x\<in>set xs. \<not> P x)"
proof (cases ys)
  case (Cons y zs)
  then show ?thesis by (simp add: less_Suc_eq_le trans_le_add1)
qed (simp add: some_filtered)

lemma onFilesChange_effects:
  assumes "\<not> up_disabled c"
  shows "snd (onFilesChange c fs s) =
     map (\<lambda>f. Rejected f (limit_message c f)) (drop (slots c s fs) fs)
     @ concat (map (\<lambda>f. map (Rejected f) (rejections c f)) (take (slots c s fs) fs))
     @ (if length (accepted_files c s fs) < length fs then [ResetInvalid] else [])
     @ (if accepted_files c s fs = [] then []
        else value_change (up_onValueChange c) (fst (onFilesChange c fs s))
          @ (if up_controlled c then value_change (up_onValueChange c) (fst (onFilesChange c fs s)) else [])
          @ (if up_onAccept c then [AcceptAll (accepted_files c s fs)] else []) @ map Accepted (accepted_files c s fs)
          @ (if up_onUpload c then [StartUpload (accepted_files c s fs)] else []))"
    and "st_invalid (fst (onFilesChange c fs s)) = (st_invalid s \<or> length (accepted_files c s fs) < length fs)"
proof -
  let ?t = "take (slots c s fs) fs"
  have "length (filter (\<lambda>f. rejections c f = []) ?t) < length fs
      \<longleftrightarrow> drop (slots c s fs) fs \<noteq> [] \<or> concat (map (\<lambda>f. map (Rejected f) (rejections c f)) ?t) \<noteq> []"
    using filtered_part [of "\<lambda>f. rejections c f = []" ?t "drop (slots c s fs) fs"] by simp
  then show "snd (onFilesChange c fs s) = map (\<lambda>f. Rejected f (limit_message c f)) (drop (slots c s fs) fs)
     @ concat (map (\<lambda>f. map (Rejected f) (rejections c f)) (take (slots c s fs) fs))
     @ (if length (accepted_files c s fs) < length fs then [ResetInvalid] else [])
     @ (if accepted_files c s fs = [] then []
        else value_change (up_onValueChange c) (fst (onFilesChange c fs s))
          @ (if up_controlled c then value_change (up_onValueChange c) (fst (onFilesChange c fs s)) else [])
          @ (if up_onAccept c then [AcceptAll (accepted_files c s fs)] else []) @ map Accepted (accepted_files c s fs)
          @ (if up_onUpload c then [StartUpload (accepted_files c s fs)] else []))"
    and "st_invalid (fst (onFilesChange c fs s)) = (st_invalid s \<or> length (accepted_files c s fs) < length fs)"
    using assms by (simp_all add: onFilesChange_def accepted_files_def admit_result Let_def)
qed

text \<open>
  When new files are chosen, exactly those are added, in order, that fit into the free slots and
  pass the client's validation, the accepted types and the size; every other file is reported as
  rejected and none of the added ones is; the widget is marked invalid exactly when a file is rejected; and the
  upload is started with exactly the added files.
\<close>

theorem upload_admission:
  assumes "\<not> up_disabled c" and "distinct (map file_ref fs)" and "\<forall>f\<in>set fs. file_ref f \<notin> fst ` set (st_files s)"
    and "ok = filter (\<lambda>f. rejections c f = []) (take (slots c s fs) fs)"
  shows "file_list (fst (onFilesChange c fs s)) = file_list s @ ok
     \<and> (\<forall>f\<in>set fs. rejected_in f (snd (onFilesChange c fs s)) \<longleftrightarrow> f \<notin> set ok)
     \<and> st_invalid (fst (onFilesChange c fs s)) = (st_invalid s \<or> length ok < length fs)
     \<and> (StartUpload gs \<in> set (snd (onFilesChange c fs s)) \<longleftrightarrow> up_onUpload c \<and> gs = ok \<and> ok \<noteq> [])"
proof -
  have ok: "ok = accepted_files c s fs" using assms(4) by (simp add: accepted_files_def)
  have sub: "set ok \<subseteq> set fs" using assms(4) set_take_subset [of "slots c s fs" fs] by auto
  have "distinct (map file_ref ok)" using assms(2,4) by (simp add: distinct_map_filter take_map [symmetric])
  from add_new_files [OF this] sub assms(1,3) have "st_files (fst (onFilesChange c fs s)) = st_files s @ map (\<lambda>f. (file_ref f, idle_file f)) ok"
    by (simp add: onFilesChange_files ok) blast
  then have "file_list (fst (onFilesChange c fs s)) = file_list s @ ok" by (simp add: file_list_def idle_file_def o_def)
  moreover have "rejected_in f (snd (onFilesChange c fs s)) \<longleftrightarrow> f \<notin> set ok" if f: "f \<in> set fs" for f
  proof -
    have "distinct fs" using assms(2) by (simp add: distinct_map)
    then have "set (take (slots c s fs) fs) \<inter> set (drop (slots c s fs) fs) = {}" by (rule set_take_disj_set_drop_if_distinct) simp
    moreover have "f \<in> set (take (slots c s fs) fs) \<or> f \<in> set (drop (slots c s fs) fs)" using f by (metis Un_iff append_take_drop_id set_append)
    ultimately show ?thesis using assms(4)
      by (auto simp: onFilesChange_effects(1) [OF assms(1)] rejected_in_loop rejected_in_over rejected_in_others)
  qed
  moreover have "StartUpload gs \<in> set (snd (onFilesChange c fs s)) \<longleftrightarrow> up_onUpload c \<and> gs = ok \<and> ok \<noteq> []"
    by (auto simp: onFilesChange_effects(1) [OF assms(1)] ok value_change_def)
  ultimately show ?thesis using onFilesChange_effects(2) [OF assms(1), of fs s] ok by simp
qed

theorem upload_admission_witness:
  "file_list (fst (onFilesChange sample_config [sample_file 1 ''a.png'', sample_file 2 ''b.png''] new_store)) = [sample_file 1 ''a.png'']
   \<and> rejected_in (sample_file 2 ''b.png'') (snd (onFilesChange sample_config [sample_file 1 ''a.png'', sample_file 2 ''b.png''] new_store))"
proof -
  let ?fs = "[sample_file 1 ''a.png'', sample_file 2 ''b.png'']"
  have ok: "filter (\<lambda>f. rejections sample_config f = []) (take (slots sample_config new_store ?fs) ?fs) = [sample_file 1 ''a.png'']" by code_simp
  have "file_list new_store = []" "sample_file 2 ''b.png'' \<noteq> sample_file 1 ''a.png''" by code_simp+
  then show ?thesis
    using upload_admission [OF _ _ _ ok [symmetric]] by (simp add: sample_config_def new_store_def sample_file_def)
qed

section \<open>Reports that arrive late, errors that stay, URLs that leak\<close>

lemma map_of_change_file:
  "map_of (st_files (change_file f g s)) k = (if k = file_ref f then map_option g (map_of (st_files s) k) else map_of (st_files s) k)"
  by (auto simp: change_file_def update_conv' split: option.split)

text \<open>
  A file that reports its last progress and then its success within one animation frame is
  shown as uploading for ever: the progress is applied when the frame fires, after the success.
\<close>

theorem late_progress_undoes_success:
  assumes "map_of (st_files s) (file_ref f) = Some x"
  shows "\<exists>s' y. fold report [Progress f p, Succeeded f, Frame] (s, None) = (s', None)
     \<and> map_of (st_files s') (file_ref f) = Some y \<and> fs_status y = UploadingFile \<and> fs_progress y = clamp p"
  using assms by (simp add: map_of_change_file)

theorem late_progress_undoes_success_witness:
  "\<exists>s' y. fold report [Progress (sample_file 1 ''a.png'') (Fin 100), Succeeded (sample_file 1 ''a.png''), Frame]
       (fst (onFilesChange sample_config [sample_file 1 ''a.png''] new_store), None) = (s', None)
     \<and> map_of (st_files s') 1 = Some y \<and> fs_status y = UploadingFile"
proof -
  have "map_of (st_files (fst (onFilesChange sample_config [sample_file 1 ''a.png''] new_store))) (file_ref (sample_file 1 ''a.png''))
      = Some (idle_file (sample_file 1 ''a.png''))" by code_simp
  from late_progress_undoes_success [OF this, of "Fin 100"] show ?thesis by (auto simp: sample_file_def)
qed

text \<open>While a frame is pending, the progress of every other file is dropped.\<close>

theorem concurrent_progress_dropped:
  "fold report [Progress f p, Progress g q, Frame] (s, None) = fold report [Progress f p, Frame] (s, None)"
  by simp

text \<open>A file that is uploaded again after an error keeps the text of the error, also after its success.\<close>

theorem error_text_survives_success:
  assumes "map_of (st_files s) (file_ref f) = Some x" and "e \<noteq> []"
  shows "\<exists>y. map_of (st_files (fst (fold report [Failed f (Some e), Succeeded f] (s, None)))) (file_ref f) = Some y
     \<and> fs_status y = SuccessFile \<and> statusText y = ''Error: '' @ e"
  using assms by (cases e) (simp_all add: map_of_change_file statusText_def)

lemma in_cached_urls: "u \<in> set (cached_urls ks s) \<longleftrightarrow> u \<noteq> [] \<and> (\<exists>k\<in>set ks. map_of (st_urlCache s) k = Some u)"
proof -
  have "u \<in> set (case map_of (st_urlCache s) k of None \<Rightarrow> [] | Some v \<Rightarrow> if v = [] then [] else [v])
      \<longleftrightarrow> u \<noteq> [] \<and> map_of (st_urlCache s) k = Some u" for k
    by (cases "map_of (st_urlCache s) k") (simp_all, metis)
  then show ?thesis unfolding cached_urls_def set_concat set_map by blast
qed

text \<open>
  Removing a file releases its preview URL; when the client takes the file out of the value instead, the
  URL is never released: neither by the new value nor when the widget is unmounted.
\<close>

theorem value_change_leaks_url:
  assumes "map_of (st_files s) (file_ref f) = Some x" and "map_of (st_urlCache s) (file_ref f) = Some u" and "u \<noteq> []"
    and "file_ref f \<notin> file_ref ` set fs" and "distinct (map snd (st_urlCache s))" and "store_ok s"
  shows "Revoked u \<in> set (snd (reducer cb (REMOVE_FILE f) s))"
    and "snd (reducer cb (SET_FILES fs) s) = [] \<and> Revoked u \<notin> set (unmount (fst (reducer cb (SET_FILES fs) s)))"
proof -
  show "Revoked u \<in> set (snd (reducer cb (REMOVE_FILE f) s))" using assms(2,3) by (simp add: cached_urls_def Let_def)
  let ?m = "filter (\<lambda>(k, _). k \<in> file_ref ` set fs) (st_files s)"
  have m: "distinct (map fst ?m)" "list_all entry_ok ?m"
    using assms(6) by (auto simp: store_ok_def list_all_iff distinct_map_filter)
  have "fst ` set (st_files (fst (reducer cb (SET_FILES fs) s))) = file_ref ` set fs"
    using set_files_ok [OF m, of fs] by (auto simp: Let_def)
  then have "file_ref f \<notin> fst ` set (st_files (fst (reducer cb (SET_FILES fs) s)))" using assms(4) by simp
  moreover have "k = file_ref f" if "map_of (st_urlCache s) k = Some u" for k
    using map_of_SomeD [OF that] map_of_SomeD [OF assms(2)] assms(5) by (metis (no_types, lifting) distinct_map inj_on_eq_iff prod.inject snd_conv)
  moreover have "st_urlCache (fst (reducer cb (SET_FILES fs) s)) = st_urlCache s" by (simp add: Let_def)
  ultimately have "u \<notin> set (cached_urls (map fst (st_files (fst (reducer cb (SET_FILES fs) s)))) (fst (reducer cb (SET_FILES fs) s)))"
    unfolding in_cached_urls by (metis list.set_map)
  moreover have "Revoked u \<in> set (map Revoked us) \<longleftrightarrow> u \<in> set us" for us by (induction us) auto
  ultimately show "snd (reducer cb (SET_FILES fs) s) = [] \<and> Revoked u \<notin> set (unmount (fst (reducer cb (SET_FILES fs) s)))"
    unfolding unmount_def by (simp del: set_map)
qed

end
