(* ===== verification/Chat_Page.thy ===== *)
theory Chat_Page
  imports Chat_Stream Page_Lists File_Upload
begin

text \<open>
  The chat page, \<open>pages/next-chats/hooks\<close>: the conversation in the URL and its creation before the first message,
  sending and regenerating, the answer that streams in, and the files that are attached
  (\<open>use-chat-url.ts\<close>, \<open>use-set-conversation.ts\<close>, \<open>use-send-chat-message.ts\<close>, \<open>use-upload-file.ts\<close>,
  \<open>use-select-conversation-list.ts\<close>, \<open>use-send-shared-message.ts\<close>), with \<open>useUploadAndParseFile\<close> of
  \<open>hooks/use-chat-request.ts\<close>.

  The server is a parameter: what it answers to the creation of a conversation. A call that waits is split where it waits.
\<close>

section \<open>The conversation in the URL\<close>

definition conversationId_of :: "url_params \<Rightarrow> string" where
  "conversationId_of ps = (case map_of ps ''conversationId'' of None \<Rightarrow> [] | Some c \<Rightarrow> c)"

definition isNew_of :: "url_params \<Rightarrow> string" where
  "isNew_of ps = (case map_of ps ''isNew'' of None \<Rightarrow> [] | Some c \<Rightarrow> c)"

definition setConversationId :: "string \<Rightarrow> url_params \<Rightarrow> url_params" where
  "setConversationId c ps = params_set ''conversationId'' c ps"

definition setIsNew :: "string \<Rightarrow> url_params \<Rightarrow> url_params" where
  "setIsNew n ps = params_set ''isNew'' n ps"

definition setConversationBoth :: "string \<Rightarrow> string \<Rightarrow> url_params \<Rightarrow> url_params" where
  "setConversationBoth c n ps = params_set ''isNew'' n (params_set ''conversationId'' c ps)"

definition handleConversationCardClick :: "string \<Rightarrow> bool \<Rightarrow> url_params \<Rightarrow> url_params" where
  "handleConversationCardClick c new ps = setConversationBoth c (if new then ''true'' else []) ps"

definition setConversation :: "string \<Rightarrow> string \<Rightarrow> bool \<Rightarrow> jsval \<Rightarrow> jsval obj" where
  \<comment> \<open>the request to the server\<close>
  "setConversation dialogId msg isNew conversationId =
     [(''dialog_id'', JStr dialogId), (''name'', JStr msg), (''is_new'', JBool isNew), (''conversation_id'', conversationId),
      (''message'', JArr [JObj [(''role'', JStr ''assistant''), (''content'', JStr msg), (''conversationId'', conversationId)]])]"

type_synonym chat_server = "jsval obj \<Rightarrow> jsval"

definition no_error :: "jsval \<Rightarrow> bool" where
  "no_error d = (js_opt d ''code'' = JNum (Fin 0))"

definition createConversationBeforeSendMessage ::
    "chat_server \<Rightarrow> string \<Rightarrow> string \<Rightarrow> string \<Rightarrow> url_params \<Rightarrow> url_params \<times> (string \<times> jsval) option" where
  \<comment> \<open>the dialog, a new uuid and the text; the target conversation and its messages\<close>
  "createConversationBeforeSendMessage server dialogId uuid value ps =
     (let current = generateConversationId uuid; c = conversationId_of ps; tid = (if c = [] then current else c) in
      if c = [] \<or> isNew_of ps = ''true''
      then let ps1 = (if c = [] then setConversationBoth current ''true'' ps else ps);
               d = server (setConversation dialogId value True (JStr tid))
           in if no_error d then (setIsNew [] ps1, Some (tid, js_opt (js_opt d ''data'') ''message'')) else (ps1, None)
      else (ps, Some (tid, JArr [])))"

section \<open>Sending\<close>

record chat_page =
  cp_params :: url_params
  cp_value :: string
  cp_messages :: "message list"
  cp_files :: "(nat \<times> jsval) list"                     \<comment> \<open>\<open>currentFiles\<close>, each an object with its identity\<close>
  cp_fileMap :: "(nat \<times> (nat \<times> jsval)) list"
  cp_uploading :: bool
  cp_sse :: sse_state

record enter_options =
  enableThinking :: jsval
  enableInternet :: jsval

definition sent_messages :: "jsval \<Rightarrow> message list \<Rightarrow> message \<Rightarrow> jsval" where
  "sent_messages messages derived m =
     JArr ((case messages of JArr (x # xs) \<Rightarrow> x # xs | _ \<Rightarrow> map JObj derived) @ [JObj m])"

definition sendMessage_body :: "enter_options \<Rightarrow> message \<Rightarrow> string option \<Rightarrow> jsval \<Rightarrow> chat_page \<Rightarrow> jsval obj" where
  "sendMessage_body opts m current messages p =
     [(''conversation_id'', JStr (case current of None \<Rightarrow> conversationId_of (cp_params p) | Some c \<Rightarrow> c)),
      (''messages'', sent_messages messages (cp_messages p) m),
      (''reasoning'', enableThinking opts), (''internet'', enableInternet opts)]"

definition chat_send_settled :: "jsval \<Rightarrow> (jsnum \<times> jsval) option \<Rightarrow> chat_page \<Rightarrow> chat_page" where
  \<comment> \<open>the rest of \<open>sendMessage\<close>: the content of the message and the response\<close>
  "chat_send_settled content res p =
     (case res of
        Some (status, d) \<Rightarrow>
          if \<not> num_eq status (Fin 200) \<or> js_opt d ''code'' \<noteq> JNum (Fin 0)
          then p\<lparr>cp_value := js_to_string content, cp_messages := removeLatestMessage (cp_messages p)\<rparr> else p
      | None \<Rightarrow> p)"

definition clearFiles :: "chat_page \<Rightarrow> chat_page" where
  "clearFiles p = p\<lparr>cp_files := [], cp_fileMap := []\<rparr>"

definition user_message :: "string \<Rightarrow> string \<Rightarrow> string \<Rightarrow> chat_page \<Rightarrow> message" where
  "user_message i content tid p =
     [(''content'', JStr content), (''files'', JArr (map snd (cp_files p))), (''id'', JStr i), (''role'', JStr ''user''),
      (''conversationId'', JStr tid)]"

definition chat_press_enter ::
    "chat_server \<Rightarrow> string \<Rightarrow> string \<Rightarrow> string \<Rightarrow> enter_options \<Rightarrow> chat_page \<Rightarrow> chat_page \<times> jsval obj option" where
  \<comment> \<open>\<open>handlePressEnter\<close>: the dialog, a uuid for the conversation and one for the message; the body that is sent\<close>
  "chat_press_enter server dialogId uuid i opts p =
     (if js_trim (cp_value p) = [] then (p, None)
      else case createConversationBeforeSendMessage server dialogId uuid (cp_value p) (cp_params p) of
             (ps, None) \<Rightarrow> (p\<lparr>cp_params := ps\<rparr>, None)
           | (ps, Some (tid, current)) \<Rightarrow>
               let asked = p\<lparr>cp_params := ps,
                     cp_messages := addNewestQuestion i i (user_message i (cp_value p) tid p) [] (cp_messages p)\<rparr>;
                   body = sendMessage_body opts (user_message i (js_trim (cp_value p)) tid p) (Some tid) current p
               in (if is_done (cp_sse p)
                   then (clearFiles (asked\<lparr>cp_value := [], cp_sse := setDoneValue body False (cp_sse p)\<rparr>), Some body)
                   else (clearFiles asked, None)))"

definition chat_regenerate :: "string \<Rightarrow> message \<Rightarrow> chat_page \<Rightarrow> (chat_page \<times> jsval obj) option" where
  \<comment> \<open>\<open>regenerateMessage\<close>, which sends without options\<close>
  "chat_regenerate uuid m p =
     (case regenerateMessage uuid m (cp_messages p) of
        None \<Rightarrow> None
      | Some (ms, m', history) \<Rightarrow>
          let body = sendMessage_body \<lparr>enableThinking = JUndef, enableInternet = JUndef\<rparr> m' None
                       (case history of None \<Rightarrow> JUndef | Some h \<Rightarrow> JArr (map JObj h)) p
          in Some (p\<lparr>cp_messages := ms, cp_sse := setDoneValue body False (cp_sse p)\<rparr>, body))"

definition chat_answer_effect :: "libs \<Rightarrow> string \<Rightarrow> chat_page \<Rightarrow> chat_page" where
  "chat_answer_effect L u p =
     (if truthy (obj_get (answer (cp_sse p)) ''answer'') \<and> conversationId_of (cp_params p) \<noteq> [] \<and> isNew_of (cp_params p) \<noteq> ''true''
      then p\<lparr>cp_messages := addNewestAnswer L u (answer (cp_sse p)) (cp_messages p)\<rparr> else p)"

definition chat_receive :: "libs \<Rightarrow> string \<Rightarrow> jsval obj \<Rightarrow> jsval \<Rightarrow> chat_page \<Rightarrow> chat_page res" where
  "chat_receive L u body val p =
     bind_r (receive_chunk body val (cp_sse p)) (\<lambda>s. Inr (chat_answer_effect L u (p\<lparr>cp_sse := s\<rparr>)))"

fun chat_receive_all :: "libs \<Rightarrow> string \<Rightarrow> jsval obj \<Rightarrow> jsval list \<Rightarrow> chat_page \<Rightarrow> chat_page res" where
  "chat_receive_all L u body [] p = Inr p"
| "chat_receive_all L u body (v # vs) p = bind_r (chat_receive L u body v p) (chat_receive_all L u body vs)"

definition next_prologue :: "string \<Rightarrow> string \<Rightarrow> jsval \<Rightarrow> chat_page \<Rightarrow> chat_page" where
  \<comment> \<open>the effect of \<open>useSelectNextMessages\<close>\<close>
  "next_prologue dialogId u prologue p =
     (if dialogId \<noteq> [] \<and> isNew_of (cp_params p) = ''true''
      then p\<lparr>cp_messages := [[(''role'', JStr ''assistant''), (''content'', prologue), (''id'', JStr u),
               (''conversationId'', JStr (conversationId_of (cp_params p)))]]\<rparr> else p)"

section \<open>Files\<close>

datatype parse_response = Parsed "(nat \<times> jsval)" | ParseError "string option" | ParseThrown "string option"
  \<comment> \<open>code 0 with the data object; another code with its message; an exception\<close>

definition uploadAndParseFile :: "upload_file \<Rightarrow> jsnum list \<Rightarrow> parse_response \<Rightarrow> upload_report list" where
  \<comment> \<open>the reports to the upload widget: the values of \<open>(progress || 0) * 100 - 1\<close> during the request, then the outcome\<close>
  "uploadAndParseFile f ps res =
     map (Progress f) ps @
     (case res of
        Parsed d \<Rightarrow> [Progress f (Fin 100), Succeeded f]
      | ParseError msg \<Rightarrow> [Progress f (Fin 100), Failed f msg]
      | ParseThrown msg \<Rightarrow> [Failed f msg])"

definition file_parsed :: "upload_file \<Rightarrow> parse_response \<Rightarrow> chat_page \<Rightarrow> chat_page" where
  \<comment> \<open>the body of the loop in \<open>handleUploadFile\<close>\<close>
  "file_parsed f res p =
     (case res of Parsed d \<Rightarrow> p\<lparr>cp_files := cp_files p @ [d], cp_fileMap := AList.update (file_ref f) d (cp_fileMap p)\<rparr> | _ \<Rightarrow> p)"

definition handleUploadFile :: "(upload_file \<times> parse_response) list \<Rightarrow> chat_page \<Rightarrow> chat_page" where
  "handleUploadFile fs p = foldl (\<lambda>q (f, res). file_parsed f res q) p fs"

definition createConversationBeforeUploadFile ::
    "chat_server \<Rightarrow> string \<Rightarrow> string \<Rightarrow> upload_file list \<Rightarrow> chat_page \<Rightarrow> chat_page \<times> (upload_file list \<times> jsval) option" where
  \<comment> \<open>the files that are uploaded and the conversation they are uploaded for\<close>
  "createConversationBeforeUploadFile server dialogId uuid fs p =
     (let ps = cp_params p; c = conversationId_of ps; current = generateConversationId uuid in
      if (c = [] \<or> isNew_of ps = ''true'') \<and> fs \<noteq> []
      then let ps1 = (if c = [] then setConversationBoth current ''true'' ps else ps);
               d = server (setConversation dialogId (file_name (hd fs)) True (JStr (if c = [] then current else c)))
           in if no_error d then (p\<lparr>cp_params := setIsNew [] ps1\<rparr>, Some (fs, js_opt (js_opt d ''data'') ''id''))
              else (p\<lparr>cp_params := ps1\<rparr>, None)
      else (p, if fs = [] then None else Some (fs, JUndef)))"

definition removeChatFile :: "upload_file \<Rightarrow> chat_page \<Rightarrow> chat_page" where
  \<comment> \<open>during an upload the request is cancelled instead\<close>
  "removeChatFile f p =
     (if cp_uploading p then p
      else case map_of (cp_fileMap p) (file_ref f) of
             None \<Rightarrow> p | Some d \<Rightarrow> p\<lparr>cp_files := filter (\<lambda>x. fst x \<noteq> fst d) (cp_files p)\<rparr>)"

section \<open>The list of conversations\<close>

definition addTemporaryConversation ::
    "string \<Rightarrow> string \<Rightarrow> jsval \<Rightarrow> string \<Rightarrow> jsval obj list \<Rightarrow> jsval obj list \<Rightarrow> url_params \<Rightarrow> jsval obj list \<times> url_params" where
  \<comment> \<open>the new name, the dialog, its prologue, a uuid; the list of the server and the list shown\<close>
  "addTemporaryConversation name dialogId prologue uuid conversationList pre ps =
     (if dialogId = [] then (pre, ps)
      else let c = generateConversationId uuid in
           ([(''id'', JStr c), (''name'', JStr name), (''dialog_id'', JStr dialogId), (''is_new'', JBool True),
             (''message'', JArr [JObj [(''content'', prologue), (''role'', JStr ''assistant'')]])] # conversationList,
            setConversationBoth c ''true'' ps))"

definition removeTemporaryConversation :: "string \<Rightarrow> jsval obj list \<Rightarrow> jsval obj list" where
  "removeTemporaryConversation c l = filter (\<lambda>x. obj_get x ''id'' \<noteq> JStr c) l"

definition findPrologue :: "string \<Rightarrow> jsval obj list \<Rightarrow> jsval" where
  "findPrologue dialogId dialogs =
     (case find (\<lambda>x. obj_get x ''id'' = JStr dialogId) dialogs of
        None \<Rightarrow> JUndef | Some x \<Rightarrow> js_opt (obj_get x ''prompt_config'') ''prologue'')"

section \<open>The shared chat\<close>

definition shared_data :: "url_params \<Rightarrow> jsval obj" where
  "shared_data ps = obj_of_entries (map (\<lambda>(k, v). (replace_first ''data_'' [] k, JStr v)) (filter (\<lambda>(k, v). starts_with k ''data_'') ps))"

definition visibleAvatar :: "url_params \<Rightarrow> bool" where
  "visibleAvatar ps = (case map_of ps ''visible_avatar'' of None \<Rightarrow> True | Some v \<Rightarrow> v = [] \<or> v \<noteq> ''1'')"

definition shared_body :: "string \<Rightarrow> jsval \<Rightarrow> enter_options \<Rightarrow> message \<Rightarrow> message list \<Rightarrow> jsval obj" where
  \<comment> \<open>\<open>sendMessage\<close>: the conversation, the release and the options\<close>
  "shared_body conversationId release opts m derived =
     [(''conversation_id'', JStr conversationId), (''quote'', JBool True), (''question'', obj_get m ''content''),
      (''session_id'', case derived of [] \<Rightarrow> JUndef | x # _ \<Rightarrow> obj_get x ''session_id''),
      (''reasoning'', enableThinking opts), (''internet'', enableInternet opts)]
     @ (if truthy release then [(''release'', release)] else [])"

definition shared_press_enter :: "string \<Rightarrow> jsval \<Rightarrow> string \<Rightarrow> enter_options \<Rightarrow> chat_page \<Rightarrow> chat_page \<times> jsval obj option" where
  \<comment> \<open>with a conversation in the URL of the page\<close>
  "shared_press_enter conversationId release i opts p =
     (if js_trim (cp_value p) = [] \<or> \<not> is_done (cp_sse p) then (p, None)
      else let body = shared_body conversationId release opts
                 [(''content'', JStr (js_trim (cp_value p))), (''id'', JStr i), (''role'', JStr ''user'')] (cp_messages p)
           in (p\<lparr>cp_value := [], cp_sse := setDoneValue body False (cp_sse p),
                 cp_messages := addNewestQuestion i i
                   [(''content'', JStr (cp_value p)), (''doc_ids'', JArr []), (''id'', JStr i), (''role'', JStr ''user'')] [] (cp_messages p)\<rparr>, Some body))"

section \<open>A turn of the conversation\<close>

definition chat_chunk :: "string \<Rightarrow> string \<Rightarrow> jsval" where
  \<comment> \<open>the server answers under the id of the question\<close>
  "chat_chunk q t = JObj [(''data'', JObj [(''answer'', JStr t), (''id'', JStr q)])]"

lemma receive_chat_chunk:
  "\<exists>st'. receive_chunk body (chat_chunk q t) st = Inr st' \<and> answer_text st' = step_text (answer_text st) t
     \<and> obj_get (answer st') ''answer'' = JStr (answer_text st')
     \<and> answers_question q (answer st') \<and> ''content'' \<notin> set (keys (answer st')) \<and> is_done st' = is_done st"
proof -
  have m: "merge_text p (js_or (JStr t) (JStr [])) = Inr (step_text p t)" for p
    by (auto simp: merge_text_def js_or_def step_text_def)
  have k: "set (keys (obj_assign (spread d) es)) = set (keys (spread d)) \<union> set (keys es)"
    "distinct (keys (obj_assign (spread d) es))" if "distinct (keys (spread d))" for d and es :: "jsval obj"
    using that by (simp_all add: set_keys_obj_assign distinct_keys_obj_assign)
  have sp: "keys (spread (JObj [(''answer'', JStr t), (''id'', JStr q)])) = [''answer'', ''id'']" by code_simp
  show ?thesis
    by (simp add: receive_chunk_def chat_chunk_def merge_answer_def m Let_def answer_text_def obj_get_assign answers_question_def
        k sp obj_get_spread)
qed

definition in_conversation :: "chat_page \<Rightarrow> bool" where
  "in_conversation p = (conversationId_of (cp_params p) \<noteq> [] \<and> isNew_of (cp_params p) \<noteq> ''true'')"

lemma receive_step:
  assumes "lodash_api L" and "q \<noteq> []" and "in_conversation p" and "cp_messages p = ms @ [x]"
  shows "\<exists>p' y. chat_receive L u body (chat_chunk q t) p = Inr p' \<and> cp_messages p' = ms @ [y]
     \<and> answer_text (cp_sse p') = step_text (answer_text (cp_sse p)) t
     \<and> (if answer_text (cp_sse p') = [] then y = x else msg_id y = JStr q \<and> obj_get y ''content'' = JStr (answer_text (cp_sse p')))
     \<and> cp_params p' = cp_params p \<and> cp_value p' = cp_value p \<and> cp_files p' = cp_files p"
proof -
  obtain s where s: "receive_chunk body (chat_chunk q t) (cp_sse p) = Inr s" "answer_text s = step_text (answer_text (cp_sse p)) t"
    "obj_get (answer s) ''answer'' = JStr (answer_text s)" "answers_question q (answer s)" "''content'' \<notin> set (keys (answer s))"
    using receive_chat_chunk [of body q t "cp_sse p"] by blast
  have "msg_id (answer_message L u (answer s)) = JStr q"
    using msg_id_answer [OF assms(1), of "answer s" u] s(4) assms(2) by (simp add: answers_question_def)
  moreover have "obj_get (answer_message L u (answer s)) ''content'' = JStr (answer_text s)"
    using content_of_new_answer [OF assms(1), of "answer s" u] s(3-5) by (simp add: answers_question_def)
  ultimately show ?thesis
    using s(1-3) assms(3,4) by (auto simp: chat_receive_def chat_answer_effect_def addNewestAnswer_def in_conversation_def)
qed

lemma receive_steps:
  assumes "lodash_api L" and "q \<noteq> []"
  shows "in_conversation p \<Longrightarrow> cp_messages p = ms @ [x] \<Longrightarrow> answer_text (cp_sse p) \<noteq> [] \<longrightarrow> msg_id x = JStr q \<and> obj_get x ''content'' = JStr (answer_text (cp_sse p)) \<Longrightarrow>
     \<exists>p' y. chat_receive_all L u body (map (chat_chunk q) ts) p = Inr p' \<and> cp_messages p' = ms @ [y]
     \<and> (foldl step_text (answer_text (cp_sse p)) ts \<noteq> [] \<longrightarrow> msg_id y = JStr q \<and> obj_get y ''content'' = JStr (foldl step_text (answer_text (cp_sse p)) ts))
     \<and> cp_params p' = cp_params p \<and> cp_value p' = cp_value p \<and> cp_files p' = cp_files p"
proof (induction ts arbitrary: p x)
  case (Cons t ts)
  obtain p1 y where p1: "chat_receive L u body (chat_chunk q t) p = Inr p1" "cp_messages p1 = ms @ [y]"
    "answer_text (cp_sse p1) = step_text (answer_text (cp_sse p)) t"
    "if answer_text (cp_sse p1) = [] then y = x else msg_id y = JStr q \<and> obj_get y ''content'' = JStr (answer_text (cp_sse p1))"
    "cp_params p1 = cp_params p" "cp_value p1 = cp_value p" "cp_files p1 = cp_files p"
    using receive_step [OF assms Cons.prems(1,2)] by blast
  have "in_conversation p1" using Cons.prems(1) p1(5) by (simp add: in_conversation_def)
  from Cons.IH [OF this p1(2)] p1(3-7) show ?case by (simp add: p1(1) split: if_splits)
qed auto

text \<open>
  A turn on the chat page. In a conversation that exists, with no run in progress and no old answer,
  entering a text sends the history of the page followed by the trimmed question, exactly once; when the answer
  has streamed in, exactly two messages have been added, the question and the answer with the streamed text, both under
  one id; if the server reports an error instead, the messages are as before and the text is back in the input.
\<close>

theorem chat_turn:
  assumes L: "lodash_api L" and conv: "in_conversation p" and idle: "is_done (cp_sse p)" "answer_text (cp_sse p) = []"
    and entered: "js_trim (cp_value p) \<noteq> []" and q: "q \<noteq> []"
    and stream: "foldl step_text [] ts = final" "final \<noteq> []"
    and ok: "num_eq status (Fin 200)" "js_opt d ''code'' = JNum (Fin 0)"
    and failed: "js_opt d' ''code'' \<noteq> JNum (Fin 0)"
  shows "\<exists>p1 body p2 question reply.
     chat_press_enter server dialogId uuid q opts p = (p1, Some body)
     \<and> obj_get body ''conversation_id'' = JStr (conversationId_of (cp_params p))
     \<and> (\<exists>m. obj_get body ''messages'' = JArr (map JObj (cp_messages p) @ [JObj m])
            \<and> msg_id m = JStr q \<and> obj_get m ''content'' = JStr (js_trim (cp_value p)))
     \<and> chat_receive_all L u body (map (chat_chunk q) ts) p1 = Inr p2
     \<and> cp_messages (chat_send_settled content (Some (status, d)) p2) = cp_messages p @ [question, reply]
     \<and> msg_id question = JStr q \<and> msg_id reply = JStr q
     \<and> obj_get question ''content'' = JStr (cp_value p) \<and> obj_get reply ''content'' = JStr final
     \<and> cp_value p2 = [] \<and> cp_files p2 = []
     \<and> cp_messages (chat_send_settled (JStr (js_trim (cp_value p))) (Some (status, d')) p2) = cp_messages p
     \<and> cp_value (chat_send_settled (JStr (js_trim (cp_value p))) (Some (status, d')) p2) = js_trim (cp_value p)"
proof -
  define c where "c = conversationId_of (cp_params p)"
  define question where "question = obj_put ''id'' (JStr q) (user_message q (cp_value p) c p)"
  define body where "body = sendMessage_body opts (user_message q (js_trim (cp_value p)) c p) (Some c) (JArr []) p"
  define p1 where "p1 = fst (chat_press_enter server dialogId uuid q opts p)"
  have qid: "msg_id (user_message q t c p) = JStr q" for t by (simp add: user_message_def)
  have enter: "chat_press_enter server dialogId uuid q opts p = (p1, Some body)"
    using conv entered idle(1)
    by (simp add: p1_def chat_press_enter_def createConversationBeforeSendMessage_def in_conversation_def c_def body_def Let_def)
  have p1: "cp_messages p1 = (cp_messages p @ [question]) @
      [[(''role'', JStr ''assistant''), (''content'', JStr []), (''conversationId'', JStr c), (''id'', JStr q)]]"
    "in_conversation p1" "answer_text (cp_sse p1) = []" "cp_value p1 = []" "cp_files p1 = []"
    using conv entered idle q
    by (simp_all add: p1_def chat_press_enter_def createConversationBeforeSendMessage_def in_conversation_def c_def clearFiles_def
        addNewestQuestion_def question_def buildMessageUuid_def user_message_def answer_text_def setDoneValue_def Let_def)
  from receive_steps [OF L q p1(2,1), of u body ts] p1(3-5) stream
  obtain p2 reply where p2: "chat_receive_all L u body (map (chat_chunk q) ts) p1 = Inr p2" "cp_messages p2 = cp_messages p @ [question, reply]"
    "msg_id reply = JStr q" "obj_get reply ''content'' = JStr final" "cp_value p2 = []" "cp_files p2 = []" by auto
  have b: "obj_get body ''conversation_id'' = JStr c"
    "obj_get body ''messages'' = JArr (map JObj (cp_messages p) @ [JObj (user_message q (js_trim (cp_value p)) c p)])"
    by (simp_all add: body_def sendMessage_body_def sent_messages_def)
  have "obj_get question ''content'' = JStr (cp_value p)" "msg_id question = JStr q"
    "obj_get (user_message q (js_trim (cp_value p)) c p) ''content'' = JStr (js_trim (cp_value p))"
    by (simp_all add: question_def user_message_def)
  then show ?thesis
    using enter b p2 qid ok failed
    by (auto simp: c_def [symmetric] chat_send_settled_def removeLatestMessage_def)
qed

definition sample_page :: chat_page where
  "sample_page = \<lparr>cp_params = [(''conversationId'', ''c'')], cp_value = ''Hi '', cp_messages = [], cp_files = [], cp_fileMap = [],
     cp_uploading = False, cp_sse = \<lparr>answer = [], is_done = True, doneRecord = []\<rparr>\<rparr>"

theorem chat_turn_witness:
  "\<exists>p1 body p2 question reply.
     chat_press_enter (\<lambda>_. JUndef) ''d'' ''u'' ''q'' \<lparr>enableThinking = JUndef, enableInternet = JUndef\<rparr> sample_page = (p1, Some body)
     \<and> chat_receive_all ref_libs ''v'' body (map (chat_chunk ''q'') [''Hel'', ''lo'']) p1 = Inr p2
     \<and> cp_messages p2 = [question, reply] \<and> obj_get question ''content'' = JStr ''Hi '' \<and> obj_get reply ''content'' = JStr ''Hello''"
proof -
  have e: "in_conversation sample_page" "is_done (cp_sse sample_page)" "answer_text (cp_sse sample_page) = []"
    "js_trim (cp_value sample_page) \<noteq> []" "foldl step_text [] [''Hel'', ''lo''] = ''Hello''" "num_eq (Fin 200) (Fin 200)"
    "js_opt (JObj [(''code'', JNum (Fin 0))]) ''code'' = JNum (Fin 0)" "js_opt JUndef ''code'' \<noteq> JNum (Fin 0)"
    "cp_messages sample_page = []" "cp_value sample_page = ''Hi ''" by code_simp+
  have *: "cp_messages (chat_send_settled x (Some (Fin 200, JObj [(''code'', JNum (Fin 0))])) p) = cp_messages p" for x p
    using e(6,7) by (simp add: chat_send_settled_def)
  show ?thesis
    using chat_turn [OF ref.lodash_api_axioms e(1-4) _ e(5) _ e(6,7,8), of "''q''" "\<lambda>_. JUndef" "''d''" "''u''"
        "\<lparr>enableThinking = JUndef, enableInternet = JUndef\<rparr>" "''v''" JUndef] e(9,10) unfolding * by force
qed

section \<open>A new conversation\<close>

text \<open>
  The first message creates its conversation: if the server accepts it, the URL names the
  new conversation and no longer marks it as new, no other parameter changes, and the message is sent to
  it with the messages the server has stored; if it refuses, nothing is sent, asked or cleared.
\<close>

theorem first_message_creates_conversation:
  assumes new: "conversationId_of (cp_params p) = []" and entered: "js_trim (cp_value p) \<noteq> []" and idle: "is_done (cp_sse p)"
    and c: "c = generateConversationId uuid" "c \<noteq> []" and d: "d = server (setConversation dialogId (cp_value p) True (JStr c))"
    and stored: "js_opt (js_opt d ''data'') ''message'' = JArr ms" "ms \<noteq> []"
  shows "(no_error d \<longrightarrow> (\<exists>p' body m. chat_press_enter server dialogId uuid i opts p = (p', Some body)
       \<and> in_conversation p' \<and> conversationId_of (cp_params p') = c
       \<and> (\<forall>k. k \<noteq> ''conversationId'' \<longrightarrow> k \<noteq> ''isNew'' \<longrightarrow> map_of (cp_params p') k = map_of (cp_params p) k)
       \<and> obj_get body ''conversation_id'' = JStr c \<and> obj_get body ''messages'' = JArr (ms @ [JObj m])
       \<and> obj_get m ''content'' = JStr (js_trim (cp_value p)) \<and> obj_get m ''conversationId'' = JStr c))
     \<and> (\<not> no_error d \<longrightarrow> (\<exists>ps. chat_press_enter server dialogId uuid i opts p = (p\<lparr>cp_params := ps\<rparr>, None)))"
proof -
  obtain x xs where ms: "ms = x # xs" using stored(2) by (cases ms) auto
  have "no_error d \<longrightarrow> (\<exists>p' body m. chat_press_enter server dialogId uuid i opts p = (p', Some body)
       \<and> in_conversation p' \<and> conversationId_of (cp_params p') = c
       \<and> (\<forall>k. k \<noteq> ''conversationId'' \<longrightarrow> k \<noteq> ''isNew'' \<longrightarrow> map_of (cp_params p') k = map_of (cp_params p) k)
       \<and> obj_get body ''conversation_id'' = JStr c \<and> obj_get body ''messages'' = JArr (ms @ [JObj m])
       \<and> obj_get m ''content'' = JStr (js_trim (cp_value p)) \<and> obj_get m ''conversationId'' = JStr c)"
    using new entered idle c d stored
    by (auto simp: chat_press_enter_def createConversationBeforeSendMessage_def setConversationBoth_def setIsNew_def in_conversation_def
        conversationId_of_def isNew_of_def clearFiles_def sendMessage_body_def sent_messages_def user_message_def ms Let_def)
  moreover have "\<not> no_error d \<longrightarrow> (\<exists>ps. chat_press_enter server dialogId uuid i opts p = (p\<lparr>cp_params := ps\<rparr>, None))"
    using new entered d c(1) by (auto simp: chat_press_enter_def createConversationBeforeSendMessage_def Let_def)
  ultimately show ?thesis by blast
qed

definition echo_server :: chat_server where
  "echo_server req = JObj [(''code'', JNum (Fin 0)), (''data'', JObj [(''message'', obj_get req ''message'')])]"

theorem first_message_creates_conversation_witness:
  "\<exists>p' body m. chat_press_enter echo_server ''d'' ''u-1'' ''q'' \<lparr>enableThinking = JUndef, enableInternet = JUndef\<rparr>
        (sample_page\<lparr>cp_params := [(''tab'', ''x'')]\<rparr>) = (p', Some body)
     \<and> conversationId_of (cp_params p') = ''u1'' \<and> map_of (cp_params p') ''tab'' = Some ''x'' \<and> obj_get m ''content'' = JStr ''Hi''"
proof -
  let ?p = "sample_page\<lparr>cp_params := [(''tab'', ''x'')]\<rparr>"
  let ?d = "echo_server (setConversation ''d'' (cp_value ?p) True (JStr ''u1''))"
  have "conversationId_of (cp_params ?p) = []" "js_trim (cp_value ?p) = ''Hi''" "is_done (cp_sse ?p)" "''u1'' = generateConversationId ''u-1''"
    "no_error ?d" "map_of (cp_params ?p) ''tab'' = Some ''x''"
    "js_opt (js_opt ?d ''data'') ''message'' = JArr [JObj [(''role'', JStr ''assistant''), (''content'', JStr ''Hi ''), (''conversationId'', JStr ''u1'')]]"
    by code_simp+
  with first_message_creates_conversation [of ?p "''u1''" "''u-1''" ?d echo_server "''d''" _ "''q''" "\<lparr>enableThinking = JUndef, enableInternet = JUndef\<rparr>"]
  show ?thesis by force
qed

section \<open>Regenerating\<close>

text \<open>
  Regenerating an answer sends what precedes the question, and the question. When nothing precedes it, the empty list
  counts as missing and the whole conversation is sent, the question and its old answer included.
\<close>

theorem regenerate_history:
  assumes "find_index (\<lambda>x. msg_id x = JStr i) (cp_messages p) = Some k" and "msg_id m = JStr i" and "i \<noteq> []"
  shows "\<exists>p' body. chat_regenerate uuid m p = Some (p', body)
     \<and> obj_get body ''messages'' = JArr (map JObj (if k = 0 then cp_messages p else take k (cp_messages p)) @ [JObj (obj_put ''id'' (JStr uuid) m)])"
proof -
  have "k < length (cp_messages p)" using find_index_Some [OF assms(1)] by simp
  then have "map JObj (take k (cp_messages p)) = [] \<longleftrightarrow> k = 0" by auto
  then show ?thesis using assms
    by (cases "map JObj (take k (cp_messages p))")
       (auto simp: chat_regenerate_def regenerateMessage_def sendMessage_body_def sent_messages_def Let_def)
qed

text \<open>
  The answer to a regenerated question no longer belongs to it. The question keeps its id in the list
  while it is sent under a new one, the answer comes back under the new one, and removing the question
  leaves its answer.
\<close>

theorem regenerated_pair_not_removed:
  assumes L: "lodash_api L" and p: "cp_messages p = ms @ [question, reply]" "in_conversation p" "answer_text (cp_sse p) = []"
    and ids: "msg_id question = JStr i" "i \<noteq> []" "uuid \<noteq> []" "uuid \<noteq> i" "\<forall>x\<in>set ms. msg_id x \<noteq> JStr i"
    and t: "t \<noteq> []"
  shows "\<exists>p1 body p2 reply'. chat_regenerate uuid question p = Some (p1, body)
     \<and> chat_receive_all L u body [chat_chunk uuid t] p1 = Inr p2
     \<and> cp_messages p2 = ms @ [question, reply'] \<and> obj_get reply' ''content'' = JStr t
     \<and> removeMessageById i (cp_messages p2) = ms @ [reply']"
proof -
  have k: "find_index (\<lambda>x. msg_id x = JStr i) (ms @ question # zs) = Some (length ms)" for zs
    using ids(1,5) by (induction ms) auto
  define p1 where "p1 = fst (the (chat_regenerate uuid question p))"
  define body where "body = snd (the (chat_regenerate uuid question p))"
  have r: "chat_regenerate uuid question p = Some (p1, body)" "cp_messages p1 = (ms @ [question]) @ [clear_answer reply]"
    "in_conversation p1" "answer_text (cp_sse p1) = []"
    using p ids(1,2) k [of "[reply]"]
    by (simp_all add: p1_def body_def chat_regenerate_def regenerateMessage_def removeMessagesAfterCurrentMessage_def clear_last_def
        in_conversation_def answer_text_def setDoneValue_def butlast_append Let_def)
  from receive_steps [OF L ids(3) r(3,2), of u body "[t]"] r(4) t
  obtain p2 reply' where p2: "chat_receive_all L u body [chat_chunk uuid t] p1 = Inr p2" "cp_messages p2 = ms @ [question, reply']"
    "msg_id reply' = JStr uuid" "obj_get reply' ''content'' = JStr t" by (auto simp: step_text_def)
  moreover have "removeMessageById i (cp_messages p2) = ms @ [reply']"
    using p2(2,3) ids(1,4,5) by (auto simp: removeMessageById_def filter_id_conv)
  ultimately show ?thesis using r(1) by blast
qed

definition answered_page :: chat_page where
  "answered_page = sample_page\<lparr>cp_messages := [[(''id'', JStr ''q''), (''content'', JStr ''Hi'')], [(''id'', JStr ''q''), (''content'', JStr ''Hello'')]]\<rparr>"

theorem regenerated_pair_not_removed_witness:
  "\<exists>p1 body p2 reply'. chat_regenerate ''r'' [(''id'', JStr ''q''), (''content'', JStr ''Hi'')] answered_page = Some (p1, body)
     \<and> chat_receive_all ref_libs ''v'' body [chat_chunk ''r'' ''Good day''] p1 = Inr p2
     \<and> removeMessageById ''q'' (cp_messages p2) = [reply'] \<and> obj_get reply' ''content'' = JStr ''Good day''"
proof -
  have e: "cp_messages answered_page = [] @ [[(''id'', JStr ''q''), (''content'', JStr ''Hi'')], [(''id'', JStr ''q''), (''content'', JStr ''Hello'')]]"
    "in_conversation answered_page" "answer_text (cp_sse answered_page) = []" by code_simp+
  show ?thesis
    using regenerated_pair_not_removed [OF ref.lodash_api_axioms e, of "''q''" "''r''" "''Good day''" "''v''"] by force
qed

section \<open>Sending again too early, and uploads\<close>

text \<open>
  The text of an answer is emptied one second after the stream has ended. A message that is sent before continues
  the old text: the new answer is shown with the old one in front of it.
\<close>

theorem early_chat_answer_has_old_text:
  assumes "lodash_api L" and "q \<noteq> []" and "in_conversation p" and "cp_messages p = ms @ [x]"
    and "answer_text (cp_sse p) = old" "old \<noteq> []" and "\<not> starts_with t old"
  shows "\<exists>p' y. chat_receive L u body (chat_chunk q t) p = Inr p' \<and> cp_messages p' = ms @ [y] \<and> obj_get y ''content'' = JStr (old @ t)"
  using receive_step [OF assms(1-4), of u body t] assms(5-7) by (auto simp: step_text_def)

text \<open>
  A file that the chat has uploaded and parsed without an error is never shown as complete: the
  request reports the progress 100 and the success in one go, the success is applied first, and the pending frame
  sets the file back to uploading, with the progress that was reported first in this frame.
\<close>

theorem parsed_file_stays_uploading:
  assumes "map_of (st_files s) (file_ref f) = Some x"
  shows "\<exists>s' y. report Frame (fold report (uploadAndParseFile f ps (Parsed d)) (s, None)) = (s', None)
     \<and> map_of (st_files s') (file_ref f) = Some y \<and> fs_status y = UploadingFile
     \<and> fs_progress y = (case ps of [] \<Rightarrow> Fin 100 | p # _ \<Rightarrow> clamp p)"
proof -
  have pending: "fold report (map (Progress f) qs) (s, Some x) = (s, Some x)" for qs x by (induction qs) simp_all
  have "fold report (map (Progress f) ps @ [Progress f (Fin 100)]) (s, None) = (s, Some (f, case ps of [] \<Rightarrow> Fin 100 | p # _ \<Rightarrow> clamp p))"
    by (cases ps) (simp_all add: pending clamp_def)
  then have "fold report (uploadAndParseFile f ps (Parsed d)) (s, None)
      = report (Succeeded f) (s, Some (f, case ps of [] \<Rightarrow> Fin 100 | p # _ \<Rightarrow> clamp p))"
    by (simp add: uploadAndParseFile_def)
  then show ?thesis using assms by (simp add: map_of_change_file)
qed

theorem parsed_file_stays_uploading_witness:
  "\<exists>s' y. report Frame (fold report (uploadAndParseFile (sample_file 1 ''a.png'') [Fin 49] (Parsed (1, JObj [])))
        (fst (onFilesChange sample_config [sample_file 1 ''a.png''] new_store), None)) = (s', None)
     \<and> map_of (st_files s') 1 = Some y \<and> fs_status y = UploadingFile \<and> fs_progress y = Fin 49"
proof -
  have "map_of (st_files (fst (onFilesChange sample_config [sample_file 1 ''a.png''] new_store))) (file_ref (sample_file 1 ''a.png''))
      = Some (idle_file (sample_file 1 ''a.png''))" "clamp (Fin 49) = Fin 49" by code_simp+
  with parsed_file_stays_uploading [OF this(1), of "[Fin 49]" "(1, JObj [])"] show ?thesis by (simp add: sample_file_def)
qed

lemma handleUploadFile_parsed:
  assumes "distinct (map (file_ref \<circ> fst) fs)"
  shows "let q = handleUploadFile (map (\<lambda>(f, d). (f, Parsed d)) fs) p in
     cp_files q = cp_files p @ map snd fs \<and> cp_uploading q = cp_uploading p
     \<and> (\<forall>(f, d)\<in>set fs. map_of (cp_fileMap q) (file_ref f) = Some d)
     \<and> (\<forall>k. k \<notin> (file_ref \<circ> fst) ` set fs \<longrightarrow> map_of (cp_fileMap q) k = map_of (cp_fileMap p) k)"
  using assms unfolding handleUploadFile_def Let_def
proof (induction fs arbitrary: p)
  case (Cons x fs)
  obtain g e where x: "x = (g, e)" by (cases x)
  have "distinct (map (file_ref \<circ> fst) fs)" "file_ref g \<notin> (file_ref \<circ> fst) ` set fs" using Cons.prems by (simp_all add: x comp_def)
  with Cons.IH [OF this(1), of "file_parsed g (Parsed e) p"] show ?case by (auto simp: x file_parsed_def update_conv')
qed simp

text \<open>Removing a file takes back exactly its own attachment.\<close>

theorem removed_attachment_exact:
  assumes "cp_files p = []" and "distinct (map (file_ref \<circ> fst) fs)" and "distinct (map (fst \<circ> snd) fs)" and "\<not> cp_uploading p" and "(g, d) \<in> set fs"
  shows "cp_files (removeChatFile g (handleUploadFile (map (\<lambda>(f, d). (f, Parsed d)) fs) p)) = map snd (filter (\<lambda>(f, d). file_ref f \<noteq> file_ref g) fs)"
proof -
  have "fst e = fst d \<longleftrightarrow> file_ref f = file_ref g" if "(f, e) \<in> set fs" for f e
    using that assms(2,3,5) by (auto simp: distinct_map dest: inj_onD [where x = "(f, e)" and y = "(g, d)"])
  then have "filter (\<lambda>x. fst x \<noteq> fst d) (map snd fs) = map snd (filter (\<lambda>(f, d). file_ref f \<noteq> file_ref g) fs)"
    unfolding filter_map comp_def by (intro arg_cong [where f = "map snd"] filter_cong) auto
  moreover have "map_of (cp_fileMap (handleUploadFile (map (\<lambda>(f, d). (f, Parsed d)) fs) p)) (file_ref g) = Some d"
    using handleUploadFile_parsed [OF assms(2), of p] assms(5) by (auto simp: Let_def)
  ultimately show ?thesis using assms(1,4) handleUploadFile_parsed [OF assms(2), of p] by (simp add: removeChatFile_def Let_def)
qed

end
