(* ===== verification/Explore_Session.thy ===== *)
theory Explore_Session
  imports Agent_Session Form_Data
begin

text \<open>
  The sessions of the explore page of an agent (\<open>pages/agent/explore\<close>), its shared page
  (\<open>pages/agent/hooks/use-send-shared-message.ts\<close>) and the forms an agent waits for (\<open>hooks/use-chat-logic.ts\<close>),
  on top of the chat of \<open>useSendAgentMessage\<close>. The URL is the pair of its search parameters; navigating runs the
  effects that depend on it. A handler that waits for the server is two functions, and the second one reads the
  values its closure had when the first one ran.
\<close>

section \<open>The page\<close>

record explore_page =
  ex_sessionId :: "string option"        \<comment> \<open>\<open>sessionId\<close> of the URL\<close>
  ex_isNew :: "string option"            \<comment> \<open>\<open>isNew\<close> of the URL\<close>
  ex_creating :: bool                    \<comment> \<open>\<open>isCreatingSession.current\<close>\<close>
  ex_local :: bool                       \<comment> \<open>\<open>hasLocalMessageRef.current\<close>\<close>
  ex_sessions :: "jsval obj list"        \<comment> \<open>the sessions of the server\<close>
  ex_list :: "jsval obj list"            \<comment> \<open>the sessions listed\<close>
  ex_beginParams :: "jsval obj list"
  ex_dialog :: bool
  ex_chat :: agent_chat

definition new_explore :: explore_page where
  "new_explore = \<lparr>ex_sessionId = None, ex_isNew = None, ex_creating = False, ex_local = False, ex_sessions = [], ex_list = [],
     ex_beginParams = [], ex_dialog = False, ex_chat = new_chat\<rparr>"

definition session_prologue :: "node list \<Rightarrow> jsval" where
  \<comment> \<open>\<open>useGetBeginNodePrologue\<close> of the explore page, over the graph that was fetched\<close>
  "session_prologue ns =
     (case find (\<lambda>n. nid n = BeginId) ns of
        None \<Rightarrow> JUndef
      | Some n \<Rightarrow> (let f = (case node_form n of None \<Rightarrow> JObj [] | Some f \<Rightarrow> f)
                   in if truthy (js_opt f ''enablePrologue'') then js_opt f ''prologue'' else JUndef))"

definition add_session_prologue :: "string \<Rightarrow> jsval \<Rightarrow> explore_page \<Rightarrow> explore_page" where
  "add_session_prologue u prologue p =
     (if truthy prologue then p\<lparr>ex_chat := (ex_chat p)\<lparr>chat_messages := addPrologue u (js_to_string prologue) (chat_messages (ex_chat p))\<rparr>\<rparr>
      else p)"

definition clear_messages :: "explore_page \<Rightarrow> explore_page" where
  "clear_messages p = p\<lparr>ex_chat := (ex_chat p)\<lparr>chat_messages := []\<rparr>\<rparr>"

definition url_effects :: "string \<Rightarrow> jsval \<Rightarrow> explore_page \<Rightarrow> explore_page" where
  \<comment> \<open>the effects that run when the parameters of the URL have changed\<close>
  "url_effects u prologue p =
     (let p1 = (if ex_isNew p \<noteq> None \<and> ex_sessionId p = None then add_session_prologue u prologue (clear_messages p) else p);
          p2 = p1\<lparr>ex_local := False\<rparr>
      in if ex_sessionId p2 = None \<and> ex_isNew p2 = None \<and> run_done (chat_run (ex_chat p2)) then clear_messages p2 else p2)"

definition setSessionId :: "string \<Rightarrow> jsval \<Rightarrow> string \<Rightarrow> bool \<Rightarrow> explore_page \<Rightarrow> explore_page" where
  "setSessionId u prologue i isNewParam p =
     (let i' = (if i = [] then None else Some i); w = (if isNewParam then Some ''true'' else None);
          p' = p\<lparr>ex_sessionId := i', ex_isNew := w\<rparr>
      in if i' = ex_sessionId p \<and> w = ex_isNew p then p' else url_effects u prologue p')"

definition session_fetched :: "jsval \<Rightarrow> explore_page \<Rightarrow> explore_page" where
  \<comment> \<open>the effect on \<open>session\<close>, with the session that was fetched\<close>
  "session_fetched session p =
     (if ex_local p then p
      else case (ex_sessionId p, js_opt session ''message'') of
        (Some i, JArr ms) \<Rightarrow>
          if js_opt session ''id'' = JStr i then p\<lparr>ex_chat := (ex_chat p)\<lparr>chat_messages := map entries ms\<rparr>\<rparr> else p
      | _ \<Rightarrow> p)"

section \<open>The list of sessions\<close>

definition temporary_session :: "string \<Rightarrow> jsnum \<Rightarrow> jsval obj" where
  "temporary_session sessionId now =
     [(''id'', JStr sessionId), (''message'', JArr []), (''create_date'', JStr []), (''create_time'', JNum now),
      (''update_date'', JStr []), (''update_time'', JNum now), (''round'', JNum (Fin 0)), (''thumb_up'', JNum (Fin 0)),
      (''errors'', JStr []), (''source'', JStr []), (''user_id'', JStr []), (''dsl'', JStr []), (''reference'', JObj []),
      (''is_new'', JBool True)]"

definition addTemporarySession :: "string \<Rightarrow> jsval \<Rightarrow> string \<Rightarrow> jsnum \<Rightarrow> explore_page \<Rightarrow> explore_page" where
  \<comment> \<open>with a new id and the time in seconds\<close>
  "addTemporarySession u prologue sessionId now p =
     setSessionId u prologue [] True (p\<lparr>ex_list := temporary_session sessionId now # ex_sessions p\<rparr>)"

definition removeTemporarySession :: "string \<Rightarrow> explore_page \<Rightarrow> explore_page" where
  "removeTemporarySession sessionId p = p\<lparr>ex_list := filter (\<lambda>s. obj_get s ''id'' \<noteq> JStr sessionId) (ex_list p)\<rparr>"

definition sessions_fetched :: "jsval obj list \<Rightarrow> explore_page \<Rightarrow> explore_page" where
  "sessions_fetched l p = p\<lparr>ex_sessions := l, ex_list := l\<rparr>"

definition handleSessionSelect :: "string \<Rightarrow> jsval \<Rightarrow> jsval obj \<Rightarrow> explore_page \<Rightarrow> explore_page" where
  \<comment> \<open>a click on the card of a session; the request for the session follows\<close>
  "handleSessionSelect u prologue session p =
     setSessionId u prologue (js_to_string (obj_get session ''id'')) (truthy (obj_get session ''is_new'')) p"

definition delete_session :: "string \<Rightarrow> jsval \<Rightarrow> jsval obj \<Rightarrow> jsval \<Rightarrow> explore_page \<Rightarrow> explore_page" where
  \<comment> \<open>with the code the server answers to the deletion of a session it has\<close>
  "delete_session u prologue session code p =
     (let i = js_to_string (obj_get session ''id'') in
      if truthy (obj_get session ''is_new'') then removeTemporarySession i p
      else if code = JNum (Fin 0) \<and> ex_sessionId p = Some i then setSessionId u prologue [] True p else p)"

section \<open>Parameters\<close>

definition handleParametersOk :: "jsval obj list \<Rightarrow> explore_page \<Rightarrow> explore_page" where
  "handleParametersOk params p = p\<lparr>ex_beginParams := params, ex_dialog := False\<rparr>"

definition session_begin_inputs :: "node list \<Rightarrow> jsval obj list" where
  "session_begin_inputs ns =
     buildBeginInputListFromObject
       (js_or (case find (\<lambda>n. nid n = BeginId) ns of
                 None \<Rightarrow> JUndef | Some n \<Rightarrow> js_opt (case node_form n of None \<Rightarrow> JUndef | Some f \<Rightarrow> f) ''inputs'') (JObj []))"

definition shouldShowParameterDialog :: "jsval obj list \<Rightarrow> explore_page \<Rightarrow> explore_page" where
  "shouldShowParameterDialog beginInputs p =
     (if beginInputs \<noteq> [] \<and> ex_beginParams p = [] then p\<lparr>ex_dialog := True\<rparr> else p)"

section \<open>Sending\<close>

datatype press_result =
    Ignored
  | Create_Session jsval            \<comment> \<open>the request that creates a session\<close>
  | Sent "jsval obj option"         \<comment> \<open>the request that sends the message, if one is sent\<close>

definition explore_env :: "chat_env \<Rightarrow> explore_page \<Rightarrow> chat_env" where
  "explore_env env p = env\<lparr>env_beginParams := Some (ex_beginParams p)\<rparr>"

definition send_from :: "libs \<Rightarrow> chat_env \<Rightarrow> string \<Rightarrow> jsval \<Rightarrow> agent_chat \<Rightarrow> agent_chat \<Rightarrow> agent_chat \<times> jsval obj option" where
  \<comment> \<open>\<open>handlePressEnter\<close> of the chat with the values of the closure \<open>snap\<close>, applied to the state \<open>cur\<close>\<close>
  "send_from L env u exploreSessionId snap cur =
     (if js_trim (chat_value snap) = [] then (cur, None)
      else let request = snd (handlePressEnter L env u exploreSessionId snap);
               cur1 = (if run_done (chat_run snap) then cur\<lparr>chat_value := [], chat_run := start_run (chat_run cur)\<rparr> else cur)
           in (cur1\<lparr>chat_messages := addNewestOneQuestion u
                 (buildRequestBody u (chat_value snap) @ [(''files'', JArr (map file_value (fileList (chat_uploads snap))))]) (chat_messages cur1)\<rparr>,
               request))"

definition session_press ::
    "libs \<Rightarrow> chat_env \<Rightarrow> string \<Rightarrow> jsval \<Rightarrow> string \<Rightarrow> explore_page \<Rightarrow> explore_page \<times> press_result" where
  \<comment> \<open>up to the first request; \<open>handleSessionPressEnter\<close> marks the local message first\<close>
  "session_press L env u prologue canvasId p0 =
     (let p = (if js_trim (chat_value (ex_chat p0)) \<noteq> [] then p0\<lparr>ex_local := True\<rparr> else p0) in
      if ex_creating p then (p, Ignored)
      else let p1 = (if ex_sessionId p = None \<and> ex_isNew p = None \<and> chat_messages (ex_chat p) = []
                     then add_session_prologue u prologue p else p)
           in if ex_sessionId p = None \<and> canvasId \<noteq> []
              then (let t = js_trim (chat_value (ex_chat p))
                    in (p1\<lparr>ex_creating := True\<rparr>, Create_Session (JObj [(''id'', JStr canvasId),
                          (''name'', JStr (if t = [] then ''New Session'' else t))])))
              else (case send_from L (explore_env env p) u (case ex_sessionId p of None \<Rightarrow> JUndef | Some i \<Rightarrow> JStr i)
                      (ex_chat p) (ex_chat p1) of
                      (c, r) \<Rightarrow> (p1\<lparr>ex_chat := c\<rparr>, Sent r)))"

definition session_created ::
    "libs \<Rightarrow> chat_env \<Rightarrow> string \<Rightarrow> jsval \<Rightarrow> agent_chat \<Rightarrow> string \<Rightarrow> explore_page \<Rightarrow> explore_page \<times> jsval obj option" where
  \<comment> \<open>the server has created the session with this id; \<open>snap\<close> is the chat when the message was sent\<close>
  "session_created L env u prologue snap i p =
     (let p1 = setSessionId u prologue i False p in
      case send_from L (explore_env env p) u (JStr i) snap (ex_chat p1) of (c, r) \<Rightarrow> (p1\<lparr>ex_chat := c\<rparr>, r))"

definition creation_over :: "explore_page \<Rightarrow> explore_page" where
  \<comment> \<open>100 milliseconds after the session was created, and at once when that failed\<close>
  "creation_over p = p\<lparr>ex_creating := False\<rparr>"

section \<open>The shared page of an agent\<close>

definition DATA_PREFIX :: string where
  "DATA_PREFIX = ''data_''"

definition agent_shared_data :: "(string \<times> string) list \<Rightarrow> string obj" where
  \<comment> \<open>the values passed in the URL\<close>
  "agent_shared_data params = obj_of_entries (map (\<lambda>(k, v). (drop (length DATA_PREFIX) k, v)) (filter (\<lambda>(k, _). starts_with k DATA_PREFIX) params))"

definition agent_visibleAvatar :: "(string \<times> string) list \<Rightarrow> bool" where
  "agent_visibleAvatar params =
     (case map_of params ''visible_avatar'' of None \<Rightarrow> True | Some v \<Rightarrow> if v = [] then True else v \<noteq> ''1'')"

definition shared_url :: "(string \<Rightarrow> string) \<Rightarrow> (string \<times> string) list \<Rightarrow> string" where
  \<comment> \<open>with \<open>encodeURIComponent\<close>\<close>
  "shared_url encode params =
     ''/api/v1/'' @ (if map_of params ''from'' = Some ''agent'' then ''agentbots'' else ''chatbots'') @ ''/''
     @ (case map_of params ''shared_id'' of None \<Rightarrow> ''null'' | Some i \<Rightarrow> i) @ ''/completions''
     @ (case map_of params ''release'' of None \<Rightarrow> [] | Some r \<Rightarrow> if r = [] then [] else ''?release='' @ encode r)"

record shared_page =
  sh_params :: "jsval obj list"
  sh_taskSent :: bool                 \<comment> \<open>\<open>sendedTaskMessage.current\<close> of the page\<close>
  sh_dialog :: bool
  sh_chat :: agent_chat

definition shared_ok :: "libs \<Rightarrow> chat_env \<Rightarrow> string \<Rightarrow> jsval obj list \<Rightarrow> shared_page \<Rightarrow> shared_page \<times> jsval obj option" where
  "shared_ok L env u params p =
     (if env_isTaskMode env
      then (case sendMessage L env (buildRequestBody u []) (Some params) JUndef (sh_chat p) of
              (c, r) \<Rightarrow> (p\<lparr>sh_chat := c, sh_dialog := False\<rparr>, Some r))
      else (p\<lparr>sh_params := params, sh_dialog := False\<rparr>, None))"

definition runTask :: "libs \<Rightarrow> chat_env \<Rightarrow> string \<Rightarrow> jsval \<Rightarrow> shared_page \<Rightarrow> shared_page \<times> jsval obj option" where
  \<comment> \<open>with the inputs of the agent that was fetched\<close>
  "runTask L env u inputs p =
     (if env_isTaskMode env \<and> lodash_isEmpty L inputs \<and> \<not> sh_taskSent p
      then (case shared_ok L env u [] p of (q, r) \<Rightarrow> (q\<lparr>sh_taskSent := True\<rparr>, r)) else (p, None))"

section \<open>Forms an agent waits for\<close>

definition getInputs :: "libs \<Rightarrow> message \<Rightarrow> jsval" where
  "getInputs L m = lodash_get L (JObj m) [''data'', ''inputs''] (JObj [])"

definition buildInputList :: "libs \<Rightarrow> message \<Rightarrow> jsval obj list" where
  "buildInputList L m = map (\<lambda>(k, v). obj_put ''key'' (JStr k) (spread v)) (entries (getInputs L m))"

definition await_ok :: "libs \<Rightarrow> string \<Rightarrow> message \<Rightarrow> jsval obj list \<Rightarrow> jsval obj" where
  \<comment> \<open>\<open>handleOk\<close>: the body handed to \<open>sendFormMessage\<close>\<close>
  "await_ok L canvasId m vals =
     [(''inputs'', JObj (buildBeginQueryWithObject (entries (getInputs L m)) vals)), (''id'', JStr canvasId)]"

definition isWaitting :: "message list \<Rightarrow> bool" where
  "isWaitting ms =
     list_ex (\<lambda>(i, m). obj_get m ''role'' = JStr ''assistant'' \<and> int (length ms) - 1 = int i \<and> truthy (obj_get m ''data''))
       (enumerate 0 ms)"

section \<open>Properties\<close>

lemma send_from_sends:
  assumes "js_trim (chat_value snap) \<noteq> []" and "run_done (chat_run snap)"
  shows "\<exists>c r m. send_from L env u x snap cur = (c, Some r) \<and> obj_get r ''query'' = JStr (js_trim (chat_value snap))
     \<and> obj_get r ''session_id'' = js_or (chat_sessionId snap) x
     \<and> chat_messages c = chat_messages cur @ [m] \<and> obj_get m ''content'' = JStr (js_trim (chat_value snap))
     \<and> chat_value c = [] \<and> chat_sessionId c = chat_sessionId cur"
  using assms
  by (simp add: send_from_def handlePressEnter_def sendMessage_def send_params_def buildRequestBody_def addNewestOneQuestion_def Let_def)

lemma set_session_new: "i \<noteq> [] \<Longrightarrow> ex_sessionId (setSessionId u prologue i False p) = Some i
    \<and> ex_chat (setSessionId u prologue i False p) = ex_chat p"
  by (simp add: setSessionId_def url_effects_def Let_def)

lemma select_keeps_session:
  "chat_sessionId (ex_chat (setSessionId u prologue i b p)) = chat_sessionId (ex_chat p)
   \<and> chat_value (ex_chat (setSessionId u prologue i b p)) = chat_value (ex_chat p)
   \<and> chat_run (ex_chat (setSessionId u prologue i b p)) = chat_run (ex_chat p)
   \<and> ex_creating (setSessionId u prologue i b p) = ex_creating p"
  by (simp add: setSessionId_def url_effects_def add_session_prologue_def clear_messages_def Let_def)


definition explore_env_example :: chat_env where
  "explore_env_example = \<lparr>env_agentId = JStr ''a'', env_hint = ''running'', env_inputs = [], env_beginParams = None,
     env_releaseMode = JNull, env_isShared = False, env_isTaskMode = False\<rparr>"

definition typed_page :: "string \<Rightarrow> explore_page" where
  "typed_page v = new_explore\<lparr>ex_chat := new_chat\<lparr>chat_value := v\<rparr>\<rparr>"

lemma typed_page_simps [simp]:
  "ex_sessionId (typed_page v) = None" "ex_creating (typed_page v) = False" "chat_value (ex_chat (typed_page v)) = v"
  "run_done (chat_run (ex_chat (typed_page v)))" "chat_sessionId (ex_chat (typed_page v)) = JNull"
  by (simp_all add: typed_page_def new_explore_def new_chat_def idle_run_def)

lemma trim_hello: "js_trim ''hello'' = ''hello''"
  by code_simp


text \<open>
  After an answer has arrived in one session, a message sent in another session of the explore page goes to the
  first one: the id the chat has learnt from the answer stays when another session is selected, and it wins over the session of the URL.
\<close>

theorem selected_session_ignored:
  assumes "chat_sessionId (ex_chat p) = JStr a" "a \<noteq> []" "\<not> ex_creating p"
    and "js_trim (chat_value (ex_chat p)) \<noteq> []" "run_done (chat_run (ex_chat p))"
    and "obj_get session ''id'' = JStr b" "b \<noteq> []" "\<not> truthy (obj_get session ''is_new'')"
  shows "\<exists>q r. session_press L env u prologue canvasId (handleSessionSelect u' prologue session p) = (q, Sent (Some r))
     \<and> ex_sessionId q = Some b \<and> obj_get r ''session_id'' = JStr a"
proof -
  let ?s = "setSessionId u' prologue b False p"
  have s: "handleSessionSelect u' prologue session p = ?s" "ex_sessionId ?s = Some b"
    using assms(6-8) set_session_new by (simp_all add: handleSessionSelect_def)
  note k = select_keeps_session [of u' prologue b False p]
  obtain c r where "send_from L (explore_env env (?s\<lparr>ex_local := True\<rparr>)) u (JStr b) (ex_chat ?s) (ex_chat ?s) = (c, Some r)" "obj_get r ''session_id'' = JStr a"
    using send_from_sends [of "ex_chat ?s" L "explore_env env (?s\<lparr>ex_local := True\<rparr>)" u "JStr b" "ex_chat ?s"] k assms by (auto simp: js_or_def)
  then show ?thesis unfolding s(1) using s(2) k assms(3,4) by (auto simp: session_press_def Let_def)
qed

theorem selected_session_ignored_witness:
  "\<exists>q r. session_press ref_libs explore_env_example ''u'' JUndef ''a''
       (handleSessionSelect ''v'' JUndef [(''id'', JStr ''second'')]
          ((typed_page ''hello'')\<lparr>ex_chat := (ex_chat (typed_page ''hello''))\<lparr>chat_sessionId := JStr ''first''\<rparr>\<rparr>)) = (q, Sent (Some r))
     \<and> ex_sessionId q = Some ''second'' \<and> obj_get r ''session_id'' = JStr ''first''"
  by (rule selected_session_ignored) (simp_all add: trim_hello)

text \<open>
  Clicking the card of a session that was only just added puts the id the client made up into the URL. A message is then
  sent in that session, which the server does not have; no session is created.
\<close>

theorem temporary_card_creates_none:
  assumes "chat_sessionId (ex_chat p) = JNull" "\<not> ex_creating p" "t \<noteq> []"
    and "js_trim (chat_value (ex_chat p)) \<noteq> []" "run_done (chat_run (ex_chat p))"
  shows "\<exists>q r. session_press L env u prologue canvasId
       (handleSessionSelect u' prologue (hd (ex_list (addTemporarySession u'' prologue t now p))) (addTemporarySession u'' prologue t now p)) = (q, Sent (Some r))
     \<and> obj_get r ''session_id'' = JStr t"
proof -
  let ?p = "addTemporarySession u'' prologue t now p"
  let ?s = "setSessionId u' prologue t True ?p"
  have l: "hd (ex_list ?p) = temporary_session t now"
    by (simp add: addTemporarySession_def setSessionId_def url_effects_def add_session_prologue_def clear_messages_def Let_def)
  have s: "handleSessionSelect u' prologue (hd (ex_list ?p)) ?p = ?s"
    by (simp add: handleSessionSelect_def l temporary_session_def)
  have url: "ex_sessionId ?s = Some t" using assms(3) by (simp add: setSessionId_def url_effects_def Let_def)
  have k: "chat_sessionId (ex_chat ?s) = JNull" "chat_value (ex_chat ?s) = chat_value (ex_chat p)"
      "chat_run (ex_chat ?s) = chat_run (ex_chat p)" "ex_creating ?s = ex_creating p"
    using assms(1) select_keeps_session [of u' prologue t True ?p]
      select_keeps_session [of u'' prologue "[]" True "p\<lparr>ex_list := temporary_session t now # ex_sessions p\<rparr>"]
    by (simp_all add: addTemporarySession_def)
  obtain c r where "send_from L (explore_env env (?s\<lparr>ex_local := True\<rparr>)) u (JStr t) (ex_chat ?s) (ex_chat ?s) = (c, Some r)" "obj_get r ''session_id'' = JStr t"
    using send_from_sends [of "ex_chat ?s" L "explore_env env (?s\<lparr>ex_local := True\<rparr>)" u "JStr t" "ex_chat ?s"] k assms by (auto simp: js_or_def)
  then show ?thesis unfolding s using url k assms(2,4) by (auto simp: session_press_def Let_def)
qed

theorem temporary_card_creates_none_witness:
  "\<exists>q r. session_press ref_libs explore_env_example ''u'' JUndef ''a''
       (handleSessionSelect ''v'' JUndef (hd (ex_list (addTemporarySession ''w'' JUndef ''tmp'' (Fin 1) (typed_page ''hello''))))
          (addTemporarySession ''w'' JUndef ''tmp'' (Fin 1) (typed_page ''hello''))) = (q, Sent (Some r))
     \<and> obj_get r ''session_id'' = JStr ''tmp''"
  by (rule temporary_card_creates_none) (simp_all add: trim_hello)

lemma isWaitting_last: "isWaitting (ms @ [m]) \<longleftrightarrow> obj_get m ''role'' = JStr ''assistant'' \<and> truthy (obj_get m ''data'')"
  by (auto simp: isWaitting_def list_ex_iff in_set_enumerate_eq nth_append)

end
