(* ===== verification/Dsl_Export.thy ===== *)
theory Dsl_Export
  imports Dsl_Builder Initial_Values History
begin

text \<open>
  The file an agent is exported to, and the agents that are created, or imported from such a file
  (\<open>pages/agent/hooks/use-export-json.ts\<close>, \<open>pages/agents/use-import-json.ts\<close>,
  \<open>pages/agents/hooks/use-create-agent.ts\<close>). The DSL becomes a value of \<^typ>\<open>jsval\<close>, with the fields of its nodes and
  edges that the model has. The three functions of lodash that only this code uses are the arguments in \<open>clone_libs\<close>;
  \<open>JSON.parse\<close> is an argument of the import.

  The lemmas show which keys of third-party services the export removes and which it leaves in the file, and that
  an exported agent is imported with the graph, the variables and the globals of the file.
\<close>

section \<open>Library functions\<close>

record clone_libs =
  lodash_cloneDeepWith :: "(jsval \<Rightarrow> jsval option) \<Rightarrow> jsval \<Rightarrow> jsval"
  lodash_isPlainObject :: "jsval \<Rightarrow> bool"
  lodash_pick :: "jsval obj \<Rightarrow> string list \<Rightarrow> jsval obj"

fun is_plain :: "jsval \<Rightarrow> bool" where
  "is_plain (JObj _) = True"
| "is_plain _ = False"

text \<open>
  The documentation: \<open>cloneDeepWith\<close> takes the value the customizer produces for a value, and clones recursively where
  it produces none; \<open>pick\<close> gives the properties picked; \<open>get\<close> reads a path, and a key of a primitive value is missing.
\<close>

locale clone_api = lodash_api L for L :: libs +
  fixes X :: clone_libs
  assumes clone_custom: "f v = Some w \<Longrightarrow> lodash_cloneDeepWith X f v = w"
    and clone_array: "f (JArr xs) = None \<Longrightarrow> lodash_cloneDeepWith X f (JArr xs) = JArr (map (lodash_cloneDeepWith X f) xs)"
    and clone_object: "f (JObj ob) = None \<Longrightarrow>
      lodash_cloneDeepWith X f (JObj ob) = JObj (map (\<lambda>(k, v). (k, lodash_cloneDeepWith X f v)) ob)"
    and clone_other: "f v = None \<Longrightarrow> \<not> is_object v \<Longrightarrow> lodash_cloneDeepWith X f v = v"
    and plain: "lodash_isPlainObject X v = is_plain v"
    and pick: "distinct (keys ob) \<Longrightarrow> list_all plain_key ks \<Longrightarrow> distinct ks \<Longrightarrow>
      lodash_pick X ob ks = concat (map (\<lambda>k. if k \<in> set (keys ob) then [(k, obj_get ob k)] else []) ks)"
    and get_two: "\<not> is_array_index m \<Longrightarrow> m \<noteq> ''length'' \<Longrightarrow>
      lodash_get L (JObj ob) [k, m] JUndef = js_opt (obj_get ob k) m"

section \<open>The DSL as a value\<close>

definition opt_field :: "string \<Rightarrow> ('a \<Rightarrow> jsval) \<Rightarrow> 'a option \<Rightarrow> jsval obj" where
  "opt_field k f v = (case v of None \<Rightarrow> [] | Some x \<Rightarrow> [(k, f x)])"

fun nullable_val :: "string nullable \<Rightarrow> jsval" where
  "nullable_val Undefined = JUndef"
| "nullable_val Null = JNull"
| "nullable_val (Val s) = JStr s"

definition num_val :: "rat \<Rightarrow> jsval" where
  "num_val q = JNum (Fin q)"

definition node_json :: "node \<Rightarrow> jsval" where
  "node_json n = JObj ([(''id'', JStr (nid n))] @ opt_field ''type'' JStr (ntype n)
     @ [(''position'', JObj [(''x'', num_val (px (position n))), (''y'', num_val (py (position n)))]),
        (''data'', JObj ([(''label'', JStr (nlabel n)), (''name'', JStr (node_name n))] @ opt_field ''form'' id (node_form n)))]
     @ opt_field ''parentId'' JStr (parentId n) @ opt_field ''width'' num_val (width n) @ opt_field ''height'' num_val (height n)
     @ opt_field ''selected'' JBool (selected n) @ opt_field ''dragging'' JBool (dragging n)
     @ opt_field ''draggable'' JBool (draggable n) @ opt_field ''dragHandle'' JStr (dragHandle n)
     @ opt_field ''extent'' JStr (extent n))"

definition edge_json :: "edge \<Rightarrow> jsval" where
  "edge_json e = JObj [(''id'', JStr (eid e)), (''source'', JStr (source e)), (''target'', JStr (target e)),
     (''sourceHandle'', nullable_val (sourceHandle e)), (''targetHandle'', nullable_val (targetHandle e)),
     (''data'', edata e)]"

definition graph_json :: "node list \<Rightarrow> edge list \<Rightarrow> jsval" where
  "graph_json ns es = JObj [(''nodes'', JArr (map node_json ns)), (''edges'', JArr (map edge_json es))]"

definition component_json :: "dsl_component \<Rightarrow> jsval" where
  "component_json c = JObj ([(''obj'', JObj (cobj c)), (''downstream'', JArr (map JStr (downstream c))),
     (''upstream'', JArr (map JStr (upstream c)))] @ opt_field ''parent_id'' JStr (parent_id c))"

definition dsl_json :: "dsl \<Rightarrow> jsval obj" where
  "dsl_json d = [(''globals'', JObj (dsl_globals d))] @ opt_field ''variables'' JObj (dsl_variables d)
     @ [(''graph'', graph_json (dsl_nodes d) (dsl_edges d)),
        (''components'', JObj (map (\<lambda>(k, c). (k, component_json c)) (dsl_components d)))]"

section \<open>The DSLs of new agents and pipelines\<close>

definition empty_globals :: "jsval obj" where
  "empty_globals = [(''sys.query'', JStr []), (''sys.user_id'', JStr []), (''sys.conversation_turns'', JNum (Fin 0)),
     (''sys.files'', JArr []), (''sys.history'', JArr [])]"

definition empty_component :: "string \<Rightarrow> jsval" where
  "empty_component name = JObj [(''obj'', JObj [(''component_name'', JStr name), (''params'', JObj [])]),
     (''downstream'', JArr []), (''upstream'', JArr [])]"

definition EmptyDsl :: "jsval obj" where
  "EmptyDsl =
     [(''graph'', JObj [(''nodes'', JArr
         [JObj [(''id'', JStr ''begin''), (''type'', JStr ''beginNode''),
            (''position'', JObj [(''x'', num_val 50), (''y'', num_val 200)]),
            (''data'', JObj [(''label'', JStr ''Begin''), (''name'', JStr ''begin''),
               (''form'', JObj [(''mode'', JStr ''conversational''),
                  (''prologue'', JStr (''Hi! I'' @ [CHR 0x27] @ ''m your assistant. What can I do for you?''))])]),
            (''sourcePosition'', JStr ''left''), (''targetPosition'', JStr ''right'')]]),
        (''edges'', JArr [])]),
      (''components'', JObj [(''begin'', empty_component ''Begin'')]),
      (''retrieval'', JArr []), (''history'', JArr []), (''path'', JArr []), (''variables'', JArr []),
      (''globals'', JObj empty_globals)]"

definition DataflowEmptyDsl :: "jsval obj" where
  "DataflowEmptyDsl =
     [(''graph'', JObj [(''nodes'', JArr
         [JObj [(''id'', JStr ''File''), (''type'', JStr ''beginNode''),
            (''position'', JObj [(''x'', num_val 50), (''y'', num_val 200)]),
            (''data'', JObj [(''label'', JStr (op_str OpFile)), (''name'', JStr (op_str OpFile))]),
            (''sourcePosition'', JStr ''left''), (''targetPosition'', JStr ''right'')],
          JObj [(''data'', JObj [(''form'', JObj initialParserValues), (''label'', JStr ''Parser''), (''name'', JStr ''Parser_0'')]),
            (''dragging'', JBool False), (''id'', JStr ''Parser:HipSignsRhyme''),
            (''measured'', JObj [(''height'', num_val 57), (''width'', num_val 200)]),
            (''position'', JObj [(''x'', num_val (31699524094206413 / 100000000000000)),
               (''y'', num_val (19539629819663406 / 100000000000000))]),
            (''selected'', JBool True), (''sourcePosition'', JStr ''right''), (''targetPosition'', JStr ''left''),
            (''type'', JStr ''parserNode'')]]),
        (''edges'', JArr [JObj [(''id'', JStr ''xy-edge__Filestart-Parser:HipSignsRhymeend''), (''source'', JStr ''File''),
            (''sourceHandle'', JStr ''start''), (''target'', JStr ''Parser:HipSignsRhyme''), (''targetHandle'', JStr ''end'')]])]),
      (''components'', JObj [(''File'', empty_component ''File'')]),
      (''retrieval'', JArr []), (''history'', JArr []), (''path'', JArr []), (''globals'', JObj []), (''variables'', JArr [])]"

section \<open>Export\<close>

definition sensitive_operators :: "Operator list" where
  "sensitive_operators = [OpTavilySearch, OpTavilyExtract, OpGoogle]"

definition sensitive :: "libs \<Rightarrow> clone_libs \<Rightarrow> jsval \<Rightarrow> bool" where
  "sensitive L X value =
     (lodash_isPlainObject X value
      \<and> js_opt value ''component_name'' \<in> set (map (\<lambda>x. JStr (op_str x)) sensitive_operators)
      \<and> truthy (lodash_get L value [''params'', ''api_key''] JUndef))"

definition clear_api_key :: "jsval \<Rightarrow> jsval" where
  "clear_api_key value =
     JObj (obj_put ''params'' (JObj (obj_put ''api_key'' (JStr []) (spread (js_opt value ''params'')))) (spread value))"

definition clearSensitiveFields :: "libs \<Rightarrow> clone_libs \<Rightarrow> jsval \<Rightarrow> jsval" where
  "clearSensitiveFields L X ob =
     lodash_cloneDeepWith X (\<lambda>value. if sensitive L X value then Some (clear_api_key value) else None) ob"

definition exported_dsl :: "libs \<Rightarrow> clone_libs \<Rightarrow> dsl \<Rightarrow> jsval" where
  "exported_dsl L X d =
     (let sanitizedDsl = clearSensitiveFields L X
            (JObj (lodash_pick X (dsl_json d) [''graph'', ''globals'', ''variables'']))
      in JObj (obj_put ''globals'' (JObj (obj_assign (spread (js_opt sanitizedDsl ''globals'')) empty_globals))
           (spread sanitizedDsl)))"

definition handleExportJson ::
    "nat \<Rightarrow> libs \<Rightarrow> clone_libs \<Rightarrow> dsl \<Rightarrow> string \<Rightarrow> rf_state \<Rightarrow> (jsval \<times> string) res" where
  \<comment> \<open>the value of the file and its name\<close>
  "handleExportJson depth L X d title s =
     bind_r (buildDslData depth L d s None None) (\<lambda>b. Inr (exported_dsl L X b, title @ ''.json''))"

section \<open>Import and creation\<close>

record json_file =
  mime_type :: string
  file_text :: string

datatype agent_effect =
    Set_Agent jsval          \<comment> \<open>the request that creates the agent\<close>
  | Type_Toast               \<comment> \<open>the file is not a JSON file\<close>
  | Content_Error            \<comment> \<open>its content cannot be used\<close>
  | Hide_Dialog

definition hasNode :: "jsval list \<Rightarrow> string \<Rightarrow> bool res" where
  "hasNode ns operator =
     bind_r (find_r (\<lambda>x. bind_r (js_prop x ''data'') (\<lambda>d. bind_r (js_prop d ''label'') (\<lambda>l. Inr (l = JStr operator)))) ns)
       (\<lambda>r. Inr (r \<noteq> None))"

definition is_pipeline_graph :: "jsval \<Rightarrow> bool res" where
  "is_pipeline_graph graph =
     (case js_opt graph ''nodes'' of
        JArr ns \<Rightarrow> bind_r (hasNode ns (op_str OpFile)) (\<lambda>b. if b then hasNode ns (op_str OpParser) else Inr False)
      | _ \<Rightarrow> Inr False)"

definition imported_dsl :: "jsval \<Rightarrow> jsval \<Rightarrow> bool \<Rightarrow> jsval obj" where
  "imported_dsl graphOrDsl graph isAgent =
     (let d = obj_put ''graph'' graph (if isAgent then EmptyDsl else DataflowEmptyDsl);
          d = (if truthy (js_opt graphOrDsl ''globals'') then obj_put ''globals'' (js_opt graphOrDsl ''globals'') d else d)
      in if truthy (js_opt graphOrDsl ''variables'') then obj_put ''variables'' (js_opt graphOrDsl ''variables'') d else d)"

definition agent_params :: "string \<Rightarrow> jsval obj \<Rightarrow> bool \<Rightarrow> jsval" where
  "agent_params name d isAgent = JObj [(''title'', JStr name), (''dsl'', JObj d),
     (''canvas_category'', JStr (if isAgent then ''agent_canvas'' else ''dataflow_canvas''))]"

definition import_value :: "libs \<Rightarrow> string \<Rightarrow> jsval \<Rightarrow> agent_effect list res" where
  "import_value L name graphOrDsl =
     (if lodash_isEmpty L graphOrDsl then Inr [Content_Error]
      else (let graph = (if truthy (js_opt graphOrDsl ''graph'') then js_opt graphOrDsl ''graph'' else graphOrDsl)
            in bind_r (is_pipeline_graph graph) (\<lambda>p.
                 Inr [Set_Agent (agent_params name (imported_dsl graphOrDsl graph (\<not> p)) (\<not> p)), Hide_Dialog])))"

definition onFileUploadOk :: "libs \<Rightarrow> (string \<Rightarrow> jsval option) \<Rightarrow> json_file list \<Rightarrow> string \<Rightarrow> agent_effect list" where
  \<comment> \<open>the parser gives no value where it throws; the handler catches that and every other error\<close>
  "onFileUploadOk L parse fileList name =
     (case fileList of
        [] \<Rightarrow> []
      | f # _ \<Rightarrow>
          if mime_type f \<noteq> ''application/json'' then [Type_Toast]
          else (case parse (file_text f) of
                  None \<Rightarrow> [Content_Error]
                | Some v \<Rightarrow> if file_text f = [] then [Content_Error]
                    else (case import_value L name v of Inl _ \<Rightarrow> [Content_Error] | Inr es \<Rightarrow> es)))"

definition handleCreateAgentOrPipeline :: "string \<Rightarrow> string \<Rightarrow> jsval \<Rightarrow> agent_effect list" where
  \<comment> \<open>with the code the server answers\<close>
  "handleCreateAgentOrPipeline type name code =
     (let isAgent = (type = ''agent'')
      in Set_Agent (agent_params name (if isAgent then EmptyDsl else DataflowEmptyDsl) isAgent)
         # (if code = JNum (Fin 0) then [Hide_Dialog] else []))"

section \<open>A concrete instance\<close>

fun ref_clone :: "(jsval \<Rightarrow> jsval option) \<Rightarrow> jsval \<Rightarrow> jsval" where
  "ref_clone f (JArr xs) = (case f (JArr xs) of Some w \<Rightarrow> w | None \<Rightarrow> JArr (map (ref_clone f) xs))"
| "ref_clone f (JObj ob) =
     (case f (JObj ob) of Some w \<Rightarrow> w | None \<Rightarrow> JObj (map (\<lambda>(k, v). (k, ref_clone f v)) ob))"
| "ref_clone f v = (case f v of Some w \<Rightarrow> w | None \<Rightarrow> v)"

definition ref_clone_libs :: clone_libs where
  "ref_clone_libs = \<lparr>lodash_cloneDeepWith = ref_clone, lodash_isPlainObject = is_plain,
     lodash_pick = (\<lambda>ob ks. concat (map (\<lambda>k. if k \<in> set (keys ob) then [(k, obj_get ob k)] else []) ks))\<rparr>"

lemma ref_clone_custom: "f v = Some w \<Longrightarrow> ref_clone f v = w"
  by (cases v) simp_all

lemma ref_clone_other: "f v = None \<Longrightarrow> \<not> is_object v \<Longrightarrow> ref_clone f v = v"
  by (cases v) simp_all

lemma ref_get_two:
  "\<not> is_array_index m \<Longrightarrow> m \<noteq> ''length'' \<Longrightarrow> ref_get (JObj ob) [k, m] JUndef = js_opt (obj_get ob k) m"
  by (cases "obj_get ob k") (simp_all add: ref_get_def Let_def js_opt_def)

interpretation ref_clone: clone_api ref_libs ref_clone_libs
  by unfold_locales (simp_all add: ref_clone_libs_def ref_clone_custom ref_clone_other ref_get_two)

section \<open>Reading a file back\<close>

lemma obj_get_json_clone:
  "obj_get ob k \<noteq> JUndef \<Longrightarrow>
     obj_get (concat (map (\<lambda>(k, v). if v = JUndef then [] else [(k, json_clone v)]) ob)) k = json_clone (obj_get ob k)"
  by (induction ob) (auto split: if_splits)

section \<open>What the export removes\<close>

fun subvals :: "jsval \<Rightarrow> jsval list" where
  "subvals (JArr xs) = JArr xs # concat (map subvals xs)"
| "subvals (JObj ob) = JObj ob # concat (map (\<lambda>(k, v). subvals v) ob)"
| "subvals v = [v]"

fun own_keys :: "jsval \<Rightarrow> bool" where
  "own_keys (JObj ob) = distinct (keys ob)"
| "own_keys _ = True"

text \<open>
  The values of the program: the keys of an object are distinct, and the tools with a key do not contain one another.
\<close>

definition tools_apart :: "(jsval \<Rightarrow> bool) \<Rightarrow> jsval \<Rightarrow> bool" where
  "tools_apart P v \<longleftrightarrow> (\<forall>w\<in>set (subvals v). own_keys w \<and> (P w \<longrightarrow> (\<forall>u\<in>set (tl (subvals w)). \<not> P u)))"

lemma subvals_self [simp]: "v \<in> set (subvals v)"
  by (cases v) simp_all

lemma subvals_trans: "w \<in> set (subvals v) \<Longrightarrow> u \<in> set (subvals w) \<Longrightarrow> u \<in> set (subvals v)"
proof (induction v)
  case (JArr xs)
  then show ?case by (cases "w = JArr xs") auto
next
  case (JObj ob)
  then show ?case by (cases "w = JObj ob") fastforce+
qed auto

lemma tools_apart_sub: "tools_apart P v \<Longrightarrow> w \<in> set (subvals v) \<Longrightarrow> tools_apart P w"
  using subvals_trans unfolding tools_apart_def by blast

lemma obj_get_stored: "obj_get ob k \<noteq> JUndef \<Longrightarrow> (k, obj_get ob k) \<in> set ob"
  by (auto simp: obj_get_def split: option.splits dest: map_of_SomeD)

lemma entry_subval: "(k, x) \<in> set ob \<Longrightarrow> w \<in> set (subvals x) \<Longrightarrow> w \<in> set (tl (subvals (JObj ob)))"
  by fastforce

lemma set_spread: "set (spread (JObj ob)) \<subseteq> set ob"
  using set_fold_put [of ob "[]"] by (simp add: spread_def obj_assign_def)

lemma subvals_put_spread:
  assumes "w \<in> set (tl (subvals (JObj (obj_put k x (spread (JObj ob))))))"
  shows "w \<in> set (subvals x) \<or> w \<in> set (tl (subvals (JObj ob)))"
proof -
  obtain k' y where y: "(k', y) \<in> set (obj_put k x (spread (JObj ob)))" "w \<in> set (subvals y)"
    using assms by auto
  then have "(k', y) = (k, x) \<or> (k', y) \<in> set ob"
    using obj_put_subset [of k x "spread (JObj ob)"] set_spread [of ob] by blast
  with y(2) show ?thesis using entry_subval by auto
qed

lemma api_key_plain [simp]: "\<not> is_array_index ''api_key''"
  by (simp add: is_array_index_def is_digit_def less_eq_char_def)

lemma keys_map: "keys (map (\<lambda>(k, v). (k, f v)) ob) = keys ob"
  by (simp add: keys_def comp_def case_prod_unfold)

context clone_api
begin

lemma sensitive_obj: "sensitive L X (JObj ob) \<longleftrightarrow>
    obj_get ob ''component_name'' \<in> set (map (\<lambda>x. JStr (op_str x)) sensitive_operators)
    \<and> truthy (js_opt (obj_get ob ''params'') ''api_key'')"
  using get_two [of "''api_key''" ob "''params''"] by (simp add: sensitive_def plain)

lemma sensitive_other [simp]: "\<not> is_plain v \<Longrightarrow> \<not> sensitive L X v"
  by (simp add: sensitive_def plain)

lemma clear_sensitive: "sensitive L X v \<Longrightarrow> clearSensitiveFields L X v = clear_api_key v"
  by (simp add: clearSensitiveFields_def clone_custom)

lemma clear_arr [simp]: "clearSensitiveFields L X (JArr xs) = JArr (map (clearSensitiveFields L X) xs)"
  unfolding clearSensitiveFields_def by (subst clone_array) simp_all

lemma clear_obj: "\<not> sensitive L X (JObj ob) \<Longrightarrow>
    clearSensitiveFields L X (JObj ob) = JObj (map (\<lambda>(k, v). (k, clearSensitiveFields L X v)) ob)"
  unfolding clearSensitiveFields_def by (subst clone_object) simp_all

lemma clear_other [simp]: "\<not> is_object v \<Longrightarrow> clearSensitiveFields L X v = v"
  unfolding clearSensitiveFields_def by (subst clone_other) (cases v; simp)+

lemma clear_is_obj: "\<exists>ob'. clearSensitiveFields L X (JObj ob) = JObj ob'"
  by (cases "sensitive L X (JObj ob)") (simp_all add: clear_sensitive clear_obj clear_api_key_def)

lemma truthy_clear [simp]: "truthy (clearSensitiveFields L X v) = truthy v"
proof (cases v)
  case (JObj ob)
  then show ?thesis using clear_is_obj [of ob] by auto
qed simp_all

lemma clear_JStr_iff: "clearSensitiveFields L X v = JStr s \<longleftrightarrow> v = JStr s"
proof (cases v)
  case (JObj ob)
  then show ?thesis using clear_is_obj [of ob] by auto
qed simp_all

lemma obj_get_clear: "obj_get (map (\<lambda>(k, v). (k, clearSensitiveFields L X v)) ob) k = clearSensitiveFields L X (obj_get ob k)"
  by (induction ob) auto

lemma api_key_clear:
  assumes "own_keys p"
  shows "truthy (js_opt (clearSensitiveFields L X p) ''api_key'') = truthy (js_opt p ''api_key'')"
proof (cases p)
  case (JObj ob)
  show ?thesis
  proof (cases "sensitive L X p")
    case True
    with assms JObj show ?thesis by (simp add: clear_sensitive clear_api_key_def obj_get_spread)
  next
    case False
    with JObj show ?thesis by (simp add: clear_obj obj_get_clear)
  qed
qed (simp_all add: js_opt_def)

text \<open>Of a value that is not one of the tools, the copy is none either.\<close>

lemma clear_keeps_insensitive:
  assumes "\<not> sensitive L X (JObj ob)" and "own_keys (obj_get ob ''params'')"
  shows "\<not> sensitive L X (clearSensitiveFields L X (JObj ob))"
  using assms by (auto simp: clear_obj sensitive_obj obj_get_clear clear_JStr_iff api_key_clear)

text \<open>The copy of one of the tools holds no key.\<close>

lemma cleared_tool:
  assumes s: "sensitive L X (JObj ob)" and v: "tools_apart (sensitive L X) (JObj ob)"
    and w: "w \<in> set (subvals (clear_api_key (JObj ob)))"
  shows "\<not> sensitive L X w"
proof -
  obtain p where p: "obj_get ob ''params'' = JObj p"
    using s by (cases "obj_get ob ''params''") (auto simp: sensitive_obj js_opt_def)
  let ?p' = "JObj (obj_put ''api_key'' (JStr []) (spread (JObj p)))"
  have inner: "\<not> sensitive L X u" if "u \<in> set (tl (subvals (JObj ob)))" for u
    using v s that unfolding tools_apart_def by (metis subvals_self)
  have pin: "u \<in> set (tl (subvals (JObj ob)))" if "u \<in> set (subvals (JObj p))" for u
    using entry_subval [OF obj_get_stored that [folded p]] p by simp
  have dp: "distinct (keys p)"
    using v pin [OF subvals_self] unfolding tools_apart_def by (metis list.set_sel(2) own_keys.simps(1) subvals.simps(2) list.sel(3) list.set_intros(2))
  have "clear_api_key (JObj ob) = JObj (obj_put ''params'' ?p' (spread (JObj ob)))"
    by (simp add: clear_api_key_def p)
  with w consider (top) "w = JObj (obj_put ''params'' ?p' (spread (JObj ob)))"
      | (sub) "w \<in> set (tl (subvals (JObj (obj_put ''params'' ?p' (spread (JObj ob))))))"
    by auto
  then show ?thesis
  proof cases
    case top
    then show ?thesis by (simp add: sensitive_obj)
  next
    case sub
    then consider (params) "w \<in> set (subvals ?p')" | (rest) "w \<in> set (tl (subvals (JObj ob)))"
      using subvals_put_spread by blast
    then show ?thesis
    proof cases
      case params
      then consider (self) "w = ?p'" | (empty) "w \<in> set (subvals (JStr []))" | (below) "w \<in> set (tl (subvals (JObj p)))"
        using subvals_put_spread [of w "''api_key''" "JStr []" p] by auto
      then show ?thesis
      proof cases
        case self
        moreover have "\<not> sensitive L X (JObj p)" using inner pin by simp
        ultimately show ?thesis using dp by (simp add: sensitive_obj obj_get_spread)
      next
        case empty
        then show ?thesis by simp
      next
        case below
        then show ?thesis using inner pin by simp
      qed
    qed (rule inner)
  qed
qed

lemma clear_no_sensitive:
  "tools_apart (sensitive L X) v \<Longrightarrow> w \<in> set (subvals (clearSensitiveFields L X v)) \<Longrightarrow> \<not> sensitive L X w"
proof (induction v)
  case (JArr xs)
  have ap: "tools_apart (sensitive L X) x" if "x \<in> set xs" for x
    by (rule tools_apart_sub [OF JArr.prems(1)]) (use that subvals_self [of x] in \<open>auto simp del: subvals_self\<close>)
  show ?case using JArr.prems(2) JArr.IH ap by auto
next
  case (JObj ob)
  show ?case
  proof (cases "sensitive L X (JObj ob)")
    case True
    with JObj.prems show ?thesis by (simp add: clear_sensitive cleared_tool)
  next
    case False
    have ap: "tools_apart (sensitive L X) x" if "(k, x) \<in> set ob" for k x
      by (rule tools_apart_sub [OF JObj.prems(1)]) (use that subvals_self in force)
    have "own_keys (obj_get ob ''params'')"
      using ap obj_get_stored [of ob "''params''"] unfolding tools_apart_def
      by (cases "obj_get ob ''params'' = JUndef") (simp, meson subvals_self)
    then have top: "\<not> sensitive L X (clearSensitiveFields L X (JObj ob))" using False by (rule clear_keeps_insensitive [rotated])
    show ?thesis using JObj.prems(2) JObj.IH ap False top by (fastforce simp: clear_obj)
  qed
qed simp_all

lemma clear_own_keys: "own_keys v \<Longrightarrow> own_keys (clearSensitiveFields L X v)"
proof (cases v)
  case (JObj ob)
  assume "own_keys v"
  moreover have "distinct (keys (spread v))" by (simp add: spread_def distinct_keys_obj_assign)
  ultimately show ?thesis using JObj
    by (cases "sensitive L X v")
      (auto simp: clear_sensitive clear_api_key_def distinct_keys_obj_put clear_obj keys_map)
qed simp_all

lemma clear_no_name: "obj_get ob ''component_name'' = JUndef \<Longrightarrow>
    clearSensitiveFields L X (JObj ob) = JObj (map (\<lambda>(k, v). (k, clearSensitiveFields L X v)) ob)"
  by (rule clear_obj) (auto simp: sensitive_obj)

lemma picked_dsl: "lodash_pick X (dsl_json d) [''graph'', ''globals'', ''variables'']
    = [(''graph'', graph_json (dsl_nodes d) (dsl_edges d)), (''globals'', JObj (dsl_globals d))]
      @ opt_field ''variables'' JObj (dsl_variables d)"
  by (subst pick) (auto simp: dsl_json_def opt_field_def split: option.splits)

lemma exported_fields:
  obtains E where "exported_dsl L X d = JObj E"
    and "obj_get E ''graph'' = clearSensitiveFields L X (graph_json (dsl_nodes d) (dsl_edges d))"
    and "obj_get E ''globals'' = JObj (obj_assign (spread (clearSensitiveFields L X (JObj (dsl_globals d)))) empty_globals)"
    and "obj_get E ''variables'' = (case dsl_variables d of None \<Rightarrow> JUndef | Some vs \<Rightarrow> clearSensitiveFields L X (JObj vs))"
    and "obj_get E ''component_name'' = JUndef"
    and "set E \<subseteq> {(''graph'', clearSensitiveFields L X (graph_json (dsl_nodes d) (dsl_edges d))),
      (''globals'', JObj (obj_assign (spread (clearSensitiveFields L X (JObj (dsl_globals d)))) empty_globals))}
      \<union> (\<lambda>vs. (''variables'', clearSensitiveFields L X (JObj vs))) ` set_option (dsl_variables d)"
proof -
  let ?g = "clearSensitiveFields L X (graph_json (dsl_nodes d) (dsl_edges d))"
  let ?vs = "opt_field ''variables'' (\<lambda>vs. clearSensitiveFields L X (JObj vs)) (dsl_variables d)"
  let ?gl = "JObj (obj_assign (spread (clearSensitiveFields L X (JObj (dsl_globals d)))) empty_globals)"
  let ?E = "[(''graph'', ?g), (''globals'', ?gl)] @ ?vs"
  have "clearSensitiveFields L X (JObj (lodash_pick X (dsl_json d) [''graph'', ''globals'', ''variables'']))
      = JObj ([(''graph'', ?g), (''globals'', clearSensitiveFields L X (JObj (dsl_globals d)))] @ ?vs)"
    by (subst clear_no_name) (auto simp: picked_dsl opt_field_def split: option.splits)
  then have "exported_dsl L X d = JObj ?E"
    by (auto simp: exported_dsl_def opt_field_def spread_def obj_assign_def obj_put_def key_before_def
        is_array_index_def is_digit_def less_eq_char_def split: option.splits)
  then show thesis by (rule that) (auto simp: opt_field_def split: option.splits)
qed

lemma exported_no_sensitive:
  assumes ap: "tools_apart (sensitive L X) (JObj (dsl_json d))" and w: "w \<in> set (subvals (exported_dsl L X d))"
  shows "\<not> sensitive L X w"
proof -
  have sub: "tools_apart (sensitive L X) x" if "(k, x) \<in> set (dsl_json d)" for k x
    by (rule tools_apart_sub [OF ap]) (use that subvals_self [of x] in \<open>force simp del: subvals_self\<close>)
  note clean = clear_no_sensitive [OF sub]
  let ?G = "clearSensitiveFields L X (JObj (dsl_globals d))"
  let ?gl = "JObj (obj_assign (spread ?G) empty_globals)"
  obtain gl where gl: "?G = JObj gl" using clear_is_obj by blast
  have gin: "(''globals'', JObj (dsl_globals d)) \<in> set (dsl_json d)" by (simp add: dsl_json_def)
  have new: "\<not> sensitive L X u" if u: "u \<in> set (subvals ?gl)" for u
  proof (cases "u = ?gl")
    case True
    have "own_keys (JObj (dsl_globals d))" using sub [OF gin] unfolding tools_apart_def by (meson subvals_self)
    then have "distinct (keys gl)" using clear_own_keys [of "JObj (dsl_globals d)"] gl by simp
    moreover have "distinct (keys empty_globals)" "''component_name'' \<notin> set (keys empty_globals)" "''params'' \<notin> set (keys empty_globals)"
      by (simp_all add: empty_globals_def)
    ultimately have "sensitive L X ?gl = sensitive L X (JObj gl)"
      by (simp add: sensitive_obj gl obj_get_assign obj_get_spread)
    then show ?thesis using True clean [OF gin, of ?G] gl by simp
  next
    case False
    then obtain k y where y: "(k, y) \<in> set (obj_assign (spread (JObj gl)) empty_globals)" "u \<in> set (subvals y)"
      using u gl by auto
    have "set (obj_assign (spread (JObj gl)) empty_globals) \<subseteq> set empty_globals \<union> set gl"
      using set_fold_put [of empty_globals "spread (JObj gl)"] set_spread [of gl] by (auto simp: obj_assign_def)
    with y consider "(k, y) \<in> set empty_globals" | "(k, y) \<in> set gl" by blast
    then show ?thesis
    proof cases
      case 1
      with y(2) show ?thesis by (auto simp: empty_globals_def)
    next
      case 2
      then show ?thesis using clean [OF gin, of u] entry_subval [OF 2 y(2)] gl by auto
    qed
  qed
  obtain E where E: "exported_dsl L X d = JObj E" "obj_get E ''component_name'' = JUndef"
    "set E \<subseteq> {(''graph'', clearSensitiveFields L X (graph_json (dsl_nodes d) (dsl_edges d))), (''globals'', ?gl)}
      \<union> (\<lambda>vs. (''variables'', clearSensitiveFields L X (JObj vs))) ` set_option (dsl_variables d)"
    using exported_fields [of d] by metis
  show ?thesis
  proof (cases "w = JObj E")
    case True
    then show ?thesis using E(2) by (auto simp: sensitive_obj)
  next
    case False
    then obtain k y where y: "(k, y) \<in> set E" "w \<in> set (subvals y)" using w E(1) by auto
    then consider "y = clearSensitiveFields L X (graph_json (dsl_nodes d) (dsl_edges d))" | "y = ?gl"
        | vs where "dsl_variables d = Some vs" "y = clearSensitiveFields L X (JObj vs)"
      using E(3) by auto
    then show ?thesis
    proof cases
      case 1
      then show ?thesis using y(2) clean [of "''graph''" "graph_json (dsl_nodes d) (dsl_edges d)" w] by (simp add: dsl_json_def)
    next
      case 2
      then show ?thesis using y(2) new by simp
    next
      case 3
      then show ?thesis using y(2) clean [of "''variables''" "JObj vs" w] by (simp add: dsl_json_def opt_field_def)
    qed
  qed
qed

lemma clear_node: "\<exists>ob. clearSensitiveFields L X (node_json n) = JObj ob \<and> obj_get ob ''id'' = JStr (nid n)
    \<and> obj_get ob ''data'' = JObj ([(''label'', JStr (nlabel n)), (''name'', JStr (node_name n))]
        @ opt_field ''form'' (clearSensitiveFields L X) (node_form n))"
proof -
  have data: "clearSensitiveFields L X (JObj ([(''label'', JStr (nlabel n)), (''name'', JStr (node_name n))] @ opt_field ''form'' id (node_form n)))
      = JObj ([(''label'', JStr (nlabel n)), (''name'', JStr (node_name n))] @ opt_field ''form'' (clearSensitiveFields L X) (node_form n))"
    by (subst clear_no_name) (auto simp: opt_field_def split: option.splits)
  let ?ob = "entries (node_json n)"
  have ob: "node_json n = JObj ?ob" by (simp add: node_json_def)
  have "obj_get ?ob ''component_name'' = JUndef"
    "obj_get ?ob ''id'' = JStr (nid n)"
    "obj_get ?ob ''data'' = JObj ([(''label'', JStr (nlabel n)), (''name'', JStr (node_name n))] @ opt_field ''form'' id (node_form n))"
    by (simp_all add: node_json_def opt_field_def obj_get_def map_add_def split: option.splits)
  then show ?thesis using data by (subst ob) (simp add: clear_no_name obj_get_clear)
qed

lemma clear_graph: "clearSensitiveFields L X (graph_json ns es)
    = JObj [(''nodes'', JArr (map (\<lambda>n. clearSensitiveFields L X (node_json n)) ns)),
            (''edges'', JArr (map (\<lambda>e. clearSensitiveFields L X (edge_json e)) es))]"
  by (simp add: graph_json_def clear_no_name comp_def)

text \<open>After the file was read back, the labels of the nodes are those of the graph.\<close>

lemma is_pipeline_exported:
  "is_pipeline_graph (json_clone (clearSensitiveFields L X (graph_json ns es)))
     = Inr (op_str OpFile \<in> nlabel ` set ns \<and> op_str OpParser \<in> nlabel ` set ns)"
proof -
  have lbl: "bind_r (js_prop (json_clone (clearSensitiveFields L X (node_json n))) ''data'')
      (\<lambda>d. bind_r (js_prop d ''label'') (\<lambda>l. Inr (l = JStr t))) = Inr (nlabel n = t)" for n t
  proof -
    obtain ob where ob: "clearSensitiveFields L X (node_json n) = JObj ob"
        "obj_get ob ''data'' = JObj ([(''label'', JStr (nlabel n)), (''name'', JStr (node_name n))]
          @ opt_field ''form'' (clearSensitiveFields L X) (node_form n))"
      using clear_node by blast
    then show ?thesis using obj_get_json_clone [of ob "''data''"] by simp
  qed
  have "hasNode (map (\<lambda>n. json_clone (clearSensitiveFields L X (node_json n))) ns) t = Inr (t \<in> nlabel ` set ns)" for t
    by (induction ns) (auto simp: hasNode_def lbl)
  then show ?thesis by (simp add: is_pipeline_graph_def clear_graph comp_def)
qed

end

section \<open>Properties\<close>

text \<open>
  C12: Exporting an agent writes a file named after it in which no tool of an agent (an object that names one of the
  three search services as its component) still carries an API key, wherever in the graph, the globals or the
  variables it stands; the components of the DSL, which hold copies of the tools, are not written at all.
\<close>

theorem export_clears_tool_keys:
  assumes "clone_api L X" and "buildDslData depth L d s None None = Inr b"
    and "tools_apart (sensitive L X) (JObj (dsl_json b))"
  shows "\<exists>v. handleExportJson depth L X d title s = Inr (v, title @ ''.json'')
     \<and> (\<forall>w\<in>set (subvals v). \<not> sensitive L X w) \<and> js_opt v ''components'' = JUndef"
proof -
  obtain E where E: "exported_dsl L X b = JObj E"
    "set E \<subseteq> {(''graph'', clearSensitiveFields L X (graph_json (dsl_nodes b) (dsl_edges b))),
      (''globals'', JObj (obj_assign (spread (clearSensitiveFields L X (JObj (dsl_globals b)))) empty_globals))}
      \<union> (\<lambda>vs. (''variables'', clearSensitiveFields L X (JObj vs))) ` set_option (dsl_variables b)"
    using clone_api.exported_fields [OF assms(1), of b] by metis
  then have "obj_get E ''components'' = JUndef" using obj_get_stored [of E "''components''"] by blast
  then show ?thesis
    using E(1) clone_api.exported_no_sensitive [OF assms(1,3)] assms(2) by (auto simp: handleExportJson_def)
qed

definition search_agent :: rf_state where
  \<comment> \<open>an agent with a search tool, and a search node of its own\<close>
  "search_agent = mk_state
     [mk_node ''Agent:a'' (op_str OpAgent) ''Agent_0'' (JObj [(''tools'', JArr [JObj [(''component_name'', JStr ''TavilySearch''),
        (''params'', JObj [(''api_key'', JStr ''tvly-1'')])]])]) None,
      mk_node ''TavilySearch:b'' (op_str OpTavilySearch) ''TavilySearch_0'' (JObj [(''api_key'', JStr ''tvly-2'')]) None] []"

definition no_dsl :: dsl where
  "no_dsl = \<lparr>dsl_globals = [], dsl_variables = None, dsl_nodes = [], dsl_edges = [], dsl_components = []\<rparr>"

definition search_dsl :: dsl where
  "search_dsl = (case buildDslData 2 ref_libs no_dsl search_agent None None of Inr b \<Rightarrow> b | Inl _ \<Rightarrow> no_dsl)"

lemma search_dsl_built: "buildDslData 2 ref_libs no_dsl search_agent None None = Inr search_dsl"
proof -
  have "\<not> isl (buildDslData 2 ref_libs no_dsl search_agent None None)" by code_simp
  then show ?thesis by (cases "buildDslData 2 ref_libs no_dsl search_agent None None") (simp_all add: search_dsl_def)
qed

theorem export_clears_tool_keys_witness:
  "\<exists>v. handleExportJson 2 ref_libs ref_clone_libs no_dsl ''search'' search_agent = Inr (v, ''search.json'')
     \<and> (\<forall>w\<in>set (subvals v). \<not> sensitive ref_libs ref_clone_libs w) \<and> js_opt v ''components'' = JUndef"
proof -
  have "tools_apart (sensitive ref_libs ref_clone_libs) (JObj (dsl_json search_dsl))" by code_simp
  from export_clears_tool_keys [OF ref_clone.clone_api_axioms search_dsl_built this, of "''search''"] show ?thesis by simp
qed

text \<open>
  The key of a search service that is a node of the canvas stays in the exported file: the form of the node
  holds it directly, not under the \<open>params\<close> of an object with a \<open>component_name\<close>, and so it is written as it was
  entered.
\<close>

theorem export_keeps_node_keys:
  assumes api: "clone_api L X" and b: "buildDslData depth L d s None None = Inr b"
    and n: "n \<in> set (nodes s)" "op_str op = nlabel n" "op \<in> set sensitive_operators"
    and f: "node_form n = Some (JObj f)" "obj_get f ''component_name'' = JUndef" "obj_get f ''api_key'' = JStr k"
  shows "\<exists>v ns w. handleExportJson depth L X d title s = Inr (v, title @ ''.json'')
     \<and> js_opt (js_opt v ''graph'') ''nodes'' = JArr ns \<and> w \<in> set ns \<and> js_opt w ''id'' = JStr (nid n)
     \<and> js_opt (js_opt (js_opt w ''data'') ''form'') ''api_key'' = JStr k"
proof -
  let ?c = "clearSensitiveFields L X"
  obtain E where E: "exported_dsl L X b = JObj E" "obj_get E ''graph'' = ?c (graph_json (dsl_nodes b) (dsl_edges b))"
    using clone_api.exported_fields [OF api, of b] by metis
  have "nlabel n \<noteq> op_str OpPlaceholder" using n(2,3) by (auto simp: sensitive_operators_def)
  then have "n \<in> set (dsl_nodes b)" using b n(1) by (auto simp: buildDslData_def Let_def)
  moreover obtain ob where ob: "?c (node_json n) = JObj ob" "obj_get ob ''id'' = JStr (nid n)"
      "obj_get ob ''data'' = JObj ([(''label'', JStr (nlabel n)), (''name'', JStr (node_name n))] @ opt_field ''form'' ?c (node_form n))"
    using clone_api.clear_node [OF api] by blast
  moreover have "?c (JObj f) = JObj (map (\<lambda>(k, v). (k, ?c v)) f)" using f(2) by (rule clone_api.clear_no_name [OF api])
  moreover have "obj_get (map (\<lambda>(k, v). (k, ?c v)) f) ''api_key'' = JStr k"
    using f(3) by (simp add: clone_api.obj_get_clear [OF api] clone_api.clear_other [OF api])
  ultimately show ?thesis
    using E b f(1) clone_api.clear_graph [OF api, of "dsl_nodes b" "dsl_edges b"]
    by (auto simp: handleExportJson_def opt_field_def intro!: bexI [of _ n])
qed

theorem export_keeps_node_keys_witness:
  "\<exists>v ns w. handleExportJson 2 ref_libs ref_clone_libs no_dsl ''search'' search_agent = Inr (v, ''search.json'')
     \<and> js_opt (js_opt v ''graph'') ''nodes'' = JArr ns \<and> w \<in> set ns \<and> js_opt w ''id'' = JStr ''TavilySearch:b''
     \<and> js_opt (js_opt (js_opt w ''data'') ''form'') ''api_key'' = JStr ''tvly-2''"
  using export_keeps_node_keys [OF ref_clone.clone_api_axioms search_dsl_built, of "nodes search_agent ! 1" OpTavilySearch
      "[(''api_key'', JStr ''tvly-2'')]" "''tvly-2''" "''search''"]
  by (simp add: search_agent_def mk_state_def mk_node_def sensitive_operators_def)

text \<open>
  C13: An agent that was exported can be imported: for every parser that reads the text of the file back, the upload
  dialog sends one request for a new agent, closes, and the new DSL has the graph, the globals and the variables of
  the file. The agent becomes a pipeline exactly when its canvas has a file node and a parser node.
\<close>

theorem import_of_export:
  assumes api: "clone_api L X" and b: "buildDslData depth L d s None None = Inr b"
    and v: "handleExportJson depth L X d title s = Inr (v, f)"
    and parse: "js_stringify v = Some t" "t \<noteq> []" "parse t = Some (json_clone v)"
    and pipeline: "p \<longleftrightarrow> op_str OpFile \<in> nlabel ` set (nodes s) \<and> op_str OpParser \<in> nlabel ` set (nodes s)"
  shows "\<exists>D. onFileUploadOk L parse [\<lparr>mime_type = ''application/json'', file_text = t\<rparr>] name
       = [Set_Agent (agent_params name D (\<not> p)), Hide_Dialog]
     \<and> (\<forall>k\<in>{''graph'', ''globals'', ''variables''}. obj_get D k = js_opt (json_clone v) k \<and> obj_get D k \<noteq> JUndef)
     \<and> (\<forall>k. k \<notin> {''graph'', ''globals'', ''variables''} \<longrightarrow>
          obj_get D k = obj_get (if p then DataflowEmptyDsl else EmptyDsl) k)"
proof -
  let ?c = "clearSensitiveFields L X"
  obtain E where E: "exported_dsl L X b = JObj E" "obj_get E ''graph'' = ?c (graph_json (dsl_nodes b) (dsl_edges b))"
    "obj_get E ''globals'' = JObj (obj_assign (spread (?c (JObj (dsl_globals b)))) empty_globals)"
    "obj_get E ''variables'' = (case dsl_variables b of None \<Rightarrow> JUndef | Some vs \<Rightarrow> ?c (JObj vs))"
    using clone_api.exported_fields [OF api, of b] by metis
  obtain vars where vars: "dsl_variables b = Some vars" and ns: "dsl_nodes b = filter (\<lambda>n. nlabel n \<noteq> op_str OpPlaceholder) (nodes s)"
    using b by (auto simp: buildDslData_def Let_def)
  have vE: "v = JObj E" using v b E(1) by (simp add: handleExportJson_def)
  define E' where "E' = entries (json_clone v)"
  have E': "json_clone v = JObj E'" by (simp add: E'_def vE)
  have get: "obj_get E' k = json_clone (obj_get E k)" if "obj_get E k \<noteq> JUndef" for k
    using obj_get_json_clone [OF that] by (simp add: E'_def vE)
  obtain gr where gr: "obj_get E ''graph'' = JObj gr" using E(2) clone_api.clear_graph [OF api] by simp
  obtain vs where vs: "obj_get E ''variables'' = JObj vs" using E(4) vars clone_api.clear_is_obj [OF api] by fastforce
  have fields: "\<exists>ob. obj_get E' k = JObj ob" if "k \<in> {''graph'', ''globals'', ''variables''}" for k
    using that get [of k] gr vs E(3) by auto
  have "is_pipeline_graph (obj_get E' ''graph'') = Inr p"
    using clone_api.is_pipeline_exported [OF api, of "dsl_nodes b" "dsl_edges b"] get [of "''graph''"] gr E(2)
    by (auto simp: pipeline ns)
  moreover have "E' \<noteq> []" using fields [of "''graph''"] by auto
  ultimately have up: "onFileUploadOk L parse [\<lparr>mime_type = ''application/json'', file_text = t\<rparr>] name
      = [Set_Agent (agent_params name (imported_dsl (JObj E') (obj_get E' ''graph'') (\<not> p)) (\<not> p)), Hide_Dialog]"
    using parse E' fields [of "''graph''"] lodash_api.isEmpty_obj [OF clone_api.axioms(1) [OF api], of E']
    by (auto simp: onFileUploadOk_def import_value_def)
  show ?thesis
    unfolding up E' using fields [of "''graph''"] fields [of "''globals''"] fields [of "''variables''"]
    by (intro exI [of _ "imported_dsl (JObj E') (obj_get E' ''graph'') (\<not> p)"]) (auto simp: imported_dsl_def)
qed

theorem import_of_export_witness:
  "\<exists>v t D. handleExportJson 2 ref_libs ref_clone_libs no_dsl ''search'' search_agent = Inr (v, ''search.json'')
     \<and> onFileUploadOk ref_libs (\<lambda>_. Some (json_clone v)) [\<lparr>mime_type = ''application/json'', file_text = t\<rparr>] ''copy''
       = [Set_Agent (agent_params ''copy'' D True), Hide_Dialog]
     \<and> obj_get D ''graph'' = js_opt (json_clone v) ''graph''"
proof -
  let ?v = "exported_dsl ref_libs ref_clone_libs search_dsl"
  obtain E where E: "?v = JObj E" using ref_clone.exported_fields [of search_dsl] by metis
  then obtain t where t: "js_stringify ?v = Some t" "t \<noteq> []" by simp
  have h: "handleExportJson 2 ref_libs ref_clone_libs no_dsl ''search'' search_agent = Inr (?v, ''search.json'')"
    by (simp add: handleExportJson_def search_dsl_built)
  have "False \<longleftrightarrow> op_str OpFile \<in> nlabel ` set (nodes search_agent) \<and> op_str OpParser \<in> nlabel ` set (nodes search_agent)"
    by (simp add: search_agent_def mk_state_def mk_node_def)
  from import_of_export [OF ref_clone.clone_api_axioms search_dsl_built h t, of "\<lambda>_. Some (json_clone ?v)", OF _ this, of "''copy''"] h
  show ?thesis by auto
qed

end
