(* ===== verification/Agent_Run.thy ===== *)
theory Agent_Run
  imports Dsl_Export Dsl_Correct Variable_Options Agent_Chat Page_Lists
begin

text \<open>
  Saving and running an agent: \<open>pages/agent/hooks/use-save-graph.ts\<close>, the drawers of the canvas
  (\<open>hooks/use-show-drawer.tsx\<close>, \<open>run-sheet\<close>), the test run of a pipeline and its log (\<open>hooks/use-run-dataflow.ts\<close>,
  \<open>use-fetch-pipeline-log.ts\<close>, \<open>use-cancel-dataflow.ts\<close>, \<open>use-download-output.ts\<close>, \<open>pipeline-log-sheet\<close>) and the
  timeline of a run (\<open>log-sheet\<close>). An asynchronous handler is a function of the answers of the server, or two
  functions where the page is shown between them. The React effects that depend on a value run when it has changed:
  \<open>log_effects\<close> compares the states before and after an update.
\<close>

section \<open>Saving\<close>

definition saveGraph ::
    "nat \<Rightarrow> libs \<Rightarrow> string \<Rightarrow> string \<Rightarrow> dsl \<Rightarrow> rf_state \<Rightarrow> node list option \<Rightarrow> jsval obj option \<Rightarrow> bool \<Rightarrow> jsval res" where
  \<comment> \<open>the parameters of the request; the id and the title come from the URL and the agent fetched\<close>
  "saveGraph depth L agentId title d s currentNodes otherParam release =
     bind_r (buildDslData depth L d s currentNodes otherParam)
       (\<lambda>b. Inr (JObj ([(''id'', JStr agentId), (''title'', JStr title), (''dsl'', JObj (dsl_json b))]
              @ (if release then [(''release'', JStr ''true'')] else []))))"

datatype run_effect =
    Save_Graph jsval        \<comment> \<open>the request with these parameters\<close>
  | Reset_Request
  | Show_Drawer
  | Hide_Sheet
  | Set_Time jsval

definition code_zero :: "jsval \<Rightarrow> bool" where
  \<comment> \<open>\<open>ret?.code === 0\<close>\<close>
  "code_zero ret = (js_opt ret ''code'' = JNum (Fin 0))"

definition handleRun ::
    "nat \<Rightarrow> libs \<Rightarrow> string \<Rightarrow> string \<Rightarrow> dsl \<Rightarrow> rf_state \<Rightarrow> node list option \<Rightarrow> jsval \<Rightarrow> jsval \<Rightarrow> run_effect list res" where
  "handleRun depth L agentId title d s nextNodes saveRet resetRet =
     bind_r (saveGraph depth L agentId title d s nextNodes None False)
       (\<lambda>params. Inr (Save_Graph params #
          (if code_zero saveRet then Reset_Request # (if code_zero resetRet then [Show_Drawer] else []) else [])))"

definition saveAgent ::
    "nat \<Rightarrow> libs \<Rightarrow> (jsval \<Rightarrow> jsval) \<Rightarrow> string \<Rightarrow> string \<Rightarrow> dsl \<Rightarrow> bool \<Rightarrow> rf_state \<Rightarrow> jsval \<Rightarrow> run_effect list res" where
  \<comment> \<open>the automatic save, 20 seconds after the last change; the time is formatted by the first function given\<close>
  "saveAgent depth L formatDate agentId title d chatDrawerVisible s ret =
     (if chatDrawerVisible then Inr []
      else bind_r (saveGraph depth L agentId title d s None None False)
        (\<lambda>params. bind_r (bind_r (js_prop ret ''data'') (\<lambda>data. js_prop data ''update_time''))
           (\<lambda>t. Inr [Save_Graph params, Set_Time (formatDate t)])))"

definition run_inputs :: "rf_state \<Rightarrow> jsval obj list \<Rightarrow> jsval res" where
  \<comment> \<open>\<open>beginNode?.data.form.inputs\<close>, joined with the values entered\<close>
  "run_inputs s nextValues =
     bind_r (case getNode (Val BeginId) s of
         None \<Rightarrow> Inr JUndef
       | Some n \<Rightarrow> js_prop (case node_form n of None \<Rightarrow> JUndef | Some f \<Rightarrow> f) ''inputs'')
       (\<lambda>inputs. if nullish inputs then Inl TypeError
          else Inr (JObj (buildBeginQueryWithObject (entries inputs) nextValues)))"

definition run_sheet_ok ::
    "nat \<Rightarrow> libs \<Rightarrow> string \<Rightarrow> string \<Rightarrow> dsl \<Rightarrow> rf_state \<Rightarrow> jsval obj list \<Rightarrow> jsval \<Rightarrow> jsval \<Rightarrow> (rf_state \<times> run_effect list) res" where
  \<comment> \<open>\<open>handleRunAgent\<close> of the run sheet: the sheet hides after the save was requested and before it is answered, and also
    when the DSL cannot be built, which only rejects the promise of \<open>handleRun\<close>\<close>
  "run_sheet_ok depth L agentId title d s nextValues saveRet resetRet =
     bind_r (run_inputs s nextValues) (\<lambda>nextInputs.
       let s' = updateNodeForm L BeginId nextInputs [''inputs''] s in
       Inr (s', case handleRun depth L agentId title d s (Some (nodes s')) saveRet resetRet of
                  Inr (e # es) \<Rightarrow> e # Hide_Sheet # es | _ \<Rightarrow> [Hide_Sheet]))"

definition page_run_agent ::
    "nat \<Rightarrow> libs \<Rightarrow> string \<Rightarrow> string \<Rightarrow> dsl \<Rightarrow> rf_state \<Rightarrow> jsval \<Rightarrow> jsval \<Rightarrow> run_effect list res" where
  \<comment> \<open>\<open>handleRunAgent\<close> of the page: an agent with inputs opens the drawer at once\<close>
  "page_run_agent depth L agentId title d s saveRet resetRet =
     (if useSelectBeginNodeDataInputs s \<noteq> [] then Inr [Show_Drawer]
      else handleRun depth L agentId title d s None saveRet resetRet)"

definition setGraphInfo :: "node list \<Rightarrow> edge list \<Rightarrow> rf_state \<Rightarrow> rf_state" where
  "setGraphInfo ns es s = (if ns \<noteq> [] \<or> es \<noteq> [] then setEdges es (setNodes ns s) else s)"

section \<open>The drawers of the canvas\<close>

record drawers =
  runVisible :: bool
  chatVisible :: bool
  singleDebugVisible :: bool
  formVisible :: bool

definition handleShow :: "jsval \<Rightarrow> jsval \<Rightarrow> string \<Rightarrow> rf_state \<times> drawers \<Rightarrow> rf_state \<times> drawers" where
  \<comment> \<open>with \<open>dataset.toolId\<close> and \<open>dataset.tool\<close> of the element clicked\<close>
  "handleShow toolId tool nodeId st =
     (let (s, w) = st; operatorType = getOperatorTypeFromId (Val nodeId) s in
      if operatorType = Some (op_str OpTool) \<and> \<not> truthy tool
         \<or> operatorType \<in> {Some (op_str OpLoopStart), Some (op_str OpExitLoop)}
      then st
      else (setClickedToolId (case js_or toolId tool of JStr t \<Rightarrow> Some t | _ \<Rightarrow> None) (setClickedNodeId (Some nodeId) s),
            w\<lparr>formVisible := True\<rparr>))"

definition showSingleDebugDrawer :: "jsval \<Rightarrow> drawers \<Rightarrow> drawers" where
  "showSingleDebugDrawer saveRet w = (if code_zero saveRet then w\<lparr>singleDebugVisible := True\<rparr> else w)"

definition ShowExcludedNodes :: "Operator list" where
  "ShowExcludedNodes = [OpNote, OpPlaceholder, OpFile]"

definition drawer_effect :: "bool \<Rightarrow> jsval obj list \<Rightarrow> drawers \<Rightarrow> drawers" where
  \<comment> \<open>the effect of \<open>useShowDrawer\<close>, with the inputs of the begin node\<close>
  "drawer_effect drawerVisible inputs w =
     (if drawerVisible then (if inputs \<noteq> [] then w\<lparr>runVisible := True, chatVisible := False\<rparr>
                             else w\<lparr>chatVisible := True, runVisible := False\<rparr>)
      else w)"

definition hideRunOrChatDrawer :: "bool \<times> drawers \<Rightarrow> bool \<times> drawers" where
  \<comment> \<open>with the flag of the page that opened the drawer\<close>
  "hideRunOrChatDrawer st = (False, (snd st)\<lparr>chatVisible := False, runVisible := False\<rparr>)"

definition onPaneClick :: "drawers \<Rightarrow> drawers" where
  "onPaneClick w = w\<lparr>formVisible := False\<rparr>"

definition onNodeClick :: "jsval \<Rightarrow> jsval \<Rightarrow> node \<Rightarrow> rf_state \<times> drawers \<Rightarrow> rf_state \<times> drawers" where
  \<comment> \<open>up to the save that a click on the play icon starts\<close>
  "onNodeClick toolId tool n st =
     (if list_ex (\<lambda>x. op_str x = nlabel n) ShowExcludedNodes then st
      else handleShow toolId tool (nid n) (fst st, (snd st)\<lparr>singleDebugVisible := False\<rparr>))"

definition play_clicked :: "libs \<Rightarrow> jsval \<Rightarrow> bool" where
  "play_clicked L elem =
     (lodash_get L elem [''dataset'', ''play''] JUndef = JStr ''true''
      \<or> lodash_get L elem [''parentNode'', ''dataset'', ''play''] JUndef = JStr ''true'')"

definition hide_on_deletion :: "rf_state \<Rightarrow> drawers \<Rightarrow> drawers" where
  \<comment> \<open>the effect of \<open>useHideFormSheetOnNodeDeletion\<close>\<close>
  "hide_on_deletion s w = (if list_ex (\<lambda>x. Some (nid x) = clickedNodeId s) (nodes s) then w else w\<lparr>formVisible := False\<rparr>)"

section \<open>The test run of a pipeline\<close>

record trace_item =
  trace_component :: string
  trace_list :: "jsval list"

record pipeline_page =
  pp_messageId :: string
  pp_data :: "trace_item list option"      \<comment> \<open>the trace of this message, once it was fetched\<close>
  pp_stopFetch :: bool                     \<comment> \<open>\<open>isStopFetchTrace\<close>\<close>
  pp_logVisible :: bool
  pp_runVisible :: bool
  pp_uploadedFile :: jsval

definition new_pipeline_page :: pipeline_page where
  "new_pipeline_page = \<lparr>pp_messageId = [], pp_data = None, pp_stopFetch = False, pp_logVisible = False,
     pp_runVisible = False, pp_uploadedFile = JUndef\<rparr>"

definition trace_message :: "trace_item \<Rightarrow> jsval res" where
  \<comment> \<open>\<open>latest?.trace[0].message\<close>\<close>
  "trace_message x = js_prop (case trace_list x of [] \<Rightarrow> JUndef | t # _ \<Rightarrow> t) ''message''"

definition isCompleted :: "libs \<Rightarrow> trace_item list option \<Rightarrow> bool res" where
  "isCompleted L data =
     (case data of
        Some (x # xs) \<Rightarrow>
          (let latest = last (x # xs) in
           if trace_component latest = ''END''
           then bind_r (trace_message latest) (\<lambda>m. Inr (\<not> lodash_isEmpty L m)) else Inr False)
      | _ \<Rightarrow> Inr False)"

definition isLogEmpty :: "trace_item list option \<Rightarrow> bool" where
  "isLogEmpty data = (data = None \<or> data = Some [])"

definition isParsing :: "libs \<Rightarrow> pipeline_page \<Rightarrow> bool res" where
  "isParsing L st =
     bind_r (isCompleted L (pp_data st)) (\<lambda>c. Inr (\<not> isLogEmpty (pp_data st) \<and> \<not> c \<and> \<not> pp_stopFetch st))"

definition polling :: "pipeline_page \<Rightarrow> bool" where
  \<comment> \<open>\<open>enabled\<close> and \<open>refetchInterval\<close> of the query: the trace is asked for again every three seconds\<close>
  "polling st = (pp_messageId st \<noteq> [] \<and> \<not> pp_stopFetch st)"

definition log_effects :: "libs \<Rightarrow> pipeline_page \<Rightarrow> pipeline_page \<Rightarrow> pipeline_page res" where
  \<comment> \<open>both effects of \<open>useFetchPipelineLog\<close>, in their order\<close>
  "log_effects L old new =
     bind_r (isCompleted L (pp_data old)) (\<lambda>c. bind_r (isCompleted L (pp_data new)) (\<lambda>c'.
       let st1 = (if c' \<and> \<not> c then new\<lparr>pp_stopFetch := True\<rparr> else new)
       in Inr (if pp_logVisible new \<and> \<not> pp_logVisible old then st1\<lparr>pp_stopFetch := False\<rparr> else st1)))"

definition handleRunPipeline :: "libs \<Rightarrow> rf_state \<Rightarrow> pipeline_page \<Rightarrow> pipeline_page res" where
  \<comment> \<open>without a tokenizer only a warning is shown\<close>
  "handleRunPipeline L s st =
     (case findNodeByName OpTokenizer s of
        None \<Rightarrow> Inr st
      | Some _ \<Rightarrow> bind_r (isParsing L st) (\<lambda>p.
          log_effects L st (if p then st\<lparr>pp_logVisible := True\<rparr> else st\<lparr>pp_logVisible := False, pp_runVisible := True\<rparr>)))"

definition run_dataflow_start :: "libs \<Rightarrow> jsval \<Rightarrow> pipeline_page \<Rightarrow> pipeline_page res" where
  \<comment> \<open>\<open>run\<close> with the answer to the save\<close>
  "run_dataflow_start L saveRet st = (if code_zero saveRet then log_effects L st (st\<lparr>pp_logVisible := True\<rparr>) else Inr st)"

definition run_params :: "string \<Rightarrow> jsval \<Rightarrow> jsval" where
  "run_params agentId file = JObj [(''id'', JStr agentId), (''query'', JStr []), (''session_id'', JNull), (''files'', JArr [file])]"

definition set_message :: "string \<Rightarrow> pipeline_page \<Rightarrow> pipeline_page" where
  \<comment> \<open>the query has a new key, and no data until it answers\<close>
  "set_message m st = (if m = pp_messageId st then st else st\<lparr>pp_messageId := m, pp_data := None\<rparr>)"

definition run_dataflow_end :: "libs \<Rightarrow> jsval \<Rightarrow> (jsnum \<times> jsval) option \<Rightarrow> pipeline_page \<Rightarrow> pipeline_page res" where
  \<comment> \<open>the stream has ended with the response; after an error only a message is shown\<close>
  "run_dataflow_end L file res st =
     (case res of
        Some (status, data) \<Rightarrow>
          if num_eq status (Fin 200) \<and> lodash_get L data [''code''] JUndef = JNum (Fin 0)
          then (case lodash_get L data [''data'', ''message_id''] JUndef of
                  JStr m \<Rightarrow> if m = [] then Inr (st\<lparr>pp_uploadedFile := file\<rparr>)
                            else log_effects L st (set_message m (st\<lparr>pp_uploadedFile := file\<rparr>))
                | _ \<Rightarrow> Inr (st\<lparr>pp_uploadedFile := file\<rparr>))
          else Inr st
      | None \<Rightarrow> Inr st)"

definition trace_fetched :: "libs \<Rightarrow> trace_item list \<Rightarrow> pipeline_page \<Rightarrow> pipeline_page res" where
  "trace_fetched L ts st = log_effects L st (st\<lparr>pp_data := Some ts\<rparr>)"

definition handleCancel :: "jsval \<Rightarrow> pipeline_page \<Rightarrow> pipeline_page" where
  \<comment> \<open>with the code the server answers\<close>
  "handleCancel code st = (if code = JNum (Fin 0) then st\<lparr>pp_stopFetch := True\<rparr> else st)"

definition hideLogSheet :: "pipeline_page \<Rightarrow> pipeline_page" where
  "hideLogSheet st = st\<lparr>pp_logVisible := False\<rparr>"

subsection \<open>The result\<close>

definition findEndOutput :: "libs \<Rightarrow> (string \<Rightarrow> jsval option) \<Rightarrow> trace_item list option \<Rightarrow> jsval" where
  \<comment> \<open>the parser gives no value where it throws; a message that is no text has none either\<close>
  "findEndOutput L parse l =
     (case l of
        None \<Rightarrow> JUndef
      | Some xs \<Rightarrow>
          (case find (\<lambda>x. trace_component x = ''END'') xs of
             None \<Rightarrow> JUndef
           | Some x \<Rightarrow>
               (case lodash_get L (JArr (trace_list x)) [''0'', ''message''] JUndef of
                  JStr str \<Rightarrow> if lodash_isEmpty L (JStr str) then JUndef
                              else (case parse str of None \<Rightarrow> JUndef | Some v \<Rightarrow> v)
                | _ \<Rightarrow> JUndef)))"

definition isEndOutputEmpty :: "libs \<Rightarrow> (string \<Rightarrow> jsval option) \<Rightarrow> trace_item list option \<Rightarrow> bool" where
  "isEndOutputEmpty L parse l = lodash_isEmpty L (findEndOutput L parse l)"

definition handleDownloadJson :: "libs \<Rightarrow> (string \<Rightarrow> jsval option) \<Rightarrow> string \<Rightarrow> trace_item list option \<Rightarrow> (jsval \<times> string) option" where
  "handleDownloadJson L parse title data =
     (if isEndOutputEmpty L parse data then None else Some (findEndOutput L parse data, title @ ''.json''))"

record timeline_row =
  row_name :: string
  row_progress :: jsnum
  row_messages :: "jsval list"

definition dataflow_row :: "libs \<Rightarrow> rf_state \<Rightarrow> trace_item \<Rightarrow> timeline_row res" where
  \<comment> \<open>one entry of \<open>DataflowTimeline\<close>; the progress is in percent\<close>
  "dataflow_row L s item =
     (let name = (case getNode (Val (trace_component item)) s of None \<Rightarrow> [] | Some n \<Rightarrow> node_name n) in
      bind_r (js_prop (case trace_list item of [] \<Rightarrow> JUndef | ts \<Rightarrow> last ts) ''progress'')
        (\<lambda>p. bind_r (map_r (\<lambda>t. bind_r (js_prop t ''message'') (\<lambda>m. Inr (if lodash_isEmpty L m then [] else [t]))) (trace_list item))
           (\<lambda>ms. Inr \<lparr>row_name = (if name = [] then ''END'' else name),
              row_progress = (case js_number p of Fin q \<Rightarrow> Fin (q * 100) | n \<Rightarrow> n), row_messages = concat ms\<rparr>)))"

definition DataflowTimeline :: "libs \<Rightarrow> rf_state \<Rightarrow> trace_item list option \<Rightarrow> timeline_row list res" where
  "DataflowTimeline L s data = (case data of None \<Rightarrow> Inr [] | Some xs \<Rightarrow> map_r (dataflow_row L s) xs)"

section \<open>A run starts from what was entered\<close>

lemma buildBeginQuery_lookup:
  assumes "distinct (keys ins)" and "k \<in> set (keys ins)"
  shows "obj_get (buildBeginQueryWithObject ins vals) k
    = (case find (\<lambda>x. obj_get x ''key'' = JStr k) vals of None \<Rightarrow> JUndef | Some item \<Rightarrow> JObj item)"
proof -
  let ?e = "\<lambda>k. case find (\<lambda>x. obj_get x ''key'' = JStr k) vals of None \<Rightarrow> [] | Some item \<Rightarrow> [(k, JObj item)]"
  have sub: "set (keys (concat (map ?e ks))) \<subseteq> set ks" for ks
    by (induction ks) (auto split: option.splits)
  have d: "distinct ks \<Longrightarrow> distinct (keys (concat (map ?e ks)))" for ks
    using sub by (induction ks) (auto split: option.splits)
  have "distinct ks \<Longrightarrow> k \<in> set ks \<Longrightarrow> obj_get (concat (map ?e ks)) k
      = (case find (\<lambda>x. obj_get x ''key'' = JStr k) vals of None \<Rightarrow> JUndef | Some item \<Rightarrow> JObj item)" for ks
  proof (induction ks)
    case (Cons x ks)
    then show ?case using sub [of ks] obj_get_missing [of k "concat (map ?e ks)"] by (auto split: option.splits)
  qed simp
  with assms d [OF assms(1)] show ?thesis
    by (simp add: buildBeginQueryWithObject_def obj_get_def map_of_obj_of_entries)
qed

lemma begin_params:
  assumes "nlabel x = op_str OpBegin" and "node_form x = Some (JObj f)" and "distinct (keys f)"
    and "obj_get f ''mode'' \<noteq> JStr ''Webhook''"
  shows "operator_params depth L es ns x = Inr (JObj (spread (JObj f)))"
  using assms by (simp add: operator_params_def form_or_empty_def js_coalesce_def transformBeginParams_def Let_def)

text \<open>
  C14: Pressing run in the sheet of an agent with inputs first saves the graph with the values entered (unless the DSL cannot be built,
  when the sheet only closes): in the DSL of the request, the begin component has for every input of the begin node the value of that key
  from the sheet, and none where the sheet has none. The store has the same form. The conversation is reset only after the save
  succeeded, and the chat opens only after the reset succeeded.
\<close>

theorem run_saves_inputs:
  assumes api: "lodash_api L" and ids: "distinct_ids s" and n: "getNode (Val BeginId) s = Some n"
    and b: "nlabel n = op_str OpBegin" "in_dsl (edges s) n"
    and f: "node_form n = Some (JObj f)" "distinct (keys f)" "obj_get f ''mode'' \<noteq> JStr ''Webhook''"
    and ins: "obj_get f ''inputs'' = JObj ins" "distinct (keys ins)"
    and run: "run_sheet_ok depth L agentId title d s vals saveRet resetRet = Inr (s', es)" "es \<noteq> [Hide_Sheet]"
  shows "\<exists>I D c rest. es = Save_Graph (JObj [(''id'', JStr agentId), (''title'', JStr title), (''dsl'', JObj (dsl_json D))]) # Hide_Sheet # rest
     \<and> map_of (dsl_components D) BeginId = Some c \<and> js_opt (obj_get (cobj c) ''params'') ''inputs'' = JObj I
     \<and> js_opt (begin_form s') ''inputs'' = JObj I
     \<and> (\<forall>k\<in>set (keys ins). obj_get I k
          = (case find (\<lambda>x. obj_get x ''key'' = JStr k) vals of None \<Rightarrow> JUndef | Some item \<Rightarrow> JObj item))
     \<and> rest = (if code_zero saveRet then Reset_Request # (if code_zero resetRet then [Show_Drawer] else []) else [])"
proof -
  let ?I = "buildBeginQueryWithObject ins vals"
  let ?s = "updateNodeForm L BeginId (JObj ?I) [''inputs''] s"
  have inp: "run_inputs s vals = Inr (JObj ?I)" by (simp add: run_inputs_def n f(1) ins(1))
  then obtain D where D: "buildDslData depth L d s (Some (nodes ?s)) None = Inr D" and s': "s' = ?s"
    and es: "es = Save_Graph (JObj [(''id'', JStr agentId), (''title'', JStr title), (''dsl'', JObj (dsl_json D))]) # Hide_Sheet
        # (if code_zero saveRet then Reset_Request # (if code_zero resetRet then [Show_Drawer] else []) else [])"
    using run by (cases "buildDslData depth L d s (Some (nodes ?s)) None") (auto simp: run_sheet_ok_def handleRun_def saveGraph_def Let_def)
  let ?n = "form_step L BeginId (JObj ?I) [''inputs''] n"
  let ?f = "obj_put ''inputs'' (JObj ?I) f"
  have nid: "nid n = BeginId" using n by (auto simp: getNode_def find_Some_iff)
  have n': "getNode (Val BeginId) ?s = Some ?n" by (simp add: getNode_updateNodeForm n)
  have form: "node_form ?n = Some (JObj ?f)"
    by (simp add: form_step_def nid set_form_def next_form_def f(1) lodash_api.set_one [OF api])
  let ?ns = "filter (\<lambda>n. nlabel n \<noteq> op_str OpPlaceholder) (nodes ?s)"
  let ?es = "filter (\<lambda>e. \<not> is_placeholder (nodes ?s) (source e) \<and> \<not> is_placeholder (nodes ?s) (target e)) (edges s)"
  obtain comps where comps: "buildDslComponentsByGraph depth L ?ns ?es (dsl_components d) = Inr comps" "dsl_components D = comps"
    using D by (auto simp: buildDslData_def Let_def)
  have dist: "distinct (map nid ?ns)" using ids by (auto simp: updateNodeForm_def distinct_ids_def set_form_def distinct_map_filter' comp_def if_distrib [of nid] cong: if_cong)
  have mem: "?n \<in> set ?ns" using n' b(1) by (auto simp: getNode_def find_Some_iff)
  have "is_component ?es ?n"
    using b nid by (auto simp: in_dsl_component [symmetric] in_dsl_def list_ex_iff form_step_def set_form_def)
  then obtain c where c: "map_of comps (nid ?n) = Some c" "build_component depth L ?ns ?es (dsl_components d) ?n = Inr c"
    using dsl_lookup [OF comps(1) dist mem] by auto
  have "operator_params depth L ?es ?ns ?n = Inr (JObj (spread (JObj ?f)))"
    by (rule begin_params) (use form b(1) f in \<open>auto simp: distinct_keys_obj_put\<close>)
  then have "js_opt (obj_get (cobj c) ''params'') ''inputs'' = JObj ?I"
    using build_component_fields [OF c(2)] b(1) f(2)
    by (auto simp: removeUselessDataInTheOperator_def js_coalesce_def obj_get_spread distinct_keys_obj_put)
  moreover have "nid ?n = BeginId" by (simp add: form_step_def set_form_def nid)
  moreover have "js_opt (begin_form ?s) ''inputs'' = JObj ?I" using n' form by (simp add: begin_form_def)
  ultimately show ?thesis
    using es c(1) comps(2) buildBeginQuery_lookup [OF ins(2)] unfolding s'
    by (intro exI [of _ ?I] exI [of _ D] exI [of _ c]) auto
qed

definition asking_agent :: rf_state where
  "asking_agent = mk_state [mk_node BeginId (op_str OpBegin) ''begin''
     (JObj [(''mode'', JStr ''conversational''), (''inputs'', JObj [(''city'', JObj [(''name'', JStr ''City'')])])]) None] []"

theorem run_saves_inputs_witness:
  "\<exists>s' es I. run_sheet_ok 1 ref_libs ''a'' ''t'' no_dsl asking_agent
       [[(''name'', JStr ''City''), (''value'', JStr ''Rome''), (''key'', JStr ''city'')]] (JObj [(''code'', JNum (Fin 0))]) (JObj [(''code'', JNum (Fin 0))])
       = Inr (s', es) \<and> Show_Drawer \<in> set es \<and> js_opt (begin_form s') ''inputs'' = JObj I
     \<and> obj_get I ''city'' = JObj [(''name'', JStr ''City''), (''value'', JStr ''Rome''), (''key'', JStr ''city'')]"
proof -
  let ?vals = "[[(''name'', JStr ''City''), (''value'', JStr ''Rome''), (''key'', JStr ''city'')]]"
  let ?ok = "JObj [(''code'', JNum (Fin 0))]"
  let ?f = "[(''mode'', JStr ''conversational''), (''inputs'', JObj [(''city'', JObj [(''name'', JStr ''City'')])])]"
  have "case run_sheet_ok 1 ref_libs ''a'' ''t'' no_dsl asking_agent ?vals ?ok ?ok of Inl _ \<Rightarrow> False | Inr (_, es) \<Rightarrow> length es = 4" by code_simp
  then obtain s' es where r: "run_sheet_ok 1 ref_libs ''a'' ''t'' no_dsl asking_agent ?vals ?ok ?ok = Inr (s', es)" and ne: "es \<noteq> [Hide_Sheet]"
    by (cases "run_sheet_ok 1 ref_libs ''a'' ''t'' no_dsl asking_agent ?vals ?ok ?ok") fastforce+
  have n: "getNode (Val BeginId) asking_agent = Some (hd (nodes asking_agent))" "distinct_ids asking_agent"
      "nlabel (hd (nodes asking_agent)) = op_str OpBegin" "in_dsl (edges asking_agent) (hd (nodes asking_agent))"
      "node_form (hd (nodes asking_agent)) = Some (JObj ?f)"
    by (simp_all add: asking_agent_def mk_state_def mk_node_def getNode_def distinct_ids_def in_dsl_def init_state_def)
  obtain I where "Show_Drawer \<in> set es" "js_opt (begin_form s') ''inputs'' = JObj I" "obj_get I ''city'' = JObj (hd ?vals)"
    using run_saves_inputs [OF ref.lodash_api_axioms n(2,1,3,4,5), of "[(''city'', JObj [(''name'', JStr ''City'')])]", OF _ _ _ _ r ne]
    by (auto simp: code_zero_def)
  with r show ?thesis by (intro exI [of _ s'] exI [of _ es] exI [of _ I]) simp
qed

section \<open>The log of a pipeline\<close>

fun polls :: "libs \<Rightarrow> trace_item list list \<Rightarrow> pipeline_page \<Rightarrow> pipeline_page res" where
  \<comment> \<open>the traces the server answers with, one after the other\<close>
  "polls L [] st = Inr st"
| "polls L (ts # tss) st = bind_r (trace_fetched L ts st) (polls L tss)"

definition still_running :: "libs \<Rightarrow> trace_item list \<Rightarrow> bool" where
  "still_running L ts = (ts \<noteq> [] \<and> isCompleted L (Some ts) = Inr False)"

definition run_response :: "string \<Rightarrow> (jsnum \<times> jsval) option" where
  "run_response m = Some (Fin 200, JObj [(''code'', JNum (Fin 0)), (''data'', JObj [(''message_id'', JStr m)])])"

lemma isCompleted_None [simp]: "isCompleted L None = Inr False"
  by (simp add: isCompleted_def)

lemma polls_append: "polls L (tss @ uss) st = bind_r (polls L tss st) (polls L uss)"
proof (induction tss arbitrary: st)
  case (Cons ts tss)
  then show ?case by (cases "trace_fetched L ts st") simp_all
qed simp

lemma polls_running:
  assumes "isCompleted L (pp_data st) = Inr False" and "\<forall>ts\<in>set tss. still_running L ts"
  shows "polls L tss st = Inr (if tss = [] then st else st\<lparr>pp_data := Some (last tss)\<rparr>)"
  using assms
proof (induction tss arbitrary: st)
  case (Cons ts tss)
  then have "trace_fetched L ts st = Inr (st\<lparr>pp_data := Some ts\<rparr>)"
    by (simp add: trace_fetched_def log_effects_def still_running_def)
  with Cons.IH [of "st\<lparr>pp_data := Some ts\<rparr>"] Cons.prems show ?case by (simp add: still_running_def)
qed simp

lemma run_started:
  assumes "code_zero saveRet" and "\<not> pp_logVisible st" and "isCompleted L (pp_data st) = Inr c"
  shows "run_dataflow_start L saveRet st = Inr (st\<lparr>pp_logVisible := True, pp_stopFetch := False\<rparr>)"
  using assms by (simp add: run_dataflow_start_def log_effects_def)

lemma run_answered:
  assumes "lodash_api L" and "m \<noteq> []" and "m \<noteq> pp_messageId st" and "isCompleted L (pp_data st) = Inr c"
  shows "run_dataflow_end L file (run_response m) st = Inr (st\<lparr>pp_uploadedFile := file, pp_messageId := m, pp_data := None\<rparr>)"
proof -
  have "lodash_get L (JObj [(''code'', JNum (Fin 0)), (''data'', JObj [(''message_id'', JStr m)])]) [''data'', ''message_id''] JUndef = JStr m"
    by (subst lodash_api.get_step [OF assms(1)]) (simp_all add: lodash_api.get_one [OF assms(1)])
  with assms show ?thesis
    by (simp add: run_dataflow_end_def run_response_def lodash_api.get_one [OF assms(1)] num_eq_def set_message_def log_effects_def)
qed

text \<open>
  C15: A test run of a pipeline is followed to its end: once the server has accepted the run, the page asks for the
  trace again and again and shows that it is parsing as long as the traces are those of a running pipeline, whatever
  the previous run had left behind; the first trace that ends with the result of the pipeline stops the polling and
  is what the log shows.
\<close>

theorem pipeline_run_followed:
  assumes "lodash_api L" and "code_zero saveRet" and "\<not> pp_logVisible st" and "isCompleted L (pp_data st) = Inr c"
    and m: "m \<noteq> []" "m \<noteq> pp_messageId st"
    and tr: "\<forall>ts\<in>set tss. still_running L ts" "isCompleted L (Some fin) = Inr True"
  shows "\<exists>s1 s2. run_dataflow_start L saveRet st = Inr s1 \<and> run_dataflow_end L file (run_response m) s1 = Inr s2
     \<and> (\<forall>k\<le>length tss. \<exists>q. polls L (take k tss) s2 = Inr q \<and> polling q \<and> isParsing L q = Inr (0 < k))
     \<and> (\<exists>q. polls L (tss @ [fin]) s2 = Inr q \<and> \<not> polling q \<and> isParsing L q = Inr False
           \<and> pp_data q = Some fin \<and> pp_messageId q = m)"
proof -
  let ?s1 = "st\<lparr>pp_logVisible := True, pp_stopFetch := False\<rparr>"
  let ?s2 = "?s1\<lparr>pp_uploadedFile := file, pp_messageId := m, pp_data := None\<rparr>"
  have "run_dataflow_start L saveRet st = Inr ?s1" by (rule run_started) (use assms in auto)
  moreover have "run_dataflow_end L file (run_response m) ?s1 = Inr ?s2" by (rule run_answered) (use assms in auto)
  moreover have "\<exists>q. polls L (take k tss) ?s2 = Inr q \<and> polling q \<and> isParsing L q = Inr (0 < k)" if "k \<le> length tss" for k
  proof -
    have run: "\<forall>ts\<in>set (take k tss). still_running L ts" using tr(1) in_set_takeD by fast
    moreover have "take k tss \<noteq> [] \<Longrightarrow> still_running L (last (take k tss))" using run last_in_set by blast
    ultimately show ?thesis
      using that m(1) polls_running [of L ?s2 "take k tss"]
      by (auto simp: polling_def isParsing_def isLogEmpty_def still_running_def)
  qed
  moreover have "\<exists>q. polls L (tss @ [fin]) ?s2 = Inr q \<and> \<not> polling q \<and> isParsing L q = Inr False
      \<and> pp_data q = Some fin \<and> pp_messageId q = m"
  proof -
    let ?q = "?s2\<lparr>pp_data := Some fin, pp_stopFetch := True\<rparr>"
    have "isCompleted L (Some (last tss)) = Inr False" if "tss \<noteq> []" using that tr(1) by (simp add: still_running_def)
    then have "polls L (tss @ [fin]) ?s2 = Inr ?q"
      using tr polls_running [of L ?s2 tss] by (auto simp: polls_append trace_fetched_def log_effects_def)
    then show ?thesis using tr(2) by (intro exI [of _ ?q]) (simp add: isParsing_def polling_def)
  qed
  ultimately show ?thesis by blast
qed

definition end_trace :: "string \<Rightarrow> trace_item list" where
  "end_trace msg = [\<lparr>trace_component = ''File'', trace_list = [JObj [(''message'', JStr ''fin'')]]\<rparr>,
     \<lparr>trace_component = ''END'', trace_list = [JObj [(''message'', JStr msg)]]\<rparr>]"

lemma end_trace_completed: "isCompleted ref_libs (Some (end_trace ''{}'')) = Inr True"
    "still_running ref_libs (end_trace [])"
  by (simp_all add: isCompleted_def end_trace_def trace_message_def still_running_def)

theorem pipeline_run_followed_witness:
  "\<exists>s1 s2 q. run_dataflow_start ref_libs (JObj [(''code'', JNum (Fin 0))]) new_pipeline_page = Inr s1
     \<and> run_dataflow_end ref_libs JUndef (run_response ''m'') s1 = Inr s2
     \<and> polls ref_libs [end_trace [], end_trace ''{}''] s2 = Inr q \<and> \<not> polling q \<and> pp_data q = Some (end_trace ''{}'')"
  using pipeline_run_followed [OF ref.lodash_api_axioms, of "JObj [(''code'', JNum (Fin 0))]" new_pipeline_page False "''m''"
      "[end_trace []]" "end_trace ''{}''" JUndef] end_trace_completed
  by (fastforce simp: code_zero_def new_pipeline_page_def)

text \<open>
  After a finished run, a second run that the server refuses leaves the log of the first one open, with its result, and asks
  for it for ever: showing the log starts the polling again, and no trace that arrives stops it, because the log was
  complete before.
\<close>

theorem refused_run_polls_forever:
  assumes "code_zero saveRet" and "\<not> pp_logVisible st" and "pp_data st = Some ts" and "isCompleted L (Some ts) = Inr True"
    and "pp_messageId st \<noteq> []" and "receiveMessageError (Some (status, JObj data))" and "lodash_api L"
  shows "\<exists>s1. run_dataflow_start L saveRet st = Inr s1 \<and> run_dataflow_end L file (Some (status, JObj data)) s1 = Inr s1
     \<and> (\<forall>n. \<exists>q. polls L (replicate n ts) s1 = Inr q \<and> polling q \<and> pp_logVisible q \<and> pp_data q = Some ts)"
proof -
  let ?s1 = "st\<lparr>pp_logVisible := True, pp_stopFetch := False\<rparr>"
  have "run_dataflow_start L saveRet st = Inr ?s1" by (rule run_started) (use assms in auto)
  moreover have "run_dataflow_end L file (Some (status, JObj data)) ?s1 = Inr ?s1"
    using assms(6) by (auto simp: run_dataflow_end_def receiveMessageError_def lodash_api.get_one [OF assms(7)])
  moreover have "polls L (replicate n ts) ?s1 = Inr ?s1" for n
  proof (induction n)
    case (Suc n)
    have "?s1\<lparr>pp_data := Some ts\<rparr> = ?s1" using assms(3) by (cases st) simp
    then have "trace_fetched L ts ?s1 = Inr ?s1" using assms(3,4) by (simp add: trace_fetched_def log_effects_def)
    with Suc show ?case by simp
  qed simp
  ultimately show ?thesis using assms(3,5) by (intro exI [of _ ?s1]) (simp add: polling_def)
qed

definition finished_page :: pipeline_page where
  "finished_page = new_pipeline_page\<lparr>pp_messageId := ''m'', pp_data := Some (end_trace ''{}''), pp_stopFetch := True\<rparr>"

theorem refused_run_polls_forever_witness:
  "\<exists>s1. run_dataflow_start ref_libs (JObj [(''code'', JNum (Fin 0))]) finished_page = Inr s1
     \<and> run_dataflow_end ref_libs JUndef (Some (Fin 200, JObj [(''code'', JNum (Fin 102))])) s1 = Inr s1
     \<and> (\<forall>n. \<exists>q. polls ref_libs (replicate n (end_trace ''{}'')) s1 = Inr q \<and> polling q \<and> pp_logVisible q \<and> pp_data q = Some (end_trace ''{}''))"
  by (rule refused_run_polls_forever [OF _ _ _ _ _ _ ref.lodash_api_axioms])
    (simp_all add: code_zero_def finished_page_def new_pipeline_page_def end_trace_completed receiveMessageError_def)

end
