(* ===== verification/Run_Log.thy ===== *)
theory Run_Log
  imports Agent_Run
begin

text \<open>
  The timeline of a run of an agent (\<open>pages/agent/log-sheet/workflow-timeline.tsx\<close>, \<open>tool-timeline-item.tsx\<close>): the
  nodes that were started, what they read and wrote, and the tools they called. A translation is looked up by the
  function \<open>tr\<close>; a row holds what the component shows for a node or a tool.
\<close>

section \<open>Names of operators and tools\<close>

definition typeMap :: "string obj" where
  \<comment> \<open>the keys of the translations\<close>
  "typeMap = map (\<lambda>(k, t). (k, ''flow.logTimeline.'' @ t))
     [(''begin'', ''begin''), (''agent'', ''agent''), (''retrieval'', ''retrieval''), (''message'', ''message''),
      (''awaitResponse'', ''awaitResponse''), (''switch'', ''switch''), (''iteration'', ''iteration''),
      (''categorize'', ''categorize''), (''code'', ''code''), (''textProcessing'', ''textProcessing''),
      (''tavilySearch'', ''tavilySearch''), (''tavilyExtract'', ''tavilyExtract''), (''exeSQL'', ''exeSQL''),
      (''google'', ''google''), (''duckDuckGo'', ''google''), (''wikipedia'', ''wikipedia''),
      (''googleScholar'', ''googleScholar''), (''arXiv'', ''googleScholar''), (''pubMed'', ''googleScholar''),
      (''gitHub'', ''gitHub''), (''email'', ''email''), (''httpRequest'', ''httpRequest''), (''wenCai'', ''wenCai''),
      (''yahooFinance'', ''yahooFinance''), (''userFillUp'', ''userFillUp'')]"

definition toLowerCaseStringAndDeleteChar :: "string \<Rightarrow> string" where
  \<comment> \<open>with the default character\<close>
  "toLowerCaseStringAndDeleteChar str = filter (\<lambda>c. c \<noteq> CHR ''_'') (filter (\<lambda>c. c \<noteq> CHR '' '') (toLowerCase str))"

definition typeMapLowerCase :: "string obj" where
  "typeMapLowerCase = obj_of_entries (map (\<lambda>(k, v). (toLowerCaseStringAndDeleteChar k, v)) typeMap)"

definition capitalize :: "string \<Rightarrow> string" where
  "capitalize w = toUpperCase (take 1 w) @ toLowerCase (drop 1 w)"

definition capitalizeWords :: "jsval \<Rightarrow> string list" where
  "capitalizeWords str = (if truthy str then map capitalize (js_split (CHR ''_'') (js_to_string str)) else [[]])"

definition changeToolName :: "jsval \<Rightarrow> string" where
  "changeToolName toolName = ''Agent '' @ js_join (CHR '' '') (capitalizeWords toolName)"

function js_split_str :: "string \<Rightarrow> string \<Rightarrow> string list" where
  \<comment> \<open>\<open>s.split(p)\<close> for a non-empty separator\<close>
  "js_split_str p s =
     (if p = [] then [s]
      else case split_first p s of None \<Rightarrow> [s] | Some (before, after) \<Rightarrow> before # js_split_str p after)"
  by pat_completeness auto

termination
  by (relation "measure (\<lambda>(p, s). length s)") (auto dest!: split_first_Some)

declare js_split_str.simps [simp del]

definition parentName :: "jsval \<Rightarrow> string" where
  "parentName str = (if truthy str then last (js_split_str ''-->'' (js_to_string str)) else [])"

section \<open>The tools of a node\<close>

record tool_row =
  tool_text :: string
  tool_icon :: string
  tool_elapsed :: string
  tool_spinning :: bool

definition tool_label :: "(string \<Rightarrow> string) \<Rightarrow> bool \<Rightarrow> jsval \<Rightarrow> string res" where
  "tool_label tr isShare tool =
     (let name = js_opt tool ''tool_name'' in
      if isShare
      then (case name of
              JStr n \<Rightarrow> Inr (case map_of typeMap (toLowerCaseStringAndDeleteChar n) of
                               Some t \<Rightarrow> tr t | None \<Rightarrow> changeToolName name)
            | _ \<Rightarrow> Inl TypeError)
      else Inr (parentName (js_opt tool ''path'') @ '' '' @ js_join (CHR '' '') (capitalizeWords name)))"

definition SVGIconMap :: "Operator list" where
  \<comment> \<open>the operators that have an icon\<close>
  "SVGIconMap = [OpArXiv, OpGitHub, OpBing, OpDuckDuckGo, OpGoogle, OpGoogleScholar, OpPubMed, OpSearXNG, OpTavilyExtract,
     OpTavilySearch, OpWikipedia, OpYahooFinance, OpWenCai, OpCrawler]"

definition elapsed_text :: "jsval \<Rightarrow> string" where
  \<comment> \<open>\<open>v?.toString().slice(0, 6) || ''\<close> followed by the unit\<close>
  "elapsed_text v = (if nullish v then [] else take 6 (js_to_string v)) @ (if truthy v then ''s'' else [])"

definition blackList :: "string list" where
  "blackList = [''add_memory'', ''gen_citations'']"

definition shown_tools :: "jsval list \<Rightarrow> jsval list" where
  "shown_tools tools = filter (\<lambda>t. js_opt t ''tool_name'' \<notin> set (map JStr blackList)) tools"

definition tool_row_of :: "(string \<Rightarrow> string) \<Rightarrow> bool \<Rightarrow> bool \<Rightarrow> nat \<Rightarrow> nat \<Rightarrow> jsval \<Rightarrow> tool_row res" where
  "tool_row_of tr sendLoading isShare n idx tool =
     (let toolName = concat (capitalizeWords (js_opt tool ''tool_name'')) in
      bind_r (tool_label tr isShare tool) (\<lambda>label.
        Inr \<lparr>tool_text = label,
             tool_icon = (if list_ex (\<lambda>x. op_str x = toolName) SVGIconMap then toolName else ''Agent''),
             tool_elapsed = elapsed_text (js_opt tool ''elapsed_time''),
             tool_spinning = (int idx \<ge> int n - 1 \<and> js_opt tool ''result'' = JStr ''...'' \<and> sendLoading)\<rparr>))"

definition ToolTimelineItem :: "(string \<Rightarrow> string) \<Rightarrow> bool \<Rightarrow> bool \<Rightarrow> jsval list \<Rightarrow> tool_row list res" where
  "ToolTimelineItem tr sendLoading isShare tools =
     (let filteredTools = shown_tools tools
      in map_r (\<lambda>(idx, tool). tool_row_of tr sendLoading isShare (length filteredTools) idx tool) (enumerate 0 filteredTools))"

section \<open>The nodes of a run\<close>

definition hasTrace :: "trace_item list option \<Rightarrow> jsval \<Rightarrow> bool" where
  "hasTrace data componentId = (case data of None \<Rightarrow> False | Some ts \<Rightarrow> list_ex (\<lambda>x. JStr (trace_component x) = componentId) ts)"

definition filterTrace :: "trace_item list option \<Rightarrow> jsval \<Rightarrow> jsval list" where
  "filterTrace data componentId =
     (case data of
        None \<Rightarrow> [JObj []]
      | Some ts \<Rightarrow> foldl (\<lambda>pre cur. pre @ trace_list cur) [] (filter (\<lambda>x. JStr (trace_component x) = componentId) ts))"

definition finished_of :: "ref_event list \<Rightarrow> jsval \<Rightarrow> jsval list" where
  \<comment> \<open>\<open>filterFinishedNodeList\<close> of the timeline\<close>
  "finished_of es componentId =
     map (\<lambda>e. obj_get (snd e) ''data'')
       (filter (\<lambda>e. has_type ''node_finished'' (snd e) \<and> js_opt (obj_get (snd e) ''data'') ''component_id'' = componentId) es)"

definition getInputsOrOutputs :: "libs \<Rightarrow> jsval list \<Rightarrow> string \<Rightarrow> jsval" where
  "getInputsOrOutputs L nodeEventList field =
     (let vals = map (\<lambda>x. lodash_get L x [field] (JObj [])) nodeEventList in
      case vals of [] \<Rightarrow> JObj [] | [v] \<Rightarrow> js_or v (JObj []) | _ \<Rightarrow> JArr vals)"

definition below_micro :: "jsval \<Rightarrow> bool" where
  \<comment> \<open>\<open>v < 0.000001\<close>\<close>
  "below_micro v = (case js_number v of Fin q \<Rightarrow> q < 1 / 1000000 | NInf \<Rightarrow> True | _ \<Rightarrow> False)"

definition getElapsedTime :: "ref_event list \<Rightarrow> jsval \<Rightarrow> jsval" where
  "getElapsedTime es nodeId =
     (if nodeId = JStr ''begin'' then JStr []
      else case find (\<lambda>e. component_id e = nodeId \<and> has_type ''node_finished'' (snd e)) es of
        None \<Rightarrow> JStr []
      | Some e \<Rightarrow> (let t = js_opt (obj_get (snd e) ''data'') ''elapsed_time'' in if below_micro t then JStr [] else js_or t (JStr [])))"

definition stop_fetch_trace :: "bool \<Rightarrow> ref_event list \<Rightarrow> bool" where
  "stop_fetch_trace sendLoading es = (list_ex (\<lambda>e. has_type ''workflow_finished'' (snd e)) es \<or> \<not> sendLoading)"

record run_row =
  rr_component :: jsval
  rr_label :: string
  rr_elapsed :: string
  rr_spinning :: bool
  rr_inputs :: jsval
  rr_outputs :: jsval
  rr_tools :: "tool_row list"

definition row_label :: "(string \<Rightarrow> string) \<Rightarrow> bool \<Rightarrow> jsval \<Rightarrow> string res" where
  "row_label tr isShare data =
     (if isShare
      then (case js_opt data ''component_type'' of
              JStr l \<Rightarrow> Inr (case map_of typeMapLowerCase (toLowerCaseStringAndDeleteChar l) of Some t \<Rightarrow> tr t | None \<Rightarrow> l)
            | _ \<Rightarrow> Inl TypeError)
      else Inr (if js_opt data ''component_name'' = JStr ''begin'' then tr ''flow.begin'' else if nullish (js_opt data ''component_name'') then [] else js_to_string (js_opt data ''component_name'')))"

definition run_row_of ::
    "libs \<Rightarrow> (string \<Rightarrow> string) \<Rightarrow> bool \<Rightarrow> bool \<Rightarrow> trace_item list option \<Rightarrow> ref_event list \<Rightarrow> ref_event \<Rightarrow> run_row res" where
  "run_row_of L tr sendLoading isShare data es x =
     (let c = component_id x; nodeDataList = finished_of es c;
          finishIds = map (\<lambda>d. js_opt d ''component_id'') nodeDataList in
      bind_r (row_label tr isShare (obj_get (snd x) ''data'')) (\<lambda>l.
      bind_r (if hasTrace data c then ToolTimelineItem tr sendLoading isShare (filterTrace data c) else Inr []) (\<lambda>tools.
        Inr \<lparr>rr_component = c, rr_label = l, rr_elapsed = elapsed_text (getElapsedTime es c),
             rr_spinning = (c \<notin> set finishIds \<and> sendLoading),
             rr_inputs = getInputsOrOutputs L nodeDataList ''inputs'',
             rr_outputs = getInputsOrOutputs L nodeDataList ''outputs'', rr_tools = tools\<rparr>)))"

definition WorkFlowTimeline ::
    "libs \<Rightarrow> (string \<Rightarrow> string) \<Rightarrow> bool \<Rightarrow> bool \<Rightarrow> trace_item list option \<Rightarrow> ref_event list option \<Rightarrow> run_row list res" where
  "WorkFlowTimeline L tr sendLoading isShare data es =
     (case es of None \<Rightarrow> Inr [] | Some l \<Rightarrow> map_r (run_row_of L tr sendLoading isShare data l) (startedNodeList l))"

section \<open>Properties\<close>

lemma typeMap_distinct: "distinct (keys typeMap)" "distinct (map toLowerCaseStringAndDeleteChar (keys typeMap))"
  by code_simp+

lemma typeMap_camel: "list_all (\<lambda>k. toLowerCaseStringAndDeleteChar k \<in> set (keys typeMap) \<longrightarrow> toLowerCaseStringAndDeleteChar k = k) (keys typeMap)"
  by code_simp

lemma typeMapLowerCase_lookup:
  assumes "k \<in> set (keys typeMap)"
  shows "map_of typeMapLowerCase (toLowerCaseStringAndDeleteChar k) = map_of typeMap k"
proof -
  have inj: "inj_on toLowerCaseStringAndDeleteChar (set (keys typeMap))"
    using typeMap_distinct(2) by (simp add: distinct_map)
  obtain t where t: "(k, t) \<in> set typeMap" using assms by (auto simp: keys_def)
  have "keys (map (\<lambda>(k, v). (toLowerCaseStringAndDeleteChar k, v)) typeMap) = map toLowerCaseStringAndDeleteChar (keys typeMap)"
    by (simp add: keys_def comp_def case_prod_unfold)
  then have d: "distinct (keys (map (\<lambda>(k, v). (toLowerCaseStringAndDeleteChar k, v)) typeMap))" using typeMap_distinct(2) by simp
  moreover have "(toLowerCaseStringAndDeleteChar k, t) \<in> set (map (\<lambda>(k, v). (toLowerCaseStringAndDeleteChar k, v)) typeMap)"
    using t by force
  ultimately have "map_of typeMapLowerCase (toLowerCaseStringAndDeleteChar k) = Some t"
    unfolding typeMapLowerCase_def map_of_obj_of_entries [OF d] by (simp add: keys_def)
  moreover have "map_of typeMap k = Some t" using t typeMap_distinct(1) by (simp add: keys_def)
  ultimately show ?thesis by simp
qed

text \<open>
  In a shared log, a tool whose name has more than one word is never shown by its translation, although the table of translations has
  an entry for it: the lower-case name is looked up in the table with the mixed-case keys, and not in the lower-case
  copy of it that the nodes of the same log use.
\<close>

theorem shared_tool_untranslated:
  assumes k: "k \<in> set (keys typeMap)" "toLowerCaseStringAndDeleteChar k \<noteq> k"
    and n: "js_opt tool ''tool_name'' = JStr n" "toLowerCaseStringAndDeleteChar n = toLowerCaseStringAndDeleteChar k"
  shows "tool_label tr True tool = Inr (changeToolName (JStr n))
     \<and> row_label tr True (JObj [(''component_type'', JStr n)]) = Inr (tr (the (map_of typeMap k)))"
proof -
  have "toLowerCaseStringAndDeleteChar n \<notin> set (keys typeMap)"
    using typeMap_camel k n(2) by (auto simp: list_all_iff)
  then have "map_of typeMap (toLowerCaseStringAndDeleteChar n) = None" by (simp add: map_of_None_keys)
  moreover obtain t where "map_of typeMap k = Some t" using k(1) map_of_None_keys [of typeMap k] by auto
  ultimately show ?thesis
    using n typeMapLowerCase_lookup [OF k(1)] by (simp add: tool_label_def row_label_def)
qed

theorem shared_tool_untranslated_witness:
  "tool_label (\<lambda>t. t) True (JObj [(''tool_name'', JStr ''tavily_search'')]) = Inr ''Agent Tavily Search''
     \<and> row_label (\<lambda>t. t) True (JObj [(''component_type'', JStr ''tavily_search'')]) = Inr ''flow.logTimeline.tavilySearch''"
proof -
  have e: "''tavilySearch'' \<in> set (keys typeMap)" "toLowerCaseStringAndDeleteChar ''tavilySearch'' \<noteq> ''tavilySearch''"
    "toLowerCaseStringAndDeleteChar ''tavily_search'' = toLowerCaseStringAndDeleteChar ''tavilySearch''"
    "changeToolName (JStr ''tavily_search'') = ''Agent Tavily Search''"
    "map_of typeMap ''tavilySearch'' = Some ''flow.logTimeline.tavilySearch''"
    by code_simp+
  show ?thesis
    using shared_tool_untranslated [OF e(1,2), of "JObj [(''tool_name'', JStr ''tavily_search'')]" "''tavily_search''" "\<lambda>t. t"] e(3-5)
    by simp
qed

lemma tool_row_spin:
  "tool_row_of tr sendLoading isShare n i tool = Inr row \<Longrightarrow> i < n \<Longrightarrow> tool_spinning row \<Longrightarrow> sendLoading \<and> Suc i = n"
  by (auto simp: tool_row_of_def Let_def)

lemma ToolTimelineItem_spin:
  "ToolTimelineItem tr sendLoading isShare tools = Inr rows \<Longrightarrow>
     length rows = length (shown_tools tools) \<and> (\<forall>i<length rows. tool_spinning (rows ! i) \<longrightarrow> sendLoading \<and> Suc i = length rows)"
proof -
  assume r: "ToolTimelineItem tr sendLoading isShare tools = Inr rows"
  let ?n = "length (shown_tools tools)"
  have m: "map_r (\<lambda>(idx, tool). tool_row_of tr sendLoading isShare ?n idx tool) (enumerate 0 (shown_tools tools)) = Inr rows"
    using r by (simp add: ToolTimelineItem_def Let_def)
  have len: "length rows = ?n" using map_r_length [OF m] by simp
  have "tool_row_of tr sendLoading isShare ?n i (shown_tools tools ! i) = Inr (rows ! i)" if "i < ?n" for i
    using map_r_nth [OF m, of i] that by (simp add: nth_enumerate_eq)
  then have "sendLoading \<and> Suc i = ?n" if "i < ?n" "tool_spinning (rows ! i)" for i
    using tool_row_spin [of tr sendLoading isShare ?n i "shown_tools tools ! i" "rows ! i"] that by simp
  then show ?thesis using len by simp
qed

lemma run_row_component: "run_row_of L tr sendLoading isShare data es x = Inr row \<Longrightarrow> rr_component row = component_id x"
  by (auto simp: run_row_of_def Let_def)



end
