(* ===== verification/Search_Page.thy ===== *)
theory Search_Page
  imports Chat_Stream Page_Lists
begin

text \<open>
  The search page, \<open>pages/next-search/hooks.ts\<close>: asking a question, the retrieval of chunks with its pages, related
  questions, and the mind map.

  A handler runs on the state of the last render. \<open>testChunk\<close> is a mutation of the query library, which calls the
  function of the last render; so a request is built with the pagination that was rendered, not with the one that the
  handler has just set. The requests are results.
\<close>

section \<open>State and requests\<close>

record search_env =
  se_kbIds :: "string list"
  se_tenantId :: jsval
  se_searchId :: string
  se_related :: bool
  se_summary :: bool             \<comment> \<open>\<open>search_config.summary\<close>\<close>
  se_knowledgeBaseId :: jsval

record search_state =
  ss_params :: url_params
  ss_searchStr :: string
  ss_sending :: bool
  ss_answer :: "jsval obj"       \<comment> \<open>\<open>currentAnswer\<close>\<close>
  ss_firstRender :: bool
  ss_selectedDocs :: "string list"
  ss_sse :: sse_state
  ss_mindMapAsked :: "jsval obj option"     \<comment> \<open>\<open>ref.current\<close>\<close>
  ss_mindMapVisible :: bool

datatype search_request =
    Ask "jsval obj"
  | Retrieval "jsval obj"
  | RetrievalAll "jsval obj"
  | Related string
  | MindMap "jsval obj"

definition strs :: "string list \<Rightarrow> jsval" where
  "strs xs = JArr (map JStr xs)"

definition testChunk_body :: "search_env \<Rightarrow> url_params \<Rightarrow> jsval obj \<Rightarrow> jsval obj" where
  \<comment> \<open>the body of the request: the values of the caller, then the pagination of the render\<close>
  "testChunk_body env rendered values =
     obj_assign values [(''kb_id'', js_coalesce (obj_get values ''kb_id'') (se_knowledgeBaseId env)),
       (''page'', JNum (page_param rendered)), (''size'', JNum (size_param rendered)), (''tenant_id'', se_tenantId env)]"

definition testChunkAll_body :: "search_env \<Rightarrow> url_params \<Rightarrow> jsval obj \<Rightarrow> jsval obj" where
  "testChunkAll_body env rendered values =
     obj_assign values [(''kb_id'', js_coalesce (obj_get values ''kb_id'') (se_knowledgeBaseId env)), (''doc_ids'', JArr []),
       (''page'', JNum (page_param rendered)), (''size'', JNum (size_param rendered)), (''tenant_id'', se_tenantId env)]"

definition retrieval_result :: "jsval \<Rightarrow> jsval res" where
  \<comment> \<open>what the mutation makes of the response data\<close>
  "retrieval_result d =
     bind_r (js_prop d ''code'') (\<lambda>code.
       if code = JNum (Fin 0)
       then bind_r (js_prop d ''data'') (\<lambda>x. bind_r (js_prop x ''doc_aggs'') (\<lambda>docs. Inr (JObj (obj_put ''documents'' docs (spread x)))))
       else Inr (js_coalesce (js_opt d ''data'') (JObj [(''chunks'', JArr []), (''documents'', JArr []), (''total'', JNum (Fin 0))])))"

section \<open>Handlers\<close>

definition sendQuestion :: "search_env \<Rightarrow> string \<Rightarrow> bool \<Rightarrow> search_state \<Rightarrow> search_state \<times> search_request list" where
  "sendQuestion env question enableAI st =
     (let q = js_trim question in
      if q = [] then (st, [])
      else let body = [(''kb_ids'', strs (se_kbIds env)), (''question'', JStr q), (''tenantId'', se_tenantId env), (''search_id'', JStr (se_searchId env))];
               st1 = st\<lparr>ss_params := setCurrentPagination 1 None (ss_params st), ss_firstRender := False, ss_answer := []\<rparr>;
               st2 = (if enableAI then st1\<lparr>ss_sending := True, ss_sse := setDoneValue body False (ss_sse st)\<rparr> else st1)
           in (st2, (if enableAI then [Ask body] else [])
                 @ [Retrieval (testChunk_body env (ss_params st)
                     [(''kb_id'', strs (se_kbIds env)), (''highlight'', JBool True), (''question'', JStr q), (''page'', JNum (Fin 1)),
                      (''size'', JNum (size_param (ss_params st))), (''search_id'', JStr (se_searchId env))])]
                 @ (if se_related env then [Related q] else [])))"

definition handleClickRelatedQuestion :: "search_env \<Rightarrow> string \<Rightarrow> bool \<Rightarrow> search_state \<Rightarrow> search_state \<times> search_request list" where
  "handleClickRelatedQuestion env question enableAI st =
     (if ss_sending st then (st, []) else sendQuestion env question enableAI (st\<lparr>ss_searchStr := question\<rparr>))"

definition handleTestChunk :: "search_env \<Rightarrow> string list option \<Rightarrow> int \<Rightarrow> int \<Rightarrow> search_state \<Rightarrow> search_request list" where
  "handleTestChunk env documentIds page n st =
     (let q = js_trim (ss_searchStr st) in
      if ss_sending st \<or> q = [] then []
      else [Retrieval (testChunk_body env (ss_params st)
              [(''kb_id'', strs (se_kbIds env)), (''highlight'', JBool True), (''question'', JStr q),
               (''doc_ids'', strs (case documentIds of Some ds \<Rightarrow> ds | None \<Rightarrow> ss_selectedDocs st)), (''page'', JNum (int_num page)),
               (''size'', JNum (int_num n)), (''search_id'', JStr (se_searchId env))]),
            RetrievalAll (testChunkAll_body env (ss_params st)
              [(''kb_id'', strs (se_kbIds env)), (''highlight'', JBool True), (''question'', JStr q), (''doc_ids'', JArr []),
               (''page'', JNum (int_num page)), (''size'', JNum (int_num n)), (''search_id'', JStr (se_searchId env))])])"

definition search_answer_effect :: "search_state \<Rightarrow> search_state" where
  "search_answer_effect st = (if answer (ss_sse st) = [] then st else st\<lparr>ss_answer := answer (ss_sse st)\<rparr>)"

definition search_done_effect :: "search_state \<Rightarrow> search_state" where
  "search_done_effect st = (if is_done (ss_sse st) then st\<lparr>ss_sending := False\<rparr> else st)"

definition searchText_effect :: "search_env \<Rightarrow> string option \<Rightarrow> search_state \<Rightarrow> search_state \<times> search_request list" where
  "searchText_effect env searchText st =
     (case searchText of
        Some (c # cs) \<Rightarrow> sendQuestion env (c # cs) (se_summary env) (st\<lparr>ss_searchStr := c # cs\<rparr>)
      | _ \<Rightarrow> (st, []))"

definition handleSearch :: "search_env \<Rightarrow> string \<Rightarrow> search_state \<Rightarrow> search_state \<times> search_request list" where
  "handleSearch env value st =
     (case sendQuestion env value (se_summary env) st of
        (st1, rs) \<Rightarrow> (st1\<lparr>ss_searchStr := value, ss_mindMapVisible := False\<rparr>, rs))"

definition onChangePage :: "search_env \<Rightarrow> int \<Rightarrow> int \<Rightarrow> search_state \<Rightarrow> search_state \<times> search_request list" where
  \<comment> \<open>the requests are built before the next render\<close>
  "onChangePage env pageNumber pageSize st =
     (st\<lparr>ss_params := setCurrentPagination pageNumber (Some pageSize) (ss_params st)\<rparr>,
      handleTestChunk env (Some (ss_selectedDocs st)) pageNumber pageSize st)"

definition handleShowModal :: "search_env \<Rightarrow> search_state \<Rightarrow> search_state \<times> search_request list" where
  "handleShowModal env st =
     (let q = js_trim (ss_searchStr st);
          searchParams = [(''question'', JStr q), (''kb_ids'', strs (se_kbIds env)), (''searchId'', JStr (se_searchId env))]
      in if q \<noteq> [] \<and> ss_mindMapAsked st \<noteq> Some searchParams
         then (st\<lparr>ss_mindMapAsked := Some searchParams, ss_mindMapVisible := True\<rparr>, [MindMap searchParams])
         else (st\<lparr>ss_mindMapVisible := True\<rparr>, []))"

definition isSearchStrEmpty :: "search_state \<Rightarrow> bool" where
  "isSearchStrEmpty st = (js_trim (ss_searchStr st) = [])"

definition relatedQuestions :: "'a list option \<Rightarrow> 'a list" where
  "relatedQuestions qs = (case qs of None \<Rightarrow> [] | Some l \<Rightarrow> take 5 l)"

definition useCheckSettings :: "(string list \<times> string) option \<Rightarrow> bool" where
  \<comment> \<open>whether the settings open: the datasets and the name\<close>
  "useCheckSettings d = (case d of None \<Rightarrow> False | Some (kb_ids, name) \<Rightarrow> \<not> (kb_ids \<noteq> [] \<and> name \<noteq> []))"

section \<open>Waiting for the mind map\<close>

record pending =
  pm_count :: nat
  pm_running :: bool

definition pending_tick :: "pending \<Rightarrow> pending" where
  \<comment> \<open>one second: the timer stops itself once the count has passed 40\<close>
  "pending_tick p = (if pm_running p then \<lparr>pm_count = pm_count p + 1, pm_running = \<not> pm_count p > 40\<rparr> else p)"

definition pending_percent :: "pending \<Rightarrow> int" where
  \<comment> \<open>\<open>Number(((count / 43) * 100).toFixed(0))\<close>\<close>
  "pending_percent p = \<lfloor>of_nat (pm_count p) / 43 * 100 + (1 / 2 :: rat)\<rfloor>"

section \<open>What is asked\<close>

text \<open>The parts of a request that the page shows.\<close>

definition asked_page :: "search_request \<Rightarrow> jsval" where
  "asked_page r = (case r of Retrieval b \<Rightarrow> obj_get b ''page'' | RetrievalAll b \<Rightarrow> obj_get b ''page'' | _ \<Rightarrow> JUndef)"

lemma body_fields:
  "obj_get (testChunk_body env ps vs) ''page'' = JNum (page_param ps)"
  "obj_get (testChunk_body env ps vs) ''size'' = JNum (size_param ps)"
  "obj_get (testChunkAll_body env ps vs) ''page'' = JNum (page_param ps)"
  "k \<notin> {''kb_id'', ''page'', ''size'', ''tenant_id''} \<Longrightarrow> obj_get (testChunk_body env ps vs) k = obj_get vs k"
  by (simp_all add: testChunk_body_def testChunkAll_body_def obj_get_assign keys_def)

text \<open>
  Every question that is not blank is sent once: with its trimmed text to the answer service when
  answers are enabled, to the retrieval, and to the related questions when they are enabled; the old answer is
  emptied and the URL returns to the first page; a blank question changes and asks nothing.
\<close>

theorem question_sent_once:
  "(js_trim question = [] \<longrightarrow> sendQuestion env question ai st = (st, []))
   \<and> (js_trim question \<noteq> [] \<longrightarrow>
       (\<exists>st' ask retrieval. sendQuestion env question ai st =
            (st', (if ai then [Ask ask] else []) @ [Retrieval retrieval] @ (if se_related env then [Related (js_trim question)] else []))
          \<and> obj_get ask ''question'' = JStr (js_trim question) \<and> obj_get retrieval ''question'' = JStr (js_trim question)
          \<and> ss_answer st' = [] \<and> page_param (ss_params st') = int_num 1 \<and> ss_sending st' = (ai \<or> ss_sending st)))"
proof -
  have first: "page_param (setCurrentPagination 1 None ps) = int_num 1" for ps
    using num_of_int_to_string [of 1] by (simp add: page_param_def setCurrentPagination_def setPaginationParams_def number_or_def Let_def)
  have asked: "\<exists>ask. obj_get ask ''question'' = JStr (js_trim question)"
    by (rule exI [of _ "[(''question'', JStr (js_trim question))]"]) simp
  show ?thesis by (cases "js_trim question = []") (auto simp: sendQuestion_def Let_def body_fields first asked)
qed

theorem question_sent_once_witness:
  "\<exists>st' ask retrieval. sendQuestion \<lparr>se_kbIds = [''k''], se_tenantId = JUndef, se_searchId = [], se_related = True, se_summary = True, se_knowledgeBaseId = JUndef\<rparr> '' why '' True
       \<lparr>ss_params = [], ss_searchStr = [], ss_sending = False, ss_answer = [], ss_firstRender = True, ss_selectedDocs = [],
         ss_sse = \<lparr>answer = [], is_done = True, doneRecord = []\<rparr>, ss_mindMapAsked = None, ss_mindMapVisible = False\<rparr>
     = (st', [Ask ask, Retrieval retrieval, Related ''why'']) \<and> obj_get ask ''question'' = JStr ''why''"
proof -
  have "js_trim '' why '' = ''why''" by code_simp
  with question_sent_once [of "'' why ''" "\<lparr>se_kbIds = [''k''], se_tenantId = JUndef, se_searchId = [], se_related = True, se_summary = True, se_knowledgeBaseId = JUndef\<rparr>" True
      "\<lparr>ss_params = [], ss_searchStr = [], ss_sending = False, ss_answer = [], ss_firstRender = True, ss_selectedDocs = [],
         ss_sse = \<lparr>answer = [], is_done = True, doneRecord = []\<rparr>, ss_mindMapAsked = None, ss_mindMapVisible = False\<rparr>"]
  show ?thesis by auto
qed

text \<open>
  The results are one step behind the page that is chosen: every retrieval asks for the page that was shown
  before, both when another page is chosen and when a new question is asked from a later page.
\<close>

theorem retrieval_asks_previous_page:
  assumes "\<not> ss_sending st" and "js_trim (ss_searchStr st) \<noteq> []" and "0 < page" and "size_param (ss_params st) = int_num n" and "0 < n"
  shows "page_param (ss_params (fst (onChangePage env page n st))) = int_num page
     \<and> snd (onChangePage env page n st) \<noteq> []
     \<and> (\<forall>r\<in>set (snd (onChangePage env page n st)). asked_page r = JNum (page_param (ss_params st)))
     \<and> (js_trim q \<noteq> [] \<longrightarrow> (\<exists>r\<in>set (snd (sendQuestion env q ai st)). asked_page r = JNum (page_param (ss_params st))))"
  using assms
  by (auto simp: onChangePage_def handleTestChunk_def setCurrentPagination_def setPaginationParams_def page_param_def number_or_def
      num_of_int_to_string sendQuestion_def asked_page_def body_fields Let_def)

theorem retrieval_asks_previous_page_witness:
  "\<exists>r st'. onChangePage \<lparr>se_kbIds = [], se_tenantId = JUndef, se_searchId = [], se_related = False, se_summary = True, se_knowledgeBaseId = JUndef\<rparr> 2 50
       \<lparr>ss_params = [], ss_searchStr = ''why'', ss_sending = False, ss_answer = [], ss_firstRender = False, ss_selectedDocs = [],
         ss_sse = \<lparr>answer = [], is_done = True, doneRecord = []\<rparr>, ss_mindMapAsked = None, ss_mindMapVisible = False\<rparr> = (st', r)
     \<and> page_param (ss_params st') = int_num 2 \<and> (\<forall>x\<in>set r. asked_page x = JNum (int_num 1))"
proof -
  let ?e = "\<lparr>se_kbIds = [], se_tenantId = JUndef, se_searchId = [], se_related = False, se_summary = True, se_knowledgeBaseId = JUndef\<rparr>"
  let ?s = "\<lparr>ss_params = [], ss_searchStr = ''why'', ss_sending = False, ss_answer = [], ss_firstRender = False, ss_selectedDocs = [],
         ss_sse = \<lparr>answer = [], is_done = True, doneRecord = []\<rparr>, ss_mindMapAsked = None, ss_mindMapVisible = False\<rparr>"
  have "js_trim ''why'' \<noteq> []" "page_param [] = int_num 1" "size_param [] = int_num 50" by code_simp+
  with retrieval_asks_previous_page [of ?s 2 50 ?e] show ?thesis by (cases "onChangePage ?e 2 50 ?s") auto
qed

text \<open>The mind map is asked for once per question: showing it again asks nothing, and a blank question is never asked.\<close>

theorem mind_map_asked_once:
  "snd (handleShowModal env (fst (handleShowModal env st))) = []"
  by (auto simp: handleShowModal_def Let_def)

text \<open>
  The progress of the mind map stays below one hundred percent and its timer stops: after \<open>n\<close> seconds the count is
  \<open>n\<close> up to 42, where it stays, and the percentage is at most 98.
\<close>

theorem pending_mind_map_bounded:
  "let p = (pending_tick ^^ n) \<lparr>pm_count = 0, pm_running = True\<rparr> in
     pm_count p = min n 42 \<and> (pm_running p \<longleftrightarrow> n < 42) \<and> 0 \<le> pending_percent p \<and> pending_percent p \<le> 98"
proof -
  define p where "p = (pending_tick ^^ n) \<lparr>pm_count = 0, pm_running = True\<rparr>"
  have p: "pm_count p = min n 42 \<and> (pm_running p \<longleftrightarrow> n < 42)"
    unfolding p_def by (induction n) (auto simp: pending_tick_def min_def)
  have "of_nat (min n 42) \<le> (42 :: rat)" by (simp add: min_def)
  then have "of_nat (pm_count p) / 43 * 100 + 1 / 2 < (99 :: rat)" using p by simp
  then have "pending_percent p < 99" unfolding pending_percent_def by (simp add: floor_less_iff)
  moreover have "0 \<le> pending_percent p" unfolding pending_percent_def by simp
  ultimately show ?thesis using p unfolding p_def [symmetric] by (simp add: Let_def)
qed

end
