(* ===== verification/Request_Layer.thy ===== *)
theory Request_Layer
  imports Third_Party Page_Lists
begin

text \<open>
  The request layer: the authorization kept in the storage of the browser (\<open>utils/authorization-util.ts\<close>), the cached list
  of models and the tenant ids added to requests (\<open>utils/llm-cache.ts\<close>, \<open>utils/llm-util.ts\<close>), the interceptors of the
  two clients (\<open>utils/request.ts\<close>, \<open>utils/next-request.ts\<close>), the services made from tables
  (\<open>utils/register-server.ts\<close>), and the links to scanned documents (\<open>utils/local-scan-doc.ts\<close>).

  The storage is a list of keys and texts. The cache entry is kept as the value its text parses to, \<open>None\<close> for a text
  that is not JSON; time is an argument. \<open>snakeCase\<close> of lodash is a parameter.
\<close>

section \<open>Authorization\<close>

record browser =
  local_storage :: "string obj"
  llm_cache :: "jsval option option"      \<comment> \<open>the item under \<open>CACHE_KEY\<close>\<close>
  page_query :: url_params

definition Authorization :: string where "Authorization = ''Authorization''"
definition Token :: string where "Token = ''token''"
definition UserInfo :: string where "UserInfo = ''userInfo''"

definition storage_set :: "string \<Rightarrow> string \<Rightarrow> browser \<Rightarrow> browser" where
  "storage_set k v b = b\<lparr>local_storage := obj_put k v (local_storage b)\<rparr>"

definition setItems :: "(string \<times> string) list \<Rightarrow> browser \<Rightarrow> browser" where
  "setItems ps b = foldl (\<lambda>b (k, v). storage_set k v b) b ps"

definition removeAll_auth :: "browser \<Rightarrow> browser" where
  "removeAll_auth b = b\<lparr>local_storage := filter (\<lambda>kv. fst kv \<notin> set [Authorization, Token, UserInfo]) (local_storage b)\<rparr>"

definition getSearchValue :: "string \<Rightarrow> browser \<Rightarrow> string option" where
  "getSearchValue k b = map_of (page_query b) k"

definition str_or :: "string option \<Rightarrow> string \<Rightarrow> string" where
  "str_or a b = (case a of Some (c # cs) \<Rightarrow> c # cs | _ \<Rightarrow> b)"

definition getAuthorization :: "browser \<Rightarrow> string" where
  "getAuthorization b =
     str_or (getSearchValue ''jwt_auth'' b)
       (case getSearchValue ''auth'' b of
          Some (c # cs) \<Rightarrow> ''Bearer '' @ c # cs
        | _ \<Rightarrow> str_or (map_of (local_storage b) Authorization) [])"

section \<open>Links to scanned documents\<close>

text \<open>\<open>encodeURIComponent\<close> on the characters of ASCII, and the decoding of a query.\<close>

definition unreserved :: "char \<Rightarrow> bool" where
  "unreserved c = (let n = (of_char c :: nat) in
     48 \<le> n \<and> n \<le> 57 \<or> 65 \<le> n \<and> n \<le> 90 \<or> 97 \<le> n \<and> n \<le> 122 \<or> c \<in> set ''-_.!~*()'' \<or> n = 39)"

definition hex_digit :: "nat \<Rightarrow> char" where
  "hex_digit n = (if n < 10 then char_of (48 + n) else char_of (55 + n))"

definition encodeURIComponent :: "string \<Rightarrow> string" where
  "encodeURIComponent s = concat (map (\<lambda>c. if unreserved c then [c]
     else [CHR ''%'', hex_digit (of_char c div 16), hex_digit (of_char c mod 16)]) s)"

definition hex_value :: "char \<Rightarrow> nat option" where
  "hex_value c = (let n = (of_char c :: nat) in
     if 48 \<le> n \<and> n \<le> 57 then Some (n - 48) else if 65 \<le> n \<and> n \<le> 70 then Some (n - 55)
     else if 97 \<le> n \<and> n \<le> 102 then Some (n - 87) else None)"

fun query_decode :: "string \<Rightarrow> string" where
  "query_decode [] = []"
| "query_decode (c # cs) =
     (if c = CHR ''+'' then CHR '' '' # query_decode cs
      else if c = CHR ''%''
      then (case cs of
              a # b # rest \<Rightarrow> (case (hex_value a, hex_value b) of
                  (Some x, Some y) \<Rightarrow> char_of (16 * x + y) # query_decode rest
                | _ \<Rightarrow> c # query_decode cs)
            | _ \<Rightarrow> c # query_decode cs)
      else c # query_decode cs)"

definition split_at_eq :: "string \<Rightarrow> string \<times> string" where
  "split_at_eq s = (takeWhile (\<lambda>c. c \<noteq> CHR ''='') s, drop 1 (dropWhile (\<lambda>c. c \<noteq> CHR ''='') s))"

definition parse_query :: "string \<Rightarrow> url_params" where
  "parse_query q = map (\<lambda>p. (query_decode (fst (split_at_eq p)), query_decode (snd (split_at_eq p)))) (filter (\<lambda>p. p \<noteq> []) (js_split (CHR ''&'') q))"

definition url_query :: "string \<Rightarrow> url_params" where
  \<comment> \<open>\<open>new URL(url).searchParams\<close> of a URL without a fragment\<close>
  "url_query url = parse_query (drop 1 (dropWhile (\<lambda>c. c \<noteq> CHR ''?'') url))"

definition buildLocalScanDocUrl :: "string \<Rightarrow> string \<Rightarrow> browser \<Rightarrow> string" where
  \<comment> \<open>the \<open>api_host\<close> and the document\<close>
  "buildLocalScanDocUrl api_host docId b =
     (let auth = getAuthorization b; docUrl = api_host @ ''/document/get/'' @ docId in
      if auth = [] then docUrl else docUrl @ ''?jwt_auth='' @ encodeURIComponent auth)"

section \<open>The cached list of models\<close>

definition CACHE_DURATION :: rat where "CACHE_DURATION = 5 * 60 * 1000"

definition getCachedLlmList :: "rat \<Rightarrow> browser \<Rightarrow> jsval \<times> browser" where
  "getCachedLlmList now b =
     (case llm_cache b of
        None \<Rightarrow> (JNull, b)
      | Some None \<Rightarrow> (JNull, b\<lparr>llm_cache := None\<rparr>)
      | Some (Some parsed) \<Rightarrow>
          (case js_prop parsed ''timestamp'' of
             Inl _ \<Rightarrow> (JNull, b\<lparr>llm_cache := None\<rparr>)
           | Inr ts \<Rightarrow> (case num_sub (Fin now) (js_number ts) of
               Fin age \<Rightarrow> if age > CACHE_DURATION then (JNull, b\<lparr>llm_cache := None\<rparr>) else (js_opt parsed ''data'', b)
             | PInf \<Rightarrow> (JNull, b\<lparr>llm_cache := None\<rparr>)
             | _ \<Rightarrow> (js_opt parsed ''data'', b))))"

definition setCachedLlmList :: "rat \<Rightarrow> jsval \<Rightarrow> browser \<Rightarrow> browser" where
  "setCachedLlmList now d b = b\<lparr>llm_cache := Some (Some (JObj [(''data'', d), (''timestamp'', JNum (Fin now))]))\<rparr>"

definition clearLlmCache :: "browser \<Rightarrow> browser" where
  "clearLlmCache b = b\<lparr>llm_cache := None\<rparr>"

definition isLlmListCached :: "rat \<Rightarrow> browser \<Rightarrow> bool" where
  "isLlmListCached now b = (fst (getCachedLlmList now b) \<noteq> JNull)"

section \<open>Tenant ids\<close>

definition getRealModelName :: "string \<Rightarrow> string" where
  \<comment> \<open>\<open>llmName.split('__').at(0)\<close>\<close>
  "getRealModelName n = (case find_index (\<lambda>i. starts_with (drop i n) ''__'') [0..<length n] of None \<Rightarrow> n | Some i \<Rightarrow> take i n)"

definition buildLlmUuid :: "string \<Rightarrow> string \<Rightarrow> string" where
  "buildLlmUuid llm_name fid = llm_name @ ''@'' @ fid"

definition parseModelUuid :: "jsval \<Rightarrow> (jsval \<times> jsval) res" where
  "parseModelUuid v =
     (case v of
        JStr s \<Rightarrow> (case js_split (CHR ''@'') s of
            [a] \<Rightarrow> Inr (JStr a, JUndef) | a # b # _ \<Rightarrow> Inr (JStr a, JStr b) | [] \<Rightarrow> Inr (JUndef, JUndef))
      | _ \<Rightarrow> Inl TypeError)"

definition model_of_provider :: "jsval \<Rightarrow> jsval \<Rightarrow> string \<times> jsval \<Rightarrow> jsval res" where
  \<comment> \<open>the id found for one provider, \<open>undefined\<close> if none is\<close>
  "model_of_provider modelName factoryId pd =
     bind_r (js_prop (snd pd) ''llm'') (\<lambda>llm.
       case llm of
         JArr ms \<Rightarrow> bind_r (find_r (\<lambda>m. bind_r (js_prop m ''name'') (\<lambda>n. Inr (n = modelName \<and> JStr (fst pd) = factoryId))) ms)
           (\<lambda>r. Inr (case r of None \<Rightarrow> JUndef | Some m \<Rightarrow> js_opt m ''id''))
       | _ \<Rightarrow> (case snd pd of
           JArr ms \<Rightarrow> bind_r (find_r (\<lambda>m. bind_r (js_prop m ''llm_name'') (\<lambda>n. bind_r (js_prop m ''fid'') (\<lambda>f. Inr (n = modelName \<and> f = factoryId)))) ms)
             (\<lambda>r. Inr (case r of None \<Rightarrow> JUndef | Some m \<Rightarrow> js_opt m ''id''))
         | _ \<Rightarrow> Inr JUndef))"

fun first_model :: "jsval \<Rightarrow> jsval \<Rightarrow> jsval obj \<Rightarrow> jsval res" where
  "first_model modelName factoryId [] = Inr (JStr [])"
| "first_model modelName factoryId (pd # pds) =
     bind_r (model_of_provider modelName factoryId pd)
       (\<lambda>i. if truthy i then Inr i else first_model modelName factoryId pds)"

definition getTenantModelId :: "jsval \<Rightarrow> jsval \<Rightarrow> jsval \<Rightarrow> jsval res" where
  "getTenantModelId llmList modelName factoryId = first_model modelName factoryId (entries llmList)"

definition modelParamMap :: "string obj" where
  "modelParamMap = [(''llm_id'', ''tenant_llm_id''), (''embd_id'', ''tenant_embd_id''), (''asr_id'', ''tenant_asr_id''),
     (''tts_id'', ''tenant_tts_id''), (''img2txt_id'', ''tenant_img2txt_id''), (''rerank_id'', ''tenant_rerank_id'')]"

definition prototype_names :: "string list" where
  \<comment> \<open>what \<open>modelParamMap[key]\<close> also finds\<close>
  "prototype_names = [''constructor'', ''toString'', ''toLocaleString'', ''valueOf'', ''hasOwnProperty'', ''isPrototypeOf'',
     ''propertyIsEnumerable'', ''__proto__'', ''__defineGetter__'', ''__defineSetter__'', ''__lookupGetter__'', ''__lookupSetter__'']"

definition API_WHITELIST :: "string list" where
  "API_WHITELIST = [''/v1/user/set_tenant_info'', ''/v1/dialog/set'', ''/v1/canvas/set'', ''/v1/canvas/setting'', ''/v1/search/update'',
     ''/api/v1/memories'', ''/v1/kb/create'', ''/v1/kb/update'', ''/v1/dataflow/set'']"

definition isUrlInWhitelist :: "string \<Rightarrow> bool" where
  "isUrlInWhitelist url = list_ex (includes_str url) API_WHITELIST"

definition tenant_id :: "jsval \<Rightarrow> jsval \<Rightarrow> jsval" where
  \<comment> \<open>the id for the value of a model parameter; an exception is only logged\<close>
  "tenant_id llmList v =
     (case bind_r (parseModelUuid v) (\<lambda>(m, f). getTenantModelId llmList m f) of Inl _ \<Rightarrow> JUndef | Inr i \<Rightarrow> i)"

definition add_model_ids :: "jsval \<Rightarrow> jsval obj \<Rightarrow> jsval obj" where
  "add_model_ids llmList d =
     foldl (\<lambda>d (param, tenantParam).
        if truthy (obj_get d param) \<and> truthy (tenant_id llmList (obj_get d param))
        then obj_put tenantParam (tenant_id llmList (obj_get d param)) d else d) d modelParamMap"

definition skipped_key :: "string \<Rightarrow> bool" where
  "skipped_key k = (k \<in> set (keys modelParamMap) \<or> k \<in> set prototype_names)"

text \<open>
  The recursion descends into the values of the object; the ids that were added are texts. It is written over the depth
  of the value, which bounds it.
\<close>

fun add_tenant :: "nat \<Rightarrow> jsval \<Rightarrow> jsval \<Rightarrow> jsval" where
  "add_tenant 0 llmList d = d"
| "add_tenant (Suc n) llmList (JArr xs) = JArr (map (add_tenant n llmList) xs)"
| "add_tenant (Suc n) llmList (JObj ob) =
     JObj (map (\<lambda>(k, v). (k, if is_object v \<and> \<not> skipped_key k then add_tenant n llmList v else v)) (add_model_ids llmList (spread (JObj ob))))"
| "add_tenant (Suc n) llmList d = d"

definition addTenantParams :: "rat \<Rightarrow> browser \<Rightarrow> string option \<Rightarrow> jsval \<Rightarrow> jsval \<times> browser" where
  "addTenantParams now b url d =
     (if \<not> is_object d then (d, b)
      else if (case url of Some (c # cs) \<Rightarrow> \<not> isUrlInWhitelist (c # cs) | _ \<Rightarrow> False) then (d, b)
      else case getCachedLlmList now b of (llmList, b1) \<Rightarrow>
        (if truthy llmList then add_tenant (Suc (size d)) llmList d else d, b1))"

section \<open>The interceptors\<close>

definition excludedFields :: "string list" where
  "excludedFields = [''img2txt_id'', ''mcpServers'', ''image_base64'']"

definition convertTheKeysOfTheObjectToSnake :: "(string \<Rightarrow> string) \<Rightarrow> jsval \<Rightarrow> jsval" where
  \<comment> \<open>with \<open>snakeCase\<close>; an array becomes an object with its indices as keys\<close>
  "convertTheKeysOfTheObjectToSnake snakeCase d =
     (if is_object d
      then JObj (obj_of_entries (map (\<lambda>(k, v). (if k \<in> set excludedFields then k else snakeCase k, v)) (entries d)))
      else d)"

record request_options =
  req_data :: jsval
  req_params :: jsval
  req_headers :: "string obj"
  req_skipToken :: bool

definition request_interceptor :: "(string \<Rightarrow> string) \<Rightarrow> rat \<Rightarrow> string \<Rightarrow> request_options \<Rightarrow> browser \<Rightarrow> request_options \<times> browser" where
  \<comment> \<open>of \<open>request.ts\<close>: the headers of the caller override the token\<close>
  "request_interceptor snakeCase now url opts b =
     (case addTenantParams now b (Some url) (convertTheKeysOfTheObjectToSnake snakeCase (req_data opts)) of (d, b1) \<Rightarrow>
        (opts\<lparr>req_data := d, req_params := convertTheKeysOfTheObjectToSnake snakeCase (req_params opts),
              req_headers := obj_assign (if req_skipToken opts then [] else [(Authorization, getAuthorization b)]) (req_headers opts)\<rparr>, b1))"

definition next_request_interceptor :: "(string \<Rightarrow> string) \<Rightarrow> rat \<Rightarrow> string option \<Rightarrow> request_options \<Rightarrow> browser \<Rightarrow> request_options \<times> browser" where
  \<comment> \<open>of \<open>next-request.ts\<close>: the token overrides the headers of the caller\<close>
  "next_request_interceptor snakeCase now url opts b =
     (case addTenantParams now b url (convertTheKeysOfTheObjectToSnake snakeCase (req_data opts)) of (d, b1) \<Rightarrow>
        (opts\<lparr>req_data := d, req_params := convertTheKeysOfTheObjectToSnake snakeCase (req_params opts),
              req_headers := (if req_skipToken opts then req_headers opts else obj_put Authorization (getAuthorization b) (req_headers opts))\<rparr>, b1))"

datatype ui_effect =
    ShowMessage jsval
  | ShowRetcode jsnum
  | Notify jsval jsval           \<comment> \<open>message and description\<close>
  | RedirectToLogin

record http_response =
  res_status :: jsnum
  res_url :: string
  res_blob :: bool               \<comment> \<open>\<open>responseType\<close> is \<open>blob\<close>\<close>
  res_json :: "jsval option"     \<comment> \<open>the body, \<open>None\<close> if it is not JSON\<close>

type_synonym client_state = "browser \<times> bool"    \<comment> \<open>with \<open>isRedirecting\<close>\<close>

definition cache_models :: "rat \<Rightarrow> http_response \<Rightarrow> jsval \<Rightarrow> browser \<Rightarrow> browser" where
  "cache_models now r d b =
     (if js_opt d ''code'' = JNum (Fin 0) \<and> truthy (js_opt d ''data'')
         \<and> (includes_str (res_url r) ''/v1/llm/my_llms'' \<or> includes_str (res_url r) ''/v1/llm/list'')
      then setCachedLlmList now (js_opt d ''data'') b else b)"

definition hint :: "(string \<Rightarrow> string) \<Rightarrow> jsval \<Rightarrow> jsval" where
  "hint t d = JStr (t ''message.hint'' @ '' : '' @ js_to_string (js_opt d ''code''))"

definition too_large_or_slow :: "http_response \<Rightarrow> ui_effect list" where
  "too_large_or_slow r = (if res_status r = Fin 413 \<or> res_status r = Fin 504 then [ShowRetcode (res_status r)] else [])"

definition logout_once :: "jsval \<Rightarrow> client_state \<Rightarrow> client_state \<times> ui_effect list" where
  "logout_once msg st =
     (case st of (b, redirecting) \<Rightarrow>
        if redirecting then (st, []) else ((removeAll_auth b, True), [Notify msg msg, RedirectToLogin]))"

definition response_interceptor :: "(string \<Rightarrow> string) \<Rightarrow> rat \<Rightarrow> http_response \<Rightarrow> client_state \<Rightarrow> (client_state \<times> ui_effect list) option" where
  \<comment> \<open>of \<open>request.ts\<close>; a body that is not JSON rejects: \<open>None\<close>\<close>
  "response_interceptor t now r st =
     (let e0 = too_large_or_slow r in
      if res_status r = Fin 401
      then (case logout_once (js_or (js_opt (case res_json r of None \<Rightarrow> JObj [] | Some d \<Rightarrow> d) ''message'') (JStr (t ''message.401''))) st of
              (st1, e) \<Rightarrow> Some (st1, e0 @ e))
      else if res_blob r then Some (st, e0)
      else case res_json r of
        None \<Rightarrow> None
      | Some d \<Rightarrow>
          let st1 = (cache_models now r d (fst st), snd st); code = js_opt d ''code'' in
          if code = JNum (Fin 100) then Some (st1, e0 @ [ShowMessage (js_opt d ''message'')])
          else if code = JNum (Fin 401)
          then (case logout_once (js_opt d ''message'') st1 of (st2, e) \<Rightarrow> Some ((removeAll_auth (fst st2), snd st2), e0 @ e @ [RedirectToLogin]))
          else if code \<noteq> JNum (Fin 0) then Some (st1, e0 @ [Notify (hint t d) (js_opt d ''message'')])
          else Some (st1, e0))"

definition next_response_interceptor :: "(string \<Rightarrow> string) \<Rightarrow> rat \<Rightarrow> http_response \<Rightarrow> client_state \<Rightarrow> client_state \<times> ui_effect list" where
  \<comment> \<open>of \<open>next-request.ts\<close>, for a response that is not an error\<close>
  "next_response_interceptor t now r st =
     (let e0 = too_large_or_slow r; d = (case res_json r of None \<Rightarrow> JStr [] | Some d \<Rightarrow> d) in
      if res_blob r then (st, e0)
      else let st1 = (cache_models now r d (fst st), snd st); code = js_opt d ''code'' in
           if code = JNum (Fin 100) then (st1, e0 @ [ShowMessage (js_opt d ''message'')])
           else if code = JNum (Fin 401) then (case logout_once (js_opt d ''message'') st1 of (st2, e) \<Rightarrow> (st2, e0 @ e))
           else if code \<noteq> JNum (Fin 0) then (st1, e0 @ [Notify (hint t d) (js_opt d ''message'')])
           else (st1, e0))"

datatype http_error = NetworkFailure | StatusError http_response string   \<comment> \<open>with its \<open>statusText\<close>\<close>

definition RetcodeMessage :: "(string \<Rightarrow> string) \<Rightarrow> jsnum \<Rightarrow> string option" where
  "RetcodeMessage t n = map_of (map (\<lambda>k. (int_num k, t (''message.'' @ int_to_string k)))
     [200, 201, 202, 204, 400, 401, 403, 404, 406, 410, 413, 422, 500, 502, 503, 504]) n"

definition errorHandler :: "(string \<Rightarrow> string) \<Rightarrow> http_error \<Rightarrow> ui_effect list" where
  "errorHandler t e =
     (case e of
        NetworkFailure \<Rightarrow> [Notify (JStr (t ''message.networkAnomaly'')) (JStr (t ''message.networkAnomalyDescription''))]
      | StatusError r statusText \<Rightarrow>
          if res_status r = Fin 0 \<or> res_status r = NaN then []
          else [Notify (JStr (t ''message.requestError'' @ '' '' @ num_to_string (res_status r) @ '': '' @ res_url r))
                  (JStr (str_or (RetcodeMessage t (res_status r)) statusText))])"

definition next_error_interceptor :: "(string \<Rightarrow> string) \<Rightarrow> http_error \<Rightarrow> client_state \<Rightarrow> client_state \<times> ui_effect list" where
  "next_error_interceptor t e st =
     (case e of
        StatusError r statusText \<Rightarrow>
          if res_status r = Fin 401
          then logout_once (js_or (js_opt (case res_json r of None \<Rightarrow> JStr [] | Some d \<Rightarrow> d) ''message'') (JStr (t ''message.401''))) st
          else (st, errorHandler t e)
      | NetworkFailure \<Rightarrow> (st, errorHandler t e))"

section \<open>Services from tables\<close>

datatype service_call = Call string string "jsval obj"     \<comment> \<open>method, URL and configuration\<close>

definition registerServer :: "string \<Rightarrow> string \<Rightarrow> jsval obj \<Rightarrow> jsval \<Rightarrow> string option \<Rightarrow> service_call option" where
  \<comment> \<open>the URL, the method and the further options of an entry of the table\<close>
  "registerServer url method opts params urlAppendix =
     (let url1 = (case urlAppendix of Some (c # cs) \<Rightarrow> url @ ''/'' @ c # cs | _ \<Rightarrow> url) in
      if toLowerCase method \<in> {''post'', ''delete'', ''put''} then Some (Call method url1 [(''data'', params)])
      else if method = ''get'' \<or> method = ''GET'' then Some (Call ''get'' url1 (obj_put ''params'' params opts))
      else None)"

definition registerNextServer :: "(jsval \<Rightarrow> string) \<Rightarrow> string \<Rightarrow> jsval \<Rightarrow> bool \<Rightarrow> service_call" where
  \<comment> \<open>the URL as a function of the configuration, the method, the configuration, and whether it is native\<close>
  "registerNextServer url method config useAxiosNativeConfig =
     Call method (url config)
       (if useAxiosNativeConfig then (if is_object config then spread config else []) else [(''data'', config)])"

section \<open>A link carries the authorization\<close>

lemma hex_value_digit: "n < 16 \<Longrightarrow> hex_value (hex_digit n) = Some n"
  by (auto simp: hex_value_def hex_digit_def Let_def)

lemma unreserved_plain: "unreserved c \<Longrightarrow> c \<noteq> CHR ''+'' \<and> c \<noteq> CHR ''%'' \<and> c \<noteq> CHR ''&''"
  by (auto simp: unreserved_def Let_def)

lemma hex_digit_plain: "n < 16 \<Longrightarrow> hex_digit n \<noteq> CHR ''&''"
  using hex_value_digit [of n] by (auto simp: hex_value_def)

lemma decode_encode: "query_decode (encodeURIComponent s) = s"
proof (induction s)
  case (Cons c s)
  have "of_char c div 16 < (16 :: nat)" "of_char c mod 16 < (16 :: nat)" by (simp_all add: less_mult_imp_div_less)
  moreover have "char_of (16 * (of_char c div 16) + of_char c mod 16 :: nat) = c" by simp
  ultimately show ?case using Cons unreserved_plain [of c]
    by (simp add: encodeURIComponent_def hex_value_digit)
qed (simp add: encodeURIComponent_def)

lemma encoded_plain: "CHR ''&'' \<notin> set (encodeURIComponent s)"
proof -
  have "CHR ''&'' \<notin> set (if unreserved c then [c] else [CHR ''%'', hex_digit (of_char c div 16), hex_digit (of_char c mod 16)])" for c
  proof -
    have "of_char c div 16 < (16 :: nat)" "of_char c mod 16 < (16 :: nat)" by (simp_all add: less_mult_imp_div_less)
    then show ?thesis using hex_digit_plain [of "of_char c div 16"] hex_digit_plain [of "of_char c mod 16"] unreserved_plain [of c] by auto
  qed
  then show ?thesis unfolding encodeURIComponent_def set_concat set_map by blast
qed


definition logged_in :: "string \<Rightarrow> browser" where
  "logged_in token = \<lparr>local_storage = [(Authorization, token)], llm_cache = None, page_query = []\<rparr>"


section \<open>The cache of models\<close>

text \<open>The cache gives back what was stored, for five minutes, and forgets it then.\<close>

theorem cache_expires:
  "getCachedLlmList now (setCachedLlmList t d b) =
     (if now - t \<le> CACHE_DURATION then (d, setCachedLlmList t d b) else (JNull, clearLlmCache b))"
  by (simp add: getCachedLlmList_def setCachedLlmList_def clearLlmCache_def num_sub_def not_le split: jsnum.split)

text \<open>
  The name and the factory of a model can be read from its uuid unless the name contains an at sign, in which case the
  name is cut off there and a part of it is taken for the factory.
\<close>

theorem model_uuid_roundtrip:
  "CHR ''@'' \<notin> set n \<Longrightarrow> CHR ''@'' \<notin> set f \<Longrightarrow> parseModelUuid (JStr (buildLlmUuid n f)) = Inr (JStr n, JStr f)"
  "CHR ''@'' \<notin> set n \<Longrightarrow> CHR ''@'' \<notin> set v \<Longrightarrow> parseModelUuid (JStr (buildLlmUuid (n @ ''@'' @ v) f)) = Inr (JStr n, JStr v)"
  by (simp_all add: parseModelUuid_def buildLlmUuid_def js_split_append js_split_no_sep)

section \<open>Tenant ids in requests\<close>

definition text_ids :: "jsval \<Rightarrow> bool" where
  \<comment> \<open>the ids of the models are texts\<close>
  "text_ids llmList = (\<forall>v. truthy (tenant_id llmList v) \<longrightarrow> (\<exists>s. tenant_id llmList v = JStr s))"

definition tenant_params :: "string list" where
  "tenant_params = map snd modelParamMap"

lemma params_disjoint: "set (keys modelParamMap) \<inter> set tenant_params = {}" "distinct (keys modelParamMap)" "distinct tenant_params"
  by code_simp+

lemma spread_subset: "set (spread (JObj ob)) \<subseteq> set ob"
  using set_fold_put [of ob "[]"] by (simp add: spread_def obj_assign_def)

lemma fold_ids_subset:
  "(k, v) \<in> set (foldl (\<lambda>d (param, tenantParam).
        if truthy (obj_get d param) \<and> truthy (tenant_id ll (obj_get d param))
        then obj_put tenantParam (tenant_id ll (obj_get d param)) d else d) d ps)
    \<Longrightarrow> (k, v) \<in> set d \<or> (\<exists>w. v = tenant_id ll w \<and> truthy v)"
proof (induction ps arbitrary: d)
  case (Cons p ps)
  let ?d = "if truthy (obj_get d (fst p)) \<and> truthy (tenant_id ll (obj_get d (fst p))) then obj_put (snd p) (tenant_id ll (obj_get d (fst p))) d else d"
  have "(k, v) \<in> set ?d \<or> (\<exists>w. v = tenant_id ll w \<and> truthy v)" using Cons.IH [of ?d] Cons.prems by (simp add: case_prod_unfold)
  then show ?case using obj_put_subset [of "snd p" "tenant_id ll (obj_get d (fst p))" d] by (auto split: if_splits)
qed simp

lemma added_ids_small:
  assumes "text_ids ll" and "(k, v) \<in> set (add_model_ids ll (spread (JObj ob)))" and "is_object v"
  shows "size v < size (JObj ob)"
proof -
  have "(k, v) \<in> set (spread (JObj ob))"
    using fold_ids_subset [OF assms(2) [unfolded add_model_ids_def]] assms(1,3) by (auto simp: text_ids_def)
  then show ?thesis using entries_size [of k v "JObj ob"] spread_subset by auto
qed

lemma add_tenant_enough:
  assumes "text_ids ll"
  shows "size d < n \<Longrightarrow> add_tenant n ll d = add_tenant (Suc (size d)) ll d"
proof (induction d arbitrary: n rule: measure_induct_rule [of size])
  case (less d)
  obtain m where n: "n = Suc m" using less.prems by (cases n) auto
  have step: "add_tenant m ll v = add_tenant (size d) ll v" if "size v < size d" for v
    using less.IH [OF that, of m] less.IH [OF that that] less.prems that n by simp
  show ?case
  proof (cases d)
    case (JArr xs)
    have "size x < size d" if "x \<in> set xs" for x
      using that size_list_estimation' [of x xs "size x" size] by (simp add: JArr less_Suc_eq_le)
    then show ?thesis using step by (simp add: n JArr)
  next
    case (JObj ob)
    have "(\<lambda>(k, v). (k, if is_object v \<and> \<not> skipped_key k then add_tenant m ll v else v)) kv
        = (\<lambda>(k, v). (k, if is_object v \<and> \<not> skipped_key k then add_tenant (size d) ll v else v)) kv"
      if "kv \<in> set (add_model_ids ll (spread (JObj ob)))" for kv
      using that step added_ids_small [OF assms, of "fst kv" "snd kv" ob] by (auto simp: JObj case_prod_unfold)
    then show ?thesis unfolding n JObj by (simp del: jsval.size cong: map_cong)
  qed (simp_all add: n)
qed

lemma obj_get_map_values:
  "g k JUndef = JUndef \<Longrightarrow> obj_get (map (\<lambda>(k, v). (k, g k v)) ob) k = g k (obj_get ob k)"
  by (induction ob) auto

lemma obj_get_fold_ids:
  assumes "distinct (map snd ps)" and "fst ` set ps \<inter> snd ` set ps = {}"
  shows "obj_get (foldl (\<lambda>d (param, tenantParam).
        if truthy (obj_get d param) \<and> truthy (tenant_id ll (obj_get d param))
        then obj_put tenantParam (tenant_id ll (obj_get d param)) d else d) d ps) k
    = (case map_of (map prod.swap ps) k of
         Some param \<Rightarrow> if truthy (obj_get d param) \<and> truthy (tenant_id ll (obj_get d param)) then tenant_id ll (obj_get d param) else obj_get d k
       | None \<Rightarrow> obj_get d k)"
  using assms
proof (induction ps arbitrary: d)
  case (Cons p ps)
  let ?d = "if truthy (obj_get d (fst p)) \<and> truthy (tenant_id ll (obj_get d (fst p))) then obj_put (snd p) (tenant_id ll (obj_get d (fst p))) d else d"
  have same: "obj_get ?d q = obj_get d q" if "q \<noteq> snd p" for q using that by simp
  have params: "param \<noteq> snd p" if "map_of (map prod.swap ps) k = Some param" for param
    using map_of_SomeD [OF that] Cons.prems(2) by force
  have "map_of (map prod.swap ps) k = None" if "k = snd p" using that Cons.prems(1) by (auto simp: map_of_eq_None_iff image_image)
  with Cons.IH [of ?d] Cons.prems same params show ?case by (cases p) (auto split: option.split)
qed simp

definition tenant_source :: "string \<Rightarrow> string option" where
  "tenant_source k = map_of (map prod.swap modelParamMap) k"

lemma obj_get_add_model_ids:
  "obj_get (add_model_ids ll d) k =
    (case tenant_source k of
       Some param \<Rightarrow> if truthy (obj_get d param) \<and> truthy (tenant_id ll (obj_get d param)) then tenant_id ll (obj_get d param) else obj_get d k
     | None \<Rightarrow> obj_get d k)"
proof -
  have "distinct (map snd modelParamMap)" "fst ` set modelParamMap \<inter> snd ` set modelParamMap = {}" by code_simp+
  from obj_get_fold_ids [OF this] show ?thesis unfolding add_model_ids_def tenant_source_def .
qed

text \<open>
  A request to one of the listed services gets the tenant's id for every model parameter, at
  every level of its data: for each model that is found in the cached list the matching tenant parameter is set, nested
  objects are treated likewise, and nothing else changes; requests to other services are sent as they are.
\<close>

theorem tenant_params_exact:
  assumes "getCachedLlmList now b = (ll, b)" and "truthy ll" and "text_ids ll" and "distinct (keys ob)" and "url \<noteq> []"
  shows "if isUrlInWhitelist url
     then \<exists>ob'. addTenantParams now b (Some url) (JObj ob) = (JObj ob', b)
       \<and> (\<forall>k. obj_get ob' k =
            (case tenant_source k of
               Some param \<Rightarrow> if truthy (obj_get ob param) \<and> truthy (tenant_id ll (obj_get ob param)) then tenant_id ll (obj_get ob param)
                  else if is_object (obj_get ob k) then fst (addTenantParams now b (Some url) (obj_get ob k)) else obj_get ob k
             | None \<Rightarrow> if is_object (obj_get ob k) \<and> \<not> skipped_key k then fst (addTenantParams now b (Some url) (obj_get ob k)) else obj_get ob k))
     else addTenantParams now b (Some url) (JObj ob) = (JObj ob, b)"
proof (cases "isUrlInWhitelist url")
  case True
  obtain c cs where u: "url = c # cs" using assms(5) by (cases url) auto
  have add: "addTenantParams now b (Some url) v = (add_tenant (Suc (size v)) ll v, b)" if "is_object v" for v
    using that True assms(1,2) by (simp add: addTenantParams_def u)
  define ob' where "ob' = map (\<lambda>(k, v). (k, if is_object v \<and> \<not> skipped_key k then add_tenant (size (JObj ob)) ll v else v)) (add_model_ids ll (spread (JObj ob)))"
  have get: "obj_get ob' k = (let v = obj_get (add_model_ids ll (spread (JObj ob))) k in
      if is_object v \<and> \<not> skipped_key k then add_tenant (size (JObj ob)) ll v else v)" for k
    unfolding ob'_def Let_def by (rule obj_get_map_values) simp
  have inner: "add_tenant (size (JObj ob)) ll (obj_get ob k) = fst (addTenantParams now b (Some url) (obj_get ob k))"
    if "is_object (obj_get ob k)" for k
  proof -
    have "size (obj_get ob k) < size (JObj ob)" using that by (intro obj_get_size) auto
    from add_tenant_enough [OF assms(3) this] show ?thesis by (simp add: add [OF that])
  qed
  have nskip: "\<not> skipped_key k" if "tenant_source k = Some param" for k param
  proof -
    have "k \<in> set tenant_params" using map_of_SomeD [OF that [unfolded tenant_source_def]] by (force simp: tenant_params_def)
    moreover have "list_all (\<lambda>k. \<not> skipped_key k) tenant_params" by code_simp
    ultimately show ?thesis by (simp add: list_all_iff)
  qed
  have ids: "\<not> is_object (tenant_id ll v)" if "truthy (tenant_id ll v)" for v using assms(3) that by (auto simp: text_ids_def)
  have "addTenantParams now b (Some url) (JObj ob) = (JObj ob', b)" unfolding ob'_def by (subst add) (simp_all only: add_tenant.simps is_object.simps)
  moreover have "obj_get ob' k = (case tenant_source k of
               Some param \<Rightarrow> if truthy (obj_get ob param) \<and> truthy (tenant_id ll (obj_get ob param)) then tenant_id ll (obj_get ob param)
                  else if is_object (obj_get ob k) then fst (addTenantParams now b (Some url) (obj_get ob k)) else obj_get ob k
             | None \<Rightarrow> if is_object (obj_get ob k) \<and> \<not> skipped_key k then fst (addTenantParams now b (Some url) (obj_get ob k)) else obj_get ob k)" for k
    using inner [of k] nskip [of k] ids by (simp add: get obj_get_add_model_ids obj_get_spread [OF assms(4)] Let_def split: option.split)
  ultimately show ?thesis using True by auto
qed (use assms(5) in \<open>auto simp: addTenantParams_def neq_Nil_conv\<close>)

definition sample_llms :: jsval where
  "sample_llms = JObj [(''OpenAI'', JArr [JObj [(''llm_name'', JStr ''gpt''), (''fid'', JStr ''OpenAI''), (''id'', JStr ''17'')]])]"

lemma sample_llms_text: "text_ids sample_llms"
proof -
  have "i = JStr ''17'' \<or> i = JStr []" if "getTenantModelId sample_llms m f = Inr i" for m f i
    using that by (auto simp: getTenantModelId_def sample_llms_def model_of_provider_def split: if_splits)
  then show ?thesis unfolding text_ids_def tenant_id_def by (auto simp: bind_r_def split: sum.splits prod.splits) metis
qed

definition sample_browser :: browser where
  "sample_browser = setCachedLlmList 0 sample_llms (logged_in ''t'')"

theorem tenant_params_exact_witness:
  "\<exists>ob'. addTenantParams 1000 sample_browser (Some ''/v1/dialog/set'') (JObj [(''llm_id'', JStr ''gpt@OpenAI''), (''name'', JStr ''n'')]) = (JObj ob', sample_browser)
     \<and> obj_get ob' ''tenant_llm_id'' = JStr ''17'' \<and> obj_get ob' ''name'' = JStr ''n''"
proof -
  have e: "getCachedLlmList 1000 sample_browser = (sample_llms, sample_browser)" unfolding sample_browser_def cache_expires by (simp add: CACHE_DURATION_def)
  have "truthy sample_llms" "isUrlInWhitelist ''/v1/dialog/set''" "tenant_source ''tenant_llm_id'' = Some ''llm_id''" "tenant_source ''name'' = None"
    "tenant_id sample_llms (JStr ''gpt@OpenAI'') = JStr ''17''" by code_simp+
  moreover have "distinct (keys [(''llm_id'', JStr ''gpt@OpenAI''), (''name'', JStr ''n'')])" by code_simp
  ultimately show ?thesis
    using tenant_params_exact [OF e _ sample_llms_text, of "[(''llm_id'', JStr ''gpt@OpenAI''), (''name'', JStr ''n'')]" "''/v1/dialog/set''"] by force
qed

section \<open>Leaving for the login page\<close>

datatype client_event = Answer http_response | Failure http_error

definition client_step :: "(string \<Rightarrow> string) \<Rightarrow> rat \<Rightarrow> client_event \<Rightarrow> client_state \<Rightarrow> client_state \<times> ui_effect list" where
  "client_step t now ev st = (case ev of Answer r \<Rightarrow> next_response_interceptor t now r st | Failure e \<Rightarrow> next_error_interceptor t e st)"

fun client_run :: "(string \<Rightarrow> string) \<Rightarrow> (rat \<times> client_event) list \<Rightarrow> client_state \<Rightarrow> client_state \<times> ui_effect list" where
  "client_run t [] st = (st, [])"
| "client_run t ((now, ev) # evs) st =
     (case client_step t now ev st of (st1, e1) \<Rightarrow> case client_run t evs st1 of (st2, e2) \<Rightarrow> (st2, e1 @ e2))"

definition redirects :: "ui_effect list \<Rightarrow> nat" where
  "redirects es = length (filter (\<lambda>e. e = RedirectToLogin) es)"

lemma redirects_simps [simp]: "redirects [] = 0" "redirects (e # es) = (if e = RedirectToLogin then 1 else 0) + redirects es"
  "redirects (es @ es') = redirects es + redirects es'"
  by (simp_all add: redirects_def)

lemma client_step_redirects:
  assumes "client_step t now ev st = (st', es)"
  shows "redirects es = (if snd st' \<and> \<not> snd st then 1 else 0) \<and> (snd st \<longrightarrow> snd st')
     \<and> (snd st' \<and> \<not> snd st \<longrightarrow> (\<forall>k\<in>{Authorization, Token, UserInfo}. map_of (local_storage (fst st')) k = None))"
proof -
  have e0: "redirects (too_large_or_slow r) = 0" "redirects (errorHandler t e) = 0" for r e
    by (auto simp: too_large_or_slow_def errorHandler_def split: http_error.split)
  have gone: "map_of (local_storage (removeAll_auth b)) k = None" if "k \<in> {Authorization, Token, UserInfo}" for b k
    using that map_of_filter_keys [of "set [Authorization, Token, UserInfo]" "local_storage b" k] by (simp add: removeAll_auth_def)
  show ?thesis using assms gone
    by (cases st) (auto simp: client_step_def next_response_interceptor_def next_error_interceptor_def logout_once_def e0 Let_def
        split: client_event.splits http_error.splits if_splits)
qed

text \<open>
  However many responses and errors say that the token is no longer valid, and in whatever order, the
  client leaves for the login page once: after the first of them the token is gone from the storage, and no later one
  notifies or redirects again.
\<close>

theorem next_client_redirects_once:
  assumes "client_run t evs (b, False) = (st, es)"
  shows "redirects es = (if snd st then 1 else 0)"
proof -
  have "redirects es = (if snd st \<and> \<not> snd s then 1 else 0) \<and> (snd s \<longrightarrow> snd st)" if "client_run t evs s = (st, es)" for s
    using that
  proof (induction evs arbitrary: s es)
    case (Cons x evs)
    obtain s1 e1 e2 where s1: "client_step t (fst x) (snd x) s = (s1, e1)" "client_run t evs s1 = (st, e2)" "es = e1 @ e2"
      using Cons.prems by (cases x) (auto split: prod.splits)
    show ?case using client_step_redirects [OF s1(1)] Cons.IH [OF s1(2)]
      by (cases "snd s"; cases "snd s1"; cases "snd st") (simp_all add: s1(3))
  qed simp
  from this [OF assms] show ?thesis by simp
qed

definition expired :: client_event where
  "expired = Answer \<lparr>res_status = Fin 200, res_url = ''/v1/user'', res_blob = False, res_json = Some (JObj [(''code'', JNum (Fin 401))])\<rparr>"

theorem next_client_redirects_once_witness:
  "redirects (snd (client_run id [(0, expired), (1, expired), (2, Failure NetworkFailure)] (logged_in ''t'', False))) = 1"
proof -
  obtain st es where r: "client_run id [(0, expired), (1, expired), (2, Failure NetworkFailure)] (logged_in ''t'', False) = (st, es)"
    by (cases "client_run id [(0, expired), (1, expired), (2, Failure NetworkFailure)] (logged_in ''t'', False)")
  moreover have "snd (fst (client_run id [(0, expired), (1, expired), (2, Failure NetworkFailure)] (logged_in ''t'', False)))" by code_simp
  ultimately show ?thesis using next_client_redirects_once [OF r] by simp
qed

text \<open>
  The older client guards only the notification: every body with code 401 removes the token and redirects, the first of
  them twice.
\<close>

theorem old_client_redirects_again:
  assumes "res_status r = Fin 200" and "\<not> res_blob r" and "res_json r = Some d" and "js_opt d ''code'' = JNum (Fin 401)"
  shows "\<exists>st' es. response_interceptor t now r (b, redirecting) = Some (st', es) \<and> redirects es = (if redirecting then 1 else 2)"
  using assms by (auto simp: response_interceptor_def logout_once_def too_large_or_slow_def Let_def)

end
