(* ===== verification/Agent_Forms.thy ===== *)
theory Agent_Forms
  imports Agent_Tools Variable_Options Initial_Values
begin

text \<open>
  The forms of the operators (\<open>pages/agent/form\<close>): what a form shows of a node (\<open>use-values.ts\<close>), what it writes back
  into the graph (\<open>use-watch-change.ts\<close>), and the handlers that change tools, servers, queries, variables, languages
  and prompts. The values of a form are an object; reading and writing it is done by the form library.

  A form is opened on the node and its values are written back, for most forms already when it opens. The locale
  \<open>form_contract\<close> of \<open>Form_Claims\<close> is the contract that makes this harmless: what is written back unchanged is what was there.
\<close>

section \<open>Initial values of tools\<close>

text \<open>\<open>pick\<close> of lodash is an argument.\<close>

type_synonym pick = "jsval obj \<Rightarrow> string list \<Rightarrow> jsval obj"

definition initializeAgentToolValues :: "libs \<Rightarrow> pick \<Rightarrow> (string \<Rightarrow> string) \<Rightarrow> jsval \<Rightarrow> Operator \<Rightarrow> jsval obj" where
  \<comment> \<open>\<open>case (Operator.TavilySearch, Operator.TavilyExtract)\<close> is a comma expression: the case of its last operand\<close>
  "initializeAgentToolValues L pick tr llmId operatorName =
     (let initialValues = initialFormValuesMap tr llmId operatorName in
      case operatorName of
        OpRetrieval \<Rightarrow> obj_put ''description'' (JStr []) (lodash_omit L initialValues [''query''])
      | OpTavilyExtract \<Rightarrow> [(''api_key'', JStr [])]
      | OpExeSQL \<Rightarrow> lodash_omit L initialValues [''sql'']
      | OpBing \<Rightarrow> lodash_omit L initialValues [''query'']
      | OpYahooFinance \<Rightarrow> lodash_omit L initialValues [''stock_code'']
      | OpEmail \<Rightarrow> pick initialValues [''smtp_server'', ''smtp_port'', ''email'', ''smtp_username'', ''password'', ''sender_name'']
      | OpDuckDuckGo \<Rightarrow> pick initialValues [''top_n'', ''channel'']
      | OpWikipedia \<Rightarrow> pick initialValues [''top_n'', ''language'']
      | OpGoogle \<Rightarrow> pick initialValues [''api_key'', ''country'', ''language'']
      | OpGoogleScholar \<Rightarrow> lodash_omit L initialValues [''query'', ''outputs'']
      | OpArXiv \<Rightarrow> pick initialValues [''top_n'', ''sort_by'']
      | OpPubMed \<Rightarrow> pick initialValues [''top_n'', ''email'']
      | OpGitHub \<Rightarrow> pick initialValues [''top_n'']
      | OpWenCai \<Rightarrow> pick initialValues [''top_n'', ''query_type'']
      | OpCode \<Rightarrow> []
      | OpSearXNG \<Rightarrow> pick initialValues [''searxng_url'', ''top_n'']
      | _ \<Rightarrow> initialValues)"

section \<open>Tools and servers of an agent\<close>

definition new_tool :: "libs \<Rightarrow> pick \<Rightarrow> (string \<Rightarrow> string) \<Rightarrow> jsval \<Rightarrow> Operator \<Rightarrow> string \<Rightarrow> string \<Rightarrow> jsval" where
  "new_tool L pick tr llmId op name i =
     JObj [(''component_name'', JStr (op_str op)), (''name'', JStr name),
       (''params'', JObj (initializeAgentToolValues L pick tr llmId op)), (''id'', JStr i)]"

definition has_component :: "string \<Rightarrow> jsval \<Rightarrow> bool res" where
  "has_component v x = bind_r (js_prop x ''component_name'') (\<lambda>c. Inr (c = JStr v))"

fun ex_r :: "('a \<Rightarrow> bool res) \<Rightarrow> 'a list \<Rightarrow> bool res" where
  "ex_r p [] = Inr False"
| "ex_r p (x # xs) = bind_r (p x) (\<lambda>b. if b then Inr True else ex_r p xs)"

definition updateNodeTools ::
    "libs \<Rightarrow> pick \<Rightarrow> (string \<Rightarrow> string) \<Rightarrow> jsval \<Rightarrow> (nat \<Rightarrow> string) \<Rightarrow> node option \<Rightarrow> Operator \<Rightarrow> rf_state \<Rightarrow> rf_state option res" where
  \<comment> \<open>the node of the form, the chosen tool; \<open>None\<close> if no id is found\<close>
  "updateNodeTools L pick tr llmId hids node op s =
     (case node of None \<Rightarrow> Inr (Some s)
      | Some n \<Rightarrow>
          if nid n = [] then Inr (Some s)
          else bind_r (js_array (node_tools n)) (\<lambda>tools.
            let write = (\<lambda>ts. updateNodeForm L (nid n) (JArr ts) [''tools''] s);
                append = (\<lambda>name. bind_r (generateAgentToolId (op_str op) hids s) (\<lambda>i.
                  Inr (map_option (\<lambda>j. write (tools @ [new_tool L pick tr llmId op name j])) i)))
            in if op = OpRetrieval
               then bind_r (generateAgentToolName (nid n) (op_str op) s) append
               else bind_r (ex_r (has_component (op_str op)) tools) (\<lambda>present.
                 if present
                 then bind_r (filter_r (\<lambda>x. map_sum id Not (has_component (op_str op) x)) tools) (\<lambda>ts. Inr (Some (write ts)))
                 else append (op_str op))))"

definition without :: "string \<Rightarrow> string \<Rightarrow> jsval \<Rightarrow> jsval list res" where
  \<comment> \<open>\<open>list.filter((x) => x[field] !== value)\<close>\<close>
  "without field v l =
     bind_r (js_array l) (filter_r (\<lambda>x. bind_r (js_prop x field) (\<lambda>y. Inr (y \<noteq> JStr v))))"

definition deleteNodeTool :: "libs \<Rightarrow> node option \<Rightarrow> string \<Rightarrow> rf_state \<Rightarrow> rf_state res" where
  "deleteNodeTool L node toolId s =
     (case node of None \<Rightarrow> Inl TypeError
      | Some n \<Rightarrow> bind_r (without ''id'' toolId (node_tools n)) (\<lambda>ts.
          Inr (if nid n = [] then s else updateNodeForm L (nid n) (JArr ts) [''tools''] s)))"

definition node_mcp :: "node \<Rightarrow> jsval" where
  "node_mcp n = js_opt (case node_form n of None \<Rightarrow> JUndef | Some f \<Rightarrow> f) ''mcp''"

definition findMcpTools :: "jsval list \<Rightarrow> string \<Rightarrow> jsval res" where
  "findMcpTools servers mcpId =
     bind_r (find_r (\<lambda>x. bind_r (js_prop x ''id'') (\<lambda>i. Inr (i = JStr mcpId))) servers) (\<lambda>m.
       case m of None \<Rightarrow> Inr JUndef
       | Some x \<Rightarrow> bind_r (js_prop x ''variables'') (\<lambda>v. js_prop v ''tools''))"

definition chosen_server :: "jsval list \<Rightarrow> jsval list \<Rightarrow> string \<Rightarrow> jsval list res" where
  \<comment> \<open>one step of the reduction: the entry that is kept or made\<close>
  "chosen_server servers mcps cur =
     bind_r (find_r (\<lambda>x. bind_r (js_prop x ''mcp_id'') (\<lambda>i. Inr (i = JStr cur))) mcps) (\<lambda>m.
     bind_r (findMcpTools servers cur) (\<lambda>tools.
       Inr (case m of Some x \<Rightarrow> [x]
            | None \<Rightarrow> if truthy tools then [JObj [(''mcp_id'', JStr cur), (''tools'', JObj [])]] else [])))"

definition updateNodeMCP :: "libs \<Rightarrow> jsval list \<Rightarrow> node option \<Rightarrow> string list \<Rightarrow> rf_state \<Rightarrow> rf_state res" where
  "updateNodeMCP L servers node val s =
     (case node of None \<Rightarrow> Inr s
      | Some n \<Rightarrow>
          if nid n = [] then Inr s
          else bind_r (if val = [] then Inr [] else js_array (node_mcp n)) (\<lambda>mcps.
               bind_r (map_r (chosen_server servers mcps) val) (\<lambda>xs.
                 Inr (updateNodeForm L (nid n) (JArr (concat xs)) [''mcp''] s))))"

definition deleteNodeMCP :: "libs \<Rightarrow> node option \<Rightarrow> string \<Rightarrow> rf_state \<Rightarrow> rf_state res" where
  "deleteNodeMCP L node v s =
     (case node of None \<Rightarrow> Inl TypeError
      | Some n \<Rightarrow> bind_r (without ''mcp_id'' v (node_mcp n)) (\<lambda>ms.
          Inr (if nid n = [] then s else updateNodeForm L (nid n) (JArr ms) [''mcp''] s)))"

definition handleStructuredOutputDialogOk :: "libs \<Rightarrow> string \<Rightarrow> jsval \<Rightarrow> rf_state \<Rightarrow> rf_state" where
  "handleStructuredOutputDialogOk L nodeId vals s =
     (if nodeId = [] then s else updateNodeForm L nodeId vals [''outputs'', ''structured''] s)"

definition handleShowStructuredOutput :: "libs \<Rightarrow> (string \<Rightarrow> string) \<Rightarrow> string \<Rightarrow> bool \<Rightarrow> rf_state \<Rightarrow> rf_state" where
  "handleShowStructuredOutput L tr nodeId v s =
     (if nodeId = [] then s
      else if v then updateNodeForm L nodeId (JObj []) [''outputs'', ''structured''] s
      else updateNodeForm L nodeId (obj_get (initialAgentValues tr) ''outputs'') [''outputs''] s)"

section \<open>What the forms show and write\<close>

text \<open>A node's form is \<open>undefined\<close> or a value; the libraries' \<open>isEmpty\<close> decides whether the defaults are shown.\<close>

definition objs :: "jsval \<Rightarrow> jsval obj list res" where
  \<comment> \<open>a list of objects that is reduced, with the default \<open>[]\<close> for undefined\<close>
  "objs v =
     (case v of JUndef \<Rightarrow> Inr []
      | JArr xs \<Rightarrow> map_r (\<lambda>x. case x of JObj ob \<Rightarrow> Inr ob | JUndef \<Rightarrow> Inl TypeError | JNull \<Rightarrow> Inl TypeError | _ \<Rightarrow> Inr []) xs
      | _ \<Rightarrow> Inl TypeError)"

definition obj_entries :: "jsval \<Rightarrow> jsval obj res" where
  \<comment> \<open>\<open>Object.entries(v)\<close>\<close>
  "obj_entries v = (if nullish v then Inl TypeError else Inr (entries v))"

definition begin_values :: "libs \<Rightarrow> (string \<Rightarrow> string) \<Rightarrow> jsval \<Rightarrow> jsval obj" where
  "begin_values L tr f =
     (if lodash_isEmpty L f
      then [(''enablePrologue'', JBool True), (''prologue'', JStr (tr ''chat.setAnOpenerInitial'')),
            (''mode'', JStr ''conversational''), (''inputs'', JArr [])]
      else obj_put ''inputs'' (JArr (map JObj (buildBeginInputListFromObject (js_opt f ''inputs'')))) (spread f))"

definition begin_next :: "libs \<Rightarrow> jsval obj \<Rightarrow> jsval obj res" where
  "begin_next L vals =
     bind_r (if obj_get vals ''mode'' = JStr ''Webhook'' \<and> \<not> lodash_isEmpty L (obj_get vals ''schema'')
             then transformRequestSchemaToOutput (obj_get vals ''schema'') else Inr []) (\<lambda>outputs.
     bind_r (objs (obj_get vals ''inputs'')) (\<lambda>inputs.
       Inr (obj_put ''outputs'' (JObj outputs) (obj_put ''inputs'' (JObj (transferInputsArrayToObject L inputs)) vals))))"

definition fillup_values :: "libs \<Rightarrow> jsval \<Rightarrow> jsval obj" where
  "fillup_values L f =
     (if lodash_isEmpty L f then initialUserFillUpValues
      else obj_put ''inputs'' (JArr (map JObj (buildBeginInputListFromObject (js_opt f ''inputs'')))) (spread f))"

definition fillup_next :: "libs \<Rightarrow> jsval obj \<Rightarrow> jsval obj res" where
  "fillup_next L vals =
     bind_r (objs (obj_get vals ''inputs'')) (\<lambda>inputs. let ob = JObj (transferInputsArrayToObject L inputs) in
       Inr (obj_put ''outputs'' ob (obj_put ''inputs'' ob vals)))"

definition omitToolsAndMcp :: "libs \<Rightarrow> jsval obj \<Rightarrow> jsval obj" where
  "omitToolsAndMcp L vals = lodash_omit L vals [''mcp'', ''tools'', ''outputs'']"

definition agent_values :: "libs \<Rightarrow> (string \<Rightarrow> string) \<Rightarrow> jsval \<Rightarrow> jsval \<Rightarrow> jsval obj" where
  "agent_values L tr llmId f =
     (if lodash_isEmpty L f
      then obj_put ''prompts'' (JStr []) (obj_put ''llm_id'' llmId (omitToolsAndMcp L (initialAgentValues tr)))
      else obj_put ''prompts'' (lodash_get L f [''prompts'', ''0'', ''content''] (JStr [])) (omitToolsAndMcp L (entries f)))"

definition agent_next :: "jsval obj \<Rightarrow> jsval obj" where
  "agent_next vals =
     obj_put ''prompts'' (JArr [JObj [(''role'', JStr ''user''), (''content'', obj_get vals ''prompts'')]]) vals"

definition message_values :: "libs \<Rightarrow> jsval \<Rightarrow> jsval obj" where
  "message_values L f =
     (if lodash_isEmpty L f then initialMessageValues
      else obj_put ''content'' (convertToObjectArray (js_opt f ''content'')) (spread f))"

definition message_next :: "jsval obj \<Rightarrow> jsval obj res" where
  "message_next vals = bind_r (convertToStringArray (obj_get vals ''content'')) (\<lambda>c. Inr (obj_put ''content'' c vals))"

definition switch_next :: "jsval obj \<Rightarrow> jsval obj res" where
  "switch_next vals =
     bind_r (case obj_get vals ''conditions'' of
         JArr xs \<Rightarrow> Inr (JArr (map (\<lambda>x. JObj (spread x)) xs))
       | v \<Rightarrow> if nullish v then Inr (JArr []) else Inl TypeError) (\<lambda>cs. Inr (obj_put ''conditions'' cs vals))"

definition categorizeDefaultValues :: "jsval obj" where
  "categorizeDefaultValues =
     [(''parameter'', JStr ''Precise''), (''message_history_window_size'', JNum (Fin 1)), (''temperatureEnabled'', JBool True),
      (''topPEnabled'', JBool True), (''presencePenaltyEnabled'', JBool True), (''frequencyPenaltyEnabled'', JBool True),
      (''maxTokensEnabled'', JBool True), (''items'', JArr [])]"

definition categorize_next :: "jsval obj \<Rightarrow> jsval obj res" where
  "categorize_next vals =
     bind_r (case obj_get vals ''items'' of
         JArr xs \<Rightarrow> Inr (JArr xs)
       | JStr w \<Rightarrow> Inr (if w = [] then JArr [] else JStr w)
       | v \<Rightarrow> if nullish v then Inr (JArr []) else Inl TypeError) (\<lambda>xs. Inr (obj_put ''items'' xs vals))"

definition outputs_to_array :: "jsval \<Rightarrow> jsval res" where
  \<comment> \<open>\<open>convertToArray\<close> of the iteration form\<close>
  "outputs_to_array outs =
     bind_r (obj_entries outs) (\<lambda>es. bind_r (map_r (\<lambda>(k, v).
       bind_r (js_prop v ''ref'') (\<lambda>r. bind_r (js_prop v ''type'') (\<lambda>t.
         Inr (JObj [(''name'', JStr k), (''ref'', r), (''type'', t)])))) es) (\<lambda>xs. Inr (JArr xs)))"

definition transferToObject :: "jsval \<Rightarrow> jsval res" where
  "transferToObject l =
     bind_r (case l of JUndef \<Rightarrow> Inl TypeError | _ \<Rightarrow> objs l) (\<lambda>xs.
       Inr (JObj (obj_of_entries (map (\<lambda>cur. (js_to_string (obj_get cur ''name''),
         JObj [(''ref'', obj_get cur ''ref''), (''type'', obj_get cur ''type'')])) xs))))"

definition iteration_values :: "libs \<Rightarrow> jsval \<Rightarrow> jsval obj res" where
  "iteration_values L f =
     (if lodash_isEmpty L f then Inr (obj_put ''outputs'' (JArr []) initialIterationValues)
      else bind_r (outputs_to_array (js_opt f ''outputs'')) (\<lambda>outs. Inr (obj_put ''outputs'' outs (spread f))))"

definition iteration_next :: "jsval obj \<Rightarrow> jsval obj res" where
  "iteration_next vals = bind_r (transferToObject (obj_get vals ''outputs'')) (\<lambda>outs. Inr (obj_put ''outputs'' outs vals))"

subsection \<open>Code\<close>

definition convertToArray :: "jsval \<Rightarrow> jsval res" where
  "convertToArray args =
     bind_r (obj_entries args) (\<lambda>es. Inr (JArr (map (\<lambda>(k, v). JObj [(''name'', JStr k), (''type'', v)]) es)))"

definition convertOutputsToArray :: "jsval obj \<Rightarrow> jsval res" where
  "convertOutputsToArray f =
     (let outs = (case obj_get f ''outputs'' of JUndef \<Rightarrow> JObj [] | v \<Rightarrow> v) in
      bind_r (obj_entries outs) (\<lambda>es.
      bind_r (map_r (\<lambda>(k, v). bind_r (js_prop v ''type'') (\<lambda>t. Inr [(''name'', JStr k), (''type'', t)])) es) (\<lambda>xs.
        Inr (if obj_get f ''lang'' = JStr ''python'' then JArr (map JObj xs)
             else JObj (case xs of [] \<Rightarrow> [] | _ \<Rightarrow> last xs)))))"

definition code_values :: "libs \<Rightarrow> jsval \<Rightarrow> jsval obj res" where
  "code_values L f =
     (if lodash_isEmpty L f then Inr initialCodeValues
      else bind_r (convertToArray (js_opt f ''arguments'')) (\<lambda>args.
           bind_r (convertOutputsToArray (entries f)) (\<lambda>outs.
             Inr (obj_put ''outputs'' outs (obj_put ''arguments'' args (spread f))))))"

definition convertToObject :: "jsval \<Rightarrow> jsval res" where
  "convertToObject l =
     bind_r (objs l) (\<lambda>xs. Inr (JObj (obj_of_entries (map (\<lambda>cur. (js_to_string (obj_get cur ''name''), obj_get cur ''type'')) xs))))"

definition output_value :: "jsval obj \<Rightarrow> string \<times> jsval" where
  "output_value cur = (js_to_string (obj_get cur ''name''), JObj [(''value'', JStr []), (''type'', obj_get cur ''type'')])"

definition convertOutputsToObject :: "libs \<Rightarrow> jsval obj \<Rightarrow> jsval res" where
  "convertOutputsToObject L vals =
     (let outs = obj_get vals ''outputs'' in
      if obj_get vals ''lang'' = JStr ''python''
      then bind_r (case outs of JUndef \<Rightarrow> Inl TypeError | _ \<Rightarrow> objs outs) (\<lambda>xs. Inr (JObj (obj_of_entries (map output_value xs))))
      else if lodash_isEmpty L outs then Inr (JObj [])
      else Inr (JObj [output_value (entries outs)]))"

definition code_next :: "libs \<Rightarrow> jsval obj \<Rightarrow> jsval obj res" where
  "code_next L vals =
     bind_r (convertToObject (obj_get vals ''arguments'')) (\<lambda>args.
     bind_r (convertOutputsToObject L vals) (\<lambda>outs.
       Inr (obj_put ''outputs'' outs (obj_put ''arguments'' args vals))))"

definition CodeTemplateStrMap :: "string \<Rightarrow> jsval" where
  "CodeTemplateStrMap lang =
     (if lang = ''python'' then obj_get initialCodeValues ''script''
      else if lang = ''javascript''
      then JStr (''const axios = require('' @ [CHR 0x27] @ ''axios'' @ [CHR 0x27] @ '');'' @ [CHR 0x0A] @ ''async function main({}) {'' @ [CHR 0x0A] @
        ''  try {'' @ [CHR 0x0A] @ ''    const response = await axios.get('' @ [CHR 0x27] @ ''https://github.com/infiniflow/ragflow'' @ [CHR 0x27] @ '');'' @ [CHR 0x0A] @
        ''    return '' @ [CHR 0x27] @ ''Body:'' @ [CHR 0x27] @ '' + response.data;'' @ [CHR 0x0A] @ ''  } catch (error) {'' @ [CHR 0x0A] @
        ''    return '' @ [CHR 0x27] @ ''Error:'' @ [CHR 0x27] @ '' + error.message;'' @ [CHR 0x0A] @ ''  }'' @ [CHR 0x0A] @ ''}'')
      else JUndef)"

definition handleLanguageChange :: "libs \<Rightarrow> string \<Rightarrow> string \<Rightarrow> jsval obj \<times> rf_state \<Rightarrow> jsval obj \<times> rf_state" where
  \<comment> \<open>the values of the form and the graph\<close>
  "handleLanguageChange L i lang st =
     (if i = [] then st
      else (obj_put ''outputs'' (if lang = ''python'' then JArr [] else JObj []) (obj_put ''script'' (CodeTemplateStrMap lang) (fst st)),
            updateNodeForm L i (CodeTemplateStrMap lang) [''script''] (snd st)))"

subsection \<open>String transformation, variable aggregator, loop\<close>

definition first_element :: "jsval \<Rightarrow> jsval res" where
  \<comment> \<open>\<open>v[0]\<close>\<close>
  "first_element v =
     (case v of JUndef \<Rightarrow> Inl TypeError | JNull \<Rightarrow> Inl TypeError
      | JArr (x # _) \<Rightarrow> Inr x | JStr (c # _) \<Rightarrow> Inr (JStr [c])
      | JObj ob \<Rightarrow> Inr (obj_get ob ''0'') | _ \<Rightarrow> Inr JUndef)"

definition transferDelimiters :: "jsval \<Rightarrow> jsval res" where
  "transferDelimiters f =
     bind_r (js_prop f ''method'') (\<lambda>m.
       if m = JStr ''merge'' then bind_r (js_prop f ''delimiters'') first_element else js_prop f ''delimiters'')"

definition string_values :: "libs \<Rightarrow> jsval \<Rightarrow> jsval obj res" where
  "string_values L f =
     bind_r (transferDelimiters f) (\<lambda>d.
       Inr (obj_put ''delimiters'' d (if lodash_isEmpty L f then initialStringTransformValues else spread f)))"

definition string_next :: "jsval obj \<Rightarrow> jsval obj" where
  "string_next vals =
     (if obj_get vals ''delimiters'' \<noteq> JUndef \<and> obj_get vals ''method'' = JStr ''merge''
      then obj_put ''delimiters'' (JArr [obj_get vals ''delimiters'']) vals else vals)"

definition aggregator_next :: "jsval obj \<Rightarrow> jsval obj res" where
  "aggregator_next vals =
     bind_r (if nullish (obj_get vals ''groups'') then Inr [] else objs (obj_get vals ''groups'')) (\<lambda>gs.
       Inr (obj_put ''outputs'' (JObj (obj_of_entries (map (\<lambda>g. (js_to_string (obj_get g ''group_name''), JObj [(''type'', obj_get g ''type'')]))
         (filter (\<lambda>g. truthy (obj_get g ''group_name'')) gs)))) vals))"

definition loop_values :: "libs \<Rightarrow> jsval obj \<Rightarrow> jsval \<Rightarrow> jsval obj" where
  "loop_values L defaultValues f = lodash_omit L (if lodash_isEmpty L f then defaultValues else entries f) [''outputs'']"

definition loop_next :: "jsval obj \<Rightarrow> jsval obj res" where
  "loop_next vals =
     bind_r (if nullish (obj_get vals ''loop_variables'') then Inr JUndef
       else bind_r (objs (obj_get vals ''loop_variables'')) (\<lambda>vs. Inr (JObj (obj_of_entries
         (map (\<lambda>v. (js_to_string (obj_get v ''variable''), JObj [(''type'', obj_get v ''type''), (''value'', JStr [])]))
            (filter (\<lambda>v. truthy (obj_get v ''variable'')) vs))))))
       (\<lambda>outs. Inr (obj_put ''outputs'' outs vals))"

subsection \<open>Writing back\<close>

text \<open>
  The effect of \<open>useWatchFormChange\<close>. The forms of the begin, fill-up, categorize, switch, code and loop operators write
  whenever they are rendered, the others only after an edit (\<open>isDirty\<close>); loop and aggregator replace the form.
\<close>

definition write_form :: "libs \<Rightarrow> string \<Rightarrow> bool \<Rightarrow> jsval obj res \<Rightarrow> rf_state \<Rightarrow> rf_state res" where
  \<comment> \<open>the id of the node, whether the effect runs, the next values\<close>
  "write_form L i enabled next s =
     (if i = [] \<or> \<not> enabled then Inr s else bind_r next (\<lambda>vals. Inr (updateNodeForm L i (JObj vals) [] s)))"

definition replace_form :: "libs \<Rightarrow> string \<Rightarrow> bool \<Rightarrow> jsval obj res \<Rightarrow> rf_state \<Rightarrow> rf_state res" where
  "replace_form L i enabled next s =
     (if i = [] \<or> \<not> enabled then Inr s else bind_r next (\<lambda>vals. Inr (replaceNodeForm L i (JObj vals) s)))"

definition tool_watch :: "libs \<Rightarrow> string nullable \<Rightarrow> string \<Rightarrow> bool \<Rightarrow> jsval obj \<Rightarrow> rf_state \<Rightarrow> rf_state res" where
  \<comment> \<open>\<open>useWatchFormChange\<close> of \<open>tool-form\<close>, with the node and the tool that were clicked\<close>
  "tool_watch L nodeId toolId dirty vals s =
     (case findUpstreamNodeById nodeId s of
        Some n \<Rightarrow> if dirty then updateAgentToolById L (Some n) toolId [(''params'', JObj vals)] s else Inr s
      | None \<Rightarrow> Inr s)"

definition mcp_watch :: "libs \<Rightarrow> string nullable \<Rightarrow> string \<Rightarrow> jsval \<Rightarrow> rf_state \<Rightarrow> rf_state res" where
  \<comment> \<open>\<open>useWatchFormChange\<close> of \<open>tool-form/mcp-form\<close>, with the tools that are picked\<close>
  "mcp_watch L nodeId toolId nextMCPTools s =
     (case findUpstreamNodeById nodeId s of None \<Rightarrow> Inr s
      | Some n \<Rightarrow> bind_r (js_array (getAgentNodeMCP L (Some n))) (\<lambda>ms.
          bind_r (map_r (\<lambda>x. bind_r (js_prop x ''mcp_id'') (\<lambda>i.
            Inr (if i = JStr toolId then JObj (obj_put ''tools'' nextMCPTools (spread x)) else x))) ms) (\<lambda>xs.
            Inr (updateNodeForm L (nid n) (JArr xs) [''mcp''] s))))"

section \<open>Editors inside forms\<close>

subsection \<open>Lists of records\<close>

text \<open>\<open>useEditQueryRecord\<close> and \<open>useEditVariableRecord\<close>: the list in the form and the index that is edited.\<close>

record 'a record_editor =
  re_list :: "'a list"
  re_index :: int
  re_current :: "'a option"      \<comment> \<open>\<open>None\<close> for \<open>{}\<close>\<close>
  re_visible :: bool

definition to_spliced :: "int \<Rightarrow> 'a \<Rightarrow> 'a list \<Rightarrow> 'a list" where
  \<comment> \<open>\<open>xs.toSpliced(i, 1, x)\<close> for an index that is not negative\<close>
  "to_spliced i x xs = take (nat i) xs @ [x] @ drop (nat i + 1) xs"

definition handleEditRecord :: "'a \<Rightarrow> 'a record_editor \<Rightarrow> 'a record_editor" where
  "handleEditRecord r e =
     e\<lparr>re_list := (if re_index e > -1 then to_spliced (re_index e) r (re_list e) else re_list e @ [r]), re_visible := False\<rparr>"

definition showRecordModal :: "int option \<Rightarrow> 'a option \<Rightarrow> 'a record_editor \<Rightarrow> 'a record_editor" where
  "showRecordModal idx r e = e\<lparr>re_index := (case idx of None \<Rightarrow> -1 | Some i \<Rightarrow> i), re_current := r, re_visible := True\<rparr>"

definition drop_index :: "int \<Rightarrow> 'a list \<Rightarrow> 'a list" where
  \<comment> \<open>\<open>xs.filter((x, index) => index !== i)\<close>\<close>
  "drop_index i xs = map snd (filter (\<lambda>(j, x). int j \<noteq> i) (enumerate 0 xs))"

definition handleDeleteRecord :: "int \<Rightarrow> 'a record_editor \<Rightarrow> 'a record_editor" where
  "handleDeleteRecord idx e = e\<lparr>re_list := drop_index idx (re_list e)\<rparr>"

definition otherThanCurrentQuery :: "'a record_editor \<Rightarrow> 'a list" where
  "otherThanCurrentQuery e = drop_index (re_index e) (re_list e)"

subsection \<open>Parameters of the invoke form\<close>

definition splice_row :: "nat option \<Rightarrow> 'a \<Rightarrow> 'a list \<Rightarrow> 'a list" where
  \<comment> \<open>\<open>xs.splice(i, 1, x)\<close> with the result of \<open>findIndex\<close>: -1 counts from the end\<close>
  "splice_row i x xs = (case i of Some j \<Rightarrow> xs[j := x] | None \<Rightarrow> butlast xs @ [x])"

definition invoke_rows :: "libs \<Rightarrow> string \<Rightarrow> rf_state \<Rightarrow> jsval obj list res" where
  \<comment> \<open>\<open>dataSource\<close>\<close>
  "invoke_rows L nodeId s =
     (case getNode (Val nodeId) s of None \<Rightarrow> Inr []
      | Some n \<Rightarrow> objs (lodash_get L (case node_form n of None \<Rightarrow> JUndef | Some f \<Rightarrow> f) [''variables''] (JArr [])))"

definition write_rows :: "libs \<Rightarrow> string \<Rightarrow> jsval obj list \<Rightarrow> rf_state \<Rightarrow> rf_state" where
  "write_rows L nodeId rows s = updateNodeForm L nodeId (JObj [(''variables'', JArr (map JObj rows))]) [] s"

definition merge_row :: "jsval \<Rightarrow> jsval obj \<Rightarrow> jsval obj list \<Rightarrow> jsval obj list" where
  \<comment> \<open>the id of the row and the fields that are written over it\<close>
  "merge_row i vs rows =
     (let k = find_index (\<lambda>r. obj_get r ''id'' = i) rows
      in splice_row k (obj_assign (case k of None \<Rightarrow> [] | Some j \<Rightarrow> rows ! j) vs) rows)"

definition changeValue :: "libs \<Rightarrow> string \<Rightarrow> jsval obj \<Rightarrow> string \<Rightarrow> string \<Rightarrow> rf_state \<Rightarrow> rf_state res" where
  "changeValue L nodeId row field v s =
     bind_r (invoke_rows L nodeId s) (\<lambda>rows. Inr (write_rows L nodeId (merge_row (obj_get row ''id'') [(field, JStr v)] rows) s))"

definition handleSaveRow :: "libs \<Rightarrow> string \<Rightarrow> jsval obj \<Rightarrow> rf_state \<Rightarrow> rf_state res" where
  "handleSaveRow L nodeId row s =
     bind_r (invoke_rows L nodeId s) (\<lambda>rows. Inr (write_rows L nodeId (merge_row (obj_get row ''id'') row rows) s))"

definition handleRemoveRow :: "libs \<Rightarrow> string \<Rightarrow> jsval \<Rightarrow> rf_state \<Rightarrow> rf_state res" where
  "handleRemoveRow L nodeId i s =
     bind_r (invoke_rows L nodeId s) (\<lambda>rows. Inr (write_rows L nodeId (filter (\<lambda>r. obj_get r ''id'' \<noteq> i) rows) s))"

definition handleAddRow :: "libs \<Rightarrow> string \<Rightarrow> string \<Rightarrow> rf_state \<Rightarrow> rf_state res" where
  "handleAddRow L nodeId uuid s =
     bind_r (invoke_rows L nodeId s) (\<lambda>rows. Inr (write_rows L nodeId
       (rows @ [[(''id'', JStr uuid), (''key'', JStr []), (''component_id'', JUndef), (''value'', JStr [])]]) s))"

subsection \<open>The prompt of the extractor\<close>

record switch_prompt =
  sp_names :: "string list"       \<comment> \<open>\<open>previousFieldNames.current\<close>\<close>
  sp_field :: string
  sp_sys :: string
  sp_user :: string
  sp_visible :: bool

definition handleFieldNameChange :: "string \<Rightarrow> switch_prompt \<Rightarrow> switch_prompt" where
  \<comment> \<open>the select has already stored the value in the form\<close>
  "handleFieldNameChange v p =
     (if v = [] then p
      else p\<lparr>sp_names := (if length (sp_names p) > 1 then tl (sp_names p) else sp_names p) @ [v], sp_visible := True\<rparr>)"

definition confirmSwitch :: "(string \<Rightarrow> string) \<Rightarrow> switch_prompt \<Rightarrow> switch_prompt" where
  "confirmSwitch tr p =
     p\<lparr>sp_sys := tr (''flow.prompts.system.'' @ sp_field p), sp_user := tr (''flow.prompts.user.'' @ sp_field p)\<rparr>"

definition cancelSwitch :: "switch_prompt \<Rightarrow> switch_prompt" where
  "cancelSwitch p =
     (let names = sp_names p in
      if length names \<ge> 2 \<and> names ! (length names - 2) \<noteq> [] then p\<lparr>sp_field := names ! (length names - 2)\<rparr> else p)"

subsection \<open>Names of groups, conditions of loops\<close>

definition filterName :: "string \<Rightarrow> string" where
  \<comment> \<open>\<open>value.replace(/[^a-zA-Z0-9_]/g, '')\<close>\<close>
  "filterName v = filter (\<lambda>c. is_digit c \<or> c = CHR ''_'' \<or> (let n = of_char c :: nat in 65 \<le> n \<and> n \<le> 90 \<or> 97 \<le> n \<and> n \<le> 122)) v"

definition handleGroupNameBlur :: "string list \<Rightarrow> string \<Rightarrow> string \<Rightarrow> string \<times> bool" where
  \<comment> \<open>the names of all groups, the previous and the new name; the name that is kept and whether an error is shown\<close>
  "handleGroupNameBlur names previousName name =
     (let existsSameName = (name \<in> set names) in
      if js_trim name = [] \<or> existsSameName then (previousName, existsSameName \<and> previousName \<noteq> name) else (name, False))"

definition firstLogicalOperator :: "(string \<Rightarrow> string) \<Rightarrow> string \<Rightarrow> jsval" where
  \<comment> \<open>\<open>buildLogicalOptions(keyType)?.at(0)?.value\<close>, with \<open>toLower\<close> of lodash\<close>
  "firstLogicalOperator lower keyType =
     (let t = lower keyType in
      if t = ''string'' \<or> t = ''array<string>'' \<or> t = ''array<number>'' then JStr ''contains''
      else if t = ''number'' then JStr ''=''
      else if t = ''boolean'' \<or> t = ''array<boolean>'' then JStr ''is''
      else if t = ''object'' \<or> t = ''array<object>'' then JStr ''empty''
      else JUndef)"

definition initializeCondition :: "(string \<Rightarrow> string) \<Rightarrow> string \<Rightarrow> jsval obj \<Rightarrow> jsval obj" where
  \<comment> \<open>mode, value and operator of one condition\<close>
  "initializeCondition lower keyType x =
     obj_put ''operator'' (firstLogicalOperator lower keyType)
       (obj_put ''value'' (if keyType = ''number'' then JNum (Fin 0) else if keyType = ''boolean'' then JBool True else JStr [])
         (if keyType = ''number'' then obj_put ''input_mode'' (JStr ''constant'') x else x))"

definition initializeVariableRelatedConditions :: "(string \<Rightarrow> string) \<Rightarrow> string option \<Rightarrow> string \<Rightarrow> string \<Rightarrow> jsval obj list \<Rightarrow> jsval obj list" where
  "initializeVariableRelatedConditions lower i variable variableType conditions =
     map (\<lambda>x. if variable \<noteq> [] \<and> obj_get x ''variable'' = JStr (buildVariableValue variable i)
              then initializeCondition lower variableType x else x) conditions"

end
