(* ===== verification/Form_Claims.thy ===== *)
theory Form_Claims
  imports Agent_Forms
begin

text \<open>
  Properties of the forms of \<open>Agent_Forms\<close>: opening a form and writing it back changes nothing, with the contract of a
  form as a locale that every kind of form is an instance of; choosing tools and servers; the lists of records; and
  what goes wrong when a change of the extractor's field is cancelled twice.
\<close>

section \<open>Opening a form\<close>

locale form_contract =
  fixes opened :: "jsval obj \<Rightarrow> jsval obj res"
    and next_values :: "jsval obj \<Rightarrow> jsval obj res"
    and ok :: "jsval obj \<Rightarrow> bool"
  assumes written_back: "ok f \<Longrightarrow> \<exists>vs ws. opened f = Inr vs \<and> next_values vs = Inr ws \<and> distinct (keys ws)
      \<and> (\<forall>k\<in>set (keys ws). obj_get ws k = obj_get f k)"
begin

lemma opening_keeps_form:
  assumes "getNode (Val i) s = Some n" and "node_form n = Some (JObj f)" and "ok f"
  shows "\<exists>s' n' f'. write_form L i True (bind_r (opened f) next_values) s = Inr s' \<and> edges s' = edges s
     \<and> getNode (Val i) s' = Some n' \<and> node_form n' = Some (JObj f') \<and> (\<forall>k. obj_get f' k = obj_get f k)
     \<and> (\<forall>j. j \<noteq> i \<longrightarrow> getNode (Val j) s' = getNode (Val j) s)"
proof -
  obtain vs ws where w: "opened f = Inr vs" "next_values vs = Inr ws" "distinct (keys ws)"
    "\<forall>k\<in>set (keys ws). obj_get ws k = obj_get f k" using written_back [OF assms(3)] by blast
  have i: "nid n = i" using getNode_nid [OF assms(1)] by simp
  show ?thesis
  proof (cases "i = []")
    case True then show ?thesis using assms by (auto simp: write_form_def)
  next
    case False
    let ?s = "updateNodeForm L i (JObj ws) [] s"
    have "getNode (Val j) ?s = getNode (Val j) s" if "j \<noteq> i" for j
      using that getNode_nid [of j s] by (cases "getNode (Val j) s") (auto simp: getNode_updateNodeForm form_step_def)
    moreover have "getNode (Val i) ?s = Some (set_form (JObj (obj_assign f ws)) n)"
      using assms i by (simp add: getNode_updateNodeForm form_step_def next_form_def)
    moreover have "\<forall>k. obj_get (obj_assign f ws) k = obj_get f k"
      using w(3,4) by (simp add: obj_get_assign)
    ultimately show ?thesis using False w(1,2) by (simp add: write_form_def set_form_def)
  qed
qed

end

text \<open>Objects as JavaScript keeps them: keys are distinct, array indices come first.\<close>

definition canonical :: "'v obj \<Rightarrow> bool" where
  "canonical ob = (obj_of_entries ob = ob)"

lemma canonical_distinct: "canonical ob \<Longrightarrow> distinct (keys ob)"
  using distinct_keys_obj_assign [of "[]" ob] by (simp add: canonical_def obj_of_entries_def obj_assign_def)

lemma spread_canonical: "canonical ob \<Longrightarrow> spread (JObj ob) = ob"
  by (simp add: canonical_def spread_def obj_assign_def obj_of_entries_def)

lemmas form_simps = lodash_api.isEmpty_obj spread_canonical canonical_distinct obj_get_put

definition input_ok :: "jsval \<Rightarrow> bool" where
  "input_ok v = (case v of JObj w \<Rightarrow> canonical w \<and> ''key'' \<notin> set (keys w) | _ \<Rightarrow> False)"

definition inputs_ok :: "jsval \<Rightarrow> bool" where
  "inputs_ok v = (case v of JObj ins \<Rightarrow> canonical ins \<and> list_all (\<lambda>(k, w). input_ok w) ins | _ \<Rightarrow> False)"

lemma inputs_roundtrip:
  assumes L: "lodash_api L" and ok: "inputs_ok v"
  shows "\<exists>xs. objs (JArr (map JObj (buildBeginInputListFromObject v))) = Inr xs \<and> JObj (transferInputsArrayToObject L xs) = v"
proof -
  obtain ins where v: "v = JObj ins" "canonical ins" "list_all (\<lambda>(k, w). input_ok w) ins"
    using ok by (auto simp: inputs_ok_def split: jsval.splits)
  have objs: "map_r (\<lambda>x. case x of JObj ob \<Rightarrow> Inr ob | JUndef \<Rightarrow> Inl TypeError | JNull \<Rightarrow> Inl TypeError | _ \<Rightarrow> Inr []) (map JObj xs) = Inr xs"
    for xs :: "jsval obj list" by (induction xs) simp_all
  have plain: "\<not> is_array_index ''key''" by code_simp
  have "map (\<lambda>cur. (js_to_string (obj_get cur ''key''), JObj (lodash_omit L cur [''key'']))) (buildBeginInputListFromObject (JObj ins)) = ins"
    using v(3)
  proof (induction ins)
    case (Cons kv ins)
    obtain k w where "kv = (k, JObj w)" "canonical w" "''key'' \<notin> set (keys w)"
      using Cons.prems by (cases kv) (auto simp: input_ok_def split: jsval.splits)
    moreover from this have "obj_get (w @ [(''key'', JStr k)]) ''key'' = JStr k"
      using obj_get_put [of "''key''" "JStr k" w "''key''"] by (simp add: obj_put_fresh plain)
    moreover from calculation have "filter (\<lambda>x. fst x \<noteq> ''key'') w = w" by (force simp: filter_id_conv keys_def)
    ultimately show ?case
      using Cons by (simp add: buildBeginInputListFromObject_def js_or_def spread_canonical obj_put_fresh plain lodash_api.omit [OF L])
  qed (simp add: buildBeginInputListFromObject_def js_or_def)
  then show ?thesis using v(1,2) objs by (simp add: objs_def transferInputsArrayToObject_def canonical_def)
qed

text \<open>Begin and fill-up.\<close>

definition begin_ok :: "libs \<Rightarrow> jsval obj \<Rightarrow> bool" where
  "begin_ok L f = (f \<noteq> [] \<and> canonical f \<and> inputs_ok (obj_get f ''inputs'')
     \<and> (if obj_get f ''mode'' = JStr ''Webhook'' \<and> \<not> lodash_isEmpty L (obj_get f ''schema'')
        then \<exists>outs. transformRequestSchemaToOutput (obj_get f ''schema'') = Inr outs \<and> obj_get f ''outputs'' = JObj outs
        else obj_get f ''outputs'' = JObj []))"

definition fillup_ok :: "jsval obj \<Rightarrow> bool" where
  "fillup_ok f = (f \<noteq> [] \<and> canonical f \<and> inputs_ok (obj_get f ''inputs'') \<and> obj_get f ''outputs'' = obj_get f ''inputs'')"

lemma begin_written_back:
  assumes "lodash_api L" and "begin_ok L f"
  shows "\<exists>ws. begin_next L (begin_values L tr (JObj f)) = Inr ws \<and> distinct (keys ws)
     \<and> (\<forall>k\<in>set (keys ws). obj_get ws k = obj_get f k)"
proof -
  obtain xs where "objs (JArr (map JObj (buildBeginInputListFromObject (obj_get f ''inputs'')))) = Inr xs"
    "JObj (transferInputsArrayToObject L xs) = obj_get f ''inputs''"
    using inputs_roundtrip [OF assms(1)] assms(2) by (auto simp: begin_ok_def)
  then show ?thesis
    using assms(2) by (auto simp: begin_next_def begin_values_def begin_ok_def form_simps lodash_api.isEmpty_obj [OF assms(1)]
        distinct_keys_obj_put split: if_splits)
qed

lemma fillup_written_back:
  assumes "lodash_api L" and "fillup_ok f"
  shows "\<exists>ws. fillup_next L (fillup_values L (JObj f)) = Inr ws \<and> distinct (keys ws)
     \<and> (\<forall>k\<in>set (keys ws). obj_get ws k = obj_get f k)"
proof -
  obtain xs where "objs (JArr (map JObj (buildBeginInputListFromObject (obj_get f ''inputs'')))) = Inr xs"
    "JObj (transferInputsArrayToObject L xs) = obj_get f ''inputs''"
    using inputs_roundtrip [OF assms(1)] assms(2) by (auto simp: fillup_ok_def)
  then show ?thesis
    using assms(2) by (auto simp: fillup_next_def fillup_values_def fillup_ok_def form_simps lodash_api.isEmpty_obj [OF assms(1)]
        distinct_keys_obj_put Let_def)
qed

text \<open>Agent, message, switch, categorize, string transformation.\<close>

definition agent_ok :: "jsval obj \<Rightarrow> bool" where
  "agent_ok f = (canonical f \<and> (\<exists>c. c \<noteq> JUndef \<and>
     obj_get f ''prompts'' = JArr [JObj [(''role'', JStr ''user''), (''content'', c)]]))"

lemma agent_written_back:
  assumes L: "lodash_api L" and ok: "agent_ok f"
  shows "distinct (keys (agent_next (agent_values L tr llmId (JObj f))))
     \<and> (\<forall>k\<in>set (keys (agent_next (agent_values L tr llmId (JObj f)))). obj_get (agent_next (agent_values L tr llmId (JObj f))) k = obj_get f k)"
proof -
  obtain c where f: "canonical f" "obj_get f ''prompts'' = JArr [JObj [(''role'', JStr ''user''), (''content'', c)]]" "c \<noteq> JUndef"
    using ok by (auto simp: agent_ok_def)
  have zero: "is_array_index ''0''" "dec_val ''0'' = 0" by code_simp+
  have "lodash_get L (JObj f) [''prompts'', ''0'', ''content''] (JStr []) = c"
    using f(2,3) by (simp add: lodash_api.get_step [OF L] lodash_api.get_one [OF L] zero)
  moreover have "f \<noteq> []" using f(2) by auto
  moreover have plain: "list_all plain_key [''mcp'', ''tools'', ''outputs'']" by code_simp
  moreover have "distinct (keys (omitToolsAndMcp L f))" "set (keys (omitToolsAndMcp L f)) \<inter> {''mcp'', ''tools'', ''outputs''} = {}"
    using canonical_distinct [OF f(1)] plain by (auto simp: omitToolsAndMcp_def lodash_api.omit [OF L] keys_def distinct_map_filter')
  moreover have "obj_get (omitToolsAndMcp L f) k = (if k \<in> {''mcp'', ''tools'', ''outputs''} then JUndef else obj_get f k)" for k
    using lodash_api.omit_get [OF L plain] by (simp add: omitToolsAndMcp_def)
  ultimately show ?thesis
    using f(2) by (auto simp: agent_next_def agent_values_def obj_get_put distinct_keys_obj_put lodash_api.isEmpty_obj [OF L])
qed

lemma message_written_back:
  assumes "lodash_api L" and "canonical f" and "obj_get f ''content'' = JArr xs"
  shows "\<exists>ws. message_next (message_values L (JObj f)) = Inr ws \<and> distinct (keys ws) \<and> (\<forall>k\<in>set (keys ws). obj_get ws k = obj_get f k)"
proof -
  have "f \<noteq> []" using assms(3) by auto
  then show ?thesis
    using assms by (auto simp: message_next_def message_values_def form_simps lodash_api.isEmpty_obj [OF assms(1)] convert_roundtrip
        distinct_keys_obj_put)
qed

definition conditions_ok :: "jsval \<Rightarrow> bool" where
  "conditions_ok v = (case v of JArr xs \<Rightarrow> list_all (\<lambda>x. case x of JObj w \<Rightarrow> canonical w | _ \<Rightarrow> False) xs | _ \<Rightarrow> False)"

lemma switch_written_back:
  assumes "canonical f" and "conditions_ok (obj_get f ''conditions'')"
  shows "\<exists>ws. switch_next f = Inr ws \<and> distinct (keys ws) \<and> (\<forall>k\<in>set (keys ws). obj_get ws k = obj_get f k)"
proof -
  obtain xs where xs: "obj_get f ''conditions'' = JArr xs" "list_all (\<lambda>x. case x of JObj w \<Rightarrow> canonical w | _ \<Rightarrow> False) xs"
    using assms(2) by (auto simp: conditions_ok_def split: jsval.splits)
  have "map (\<lambda>x. JObj (spread x)) xs = xs"
  proof (rule map_idI)
    fix x assume "x \<in> set xs"
    with xs(2) show "JObj (spread x) = x" by (cases x) (auto simp: list_all_iff spread_canonical)
  qed
  then show ?thesis using assms(1) xs(1) by (auto simp: switch_next_def form_simps distinct_keys_obj_put)
qed

lemma categorize_written_back:
  assumes "canonical f" and "obj_get f ''items'' = JArr xs"
  shows "\<exists>ws. categorize_next f = Inr ws \<and> distinct (keys ws) \<and> (\<forall>k\<in>set (keys ws). obj_get ws k = obj_get f k)"
  using assms by (auto simp: categorize_next_def form_simps distinct_keys_obj_put)

definition delimiters_ok :: "jsval obj \<Rightarrow> bool" where
  "delimiters_ok f = (if obj_get f ''method'' = JStr ''merge'' then \<exists>d. d \<noteq> JUndef \<and> obj_get f ''delimiters'' = JArr [d] else True)"

lemma string_written_back:
  assumes "lodash_api L" and "f \<noteq> []" and "canonical f" and "delimiters_ok f"
  shows "\<exists>vs. string_values L (JObj f) = Inr vs \<and> distinct (keys (string_next vs))
     \<and> (\<forall>k\<in>set (keys (string_next vs)). obj_get (string_next vs) k = obj_get f k)"
  using assms by (auto simp: string_values_def transferDelimiters_def string_next_def first_element_def delimiters_ok_def form_simps
      lodash_api.isEmpty_obj [OF assms(1)] distinct_keys_obj_put split: if_splits)

text \<open>Iteration and code.\<close>

definition output_ref_ok :: "jsval \<Rightarrow> bool" where
  "output_ref_ok v = (\<exists>r t. v = JObj [(''ref'', r), (''type'', t)])"

lemma transfer_outputs:
  assumes "canonical outs" and "list_all (\<lambda>(k, v). output_ref_ok v) outs"
  shows "bind_r (outputs_to_array (JObj outs)) transferToObject = Inr (JObj outs)"
proof -
  let ?row = "\<lambda>(k, v). JObj [(''name'', JStr k), (''ref'', js_opt v ''ref''), (''type'', js_opt v ''type'')]"
  have arr: "map_r (\<lambda>(k, v). bind_r (js_prop v ''ref'') (\<lambda>r. bind_r (js_prop v ''type'') (\<lambda>t.
         Inr (JObj [(''name'', JStr k), (''ref'', r), (''type'', t)])))) es = Inr (map ?row es)"
    if "list_all (\<lambda>(k, v). output_ref_ok v) es" for es
    using that by (induction es) (auto simp: output_ref_ok_def)
  have rows: "map_r (\<lambda>x. case x of JObj ob \<Rightarrow> Inr ob | JUndef \<Rightarrow> Inl TypeError | JNull \<Rightarrow> Inl TypeError | _ \<Rightarrow> Inr []) (map ?row es)
      = Inr (map (\<lambda>(k, v). [(''name'', JStr k), (''ref'', js_opt v ''ref''), (''type'', js_opt v ''type'')]) es)" for es
    by (induction es) auto
  have "map (\<lambda>cur. (js_to_string (obj_get cur ''name''), JObj [(''ref'', obj_get cur ''ref''), (''type'', obj_get cur ''type'')]))
      (map (\<lambda>(k, v). [(''name'', JStr k), (''ref'', js_opt v ''ref''), (''type'', js_opt v ''type'')]) es) = es"
    if "list_all (\<lambda>(k, v). output_ref_ok v) es" for es
    using that by (induction es) (auto simp: output_ref_ok_def)
  then show ?thesis
    using assms arr [OF assms(2)] rows by (simp add: outputs_to_array_def obj_entries_def transferToObject_def objs_def canonical_def)
qed

lemma iteration_written_back:
  assumes "lodash_api L" and "canonical f" and "obj_get f ''outputs'' = JObj outs" and "canonical outs" and "list_all (\<lambda>(k, v). output_ref_ok v) outs"
  shows "\<exists>vs ws. iteration_values L (JObj f) = Inr vs \<and> iteration_next vs = Inr ws \<and> distinct (keys ws)
     \<and> (\<forall>k\<in>set (keys ws). obj_get ws k = obj_get f k)"
proof -
  have "f \<noteq> []" using assms(3) by auto
  moreover obtain arr where "outputs_to_array (JObj outs) = Inr arr" "transferToObject arr = Inr (JObj outs)"
    using transfer_outputs [OF assms(4,5)] by (auto simp: bind_r_eq_Inr)
  ultimately show ?thesis
    using assms(2,3) by (auto simp: iteration_values_def iteration_next_def form_simps lodash_api.isEmpty_obj [OF assms(1)] distinct_keys_obj_put)
qed

definition code_output_ok :: "jsval \<Rightarrow> bool" where
  "code_output_ok v = (\<exists>t. v = JObj [(''value'', JStr []), (''type'', t)])"

definition code_ok :: "jsval obj \<Rightarrow> bool" where
  "code_ok f = (canonical f \<and> (\<exists>args outs. obj_get f ''arguments'' = JObj args \<and> canonical args
     \<and> obj_get f ''outputs'' = JObj outs \<and> canonical outs \<and> list_all (\<lambda>(k, v). code_output_ok v) outs
     \<and> (obj_get f ''lang'' \<noteq> JStr ''python'' \<longrightarrow> length outs \<le> 1)))"

lemma arguments_roundtrip:
  assumes "canonical args"
  shows "\<exists>arr. convertToArray (JObj args) = Inr arr \<and> convertToObject arr = Inr (JObj args)"
proof -
  have "map_r (\<lambda>x. case x of JObj ob \<Rightarrow> Inr ob | JUndef \<Rightarrow> Inl TypeError | JNull \<Rightarrow> Inl TypeError | _ \<Rightarrow> Inr [])
      (map (\<lambda>(k, v). JObj [(''name'', JStr k), (''type'', v)]) es) = Inr (map (\<lambda>(k, v). [(''name'', JStr k), (''type'', v)]) es)"
    for es :: "jsval obj" by (induction es) auto
  moreover have "map (\<lambda>cur. (js_to_string (obj_get cur ''name''), obj_get cur ''type'')) (map (\<lambda>(k, v). [(''name'', JStr k), (''type'', v)]) es) = es"
    for es by (induction es) auto
  ultimately show ?thesis
    using assms by (simp add: convertToArray_def obj_entries_def convertToObject_def objs_def canonical_def)
qed

lemma outputs_listed:
  assumes "list_all (\<lambda>(k, v). code_output_ok v) outs"
  shows "map_r (\<lambda>(k, v). bind_r (js_prop v ''type'') (\<lambda>t. Inr [(''name'', JStr k), (''type'', t)])) outs
      = Inr (map (\<lambda>(k, v). [(''name'', JStr k), (''type'', js_opt v ''type'')]) outs)"
    and "map output_value (map (\<lambda>(k, v). [(''name'', JStr k), (''type'', js_opt v ''type'')]) outs) = outs"
  using assms by (induction outs) (auto simp: code_output_ok_def output_value_def)

lemma outputs_roundtrip:
  assumes L: "lodash_api L" and outs: "obj_get f ''outputs'' = JObj outs" "canonical outs" "list_all (\<lambda>(k, v). code_output_ok v) outs"
    and one: "obj_get f ''lang'' \<noteq> JStr ''python'' \<longrightarrow> length outs \<le> 1"
    and vs: "obj_get vs ''lang'' = obj_get f ''lang''"
  shows "\<exists>arr. convertOutputsToArray f = Inr arr \<and> (obj_get vs ''outputs'' = arr \<longrightarrow> convertOutputsToObject L vs = Inr (JObj outs))"
proof -
  note listed = outputs_listed [OF outs(3)]
  have rows: "map_r (\<lambda>x. case x of JObj ob \<Rightarrow> Inr ob | JUndef \<Rightarrow> Inl TypeError | JNull \<Rightarrow> Inl TypeError | _ \<Rightarrow> Inr []) (map JObj xs) = Inr xs"
    for xs by (induction xs) simp_all
  show ?thesis
  proof (cases "obj_get f ''lang'' = JStr ''python''")
    case True
    then show ?thesis
      using outs(1,2) vs listed rows
      by (simp del: map_map add: convertOutputsToArray_def convertOutputsToObject_def obj_entries_def objs_def canonical_def)
  next
    case False
    then consider "outs = []" | kv where "outs = [kv]" using one by (cases outs) auto
    then show ?thesis
    proof cases
      case 1 then show ?thesis
        using False outs(1) vs by (simp add: convertOutputsToArray_def convertOutputsToObject_def obj_entries_def lodash_api.isEmpty_obj [OF L])
    next
      case 2 then show ?thesis
        using False outs(1) vs listed
        by (cases kv) (simp add: convertOutputsToArray_def convertOutputsToObject_def obj_entries_def lodash_api.isEmpty_obj [OF L])
    qed
  qed
qed

lemma code_written_back:
  assumes L: "lodash_api L" and "code_ok f"
  shows "\<exists>vs ws. code_values L (JObj f) = Inr vs \<and> code_next L vs = Inr ws \<and> distinct (keys ws)
     \<and> (\<forall>k\<in>set (keys ws). obj_get ws k = obj_get f k)"
proof -
  obtain args outs where f: "canonical f" "obj_get f ''arguments'' = JObj args" "canonical args" "obj_get f ''outputs'' = JObj outs"
    and outs: "canonical outs" "list_all (\<lambda>(k, v). code_output_ok v) outs" "obj_get f ''lang'' \<noteq> JStr ''python'' \<longrightarrow> length outs \<le> 1"
    using assms(2) by (auto simp: code_ok_def)
  obtain as where as: "convertToArray (JObj args) = Inr as" "convertToObject as = Inr (JObj args)"
    using arguments_roundtrip [OF f(3)] by blast
  obtain arr where arr: "convertOutputsToArray f = Inr arr" using outputs_roundtrip [OF L f(4) outs, of f] by auto
  let ?vs = "obj_put ''outputs'' arr (obj_put ''arguments'' as f)"
  have "convertOutputsToObject L ?vs = Inr (JObj outs)"
    using outputs_roundtrip [OF L f(4) outs, of ?vs] arr by (simp add: obj_get_put)
  moreover have "f \<noteq> []" using f(2) by auto
  ultimately show ?thesis
    using f as arr by (auto simp: code_values_def code_next_def form_simps lodash_api.isEmpty_obj [OF L] distinct_keys_obj_put)
qed

text \<open>All of them together.\<close>

datatype form_kind = BeginForm | FillupForm | AgentForm | MessageForm | SwitchForm | CategorizeForm | StringForm | IterationForm | CodeForm

fun shown_values :: "libs \<Rightarrow> (string \<Rightarrow> string) \<Rightarrow> jsval \<Rightarrow> form_kind \<Rightarrow> jsval obj \<Rightarrow> jsval obj res" where
  "shown_values L tr llmId BeginForm f = Inr (begin_values L tr (JObj f))"
| "shown_values L tr llmId FillupForm f = Inr (fillup_values L (JObj f))"
| "shown_values L tr llmId AgentForm f = Inr (agent_values L tr llmId (JObj f))"
| "shown_values L tr llmId MessageForm f = Inr (message_values L (JObj f))"
| "shown_values L tr llmId SwitchForm f = Inr (if lodash_isEmpty L (JObj f) then initialSwitchValues else f)"
| "shown_values L tr llmId CategorizeForm f = Inr (if lodash_isEmpty L (JObj f) then categorizeDefaultValues else f)"
| "shown_values L tr llmId StringForm f = string_values L (JObj f)"
| "shown_values L tr llmId IterationForm f = iteration_values L (JObj f)"
| "shown_values L tr llmId CodeForm f = code_values L (JObj f)"

fun written_values :: "libs \<Rightarrow> form_kind \<Rightarrow> jsval obj \<Rightarrow> jsval obj res" where
  "written_values L BeginForm = begin_next L"
| "written_values L FillupForm = fillup_next L"
| "written_values L AgentForm = (\<lambda>vs. Inr (agent_next vs))"
| "written_values L MessageForm = message_next"
| "written_values L SwitchForm = switch_next"
| "written_values L CategorizeForm = categorize_next"
| "written_values L StringForm = (\<lambda>vs. Inr (string_next vs))"
| "written_values L IterationForm = iteration_next"
| "written_values L CodeForm = code_next L"

fun form_ok :: "libs \<Rightarrow> form_kind \<Rightarrow> jsval obj \<Rightarrow> bool" where
  "form_ok L BeginForm f = begin_ok L f"
| "form_ok L FillupForm f = fillup_ok f"
| "form_ok L AgentForm f = agent_ok f"
| "form_ok L MessageForm f = (canonical f \<and> is_array (obj_get f ''content''))"
| "form_ok L SwitchForm f = (canonical f \<and> conditions_ok (obj_get f ''conditions''))"
| "form_ok L CategorizeForm f = (canonical f \<and> is_array (obj_get f ''items''))"
| "form_ok L StringForm f = (f \<noteq> [] \<and> canonical f \<and> delimiters_ok f)"
| "form_ok L IterationForm f = (canonical f \<and> (\<exists>outs. obj_get f ''outputs'' = JObj outs \<and> canonical outs \<and> list_all (\<lambda>(k, v). output_ref_ok v) outs))"
| "form_ok L CodeForm f = code_ok f"

lemma shown_written_back:
  assumes L: "lodash_api L" and ok: "form_ok L kind f"
  shows "\<exists>vs ws. shown_values L tr llmId kind f = Inr vs \<and> written_values L kind vs = Inr ws \<and> distinct (keys ws)
     \<and> (\<forall>k\<in>set (keys ws). obj_get ws k = obj_get f k)"
proof (cases kind)
  case SwitchForm
  then have "f \<noteq> []" using ok by (auto simp: conditions_ok_def)
  then show ?thesis using SwitchForm ok switch_written_back by (simp add: lodash_api.isEmpty_obj [OF L])
next
  case CategorizeForm
  then have "f \<noteq> []" using ok by auto
  then show ?thesis using CategorizeForm ok categorize_written_back [of f] by (auto simp: lodash_api.isEmpty_obj [OF L] elim!: is_array.elims)
next
  case MessageForm
  then show ?thesis using ok message_written_back [OF L, of f] by (auto elim!: is_array.elims)
next
  case StringForm
  then show ?thesis using ok string_written_back [OF L, of f] by auto
next
  case IterationForm
  then show ?thesis using ok iteration_written_back [OF L, of f] by auto
qed (use ok begin_written_back [OF L] fillup_written_back [OF L] agent_written_back [OF L] code_written_back [OF L] in auto)

interpretation forms: form_contract "shown_values L tr llmId kind" "written_values L kind" "\<lambda>f. lodash_api L \<and> form_ok L kind f"
  for L tr llmId kind
  by unfold_locales (use shown_written_back in blast)


definition sample_code_form :: "jsval obj" where
  "sample_code_form = [(''lang'', JStr ''python''), (''arguments'', JObj [(''arg1'', JStr ''sys.query'')]),
     (''outputs'', JObj [(''result'', JObj [(''value'', JStr []), (''type'', JStr ''String'')])])]"

definition sample_code_state :: rf_state where
  "sample_code_state = mk_state [mk_node ''Code:a'' ''CodeExec'' ''Code_0'' (JObj sample_code_form) None] []"


section \<open>Tools\<close>

lemma ex_r_filter:
  "ex_r p xs = Inr False \<Longrightarrow> filter_r (\<lambda>x. map_sum id Not (p x)) ys = Inr zs \<Longrightarrow> filter_r (\<lambda>x. map_sum id Not (p x)) (xs @ ys) = Inr (xs @ zs)"
  by (induction xs) (auto simp: bind_r_eq_Inr split: if_splits sum.splits)

lemma ex_r_append: "ex_r p xs = Inr False \<Longrightarrow> ex_r p (xs @ ys) = ex_r p ys"
  by (induction xs) (auto simp: bind_r_eq_Inr split: if_splits)

lemma node_tools_update:
  assumes "lodash_api L" and "getNode (Val a) s = Some n" and "node_form n = Some (JObj ob)"
  shows "\<exists>n'. getNode (Val a) (updateNodeForm L a v [''tools''] s) = Some n' \<and> nid n' = a
     \<and> node_form n' = Some (JObj (obj_put ''tools'' v ob)) \<and> node_tools n' = v"
  using assms getNode_nid [OF assms(2)]
  by (simp add: getNode_updateNodeForm form_step_def next_form_def lodash_api.set_one [OF assms(1)] set_form_def node_tools_def obj_get_put)

text \<open>
  Choosing a tool that the agent does not have appends it with an id that no tool of any agent has, and choosing it
  again takes it away: the agent has the tools it had, in their order.
\<close>

theorem tool_toggled_twice:
  assumes L: "lodash_api L" and "inj hids" and ids: "map_r tool_key (getAllAgentTools s) = Inr ids"
    and n: "getNode (Val a) s = Some n" "a \<noteq> []" "node_form n = Some (JObj ob)" "obj_get ob ''tools'' = JArr ts"
    and op: "op \<noteq> OpRetrieval" "ex_r (has_component (op_str op)) ts = Inr False"
  shows "\<exists>s' n' i s'' n''. updateNodeTools L pick tr llmId hids (Some n) op s = Inr (Some s') \<and> JStr i \<notin> set ids
     \<and> getNode (Val a) s' = Some n' \<and> node_tools n' = JArr (ts @ [new_tool L pick tr llmId op (op_str op) i])
     \<and> updateNodeTools L pick tr llmId hids (Some n') op s' = Inr (Some s'')
     \<and> getNode (Val a) s'' = Some n'' \<and> node_tools n'' = JArr ts"
proof -
  obtain i where i: "generateAgentToolId (op_str op) hids s = Inr (Some i)" "JStr i \<notin> set ids"
    using generateAgentToolId_fresh [OF assms(2) ids] by blast
  let ?t = "new_tool L pick tr llmId op (op_str op) i"
  let ?s' = "updateNodeForm L a (JArr (ts @ [?t])) [''tools''] s"
  have nid: "nid n = a" using getNode_nid [OF n(1)] by simp
  have first: "updateNodeTools L pick tr llmId hids (Some n) op s = Inr (Some ?s')"
    using n nid op i(1) by (simp add: updateNodeTools_def node_tools_def Let_def)
  obtain n' where n': "getNode (Val a) ?s' = Some n'" "nid n' = a" "node_form n' = Some (JObj (obj_put ''tools'' (JArr (ts @ [?t])) ob))"
    "node_tools n' = JArr (ts @ [?t])" using node_tools_update [OF L n(1,3)] by blast
  have t: "has_component (op_str op) ?t = Inr True" by (simp add: has_component_def new_tool_def)
  have second: "updateNodeTools L pick tr llmId hids (Some n') op ?s' = Inr (Some (updateNodeForm L a (JArr ts) [''tools''] ?s'))"
    using n' n(2) op t by (simp add: updateNodeTools_def Let_def ex_r_append ex_r_filter)
  show ?thesis using first i(2) n' second node_tools_update [OF L n'(1,3)] by blast
qed

definition bare_agent :: rf_state where
  "bare_agent = mk_state [mk_node ''Agent:a'' ''Agent'' ''Agent_0'' (JObj [(''tools'', JArr [ex_tool ''Bing:x'' ''Bing_0''])]) None] []"

theorem tool_toggled_twice_witness:
  "\<exists>s' n' i s'' n''. updateNodeTools ref_libs (\<lambda>ob ks. filter (\<lambda>(k, v). k \<in> set ks) ob) id JUndef nat_to_string (getNode (Val ''Agent:a'') bare_agent) OpGoogle bare_agent
       = Inr (Some s') \<and> i \<noteq> ''Bing:x''
     \<and> getNode (Val ''Agent:a'') s' = Some n' \<and> node_tools n' = JArr [ex_tool ''Bing:x'' ''Bing_0'',
         new_tool ref_libs (\<lambda>ob ks. filter (\<lambda>(k, v). k \<in> set ks) ob) id JUndef OpGoogle ''Google'' i]
     \<and> getNode (Val ''Agent:a'') s'' = Some n'' \<and> node_tools n'' = JArr [ex_tool ''Bing:x'' ''Bing_0'']"
proof -
  let ?n = "mk_node ''Agent:a'' ''Agent'' ''Agent_0'' (JObj [(''tools'', JArr [ex_tool ''Bing:x'' ''Bing_0''])]) None"
  have n: "getNode (Val ''Agent:a'') bare_agent = Some ?n" by (simp add: bare_agent_def mk_state_def mk_node_def getNode_def)
  have ids: "map_r tool_key (getAllAgentTools bare_agent) = Inr [JStr ''Bing:x'']" by code_simp
  have no: "ex_r (has_component (op_str OpGoogle)) [ex_tool ''Bing:x'' ''Bing_0''] = Inr False" by code_simp
  have "inj nat_to_string" by (metis dec_val_nat_to_string injI)
  moreover have "node_form ?n = Some (JObj [(''tools'', JArr [ex_tool ''Bing:x'' ''Bing_0''])])" by (simp add: mk_node_def)
  ultimately show ?thesis
    using tool_toggled_twice [OF ref.lodash_api_axioms _ ids n, of _ "[(''tools'', JArr [ex_tool ''Bing:x'' ''Bing_0''])]" "[ex_tool ''Bing:x'' ''Bing_0'']" OpGoogle] no n
    by fastforce
qed

text \<open>The search tool of Tavily keeps its whole form, although the code names it together with the extraction tool.\<close>

theorem tavily_search_keeps_query:
  "obj_get (initializeAgentToolValues L pick tr llmId OpTavilySearch) ''query'' = JStr ''sys.query''"
  "initializeAgentToolValues L pick tr llmId OpTavilyExtract = [(''api_key'', JStr [])]"
  by (simp_all add: initializeAgentToolValues_def initialTavilyValues_def)

section \<open>Records and prompts\<close>

text \<open>Saving a record replaces the one that was opened, or appends; deleting removes one record.\<close>

theorem record_editor_exact:
  assumes "i < length (re_list e)"
  shows "re_list (handleEditRecord r (showRecordModal (Some (int i)) x e)) = (re_list e)[i := r]"
    and "re_list (handleEditRecord r (showRecordModal None y e)) = re_list e @ [r]"
    and "re_list (handleDeleteRecord (int i) e) = take i (re_list e) @ drop (Suc i) (re_list e)"
proof -
  have drop: "map snd (filter (\<lambda>(j, x). j \<noteq> i) (enumerate m xs)) = (if m \<le> i then take (i - m) xs @ drop (Suc (i - m)) xs else xs)" for m and xs :: "'a list"
  proof (induction xs arbitrary: m)
    case (Cons a xs) then show ?case by (cases m i rule: linorder_cases) (auto simp: take_Cons' Suc_diff_Suc)
  qed simp
  show "re_list (handleEditRecord r (showRecordModal (Some (int i)) x e)) = (re_list e)[i := r]"
    using assms by (simp add: handleEditRecord_def showRecordModal_def to_spliced_def upd_conv_take_nth_drop)
  show "re_list (handleDeleteRecord (int i) e) = take i (re_list e) @ drop (Suc i) (re_list e)"
    using drop [of 0 "re_list e"] by (simp add: handleDeleteRecord_def drop_index_def)
qed (simp add: handleEditRecord_def showRecordModal_def)

definition chooseField :: "string \<Rightarrow> switch_prompt \<Rightarrow> switch_prompt" where
  \<comment> \<open>the handler of the select: it stores the value and asks for confirmation\<close>
  "chooseField v p = handleFieldNameChange v (p\<lparr>sp_field := v\<rparr>)"

text \<open>
  Cancelling the change of the extractor's field restores the field the first time; but the rejected value stays in
  the list of previous names, so that the next change that is cancelled sets the field to the value that was rejected.
\<close>

theorem cancelled_twice_restores_rejected:
  assumes "sp_names p = [a]" and "sp_field p = a" and "a \<noteq> []" and "b \<noteq> []" and "c \<noteq> []"
  shows "sp_field (cancelSwitch (chooseField b p)) = a
     \<and> sp_field (cancelSwitch (chooseField c (cancelSwitch (chooseField b p)))) = b"
  using assms by (simp add: chooseField_def handleFieldNameChange_def cancelSwitch_def Let_def)

theorem cancelled_twice_restores_rejected_witness:
  "sp_field (cancelSwitch (chooseField ''toc'' (cancelSwitch (chooseField ''keywords''
     \<lparr>sp_names = [''summary''], sp_field = ''summary'', sp_sys = [], sp_user = [], sp_visible = False\<rparr>)))) = ''keywords''"
  using cancelled_twice_restores_rejected [of "\<lparr>sp_names = [''summary''], sp_field = ''summary'', sp_sys = [], sp_user = [], sp_visible = False\<rparr>"
      "''summary''" "''keywords''" "''toc''"] by simp

end
