(* ===== verification/Chat_Text.thy ===== *)
theory Chat_Text
  imports Js_Prelude
begin

text \<open>
  What happens to the text of an answer before it is shown: citation markers and their groups
  (\<open>utils/citation-utils.ts\<close>, \<open>components/markdown-content/reference-utils.ts\<close>), formulas and thoughts
  (\<open>utils/chat.ts\<close>), and the direction of the text (\<open>utils/text-direction.ts\<close>).

  Citations and directions are about characters beyond ISO 8859-1; there a text is the list of its UTF-16 code units.
\<close>

type_synonym utext = "nat list"

definition unit_text :: "string \<Rightarrow> utext" where
  "unit_text s = map of_char s"

section \<open>Citations\<close>

definition citation_digit :: "nat \<Rightarrow> bool" where
  \<comment> \<open>\<open>[0-9\u0660-\u0669\u06F0-\u06F9]\<close>\<close>
  "citation_digit c = (0x30 \<le> c \<and> c \<le> 0x39 \<or> 0x660 \<le> c \<and> c \<le> 0x669 \<or> 0x6F0 \<le> c \<and> c \<le> 0x6F9)"

definition normalize_digit :: "nat \<Rightarrow> nat" where
  "normalize_digit c =
     (if 0x660 \<le> c \<and> c \<le> 0x669 then c - 0x660 + 0x30
      else if 0x6F0 \<le> c \<and> c \<le> 0x6F9 then c - 0x6F0 + 0x30 else c)"

definition normalizeCitationDigits :: "utext \<Rightarrow> utext" where
  "normalizeCitationDigits t = map normalize_digit t"

definition units_value :: "utext \<Rightarrow> nat" where
  \<comment> \<open>\<open>Number\<close> of a text of decimal digits\<close>
  "units_value ds = foldl (\<lambda>n c. 10 * n + (c - 0x30)) 0 ds"

definition after_id :: "utext \<Rightarrow> utext" where
  \<comment> \<open>\<open>(?:ID:)?\<close>\<close>
  "after_id t = (if take 3 t = unit_text ''ID:'' then drop 3 t else t)"

definition match_marker :: "(nat \<Rightarrow> bool) \<Rightarrow> utext \<Rightarrow> (utext \<times> nat) option" where
  \<comment> \<open>\<open>\[(?:ID:)?(digit+)\]\<close> at the start of the text: the group and the length of the match\<close>
  "match_marker digit t =
     (case t of [] \<Rightarrow> None
      | c # r \<Rightarrow>
          if c = 0x5B
          then let ds = takeWhile digit (after_id r); rest = dropWhile digit (after_id r) in
               if ds \<noteq> [] \<and> rest \<noteq> [] \<and> hd rest = 0x5D then Some (ds, length t - length rest + 1) else None
          else None)"

record reference_match =
  ref_id :: utext
  fullMatch :: utext
  ref_start :: nat
  ref_end :: nat

lemma match_marker_length: "match_marker digit t = Some (ds, n) \<Longrightarrow> 2 < n \<and> n \<le> length t"
proof -
  assume m: "match_marker digit t = Some (ds, n)"
  then obtain r where t: "t = 0x5B # r" and ds: "ds = takeWhile digit (after_id r)" "ds \<noteq> []"
    and rest: "dropWhile digit (after_id r) \<noteq> []" and n: "n = length t - length (dropWhile digit (after_id r)) + 1"
    by (auto simp: match_marker_def Let_def split: list.splits if_splits)
  have "length (after_id r) \<le> length r" by (simp add: after_id_def)
  moreover have "length ds + length (dropWhile digit (after_id r)) = length (after_id r)"
    unfolding ds by (metis length_append takeWhile_dropWhile_id)
  moreover have "0 < length ds" "0 < length (dropWhile digit (after_id r))" using ds rest by simp_all
  moreover have "length t = Suc (length r)" using t by simp
  ultimately show ?thesis using n by linarith
qed

function find_matches :: "nat \<Rightarrow> utext \<Rightarrow> reference_match list" where
  "find_matches off [] = []"
| "find_matches off (c # cs) =
     (case match_marker citation_digit (c # cs) of
        None \<Rightarrow> find_matches (off + 1) cs
      | Some (ds, n) \<Rightarrow>
          \<lparr>ref_id = normalizeCitationDigits ds, fullMatch = take n (c # cs), ref_start = off, ref_end = off + n\<rparr>
          # find_matches (off + n) (drop n (c # cs)))"
  by pat_completeness auto
termination
  by (relation "measure (\<lambda>(off, t). length t)") (auto dest: match_marker_length)

definition findAllReferenceMatches :: "utext \<Rightarrow> reference_match list" where
  "findAllReferenceMatches t = find_matches 0 t"

fun group_from :: "reference_match list \<Rightarrow> reference_match list \<Rightarrow> reference_match list list" where
  "group_from g [] = [g]"
| "group_from g (m # ms) = (if ref_start m = ref_end (last g) then group_from (g @ [m]) ms else g # group_from [m] ms)"

definition groupConsecutiveReferences :: "utext \<Rightarrow> reference_match list list" where
  "groupConsecutiveReferences t = (case findAllReferenceMatches t of [] \<Rightarrow> [] | m # ms \<Rightarrow> group_from [m] ms)"

definition showImage :: "jsval \<Rightarrow> bool" where
  "showImage field = (field = JStr ''image'' \<or> field = JStr ''table'')"

definition shouldShowCarousel :: "reference_match list \<Rightarrow> jsval list \<Rightarrow> bool" where
  "shouldShowCarousel g chunks =
     (length g \<ge> 2 \<and> list_all (\<lambda>r. let i = units_value (ref_id r) in
        i < length chunks \<and> truthy (chunks ! i) \<and> showImage (js_opt (chunks ! i) ''doc_type'')) g)"

definition ascii_digit :: "nat \<Rightarrow> bool" where
  "ascii_digit c = (0x30 \<le> c \<and> c \<le> 0x39)"

fun first_marker :: "utext \<Rightarrow> utext option" where
  \<comment> \<open>the group of the first match\<close>
  "first_marker [] = None"
| "first_marker (c # cs) = (case match_marker ascii_digit (c # cs) of Some (ds, n) \<Rightarrow> Some ds | None \<Rightarrow> first_marker cs)"

definition parseCitationIndex :: "utext \<Rightarrow> nat option" where
  \<comment> \<open>\<open>None\<close> for NaN\<close>
  "parseCitationIndex v =
     (let t = normalizeCitationDigits v in
      case first_marker t of Some ds \<Rightarrow> Some (units_value ds)
      | None \<Rightarrow> if t \<noteq> [] \<and> list_all ascii_digit t then Some (units_value t) else None)"

definition match_old :: "utext \<Rightarrow> (utext \<times> utext) option" where
  \<comment> \<open>\<open>##digit+$$\<close> at the start: the digits and the rest\<close>
  "match_old t =
     (if take 2 t = unit_text ''##''
      then let ds = takeWhile citation_digit (drop 2 t); rest = dropWhile citation_digit (drop 2 t) in
           if ds \<noteq> [] \<and> take 2 rest = unit_text ''$$'' then Some (ds, drop 2 rest) else None
      else None)"

lemma match_old_length: "match_old t = Some (ds, rest) \<Longrightarrow> length rest < length t"
  using length_dropWhile_le [of citation_digit "drop 2 t"]
  by (cases t) (auto simp: match_old_def Let_def unit_text_def split: if_splits)

function replaceTextByOldReg :: "utext \<Rightarrow> utext" where
  "replaceTextByOldReg [] = []"
| "replaceTextByOldReg (c # cs) =
     (case match_old (c # cs) of
        None \<Rightarrow> c # replaceTextByOldReg cs
      | Some (ds, rest) \<Rightarrow> unit_text ''[ID:'' @ ds @ [0x5D] @ replaceTextByOldReg rest)"
  by pat_completeness auto
termination
  by (relation "measure length") (auto dest: match_old_length)

section \<open>Formulas and thoughts\<close>

definition latin_letter :: "char \<Rightarrow> bool" where
  "latin_letter c = (let n = of_char c :: nat in 65 \<le> n \<and> n \<le> 90 \<or> 97 \<le> n \<and> n \<le> 122)"

fun last_close :: "string \<Rightarrow> char \<Rightarrow> string \<Rightarrow> (string \<times> string) option" where
  \<comment> \<open>the last closing delimiter that no letter precedes, with the character before the text: what is before and after it\<close>
  "last_close close prev [] = None"
| "last_close close prev (x # xs) =
     (case last_close close x xs of
        Some (e, p) \<Rightarrow> Some (x # e, p)
      | None \<Rightarrow> if starts_with (x # xs) close \<and> \<not> latin_letter prev then Some ([], drop (length close) (x # xs)) else None)"

lemma last_close_length: "last_close close prev t = Some (e, p) \<Longrightarrow> length p \<le> length t"
  by (induction t arbitrary: prev e) (auto intro: le_SucI split: option.splits if_splits)

function replace_math :: "string \<Rightarrow> string \<Rightarrow> string \<Rightarrow> string \<Rightarrow> string" where
  "replace_math opn close dollars [] = []"
| "replace_math opn close dollars (x # xs) =
     (if opn \<noteq> [] \<and> starts_with (x # xs) opn
      then case last_close close (last opn) (drop (length opn) (x # xs)) of
             Some (e, p) \<Rightarrow> dollars @ e @ dollars @ replace_math opn close dollars p
           | None \<Rightarrow> x # replace_math opn close dollars xs
      else x # replace_math opn close dollars xs)"
  by pat_completeness auto
termination
  by (relation "measure (\<lambda>(_, _, _, t). length t)")
    (auto dest!: last_close_length simp: neq_Nil_conv intro: le_less_trans)

definition preprocessLaTeX :: "string \<Rightarrow> string" where
  "preprocessLaTeX content =
     (let bs = CHR 0x5C in
      replace_math (bs # ''('') (bs # '')'') ''$'' (replace_math (bs # ''['') (bs # '']'') ''$$'' content))"

fun first_close :: "string \<Rightarrow> string \<Rightarrow> (string \<times> string) option" where
  "first_close close [] = None"
| "first_close close (x # xs) =
     (if starts_with (x # xs) close then Some ([], drop (length close) (x # xs))
      else map_option (\<lambda>(e, p). (x # e, p)) (first_close close xs))"

lemma first_close_length: "first_close close t = Some (e, p) \<Longrightarrow> length p \<le> length t"
  by (induction t arbitrary: e) (auto split: if_splits)

function replaceThinkToSection :: "string \<Rightarrow> string" where
  "replaceThinkToSection [] = []"
| "replaceThinkToSection (x # xs) =
     (if starts_with (x # xs) ''<think>''
      then case first_close ''</think>'' (drop 7 (x # xs)) of
             Some (e, p) \<Rightarrow> ''<section class='' @ [CHR 0x22] @ ''think'' @ [CHR 0x22] @ ''>'' @ e @ ''</section>'' @ replaceThinkToSection p
           | None \<Rightarrow> x # replaceThinkToSection xs
      else x # replaceThinkToSection xs)"
  by pat_completeness auto
termination
  by (relation "measure length") (auto dest!: first_close_length)

section \<open>Direction\<close>

definition RTL_RANGES :: "(nat \<times> nat) list" where
  "RTL_RANGES = [(0x0600, 0x06ff), (0x0750, 0x077f), (0x08a0, 0x08ff), (0xfb50, 0xfdff), (0xfe70, 0xfeff), (0x0590, 0x05ff),
     (0xfb1d, 0xfb4f), (0x0700, 0x074f), (0x0780, 0x07bf), (0x0840, 0x085f), (0x0860, 0x086f)]"

definition isRTLCharCode :: "nat \<Rightarrow> bool" where
  "isRTLCharCode c = list_ex (\<lambda>(a, b). c \<ge> a \<and> c \<le> b) RTL_RANGES"

datatype direction = Rtl | Ltr | Neutral

fun first_units :: "utext \<Rightarrow> utext" where
  \<comment> \<open>the first code unit of each code point, as \<open>for (const char of text)\<close> with \<open>charCodeAt(0)\<close> reads them\<close>
  "first_units (c # d # cs) =
     (if 0xD800 \<le> c \<and> c \<le> 0xDBFF \<and> 0xDC00 \<le> d \<and> d \<le> 0xDFFF then c # first_units cs else c # first_units (d # cs))"
| "first_units [c] = [c]"
| "first_units [] = []"

definition weak_code :: "nat \<Rightarrow> bool" where
  "weak_code c = (c \<le> 0x40 \<or> c \<ge> 0x5b \<and> c \<le> 0x60 \<or> c \<ge> 0x7b \<and> c \<le> 0x7f)"

definition ltr_code :: "nat \<Rightarrow> bool" where
  "ltr_code c = (c \<ge> 0x41 \<and> c \<le> 0x5a \<or> c \<ge> 0x61 \<and> c \<le> 0x7a \<or> c \<ge> 0x00c0 \<and> c \<le> 0x024f
     \<or> c \<ge> 0x0370 \<and> c \<le> 0x03ff \<or> c \<ge> 0x0400 \<and> c \<le> 0x04ff)"

fun scan_direction :: "utext \<Rightarrow> direction" where
  "scan_direction [] = Neutral"
| "scan_direction (c # cs) =
     (if weak_code c then scan_direction cs
      else if isRTLCharCode c then Rtl
      else if ltr_code c then Ltr else scan_direction cs)"

definition getTextDirection :: "utext \<Rightarrow> direction" where
  "getTextDirection t = scan_direction (first_units t)"

definition containsRTL :: "utext \<Rightarrow> bool" where
  "containsRTL t = list_ex isRTLCharCode (first_units t)"

definition isRTL :: "utext \<Rightarrow> bool" where
  "isRTL t = (getTextDirection t = Rtl)"

definition getDirAttribute :: "utext \<Rightarrow> string" where
  "getDirAttribute t = (case getTextDirection t of Neutral \<Rightarrow> ''auto'' | Rtl \<Rightarrow> ''rtl'' | Ltr \<Rightarrow> ''ltr'')"

section \<open>References are found and grouped exactly\<close>

definition marker_at :: "utext \<Rightarrow> nat \<Rightarrow> bool" where
  "marker_at t p = (match_marker citation_digit (drop p t) \<noteq> None)"

text \<open>A marker has one opening bracket, so that no marker starts inside another.\<close>

lemma marker_inside:
  assumes m: "match_marker citation_digit t = Some (ds, n)" and "0 < p" "p < n"
  shows "\<not> marker_at t p"
proof -
  obtain r where t: "t = 0x5B # r" and rest: "dropWhile citation_digit (after_id r) \<noteq> []" "hd (dropWhile citation_digit (after_id r)) = 0x5D"
    and n: "n = length t - length (dropWhile citation_digit (after_id r)) + 1"
    using m by (auto simp: match_marker_def Let_def split: list.splits if_splits)
  obtain rs where rs: "dropWhile citation_digit (after_id r) = 0x5D # rs"
    using rest by (cases "dropWhile citation_digit (after_id r)") auto
  obtain pre where pre: "r = pre @ after_id r" "\<forall>c\<in>set pre. c \<noteq> 0x5B"
  proof (cases "take 3 r = unit_text ''ID:''")
    case True
    show ?thesis
    proof (rule that [of "take 3 r"])
      show "r = take 3 r @ after_id r" using append_take_drop_id [of 3 r] True by (simp add: after_id_def)
      show "\<forall>c\<in>set (take 3 r). c \<noteq> 0x5B" unfolding True by (simp add: unit_text_def)
    qed
  qed (use that [of "[]"] in \<open>simp add: after_id_def\<close>)
  let ?ds = "takeWhile citation_digit (after_id r)"
  have split: "t = 0x5B # (pre @ ?ds @ [0x5D]) @ rs"
    using t pre(1) rs by (metis append_Cons append_Nil append_assoc takeWhile_dropWhile_id)
  have inner: "\<forall>c\<in>set (pre @ ?ds @ [0x5D]). c \<noteq> 0x5B"
    using pre(2) by (auto simp: citation_digit_def dest: set_takeWhileD)
  have "n = Suc (length (pre @ ?ds @ [0x5D]))" using n rs split by simp
  then have "p - 1 < length (pre @ ?ds @ [0x5D])" using assms(2,3) by simp
  then have "(pre @ ?ds @ [0x5D]) ! (p - 1) \<noteq> 0x5B" using inner nth_mem by blast
  moreover have "p - 1 < length ((pre @ ?ds @ [0x5D]) @ rs)" using \<open>p - 1 < _\<close> by simp
  moreover have "t ! p = ((pre @ ?ds @ [0x5D]) @ rs) ! (p - 1)" using split assms(2) by (simp add: nth_Cons')
  ultimately have "p < length t" "t ! p \<noteq> 0x5B"
    using \<open>p - 1 < length (pre @ _)\<close> split by (auto simp: nth_append simp del: append_assoc)
  then show ?thesis by (simp add: marker_at_def match_marker_def Cons_nth_drop_Suc [symmetric])
qed

definition match_ok :: "nat \<Rightarrow> utext \<Rightarrow> reference_match \<Rightarrow> bool" where
  \<comment> \<open>the match is a marker of the text that starts at the given offset\<close>
  "match_ok off t m = (off \<le> ref_start m \<and> ref_start m < ref_end m \<and> ref_end m \<le> off + length t
     \<and> fullMatch m = take (ref_end m - ref_start m) (drop (ref_start m - off) t)
     \<and> (\<exists>ds. match_marker citation_digit (drop (ref_start m - off) t) = Some (ds, ref_end m - ref_start m)
             \<and> ref_id m = normalizeCitationDigits ds))"

lemma match_ok_shift:
  assumes "match_ok (off + n) (drop n t) m" and "n \<le> length t" shows "match_ok off t m"
proof -
  have "ref_start m - (off + n) + n = ref_start m - off" using assms(1) by (simp add: match_ok_def)
  then show ?thesis using assms by (auto simp: match_ok_def add.commute)
qed

lemma find_matches_ok: "m \<in> set (find_matches off t) \<Longrightarrow> match_ok off t m"
proof (induction off t rule: find_matches.induct)
  case (2 off c cs)
  show ?case
  proof (cases "match_marker citation_digit (c # cs)")
    case None
    then have "match_ok (off + 1) cs m" using 2 by simp
    then show ?thesis using match_ok_shift [of off 1 "c # cs" m] by simp
  next
    case (Some x)
    obtain ds n where x: "x = (ds, n)" by (cases x)
    have n: "2 < n" "n \<le> length (c # cs)" using match_marker_length [OF Some [unfolded x]] by simp_all
    show ?thesis
    proof (cases "m \<in> set (find_matches (off + n) (drop n (c # cs)))")
      case True
      then have "match_ok (off + n) (drop n (c # cs)) m" using 2 Some x by simp
      then show ?thesis using match_ok_shift n(2) by blast
    next
      case False
      then have "m = \<lparr>ref_id = normalizeCitationDigits ds, fullMatch = take n (c # cs), ref_start = off, ref_end = off + n\<rparr>"
        using "2.prems" Some x by simp
      then show ?thesis using Some x n by (simp add: match_ok_def)
    qed
  qed
qed simp

lemma find_matches_complete: "marker_at t p \<Longrightarrow> \<exists>m\<in>set (find_matches off t). ref_start m = off + p"
proof (induction off t arbitrary: p rule: find_matches.induct)
  case (1 off) then show ?case by (simp add: marker_at_def match_marker_def)
next
  case (2 off c cs)
  show ?case
  proof (cases "match_marker citation_digit (c # cs)")
    case None
    then have "0 < p" using "2.prems" by (cases p) (auto simp: marker_at_def)
    then obtain q where p: "p = Suc q" by (cases p) auto
    then have "marker_at cs q" using "2.prems" by (simp add: marker_at_def)
    then show ?thesis using "2.IH"(1) [OF None] None p by auto
  next
    case (Some x)
    obtain ds n where x: "x = (ds, n)" by (cases x)
    note m = Some [unfolded x]
    consider "p = 0" | "0 < p" "p < n" | "n \<le> p" by linarith
    then show ?thesis
    proof cases
      case 1 then show ?thesis using m by auto
    next
      case 2 then show ?thesis using marker_inside [OF m] "2.prems" by blast
    next
      case 3
      then have "marker_at (drop n (c # cs)) (p - n)" using "2.prems" by (simp add: marker_at_def)
      then have "\<exists>a\<in>set (find_matches (off + n) (drop n (c # cs))). ref_start a = off + n + (p - n)"
        using "2.IH"(2) [OF Some] x by blast
      then show ?thesis using m 3 by auto
    qed
  qed
qed

lemma find_matches_sorted: "sorted_wrt (\<lambda>a b. ref_end a \<le> ref_start b) (find_matches off t)"
proof (induction off t rule: find_matches.induct)
  case (2 off c cs)
  then show ?case using find_matches_ok by (fastforce simp: match_ok_def split: option.splits)
qed simp

text \<open>Grouping.\<close>

definition adjacent :: "reference_match \<Rightarrow> reference_match \<Rightarrow> bool" where
  "adjacent a b = (ref_start b = ref_end a)"

definition groups_ok :: "reference_match list list \<Rightarrow> bool" where
  "groups_ok gs = ([] \<notin> set gs \<and> list_all (successively adjacent) gs
     \<and> successively (\<lambda>g h. \<not> adjacent (last g) (hd h)) gs)"

lemma group_from_ok:
  assumes "g \<noteq> []" and "successively adjacent g"
  shows "concat (group_from g ms) = g @ ms \<and> groups_ok (group_from g ms) \<and> hd (hd (group_from g ms)) = hd g \<and> group_from g ms \<noteq> []"
  using assms
proof (induction g ms rule: group_from.induct)
  case (2 g m ms)
  show ?case
  proof (cases "ref_start m = ref_end (last g)")
    case True
    then have "successively adjacent (g @ [m])" using 2 by (simp add: successively_append_iff adjacent_def)
    then show ?thesis using 2 True by simp
  next
    case False
    then have ih: "concat (group_from [m] ms) = m # ms" "groups_ok (group_from [m] ms)" "hd (hd (group_from [m] ms)) = m" "group_from [m] ms \<noteq> []"
      using "2.IH"(2) by auto
    obtain h hs where gs: "group_from [m] ms = h # hs" using ih(4) by (cases "group_from [m] ms") auto
    then show ?thesis using False ih "2.prems" by (simp add: groups_ok_def adjacent_def)
  qed
qed (simp add: groups_ok_def)

text \<open>
  C39: the citations of an answer are found and grouped exactly: the groups, one after the other, are markers of the
  text in their order, each with its text and its number; every place where the text has a marker is among them; the
  markers of a group follow each other without a gap, and between two groups there is one.
\<close>

theorem reference_groups_exact:
  "let gs = groupConsecutiveReferences t in
     list_all (match_ok 0 t) (concat gs) \<and> sorted_wrt (\<lambda>a b. ref_end a \<le> ref_start b) (concat gs)
   \<and> ref_start ` set (concat gs) = {p. marker_at t p} \<and> groups_ok gs"
proof -
  have concat: "concat (groupConsecutiveReferences t) = find_matches 0 t" and ok: "groups_ok (groupConsecutiveReferences t)"
    using group_from_ok [of "[hd (find_matches 0 t)]" "tl (find_matches 0 t)"]
    by (auto simp: groupConsecutiveReferences_def findAllReferenceMatches_def groups_ok_def split: list.splits)
  have starts: "ref_start ` set (find_matches 0 t) = {p. marker_at t p}"
  proof (rule set_eqI, rule iffI)
    fix p assume "p \<in> ref_start ` set (find_matches 0 t)"
    then show "p \<in> {p. marker_at t p}" using find_matches_ok by (fastforce simp: match_ok_def marker_at_def)
  next
    fix p assume "p \<in> {p. marker_at t p}"
    then show "p \<in> ref_start ` set (find_matches 0 t)" using find_matches_complete [of t p 0] by force
  qed
  show ?thesis unfolding Let_def concat
    using find_matches_ok find_matches_sorted starts ok by (simp add: list_all_iff)
qed

text \<open>An old marker is read as the marker that replaces it.\<close>

lemma takeWhile_marker: "list_all p ds \<Longrightarrow> \<not> p c \<Longrightarrow> takeWhile p (ds @ c # r) = ds \<and> dropWhile p (ds @ c # r) = c # r"
  by (induction ds) auto

theorem old_marker_replaced:
  assumes "list_all citation_digit ds" and "ds \<noteq> []"
  shows "replaceTextByOldReg (unit_text ''##'' @ ds @ unit_text ''$$'' @ t) = unit_text ''[ID:'' @ ds @ [0x5D] @ replaceTextByOldReg t"
    and "parseCitationIndex (unit_text ''[ID:'' @ ds @ [0x5D]) = Some (units_value (normalizeCitationDigits ds))"
proof -
  have dollar: "\<not> citation_digit 0x24" by (simp add: citation_digit_def)
  show "replaceTextByOldReg (unit_text ''##'' @ ds @ unit_text ''$$'' @ t) = unit_text ''[ID:'' @ ds @ [0x5D] @ replaceTextByOldReg t"
    using takeWhile_marker [OF assms(1) dollar, of "0x24 # t"] assms(2) by (simp add: unit_text_def match_old_def)
  have digits: "list_all ascii_digit (map normalize_digit ds)"
    using assms(1) by (auto simp: list_all_iff citation_digit_def ascii_digit_def normalize_digit_def)
  have close: "\<not> ascii_digit 0x5D" by (simp add: ascii_digit_def)
  have norm: "normalizeCitationDigits (unit_text ''[ID:'' @ ds @ [0x5D]) = 0x5B # unit_text ''ID:'' @ map normalize_digit ds @ [0x5D]"
    by (simp add: normalizeCitationDigits_def unit_text_def normalize_digit_def)
  have after: "after_id (unit_text ''ID:'' @ t) = t" for t by (simp add: after_id_def unit_text_def)
  have "match_marker ascii_digit (0x5B # unit_text ''ID:'' @ map normalize_digit ds @ [0x5D])
      = Some (map normalize_digit ds, length ds + 5)"
    using takeWhile_marker [OF digits close, of "[]"] assms(2) after close
    by (simp add: match_marker_def Let_def del: takeWhile_append dropWhile_append) (simp add: unit_text_def)
  then show "parseCitationIndex (unit_text ''[ID:'' @ ds @ [0x5D]) = Some (units_value (normalizeCitationDigits ds))"
    unfolding parseCitationIndex_def norm Let_def by (simp add: normalizeCitationDigits_def)
qed

section \<open>Which formulas are rendered\<close>

abbreviation backslash :: char where
  "backslash \<equiv> CHR 0x5C"

definition ends_in_letter :: "string \<Rightarrow> bool" where
  "ends_in_letter e = (e \<noteq> [] \<and> latin_letter (last e))"

lemma starts_with_Cons [simp]: "starts_with (x # xs) (y # ys) = (x = y \<and> starts_with xs ys)" "starts_with xs []"
  by (auto simp: starts_with_def)

lemma last_close_plain: "backslash \<notin> set t \<Longrightarrow> last_close (backslash # d) prev t = None"
  by (induction t arbitrary: prev) auto

lemma last_close_later:
  "last_close c (last (prev # u)) v = Some (e, p) \<Longrightarrow> last_close c prev (u @ v) = Some (u @ e, p)"
  by (induction u arbitrary: prev) (auto split: if_splits)

lemma last_close_one:
  assumes "backslash \<notin> set e" "backslash \<notin> set post" "d \<noteq> backslash" "\<not> latin_letter prev"
  shows "last_close [backslash, d] prev (e @ backslash # d # post) = (if ends_in_letter e then None else Some (e, post))"
proof -
  have "last_close [backslash, d] backslash (d # post) = None" using assms(2,3) last_close_plain [of "d # post"] by simp
  then have close: "last_close [backslash, d] q (backslash # d # post) = (if latin_letter q then None else Some ([], post))" for q
    by simp
  have none: "latin_letter (last (q # u)) \<Longrightarrow> last_close [backslash, d] q (u @ backslash # d # post) = None" if "backslash \<notin> set u" for q u
    using that by (induction u arbitrary: q) (auto simp del: last_close.simps(2) simp add: close, auto)
  show ?thesis
  proof (cases "ends_in_letter e")
    case True then show ?thesis using none [of e prev] assms(1) by (simp add: ends_in_letter_def)
  next
    case False
    then have "\<not> latin_letter (last (prev # e))" using assms(4) by (auto simp: ends_in_letter_def)
    then show ?thesis using False last_close_later [of "[backslash, d]" prev e "backslash # d # post" "[]" post] close by simp
  qed
qed

lemma replace_math_prefix:
  "backslash \<notin> set pre \<Longrightarrow> replace_math (backslash # o1) c d (pre @ t) = pre @ replace_math (backslash # o1) c d t"
  by (induction pre) auto

lemma replace_math_plain: "backslash \<notin> set t \<Longrightarrow> replace_math (backslash # o1) c d t = t"
  using replace_math_prefix [of t o1 c d "[]"] by simp

lemma replace_math_other:
  "x \<noteq> y \<Longrightarrow> replace_math [backslash, y] c d (backslash # x # t) = backslash # replace_math [backslash, y] c d (x # t)"
  by simp

lemmas replace_math_through = replace_math_prefix replace_math_plain replace_math_other

text \<open>
  A formula in a text is marked for rendering unless it ends in a letter; then its delimiters stay as they are, for
  displayed formulas as for inline ones.
\<close>

theorem formula_rendered_unless_letter:
  assumes "backslash \<notin> set pre" and "backslash \<notin> set e" and "backslash \<notin> set post"
  shows "preprocessLaTeX (pre @ [backslash, CHR ''[''] @ e @ [backslash, CHR '']''] @ post)
       = (if ends_in_letter e then pre @ [backslash, CHR ''[''] @ e @ [backslash, CHR '']''] @ post else pre @ ''$$'' @ e @ ''$$'' @ post)
     \<and> preprocessLaTeX (pre @ [backslash, CHR ''(''] @ e @ [backslash, CHR '')''] @ post)
       = (if ends_in_letter e then pre @ [backslash, CHR ''(''] @ e @ [backslash, CHR '')''] @ post else pre @ ''$'' @ e @ ''$'' @ post)"
proof -
  have bracket: "\<not> latin_letter (CHR ''['')" "\<not> latin_letter (CHR ''('')" by code_simp+
  have inner: "replace_math [backslash, y] c d (x # e @ backslash # z # post) = x # e @ backslash # z # post"
    if "x \<noteq> backslash" "z \<noteq> y" "z \<noteq> backslash" for x y z c d
    using assms replace_math_prefix [of "x # e" "[y]" c d] replace_math_plain [of "z # post" "[y]" c d] that
    by (simp del: replace_math.simps add: replace_math_other)
  have block: "replace_math [backslash, CHR ''[''] [backslash, CHR '']''] ''$$'' (backslash # CHR ''['' # e @ backslash # CHR '']'' # post)
      = (if ends_in_letter e then backslash # CHR ''['' # e @ backslash # CHR '']'' # post else ''$$'' @ e @ ''$$'' @ post)"
    using last_close_one [OF assms(2,3), of "CHR '']''" "CHR ''[''"] bracket inner [of "CHR ''[''" "CHR '']''" "CHR ''[''"] replace_math_plain [OF assms(3)] by simp
  have inline: "replace_math [backslash, CHR ''(''] [backslash, CHR '')''] ''$'' (backslash # CHR ''('' # e @ backslash # CHR '')'' # post)
      = (if ends_in_letter e then backslash # CHR ''('' # e @ backslash # CHR '')'' # post else ''$'' @ e @ ''$'' @ post)"
    using last_close_one [OF assms(2,3), of "CHR '')''" "CHR ''(''"] bracket inner [of "CHR ''(''" "CHR '')''" "CHR ''(''"] replace_math_plain [OF assms(3)] by simp
  have dollars: "backslash \<notin> set (''$$'' @ e @ ''$$'' @ post)" using assms by simp
  show ?thesis
    using assms block inline inner [of "CHR ''[''" "CHR '']''" "CHR ''(''"] inner [of "CHR ''(''" "CHR '')''" "CHR ''[''"] replace_math_plain [OF dollars]
    by (simp del: replace_math.simps add: preprocessLaTeX_def Let_def replace_math_prefix replace_math_other)
qed

theorem formula_rendered_unless_letter_witness:
  "preprocessLaTeX (''so '' @ [backslash, CHR ''(''] @ ''x = 1'' @ [backslash, CHR '')''] @ ''.'') = ''so $x = 1$.''
   \<and> preprocessLaTeX (''so '' @ [backslash, CHR ''(''] @ ''y'' @ [backslash, CHR '')''] @ ''.'') = ''so '' @ [backslash, CHR ''(''] @ ''y'' @ [backslash, CHR '')''] @ ''.''"
proof -
  have "\<not> ends_in_letter ''x = 1''" "ends_in_letter ''y''" by code_simp+
  then show ?thesis
    using formula_rendered_unless_letter [of "''so ''" "''x = 1''" "''.''"] formula_rendered_unless_letter [of "''so ''" "''y''" "''.''"] by simp
qed

text \<open>Two displayed formulas of one answer are merged into one, with the text between them.\<close>

theorem two_formulas_merge:
  assumes "backslash \<notin> set a" and "backslash \<notin> set between" and "backslash \<notin> set b" and "\<not> ends_in_letter b"
  shows "preprocessLaTeX ([backslash, CHR ''[''] @ a @ [backslash, CHR '']''] @ between @ [backslash, CHR ''[''] @ b @ [backslash, CHR '']''])
     = ''$$'' @ a @ [backslash, CHR '']''] @ between @ [backslash, CHR ''[''] @ b @ ''$$''"
proof -
  let ?u = "a @ [backslash, CHR '']''] @ between @ [backslash, CHR ''['']"
  have "\<not> latin_letter (CHR ''['')" by code_simp
  then have "last_close [backslash, CHR '']''] (last (CHR ''['' # ?u)) (b @ [backslash, CHR '']'']) = Some (b, [])"
    using last_close_one [OF assms(3), of "[]" "CHR '']''" "CHR ''[''"] assms(4) by simp
  then have "last_close [backslash, CHR '']''] (CHR ''['') (?u @ b @ [backslash, CHR '']'']) = Some (?u @ b, [])"
    by (rule last_close_later)
  then have "replace_math [backslash, CHR ''[''] [backslash, CHR '']''] ''$$'' ([backslash, CHR ''[''] @ ?u @ b @ [backslash, CHR '']'']) = ''$$'' @ ?u @ b @ ''$$''"
    by simp
  moreover have "replace_math [backslash, CHR ''(''] c d (''$$'' @ ?u @ b @ ''$$'') = ''$$'' @ ?u @ b @ ''$$''" for c d
  proof -
    have "replace_math [backslash, CHR ''(''] c d (CHR ''['' # b @ ''$$'') = CHR ''['' # b @ ''$$''"
      using assms(3) by (intro replace_math_plain) simp
    moreover have "replace_math [backslash, CHR ''(''] c d (CHR '']'' # between @ t) = CHR '']'' # between @ replace_math [backslash, CHR ''(''] c d t" for t
      using assms(2) replace_math_prefix [of "CHR '']'' # between"] by simp
    moreover have "replace_math [backslash, CHR ''(''] c d (''$$'' @ a @ t) = ''$$'' @ a @ replace_math [backslash, CHR ''(''] c d t" for t
      using assms(1) replace_math_prefix [of "''$$'' @ a"] by simp
    ultimately show ?thesis by (simp del: replace_math.simps add: replace_math_other)
  qed
  ultimately show ?thesis by (simp del: replace_math.simps add: preprocessLaTeX_def Let_def)
qed

text \<open>A finished thought becomes a section; without its end nothing is changed.\<close>

lemma first_close_found:
  "(\<forall>i<length e. \<not> starts_with (drop i (e @ c @ p)) c) \<Longrightarrow> c \<noteq> [] \<Longrightarrow> first_close c (e @ c @ p) = Some (e, p)"
proof (induction e)
  case Nil then show ?case by (cases c) (auto simp: starts_with_def)
next
  case (Cons x e)
  have "\<not> starts_with (x # e @ c @ p) c" using Cons.prems(1) [rule_format, of 0] by simp
  moreover have "first_close c (e @ c @ p) = Some (e, p)"
  proof (rule Cons.IH)
    show "\<forall>i<length e. \<not> starts_with (drop i (e @ c @ p)) c"
      using Cons.prems(1) by (metis Suc_less_eq append_Cons drop_Suc_Cons length_Cons)
  qed (rule Cons.prems(2))
  ultimately show ?case by simp
qed

lemma first_close_absent: "(\<forall>i. \<not> starts_with (drop i t) c) \<Longrightarrow> first_close c t = None"
proof (induction t)
  case (Cons x t)
  have "\<forall>i. \<not> starts_with (drop i t) c" using Cons.prems by (metis drop_Suc_Cons)
  then show ?case using Cons.IH Cons.prems [rule_format, of 0] by simp
qed simp

theorem thought_shown_as_section:
  "(\<forall>i<length e. \<not> starts_with (drop i (e @ ''</think>'' @ p)) ''</think>'') \<Longrightarrow>
     replaceThinkToSection (''<think>'' @ e @ ''</think>'' @ p)
       = ''<section class='' @ [CHR 0x22] @ ''think'' @ [CHR 0x22] @ ''>'' @ e @ ''</section>'' @ replaceThinkToSection p"
  using first_close_found [of e "''</think>''" p] by simp

theorem thought_not_closed_unchanged: "(\<forall>i. \<not> starts_with (drop i t) ''</think>'') \<Longrightarrow> replaceThinkToSection t = t"
proof (induction t rule: replaceThinkToSection.induct)
  case (2 x xs)
  have tail: "\<forall>i. \<not> starts_with (drop i xs) ''</think>''" using "2.prems" by (metis drop_Suc_Cons)
  have "\<forall>i. \<not> starts_with (drop i (drop 7 (x # xs))) ''</think>''" using "2.prems" by (metis drop_drop)
  then have "first_close ''</think>'' (drop 7 (x # xs)) = None" by (rule first_close_absent)
  then show ?case using "2.IH" tail by simp
qed simp

section \<open>The direction of a text\<close>

definition strong_code :: "nat \<Rightarrow> bool" where
  "strong_code c = (isRTLCharCode c \<or> ltr_code c)"

lemma low_surrogate_not_strong: "0xDC00 \<le> c \<and> c \<le> 0xDFFF \<Longrightarrow> \<not> strong_code c"
  by (auto simp: strong_code_def isRTLCharCode_def RTL_RANGES_def ltr_code_def)

lemma weak_not_strong: "weak_code c \<Longrightarrow> \<not> strong_code c"
  by (auto simp: weak_code_def strong_code_def isRTLCharCode_def RTL_RANGES_def ltr_code_def)

lemma first_units_find: "find strong_code (first_units t) = find strong_code t"
  by (induction t rule: first_units.induct) (auto simp: low_surrogate_not_strong)

lemma scan_find: "scan_direction t = (case find strong_code t of None \<Rightarrow> Neutral | Some c \<Rightarrow> if isRTLCharCode c then Rtl else Ltr)"
  by (induction t) (auto simp: strong_code_def dest: weak_not_strong)

lemma first_units_rtl: "list_ex isRTLCharCode (first_units t) = list_ex isRTLCharCode t"
proof (induction t rule: first_units.induct)
  case (1 c d cs)
  have "0xDC00 \<le> d \<and> d \<le> 0xDFFF \<Longrightarrow> \<not> isRTLCharCode d" using low_surrogate_not_strong [of d] by (auto simp: strong_code_def)
  then show ?case using 1 by auto
qed simp_all

text \<open>
  The direction of a text is that of its first strong character, the first one of a right-to-left script or of the
  Latin, Greek and Cyrillic letters, wherever characters outside the basic plane stand; a text is taken for
  right-to-left only if it contains such a character.
\<close>

theorem direction_first_strong:
  "getTextDirection t = (case find strong_code t of None \<Rightarrow> Neutral | Some c \<Rightarrow> if isRTLCharCode c then Rtl else Ltr)
   \<and> containsRTL t = (\<exists>c\<in>set t. isRTLCharCode c) \<and> (isRTL t \<longrightarrow> containsRTL t)"
proof -
  have dir: "getTextDirection t = (case find strong_code t of None \<Rightarrow> Neutral | Some c \<Rightarrow> if isRTLCharCode c then Rtl else Ltr)"
    by (simp add: getTextDirection_def scan_find first_units_find)
  have rtl: "containsRTL t = (\<exists>c\<in>set t. isRTLCharCode c)"
    by (simp only: containsRTL_def first_units_rtl) (simp add: list_ex_iff)
  show ?thesis using dir rtl
    by (auto simp: isRTL_def split: option.splits if_splits dest: find_Some_in)
qed

theorem direction_first_strong_witness:
  "isRTL (unit_text ''12 '' @ [0xD83D, 0xDE00, 0x5D0]) \<and> containsRTL (unit_text ''12 '' @ [0xD83D, 0xDE00, 0x5D0])"
proof -
  have "isRTL (unit_text ''12 '' @ [0xD83D, 0xDE00, 0x5D0])"
    by (simp add: isRTL_def getTextDirection_def unit_text_def weak_code_def isRTLCharCode_def RTL_RANGES_def ltr_code_def)
  then show ?thesis using direction_first_strong [of "unit_text ''12 '' @ [0xD83D, 0xDE00, 0x5D0]"] by blast
qed

end
