(* ===== verification/Dynamic_Form.thy ===== *)
theory Dynamic_Form
  imports Js_Prelude "HOL-Library.Sublist"
begin

text \<open>
  The form that is generated from a list of field descriptions, \<open>components/dynamic-form.tsx\<close>: default values, the
  validation schema, the resolver, the values that are submitted. A field's name is a path; paths of different fields
  share the objects on their way.

  A schema is the chain of calls to zod that builds it. Field names are not names of \<open>Object.prototype\<close>.
\<close>

section \<open>Fields\<close>

datatype FormFieldType = FText | FEmail | FPassword | FNumber | FTextarea | FSelect | FMultiSelect | FCheckbox | FSwitch
  | FTag | FSegmented | FCustom

datatype given_kind = GivenText | GivenOther    \<comment> \<open>whether a given schema has the methods of a text\<close>

datatype zschema =
    ZString | ZNumber | ZBoolean | ZStrings | ZGiven given_kind
  | ZEmail zschema string | ZMin zschema rat string | ZMax zschema rat string | ZRegex zschema string string
  | ZRefineTrue zschema string | ZOptional zschema
  | ZObject "(string \<times> zschema) list"

datatype custom_result = Accepted | Message string | Refused | Thrown "string option"
  \<comment> \<open>true, a text, false, an exception with the message of an Error\<close>

record field_validation =
  v_pattern :: "string option"
  v_minLength :: "rat option"
  v_maxLength :: "rat option"
  v_min :: "rat option"
  v_max :: "rat option"
  v_message :: string

record form_field =
  f_name :: string
  f_label :: string
  f_type :: FormFieldType
  f_required :: bool
  f_default :: jsval                            \<comment> \<open>\<open>undefined\<close> if there is none\<close>
  f_validation :: field_validation              \<comment> \<open>an absent one has no entries\<close>
  f_schema :: "given_kind option"
  f_dependencies :: "string list"
  f_shouldRender :: "(jsval \<Rightarrow> bool) option"
  f_customValidate :: "(jsval \<Rightarrow> jsval \<Rightarrow> custom_result) option"

definition FilterFormField :: string where
  "FilterFormField = ''RAG_DY_STATIC''"

definition field_path :: "form_field \<Rightarrow> string list" where
  "field_path f = js_split (CHR ''.'') (f_name f)"

section \<open>Values along paths\<close>

fun get_nested :: "jsval \<Rightarrow> string list \<Rightarrow> jsval" where
  "get_nested v [] = v"
| "get_nested v (k # ks) = get_nested (if truthy v then js_opt v k else JUndef) ks"

definition getNestedValue :: "jsval \<Rightarrow> string \<Rightarrow> jsval" where
  "getNestedValue v name = get_nested v (js_split (CHR ''.'') name)"

fun put_nested :: "string list \<Rightarrow> jsval \<Rightarrow> jsval \<Rightarrow> jsval res" where
  \<comment> \<open>makes the objects on the way; a property cannot be set on a primitive value, and one that is set on an array does
    not show among its elements\<close>
  "put_nested [] v t = Inr t"
| "put_nested (k # ks) v (JObj ob) =
     (if ks = [] then Inr (JObj (obj_put k v ob))
      else bind_r (put_nested ks v (if truthy (obj_get ob k) then obj_get ob k else JObj [])) (\<lambda>w. Inr (JObj (obj_put k w ob))))"
| "put_nested (k # ks) v (JArr xs) = Inr (JArr xs)"
| "put_nested (k # ks) v _ = Inl TypeError"

definition default_of :: "form_field \<Rightarrow> jsval" where
  "default_of f =
     (if f_default f \<noteq> JUndef then f_default f
      else if f_type f = FCheckbox \<or> f_type f = FSwitch then JBool False
      else if f_type f = FTag \<or> f_type f = FMultiSelect \<and> CHR ''.'' \<notin> set (f_name f) then JArr []
      else JStr [])"

fun put_defaults :: "form_field list \<Rightarrow> jsval \<Rightarrow> jsval res" where
  "put_defaults [] t = Inr t"
| "put_defaults (f # fs) t = bind_r (put_nested (field_path f) (default_of f) t) (put_defaults fs)"

definition generateDefaultValues :: "form_field list \<Rightarrow> jsval res" where
  "generateDefaultValues fs = put_defaults fs (JObj [])"

section \<open>What is submitted\<close>

definition submitted :: "jsval \<Rightarrow> form_field \<Rightarrow> bool" where
  \<comment> \<open>the condition of \<open>filterActiveValues\<close>\<close>
  "submitted allValues f =
     (case f_shouldRender f of None \<Rightarrow> True
      | Some r \<Rightarrow> r allValues \<and> \<not> includes_str (f_name f) FilterFormField)"

fun put_active :: "form_field list \<Rightarrow> jsval \<Rightarrow> jsval \<Rightarrow> jsval res" where
  "put_active [] allValues t = Inr t"
| "put_active (f # fs) allValues t =
     (if submitted allValues f \<and> get_nested allValues (field_path f) \<noteq> JUndef
      then bind_r (put_nested (field_path f) (get_nested allValues (field_path f)) t) (put_active fs allValues)
      else put_active fs allValues t)"

definition filterActiveValues :: "form_field list \<Rightarrow> jsval \<Rightarrow> jsval res" where
  "filterActiveValues fs allValues = put_active fs allValues (JObj [])"

section \<open>The schema\<close>

fun has_min :: "zschema \<Rightarrow> bool" where
  \<comment> \<open>texts, numbers and arrays have \<open>min\<close> and \<open>max\<close>; booleans, optional and refined schemas do not\<close>
  "has_min ZString = True" | "has_min ZNumber = True" | "has_min ZStrings = True"
| "has_min (ZGiven g) = (g = GivenText)"
| "has_min (ZEmail z _) = has_min z" | "has_min (ZMin z _ _) = has_min z" | "has_min (ZMax z _ _) = has_min z"
| "has_min (ZRegex z _ _) = has_min z"
| "has_min _ = False"

fun has_regex :: "zschema \<Rightarrow> bool" where
  "has_regex ZString = True" | "has_regex (ZGiven g) = (g = GivenText)"
| "has_regex (ZEmail z _) = has_regex z" | "has_regex (ZMin z _ _) = has_regex z" | "has_regex (ZMax z _ _) = has_regex z"
| "has_regex (ZRegex z _ _) = has_regex z"
| "has_regex _ = False"

definition call_min :: "rat \<Rightarrow> string \<Rightarrow> zschema \<Rightarrow> zschema res" where
  "call_min n msg z = (if has_min z then Inr (ZMin z n msg) else Inl TypeError)"

definition call_max :: "rat \<Rightarrow> string \<Rightarrow> zschema \<Rightarrow> zschema res" where
  "call_max n msg z = (if has_min z then Inr (ZMax z n msg) else Inl TypeError)"

definition call_regex :: "string \<Rightarrow> string \<Rightarrow> zschema \<Rightarrow> zschema res" where
  "call_regex p msg z = (if has_regex z then Inr (ZRegex z p msg) else Inl TypeError)"

definition message_or :: "form_field \<Rightarrow> string \<Rightarrow> string" where
  "message_or f d = (if v_message (f_validation f) = [] then d else v_message (f_validation f))"

definition rat_text :: "rat \<Rightarrow> string" where
  "rat_text n = num_to_string (Fin n)"

definition when_some :: "'a option \<Rightarrow> ('a \<Rightarrow> 'b \<Rightarrow> 'b res) \<Rightarrow> 'b \<Rightarrow> 'b res" where
  "when_some m g z = (case m of None \<Rightarrow> Inr z | Some n \<Rightarrow> g n z)"

definition base_schema :: "form_field \<Rightarrow> zschema res" where
  "base_schema f =
     (case f_schema f of Some g \<Rightarrow> Inr (ZGiven g)
      | None \<Rightarrow> (case f_type f of
          FEmail \<Rightarrow> Inr (ZEmail ZString ''Please enter a valid email address'')
        | FMultiSelect \<Rightarrow> Inr (if f_required f then ZMin ZStrings 1 (f_label f @ '' is required'') else ZOptional ZStrings)
        | FNumber \<Rightarrow>
            bind_r (when_some (v_min (f_validation f)) (\<lambda>n. call_min n (message_or f (''Value cannot be less than '' @ rat_text n))) ZNumber)
              (when_some (v_max (f_validation f)) (\<lambda>n. call_max n (message_or f (''Value cannot be greater than '' @ rat_text n))))
        | FCheckbox \<Rightarrow> Inr ZBoolean | FSwitch \<Rightarrow> Inr ZBoolean
        | FTag \<Rightarrow> Inr ZStrings
        | _ \<Rightarrow> Inr ZString))"

definition required_schema :: "form_field \<Rightarrow> zschema \<Rightarrow> zschema res" where
  "required_schema f z =
     (let msg = message_or f (f_label f @ '' is required'') in
      if \<not> f_required f then Inr (ZOptional z)
      else if f_type f = FCheckbox then Inr (ZRefineTrue z msg)
      else call_min 1 msg z)"

definition text_rules :: "form_field \<Rightarrow> zschema \<Rightarrow> zschema res" where
  "text_rules f z =
     (if f_type f \<notin> {FNumber, FCheckbox, FSwitch, FCustom, FTag} \<and> f_required f
      then bind_r (when_some (v_minLength (f_validation f)) (\<lambda>n. call_min n (message_or f (''Enter at least '' @ rat_text n @ '' characters''))) z) (\<lambda>z1.
           bind_r (when_some (v_maxLength (f_validation f)) (\<lambda>n. call_max n (message_or f (''Enter up to '' @ rat_text n @ '' characters''))) z1)
             (when_some (v_pattern (f_validation f)) (\<lambda>p. call_regex p (message_or f ''Invalid input format''))))
      else Inr z)"

definition field_schema :: "form_field \<Rightarrow> zschema res" where
  "field_schema f = bind_r (base_schema f) (\<lambda>z. bind_r (required_schema f z) (text_rules f))"

datatype schema_tree = SLeaf zschema | SNode "(string \<times> schema_tree) list"

fun put_schema :: "string list \<Rightarrow> zschema \<Rightarrow> schema_tree \<Rightarrow> schema_tree" where
  \<comment> \<open>a property that is set on a schema is not part of it\<close>
  "put_schema [] z t = t"
| "put_schema (k # ks) z (SLeaf y) = SLeaf y"
| "put_schema (k # ks) z (SNode ob) =
     (if ks = [] then SNode (obj_put k (SLeaf z) ob)
      else SNode (obj_put k (put_schema ks z (case map_of ob k of None \<Rightarrow> SNode [] | Some t \<Rightarrow> t)) ob))"

fun build_schema :: "schema_tree \<Rightarrow> zschema" where
  "build_schema (SLeaf z) = z"
| "build_schema (SNode ob) = ZObject (map (\<lambda>(k, t). (k, build_schema t)) ob)"

fun collect_schemas :: "form_field list \<Rightarrow> zschema obj \<Rightarrow> (string \<times> schema_tree) list \<Rightarrow> (zschema obj \<times> (string \<times> schema_tree) list) res" where
  \<comment> \<open>\<open>schema\<close> and \<open>nestedSchemas\<close>\<close>
  "collect_schemas [] flat nested = Inr (flat, nested)"
| "collect_schemas (f # fs) flat nested =
     bind_r (field_schema f) (\<lambda>z.
       case field_path f of
         k # k2 # ks \<Rightarrow> collect_schemas fs flat (obj_put k (put_schema (k2 # ks) z (case map_of nested k of None \<Rightarrow> SNode [] | Some t \<Rightarrow> t)) nested)
       | _ \<Rightarrow> collect_schemas fs (obj_put (f_name f) z flat) nested)"

definition generateSchema :: "form_field list \<Rightarrow> zschema res" where
  "generateSchema fs =
     bind_r (collect_schemas fs [] []) (\<lambda>(flat, nested).
       Inr (ZObject (obj_assign flat (map (\<lambda>(k, t). (k, build_schema t)) nested))))"

section \<open>The resolver\<close>

definition rendered :: "jsval \<Rightarrow> form_field \<Rightarrow> bool" where
  "rendered d f = (case f_shouldRender f of None \<Rightarrow> True | Some r \<Rightarrow> r d)"

definition custom_error :: "jsval \<Rightarrow> form_field \<Rightarrow> string option" where
  "custom_error d f =
     (case f_customValidate f of None \<Rightarrow> None
      | Some check \<Rightarrow>
          if getNestedValue d (f_name f) \<noteq> JUndef \<and> rendered d f
          then (case check (getNestedValue d (f_name f)) d of
                  Accepted \<Rightarrow> None
                | Message m \<Rightarrow> Some m
                | Refused \<Rightarrow> Some (message_or f (f_label f @ '' is invalid''))
                | Thrown m \<Rightarrow> Some (case m of None \<Rightarrow> ''Validation failed'' | Some w \<Rightarrow> w))
          else None)"

definition resolver :: "(zschema \<Rightarrow> jsval \<Rightarrow> jsval obj) \<Rightarrow> form_field list \<Rightarrow> jsval \<Rightarrow> (jsval \<times> jsval obj) res" where
  \<comment> \<open>the errors of the zod resolver are an argument; the values and the errors\<close>
  "resolver zod_errors fs d =
     bind_r (generateSchema (filter (rendered d) fs)) (\<lambda>schema.
       let custom = List.map_filter (\<lambda>f. map_option (\<lambda>m. (f_name f, JObj [(''type'', JStr ''custom''), (''message'', JStr m)])) (custom_error d f)) fs;
           errors = map (\<lambda>(k, v). (k, case v of JArr [] \<Rightarrow> JUndef | JArr (x # _) \<Rightarrow> x | _ \<Rightarrow> v)) (obj_assign (zod_errors schema d) custom)
       in Inr (if errors = [] then d else JObj [], errors))"

definition dependents :: "form_field list \<Rightarrow> string \<Rightarrow> string list" where
  \<comment> \<open>the fields that are validated again when the named one changes\<close>
  "dependents fs name = concat (map (\<lambda>f. map (\<lambda>_. f_name f) (filter (\<lambda>d. d = name) (f_dependencies f))) fs)"

definition onFieldUpdate :: "string \<Rightarrow> (form_field \<Rightarrow> form_field) \<Rightarrow> form_field list \<Rightarrow> form_field list" where
  "onFieldUpdate fieldName update fs = map (\<lambda>f. if f_name f = fieldName then update f else f) fs"

section \<open>Reading back what was put\<close>

fun room :: "string list \<Rightarrow> jsval \<Rightarrow> bool" where
  \<comment> \<open>only objects, or nothing yet, are on the way\<close>
  "room [] t = True"
| "room (k # ks) (JObj ob) = (ks = [] \<or> room ks (if truthy (obj_get ob k) then obj_get ob k else JObj []))"
| "room (k # ks) _ = False"

lemma room_empty: "room p (JObj [])"
  by (induction p) auto

lemma get_nested_undef [simp]: "get_nested JUndef p = JUndef"
  by (induction p) auto

lemma get_nested_falsy: "\<not> truthy v \<Longrightarrow> p \<noteq> [] \<Longrightarrow> get_nested v p = JUndef"
  by (cases p) auto

lemma get_nested_empty: "p \<noteq> [] \<Longrightarrow> get_nested (JObj []) p = JUndef"
  by (cases p) auto

lemma put_nested_same:
  "p \<noteq> [] \<Longrightarrow> room p t \<Longrightarrow> \<exists>t'. put_nested p v t = Inr t' \<and> get_nested t' p = v \<and> truthy t'"
proof (induction p arbitrary: t)
  case (Cons k ks)
  then obtain ob where t: "t = JObj ob" by (cases t) auto
  show ?case
  proof (cases "ks = []")
    case False
    then obtain w where "put_nested ks v (if truthy (obj_get ob k) then obj_get ob k else JObj []) = Inr w" "get_nested w ks = v"
      using Cons t by fastforce
    then show ?thesis using t False by (simp add: obj_get_put)
  qed (simp add: t obj_get_put)
qed simp

abbreviation apart :: "string list \<Rightarrow> string list \<Rightarrow> bool" where
  "apart p q \<equiv> \<not> prefix p q \<and> \<not> prefix q p"

lemma put_nested_other:
  "apart p q \<Longrightarrow> put_nested p v t = Inr t' \<Longrightarrow> room p t \<Longrightarrow> get_nested t' q = get_nested t q \<and> (room q t \<longrightarrow> room q t')"
proof (induction p arbitrary: q t t')
  case (Cons k ks)
  obtain ob where t: "t = JObj ob" using Cons.prems(3) by (cases t) auto
  obtain j js where q: "q = j # js" using Cons.prems(1) by (cases q) auto
  show ?case
  proof (cases "j = k")
    case False
    then show ?thesis using Cons.prems(2) t q by (auto simp: bind_r_eq_Inr obj_get_put split: if_splits)
  next
    case True
    define c where "c = (if truthy (obj_get ob k) then obj_get ob k else JObj [])"
    have ap: "apart ks js" using Cons.prems(1) q True by simp
    then have ne: "ks \<noteq> []" "js \<noteq> []" by auto
    then obtain w where w: "put_nested ks v c = Inr w" "t' = JObj (obj_put k w ob)"
      using Cons.prems(2) t by (auto simp: bind_r_eq_Inr c_def)
    have rc: "room ks c" using Cons.prems(3) t ne by (simp add: c_def)
    have ih: "get_nested w js = get_nested c js" "room js c \<longrightarrow> room js w" using Cons.IH [OF ap w(1) rc] by auto
    have "truthy w" using put_nested_same [OF ne(1) rc, of v] w(1) by auto
    moreover have "get_nested c js = get_nested (obj_get ob k) js"
      using ne(2) by (simp add: c_def get_nested_falsy get_nested_empty)
    ultimately show ?thesis using ih w(2) t q True ne by (auto simp: obj_get_put c_def)
  qed
qed simp

definition fields_apart :: "form_field list \<Rightarrow> bool" where
  "fields_apart fs = sorted_wrt (\<lambda>f g. apart (field_path f) (field_path g)) fs"

lemma field_path_nonempty [simp]: "field_path f \<noteq> []"
  by (simp add: field_path_def js_split_nonempty)

text \<open>Putting values for some of the fields, as both functions do.\<close>

fun put_all :: "(form_field \<Rightarrow> bool) \<Rightarrow> (form_field \<Rightarrow> jsval) \<Rightarrow> form_field list \<Rightarrow> jsval \<Rightarrow> jsval res" where
  "put_all P val [] t = Inr t"
| "put_all P val (f # fs) t =
     (if P f then bind_r (put_nested (field_path f) (val f) t) (put_all P val fs) else put_all P val fs t)"

lemma put_all_result:
  assumes "fields_apart fs" and "\<forall>f\<in>set fs. room (field_path f) t"
  shows "\<exists>d. put_all P val fs t = Inr d
     \<and> (\<forall>f\<in>set fs. get_nested d (field_path f) = (if P f then val f else get_nested t (field_path f)))
     \<and> (\<forall>q. (\<forall>f\<in>set fs. apart (field_path f) q) \<longrightarrow> get_nested d q = get_nested t q)"
  using assms
proof (induction fs arbitrary: t)
  case (Cons f fs)
  have ap: "fields_apart fs" "\<forall>g\<in>set fs. apart (field_path f) (field_path g)" using Cons.prems(1) by (auto simp: fields_apart_def)
  show ?case
  proof (cases "P f")
    case True
    obtain t' where t': "put_nested (field_path f) (val f) t = Inr t'" "get_nested t' (field_path f) = val f"
      using put_nested_same [of "field_path f" t "val f"] Cons.prems(2) by auto
    have room: "room (field_path f) t" using Cons.prems(2) by simp
    note other = put_nested_other [OF _ t'(1) room]
    obtain d where d: "put_all P val fs t' = Inr d"
      "\<forall>g\<in>set fs. get_nested d (field_path g) = (if P g then val g else get_nested t' (field_path g))"
      "\<forall>q. (\<forall>g\<in>set fs. apart (field_path g) q) \<longrightarrow> get_nested d q = get_nested t' q"
      using Cons.IH [OF ap(1), of t'] other ap(2) Cons.prems(2) by auto
    have "get_nested d (field_path f) = val f" using d(3) ap(2) t'(2) by auto
    then show ?thesis using True t'(1) d other ap(2) by auto
  next
    case False
    obtain d where d: "put_all P val fs t = Inr d"
      "\<forall>g\<in>set fs. get_nested d (field_path g) = (if P g then val g else get_nested t (field_path g))"
      "\<forall>q. (\<forall>g\<in>set fs. apart (field_path g) q) \<longrightarrow> get_nested d q = get_nested t q"
      using Cons.IH [OF ap(1), of t] Cons.prems(2) by auto
    then show ?thesis using False ap(2) by auto
  qed
qed simp

lemma put_defaults_all: "put_defaults fs t = put_all (\<lambda>_. True) default_of fs t"
  by (induction fs arbitrary: t) (auto intro!: bind_r_cong)

lemma put_active_all:
  "put_active fs d t = put_all (\<lambda>f. submitted d f \<and> get_nested d (field_path f) \<noteq> JUndef) (\<lambda>f. get_nested d (field_path f)) fs t"
  by (induction fs arbitrary: t) (auto intro!: bind_r_cong)

text \<open>
  C38: a generated form starts with the default of every field and submits what was entered. For fields whose names are
  apart, no one a part of another's path, the default values exist and give every field its default; and the submitted
  values give every field that is submitted its value, whatever it is, and contain nothing for the others.
\<close>

theorem dynamic_form_values_exact:
  assumes "fields_apart fs"
  shows "\<exists>d out. generateDefaultValues fs = Inr d \<and> filterActiveValues fs vals = Inr out
     \<and> (\<forall>f\<in>set fs. getNestedValue d (f_name f) = default_of f
          \<and> getNestedValue out (f_name f) = (if submitted vals f then getNestedValue vals (f_name f) else JUndef))"
proof -
  have start: "\<forall>f\<in>set fs. room (field_path f) (JObj [])" by (simp add: room_empty)
  obtain d where "put_defaults fs (JObj []) = Inr d" "\<forall>f\<in>set fs. get_nested d (field_path f) = default_of f"
    using put_all_result [OF assms start, of "\<lambda>_. True" default_of] by (auto simp: put_defaults_all)
  moreover obtain out where "put_active fs vals (JObj []) = Inr out"
    "\<forall>f\<in>set fs. get_nested out (field_path f)
       = (if submitted vals f \<and> get_nested vals (field_path f) \<noteq> JUndef then get_nested vals (field_path f) else JUndef)"
    using put_all_result [OF assms start, of "\<lambda>f. submitted vals f \<and> get_nested vals (field_path f) \<noteq> JUndef" "\<lambda>f. get_nested vals (field_path f)"]
    by (auto simp: put_active_all get_nested_empty)
  ultimately show ?thesis
    by (auto simp: generateDefaultValues_def filterActiveValues_def getNestedValue_def field_path_def)
qed

definition plain_field :: "string \<Rightarrow> FormFieldType \<Rightarrow> form_field" where
  "plain_field name t = \<lparr>f_name = name, f_label = name, f_type = t, f_required = True, f_default = JUndef,
     f_validation = \<lparr>v_pattern = None, v_minLength = None, v_maxLength = None, v_min = None, v_max = None, v_message = []\<rparr>,
     f_schema = None, f_dependencies = [], f_shouldRender = None, f_customValidate = None\<rparr>"

theorem dynamic_form_values_exact_witness:
  "\<exists>d out. generateDefaultValues [plain_field ''config.url'' FText, plain_field ''config.on'' FSwitch] = Inr d
     \<and> filterActiveValues [plain_field ''config.url'' FText, plain_field ''config.on'' FSwitch]
         (JObj [(''config'', JObj [(''url'', JStr ''x''), (''on'', JBool False)]), (''other'', JNull)]) = Inr out
     \<and> getNestedValue d ''config.on'' = JBool False \<and> getNestedValue out ''config.on'' = JBool False \<and> getNestedValue out ''config.url'' = JStr ''x''"
proof -
  let ?fs = "[plain_field ''config.url'' FText, plain_field ''config.on'' FSwitch]"
  let ?v = "JObj [(''config'', JObj [(''url'', JStr ''x''), (''on'', JBool False)]), (''other'', JNull)]"
  have apart: "fields_apart ?fs" by code_simp
  have "default_of (plain_field ''config.on'' FSwitch) = JBool False" "getNestedValue ?v ''config.on'' = JBool False"
    "getNestedValue ?v ''config.url'' = JStr ''x''" by code_simp+
  moreover have "submitted ?v f" if "f \<in> set ?fs" for f using that by (auto simp: submitted_def plain_field_def)
  ultimately show ?thesis using dynamic_form_values_exact [OF apart, of ?v] by (force simp: plain_field_def)
qed

section \<open>What does not work\<close>

text \<open>A static field that is always rendered is submitted, although its name says that it is not.\<close>

theorem static_field_submitted:
  "f_shouldRender f = None \<Longrightarrow> includes_str (f_name f) FilterFormField \<Longrightarrow> submitted vals f"
  by (simp add: submitted_def)

text \<open>
  A required field of type switch breaks the form: whenever such a field is shown, the schema cannot be built and
  the validation ends in an exception, whatever was entered.
\<close>

theorem required_switch_breaks_form:
  "f_type f = FSwitch \<and> f_required f \<and> f_schema f = None \<and> rendered d f \<and> f \<in> set fs \<longrightarrow>
     (\<exists>e. resolver zod_errors fs d = Inl e)"
proof
  assume f: "f_type f = FSwitch \<and> f_required f \<and> f_schema f = None \<and> rendered d f \<and> f \<in> set fs"
  have bad: "field_schema f = Inl TypeError" using f by (simp add: field_schema_def base_schema_def required_schema_def call_min_def)
  have "\<exists>e. collect_schemas gs flat nested = Inl e" if "f \<in> set gs" for gs flat nested
    using that
  proof (induction gs arbitrary: flat nested)
    case (Cons g gs)
    show ?case
    proof (cases "field_schema g")
      case (Inr z)
      then have "f \<in> set gs" using Cons.prems bad by auto
      then show ?thesis using Cons.IH Inr by (auto split: list.splits)
    qed simp
  qed simp
  then have "\<exists>e. collect_schemas (filter (rendered d) fs) [] [] = Inl e" using f by simp
  then show "\<exists>e. resolver zod_errors fs d = Inl e" by (auto simp: resolver_def generateSchema_def)
qed

theorem required_switch_breaks_form_witness:
  "\<exists>e. resolver (\<lambda>_ _. []) [plain_field ''on'' FSwitch] (JObj [(''on'', JBool True)]) = Inl e"
  using required_switch_breaks_form [of "plain_field ''on'' FSwitch" "JObj [(''on'', JBool True)]" "[plain_field ''on'' FSwitch]" "\<lambda>_ _. []"]
  by (simp add: plain_field_def rendered_def)

text \<open>A required number gets the rule that is meant for texts: it has to be at least one.\<close>

theorem required_number_at_least_one:
  "field_schema (plain_field n FNumber) = Inr (ZMin ZNumber 1 (n @ '' is required''))"
  by (simp add: plain_field_def field_schema_def base_schema_def required_schema_def text_rules_def call_min_def when_some_def message_or_def)

text \<open>A selection of several values starts with a text instead of a list when its name is a path.\<close>

theorem nested_multi_select_default:
  "default_of (plain_field ''a.b'' FMultiSelect) = JStr [] \<and> default_of (plain_field ''b'' FMultiSelect) = JArr []"
  by (simp add: plain_field_def default_of_def)

end
