(* ===== verification/Format_Utils.thy ===== *)
theory Format_Utils
  imports Js_Prelude "HOL-Library.Word"
begin

text \<open>
  Numbers and bytes as texts: \<open>formatBytes\<close> of \<open>utils/file-util.ts\<close>, \<open>formatFileSize\<close>, \<open>hexStringToUint8Array\<close> and
  \<open>middleEllipsis\<close> of \<open>utils/common-util.ts\<close>, \<open>formatSecondsToHumanReadable\<close> of \<open>utils/date.ts\<close>, and the method
  \<open>toFixed\<close> of numbers. Quotients are exact: a division by a power of two does not round, and a division by a thousand is
  off by less than the digits that are shown.
\<close>

section \<open>Fixed decimals\<close>

definition round_at :: "nat \<Rightarrow> rat \<Rightarrow> nat" where
  \<comment> \<open>the integer \<open>n\<close> for which \<open>n / 10^f\<close> is closest to a number that is not negative, the larger one of two\<close>
  "round_at f q = nat \<lfloor>q * 10 ^ f + 1 / 2\<rfloor>"

definition with_point :: "nat \<Rightarrow> string \<Rightarrow> string" where
  "with_point f s =
     (if f = 0 then s
      else let p = replicate (Suc f - length s) CHR ''0'' @ s in take (length p - f) p @ ''.'' @ drop (length p - f) p)"

definition to_fixed :: "nat \<Rightarrow> rat \<Rightarrow> string" where
  \<comment> \<open>\<open>q.toFixed(f)\<close> for numbers below \<open>10^21\<close>\<close>
  "to_fixed f q = (if q < 0 then CHR ''-'' # with_point f (nat_to_string (round_at f (- q))) else with_point f (nat_to_string (round_at f q)))"

definition num_fixed :: "nat \<Rightarrow> jsnum \<Rightarrow> string" where
  "num_fixed f n = (case n of Fin q \<Rightarrow> to_fixed f q | _ \<Rightarrow> num_to_string n)"

section \<open>Sizes\<close>

definition parse_int :: "string \<Rightarrow> jsnum" where
  \<comment> \<open>\<open>parseInt(s, 10)\<close>\<close>
  "parse_int s =
     (let t = dropWhile is_space s;
          neg = (t \<noteq> [] \<and> hd t = CHR ''-'');
          body = (if t \<noteq> [] \<and> (hd t = CHR ''-'' \<or> hd t = CHR ''+'') then tl t else t);
          ds = takeWhile is_digit body
      in if ds = [] then NaN else int_num (if neg then - int (dec_val ds) else int (dec_val ds)))"

definition Units :: "string list" where
  "Units = [''bytes'', ''KB'', ''MB'', ''GB'', ''TB'', ''PB'', ''EB'', ''ZB'', ''YB'']"

definition size_number :: "jsval \<Rightarrow> jsnum" where
  \<comment> \<open>\<open>(typeof x === 'string' ? parseInt(x, 10) : x) || 0\<close>\<close>
  "size_number x =
     (let n = (case x of JStr s \<Rightarrow> parse_int s | JNum m \<Rightarrow> m | _ \<Rightarrow> NaN) in if n = NaN then Fin 0 else n)"

partial_function (option) scale_bytes :: "nat \<Rightarrow> jsnum \<Rightarrow> (nat \<times> jsnum) option" where
  \<comment> \<open>\<open>while (n >= 1024 && ++l)\<close>; the value \<open>None\<close> is a loop that does not end\<close>
  "scale_bytes l n =
     (if n \<noteq> NaN \<and> Fin 1024 \<le> n then scale_bytes (Suc l) (num_div n 1024) else Some (l, n))"

definition formatBytes :: "jsval \<Rightarrow> string option" where
  "formatBytes x =
     (case scale_bytes 0 (size_number x) of
        None \<Rightarrow> None
      | Some (l, n) \<Rightarrow>
          Some (num_fixed (if n < Fin 10 \<and> l > 0 then 1 else 0) n @ '' '' @
            (if l < length Units then Units ! l else ''undefined'')))"

definition file_units :: "bool \<Rightarrow> string list" where
  "file_units si =
     (if si then [''kB'', ''MB'', ''GB'', ''TB'', ''PB'', ''EB'', ''ZB'', ''YB'']
      else [''KiB'', ''MiB'', ''GiB'', ''TiB'', ''PiB'', ''EiB'', ''ZiB'', ''YiB''])"

definition rounded :: "nat \<Rightarrow> rat \<Rightarrow> rat" where
  \<comment> \<open>\<open>Math.round(Math.abs(n) * r) / r\<close> with \<open>r = 10 ** dp\<close>\<close>
  "rounded dp q = of_int \<lfloor>\<bar>q\<bar> * 10 ^ dp + 1 / 2\<rfloor> / 10 ^ dp"

function scale_file :: "rat \<Rightarrow> nat \<Rightarrow> nat \<Rightarrow> rat \<Rightarrow> nat \<times> rat" where
  \<comment> \<open>the loop, with the index of the unit and the number after the first division\<close>
  "scale_file thresh dp u q =
     (if rounded dp q \<ge> thresh \<and> u < 7 then scale_file thresh dp (Suc u) (q / thresh) else (u, q))"
  by pat_completeness auto

termination
  by (relation "measure (\<lambda>(_, _, u, _). 7 - u)") auto

declare scale_file.simps [simp del]

definition formatFileSize :: "bool \<Rightarrow> nat \<Rightarrow> rat \<Rightarrow> string" where
  "formatFileSize si dp bytes =
     (let thresh = (if si then 1000 else 1024) in
      if \<bar>bytes\<bar> < thresh then num_to_string (Fin bytes) @ '' B''
      else let (u, q) = scale_file thresh dp 0 (bytes / thresh) in to_fixed dp q @ '' '' @ file_units si ! u)"

section \<open>Durations\<close>

definition strip_zeros :: "string \<Rightarrow> string" where
  \<comment> \<open>\<open>replace(/\.?0+$/, '')\<close> on a text with a decimal point\<close>
  "strip_zeros s =
     (let r = rev s; t = dropWhile (\<lambda>c. c = CHR ''0'') r in
      if t = r then s else rev (if t \<noteq> [] \<and> hd t = CHR ''.'' then tl t else t))"

definition rat_mod :: "rat \<Rightarrow> rat \<Rightarrow> rat" where
  \<comment> \<open>\<open>a % b\<close> for numbers that are not negative\<close>
  "rat_mod a b = a - of_int \<lfloor>a / b\<rfloor> * b"

definition formatSecondsToHumanReadable :: "jsnum \<Rightarrow> string" where
  "formatSecondsToHumanReadable seconds =
     (case seconds of
        NaN \<Rightarrow> ''0s'' | NInf \<Rightarrow> ''0s'' | PInf \<Rightarrow> ''Infinityh ''
      | Fin q \<Rightarrow>
          if q < 0 then ''0s''
          else let h = \<lfloor>q / 3600\<rfloor>; m = \<lfloor>rat_mod q 3600 / 60\<rfloor>; s = rat_mod q 60;
                   formattedSeconds = (if s = 0 then ''0'' else strip_zeros (to_fixed 3 s));
                   parts = (if h > 0 then [int_to_string h @ ''h ''] else []) @ (if m > 0 then [int_to_string m @ ''m ''] else [])
               in concat (parts @ (if s \<noteq> 0 \<or> parts = [] then [formattedSeconds @ ''s''] else [])))"

section \<open>Bytes\<close>

definition hex_digit :: "char \<Rightarrow> bool" where
  "hex_digit c = (radix_digit 16 c \<noteq> None)"

fun hex_pairs :: "string \<Rightarrow> string list" where
  \<comment> \<open>\<open>hex.match(/[\da-f]{2}/gi)\<close>, the empty list for \<open>null\<close>\<close>
  "hex_pairs (a # b # r) = (if hex_digit a \<and> hex_digit b then [a, b] # hex_pairs r else hex_pairs (b # r))"
| "hex_pairs _ = []"

definition byte_of :: "string \<Rightarrow> 8 word" where
  \<comment> \<open>\<open>parseInt(h, 16)\<close> as an element of a \<open>Uint8Array\<close>\<close>
  "byte_of h = (case radix_val 16 0 h of None \<Rightarrow> 0 | Some n \<Rightarrow> of_nat n)"

definition hexStringToUint8Array :: "string \<Rightarrow> 8 word list option" where
  "hexStringToUint8Array hex = (case hex_pairs hex of [] \<Rightarrow> None | arr \<Rightarrow> Some (map byte_of arr))"

definition middleEllipsis :: "string \<Rightarrow> nat \<Rightarrow> nat \<Rightarrow> string \<times> string option" where
  \<comment> \<open>the text, or what stands before and after the ellipsis; \<open>back\<close> is positive\<close>
  "middleEllipsis str front back =
     (if length str \<le> front + back then (str, None) else (take front str, Some (drop (length str - back) str)))"

section \<open>What is shown\<close>

subsection \<open>Reading a fixed decimal back\<close>

lemma dec_val_zeros: "dec_val (replicate k CHR ''0'' @ ds) = dec_val ds"
  by (induction k) (simp_all add: dec_val_def digit_val_def)

definition number_char :: "char \<Rightarrow> bool" where
  "number_char c = (is_digit c \<or> c = CHR ''.'')"

lemma number_char_other:
  "number_char c \<Longrightarrow> \<not> is_space c \<and> c \<noteq> CHR ''x'' \<and> c \<noteq> CHR ''X'' \<and> c \<noteq> CHR ''o'' \<and> c \<noteq> CHR ''O''
     \<and> c \<noteq> CHR ''b'' \<and> c \<noteq> CHR ''B'' \<and> c \<noteq> CHR ''-'' \<and> c \<noteq> CHR ''+'' \<and> c \<noteq> CHR ''I''"
  using digit_not_letter [of c] digit_not_space [of c] by (auto simp: number_char_def is_space_def)

lemma num_of_string_unsigned:
  assumes "s \<noteq> []" and "list_all number_char s"
  shows "num_of_string s = parse_unsigned s"
proof -
  obtain c cs where s: "s = c # cs" using assms(1) by (cases s) auto
  have trim: "js_trim s = s"
    using assms(2) by (auto intro!: js_trim_no_space simp: list_all_iff dest: number_char_other)
  have two: "\<And>d e. take 2 s = [d, e] \<Longrightarrow> number_char e"
    using assms(2) s by (cases cs) auto
  have "take 2 s \<noteq> ''0x'' \<and> take 2 s \<noteq> ''0X'' \<and> take 2 s \<noteq> ''0o'' \<and> take 2 s \<noteq> ''0O''
      \<and> take 2 s \<noteq> ''0b'' \<and> take 2 s \<noteq> ''0B''"
    using two number_char_other by blast
  moreover have "parse_signed s = parse_unsigned s"
    using assms s number_char_other [of c] by (auto simp: parse_signed_def Let_def)
  ultimately show ?thesis using assms(1) trim by (simp add: num_of_string_def Let_def)
qed

lemma parse_unsigned_point:
  assumes "list_all is_digit ip" and "list_all is_digit fp" and "ip \<noteq> []"
  shows "parse_unsigned (ip @ CHR ''.'' # fp) = Fin (of_nat (dec_val (ip @ fp)) / 10 ^ length fp)"
proof -
  have "\<not> is_digit (CHR ''.'')" by (simp add: is_digit_def less_eq_char_def)
  then have "takeWhile is_digit (ip @ CHR ''.'' # fp) = ip" "dropWhile is_digit (ip @ CHR ''.'' # fp) = CHR ''.'' # fp"
    using assms(1) by (simp_all add: list_all_iff takeWhile_append2 dropWhile_append2)
  then show ?thesis using assms by (simp add: parse_unsigned_def Let_def takeWhile_all dropWhile_all)
qed

lemma list_all_take_drop: "list_all P xs \<Longrightarrow> list_all P (take k xs) \<and> list_all P (drop k xs)"
  by (auto simp: list_all_iff dest: in_set_takeD in_set_dropD)

lemma zero_is_digit: "is_digit CHR ''0''"
  by (simp add: is_digit_def)

lemma with_point_value:
  assumes "ds \<noteq> []" and "list_all is_digit ds"
  shows "num_of_string (with_point f ds) = Fin (of_nat (dec_val ds) / 10 ^ f)"
proof (cases "f = 0")
  case True
  then show ?thesis using num_of_string_digits [OF assms] by (simp add: with_point_def)
next
  case False
  define p where "p = replicate (Suc f - length ds) CHR ''0'' @ ds"
  define a where "a = take (length p - f) p"
  define b where "b = drop (length p - f) p"
  have p: "list_all is_digit p" using assms(2) zero_is_digit by (auto simp: p_def list_all_iff)
  have len: "length p \<ge> Suc f" by (simp add: p_def)
  have ab: "list_all is_digit a" "list_all is_digit b" "a \<noteq> []" "length b = f" "a @ b = p"
    using list_all_take_drop [OF p] len by (auto simp: a_def b_def)
  have w: "with_point f ds = a @ CHR ''.'' # b"
    using False by (simp add: with_point_def a_def b_def p_def Let_def)
  moreover have "num_of_string (a @ CHR ''.'' # b) = parse_unsigned (a @ CHR ''.'' # b)"
    by (rule num_of_string_unsigned) (use ab(1,2) in \<open>auto simp: list_all_iff number_char_def\<close>)
  ultimately show ?thesis
    using parse_unsigned_point [OF ab(1,2,3)] ab(4,5) by (simp add: p_def dec_val_zeros)
qed

lemma to_fixed_value: "0 \<le> q \<Longrightarrow> num_of_string (to_fixed f q) = Fin (of_nat (round_at f q) / 10 ^ f)"
  using with_point_value [OF nat_to_string_nonempty nat_to_string_digits, of f "round_at f q"]
  by (simp add: to_fixed_def dec_val_nat_to_string)

lemma round_at_near:
  assumes "0 \<le> q"
  shows "\<bar>of_nat (round_at f q) / 10 ^ f - q\<bar> \<le> 1 / (2 * 10 ^ f)"
proof -
  have n: "of_nat (round_at f q) = (of_int \<lfloor>q * 10 ^ f + 1 / 2\<rfloor> :: rat)"
    using assms by (simp add: round_at_def of_nat_nat)
  have "\<bar>of_int \<lfloor>q * 10 ^ f + 1 / 2\<rfloor> - q * 10 ^ f\<bar> \<le> (1 / 2 :: rat)"
    by linarith
  then have "\<bar>of_nat (round_at f q) - q * 10 ^ f\<bar> / 10 ^ f \<le> (1 / 2) / 10 ^ f"
    unfolding n by (intro divide_right_mono) simp_all
  moreover have "\<bar>of_nat (round_at f q) - q * 10 ^ f\<bar> / 10 ^ f = \<bar>of_nat (round_at f q) / 10 ^ f - q\<bar>"
    by (simp add: abs_div_pos diff_divide_distrib)
  ultimately show ?thesis by simp
qed

subsection \<open>Sizes of files\<close>

lemma scale_bytes_finite:
  assumes "l = 0 \<or> 1024 ^ l \<le> q" and "q < 1024 ^ Suc l"
  shows "scale_bytes k (Fin q) = Some (k + l, Fin (q / 1024 ^ l))"
  using assms
proof (induction l arbitrary: k q)
  case 0
  then show ?case by (simp add: scale_bytes.simps)
next
  case (Suc l)
  have ge: "1024 ^ Suc l \<le> q" using Suc.prems(1) by simp
  moreover have "(1024 :: rat) \<le> 1024 ^ Suc l" by simp
  ultimately have "1024 \<le> q" by linarith
  then have "scale_bytes k (Fin q) = scale_bytes (Suc k) (Fin (q / 1024))"
    by (subst scale_bytes.simps) (simp add: num_div_def)
  also have "\<dots> = Some (Suc k + l, Fin (q / 1024 / 1024 ^ l))"
    using Suc.prems ge by (intro Suc.IH) (simp_all add: field_simps)
  finally show ?case by simp
qed

lemma scale_bytes_result: "scale_bytes k n = Some r \<Longrightarrow> n \<noteq> PInf"
  by (rule scale_bytes.raw_induct [where P = "\<lambda>_ n _. n \<noteq> PInf"]) (fastforce simp: num_div_def split: if_splits)+

lemma scale_bytes_ends:
  fixes q :: rat
  assumes "0 \<le> q"
  shows "\<exists>l. (l = 0 \<or> 1024 ^ l \<le> q) \<and> q < 1024 ^ Suc l"
proof -
  obtain k :: nat where "q < of_nat k" using reals_Archimedean2 by blast
  also have "(of_nat k :: rat) < 2 ^ k" by (rule of_nat_less_two_power)
  also have "(2 :: rat) ^ k \<le> 1024 ^ k" by (rule power_mono) simp_all
  also have "(1024 :: rat) ^ k \<le> 1024 ^ Suc k" by simp
  finally have n: "\<exists>n. q < 1024 ^ Suc n" by blast
  define l where "l = (LEAST n. q < 1024 ^ Suc n)"
  have "q < 1024 ^ Suc l" unfolding l_def using n by (rule LeastI_ex)
  moreover have "l = 0 \<or> 1024 ^ l \<le> q"
  proof (cases l)
    case (Suc k)
    then have "\<not> q < 1024 ^ Suc k" using not_less_Least [of k "\<lambda>n. q < 1024 ^ Suc n"] unfolding l_def by simp
    then show ?thesis using Suc by (simp add: not_less)
  qed simp
  ultimately show ?thesis by blast
qed

lemma formatBytes_infinite: "formatBytes (JNum PInf) = None"
  using scale_bytes_result [of 0 PInf] by (cases "scale_bytes 0 PInf") (auto simp: formatBytes_def size_number_def)

lemma formatBytes_finite:
  assumes "l = 0 \<or> 1024 ^ l \<le> q" and "q < 1024 ^ Suc l"
  shows "formatBytes (JNum (Fin q)) =
    Some (to_fixed (if q < 10 * 1024 ^ l \<and> l > 0 then 1 else 0) (q / 1024 ^ l) @ '' '' @ (if l < length Units then Units ! l else ''undefined''))"
  using scale_bytes_finite [OF assms, of 0] by (simp add: formatBytes_def size_number_def num_fixed_def field_simps)

text \<open>
  A size is shown in the largest unit in which it is at least one, and what is shown is off by at most half of its
  last digit: a tenth below ten units, one unit otherwise. The unit exists up to \<open>2^90\<close> bytes, and every size that is a
  finite number is shown.
\<close>

theorem formatBytes_accurate:
  assumes "0 \<le> q" and "q < 1024 ^ 9"
  shows "\<exists>l v r. formatBytes (JNum (Fin q)) = Some (v @ '' '' @ Units ! l) \<and> l < length Units
    \<and> (l = 0 \<or> 1024 ^ l \<le> q) \<and> q < 1024 ^ Suc l
    \<and> num_of_string v = Fin r \<and> \<bar>r * 1024 ^ l - q\<bar> \<le> 1024 ^ l / (if q < 10 * 1024 ^ l \<and> l > 0 then 20 else 2)"
proof -
  obtain l where l: "l = 0 \<or> 1024 ^ l \<le> q" "q < 1024 ^ Suc l" using scale_bytes_ends [OF assms(1)] by blast
  have "l < 9"
  proof (rule ccontr)
    assume "\<not> l < 9"
    then have "(1024 :: rat) ^ 9 \<le> 1024 ^ l" by (intro power_increasing) simp_all
    then show False using l(1) assms(2) \<open>\<not> l < 9\<close> by auto
  qed
  define f :: nat where "f = (if q < 10 * 1024 ^ l \<and> l > 0 then 1 else 0)"
  define r where "r = (of_nat (round_at f (q / 1024 ^ l)) / 10 ^ f :: rat)"
  have pos: "0 \<le> q / 1024 ^ l" using assms(1) by simp
  have "\<bar>r - q / 1024 ^ l\<bar> \<le> 1 / (2 * 10 ^ f)" unfolding r_def by (rule round_at_near [OF pos])
  then have "\<bar>r - q / 1024 ^ l\<bar> * 1024 ^ l \<le> 1 / (2 * 10 ^ f) * 1024 ^ l" by (intro mult_right_mono) simp_all
  moreover have "\<bar>r - q / 1024 ^ l\<bar> * 1024 ^ l = \<bar>r * 1024 ^ l - q\<bar>"
    using abs_mult_pos [of "1024 ^ l" "r - q / 1024 ^ l"] by (simp add: algebra_simps)
  ultimately have "\<bar>r * 1024 ^ l - q\<bar> \<le> 1024 ^ l / (if q < 10 * 1024 ^ l \<and> l > 0 then 20 else 2)"
    by (cases "q < 10 * 1024 ^ l \<and> l > 0") (simp_all only: f_def if_True if_False power_0 power_one_right mult_1_right, simp_all)
  moreover have "num_of_string (to_fixed f (q / 1024 ^ l)) = Fin r" unfolding r_def by (rule to_fixed_value [OF pos])
  ultimately show ?thesis
    using formatBytes_finite [OF l] l \<open>l < 9\<close> by (intro exI [of _ l] exI [of _ "to_fixed f (q / 1024 ^ l)"] exI [of _ r]) (simp add: f_def Units_def)
qed

theorem formatBytes_accurate_witness:
  "\<exists>l v r. formatBytes (JNum (Fin 1536)) = Some (v @ '' '' @ Units ! l) \<and> l < length Units
    \<and> (l = 0 \<or> 1024 ^ l \<le> (1536 :: rat)) \<and> (1536 :: rat) < 1024 ^ Suc l
    \<and> num_of_string v = Fin r \<and> \<bar>r * 1024 ^ l - 1536\<bar> \<le> 1024 ^ l / (if (1536 :: rat) < 10 * 1024 ^ l \<and> l > 0 then 20 else 2)"
  by (rule formatBytes_accurate) simp_all

text \<open>Sizes that are not finite keep the loop running, and from \<open>2^90\<close> bytes on there is no unit.\<close>

lemma formatBytes_ends: "0 \<le> q \<Longrightarrow> \<exists>t. formatBytes (JNum (Fin q)) = Some t"
  using scale_bytes_ends formatBytes_finite by blast

lemma scale_file_stops: "scale_file t dp u q = (u', q') \<Longrightarrow> u \<le> 7 \<Longrightarrow> rounded dp q' < t \<or> u' = 7"
proof (induction t dp u q rule: scale_file.induct)
  case (1 thresh dp u q)
  show ?case
    using 1 by (cases "rounded dp q \<ge> thresh \<and> u < 7") (auto simp: scale_file.simps [of thresh dp u q])
qed

lemma scale_file_pos: "scale_file t dp u q = (u', q') \<Longrightarrow> 0 \<le> q \<Longrightarrow> 0 \<le> t \<Longrightarrow> 0 \<le> q'"
  by (induction t dp u q rule: scale_file.induct) (subst (asm) (2) scale_file.simps, auto split: if_splits)

lemma rounded_round_at: "0 \<le> q \<Longrightarrow> rounded dp q = of_nat (round_at dp q) / 10 ^ dp"
  by (simp add: rounded_def round_at_def of_nat_nat)

text \<open>The number before the unit is below the threshold, whatever it is rounded to, except in the largest unit.\<close>

lemma formatFileSize_number:
  fixes n :: nat
  assumes "si \<longrightarrow> 1000 \<le> n" and "\<not> si \<longrightarrow> 1024 \<le> n"
  shows "\<exists>v u r. formatFileSize si dp (of_nat n) = v @ '' '' @ file_units si ! u \<and> num_of_string v = Fin r
    \<and> (r < (if si then 1000 else 1024) \<or> u = 7)"
proof -
  define t :: rat where "t = (if si then 1000 else 1024)"
  have t: "0 \<le> t" "t \<le> of_nat n" using assms by (auto simp: t_def)
  obtain u q where u: "scale_file t dp 0 (of_nat n / t) = (u, q)" by fastforce
  have q: "0 \<le> q" using scale_file_pos [OF u _ t(1)] t(1) by simp
  have "formatFileSize si dp (of_nat n) = to_fixed dp q @ '' '' @ file_units si ! u"
    using u t(2) unfolding formatFileSize_def Let_def t_def [symmetric] by simp
  moreover have "num_of_string (to_fixed dp q) = Fin (rounded dp q)"
    using to_fixed_value [OF q] rounded_round_at [OF q] by simp
  moreover have "rounded dp q < t \<or> u = 7" by (rule scale_file_stops [OF u]) simp
  ultimately show ?thesis by (intro exI [of _ "to_fixed dp q"] exI [of _ u] exI [of _ "rounded dp q"]) (auto simp: t_def)
qed

subsection \<open>Audio\<close>

text \<open>The server sends audio as pairs of lower-case hexadecimal digits.\<close>

definition hex_char :: "nat \<Rightarrow> char" where
  "hex_char d = (if d < 10 then char_of (48 + d) else char_of (87 + d))"

definition hexlify :: "8 word \<Rightarrow> string" where
  "hexlify w = [hex_char (unat w div 16), hex_char (unat w mod 16)]"

lemma radix_digit_hex: "d < 16 \<Longrightarrow> radix_digit 16 (hex_char d) = Some d"
  by (auto simp: radix_digit_def hex_char_def Let_def)

lemma byte_bound: "unat (w :: 8 word) < 256"
  using unsigned_less [of w] by simp

lemma byte_of_hexlify: "byte_of (hexlify w) = w"
proof -
  have "unat w div 16 < 16" using byte_bound [of w] by (simp add: less_mult_imp_div_less)
  then have "radix_val 16 0 (hexlify w) = Some (unat w)"
    by (simp add: hexlify_def radix_digit_hex)
  then show ?thesis by (simp add: byte_of_def)
qed

lemma hex_pairs_hexlify: "hex_pairs (concat (map hexlify ws)) = map hexlify ws"
proof (induction ws)
  case (Cons w ws)
  have "unat w div 16 < 16" using byte_bound [of w] by (simp add: less_mult_imp_div_less)
  then show ?case using Cons by (simp add: hexlify_def hex_digit_def radix_digit_hex)
qed simp

text \<open>The player is fed with the bytes that the server has encoded; only empty audio yields no array.\<close>

theorem audio_bytes_roundtrip:
  "hexStringToUint8Array (concat (map hexlify ws)) = (if ws = [] then None else Some ws)"
proof -
  have "map byte_of (map hexlify ws) = ws" by (simp add: byte_of_hexlify map_idI)
  then show ?thesis unfolding hexStringToUint8Array_def hex_pairs_hexlify by (auto split: list.split)
qed

end
