(* ===== verification/Dataset_Views.thy ===== *)
theory Dataset_Views
  imports Dsl_Correct Format_Utils
begin

text \<open>
  What the dataset pages compute from what they have fetched: the timeline of a pipeline
  (\<open>pages/dataflow-result/hooks.ts\<close>, which follows the components that \<open>Dsl_Builder\<close> writes), the groups of a list filter
  (\<open>utils/list-filter-util.ts\<close>), the communities of the knowledge graph (\<open>pages/dataset/knowledge-graph/util.ts\<close>), tag
  weights (\<open>pages/dataflow-result/utils.ts\<close>), the settings of a parser
  (\<open>components/chunk-method-dialog/use-default-parser-values.ts\<close>) and the scan of a directory
  (\<open>pages/dataset/dataset/use-scan-path.ts\<close>).
\<close>

section \<open>The timeline of a pipeline\<close>

record timeline_node =
  tl_title :: "string option"        \<comment> \<open>\<open>graphNode?.data?.name\<close>\<close>
  tl_clickable :: "bool option"
  tl_id :: nat
  tl_date :: string
  tl_type :: string
  tl_key :: string
  tl_detail :: dsl_component

definition stage_name :: "(string \<Rightarrow> string) \<Rightarrow> dsl_component \<Rightarrow> string" where
  \<comment> \<open>\<open>camelCase\<close> of lodash is an argument\<close>
  "stage_name camel c = (case obj_get (cobj c) ''component_name'' of JStr s \<Rightarrow> camel s | _ \<Rightarrow> [])"

definition stage_type :: "string \<Rightarrow> string \<Rightarrow> string" where
  "stage_type name type =
     (if name = ''parser'' then ''parser''
      else if name = ''tokenizer'' then ''tokenizer''
      else if name = ''splitter'' \<or> name = ''hierarchicalMerger'' then ''splitter''
      else type)"

definition stage_clickable :: "string \<Rightarrow> bool option" where
  \<comment> \<open>\<open>TimelineNodeObj[name].clickable\<close>\<close>
  "stage_clickable name = (if name = ''file'' \<or> name = ''tokenizer'' then Some False else None)"

definition elapsed :: "dsl_component \<Rightarrow> jsnum" where
  "elapsed c =
     js_number (js_or (js_opt (js_opt (js_opt (obj_get (cobj c) ''params'') ''outputs'') ''_elapsed_time'') ''value'') (JNum (Fin 0)))"

definition timeline_node_of :: "(string \<Rightarrow> string) \<Rightarrow> dsl \<Rightarrow> string \<Rightarrow> dsl_component \<Rightarrow> nat \<Rightarrow> string \<Rightarrow> timeline_node" where
  "timeline_node_of camel d key c index type =
     \<lparr>tl_title = map_option node_name (find (\<lambda>n. nid n = key) (dsl_nodes d)),
      tl_clickable = stage_clickable (stage_name camel c), tl_id = index,
      tl_date = formatSecondsToHumanReadable (elapsed c),
      tl_type = stage_type (stage_name camel c) type, tl_key = key, tl_detail = c\<rparr>"

fun timeline_from :: "nat \<Rightarrow> (string \<Rightarrow> string) \<Rightarrow> dsl \<Rightarrow> string \<Rightarrow> nat \<Rightarrow> string \<Rightarrow> timeline_node list res" where
  \<comment> \<open>\<open>getNode\<close>, with the depth of the call stack\<close>
  "timeline_from 0 camel d key index type = Inl RangeError"
| "timeline_from (Suc depth) camel d key index type =
     (case map_of (dsl_components d) key of
        None \<Rightarrow> Inl TypeError
      | Some c \<Rightarrow>
          let n = timeline_node_of camel d key c index type in
          (case downstream c of
             [] \<Rightarrow> Inr [n]
           | nextKey # _ \<Rightarrow> bind_r (timeline_from depth camel d nextKey (Suc index) (tl_type n)) (\<lambda>ns. Inr (n # ns))))"

definition timelineNodes :: "nat \<Rightarrow> (string \<Rightarrow> string) \<Rightarrow> dsl option \<Rightarrow> timeline_node list res" where
  \<comment> \<open>the components start at \<open>upperFirst('file')\<close>\<close>
  "timelineNodes depth camel dat =
     (case dat of None \<Rightarrow> Inr [] | Some d \<Rightarrow> timeline_from depth camel d ''File'' 1 ''file'')"

definition rerun_components :: "string \<Rightarrow> dsl_component \<Rightarrow> dsl \<Rightarrow> dsl" where
  \<comment> \<open>\<open>newDsl\<close> of \<open>useRerunDataflow\<close>\<close>
  "rerun_components key c d = d\<lparr>dsl_components := obj_put key c (dsl_components d)\<rparr>"

definition activeStep :: "nat \<Rightarrow> timeline_node list \<Rightarrow> nat" where
  "activeStep activeId ns = (case find_index (\<lambda>n. tl_id n = activeId) ns of None \<Rightarrow> 0 | Some i \<Rightarrow> i + 1)"

section \<open>Groups\<close>

record group_item =
  g_id :: jsval
  g_label :: jsval
  g_count :: nat

fun add_to_group :: "jsval \<Rightarrow> jsval \<Rightarrow> group_item list \<Rightarrow> group_item list" where
  \<comment> \<open>the ids are strings or \<open>undefined\<close>\<close>
  "add_to_group i l [] = [\<lparr>g_id = i, g_label = l, g_count = 1\<rparr>]"
| "add_to_group i l (g # gs) = (if g_id g = i then g\<lparr>g_count := g_count g + 1\<rparr> # gs else g # add_to_group i l gs)"

definition groupListByType :: "jsval obj list \<Rightarrow> string \<Rightarrow> string \<Rightarrow> group_item list" where
  "groupListByType xs idField labelField = foldl (\<lambda>gs x. add_to_group (obj_get x idField) (obj_get x labelField) gs) [] xs"

definition groupListByArray :: "jsval obj list \<Rightarrow> string \<Rightarrow> group_item list" where
  "groupListByArray xs idField =
     foldl (\<lambda>gs x. case obj_get x idField of JArr js \<Rightarrow> foldl (\<lambda>gs j. add_to_group j j gs) gs js | _ \<Rightarrow> gs) [] xs"

definition buildOwnersFilter :: "jsval obj list \<Rightarrow> string option \<Rightarrow> string \<times> group_item list \<times> string" where
  \<comment> \<open>field, list and label\<close>
  "buildOwnersFilter xs nickName =
     (''owner'', groupListByType xs ''tenant_id'' (case nickName of None \<Rightarrow> ''nickname'' | Some n \<Rightarrow> if n = [] then ''nickname'' else n), ''Owner'')"

section \<open>Communities of the knowledge graph\<close>

definition findCombo :: "jsval \<Rightarrow> jsval" where
  "findCombo communities = (case communities of JArr (c # _) \<Rightarrow> c | _ \<Rightarrow> JUndef)"

definition combo_of :: "jsval obj \<Rightarrow> jsval" where
  "combo_of x = findCombo (obj_get x ''communities'')"

definition add_combo :: "(nat \<Rightarrow> string) \<Rightarrow> (string \<times> jsval) list \<Rightarrow> jsval obj \<Rightarrow> (string \<times> jsval) list" where
  \<comment> \<open>id and label; the ids that are drawn are an argument, by their position\<close>
  "add_combo uuid combos x =
     (let c = combo_of x in
      if truthy c \<and> (\<forall>y\<in>set combos. snd y \<noteq> c) then combos @ [(uuid (length combos), c)] else combos)"

definition combos_of :: "(nat \<Rightarrow> string) \<Rightarrow> jsval obj list \<Rightarrow> (string \<times> jsval) list" where
  "combos_of uuid ns = foldl (add_combo uuid) [] ns"

definition node_combo :: "(string \<times> jsval) list \<Rightarrow> jsval obj \<Rightarrow> string option" where
  "node_combo combos x = map_option fst (find (\<lambda>y. snd y = combo_of x) combos)"

definition buildNodesAndCombos :: "(nat \<Rightarrow> string) \<Rightarrow> jsval obj list \<Rightarrow> (jsval obj \<times> string option) list \<times> (string \<times> jsval) list" where
  "buildNodesAndCombos uuid ns =
     (let combos = combos_of uuid ns in
      (map (\<lambda>x. (x, node_combo combos x)) ns,
       if combos = [] then [(uuid 0, JStr ''defaultCombo'')] else combos))"

section \<open>Tags and settings\<close>

definition transformTagFeaturesArrayToObject :: "(string \<times> jsnum) list \<Rightarrow> jsnum obj" where
  \<comment> \<open>tag and frequency\<close>
  "transformTagFeaturesArrayToObject xs = obj_of_entries xs"

definition transformTagFeaturesObjectToArray :: "jsnum obj \<Rightarrow> (string \<times> jsnum) list" where
  "transformTagFeaturesObjectToArray ob = map (\<lambda>k. (k, case map_of ob k of Some v \<Rightarrow> v | None \<Rightarrow> NaN)) (keys ob)"

definition defaultParserValues :: "jsval obj" where
  "defaultParserValues =
     [(''task_page_size'', JNum (Fin 12)), (''layout_recognize'', JStr ''DeepDOC''), (''chunk_token_num'', JNum (Fin 512)),
      (''delimiter'', JStr [char_of (10 :: nat)]), (''enable_children'', JBool False), (''children_delimiter'', JStr [char_of (10 :: nat)]),
      (''auto_keywords'', JNum (Fin 0)), (''auto_questions'', JNum (Fin 0)), (''html4excel'', JBool False), (''toc_extraction'', JBool False),
      (''image_table_context_window'', JNum (Fin 0)), (''mineru_parse_method'', JStr ''auto''), (''mineru_formula_enable'', JBool True),
      (''mineru_table_enable'', JBool True), (''mineru_lang'', JStr ''English''), (''entity_types'', JArr []), (''pages'', JArr []),
      (''metadata'', JArr []), (''enable_metadata'', JBool False)]"

definition fillDefaultValue :: "jsval obj \<Rightarrow> jsval obj" where
  "fillDefaultValue parserConfig =
     obj_of_entries (map (\<lambda>(k, v). (k, case map_of parserConfig k of Some w \<Rightarrow> w | None \<Rightarrow> v)) defaultParserValues)"

section \<open>Scanning a directory\<close>

text \<open>The three requests of the dialog; what the server answers or how the request fails is an argument.\<close>

datatype reply = Answered jsval | Failed jsval    \<comment> \<open>\<open>res.data\<close>, or the error that was thrown\<close>

datatype notice = Success string | Info jsval | is_Error: Error jsval

record scan_dialog =
  sc_visible :: bool
  sc_loading :: bool
  sc_directories :: jsval
  sc_notices :: "notice list"
  sc_reloads :: nat                \<comment> \<open>requests for the list of directories\<close>
  sc_documents_stale :: bool       \<comment> \<open>the list of documents was invalidated\<close>

definition notify :: "notice \<Rightarrow> scan_dialog \<Rightarrow> scan_dialog" where
  "notify n s = s\<lparr>sc_notices := sc_notices s @ [n]\<rparr>"

definition answered_ok :: "jsval \<Rightarrow> bool" where
  "answered_ok dat = (truthy dat \<and> js_opt dat ''code'' = JNum (Fin 0))"

definition loadDirectories :: "string \<Rightarrow> scan_dialog \<Rightarrow> scan_dialog" where
  "loadDirectories kbId s = (if kbId = [] then s else s\<lparr>sc_reloads := sc_reloads s + 1\<rparr>)"

definition directories_loaded :: "reply \<Rightarrow> scan_dialog \<Rightarrow> scan_dialog" where
  "directories_loaded r s =
     (case r of
        Answered dat \<Rightarrow> if answered_ok dat then s\<lparr>sc_directories := js_or (js_opt dat ''data'') (JArr [])\<rparr> else s
      | Failed _ \<Rightarrow> s)"

definition request_error :: "(string \<Rightarrow> string) \<Rightarrow> string \<Rightarrow> bool \<Rightarrow> reply \<Rightarrow> jsval" where
  \<comment> \<open>the message of the server, with the one of the error if that is asked for, or a translated text\<close>
  "request_error tr key own_message r =
     (case r of
        Answered dat \<Rightarrow> js_or (js_opt dat ''message'') (JStr (tr key))
      | Failed e \<Rightarrow>
          js_or (js_opt (js_opt (js_opt e ''response'') ''data'') ''message'')
            (js_or (if own_message then js_opt e ''message'' else JUndef) (JStr (tr key))))"

definition succeeded :: "reply \<Rightarrow> bool" where
  "succeeded r = (case r of Answered dat \<Rightarrow> answered_ok dat | Failed _ \<Rightarrow> False)"

definition imported :: "jsval \<Rightarrow> nat" where
  \<comment> \<open>\<open>(innerData.data?.imported || []).length\<close>\<close>
  "imported dat = (case js_opt (js_opt dat ''data'') ''imported'' of JArr xs \<Rightarrow> length xs | _ \<Rightarrow> 0)"

definition start_scan :: "string \<Rightarrow> scan_dialog \<Rightarrow> scan_dialog" where
  \<comment> \<open>\<open>onScanPathOk\<close> up to the request\<close>
  "start_scan kbId s =
     (if kbId = [] then notify (Error (JStr ''Knowledge base ID is missing'')) s else s\<lparr>sc_loading := True\<rparr>)"

definition finish_scan :: "(string \<Rightarrow> string) \<Rightarrow> (nat \<Rightarrow> string) \<Rightarrow> string \<Rightarrow> reply \<Rightarrow> scan_dialog \<Rightarrow> scan_dialog" where
  \<comment> \<open>the rest of it; the texts are arguments, one with a count\<close>
  "finish_scan tr scanned kbId r s =
     (case r of
        Answered dat \<Rightarrow>
          if answered_ok dat then
            (let n = (if imported dat > 0 then Success (scanned (imported dat))
                      else Info (js_or (js_opt dat ''message'') (JStr (tr ''scanDirectory.noFilesFound''))))
             in (loadDirectories kbId (notify n s))\<lparr>sc_documents_stale := True, sc_visible := False, sc_loading := False\<rparr>)
          else (notify (Error (request_error tr ''scanDirectory.failedToScan'' True r)) s)\<lparr>sc_loading := False\<rparr>
      | Failed _ \<Rightarrow> (notify (Error (request_error tr ''scanDirectory.failedToScan'' True r)) s)\<lparr>sc_loading := False\<rparr>)"

definition finish_change :: "(string \<Rightarrow> string) \<Rightarrow> string \<Rightarrow> string \<Rightarrow> string \<Rightarrow> reply \<Rightarrow> scan_dialog \<Rightarrow> scan_dialog" where
  \<comment> \<open>\<open>onDelete\<close> and \<open>onUpdateInterval\<close>: the texts of success and failure\<close>
  "finish_change tr kbId done_key failed_key r s =
     (if succeeded r then loadDirectories kbId (notify (Success (tr done_key)) s)
      else notify (Error (request_error tr failed_key False r)) s)"

section \<open>Properties\<close>

subsection \<open>The timeline\<close>

text \<open>The components from one on, each the first one downstream of the one before, to one with nothing downstream.\<close>

fun stage_path :: "dsl_component obj \<Rightarrow> string list \<Rightarrow> bool" where
  "stage_path comps [] = False"
| "stage_path comps [k] = (\<exists>c. map_of comps k = Some c \<and> downstream c = [])"
| "stage_path comps (k # k' # ks) = ((\<exists>c ds. map_of comps k = Some c \<and> downstream c = k' # ds) \<and> stage_path comps (k' # ks))"

definition closed_components :: "dsl_component obj \<Rightarrow> bool" where
  "closed_components comps = (\<forall>(k, c)\<in>set comps. set (downstream c) \<subseteq> set (keys comps))"

fun stages :: "(string \<Rightarrow> string) \<Rightarrow> dsl \<Rightarrow> nat \<Rightarrow> string \<Rightarrow> string list \<Rightarrow> timeline_node list" where
  "stages camel d i ty [] = []"
| "stages camel d i ty (k # ks) =
     (let n = timeline_node_of camel d k (the (map_of (dsl_components d) k)) i ty in n # stages camel d (Suc i) (tl_type n) ks)"

lemma timeline_from_path:
  "stage_path (dsl_components d) (k # ks) \<Longrightarrow> length ks < depth \<Longrightarrow>
     timeline_from depth camel d k i ty = Inr (stages camel d i ty (k # ks))"
proof (induction ks arbitrary: k depth i ty)
  case Nil
  then show ?case by (cases depth) (auto simp: Let_def)
next
  case (Cons k' ks)
  then obtain depth' where d: "depth = Suc depth'" by (cases depth) auto
  then show ?case using Cons.prems Cons.IH [of k' depth'] by (auto simp: Let_def bind_r_def)
qed

lemma stage_path_suffix: "stage_path comps (xs @ k # ks) \<Longrightarrow> stage_path comps (k # ks)"
proof (induction xs)
  case (Cons x xs)
  then show ?case by (cases "xs @ k # ks") auto
qed simp

lemma stage_path_unique: "stage_path comps (k # ks) \<Longrightarrow> stage_path comps (k # ks') \<Longrightarrow> ks = ks'"
proof (induction ks arbitrary: k ks')
  case Nil
  then show ?case by (cases ks') auto
next
  case (Cons a ks)
  then show ?case by (cases ks') auto
qed

lemma stage_path_distinct: "stage_path comps ks \<Longrightarrow> distinct ks"
proof (rule ccontr)
  assume p: "stage_path comps ks" and "\<not> distinct ks"
  then obtain xs ys zs k where ks: "ks = xs @ [k] @ ys @ [k] @ zs" using not_distinct_decomp by blast
  then have "stage_path comps (k # ys @ k # zs)" "stage_path comps (k # zs)"
    using p stage_path_suffix [of comps xs k "ys @ k # zs"] stage_path_suffix [of comps "xs @ k # ys" k zs] by simp_all
  then show False using stage_path_unique by fastforce
qed

lemma closed_components_next:
  "closed_components comps \<Longrightarrow> map_of comps k = Some c \<Longrightarrow> downstream c = k' # ds \<Longrightarrow> k' \<in> set (keys comps)"
  by (force simp: closed_components_def dest: map_of_SomeD)

lemma timeline_from_cycle:
  assumes "closed_components (dsl_components d)"
  shows "k \<in> set (keys (dsl_components d)) \<Longrightarrow> \<nexists>ks. stage_path (dsl_components d) (k # ks) \<Longrightarrow>
    timeline_from depth camel d k i ty = Inl RangeError"
proof (induction depth arbitrary: k i ty)
  case (Suc depth)
  obtain c where c: "map_of (dsl_components d) k = Some c"
    using Suc.prems(1) map_of_None_keys [of "dsl_components d" k] by auto
  have "downstream c \<noteq> []" using Suc.prems(2) c by (metis stage_path.simps(2))
  then obtain k' ds where ds: "downstream c = k' # ds" by (cases "downstream c") auto
  have "\<nexists>ks. stage_path (dsl_components d) (k' # ks)" using Suc.prems(2) c ds by (metis stage_path.simps(3))
  then show ?case
    using Suc.IH [OF closed_components_next [OF assms c ds]] c ds by (simp add: Let_def bind_r_def)
qed simp

lemma stages_fields:
  "map tl_key (stages camel d i ty ks) = ks" "map tl_id (stages camel d i ty ks) = [i..<i + length ks]"
  by (induction ks arbitrary: i ty) (simp_all add: Let_def timeline_node_of_def upt_rec)

lemma stages_length [simp]: "length (stages camel d i ty ks) = length ks"
  using stages_fields(1) by (metis length_map)

lemma stages_type:
  "j < length ks \<Longrightarrow> tl_type (stages camel d i ty ks ! j) =
     fold (\<lambda>k. stage_type (stage_name camel (the (map_of (dsl_components d) k)))) (take (Suc j) ks) ty"
proof (induction ks arbitrary: i ty j)
  case (Cons k ks)
  then show ?case by (cases j) (simp_all add: Let_def timeline_node_of_def)
qed simp

text \<open>
  The timeline of a pipeline whose components only name components as their successors. It starts at the component
  \<open>File\<close> and follows the first successor of each; it never shows a component twice, numbers them from one, and gives each
  the type of the last parser, splitter or tokenizer up to it. A stack as deep as the path is long is enough. If the
  first successors lead into a cycle, the page fails with an exhausted stack, whatever its size.
\<close>

theorem timeline_exact:
  assumes "closed_components (dsl_components d)" and "''File'' \<in> set (keys (dsl_components d))"
  shows "(\<exists>ks. stage_path (dsl_components d) (''File'' # ks) \<and> distinct (''File'' # ks)
      \<and> (\<forall>depth > length ks. \<exists>ns. timelineNodes depth camel (Some d) = Inr ns
           \<and> map tl_key ns = ''File'' # ks \<and> map tl_id ns = [1..<length ks + 2]
           \<and> (\<forall>j < length ns. tl_type (ns ! j) =
                fold (\<lambda>k. stage_type (stage_name camel (the (map_of (dsl_components d) k)))) (take (Suc j) (''File'' # ks)) ''file'')))
    \<or> (\<nexists>ks. stage_path (dsl_components d) (''File'' # ks)) \<and> (\<forall>depth. timelineNodes depth camel (Some d) = Inl RangeError)"
proof (cases "\<exists>ks. stage_path (dsl_components d) (''File'' # ks)")
  case True
  then obtain ks where ks: "stage_path (dsl_components d) (''File'' # ks)" by blast
  have "timelineNodes depth camel (Some d) = Inr (stages camel d 1 ''file'' (''File'' # ks))" if "length ks < depth" for depth
    using timeline_from_path [OF ks that] by (simp add: timelineNodes_def)
  moreover have "map tl_id (stages camel d 1 ''file'' (''File'' # ks)) = [1..<length ks + 2]"
    using stages_fields(2) [of camel d 1 "''file''" "''File'' # ks"] by (simp only: list.size add_Suc_right plus_1_eq_Suc One_nat_def) simp
  ultimately show ?thesis
    using ks stage_path_distinct [OF ks] stages_type [of _ "''File'' # ks" camel d 1 "''file''"]
    by (intro disjI1 exI [of _ ks] conjI allI impI exI [of _ "stages camel d 1 ''file'' (''File'' # ks)"])
       (simp_all only: stages_fields stages_length)
next
  case False
  then show ?thesis using timeline_from_cycle [OF assms] by (simp add: timelineNodes_def)
qed

definition sample_stage :: "string \<Rightarrow> string list \<Rightarrow> string \<times> dsl_component" where
  "sample_stage k ds = (k, \<lparr>cobj = [(''component_name'', JStr k)], downstream = ds, upstream = [], parent_id = None\<rparr>)"

definition sample_pipeline :: dsl where
  "sample_pipeline = \<lparr>dsl_globals = [], dsl_variables = None, dsl_nodes = [], dsl_edges = [],
     dsl_components = [sample_stage ''File'' [''Parser:a''], sample_stage ''Parser:a'' [''Splitter:b''], sample_stage ''Splitter:b'' []]\<rparr>"

theorem timeline_exact_witness:
  "closed_components (dsl_components sample_pipeline) \<and>
   (\<exists>ks ns. stage_path (dsl_components sample_pipeline) (''File'' # ks) \<and> timelineNodes 9 (\<lambda>s. s) (Some sample_pipeline) = Inr ns
      \<and> map tl_key ns = ''File'' # ks)"
proof -
  have c: "closed_components (dsl_components sample_pipeline)" "''File'' \<in> set (keys (dsl_components sample_pipeline))"
    by (simp_all add: closed_components_def sample_pipeline_def sample_stage_def)
  have p: "stage_path (dsl_components sample_pipeline) (''File'' # [''Parser:a'', ''Splitter:b''])"
    by (simp add: sample_pipeline_def sample_stage_def)
  show ?thesis
    using timeline_exact [OF c, of "\<lambda>s. s"]
  proof (elim disjE exE conjE)
    fix ks assume ks: "stage_path (dsl_components sample_pipeline) (''File'' # ks)"
      and shown: "\<forall>depth > length ks. \<exists>ns. timelineNodes depth (\<lambda>s. s) (Some sample_pipeline) = Inr ns
        \<and> map tl_key ns = ''File'' # ks \<and> map tl_id ns = [1..<length ks + 2]
        \<and> (\<forall>j < length ns. tl_type (ns ! j) = fold (\<lambda>k. stage_type (stage_name (\<lambda>s. s) (the (map_of (dsl_components sample_pipeline) k))))
             (take (Suc j) (''File'' # ks)) ''file'')"
    have "ks = [''Parser:a'', ''Splitter:b'']" by (rule stage_path_unique [OF ks p])
    then have "length ks < 9" by simp
    from shown [THEN spec, THEN mp, OF this]
    obtain ns where "timelineNodes 9 (\<lambda>s. s) (Some sample_pipeline) = Inr ns" "map tl_key ns = ''File'' # ks"
      by (elim exE conjE) rule
    then show ?thesis using c(1) ks by (intro conjI exI [of _ ks] exI [of _ ns])
  next
    assume "\<nexists>ks. stage_path (dsl_components sample_pipeline) (''File'' # ks)"
    then show ?thesis using p by blast
  qed
qed

subsection \<open>Groups\<close>

definition group_of :: "(jsval \<times> jsval) list \<Rightarrow> jsval \<Rightarrow> group_item" where
  "group_of ps i = \<lparr>g_id = i, g_label = the (map_of ps i), g_count = count_list (map fst ps) i\<rparr>"

definition groups_of :: "(jsval \<times> jsval) list \<Rightarrow> group_item list" where
  "groups_of ps = map (group_of ps) (rev (remdups (rev (map fst ps))))"

lemma add_to_group_map:
  assumes "distinct is" and "\<And>j. g_id (F j) = j"
  shows "add_to_group i l (map F is) =
    (if i \<in> set is then map (\<lambda>j. if j = i then (F j)\<lparr>g_count := g_count (F j) + 1\<rparr> else F j) is
     else map F is @ [\<lparr>g_id = i, g_label = l, g_count = 1\<rparr>])"
  using assms(1) by (induction "is") (auto simp: assms(2))

lemma groups_of_snoc: "groups_of (ps @ [(i, l)]) = add_to_group i l (groups_of ps)"
proof -
  let ?is = "rev (remdups (rev (map fst ps)))"
  have "add_to_group i l (groups_of ps) =
    (if i \<in> fst ` set ps then map (\<lambda>j. if j = i then (group_of ps j)\<lparr>g_count := g_count (group_of ps j) + 1\<rparr> else group_of ps j) ?is
     else map (group_of ps) ?is @ [\<lparr>g_id = i, g_label = l, g_count = 1\<rparr>])"
    unfolding groups_of_def using add_to_group_map [of ?is "group_of ps" i l] by (simp add: group_of_def)
  moreover have "group_of (ps @ [(i, l)]) j = (if j = i then (group_of ps j)\<lparr>g_count := g_count (group_of ps j) + 1\<rparr> else group_of ps j)"
    if "j \<in> fst ` set ps" for j
    using that by (auto simp: group_of_def map_add_def map_of_eq_None_iff split: option.splits)
  moreover have "group_of (ps @ [(i, l)]) i = \<lparr>g_id = i, g_label = l, g_count = 1\<rparr>" if "i \<notin> fst ` set ps"
    using that map_of_eq_None_iff [of ps i] by (simp add: group_of_def map_add_def)
  ultimately show ?thesis
    by (cases "i \<in> fst ` set ps") (simp add: groups_of_def, auto simp: groups_of_def)
qed

lemma foldl_groups: "foldl (\<lambda>gs (i, l). add_to_group i l gs) (groups_of qs) ps = groups_of (qs @ ps)"
proof (induction ps arbitrary: qs)
  case (Cons p ps)
  obtain i l where "p = (i, l)" by fastforce
  then show ?case using Cons [of "qs @ [p]"] groups_of_snoc [of qs i l] by simp
qed simp

lemma groups_of_Nil: "groups_of [] = []"
  by (simp add: groups_of_def)

text \<open>
  The groups that a filter offers. There is one per value, in the order in which the values first occur; its count is
  the number of rows with the value, and its label is the one of the first such row. A field that holds an array counts
  for each of its elements.
\<close>

theorem list_groups_exact:
  "groupListByType xs idField labelField = groups_of (map (\<lambda>x. (obj_get x idField, obj_get x labelField)) xs)
   \<and> groupListByArray xs idField =
      groups_of (concat (map (\<lambda>x. case obj_get x idField of JArr js \<Rightarrow> map (\<lambda>j. (j, j)) js | _ \<Rightarrow> []) xs))"
proof
  show "groupListByType xs idField labelField = groups_of (map (\<lambda>x. (obj_get x idField, obj_get x labelField)) xs)"
    using foldl_groups [of "[]" "map (\<lambda>x. (obj_get x idField, obj_get x labelField)) xs"]
    by (simp add: groupListByType_def groups_of_Nil foldl_map)
  have el: "foldl (\<lambda>gs j. add_to_group j j gs) (groups_of qs) js = groups_of (qs @ map (\<lambda>j. (j, j)) js)" for qs js
    using foldl_groups [of qs "map (\<lambda>j. (j, j)) js"] by (simp add: foldl_map)
  have all: "foldl (\<lambda>gs x. case obj_get x idField of JArr js \<Rightarrow> foldl (\<lambda>gs j. add_to_group j j gs) gs js | _ \<Rightarrow> gs) (groups_of qs) ys =
      groups_of (qs @ concat (map (\<lambda>x. case obj_get x idField of JArr js \<Rightarrow> map (\<lambda>j. (j, j)) js | _ \<Rightarrow> []) ys))" for qs ys
    by (induction ys arbitrary: qs) (auto simp: el split: jsval.split)
  show "groupListByArray xs idField =
      groups_of (concat (map (\<lambda>x. case obj_get x idField of JArr js \<Rightarrow> map (\<lambda>j. (j, j)) js | _ \<Rightarrow> []) xs))"
    using all [of "[]" xs] by (simp only: groupListByArray_def groups_of_Nil append_Nil)
qed

subsection \<open>Communities\<close>

definition combos_ok :: "(nat \<Rightarrow> string) \<Rightarrow> jsval obj list \<Rightarrow> (string \<times> jsval) list \<Rightarrow> bool" where
  "combos_ok uuid ns combos =
     (distinct (map snd combos) \<and> map fst combos = map uuid [0..<length combos]
      \<and> set (map snd combos) = {c \<in> combo_of ` set ns. truthy c})"

lemma combos_of_ok: "combos_ok uuid ns (combos_of uuid ns)"
proof (induction ns rule: rev_induct)
  case (snoc x ns)
  let ?cs = "combos_of uuid ns"
  have "combos_of uuid (ns @ [x]) = add_combo uuid ?cs x" by (simp add: combos_of_def)
  moreover have "(\<forall>y\<in>set ?cs. snd y \<noteq> combo_of x) \<longleftrightarrow> combo_of x \<notin> set (map snd ?cs)"
    by (simp add: image_iff) metis
  ultimately show ?case using snoc by (auto simp: combos_ok_def add_combo_def Let_def)
qed (simp add: combos_ok_def combos_of_def)

lemma node_combo_eq:
  assumes "combos_ok uuid ns combos" and "x \<in> set ns"
  shows "node_combo combos x = (if truthy (combo_of x)
    then Some (uuid (the (find_index (\<lambda>y. snd y = combo_of x) combos))) else None)"
proof -
  have mem: "combo_of x \<in> set (map snd combos) \<longleftrightarrow> truthy (combo_of x)" using assms by (auto simp: combos_ok_def)
  have fst_nth: "fst (combos ! i) = uuid i" if "i < length combos" for i
  proof -
    have "map fst combos ! i = map uuid [0..<length combos] ! i" using assms(1) by (simp add: combos_ok_def)
    then show ?thesis using that by simp
  qed
  show ?thesis
  proof (cases "find_index (\<lambda>y. snd y = combo_of x) combos")
    case None
    then have "combo_of x \<notin> set (map snd combos)" by (auto simp: find_index_None)
    then show ?thesis using mem None by (auto simp: node_combo_def find_index_None find_None_iff)
  next
    case (Some i)
    then have i: "i < length combos" "snd (combos ! i) = combo_of x" "\<forall>j<i. snd (combos ! j) \<noteq> combo_of x"
      using find_index_Some [OF Some] by auto
    then have "find (\<lambda>y. snd y = combo_of x) combos = Some (combos ! i)" by (auto simp: find_Some_iff)
    moreover have "truthy (combo_of x)" using mem i(1,2) by (metis length_map nth_map nth_mem)
    ultimately show ?thesis using Some fst_nth [OF i(1)] by (simp add: node_combo_def)
  qed
qed

text \<open>
  The knowledge graph. Two entities are drawn in the same community exactly when the first community they name is the
  same; an entity that names none is in no community, and every community that is drawn has a member, unless there is no
  community at all.
\<close>

theorem communities_exact:
  assumes "inj uuid" and "x \<in> set ns" and "y \<in> set ns"
    and "buildNodesAndCombos uuid ns = (nodes', combos)"
  shows "map fst nodes' = ns
    \<and> (\<forall>(z, k)\<in>set nodes'. k = node_combo (combos_of uuid ns) z)
    \<and> (node_combo (combos_of uuid ns) x = None \<longleftrightarrow> \<not> truthy (combo_of x))
    \<and> (truthy (combo_of x) \<longrightarrow> (node_combo (combos_of uuid ns) x = node_combo (combos_of uuid ns) y \<longleftrightarrow> combo_of x = combo_of y))
    \<and> (truthy (combo_of x) \<longrightarrow> (\<forall>(i, c)\<in>set combos. \<exists>z\<in>set ns. node_combo (combos_of uuid ns) z = Some i \<and> combo_of z = c))"
proof -
  let ?cs = "combos_of uuid ns"
  have ok: "combos_ok uuid ns ?cs" by (rule combos_of_ok)
  have res: "nodes' = map (\<lambda>x. (x, node_combo ?cs x)) ns" "combos = (if ?cs = [] then [(uuid 0, JStr ''defaultCombo'')] else ?cs)"
    using assms(4) by (simp_all add: buildNodesAndCombos_def Let_def)
  have known: "\<exists>i. find_index (\<lambda>u. snd u = combo_of z) ?cs = Some i \<and> i < length ?cs \<and> snd (?cs ! i) = combo_of z"
    if "z \<in> set ns" "truthy (combo_of z)" for z
  proof -
    have "combo_of z \<in> set (map snd ?cs)" using ok that by (auto simp: combos_ok_def)
    then have "find_index (\<lambda>u. snd u = combo_of z) ?cs \<noteq> None" unfolding find_index_None by force
    then show ?thesis using find_index_Some by fastforce
  qed
  have same: "node_combo ?cs x = node_combo ?cs y \<longleftrightarrow> combo_of x = combo_of y" if t: "truthy (combo_of x)"
  proof (cases "truthy (combo_of y)")
    case True
    obtain i where i: "find_index (\<lambda>u. snd u = combo_of x) ?cs = Some i" "snd (?cs ! i) = combo_of x" using known [OF assms(2) t] by blast
    obtain j where j: "find_index (\<lambda>u. snd u = combo_of y) ?cs = Some j" "snd (?cs ! j) = combo_of y" using known [OF assms(3) True] by blast
    have "node_combo ?cs x = Some (uuid i)" "node_combo ?cs y = Some (uuid j)"
      using node_combo_eq [OF ok assms(2)] node_combo_eq [OF ok assms(3)] t True i j by simp_all
    then show ?thesis using i j injD [OF assms(1), of i j] by auto
  next
    case False
    then show ?thesis using node_combo_eq [OF ok assms(2)] node_combo_eq [OF ok assms(3)] t by auto
  qed
  have member: "\<exists>z\<in>set ns. node_combo ?cs z = Some i \<and> combo_of z = c" if "(i, c) \<in> set ?cs" for i c
  proof -
    have "c \<in> set (map snd ?cs)" using that by force
    then obtain z where z: "z \<in> set ns" "combo_of z = c" "truthy c" using ok by (auto simp: combos_ok_def)
    have "find (\<lambda>u. snd u = c) ?cs = Some (i, c)"
      using find_distinct_key [of snd ?cs "(i, c)"] ok that by (simp add: combos_ok_def)
    then show ?thesis using z by (auto simp: node_combo_def)
  qed
  have "?cs \<noteq> []" if "truthy (combo_of x)" using known [OF assms(2) that] by auto
  then show ?thesis
    using res same member node_combo_eq [OF ok assms(2)] by (auto simp: comp_def)
qed

definition sample_entities :: "jsval obj list" where
  "sample_entities = [[(''communities'', JArr [JStr ''a''])], [], [(''communities'', JArr [JStr ''b'', JStr ''a''])], [(''communities'', JArr [JStr ''a''])]]"

theorem communities_exact_witness:
  "inj nat_to_string \<and> map snd (fst (buildNodesAndCombos nat_to_string sample_entities)) = [Some ''0'', None, Some ''1'', Some ''0'']
   \<and> (node_combo (combos_of nat_to_string sample_entities) (sample_entities ! 1) = None)"
proof -
  have inj: "inj nat_to_string" by (metis dec_val_nat_to_string injI)
  have "node_combo (combos_of nat_to_string sample_entities) (sample_entities ! 1) = None"
    using communities_exact [OF inj, of "sample_entities ! 1" sample_entities "sample_entities ! 1" "fst (buildNodesAndCombos nat_to_string sample_entities)"
        "snd (buildNodesAndCombos nat_to_string sample_entities)"]
    by (simp add: sample_entities_def combo_of_def findCombo_def)
  moreover have "map snd (fst (buildNodesAndCombos nat_to_string sample_entities)) = [Some ''0'', None, Some ''1'', Some ''0'']"
    by code_simp
  ultimately show ?thesis using inj by blast
qed

subsection \<open>Tags, settings, scans\<close>

lemma entries_plain:
  "distinct (keys xs) \<Longrightarrow> \<forall>k\<in>set (keys xs). \<not> is_array_index k \<Longrightarrow> obj_of_entries xs = xs"
proof (induction xs rule: rev_induct)
  case (snoc x xs)
  then show ?case by (cases x) (simp add: obj_of_entries_def obj_put_fresh)
qed (simp add: obj_of_entries_def)

lemma map_of_distinct_list: "distinct (keys xs) \<Longrightarrow> map (\<lambda>k. (k, case map_of xs k of Some v \<Rightarrow> v | None \<Rightarrow> d)) (keys xs) = xs"
  by (auto simp: keys_def intro!: map_idI)

lemma tag_weights_roundtrip:
  assumes "distinct (keys xs)" and "\<forall>k\<in>set (keys xs). \<not> is_array_index k"
  shows "transformTagFeaturesObjectToArray (transformTagFeaturesArrayToObject xs) = xs"
  using map_of_distinct_list [OF assms(1)] entries_plain [OF assms]
  by (simp add: transformTagFeaturesObjectToArray_def transformTagFeaturesArrayToObject_def)

lemma default_parser_keys: "distinct (keys defaultParserValues)"
  by (simp add: defaultParserValues_def)

lemma map_of_map_pair: "map_of (map (\<lambda>(k, v). (k, f k v)) xs) k = map_option (f k) (map_of xs k)"
  by (induction xs) auto

text \<open>The dialog keeps the settings of the document that have a default, adds the missing ones, and drops all others.\<close>

lemma fillDefaultValue_lookup:
  "map_of (fillDefaultValue pc) k =
     (case map_of defaultParserValues k of None \<Rightarrow> None | Some v \<Rightarrow> Some (case map_of pc k of Some w \<Rightarrow> w | None \<Rightarrow> v))"
proof -
  have "keys (map (\<lambda>(k, v). (k, case map_of pc k of Some w \<Rightarrow> w | None \<Rightarrow> v)) defaultParserValues) = keys defaultParserValues"
    by (simp add: keys_def comp_def case_prod_beta)
  then show ?thesis
    unfolding fillDefaultValue_def
    using default_parser_keys by (simp add: map_of_obj_of_entries map_of_map_pair split: option.split)
qed

text \<open>A scan ends with one notice, with the button enabled again, and closes the dialog exactly if the server accepted it.\<close>

lemma scan_settles:
  assumes "kbId \<noteq> []" and "s' = finish_scan tr scanned kbId r (start_scan kbId s)"
  shows "\<not> sc_loading s' \<and> (\<exists>n. sc_notices s' = sc_notices s @ [n] \<and> (is_Error n \<longleftrightarrow> \<not> succeeded r))
    \<and> sc_visible s' = (sc_visible s \<and> \<not> succeeded r) \<and> sc_reloads s' = sc_reloads s + (if succeeded r then 1 else 0)
    \<and> sc_directories s' = sc_directories s"
  using assms(1) unfolding assms(2)
  by (cases r) (auto simp: finish_scan_def start_scan_def notify_def loadDirectories_def succeeded_def Let_def)

subsection \<open>Saved pipelines\<close>

text \<open>A graph whose edges end at components is saved with components that satisfy the premise of the timeline.\<close>

lemma saved_components_closed:
  assumes "buildDslComponentsByGraph depth L ns es old = Inr comps" and "distinct (map nid ns)"
    and "\<forall>e\<in>set es. \<exists>x\<in>set ns. nid x = target e \<and> is_component es x"
  shows "closed_components comps"
proof -
  have "t \<in> set (keys comps)" if kc: "(k, c) \<in> set comps" and t: "t \<in> set (downstream c)" for k c t
  proof -
    have "map_of comps k = Some c" using kc dsl_keys [OF assms(1)] by (simp add: keys_def map_of_is_SomeI)
    then obtain x where x: "build_component depth L ns es old x = Inr c" "nid x = k"
      using dsl_lookup_node [OF assms(1,2)] by metis
    have "downstream c = buildComponentDownstreamOrUpstream es k True ns" using build_component_fields [OF x(1)] x(2) by simp
    then obtain e where "e \<in> set es" "target e = t" using t in_downstream by metis
    then show ?thesis using assms(3) dsl_keys [OF assms(1)] by force
  qed
  then show ?thesis by (auto simp: closed_components_def)
qed

end
