(* ===== verification/Canvas_Views.thy ===== *)
theory Canvas_Views
  imports Variable_Options
begin

text \<open>
  What the nodes and menus of the canvas show of the state: the handles of switch and categorize nodes
  (\<open>canvas/node/use-build-switch-handle-positions.ts\<close>, \<open>use-build-categorize-handle-positions.ts\<close>), and the menu of the
  structured output of an agent, which hides what cannot be chosen
  (\<open>utils/filter-agent-structured-output.ts\<close>, \<open>form/components/structured-output-secondary-menu.tsx\<close>), all under
  \<open>pages/agent\<close>.
\<close>

section \<open>Handles\<close>

record handle_position =
  hp_text :: string
  hp_idx :: nat
  hp_top :: int
  hp_condition :: "jsval option"

definition item_count :: "jsval \<Rightarrow> nat" where
  \<comment> \<open>\<open>(condition?.items ?? []).length\<close>\<close>
  "item_count c = (case js_opt c ''items'' of JArr xs \<Rightarrow> length xs | _ \<Rightarrow> 0)"

definition switch_handle :: "jsval list \<Rightarrow> handle_position list \<Rightarrow> nat \<times> jsval option \<Rightarrow> handle_position list" where
  \<comment> \<open>one round of the loop over \<open>[...conditions, '']\<close>\<close>
  "switch_handle conditions hs ix =
     (case ix of (idx, x) \<Rightarrow>
        hs @ [\<lparr>hp_text = (if idx < length conditions then generateSwitchHandleText (int idx) else SwitchElseTo), hp_idx = idx,
               hp_top = (if idx = 0 then 53
                         else hp_top (hs ! (idx - 1)) + 10 + 14 + 16 + 16 + int (item_count (conditions ! (idx - 1))) * 26),
               hp_condition = x\<rparr>])"

definition switchPositions :: "libs \<Rightarrow> node \<Rightarrow> handle_position list res" where
  "switchPositions L n =
     bind_r (js_array (lodash_get L (case node_form n of None \<Rightarrow> JUndef | Some f \<Rightarrow> f) [''conditions''] (JArr []))) (\<lambda>conditions.
       Inr (foldl (switch_handle conditions) [] (enumerate 0 (map Some conditions @ [None]))))"

definition categorize_handle :: "(jsval \<times> int) list \<Rightarrow> nat \<times> jsval \<Rightarrow> (jsval \<times> int) list" where
  "categorize_handle hs ix = (case ix of (idx, x) \<Rightarrow> hs @ [(x, if idx = 0 then 86 else snd (hs ! (idx - 1)) + 8 + 24)])"

definition categorizePositions :: "libs \<Rightarrow> node \<Rightarrow> (jsval \<times> int) list res" where
  \<comment> \<open>the category and its \<open>top\<close>\<close>
  "categorizePositions L n =
     bind_r (js_array (lodash_get L (case node_form n of None \<Rightarrow> JUndef | Some f \<Rightarrow> f) [''items''] (JArr []))) (\<lambda>its.
       Inr (foldl categorize_handle [] (enumerate 0 its)))"

section \<open>The menu of a structured output\<close>

text \<open>\<open>toLower\<close> of lodash is an argument.\<close>

fun isPlainObject :: "jsval \<Rightarrow> bool" where
  "isPlainObject (JObj _) = True"
| "isPlainObject _ = False"

definition has_type :: "(jsval \<Rightarrow> string) \<Rightarrow> string list \<Rightarrow> jsval \<Rightarrow> bool" where
  \<comment> \<open>\<open>predicate\<close>\<close>
  "has_type lower types v = (\<exists>x\<in>set types. lower (JStr x) = lower (snd (getStructuredDatatype v)))"

fun hasSpecificTypeChild :: "(jsval \<Rightarrow> string) \<Rightarrow> string list \<Rightarrow> jsval \<Rightarrow> bool" where
  "hasSpecificTypeChild lower types (JArr xs) =
     (\<exists>v\<in>set xs. isPlainObject v \<and> has_type lower types v \<or> hasSpecificTypeChild lower types v)"
| "hasSpecificTypeChild lower types (JObj ob) =
     (\<exists>kv\<in>set ob. isPlainObject (snd kv) \<and> has_type lower types (snd kv) \<and> obj_get ob ''type'' \<noteq> JStr ''array''
        \<or> hasSpecificTypeChild lower types (snd kv))"
| "hasSpecificTypeChild lower types _ = False"

function menu_entries :: "(jsval \<Rightarrow> string) \<Rightarrow> string list \<Rightarrow> jsval obj \<Rightarrow> string \<Rightarrow> (string \<times> jsval) list" where
  \<comment> \<open>the loop of \<open>renderAgentStructuredOutput\<close>: the value of each entry that is shown and its type, in the order of the menu\<close>
  "menu_entries lower types [] val = []"
| "menu_entries lower types ((k, v) # rest) val =
     (let nextVal = val @ ''.'' @ k; (dataType, composite) = getStructuredDatatype v in
      (if types = [] \<or> (\<exists>x\<in>set types. JStr x = composite) \<or> hasSpecificTypeChild lower types (js_coalesce v (JObj []))
       then (nextVal, composite) #
         (if dataType = JStr ''object'' \<or> dataType = JStr ''array'' then menu_entries lower types (schema_fields v) nextVal else [])
       else [])
      @ menu_entries lower types rest val)"
  by pat_completeness auto

termination
proof (relation "measure (\<lambda>(l, ts, es, p). size (JObj es))")
  show "wf (measure (\<lambda>(l :: jsval \<Rightarrow> string, ts :: string list, es :: jsval obj, p :: string). size (JObj es)))" by simp
next
  fix lower :: "jsval \<Rightarrow> string" and types k v rest val np d c
  show "((lower, types, schema_fields v, np), (lower, types, (k, v) # rest, val)) \<in> measure (\<lambda>(l, ts, es, p). size (JObj es))"
    using schema_fields_size [of v] by simp
next
  fix lower :: "jsval \<Rightarrow> string" and types k v rest val np d c
  show "((lower, types, rest, val), (lower, types, (k, v) # rest, val)) \<in> measure (\<lambda>(l, ts, es, p). size (JObj es))" by simp
qed

definition structuredOutputMenu :: "(jsval \<Rightarrow> string) \<Rightarrow> string list \<Rightarrow> jsval \<Rightarrow> string \<Rightarrow> (string \<times> jsval) list option" where
  \<comment> \<open>\<open>None\<close> if the output is not offered at all\<close>
  "structuredOutputMenu lower types out val =
     (if types \<noteq> [] \<and> \<not> hasSpecificTypeChild lower types out \<and> ''object'' \<notin> set types then None
      else Some (menu_entries lower types (schema_fields out) val))"

definition selectable :: "string list \<Rightarrow> string \<times> jsval \<Rightarrow> bool" where
  \<comment> \<open>the guard of \<open>handleSubMenuClick\<close>\<close>
  "selectable types e = (types = [] \<or> (\<exists>x\<in>set types. JStr x = snd e))"

section \<open>Properties\<close>

subsection \<open>Handles\<close>

lemma foldl_enumerate_snoc:
  "foldl f a (enumerate n (xs @ [x])) = f (foldl f a (enumerate n xs)) (n + length xs, x)"
  by (simp add: enumerate_append_eq)

definition switch_handles :: "jsval list \<Rightarrow> jsval option list \<Rightarrow> handle_position list" where
  "switch_handles conditions ys = foldl (switch_handle conditions) [] (enumerate 0 ys)"

lemma switch_handles_fields:
  "length (switch_handles conditions ys) = length ys \<and> (\<forall>i<length ys.
      let h = switch_handles conditions ys ! i in
      hp_idx h = i \<and> hp_condition h = ys ! i
      \<and> hp_text h = (if i < length conditions then generateSwitchHandleText (int i) else SwitchElseTo)
      \<and> hp_top h = (if i = 0 then 53 else hp_top (switch_handles conditions ys ! (i - 1)) + 56 + int (item_count (conditions ! (i - 1))) * 26))"
proof (induction ys rule: rev_induct)
  case (snoc y ys)
  have "switch_handles conditions (ys @ [y]) = switch_handle conditions (switch_handles conditions ys) (length ys, y)"
    by (simp add: switch_handles_def foldl_enumerate_snoc)
  then show ?case using snoc by (auto simp: switch_handle_def nth_append less_Suc_eq Let_def)
qed (simp add: switch_handles_def)

lemma generateSwitchHandleText_inj: "generateSwitchHandleText (int i) = generateSwitchHandleText (int j) \<Longrightarrow> i = j"
  using int_to_string_inj [of "int i + 1" "int j + 1"] by (simp add: generateSwitchHandleText_def)

lemma switch_tops_apart:
  assumes "j < length ys"
  shows "i \<le> j \<Longrightarrow> hp_top (switch_handles conditions ys ! i) + 56 * int (j - i) \<le> hp_top (switch_handles conditions ys ! j)"
  using assms
proof (induction j)
  case (Suc j)
  show ?case
  proof (cases "i = Suc j")
    case False
    then have "i \<le> j" using Suc.prems(1) by simp
    then have "hp_top (switch_handles conditions ys ! i) + 56 * int (j - i) \<le> hp_top (switch_handles conditions ys ! j)"
      using Suc by simp
    moreover have "hp_top (switch_handles conditions ys ! j) + 56 \<le> hp_top (switch_handles conditions ys ! Suc j)"
      using switch_handles_fields [of conditions ys] Suc.prems(2) by (simp add: Let_def)
    ultimately show ?thesis using \<open>i \<le> j\<close> by (simp add: Suc_diff_le)
  qed simp
qed simp

text \<open>
  The handles of a switch: one per condition and one for the rest, under different names, from top to bottom with at
  least fifty-six pixels between them.
\<close>

theorem switch_handles_exact:
  assumes "switchPositions L n = Inr hs"
  shows "\<exists>conditions. lodash_get L (case node_form n of None \<Rightarrow> JUndef | Some f \<Rightarrow> f) [''conditions''] (JArr []) = JArr conditions
    \<and> map hp_text hs = map (\<lambda>i. generateSwitchHandleText (int i)) [0..<length conditions] @ [SwitchElseTo]
    \<and> map hp_condition hs = map Some conditions @ [None] \<and> distinct (map hp_text hs)
    \<and> (\<forall>j<length hs. \<forall>i\<le>j. hp_top (hs ! i) + 56 * int (j - i) \<le> hp_top (hs ! j))"
proof -
  obtain conditions where c: "lodash_get L (case node_form n of None \<Rightarrow> JUndef | Some f \<Rightarrow> f) [''conditions''] (JArr []) = JArr conditions"
    and hs: "hs = switch_handles conditions (map Some conditions @ [None])"
    using assms unfolding switchPositions_def switch_handles_def
    by (cases "lodash_get L (case node_form n of None \<Rightarrow> JUndef | Some f \<Rightarrow> f) [''conditions''] (JArr [])") (auto simp: bind_r_def)
  note f = switch_handles_fields [of conditions "map Some conditions @ [None]", folded hs]
  have texts: "map hp_text hs = map (\<lambda>i. generateSwitchHandleText (int i)) [0..<length conditions] @ [SwitchElseTo]"
    using f by (intro nth_equalityI) (auto simp: Let_def nth_append)
  moreover have "map hp_condition hs = map Some conditions @ [None]"
    using f by (intro nth_equalityI) (auto simp: Let_def)
  moreover have "distinct (map hp_text hs)"
    unfolding texts using generateSwitchHandleText_inj by (auto simp: distinct_map inj_on_def) (metis generateSwitchHandleText_nonempty(2))
  moreover have "\<forall>j<length hs. \<forall>i\<le>j. hp_top (hs ! i) + 56 * int (j - i) \<le> hp_top (hs ! j)"
    using f switch_tops_apart [of _ "map Some conditions @ [None]" _ conditions, folded hs] by simp
  ultimately show ?thesis using c by blast
qed

subsection \<open>The menu\<close>

text \<open>A schema whose properties are schemas, down to the last one.\<close>

function properties_ok :: "jsval obj \<Rightarrow> bool" where
  "properties_ok [] = True"
| "properties_ok ((k, v) # rest) = (isPlainObject v \<and> properties_ok (schema_fields v) \<and> properties_ok rest)"
  by pat_completeness auto

termination
proof (relation "measure (\<lambda>es. size (JObj es))")
  fix k v rest
  show "(schema_fields v, (k, v) # rest) \<in> measure (\<lambda>es. size (JObj es))" using schema_fields_size [of v] by simp
qed simp_all

lemma properties_ok_all: "properties_ok ps \<longleftrightarrow> (\<forall>(k, v)\<in>set ps. isPlainObject v \<and> properties_ok (schema_fields v))"
  by (induction ps) auto

lemma schema_fields_source:
  assumes "schema_fields v \<noteq> []"
  obtains ob where "v = JObj ob" and "obj_get ob ''properties'' = JObj (schema_fields v)"
  | ob it where "v = JObj ob" and "obj_get ob ''items'' = JObj it" and "obj_get it ''properties'' = JObj (schema_fields v)"
proof -
  obtain ob where v: "v = JObj ob" using assms by (auto simp: schema_fields_def split: jsval.splits)
  have nx: "\<not> is_array_index ''properties''" by code_simp
  have "obj_get ob ''properties'' = JObj (schema_fields v) \<or>
      (\<exists>it. obj_get ob ''items'' = JObj it \<and> obj_get it ''properties'' = JObj (schema_fields v))"
    using assms v nx unfolding schema_fields_def
    by (cases "obj_get ob ''items''") (auto simp: js_or_def js_opt_def split: if_splits jsval.splits)
  then show thesis using v that by blast
qed

lemma obj_get_entry: "obj_get ob k = v \<Longrightarrow> v \<noteq> JUndef \<Longrightarrow> (k, v) \<in> set ob"
  by (auto simp: obj_get_def split: option.splits dest: map_of_SomeD)

lemma child_of_fields: "hasSpecificTypeChild lower types (JObj (schema_fields v)) \<Longrightarrow> hasSpecificTypeChild lower types v"
proof -
  assume h: "hasSpecificTypeChild lower types (JObj (schema_fields v))"
  have up: "hasSpecificTypeChild lower types (JObj ob)" if "obj_get ob k = JObj ps" "hasSpecificTypeChild lower types (JObj ps)" for ob k ps
  proof -
    have "(k, JObj ps) \<in> set ob" using obj_get_entry [OF that(1)] by simp
    then show ?thesis unfolding hasSpecificTypeChild.simps(2) [of lower types ob] using that(2) by (intro bexI [of _ "(k, JObj ps)"]) simp_all
  qed
  have "schema_fields v \<noteq> []" using h by auto
  then show ?thesis using h up by (cases rule: schema_fields_source) blast+
qed

lemma found_child:
  assumes "properties_ok ps" and "(k, v) \<in> set ps" and "x \<in> set types"
    and "snd (getStructuredDatatype v) = JStr x \<or> hasSpecificTypeChild lower types v"
  shows "hasSpecificTypeChild lower types (JObj ps)"
proof -
  have "isPlainObject v" using bspec [OF iffD1 [OF properties_ok_all assms(1)] assms(2)] by simp
  moreover have "obj_get ps ''type'' \<noteq> JStr ''array''"
  proof
    assume "obj_get ps ''type'' = JStr ''array''"
    then have "(''type'', JStr ''array'') \<in> set ps" by (rule obj_get_entry) simp
    from bspec [OF iffD1 [OF properties_ok_all assms(1)] this] show False by simp
  qed
  moreover have "has_type lower types v" if "snd (getStructuredDatatype v) = JStr x"
    using that assms(3) by (auto simp: has_type_def)
  ultimately have "isPlainObject (snd (k, v)) \<and> has_type lower types (snd (k, v)) \<and> obj_get ps ''type'' \<noteq> JStr ''array''
      \<or> hasSpecificTypeChild lower types (snd (k, v))"
    using assms(4) by (simp only: snd_conv) blast
  then show ?thesis unfolding hasSpecificTypeChild.simps using assms(2) by (rule bexI)
qed

lemma entry_found:
  "properties_ok ps \<Longrightarrow> (p, JStr x) \<in> set (menu_entries lower [] ps val) \<Longrightarrow> x \<in> set types \<Longrightarrow>
     \<exists>(k, v)\<in>set ps. snd (getStructuredDatatype v) = JStr x \<or> hasSpecificTypeChild lower types v"
proof (induction lower "[] :: string list" ps val rule: menu_entries.induct)
  case (2 lower k v rest val)
  obtain d c where dc: "getStructuredDatatype v = (d, c)" by fastforce
  consider "c = JStr x" | "(p, JStr x) \<in> set (menu_entries lower [] (schema_fields v) (val @ ''.'' @ k))" "d = JStr ''object'' \<or> d = JStr ''array''"
    | "(p, JStr x) \<in> set (menu_entries lower [] rest val)"
    using "2.prems"(2) dc by (auto simp: Let_def split: if_splits)
  then show ?case
  proof cases
    case 2
    have ok: "properties_ok (schema_fields v)" using "2.prems"(1) by simp
    then obtain k' v' where "(k', v') \<in> set (schema_fields v)" "snd (getStructuredDatatype v') = JStr x \<or> hasSpecificTypeChild lower types v'"
      using "2.hyps"(1) [OF refl refl dc [symmetric]] 2 "2.prems"(3) by auto
    then have "hasSpecificTypeChild lower types v" using found_child [OF ok] "2.prems"(3) child_of_fields by blast
    then show ?thesis by auto
  next
    case 3
    then show ?thesis using "2.hyps"(2) [OF refl refl dc [symmetric]] "2.prems"(1,3) by auto
  qed (use dc in auto)
qed simp

lemma no_entry:
  assumes "properties_ok (schema_fields v)" and "types \<noteq> []" and "\<not> hasSpecificTypeChild lower types v"
  shows "filter (selectable types) (menu_entries lower [] (schema_fields v) val) = []"
proof -
  have "\<not> selectable types e" if e: "e \<in> set (menu_entries lower [] (schema_fields v) val)" for e
  proof
    assume "selectable types e"
    then obtain x where x: "x \<in> set types" "e = (fst e, JStr x)" using assms(2) by (cases e) (auto simp: selectable_def)
    then obtain k' v' where "(k', v') \<in> set (schema_fields v)" "snd (getStructuredDatatype v') = JStr x \<or> hasSpecificTypeChild lower types v'"
      using entry_found [OF assms(1), of "fst e" x lower val types] e by auto
    then show False using found_child [OF assms(1)] x(1) child_of_fields assms(3) by blast
  qed
  then show ?thesis by (simp add: filter_empty_conv)
qed

lemma pruned_entries:
  "properties_ok ps \<Longrightarrow> types \<noteq> [] \<Longrightarrow>
     filter (selectable types) (menu_entries lower types ps val) = filter (selectable types) (menu_entries lower [] ps val)"
proof (induction lower types ps val rule: menu_entries.induct)
  case (2 lower types k v rest val)
  obtain d c where dc: "getStructuredDatatype v = (d, c)" by fastforce
  have v: "isPlainObject v" "properties_ok (schema_fields v)" "properties_ok rest" using "2.prems"(1) by simp_all
  then have co: "js_coalesce v (JObj []) = v" by (cases v) (simp_all add: js_coalesce_def)
  have nested: "filter (selectable types) (menu_entries lower types (schema_fields v) (val @ ''.'' @ k)) =
      filter (selectable types) (menu_entries lower [] (schema_fields v) (val @ ''.'' @ k))"
    if "(\<exists>x\<in>set types. JStr x = c) \<or> hasSpecificTypeChild lower types v" "d = JStr ''object'' \<or> d = JStr ''array''"
    using "2.IH"(1) [OF refl refl dc [symmetric]] that "2.prems"(2) v(2) co by auto
  have rest: "filter (selectable types) (menu_entries lower types rest val) = filter (selectable types) (menu_entries lower [] rest val)"
    using "2.IH"(2) [OF refl refl dc [symmetric] v(3) "2.prems"(2)] .
  have hidden: "filter (selectable types) (menu_entries lower [] (schema_fields v) (val @ ''.'' @ k)) = []"
    if "\<not> hasSpecificTypeChild lower types v"
    by (rule no_entry [OF v(2) "2.prems"(2) that])
  have sel: "selectable types (p, c) \<longleftrightarrow> (\<exists>x\<in>set types. JStr x = c)" for p using "2.prems"(2) by (simp add: selectable_def)
  show ?case
    using nested rest hidden "2.prems"(2) dc co by (auto simp: Let_def sel)
qed simp

text \<open>
  C18: a menu that is restricted to some types offers exactly the entries of the whole menu that have one of these types:
  the search that hides branches hides none of them, also when it hides the whole output.
\<close>

theorem structured_menu_exact:
  assumes "properties_ok (schema_fields out)"
  shows "filter (selectable types) (case structuredOutputMenu lower types out val of None \<Rightarrow> [] | Some es \<Rightarrow> es) =
    filter (selectable types) (menu_entries lower [] (schema_fields out) val)"
proof (cases "types = []")
  case False
  then show ?thesis
    using pruned_entries [OF assms False] no_entry [OF assms False] by (simp add: structuredOutputMenu_def)
qed (simp add: structuredOutputMenu_def)

definition sample_output :: jsval where
  "sample_output = JObj [(''type'', JStr ''object''), (''properties'', JObj [(''a'', JObj [(''type'', JStr ''string'')]),
     (''rows'', JObj [(''type'', JStr ''array''), (''items'', JObj [(''type'', JStr ''object''), (''properties'', JObj [(''n'', JObj [(''type'', JStr ''number'')])])])])])]"

theorem structured_menu_exact_witness:
  "filter (selectable [''number'']) (menu_entries js_to_string [] (schema_fields sample_output) ''x'') = [(''x.rows.n'', JStr ''number'')]
   \<and> filter (selectable [''number'']) (case structuredOutputMenu js_to_string [''number''] sample_output ''x'' of None \<Rightarrow> [] | Some es \<Rightarrow> es) =
       [(''x.rows.n'', JStr ''number'')]"
proof -
  have ok: "properties_ok (schema_fields sample_output)" by code_simp
  have "filter (selectable [''number'']) (menu_entries js_to_string [] (schema_fields sample_output) ''x'') = [(''x.rows.n'', JStr ''number'')]"
    by code_simp
  then show ?thesis using structured_menu_exact [OF ok, of "[''number'']" js_to_string "''x''"] by (simp only: simp_thms)
qed

end
