(* ===== verification/Json_Validator.thy ===== *)
theory Json_Validator
  imports Js_Prelude
begin

text \<open>
  The validator of the schema builder, \<open>components/jsonjoy-builder/utils/json-validator.ts\<close>: where in a document an error
  of the parser or of the schema lies. The parser's and the validator's verdicts are arguments (\<open>JSON.parse\<close> and ajv).
  The pattern for a property at the top is built from its name; for names of letters, digits, underscores, hyphens and
  blanks it is a search for the quoted name, for other names the matching is an argument, \<open>None\<close> for an invalid pattern.
\<close>

section \<open>Searching the text\<close>

fun index_of :: "string \<Rightarrow> string \<Rightarrow> nat option" where
  \<comment> \<open>\<open>s.indexOf(p)\<close>, with \<open>None\<close> for -1\<close>
  "index_of [] p = (if p = [] then Some 0 else None)"
| "index_of (c # cs) p = (if starts_with (c # cs) p then Some 0 else map_option Suc (index_of cs p))"

definition column_of :: "string \<Rightarrow> string \<Rightarrow> nat" where
  \<comment> \<open>\<open>line.indexOf(p) + 1\<close>\<close>
  "column_of line p = (case index_of line p of None \<Rightarrow> 0 | Some i \<Rightarrow> i + 1)"

definition quoted :: "string \<Rightarrow> string" where
  "quoted n = CHR 0x22 # n @ [CHR 0x22]"

definition plain_char :: "char \<Rightarrow> bool" where
  "plain_char c = (let n = of_char c :: nat in 48 \<le> n \<and> n \<le> 57 \<or> 65 \<le> n \<and> n \<le> 90 \<or> 97 \<le> n \<and> n \<le> 122 \<or> n = 95 \<or> n = 45 \<or> n = 32)"

definition plain_name :: "string \<Rightarrow> bool" where
  "plain_name n = list_all plain_char n"

definition prop_pattern :: "(string \<Rightarrow> (string \<Rightarrow> bool) option) \<Rightarrow> string \<Rightarrow> (string \<Rightarrow> bool) option" where
  \<comment> \<open>\<open>new RegExp(`([\\s]*)("${propName}")`)\<close>\<close>
  "prop_pattern re propName = (if plain_name propName then Some (\<lambda>line. includes_str line (quoted propName)) else re propName)"

definition json_lines :: "string \<Rightarrow> string list" where
  "json_lines s = js_split (CHR 0x0A) s"

definition pathSegments :: "string \<Rightarrow> string list" where
  "pathSegments path = filter (\<lambda>s. s \<noteq> []) (js_split (CHR ''/'') path)"

definition first_line :: "(string \<Rightarrow> bool) \<Rightarrow> string \<Rightarrow> string list \<Rightarrow> (nat \<times> nat) option" where
  \<comment> \<open>the first line that matches, and the column of the name in it\<close>
  "first_line hit name ls = map_option (\<lambda>i. (i + 1, column_of (ls ! i) (quoted name))) (find_index hit ls)"

fun child_line :: "bool \<Rightarrow> string \<Rightarrow> string \<Rightarrow> string list \<Rightarrow> nat option" where
  \<comment> \<open>the loop for the path \<open>/aa/a\<close>: the first line with the child after one with the parent\<close>
  "child_line found parent child [] = None"
| "child_line found parent child (l # ls) =
     (if includes_str l (quoted parent) then map_option Suc (child_line True parent child ls)
      else if found \<and> includes_str l (quoted child) then Some 0
      else map_option Suc (child_line found parent child ls))"

definition findLineNumberForPath :: "(string \<Rightarrow> (string \<Rightarrow> bool) option) \<Rightarrow> string \<Rightarrow> string \<Rightarrow> (nat \<times> nat) option" where
  "findLineNumberForPath re jsonStr path =
     (let segs = pathSegments path; ls = json_lines jsonStr in
      if segs = [] then Some (1, 1)
      else if length segs = 1 then
        (case prop_pattern re (hd segs) of None \<Rightarrow> None | Some hit \<Rightarrow> first_line hit (hd segs) ls)
      else
        (case (if path = ''/aa/a'' then child_line False (segs ! 0) (segs ! 1) ls else None) of
           Some i \<Rightarrow> Some (i + 1, column_of (ls ! i) (quoted (segs ! 1)))
         | None \<Rightarrow> first_line (\<lambda>l. includes_str l (quoted (last segs))) (last segs) ls))"

section \<open>Positions in messages\<close>

definition number_after :: "string \<Rightarrow> string \<Rightarrow> (nat \<times> string) option" where
  \<comment> \<open>a text and digits after it; their value and what follows\<close>
  "number_after p s =
     (let r = drop (length p) s; ds = takeWhile is_digit r in
      if starts_with s p \<and> ds \<noteq> [] then Some (dec_val ds, dropWhile is_digit r) else None)"

definition line_col_here :: "string \<Rightarrow> (nat \<times> nat) option" where
  \<comment> \<open>\<open>/at line (\d+) column (\d+)/\<close> at the start\<close>
  "line_col_here s =
     (case number_after ''at line '' s of None \<Rightarrow> None
      | Some (l, r) \<Rightarrow> map_option (\<lambda>(c, _). (l, c)) (number_after '' column '' r))"

fun search :: "(string \<Rightarrow> 'a option) \<Rightarrow> string \<Rightarrow> 'a option" where
  \<comment> \<open>the leftmost match\<close>
  "search here [] = here []"
| "search here (c # cs) = (case here (c # cs) of Some x \<Rightarrow> Some x | None \<Rightarrow> search here cs)"

definition positionMatch :: "string \<Rightarrow> nat option" where
  "positionMatch msg = search (\<lambda>s. map_option fst (number_after ''position '' s)) msg"

definition extractErrorPosition :: "string \<Rightarrow> string \<Rightarrow> nat \<times> nat" where
  \<comment> \<open>the message and the document\<close>
  "extractErrorPosition msg jsonInput =
     (case search line_col_here msg of
        Some lc \<Rightarrow> lc
      | None \<Rightarrow>
          (case positionMatch msg of
             None \<Rightarrow> (1, 1)
           | Some p \<Rightarrow> let ls = json_lines (take p jsonInput) in (length ls, length (last ls) + 1)))"

section \<open>Validation\<close>

record validation_error =
  ve_path :: string
  ve_message :: string
  ve_position :: "(nat \<times> nat) option"

definition validateJson ::
    "(string \<Rightarrow> (string \<Rightarrow> bool) option) \<Rightarrow> (string \<Rightarrow> string + jsval) \<Rightarrow> (jsval \<Rightarrow> string + (string \<times> string) list) \<Rightarrow> string
       \<Rightarrow> bool \<times> validation_error list" where
  \<comment> \<open>\<open>JSON.parse\<close>, the message of an error or the value; the validator compiled from the schema, the message of an error
     or the paths and messages of what is wrong\<close>
  "validateJson re parse validate jsonInput =
     (if js_trim jsonInput = [] then (False, [\<lparr>ve_path = ''/'', ve_message = ''Empty JSON input'', ve_position = None\<rparr>])
      else
        (let thrown = (\<lambda>msg. (False, [\<lparr>ve_path = ''/'', ve_message = msg, ve_position = Some (extractErrorPosition msg jsonInput)\<rparr>])) in
         case parse jsonInput of
           Inl msg \<Rightarrow> thrown msg
         | Inr v \<Rightarrow>
             (case validate v of
                Inl msg \<Rightarrow> thrown msg
              | Inr [] \<Rightarrow> (True, [])
              | Inr errs \<Rightarrow> (False, map (\<lambda>(p, m). let path = (if p = [] then ''/'' else p) in
                  \<lparr>ve_path = path, ve_message = (if m = [] then ''Unknown error'' else m),
                   ve_position = findLineNumberForPath re jsonInput path\<rparr>) errs))))"

section \<open>Properties\<close>

lemma js_split_concat:
  "js_split c (s @ t) = butlast (js_split c s) @ [last (js_split c s) @ hd (js_split c t)] @ tl (js_split c t)"
proof (induction s)
  case Nil
  then show ?case by (cases "js_split c t") simp_all
next
  case (Cons x s)
  then show ?case by (cases "js_split c s") (auto simp: neq_Nil_conv)
qed

lemma js_split_total: "length s + 1 = sum_list (map length (js_split c s)) + length (js_split c s)"
proof (induction s)
  case (Cons x s)
  then show ?case by (cases "js_split c s") auto
qed simp

text \<open>The index in the document at which a line and a column begin.\<close>

definition offset :: "string \<Rightarrow> nat \<times> nat \<Rightarrow> nat" where
  "offset s lc = sum_list (map length (take (fst lc - 1) (json_lines s))) + (fst lc - 1) + (snd lc - 1)"

lemma split_position:
  assumes "p \<le> length s"
  defines "ls \<equiv> json_lines (take p s)"
  shows "offset s (length ls, length (last ls) + 1) = p \<and> length ls \<le> length (json_lines s)
    \<and> length (last ls) \<le> length (json_lines s ! (length ls - 1))"
proof -
  have ne: "ls \<noteq> []" by (simp add: ls_def json_lines_def)
  have s: "json_lines s = butlast ls @ [last ls @ hd (json_lines (drop p s))] @ tl (json_lines (drop p s))"
    using js_split_concat [of "CHR 0x0A" "take p s" "drop p s"] by (simp add: ls_def json_lines_def)
  have "p + 1 = sum_list (map length ls) + length ls"
    using js_split_total [of "take p s" "CHR 0x0A"] assms(1) by (simp add: ls_def json_lines_def)
  moreover have "sum_list (map length ls) = sum_list (map length (butlast ls)) + length (last ls)"
    using ne by (cases ls rule: rev_cases) simp_all
  ultimately show ?thesis using ne by (simp add: offset_def s nth_append) (cases ls; simp)
qed

text \<open>
  A syntax error of which the parser reports the position is shown at the line and column of exactly this position.
\<close>

theorem syntax_error_position:
  assumes "search line_col_here msg = None" and "positionMatch msg = Some p" and "p \<le> length doc"
    and "extractErrorPosition msg doc = (l, c)"
  shows "offset doc (l, c) = p \<and> 1 \<le> l \<and> l \<le> length (json_lines doc) \<and> 1 \<le> c \<and> c \<le> length (json_lines doc ! (l - 1)) + 1"
proof -
  have "l = length (json_lines (take p doc))" "c = length (last (json_lines (take p doc))) + 1"
    using assms(1,2,4) by (auto simp: extractErrorPosition_def Let_def)
  moreover have "1 \<le> length (json_lines (take p doc))" by (simp add: json_lines_def Suc_le_eq)
  ultimately show ?thesis using split_position [OF assms(3)] by simp
qed

definition sample_document :: string where
  "sample_document = ''{'' @ [CHR 0x0A] @ ''a'' @ [CHR 0x0A] @ ''}''"

theorem syntax_error_position_witness:
  "extractErrorPosition ''Unexpected token at position 2'' sample_document = (2, 1)
   \<and> offset sample_document (2, 1) = 2"
proof -
  have m: "search line_col_here ''Unexpected token at position 2'' = None" "positionMatch ''Unexpected token at position 2'' = Some 2"
    by code_simp+
  have e: "extractErrorPosition ''Unexpected token at position 2'' sample_document = (2, 1)" by code_simp
  show ?thesis using syntax_error_position [OF m _ e] e by (simp add: sample_document_def)
qed

subsection \<open>Properties in the document\<close>

lemma index_of_Some: "index_of s p = Some i \<Longrightarrow> starts_with (drop i s) p \<and> i \<le> length s"
  by (induction s arbitrary: i) (auto simp: starts_with_def split: if_splits)

lemma index_of_None: "index_of s p = None \<longleftrightarrow> \<not> includes_str s p"
  by (induction s) (auto simp: starts_with_def)

lemma column_of_found:
  "includes_str line p \<Longrightarrow> 1 \<le> column_of line p \<and> starts_with (drop (column_of line p - 1) line) p"
  using index_of_Some [of line p] index_of_None [of line p] by (cases "index_of line p") (auto simp: column_of_def)

definition stands_at :: "string \<Rightarrow> string \<Rightarrow> nat \<times> nat \<Rightarrow> bool" where
  \<comment> \<open>the text begins at the line and column of the document\<close>
  "stands_at doc p lc =
     (1 \<le> fst lc \<and> fst lc \<le> length (json_lines doc) \<and> 1 \<le> snd lc \<and> starts_with (drop (snd lc - 1) (json_lines doc ! (fst lc - 1))) p)"

lemma first_line_found:
  "first_line (\<lambda>l. includes_str l (quoted n)) n (json_lines doc) = Some lc \<Longrightarrow> stands_at doc (quoted n) lc"
  using find_index_Some column_of_found by (fastforce simp: first_line_def stands_at_def)

lemma child_line_found: "child_line f a b ls = Some i \<Longrightarrow> i < length ls \<and> includes_str (ls ! i) (quoted b)"
  by (induction f a b ls arbitrary: i rule: child_line.induct) (auto split: if_splits)

text \<open>
  Where the validator says that a property is wrong, the name of the property stands, in quotes; for an error of the
  whole document it says the first column of the first line.
\<close>

theorem reported_name_stands_there:
  assumes "findLineNumberForPath re doc path = Some lc" and "pathSegments path \<noteq> []"
    and "length (pathSegments path) = 1 \<longrightarrow> plain_name (hd (pathSegments path))"
  shows "stands_at doc (quoted (last (pathSegments path))) lc"
proof (cases "length (pathSegments path) = 1")
  case True
  then obtain n where n: "pathSegments path = [n]" by (auto simp: length_Suc_conv)
  then show ?thesis using assms first_line_found by (simp add: findLineNumberForPath_def prop_pattern_def)
next
  case False
  show ?thesis
  proof (cases "path = ''/aa/a'' \<and> (\<exists>i. child_line False ''aa'' ''a'' (json_lines doc) = Some i)")
    case True
    then obtain i where i: "child_line False ''aa'' ''a'' (json_lines doc) = Some i" by blast
    have segs: "pathSegments path = [''aa'', ''a'']" using True by (simp add: pathSegments_def)
    then have "lc = (i + 1, column_of (json_lines doc ! i) (quoted ''a''))"
      using assms(1) True i by (simp add: findLineNumberForPath_def)
    then show ?thesis using child_line_found [OF i] column_of_found segs by (auto simp: stands_at_def)
  next
    case other: False
    have segs: "path = ''/aa/a'' \<Longrightarrow> pathSegments path = [''aa'', ''a'']" by (simp add: pathSegments_def)
    have "first_line (\<lambda>l. includes_str l (quoted (last (pathSegments path)))) (last (pathSegments path)) (json_lines doc) = Some lc"
      using assms(1,2) False other segs by (auto simp: findLineNumberForPath_def Let_def split: option.splits if_splits)
    then show ?thesis by (rule first_line_found)
  qed
qed

theorem reported_name_stands_there_witness:
  "findLineNumberForPath (\<lambda>_. None) (''{ '' @ quoted ''a'' @ '': 1 }'') ''/a'' = Some (1, 3)
   \<and> stands_at (''{ '' @ quoted ''a'' @ '': 1 }'') (quoted ''a'') (1, 3)"
proof -
  have f: "findLineNumberForPath (\<lambda>_. None) (''{ '' @ quoted ''a'' @ '': 1 }'') ''/a'' = Some (1, 3)" by code_simp
  have p: "pathSegments ''/a'' = [''a'']" by code_simp
  moreover have "plain_name ''a''" by code_simp
  ultimately show ?thesis using f reported_name_stands_there [OF f] by simp
qed

text \<open>Only the last segment of a longer path is searched for: a property of the same name elsewhere is reported.\<close>

lemma parents_ignored:
  assumes "path \<noteq> ''/aa/a''" "path' \<noteq> ''/aa/a''" "length (pathSegments path) > 1" "length (pathSegments path') > 1"
    and "last (pathSegments path) = last (pathSegments path')"
  shows "findLineNumberForPath re doc path = findLineNumberForPath re doc path'"
proof -
  have "pathSegments path \<noteq> []" "length (pathSegments path) \<noteq> 1" "pathSegments path' \<noteq> []" "length (pathSegments path') \<noteq> 1"
    using assms(3,4) by auto
  then show ?thesis using assms(1,2,5) by (simp only: findLineNumberForPath_def Let_def if_False option.case)
qed

end
