(* ===== verification/Ui_Widgets.thy ===== *)
theory Ui_Widgets
  imports Js_Prelude
begin

text \<open>
  State that lives in widgets: the toasts (\<open>components/hooks/use-toast.tsx\<close>), the selection of several options
  (\<open>components/ui/multi-select.tsx\<close>), the fields of global variables
  (\<open>pages/agent/gobal-variable-sheet/hooks/use-object-fields.tsx\<close>, \<open>components/ui/input.tsx\<close>), the operations on selected
  documents (\<open>pages/dataset/dataset/use-bulk-operate-dataset.tsx\<close>) and the references of chat answers
  (\<open>pages/next-chats/utils.ts\<close>).
\<close>

section \<open>Toasts\<close>

record toast =
  t_id :: string
  t_props :: "jsval obj"
  t_open :: bool

datatype toast_action = AddToast toast | UpdateToast string "jsval obj" | DismissToast "string option" | RemoveToast "string option"

record toast_state =
  toasts :: "toast list"
  toastTimeouts :: "string list"      \<comment> \<open>the keys of the map of timers\<close>
  toastCount :: nat

definition TOAST_LIMIT :: nat where
  "TOAST_LIMIT = 1"

definition addToRemoveQueue :: "string \<Rightarrow> string list \<Rightarrow> string list" where
  "addToRemoveQueue i ts = (if i \<in> set ts then ts else ts @ [i])"

fun toast_reducer :: "toast_action \<Rightarrow> toast_state \<Rightarrow> toast_state" where
  "toast_reducer (AddToast t) s = s\<lparr>toasts := take TOAST_LIMIT (t # toasts s)\<rparr>"
| "toast_reducer (UpdateToast i props) s =
     s\<lparr>toasts := map (\<lambda>t. if t_id t = i then t\<lparr>t_props := obj_assign (t_props t) props\<rparr> else t) (toasts s)\<rparr>"
| "toast_reducer (DismissToast i) s =
     s\<lparr>toastTimeouts := (case i of
          Some j \<Rightarrow> if j \<noteq> [] then addToRemoveQueue j (toastTimeouts s) else fold addToRemoveQueue (map t_id (toasts s)) (toastTimeouts s)
        | None \<Rightarrow> fold addToRemoveQueue (map t_id (toasts s)) (toastTimeouts s)),
       toasts := map (\<lambda>t. if i = None \<or> i = Some (t_id t) then t\<lparr>t_open := False\<rparr> else t) (toasts s)\<rparr>"
| "toast_reducer (RemoveToast i) s =
     s\<lparr>toasts := (case i of None \<Rightarrow> [] | Some j \<Rightarrow> filter (\<lambda>t. t_id t \<noteq> j) (toasts s))\<rparr>"

definition genId :: "toast_state \<Rightarrow> toast_state \<times> string" where
  "genId s = (let c = (toastCount s + 1) mod 9007199254740991 in (s\<lparr>toastCount := c\<rparr>, nat_to_string c))"

definition show_toast :: "jsval obj \<Rightarrow> toast_state \<Rightarrow> toast_state" where
  \<comment> \<open>\<open>toast\<close>\<close>
  "show_toast props s = (case genId s of (s', i) \<Rightarrow> toast_reducer (AddToast \<lparr>t_id = i, t_props = props, t_open = True\<rparr>) s')"

definition remove_timer :: "string \<Rightarrow> toast_state \<Rightarrow> toast_state" where
  \<comment> \<open>the timer of a toast fires\<close>
  "remove_timer i s = toast_reducer (RemoveToast (Some i)) (s\<lparr>toastTimeouts := filter (\<lambda>j. j \<noteq> i) (toastTimeouts s)\<rparr>)"

inductive toast_step :: "toast_state \<Rightarrow> toast_state \<Rightarrow> bool" where
  step_show: "toast_step s (show_toast props s)"
| step_update: "toast_step s (toast_reducer (UpdateToast i props) s)"
| step_dismiss: "toast_step s (toast_reducer (DismissToast i) s)"
| step_timer: "i \<in> set (toastTimeouts s) \<Longrightarrow> toast_step s (remove_timer i s)"

section \<open>Selecting several options\<close>

record multi_select =
  ms_options :: "(string \<times> bool) list"      \<comment> \<open>\<open>flatOptions\<close>: value and \<open>disabled\<close>\<close>
  ms_selected :: "string list"
  ms_reported :: "string list list"          \<comment> \<open>the calls of \<open>onValueChange\<close>\<close>

definition disabled_value :: "multi_select \<Rightarrow> string \<Rightarrow> bool" where
  "disabled_value m v = list_ex (\<lambda>(x, d). x = v \<and> d) (ms_options m)"

definition set_of_values :: "string list \<Rightarrow> string list" where
  \<comment> \<open>\<open>Array.from(new Set(xs))\<close>\<close>
  "set_of_values xs = rev (remdups (rev xs))"

definition preserveDisabledValues :: "multi_select \<Rightarrow> string list \<Rightarrow> string list" where
  "preserveDisabledValues m vs = set_of_values (filter (disabled_value m) (ms_selected m) @ vs)"

definition select_values :: "string list \<Rightarrow> multi_select \<Rightarrow> multi_select" where
  "select_values vs m = m\<lparr>ms_selected := vs, ms_reported := ms_reported m @ [vs]\<rparr>"

definition toggleOption :: "string \<Rightarrow> multi_select \<Rightarrow> multi_select" where
  "toggleOption v m =
     (if disabled_value m v then m
      else select_values (if v \<in> set (ms_selected m) then filter (\<lambda>x. x \<noteq> v) (ms_selected m) else ms_selected m @ [v]) m)"

definition ms_clear :: "multi_select \<Rightarrow> multi_select" where
  \<comment> \<open>\<open>handleClear\<close>\<close>
  "ms_clear m = select_values (preserveDisabledValues m []) m"

definition clearExtraOptions :: "nat \<Rightarrow> multi_select \<Rightarrow> multi_select" where
  "clearExtraOptions maxCount m = select_values (preserveDisabledValues m (take maxCount (ms_selected m))) m"

definition toggleAll :: "multi_select \<Rightarrow> multi_select" where
  "toggleAll m =
     (if length (ms_selected m) = length (ms_options m) then ms_clear m
      else select_values (preserveDisabledValues m (map fst (ms_options m))) m)"

definition remove_last :: "multi_select \<Rightarrow> multi_select" where
  \<comment> \<open>\<open>Backspace\<close> in an empty input\<close>
  "remove_last m =
     (case find_index (\<lambda>v. \<not> disabled_value m v) (rev (ms_selected m)) of
        None \<Rightarrow> m
      | Some i \<Rightarrow> let k = length (ms_selected m) - 1 - i
                   in select_values (take k (ms_selected m) @ drop (Suc k) (ms_selected m)) m)"

inductive select_step :: "multi_select \<Rightarrow> multi_select \<Rightarrow> bool" where
  "select_step m (toggleOption v m)"
| "select_step m (ms_clear m)"
| "select_step m (clearExtraOptions k m)"
| "select_step m (toggleAll m)"
| "select_step m (remove_last m)"

section \<open>Fields of global variables\<close>

datatype key_step = Key string | Index nat

definition key_ok :: "string \<Rightarrow> bool" where
  \<comment> \<open>\<open>/^[a-zA-Z_0-9]+$/.test(key)\<close>\<close>
  "key_ok k = (k \<noteq> [] \<and> list_all (\<lambda>c. let n = of_char c :: nat in 48 \<le> n \<and> n \<le> 57 \<or> 65 \<le> n \<and> n \<le> 90 \<or> 97 \<le> n \<and> n \<le> 122 \<or> n = 95) k)"

datatype key_error = EmptyObject "key_step list" | BadKey "key_step list" string

function validateKeys :: "jsval \<Rightarrow> key_step list \<Rightarrow> key_error list" where
  "validateKeys (JObj ob) path =
     (if ob = [] then [EmptyObject path] else []) @
     concat (map (\<lambda>(k, v). (if key_ok k then [] else [BadKey (path @ [Key k]) k]) @ validateKeys v (path @ [Key k])) ob)"
| "validateKeys (JArr xs) path = concat (map (\<lambda>(i, v). validateKeys v (path @ [Index i])) (enumerate 0 xs))"
| "validateKeys JNull path = [EmptyObject path]"
| "validateKeys JUndef path = []"
| "validateKeys (JBool b) path = []"
| "validateKeys (JNum n) path = []"
| "validateKeys (JStr s) path = []"
  by pat_completeness auto

termination
proof (relation "measure (\<lambda>(v, _). size v)")
  fix ob :: "jsval obj" and path :: "key_step list" and z k v
  assume "z \<in> set ob" "(k, v) = z"
  then show "((v, path @ [Key k]), (JObj ob, path)) \<in> measure (\<lambda>(v, _). size v)"
    using entries_size [of k v "JObj ob"] by simp
next
  fix xs :: "jsval list" and path :: "key_step list" and z i v
  assume "z \<in> set (enumerate 0 xs)" "(i, v) = z"
  then have "(nat_to_string i, v) \<in> set (entries (JArr xs))" by force
  then show "((v, path @ [Index i]), (JArr xs, path)) \<in> measure (\<lambda>(v, _). size v)"
    using entries_size [of "nat_to_string i" v "JArr xs"] by simp
qed simp

definition typed_input :: "string \<Rightarrow> string \<Rightarrow> jsval" where
  \<comment> \<open>\<open>handleChange\<close> of an input: the type of the input and the text in it\<close>
  "typed_input type txt = (if type = ''number'' \<and> txt \<noteq> [] then JNum (num_of_string txt) else JStr txt)"

definition edit_entry :: "string \<Rightarrow> nat \<Rightarrow> string \<Rightarrow> jsval list \<Rightarrow> jsval list" where
  "edit_entry type i txt vs = vs[i := typed_input type txt]"

definition delete_entry :: "nat \<Rightarrow> jsval list \<Rightarrow> jsval list" where
  "delete_entry i vs = take i vs @ drop (Suc i) vs"

definition add_entry :: "jsval list \<Rightarrow> jsval list" where
  "add_entry vs = vs @ [JStr []]"

definition js_typeof :: "jsval \<Rightarrow> string" where
  "js_typeof v = (case v of JUndef \<Rightarrow> ''undefined'' | JBool _ \<Rightarrow> ''boolean'' | JNum _ \<Rightarrow> ''number'' | JStr _ \<Rightarrow> ''string'' | _ \<Rightarrow> ''object'')"

definition arrayValidate :: "string \<Rightarrow> jsval \<Rightarrow> bool" where
  \<comment> \<open>\<open>False\<close> if it throws\<close>
  "arrayValidate type v = (case v of JArr xs \<Rightarrow> list_all (\<lambda>x. js_typeof x = type) xs | _ \<Rightarrow> False)"

section \<open>Selected documents\<close>

record doc_info =
  d_id :: string
  d_virtual :: bool      \<comment> \<open>\<open>type === DocumentType.Virtual\<close>\<close>
  d_run :: string
  d_chunks :: nat

definition chunkNum :: "doc_info list \<Rightarrow> string list \<Rightarrow> nat" where
  "chunkNum docs sel = sum_list (map d_chunks (filter (\<lambda>d. d_id d \<in> set sel \<and> d_id d \<noteq> []) docs))"

definition nonVirtualKeys :: "doc_info list \<Rightarrow> string list \<Rightarrow> string list" where
  "nonVirtualKeys docs sel = filter (\<lambda>x. \<not> (\<exists>y\<in>set docs. x = d_id y \<and> d_virtual y)) sel"

definition runDocument :: "doc_info list \<Rightarrow> string list \<Rightarrow> string list option" where
  \<comment> \<open>the ids of the request, \<open>None\<close> for an error message\<close>
  "runDocument docs sel = (let ks = nonVirtualKeys docs sel in if ks = [] then None else Some ks)"

definition bulk_delete :: "doc_info list \<Rightarrow> string list \<Rightarrow> string list option" where
  \<comment> \<open>\<open>handleDelete\<close>\<close>
  "bulk_delete docs sel =
     (let ks = filter (\<lambda>x. \<not> (\<exists>y\<in>set (filter (\<lambda>y. d_run y = ''1'') docs). d_id y = x)) sel in if ks = [] then None else Some ks)"

section \<open>References of answers\<close>

record chat_item =
  ci_id :: string
  ci_role :: string
  ci_content :: string
  ci_reference :: "jsval option"      \<comment> \<open>\<open>None\<close> if it is empty\<close>

definition answers_with_reference :: "chat_item list \<Rightarrow> chat_item list" where
  \<comment> \<open>\<open>assistantMessages\<close>\<close>
  "answers_with_reference ms = drop 1 (filter (\<lambda>x. ci_role x = ''assistant'' \<and> \<not> starts_with (ci_content x) ''**ERROR**:'') ms)"

definition buildMessageItemReference :: "chat_item list \<Rightarrow> jsval list \<Rightarrow> chat_item \<Rightarrow> jsval option" where
  \<comment> \<open>\<open>None\<close> for a reference without documents and chunks\<close>
  "buildMessageItemReference ms refs m =
     (case ci_reference m of
        Some r \<Rightarrow> Some r
      | None \<Rightarrow> (case find_index (\<lambda>x. ci_id x = ci_id m) (answers_with_reference ms) of
            None \<Rightarrow> None
          | Some i \<Rightarrow> if i < length refs \<and> \<not> nullish (refs ! i) then Some (refs ! i) else None))"

fun add_document_ids :: "string list \<Rightarrow> string list \<Rightarrow> string list" where
  "add_document_ids pre [] = pre"
| "add_document_ids pre (x # xs) = add_document_ids (if x \<in> set pre then pre else pre @ [x]) xs"

definition getDocumentIds :: "string list list \<Rightarrow> string list" where
  \<comment> \<open>\<open>getDocumentIdsFromConversionReference\<close> before the ids are joined, from the \<open>doc_aggs\<close> of each reference\<close>
  "getDocumentIds refs = foldl add_document_ids [] refs"

section \<open>Properties\<close>

subsection \<open>Toasts\<close>

definition no_toasts :: toast_state where
  "no_toasts = \<lparr>toasts = [], toastTimeouts = [], toastCount = 0\<rparr>"

definition toasts_ok :: "toast_state \<Rightarrow> bool" where
  "toasts_ok s =
     (length (toasts s) \<le> TOAST_LIMIT \<and> distinct (toastTimeouts s)
      \<and> (\<forall>t\<in>set (toasts s). t_id t \<noteq> [] \<and> (\<not> t_open t \<longrightarrow> t_id t \<in> set (toastTimeouts s))))"

lemma addToRemoveQueue_facts [simp]:
  "set (addToRemoveQueue i ts) = insert i (set ts)" "distinct ts \<Longrightarrow> distinct (addToRemoveQueue i ts)"
  by (auto simp: addToRemoveQueue_def)

lemma fold_queue [simp]:
  "set (fold addToRemoveQueue is ts) = set is \<union> set ts" "distinct ts \<Longrightarrow> distinct (fold addToRemoveQueue is ts)"
  by (induction "is" arbitrary: ts) auto

lemma toasts_ok_step: "toast_step s s' \<Longrightarrow> toasts_ok s \<Longrightarrow> toasts_ok s'"
proof (induction rule: toast_step.induct)
  case (step_show s props)
  then show ?case by (auto simp: toasts_ok_def show_toast_def genId_def Let_def TOAST_LIMIT_def)
next
  case (step_update s i props)
  then show ?case by (auto simp: toasts_ok_def)
next
  case (step_dismiss s i)
  then show ?case by (auto simp: toasts_ok_def split: option.split)
next
  case (step_timer i s)
  then show ?case by (auto simp: toasts_ok_def remove_timer_def intro: order_trans [OF length_filter_le])
qed

text \<open>
  At any time at most one toast is shown, and one that was dismissed has a timer, which removes it.
\<close>

theorem toasts_invariant:
  assumes "toast_step\<^sup>*\<^sup>* no_toasts s" and "t \<in> set (toasts s)"
  shows "toasts s = [t] \<and> (\<not> t_open t \<longrightarrow> t_id t \<in> set (toastTimeouts s) \<and> toasts (remove_timer (t_id t) s) = [])"
proof -
  have "toasts_ok s"
    using assms(1) by (induction rule: rtranclp_induct) (simp_all add: toasts_ok_step, simp add: toasts_ok_def no_toasts_def)
  then show ?thesis using assms(2) by (cases "toasts s") (auto simp: toasts_ok_def TOAST_LIMIT_def remove_timer_def)
qed

theorem toasts_invariant_witness:
  "\<exists>s t. toast_step\<^sup>*\<^sup>* no_toasts s \<and> t \<in> set (toasts s) \<and> \<not> t_open t \<and> toasts (remove_timer (t_id t) s) = []"
proof -
  let ?s = "toast_reducer (DismissToast None) (show_toast [] no_toasts)"
  have r: "toast_step\<^sup>*\<^sup>* no_toasts ?s" by (meson r_into_rtranclp rtranclp.rtrancl_into_rtrancl step_show step_dismiss)
  let ?t = "\<lparr>t_id = nat_to_string 1, t_props = [], t_open = False\<rparr>"
  have t: "?t \<in> set (toasts ?s)" by (simp add: show_toast_def genId_def no_toasts_def TOAST_LIMIT_def)
  have o: "\<not> t_open ?t" by simp
  then have "toasts (remove_timer (t_id ?t) ?s) = []" using toasts_invariant [OF r t] by blast
  then show ?thesis using r t o by blast
qed

subsection \<open>Selections\<close>

lemma set_of_values_facts [simp]: "set (set_of_values xs) = set xs" "distinct (set_of_values xs)"
  by (simp_all add: set_of_values_def)

lemma select_values_simps [simp]:
  "ms_options (select_values vs m) = ms_options m" "ms_selected (select_values vs m) = vs"
  "disabled_value (select_values vs m) = disabled_value m"
  by (simp_all add: select_values_def disabled_value_def fun_eq_iff)

definition keeps_locked :: "multi_select \<Rightarrow> multi_select \<Rightarrow> bool" where
  "keeps_locked m m' =
     (ms_options m' = ms_options m \<and> (\<forall>v\<in>set (ms_selected m). disabled_value m v \<longrightarrow> v \<in> set (ms_selected m'))
      \<and> (distinct (ms_selected m) \<longrightarrow> distinct (ms_selected m')))"

lemma preserve_keeps: "keeps_locked m (select_values (preserveDisabledValues m vs) m)"
  by (auto simp: keeps_locked_def preserveDisabledValues_def)

lemma remove_last_keeps: "keeps_locked m (remove_last m)"
proof (cases "find_index (\<lambda>v. \<not> disabled_value m v) (rev (ms_selected m))")
  case (Some i)
  define k where "k = length (ms_selected m) - 1 - i"
  have i: "i < length (ms_selected m)" "\<not> disabled_value m (ms_selected m ! k)"
    using find_index_Some [OF Some] by (auto simp: k_def rev_nth)
  then have k: "k < length (ms_selected m)" by (simp add: k_def)
  define a b x where "a = take k (ms_selected m)" and "b = drop (Suc k) (ms_selected m)" and "x = ms_selected m ! k"
  have split: "ms_selected m = a @ x # b"
    using k by (simp add: id_take_nth_drop a_def b_def x_def)
  have "\<forall>v\<in>set (ms_selected m). disabled_value m v \<longrightarrow> v \<in> set (a @ b)"
    unfolding split using i(2) by (auto simp: x_def)
  moreover have "distinct (ms_selected m) \<longrightarrow> distinct (a @ b)"
    unfolding split by simp
  moreover have "remove_last m = select_values (a @ b) m"
    using Some by (simp add: remove_last_def Let_def k_def a_def b_def)
  ultimately show ?thesis by (simp add: keeps_locked_def)
qed (simp add: remove_last_def keeps_locked_def)

lemma select_step_keeps: "select_step m m' \<Longrightarrow> keeps_locked m m'"
proof (induction rule: select_step.induct)
  case (1 m v)
  then show ?case by (auto simp: keeps_locked_def toggleOption_def)
next
  case (4 m)
  then show ?case using preserve_keeps by (simp add: toggleAll_def ms_clear_def)
qed (simp_all add: ms_clear_def clearExtraOptions_def preserve_keeps remove_last_keeps)

text \<open>
  A value that is selected and disabled stays selected, whatever is clicked or typed, and no value is selected twice.
\<close>

theorem locked_values_stay:
  assumes "select_step\<^sup>*\<^sup>* m m'" and "distinct (ms_selected m)"
  shows "distinct (ms_selected m') \<and> (\<forall>v\<in>set (ms_selected m). disabled_value m v \<longrightarrow> v \<in> set (ms_selected m'))"
proof -
  have "keeps_locked m m'"
    using assms(1)
  proof (induction rule: rtranclp_induct)
    case (step y z)
    then show ?case using select_step_keeps [OF step(2)] by (auto simp: keeps_locked_def disabled_value_def)
  qed (simp add: keeps_locked_def)
  then show ?thesis using assms(2) by (simp add: keeps_locked_def)
qed

theorem locked_values_stay_witness:
  "\<exists>m m'. select_step\<^sup>*\<^sup>* m m' \<and> ms_selected m = [''a'', ''b''] \<and> ms_selected m' = [''b'']
     \<and> (\<forall>v\<in>set (ms_selected m). disabled_value m v \<longrightarrow> v \<in> set (ms_selected m'))"
proof -
  let ?m = "\<lparr>ms_options = [(''a'', False), (''b'', True)], ms_selected = [''a'', ''b''], ms_reported = []\<rparr>"
  have s: "select_step\<^sup>*\<^sup>* ?m (ms_clear ?m)" by (rule r_into_rtranclp) (rule select_step.intros(2))
  have "ms_selected (ms_clear ?m) = [''b'']" by code_simp
  then show ?thesis using s locked_values_stay [OF s] by (intro exI [of _ ?m] exI [of _ "ms_clear ?m"]) simp
qed

text \<open>Choosing all options selects the disabled ones as well, although a click on them does nothing; then they stay.\<close>

lemma select_all_selects_disabled:
  assumes "length (ms_selected m) \<noteq> length (ms_options m)" and "(v, True) \<in> set (ms_options m)" and "v \<notin> set (ms_selected m)"
  shows "toggleOption v m = m \<and> v \<in> set (ms_selected (toggleAll m))"
proof -
  have "disabled_value m v" using assms(2) by (auto simp: disabled_value_def list_ex_iff)
  then show ?thesis using assms by (force simp: toggleOption_def toggleAll_def preserveDisabledValues_def)
qed

subsection \<open>Fields of variables\<close>

inductive inside :: "jsval \<Rightarrow> jsval \<Rightarrow> bool" where
  inside_refl: "inside v v"
| inside_obj: "(k, v) \<in> set ob \<Longrightarrow> inside w v \<Longrightarrow> inside w (JObj ob)"
| inside_arr: "v \<in> set xs \<Longrightarrow> inside w v \<Longrightarrow> inside w (JArr xs)"

inductive_simps inside_obj_iff: "inside w (JObj ob)"
inductive_simps inside_arr_iff: "inside w (JArr xs)"
inductive_cases inside_leaf: "inside w JNull" "inside w JUndef" "inside w (JBool b)" "inside w (JNum n)" "inside w (JStr s)"

definition value_ok :: "jsval \<Rightarrow> bool" where
  "value_ok w = (case w of JNull \<Rightarrow> False | JObj ob \<Rightarrow> ob \<noteq> [] \<and> (\<forall>k\<in>set (keys ob). key_ok k) | _ \<Rightarrow> True)"

lemma enumerate_all: "(\<forall>(i, v)\<in>set (enumerate n xs). P v) \<longleftrightarrow> (\<forall>v\<in>set xs. P v)"
  by (induction xs arbitrary: n) auto

text \<open>
  A value passes the check of keys exactly if no \<open>null\<close> and no empty object is anywhere inside of it, and every key of
  every object inside consists of letters, digits and underscores.
\<close>

theorem validateKeys_exact: "validateKeys v path = [] \<longleftrightarrow> (\<forall>w. inside w v \<longrightarrow> value_ok w)"
proof (induction v path rule: validateKeys.induct)
  case (1 ob path)
  have "validateKeys (JObj ob) path = [] \<longleftrightarrow> ob \<noteq> [] \<and> (\<forall>(k, v)\<in>set ob. key_ok k \<and> validateKeys v (path @ [Key k]) = [])"
    by (auto split: if_splits)
  also have "\<dots> \<longleftrightarrow> value_ok (JObj ob) \<and> (\<forall>(k, v)\<in>set ob. \<forall>w. inside w v \<longrightarrow> value_ok w)"
    using 1 by (fastforce simp: value_ok_def keys_def)
  also have "\<dots> \<longleftrightarrow> (\<forall>w. inside w (JObj ob) \<longrightarrow> value_ok w)"
    unfolding inside_obj_iff by blast
  finally show ?case .
next
  case (2 xs path)
  have "validateKeys (JArr xs) path = [] \<longleftrightarrow> (\<forall>(i, v)\<in>set (enumerate 0 xs). validateKeys v (path @ [Index i]) = [])"
    by auto
  also have "\<dots> \<longleftrightarrow> (\<forall>(i, v)\<in>set (enumerate 0 xs). \<forall>w. inside w v \<longrightarrow> value_ok w)"
    using 2 by fastforce
  also have "\<dots> \<longleftrightarrow> (\<forall>w. inside w (JArr xs) \<longrightarrow> value_ok w)"
    unfolding inside_arr_iff enumerate_all by (auto simp: value_ok_def)
  finally show ?case .
qed (auto simp: value_ok_def intro: inside_refl elim: inside_leaf)

theorem validateKeys_exact_witness:
  "validateKeys (JArr [JObj [(''a'', JNum (Fin 1))]]) [] = [] \<and> (\<forall>w. inside w (JArr [JObj [(''a'', JNum (Fin 1))]]) \<longrightarrow> value_ok w)"
proof -
  have "validateKeys (JArr [JObj [(''a'', JNum (Fin 1))]]) [] = []" by code_simp
  then show ?thesis using validateKeys_exact [of "JArr [JObj [(''a'', JNum (Fin 1))]]" "[]"] by blast
qed

text \<open>A list of numbers passes its check exactly if no entry was left empty.\<close>

lemma number_entries:
  assumes "list_all (\<lambda>v. js_typeof v = ''number'' \<or> v = JStr []) vs"
  shows "list_all (\<lambda>v. js_typeof v = ''number'' \<or> v = JStr []) (edit_entry ''number'' i txt vs)"
    and "list_all (\<lambda>v. js_typeof v = ''number'' \<or> v = JStr []) (delete_entry i vs)"
    and "list_all (\<lambda>v. js_typeof v = ''number'' \<or> v = JStr []) (add_entry vs)"
    and "arrayValidate ''number'' (JArr vs) \<longleftrightarrow> JStr [] \<notin> set vs"
proof -
  show "list_all (\<lambda>v. js_typeof v = ''number'' \<or> v = JStr []) (edit_entry ''number'' i txt vs)"
    using assms by (auto simp: edit_entry_def typed_input_def js_typeof_def list_all_iff dest!: set_update_subset_insert [THEN subsetD])
  show "list_all (\<lambda>v. js_typeof v = ''number'' \<or> v = JStr []) (delete_entry i vs)"
    using assms by (auto simp: delete_entry_def list_all_iff dest: in_set_takeD in_set_dropD)
  show "list_all (\<lambda>v. js_typeof v = ''number'' \<or> v = JStr []) (add_entry vs)"
    using assms by (simp add: add_entry_def)
  have "js_typeof (JStr []) \<noteq> ''number''" by (simp add: js_typeof_def)
  then show "arrayValidate ''number'' (JArr vs) \<longleftrightarrow> JStr [] \<notin> set vs"
    using assms by (auto simp: arrayValidate_def list_all_iff)
qed

subsection \<open>Documents and references\<close>

lemma running_not_deleted:
  "bulk_delete docs sel = Some ks \<Longrightarrow> ks \<noteq> [] \<and> set ks = {x \<in> set sel. \<forall>y\<in>set docs. d_id y = x \<longrightarrow> d_run y \<noteq> ''1''}"
  by (auto simp: bulk_delete_def Let_def split: if_splits)

lemma add_document_ids_set: "set (add_document_ids pre xs) = set pre \<union> set xs \<and> (distinct pre \<longrightarrow> distinct (add_document_ids pre xs))"
  by (induction pre xs rule: add_document_ids.induct) auto

lemma document_ids_exact: "set (getDocumentIds refs) = \<Union> (set ` set refs) \<and> distinct (getDocumentIds refs)"
proof -
  have "set (foldl add_document_ids pre refs) = set pre \<union> \<Union> (set ` set refs) \<and> (distinct pre \<longrightarrow> distinct (foldl add_document_ids pre refs))" for pre
    by (induction refs arbitrary: pre) (use add_document_ids_set in \<open>auto\<close>)
  from this [of "[]"] show ?thesis by (simp add: getDocumentIds_def)
qed

text \<open>The answers after the opener, errors left out, take their references in order.\<close>

lemma reference_in_order:
  assumes "distinct (map ci_id (answers_with_reference ms))" and "i < length (answers_with_reference ms)"
    and "i < length refs" and "\<not> nullish (refs ! i)" and "ci_reference (answers_with_reference ms ! i) = None"
  shows "buildMessageItemReference ms refs (answers_with_reference ms ! i) = Some (refs ! i)"
proof -
  let ?as = "answers_with_reference ms"
  have "find_index (\<lambda>x. ci_id x = ci_id (?as ! i)) ?as \<noteq> None"
    using assms(2) by (auto simp: find_index_None)
  then obtain j where j: "find_index (\<lambda>x. ci_id x = ci_id (?as ! i)) ?as = Some j" by blast
  then have "map ci_id ?as ! j = map ci_id ?as ! i" "j < length ?as" using find_index_Some [OF j] assms(2) by auto
  then have "j = i" using assms(1,2) nth_eq_iff_index_eq [OF assms(1), of j i] by simp
  then show ?thesis using j assms(3,4,5) by (simp add: buildMessageItemReference_def)
qed

end
