(* ===== verification/Files_Page.thy ===== *)
theory Files_Page
  imports Page_Lists "HOL-Library.Multiset"
begin

text \<open>
  The page of the files (\<open>pages/files\<close>, \<open>hooks/use-file-request.ts\<close>): the listing of a folder, the selection of rows,
  the operations on one file and on the selected files with their dialogs, the path of the folder, and the tree of folders
  in which the destination of a move is chosen (\<open>move-dialog.tsx\<close>, \<open>components/ui/async-tree-select.tsx\<close>). A handler that
  waits for the server is one event with the code of the answer. The row selection is an object of the table library
  with the index of a row as key; what the library may write there is \<open>table_selects\<close>.
\<close>

section \<open>Files\<close>

record ifile =
  file_id :: string
  file_name :: string
  file_type :: string
  source_type :: string
  parent_id :: string
  kbs_info :: "(string \<times> string) list option"  \<comment> \<open>ids and names of the datasets, an array or not\<close>
  has_child_folder :: "bool option"

definition isFolderType :: "string \<Rightarrow> bool" where
  "isFolderType t = (t = ''folder'')"

definition isKnowledgeBaseType :: "string \<Rightarrow> bool" where
  "isKnowledgeBaseType s = (s = ''knowledgebase'')"

definition last_dot :: "string \<Rightarrow> int" where
  \<comment> \<open>\<open>name.lastIndexOf('.')\<close>\<close>
  "last_dot name = (case find_index (\<lambda>c. c = CHR ''.'') (rev name) of
     None \<Rightarrow> -1 | Some i \<Rightarrow> int (length name) - 1 - int i)"

definition getExtension :: "string \<Rightarrow> string" where
  "getExtension name = toLowerCase (drop (nat (last_dot name + 1)) name)"

definition isPdf :: "string \<Rightarrow> bool" where
  "isPdf name = (getExtension name = ''pdf'')"

definition Images :: "string list" where
  "Images = [''jpg'', ''jpeg'', ''png'', ''gif'', ''bmp'', ''tif'', ''tiff'', ''webp'', ''ico'']"

definition SupportedPreviewDocumentTypes :: "string list" where
  "SupportedPreviewDocumentTypes = [''xlsx'', ''xls'', ''pdf'', ''docx'', ''md'', ''mdx''] @ Images"

definition isSupportedPreviewDocumentType :: "string \<Rightarrow> bool" where
  "isSupportedPreviewDocumentType e = (e \<in> set SupportedPreviewDocumentTypes)"

definition isImage :: "string \<Rightarrow> bool" where
  "isImage e = (e \<in> set (Images @ [''svg'']))"

definition getUnSupportedFilesCount :: "string \<Rightarrow> nat" where
  "getUnSupportedFilesCount msg = length (js_split (CHR 0x0A) msg)"

datatype row_action = Link_Dataset | Move_Row | Rename_Row | Download_Row | Preview_Row | Delete_Row

definition action_cell :: "ifile \<Rightarrow> row_action list" where
  \<comment> \<open>the buttons of a row\<close>
  "action_cell f =
     (let kb = isKnowledgeBaseType (source_type f) in
      (if kb then [] else [Link_Dataset, Move_Row, Rename_Row])
      @ (if isFolderType (file_type f) then [] else [Download_Row])
      @ (if isSupportedPreviewDocumentType (getExtension (file_name f)) then [Preview_Row] else [])
      @ (if kb then [] else [Delete_Row]))"

definition KnowledgeCell :: "ifile \<Rightarrow> string list \<times> string list" where
  \<comment> \<open>the badges of the cell and those of the card behind the ellipsis\<close>
  "KnowledgeCell f = (case kbs_info f of None \<Rightarrow> ([], [])
     | Some kbs \<Rightarrow> (map snd (take 2 kbs), if length kbs > 2 then map snd kbs else []))"

definition breadcrumbItems :: "(string \<times> string) list \<Rightarrow> (string \<times> string) list" where
  \<comment> \<open>titles and paths, from the ids and names of the parents, which the server lists from the folder up\<close>
  "breadcrumbItems parent_folders =
     (let xs = rev parent_folders in
      if length xs = 1 then []
      else map (\<lambda>(i, n). (if n = ''/'' then ''root'' else n, ''/files?folderId='' @ i)) xs)"

section \<open>The page\<close>

record files_page =
  page_url :: url_params
  page_files :: "ifile list"
  search_string :: string
  row_selection :: "bool obj"
  upload_visible :: bool
  folder_visible :: bool
  move_visible :: bool
  rename_visible :: bool
  link_visible :: bool
  sourceFileIds :: "string list"
  isBulk :: bool
  rename_record :: "ifile option"
  link_record :: "ifile option"

datatype file_effect =
    Ask_Upload string "(string \<times> string) list"  \<comment> \<open>the folder, the files with their paths\<close>
  | Ask_Create_Folder string string
  | Ask_Move "string list" string
  | Ask_Remove "string list" string
  | Ask_Rename "string option" string
  | Ask_Link "string option list" "string list"
  | File_Toast string
  | Refetch_Files

definition getFolderId :: "url_params \<Rightarrow> string" where
  "getFolderId ps = (case map_of ps ''folderId'' of None \<Rightarrow> [] | Some i \<Rightarrow> i)"

definition accepted :: "int option \<Rightarrow> bool" where
  \<comment> \<open>\<open>code === 0\<close>; an upload whose request fails has no code\<close>
  "accepted code = (code = Some 0)"

definition uploadFile :: "(string \<times> string) list \<Rightarrow> int option \<Rightarrow> files_page \<Rightarrow> files_page \<times> file_effect list" where
  "uploadFile fileList code st =
     (if accepted code then (st\<lparr>page_url := setPaginationParams (Some 1) None (page_url st)\<rparr>,
                             [Ask_Upload (getFolderId (page_url st)) fileList, File_Toast ''message.uploaded'', Refetch_Files])
      else (st, [Ask_Upload (getFolderId (page_url st)) fileList]))"

definition upload_files_ok :: "(string \<times> string) list \<Rightarrow> int option \<Rightarrow> files_page \<Rightarrow> files_page \<times> file_effect list" where
  "upload_files_ok fileList code st =
     (if fileList = [] then (st, [])
      else let (st', es) = uploadFile fileList code st in
           (if accepted code then st'\<lparr>upload_visible := False\<rparr> else st', es))"

definition createFolder :: "string \<Rightarrow> int option \<Rightarrow> files_page \<Rightarrow> files_page \<times> file_effect list" where
  "createFolder name code st =
     (if accepted code then (st\<lparr>page_url := setPaginationParams (Some 1) None (page_url st)\<rparr>,
                             [Ask_Create_Folder (getFolderId (page_url st)) name, File_Toast ''message.created'', Refetch_Files])
      else (st, [Ask_Create_Folder (getFolderId (page_url st)) name]))"

definition onFolderCreateOk :: "string \<Rightarrow> int option \<Rightarrow> files_page \<Rightarrow> files_page \<times> file_effect list" where
  "onFolderCreateOk name code st =
     (let (st', es) = createFolder name code st in
      (if accepted code then st'\<lparr>folder_visible := False\<rparr> else st', es))"

definition handleRemoveFile :: "string list \<Rightarrow> int option \<Rightarrow> files_page \<Rightarrow> files_page \<times> file_effect list" where
  "handleRemoveFile fileIds code st =
     (if accepted code then (st\<lparr>page_url := setPaginationParams (Some 1) None (page_url st)\<rparr>,
                             [Ask_Remove fileIds (getFolderId (page_url st)), File_Toast ''message.deleted'', Refetch_Files])
      else (st, [Ask_Remove fileIds (getFolderId (page_url st))]))"

definition onFileRenameOk :: "string \<Rightarrow> int option \<Rightarrow> files_page \<Rightarrow> files_page \<times> file_effect list" where
  "onFileRenameOk name code st =
     (if accepted code then (st\<lparr>rename_visible := False\<rparr>,
                             [Ask_Rename (map_option file_id (rename_record st)) name, File_Toast ''message.renamed'', Refetch_Files])
      else (st, [Ask_Rename (map_option file_id (rename_record st)) name]))"

definition showFileRenameModal :: "ifile \<Rightarrow> files_page \<Rightarrow> files_page" where
  "showFileRenameModal f st = st\<lparr>rename_record := Some f, rename_visible := True\<rparr>"

definition initialConnectedIds :: "files_page \<Rightarrow> string list" where
  "initialConnectedIds st = (case link_record st of None \<Rightarrow> [] | Some f \<Rightarrow> (case kbs_info f of None \<Rightarrow> [] | Some kbs \<Rightarrow> map fst kbs))"

definition showConnectToKnowledgeModal :: "ifile \<Rightarrow> files_page \<Rightarrow> files_page" where
  "showConnectToKnowledgeModal f st = st\<lparr>link_record := Some f, link_visible := True\<rparr>"

definition onConnectToKnowledgeOk :: "string list \<Rightarrow> int option \<Rightarrow> files_page \<Rightarrow> files_page \<times> file_effect list" where
  "onConnectToKnowledgeOk knowledgeIds code st =
     (let ask = Ask_Link [map_option file_id (link_record st)] knowledgeIds in
      if accepted code then (st\<lparr>link_visible := False\<rparr>, [ask, File_Toast ''message.operated'', Refetch_Files])
      else (st, [ask]))"

definition showMoveFileModal :: "string list \<Rightarrow> bool \<Rightarrow> files_page \<Rightarrow> files_page" where
  "showMoveFileModal ids bulk st = st\<lparr>isBulk := bulk, sourceFileIds := ids, move_visible := True\<rparr>"

definition clearRowSelection :: "files_page \<Rightarrow> files_page" where
  "clearRowSelection st = st\<lparr>row_selection := []\<rparr>"

definition onMoveFileOk :: "string \<Rightarrow> int option \<Rightarrow> files_page \<Rightarrow> files_page \<times> file_effect list" where
  "onMoveFileOk targetFolderId code st =
     (let ask = Ask_Move (sourceFileIds st) targetFolderId in
      if accepted code
      then ((if isBulk st then clearRowSelection st else st)\<lparr>move_visible := False\<rparr>,
            [ask, File_Toast ''message.operated'', Refetch_Files])
      else (st, [ask]))"

definition selected_files :: "files_page \<Rightarrow> string list" where
  "selected_files st = selectedIds (row_selection st) file_id (page_files st)"

definition bulk_move_files :: "files_page \<Rightarrow> files_page" where
  "bulk_move_files st = showMoveFileModal (selected_files st) True st"

definition bulk_delete_files :: "int option \<Rightarrow> files_page \<Rightarrow> files_page \<times> file_effect list" where
  "bulk_delete_files code st =
     (let (st', es) = handleRemoveFile (selected_files st) code st in
      (if accepted code then clearRowSelection st' else st', es))"

definition onInputChange :: "string \<Rightarrow> files_page \<Rightarrow> files_page" where
  \<comment> \<open>the page is set to 1 by the page and again by the hook of the search\<close>
  "onInputChange t st = st\<lparr>search_string := t,
     page_url := setCurrentPagination 1 None (setCurrentPagination 1 None (page_url st))\<rparr>"

definition navigateToOtherFolder :: "string \<Rightarrow> files_page \<Rightarrow> files_page" where
  "navigateToOtherFolder i st = st\<lparr>page_url := [(''folderId'', i)]\<rparr>"

definition handleNameClick :: "ifile \<Rightarrow> files_page \<Rightarrow> files_page" where
  "handleNameClick f st = (if isFolderType (file_type f) then navigateToOtherFolder (file_id f) st else st)"

definition enableRowSelection :: "ifile \<Rightarrow> bool" where
  "enableRowSelection f = (\<not> isKnowledgeBaseType (source_type f))"

section \<open>Runs of the page\<close>

datatype files_event =
    Select_Rows "bool obj"
  | Clear_Rows
  | Show_Upload bool
  | Upload_Ok "(string \<times> string) list" "int option"
  | Show_Folder bool
  | Folder_Ok string "int option"
  | Row_Link ifile
  | Link_Ok "string list" "int option"
  | Row_Rename ifile
  | Rename_Ok string "int option"
  | Row_Move ifile
  | Bulk_Move
  | Move_Ok string "int option"
  | Row_Delete ifile "int option"
  | Bulk_Delete "int option"
  | Search_Files string
  | Go_To_Page int "int option"
  | Click_Name ifile
  | Listed "ifile list"   \<comment> \<open>the answer of the server to a request of the list\<close>

fun files_do :: "files_event \<Rightarrow> files_page \<Rightarrow> files_page \<times> file_effect list" where
  "files_do (Select_Rows sel) st = (st\<lparr>row_selection := sel\<rparr>, [])"
| "files_do Clear_Rows st = (clearRowSelection st, [])"
| "files_do (Show_Upload b) st = (st\<lparr>upload_visible := b\<rparr>, [])"
| "files_do (Upload_Ok fs c) st = upload_files_ok fs c st"
| "files_do (Show_Folder b) st = (st\<lparr>folder_visible := b\<rparr>, [])"
| "files_do (Folder_Ok n c) st = onFolderCreateOk n c st"
| "files_do (Row_Link f) st = (showConnectToKnowledgeModal f st, [])"
| "files_do (Link_Ok ks c) st = onConnectToKnowledgeOk ks c st"
| "files_do (Row_Rename f) st = (showFileRenameModal f st, [])"
| "files_do (Rename_Ok n c) st = onFileRenameOk n c st"
| "files_do (Row_Move f) st = (showMoveFileModal [file_id f] False st, [])"
| "files_do Bulk_Move st = (bulk_move_files st, [])"
| "files_do (Move_Ok d c) st = onMoveFileOk d c st"
| "files_do (Row_Delete f c) st = handleRemoveFile [file_id f] c st"
| "files_do (Bulk_Delete c) st = bulk_delete_files c st"
| "files_do (Search_Files t) st = (onInputChange t st, [])"
| "files_do (Go_To_Page p n) st = (st\<lparr>page_url := setCurrentPagination p n (page_url st)\<rparr>, [])"
| "files_do (Click_Name f) st = (handleNameClick f st, [])"
| "files_do (Listed fs) st = (st\<lparr>page_files := fs\<rparr>, [])"

definition files_mount :: "url_params \<Rightarrow> files_page" where
  "files_mount ps = \<lparr>page_url = ps, page_files = [], search_string = [], row_selection = [], upload_visible = False,
     folder_visible = False, move_visible = False, rename_visible = False, link_visible = False, sourceFileIds = [],
     isBulk = False, rename_record = None, link_record = None\<rparr>"

definition table_selects :: "ifile list \<Rightarrow> bool obj \<Rightarrow> bool obj \<Rightarrow> bool" where
  \<comment> \<open>the table library changes the selection by adding rows that can be selected and dropping others\<close>
  "table_selects fs sel sel' = (distinct (keys sel') \<and>
     (\<forall>k \<in> set (keys sel'). k \<in> set (keys sel) \<or>
        (\<exists>i < length fs. k = int_to_string (int i) \<and> enableRowSelection (fs ! i))))"

inductive files_run :: "files_page \<Rightarrow> files_event list \<Rightarrow> file_effect list \<Rightarrow> files_page \<Rightarrow> bool" where
  idle: "files_run st [] [] st"
| step: "files_run st es as st1 \<Longrightarrow> (\<And>sel. e = Select_Rows sel \<Longrightarrow> table_selects (page_files st1) (row_selection st1) sel)
    \<Longrightarrow> files_do e st1 = (st2, bs) \<Longrightarrow> files_run st (es @ [e]) (as @ bs) st2"

fun is_listed :: "files_event \<Rightarrow> bool" where
  "is_listed (Listed _) = True"
| "is_listed _ = False"

section \<open>What a bulk operation touches\<close>

definition row_checked :: "files_page \<Rightarrow> nat \<Rightarrow> bool" where
  "row_checked st i = (int_to_string (int i) \<in> set (keys (row_selection st)))"

definition checked_rows :: "files_page \<Rightarrow> nat list" where
  "checked_rows st = filter (row_checked st) [0..<length (page_files st)]"

definition selection_ok :: "ifile list \<Rightarrow> bool obj \<Rightarrow> bool" where
  "selection_ok fs sel = (distinct (keys sel) \<and>
     (\<forall>k \<in> set (keys sel). \<exists>i < length fs. k = int_to_string (int i) \<and> enableRowSelection (fs ! i)))"

lemmas files_defs = upload_files_ok_def uploadFile_def onFolderCreateOk_def createFolder_def handleRemoveFile_def
  onFileRenameOk_def showFileRenameModal_def showConnectToKnowledgeModal_def onConnectToKnowledgeOk_def
  showMoveFileModal_def clearRowSelection_def onMoveFileOk_def bulk_move_files_def bulk_delete_files_def onInputChange_def
  navigateToOtherFolder_def handleNameClick_def

lemma row_key_eq: "int_to_string (int i) = int_to_string (int j) \<longleftrightarrow> i = j"
  using int_to_string_inj by fastforce

lemma only_index: "i < n \<Longrightarrow> filter (\<lambda>j. j = i) [0..<n] = [i]"
  by (induction n) (auto simp: less_Suc_eq)

lemma selection_empty [simp]: "selection_ok fs []"
  by (simp add: selection_ok_def keys_def)

lemma selection_table: "selection_ok fs sel \<Longrightarrow> table_selects fs sel sel' \<Longrightarrow> selection_ok fs sel'"
  unfolding selection_ok_def table_selects_def by blast

lemma files_run_snoc:
  assumes "files_run st es as st1"
    and "\<And>sel. e = Select_Rows sel \<Longrightarrow> table_selects (page_files st1) (row_selection st1) sel"
  shows "files_run st (es @ [e]) (as @ snd (files_do e st1)) (fst (files_do e st1))"
  using assms by (auto intro: files_run.step)

lemma files_do_keeps:
  assumes "files_do e st = (st', as)" and "\<not> is_listed e"
  shows "page_files st' = page_files st"
    and "row_selection st' = row_selection st \<or> row_selection st' = [] \<or> e = Select_Rows (row_selection st')"
  using assms by (cases e; auto simp: files_defs Let_def split: if_splits)+

lemma files_run_selection:
  assumes "files_run st0 es as st" and "\<forall>e \<in> set es. \<not> is_listed e" and "selection_ok (page_files st0) (row_selection st0)"
  shows "page_files st = page_files st0 \<and> selection_ok (page_files st) (row_selection st)"
  using assms
proof (induction rule: files_run.induct)
  case (step st es as st1 e st2 bs)
  then have IH: "page_files st1 = page_files st" "selection_ok (page_files st1) (row_selection st1)" and e: "\<not> is_listed e" by auto
  note keep = files_do_keeps [OF step.hyps(3) e]
  show ?case using keep IH selection_table step.hyps(2) by (metis selection_empty)
qed simp

lemma selection_rows:
  assumes "selection_ok (page_files st) (row_selection st)"
  shows "selected_files st = map (\<lambda>i. file_id (page_files st ! i)) (checked_rows st)"
    and "length (checked_rows st) = selectedCount (row_selection st)"
    and "i \<in> set (checked_rows st) \<Longrightarrow> enableRowSelection (page_files st ! i)"
proof -
  let ?n = "length (page_files st)"
  have "\<forall>k \<in> set (keys (row_selection st)). \<exists>i. k = (int_to_string \<circ> int) i"
    using assms by (auto simp: selection_ok_def)
  then obtain ix where ix: "keys (row_selection st) = map (int_to_string \<circ> int) ix" by (metis ex_map_conv)
  then have ck: "row_checked st i \<longleftrightarrow> i \<in> set ix" for i by (auto simp: row_checked_def row_key_eq)
  have bound: "i < ?n \<and> enableRowSelection (page_files st ! i)" if "i \<in> set ix" for i
    using assms that by (auto simp: selection_ok_def ix row_key_eq)
  have "distinct ix" using assms ix by (auto simp: selection_ok_def distinct_map)
  show "selected_files st = map (\<lambda>i. file_id (page_files st ! i)) (checked_rows st)"
    by (simp add: selected_files_def selected_ids_exact [OF ix] checked_rows_def ck cong: filter_cong)
  have "set (checked_rows st) = set ix" using bound by (auto simp: checked_rows_def ck)
  then show "length (checked_rows st) = selectedCount (row_selection st)"
    using \<open>distinct ix\<close> ix by (metis checked_rows_def distinct_card distinct_filter distinct_upt length_map selectedCount_def)
  show "i \<in> set (checked_rows st) \<Longrightarrow> enableRowSelection (page_files st ! i)"
    using bound by (auto simp: checked_rows_def ck)
qed

text \<open>
  C17: As long as the list of files is not answered anew, the operations on the selection of the files page act on exactly
  the rows that are checked: after any sequence of events on a page opened with no selection, the bulk deletion asks the
  server to remove the ids of the checked rows, in their order, in the folder of the page; the bulk move opens its dialog
  for the same ids and a confirmation moves these; they are as many as the count shown in the bar; and none of them is a
  file of a dataset. The table library may check only rows it is allowed to.
\<close>

theorem bulk_acts_on_checked:
  assumes "files_run st0 es as st" and "row_selection st0 = []" and "\<forall>e \<in> set es. \<not> is_listed e"
  shows "let rows = checked_rows st; ids = map (\<lambda>i. file_id (page_files st ! i)) rows in
     page_files st = page_files st0 \<and> length rows = selectedCount (row_selection st)
     \<and> (\<forall>i \<in> set rows. source_type (page_files st ! i) \<noteq> ''knowledgebase'')
     \<and> hd (snd (bulk_delete_files code st)) = Ask_Remove ids (getFolderId (page_url st))
     \<and> hd (snd (onMoveFileOk dest code (bulk_move_files st))) = Ask_Move ids dest"
proof -
  have ok: "page_files st = page_files st0 \<and> selection_ok (page_files st) (row_selection st)"
    using files_run_selection [OF assms(1,3)] assms(2) by auto
  note rows = selection_rows [OF conjunct2 [OF ok]]
  have "source_type (page_files st ! i) \<noteq> ''knowledgebase''" if "i \<in> set (checked_rows st)" for i
    using rows(3) [OF that] by (simp add: enableRowSelection_def isKnowledgeBaseType_def)
  then show ?thesis using ok rows(1,2) by (simp add: files_defs Let_def split: prod.splits)
qed

definition sample_row_file :: "string \<Rightarrow> string \<Rightarrow> ifile" where
  "sample_row_file i s = \<lparr>file_id = i, file_name = i, file_type = ''doc'', source_type = s, parent_id = ''r'', kbs_info = None,
     has_child_folder = None\<rparr>"

definition sample_files_page :: files_page where
  "sample_files_page = (files_mount [(''folderId'', ''r'')])\<lparr>page_files := [sample_row_file ''a'' [], sample_row_file ''b'' ''knowledgebase'']\<rparr>"

lemma sample_run: "files_run sample_files_page [Select_Rows [(''0'', True)]] [] (sample_files_page\<lparr>row_selection := [(''0'', True)]\<rparr>)"
proof -
  have zero: "''0'' = int_to_string (int 0)" by code_simp
  have "enableRowSelection (page_files sample_files_page ! 0) \<and> 0 < length (page_files sample_files_page)" by code_simp
  then have "table_selects (page_files sample_files_page) (row_selection sample_files_page) [(''0'', True)]"
    using zero by (auto simp: table_selects_def keys_def)
  then show ?thesis
    using files_run_snoc [OF files_run.idle, of "Select_Rows [(''0'', True)]" sample_files_page] by simp
qed

theorem bulk_acts_on_checked_witness:
  "hd (snd (bulk_delete_files (Some 0) (sample_files_page\<lparr>row_selection := [(''0'', True)]\<rparr>))) = Ask_Remove [''a''] ''r''"
proof -
  let ?st = "sample_files_page\<lparr>row_selection := [(''0'', True)]\<rparr>"
  have rows: "checked_rows ?st = [0]" by code_simp
  have "row_selection sample_files_page = []" "file_id (page_files ?st ! 0) = ''a''" "getFolderId (page_url ?st) = ''r''" by code_simp+
  then show ?thesis
    using bulk_acts_on_checked [OF sample_run, of "Some 0" "''d''"] by (simp add: rows Let_def del: files_page.update_convs)
qed

text \<open>
  The selection is kept by row number when the page, the folder or the search changes and when another file of the list is
  deleted: with the row \<open>i\<close> checked on one page, the bulk deletion on the next page removes the file that stands in row
  \<open>i\<close> there, also one of a dataset, which cannot be checked.
\<close>

theorem stale_selection_deletes_other:
  assumes "i < length fs" and "enableRowSelection (fs ! i)" and "i < length fs'"
    and es: "es = [Listed fs, Select_Rows [(int_to_string (int i), True)], Go_To_Page p n, Listed fs']"
  shows "\<exists>st. files_run (files_mount ps) es [] st \<and> hd (snd (bulk_delete_files code st)) = Ask_Remove [file_id (fs' ! i)] (getFolderId (page_url st))"
proof -
  let ?st = "(files_mount ps)\<lparr>page_files := fs', row_selection := [(int_to_string (int i), True)],
      page_url := setCurrentPagination p n ps\<rparr>"
  have sel: "table_selects fs [] [(int_to_string (int i), True)]" using assms by (auto simp: table_selects_def keys_def)
  have 1: "files_run (files_mount ps) [Listed fs] [] ((files_mount ps)\<lparr>page_files := fs\<rparr>)"
    using files_run_snoc [OF files_run.idle, of "Listed fs"] by simp
  have 2: "files_run (files_mount ps) [Listed fs, Select_Rows [(int_to_string (int i), True)]] []
      ((files_mount ps)\<lparr>page_files := fs, row_selection := [(int_to_string (int i), True)]\<rparr>)"
    using files_run_snoc [OF 1, of "Select_Rows [(int_to_string (int i), True)]"] sel by (simp add: files_mount_def)
  have 3: "files_run (files_mount ps) [Listed fs, Select_Rows [(int_to_string (int i), True)], Go_To_Page p n] []
      ((files_mount ps)\<lparr>page_files := fs, row_selection := [(int_to_string (int i), True)],
         page_url := setCurrentPagination p n ps\<rparr>)"
    using files_run_snoc [OF 2, of "Go_To_Page p n"] by (simp add: files_mount_def)
  have "files_run (files_mount ps) es [] ?st"
    using files_run_snoc [OF 3, of "Listed fs'"] by (simp add: es files_mount_def)
  moreover have "selected_files ?st = [file_id (fs' ! i)]"
    using selected_ids_exact [of "[(int_to_string (int i), True)]" "[i]" file_id fs'] assms(3)
    by (simp add: selected_files_def keys_def only_index)
  ultimately show ?thesis by (auto simp: files_defs split: prod.splits)
qed

section \<open>The tree of folders of the move dialog\<close>

record tree_node =
  tree_id :: string
  tree_parent :: string
  tree_title :: string
  isLeaf :: bool

record folder_tree =
  treeData :: "tree_node list"
  expandedKeys :: "string list"
  loadingId :: string
  treeValue :: string

definition tree_node_of :: "ifile \<Rightarrow> tree_node" where
  "tree_node_of f = \<lparr>tree_id = file_id f, tree_parent = parent_id f, tree_title = file_name f,
     isLeaf = (case has_child_folder f of None \<Rightarrow> False | Some b \<Rightarrow> \<not> b)\<rparr>"

definition onLoadData :: "int \<Rightarrow> ifile list \<Rightarrow> folder_tree \<Rightarrow> folder_tree" where
  \<comment> \<open>with the code and the files of the answer\<close>
  "onLoadData code files T =
     (if code = 0 then T\<lparr>treeData := treeData T @ map tree_node_of (filter (\<lambda>x. file_type x = ''folder'') files)\<rparr> else T)"

definition isExpanded :: "folder_tree \<Rightarrow> string option \<Rightarrow> bool" where
  "isExpanded T i = (case i of None \<Rightarrow> True | Some k \<Rightarrow> k \<in> set (expandedKeys T))"

definition handleArrowClick :: "tree_node \<Rightarrow> folder_tree \<Rightarrow> folder_tree \<times> string option" where
  \<comment> \<open>up to the request of the children, whose folder is the second result\<close>
  "handleArrowClick x T =
     (if isExpanded T (Some (tree_id x)) then (T\<lparr>expandedKeys := filter (\<lambda>k. k \<noteq> tree_id x) (expandedKeys T)\<rparr>, None)
      else let T' = T\<lparr>expandedKeys := expandedKeys T @ [tree_id x]\<rparr> in
           if list_ex (\<lambda>y. tree_parent y = tree_id x) (treeData T) then (T', None)
           else (T'\<lparr>loadingId := tree_id x\<rparr>, Some (tree_id x)))"

definition arrow_loaded :: "int \<Rightarrow> ifile list \<Rightarrow> folder_tree \<Rightarrow> folder_tree" where
  \<comment> \<open>the rest of \<open>handleArrowClick\<close>, after the answer\<close>
  "arrow_loaded code files T = (onLoadData code files T)\<lparr>loadingId := []\<rparr>"

definition handleTreeNodeClick :: "string \<Rightarrow> folder_tree \<Rightarrow> folder_tree" where
  "handleTreeNodeClick i T = T\<lparr>treeValue := i\<rparr>"

definition selectedTitle :: "folder_tree \<Rightarrow> string option" where
  "selectedTitle T = map_option tree_title (find (\<lambda>x. tree_id x = treeValue T) (treeData T))"

definition move_disabled :: "folder_tree \<Rightarrow> bool" where
  "move_disabled T = (treeValue T = [])"

definition root_effect :: "folder_tree \<Rightarrow> string list" where
  \<comment> \<open>the effect on the tree: the folders it asks for\<close>
  "root_effect T = (if treeData T = [] then [[]] else [])"

definition currentLevelList :: "tree_node list \<Rightarrow> string option \<Rightarrow> tree_node list" where
  \<comment> \<open>a parent with an empty id counts as none\<close>
  "currentLevelList tree p =
     (case p of Some (c # cs) \<Rightarrow> filter (\<lambda>x. tree_parent x = c # cs) tree
      | _ \<Rightarrow> filter (\<lambda>x. list_all (\<lambda>y. tree_parent x \<noteq> tree_id y) tree) tree)"

datatype tree_item = Tree_Item tree_node "tree_item list"

fun renderNodes :: "nat \<Rightarrow> tree_node list \<Rightarrow> string option \<Rightarrow> tree_item list option" where
  \<comment> \<open>\<open>None\<close> when the nesting is deeper than the first argument; a folder below itself would be rendered without end\<close>
  "renderNodes 0 tree p = None"
| "renderNodes (Suc n) tree p =
     those (map (\<lambda>x. map_option (Tree_Item x) (renderNodes n tree (Some (tree_id x)))) (currentLevelList tree p))"

fun item_nodes :: "tree_item \<Rightarrow> tree_node list" where
  "item_nodes (Tree_Item x ts) = x # concat (map item_nodes ts)"

fun root_requests :: "(int \<times> ifile list) list \<Rightarrow> folder_tree \<Rightarrow> nat" where
  \<comment> \<open>how often the effect asks for the root, given the answers: it runs again when an answer sets the tree, which is a new
    array each time\<close>
  "root_requests [] T = length (root_effect T)"
| "root_requests ((code, files) # as) T =
     (if root_effect T = [] then 0
      else Suc (if code = 0 then root_requests as (onLoadData code files T) else 0))"

text \<open>
  When the root has no folder the dialog asks for the list of the root again after every answer: the effect compares the
  arrays by identity and \<open>concat\<close> of no folders is a new one.
\<close>

theorem empty_root_asked_forever:
  assumes "treeData T = []" and "\<forall>(code, files) \<in> set as. code = 0 \<and> (\<forall>f \<in> set files. \<not> isFolderType (file_type f))"
  shows "root_requests as T = Suc (length as)"
  using assms
proof (induction as arbitrary: T)
  case (Cons a as)
  obtain code files where a: "a = (code, files)" by fastforce
  have "filter (\<lambda>x. file_type x = ''folder'') files = []" using Cons.prems by (auto simp: a isFolderType_def filter_empty_conv)
  then have "treeData (onLoadData code files T) = []" using Cons.prems(1) by (simp add: onLoadData_def)
  with Cons show ?case by (auto simp: a root_effect_def)
qed (simp add: root_effect_def)

subsection \<open>Every folder is shown once\<close>

definition wf_tree :: "(string \<Rightarrow> nat) \<Rightarrow> tree_node list \<Rightarrow> bool" where
  \<comment> \<open>ids are distinct and not empty, and \<open>d\<close> gives every folder its depth in the tree\<close>
  "wf_tree d tree = (distinct (map tree_id tree) \<and> [] \<notin> tree_id ` set tree \<and>
     (\<forall>x \<in> set tree. (\<forall>y \<in> set tree. tree_parent x \<noteq> tree_id y) \<longrightarrow> d (tree_id x) = 0) \<and>
     (\<forall>x \<in> set tree. \<forall>y \<in> set tree. tree_parent x = tree_id y \<longrightarrow> d (tree_id x) = Suc (d (tree_id y))))"

definition children_of :: "tree_node list \<Rightarrow> tree_node \<Rightarrow> tree_node list" where
  "children_of tree x = currentLevelList tree (Some (tree_id x))"

fun levels_below :: "nat \<Rightarrow> tree_node list \<Rightarrow> tree_node list \<Rightarrow> tree_node list" where
  \<comment> \<open>a list of folders and those of the next levels below them\<close>
  "levels_below 0 tree xs = []"
| "levels_below (Suc n) tree xs = xs @ levels_below n tree (concat (map (children_of tree) xs))"

lemma levels_below_append: "mset (levels_below n tree (xs @ ys)) = mset (levels_below n tree xs) + mset (levels_below n tree ys)"
  by (induction n arbitrary: xs ys) simp_all

lemma levels_below_concat:
  "mset (concat (map (\<lambda>x. x # levels_below n tree (children_of tree x)) xs)) = mset (levels_below (Suc n) tree xs)"
proof (induction xs)
  case Nil
  have "levels_below m tree [] = []" for m by (induction m) simp_all
  then show ?case by simp
qed (simp add: levels_below_append)

lemma mset_concat_cong: "mset xs = mset ys \<Longrightarrow> mset (concat (map f xs)) = mset (concat (map f ys))"
proof -
  have *: "mset (concat (map f zs)) = (\<Sum>z\<in>#mset zs. mset (f z))" for zs :: "'a list" by (induction zs) auto
  show "mset xs = mset ys \<Longrightarrow> mset (concat (map f xs)) = mset (concat (map f ys))" unfolding * by simp
qed

lemma levels_below_cong: "mset xs = mset ys \<Longrightarrow> mset (levels_below n tree xs) = mset (levels_below n tree ys)"
proof (induction n arbitrary: xs ys)
  case (Suc n)
  show ?case using Suc.IH [OF mset_concat_cong [OF Suc.prems, of "children_of tree"]] Suc.prems by (simp del: mset_concat)
qed simp

lemma mset_filter_disjoint:
  "(\<And>x. x \<in> set xs \<Longrightarrow> \<not> (P x \<and> Q x)) \<Longrightarrow> mset (filter P xs) + mset (filter Q xs) = mset (filter (\<lambda>x. P x \<or> Q x) xs)"
  by (induction xs) auto

lemma children_of_nonempty: "tree_id x \<noteq> [] \<Longrightarrow> children_of tree x = filter (\<lambda>y. tree_parent y = tree_id x) tree"
  by (cases "tree_id x") (simp_all add: children_of_def currentLevelList_def)

lemma children_of_all:
  assumes "distinct (map tree_id xs)" and "[] \<notin> tree_id ` set xs"
  shows "mset (concat (map (children_of tree) xs)) = mset (filter (\<lambda>y. tree_parent y \<in> tree_id ` set xs) tree)"
  using assms
proof (induction xs)
  case (Cons x xs)
  then have "mset (concat (map (children_of tree) (x # xs)))
      = mset (filter (\<lambda>y. tree_parent y = tree_id x) tree) + mset (filter (\<lambda>y. tree_parent y \<in> tree_id ` set xs) tree)"
    using children_of_nonempty [of x tree] by (auto simp del: mset_concat)
  also have "\<dots> = mset (filter (\<lambda>y. tree_parent y = tree_id x \<or> tree_parent y \<in> tree_id ` set xs) tree)"
    using Cons.prems by (intro mset_filter_disjoint) auto
  finally show ?case by simp
qed simp

lemma wf_tree_next_level:
  assumes "wf_tree d tree"
  shows "mset (concat (map (children_of tree) (filter (\<lambda>x. d (tree_id x) = k) tree))) = mset (filter (\<lambda>x. d (tree_id x) = Suc k) tree)"
proof -
  let ?xs = "filter (\<lambda>x. d (tree_id x) = k) tree"
  have "distinct (map tree_id ?xs)" "[] \<notin> tree_id ` set ?xs" using assms by (auto simp: wf_tree_def distinct_map_filter)
  moreover have "filter (\<lambda>y. tree_parent y \<in> tree_id ` set ?xs) tree = filter (\<lambda>x. d (tree_id x) = Suc k) tree"
  proof (rule filter_cong [OF refl])
    fix y assume y: "y \<in> set tree"
    show "(tree_parent y \<in> tree_id ` set ?xs) = (d (tree_id y) = Suc k)"
    proof
      assume "d (tree_id y) = Suc k"
      then obtain x where "x \<in> set tree" "tree_parent y = tree_id x" using assms y by (metis nat.distinct(1) wf_tree_def)
      then show "tree_parent y \<in> tree_id ` set ?xs" using assms y \<open>d (tree_id y) = Suc k\<close> by (force simp: wf_tree_def)
    qed (use assms y in \<open>auto simp: wf_tree_def\<close>)
  qed
  ultimately show ?thesis by (simp add: children_of_all)
qed

lemma wf_tree_levels:
  assumes "wf_tree d tree"
  shows "mset (levels_below n tree (filter (\<lambda>x. d (tree_id x) = k) tree))
    = mset (filter (\<lambda>x. k \<le> d (tree_id x) \<and> d (tree_id x) < k + n) tree)"
proof (induction n arbitrary: k)
  case (Suc n)
  have "mset (levels_below (Suc n) tree (filter (\<lambda>x. d (tree_id x) = k) tree))
      = mset (filter (\<lambda>x. d (tree_id x) = k) tree) + mset (filter (\<lambda>x. Suc k \<le> d (tree_id x) \<and> d (tree_id x) < Suc k + n) tree)"
    using levels_below_cong [OF wf_tree_next_level [OF assms]] Suc.IH by simp
  also have "\<dots> = mset (filter (\<lambda>x. d (tree_id x) = k \<or> Suc k \<le> d (tree_id x) \<and> d (tree_id x) < Suc k + n) tree)"
    by (intro mset_filter_disjoint) auto
  also have "(\<lambda>x. d (tree_id x) = k \<or> Suc k \<le> d (tree_id x) \<and> d (tree_id x) < Suc k + n)
      = (\<lambda>x. k \<le> d (tree_id x) \<and> d (tree_id x) < k + Suc n)" by auto
  finally show ?case .
qed simp

lemma wf_tree_roots: "wf_tree d tree \<Longrightarrow> currentLevelList tree None = filter (\<lambda>x. d (tree_id x) = 0) tree"
  by (auto simp: currentLevelList_def wf_tree_def list_all_iff intro!: filter_cong)

lemma those_map_Some: "(\<And>x. x \<in> set xs \<Longrightarrow> f x = Some (g x)) \<Longrightarrow> those (map f xs) = Some (map g xs)"
  by (induction xs) auto

lemma mset_concat_pointwise:
  "(\<And>x. x \<in> set xs \<Longrightarrow> mset (f x) = mset (g x)) \<Longrightarrow> mset (concat (map (\<lambda>x. x # f x) xs)) = mset (concat (map (\<lambda>x. x # g x) xs))"
  by (induction xs) auto

lemma renderNodes_levels:
  assumes "wf_tree d tree" and "\<forall>x \<in> set tree. d (tree_id x) < N"
    and "\<forall>x \<in> set (currentLevelList tree p). N \<le> d (tree_id x) + n"
  shows "\<exists>items. renderNodes (Suc n) tree p = Some items
     \<and> mset (concat (map item_nodes items)) = mset (levels_below n tree (currentLevelList tree p))"
  using assms(3)
proof (induction n arbitrary: p)
  case 0
  have "set (currentLevelList tree p) \<subseteq> set tree" by (auto simp: currentLevelList_def split: option.splits list.splits)
  then have "currentLevelList tree p = []" using 0 assms(2) by (metis add.right_neutral last_in_set leD subsetD)
  then show ?case by simp
next
  case (Suc n)
  let ?L = "currentLevelList tree p"
  have sub: "set ?L \<subseteq> set tree" by (auto simp: currentLevelList_def split: option.splits list.splits)
  have "\<exists>items. renderNodes (Suc n) tree (Some (tree_id x)) = Some items
      \<and> mset (concat (map item_nodes items)) = mset (levels_below n tree (children_of tree x))" if x: "x \<in> set ?L" for x
  proof -
    have "tree_id x \<noteq> []" using assms(1) sub x by (force simp: wf_tree_def)
    then have "d (tree_id y) = Suc (d (tree_id x))" if "y \<in> set (children_of tree x)" for y
      using assms(1) sub x that by (auto simp: children_of_nonempty wf_tree_def)
    then show ?thesis using Suc.IH [of "Some (tree_id x)"] Suc.prems x by (fastforce simp: children_of_def)
  qed
  then obtain g where g: "\<And>x. x \<in> set ?L \<Longrightarrow> renderNodes (Suc n) tree (Some (tree_id x)) = Some (g x)"
      "\<And>x. x \<in> set ?L \<Longrightarrow> mset (concat (map item_nodes (g x))) = mset (levels_below n tree (children_of tree x))"
    by metis
  have "renderNodes (Suc (Suc n)) tree p = Some (map (\<lambda>x. Tree_Item x (g x)) ?L)"
    by (simp only: renderNodes.simps(2) [of "Suc n"]) (rule those_map_Some, simp add: g(1) del: renderNodes.simps)
  moreover have "mset (concat (map item_nodes (map (\<lambda>x. Tree_Item x (g x)) ?L)))
      = mset (concat (map (\<lambda>x. x # levels_below n tree (children_of tree x)) ?L))"
    using mset_concat_pointwise [OF g(2)] by (simp add: comp_def)
  ultimately show ?case using levels_below_concat by metis
qed

text \<open>
  The tree in which the destination of a move is chosen shows every folder that was loaded exactly once. When the ids
  are distinct and not empty and no folder is below itself, as witnessed by a depth for each folder, the rendering ends
  and its entries are the loaded folders, each once.
\<close>

theorem move_tree_shows_all:
  assumes "wf_tree d tree" and "\<forall>x \<in> set tree. d (tree_id x) < n"
  shows "\<exists>items. renderNodes (Suc n) tree None = Some items \<and> mset (concat (map item_nodes items)) = mset tree"
proof -
  have "filter (\<lambda>x. 0 \<le> d (tree_id x) \<and> d (tree_id x) < 0 + n) tree = tree" using assms(2) by (simp add: filter_id_conv)
  then have "mset (levels_below n tree (currentLevelList tree None)) = mset tree"
    using wf_tree_levels [OF assms(1), of n 0] wf_tree_roots [OF assms(1)] by simp
  then show ?thesis using renderNodes_levels [OF assms, of None n] by auto
qed

definition sample_tree :: "tree_node list" where
  "sample_tree = [\<lparr>tree_id = ''a'', tree_parent = ''r'', tree_title = ''A'', isLeaf = False\<rparr>,
     \<lparr>tree_id = ''b'', tree_parent = ''r'', tree_title = ''B'', isLeaf = True\<rparr>,
     \<lparr>tree_id = ''c'', tree_parent = ''a'', tree_title = ''C'', isLeaf = True\<rparr>]"

theorem move_tree_shows_all_witness:
  "\<exists>items. renderNodes 3 sample_tree None = Some items \<and> mset (concat (map item_nodes items)) = mset sample_tree"
proof -
  let ?d = "\<lambda>i. if i = ''c'' then 1 else 0 :: nat"
  have "wf_tree ?d sample_tree" "\<forall>x \<in> set sample_tree. ?d (tree_id x) < 2" by (simp_all add: wf_tree_def sample_tree_def)
  from move_tree_shows_all [OF this] show ?thesis by (simp add: numeral_3_eq_3 del: renderNodes.simps)
qed

lemma expanding_keeps_ids_distinct:
  assumes "handleArrowClick x T = (T', Some i)" and "distinct (map tree_id (treeData T))"
    and "distinct (map file_id files)" and "\<forall>f \<in> set files. parent_id f = i"
    and one_parent: "\<forall>f \<in> set files. \<forall>y \<in> set (treeData T). file_id f = tree_id y \<longrightarrow> parent_id f = tree_parent y"
  shows "distinct (map tree_id (treeData (arrow_loaded code files T')))"
proof -
  have T': "treeData T' = treeData T" and none: "\<forall>y \<in> set (treeData T). tree_parent y \<noteq> i"
    using assms(1) by (auto simp: handleArrowClick_def Let_def list_ex_iff split: if_splits)
  have "map tree_id (map tree_node_of fs) = map file_id fs" for fs by (simp add: tree_node_of_def)
  moreover have "file_id f \<noteq> tree_id y" if "f \<in> set files" "y \<in> set (treeData T)" for f y
    using assms(4) one_parent none that by metis
  ultimately show ?thesis using assms(2,3)
    by (fastforce simp: arrow_loaded_def onLoadData_def T' tree_node_of_def distinct_map_filter comp_def)
qed

end
