(* ===== verification/Model_Settings.thy ===== *)
theory Model_Settings
  imports Request_Layer
begin

text \<open>
  The models of a tenant: the options of the model selectors (\<open>hooks/use-llm-request.tsx\<close>), the lists of the model
  settings and the dialogs in which a provider is added or verified (\<open>pages/user-setting/setting-model/hooks.tsx\<close>). The list
  of models is the object the server answers, from the name of a provider to its models, with distinct keys. A handler that
  waits for the server is a function of the answer. The parser of URLs is an argument: the host name of a text, if it is a
  URL.
\<close>

section \<open>Options of the model selectors\<close>

record third_model =
  llm_name :: string
  fid :: string
  model_type :: string
  model_status :: string
  model_tags :: "string option"
  available :: bool
  is_tools :: bool

type_synonym model_list = "third_model list obj"

record llm_option =
  option_icon :: string
  option_text :: string
  option_value :: string
  option_disabled :: bool
  option_tools :: bool

record llm_group =
  group_name :: string
  group_options :: "llm_option list"

datatype llm_model_type = Embedding | Chat | Image2text | Speech2text | Rerank | TTS | Ocr

fun LlmModelType :: "llm_model_type \<Rightarrow> string" where
  "LlmModelType Embedding = ''embedding''"
| "LlmModelType Chat = ''chat''"
| "LlmModelType Image2text = ''image2text''"
| "LlmModelType Speech2text = ''speech2text''"
| "LlmModelType Rerank = ''rerank''"
| "LlmModelType TTS = ''tts''"
| "LlmModelType Ocr = ''ocr''"

definition getLLMIconName :: "string \<Rightarrow> string \<Rightarrow> string" where
  "getLLMIconName f name = (if f = ''FastEmbed'' then hd (js_split (CHR ''/'') name) else f)"

definition model_uuid :: "third_model \<Rightarrow> string" where
  "model_uuid m = buildLlmUuid (llm_name m) (fid m)"

definition flatLlmList :: "model_list \<Rightarrow> (string \<times> third_model) list" where
  \<comment> \<open>the models with their uuids\<close>
  "flatLlmList llmList = foldl (\<lambda>pre (_, cur). pre @ map (\<lambda>x. (model_uuid x, x)) cur) [] llmList"

definition findLlmByUuid :: "model_list \<Rightarrow> string \<Rightarrow> third_model option" where
  "findLlmByUuid llmList u = map_option snd (find (\<lambda>x. fst x = u) (flatLlmList llmList))"

definition buildLlmOptionsWithIcon :: "third_model \<Rightarrow> llm_option" where
  "buildLlmOptionsWithIcon x =
     \<lparr>option_icon = getLLMIconName (fid x) (llm_name x), option_text = getRealModelName (llm_name x),
      option_value = llm_name x @ ''@'' @ fid x, option_disabled = (\<not> available x), option_tools = is_tools x\<rparr>"

definition groupImage2TextOptions :: "model_list \<Rightarrow> llm_group list" where
  "groupImage2TextOptions llmInfo =
     filter (\<lambda>g. length (group_options g) > 0)
       (map (\<lambda>(key, ms). \<lparr>group_name = key, group_options = map buildLlmOptionsWithIcon
          (filter (\<lambda>x. (includes_str (model_type x) ''image2text''
                       \<or> (case model_tags x of None \<Rightarrow> False | Some t \<Rightarrow> t \<noteq> [] \<and> includes_str t ''IMAGE2TEXT''))
                     \<and> available x \<and> model_status x = ''1'') ms)\<rparr>) llmInfo)"

definition groupOptionsByModelType :: "string \<Rightarrow> model_list \<Rightarrow> llm_group list" where
  "groupOptionsByModelType mt llmInfo =
     filter (\<lambda>g. length (group_options g) > 0)
       (map (\<lambda>(key, ms). \<lparr>group_name = key, group_options = map buildLlmOptionsWithIcon
          (filter (\<lambda>x. (if mt \<noteq> [] then includes_str (model_type x) mt else True) \<and> available x) ms)\<rparr>)
         (filter (\<lambda>(_, ms). if mt \<noteq> [] then list_ex (\<lambda>x. includes_str (model_type x) mt) ms else True) llmInfo))"

definition llmOptionsByModelType :: "model_list \<Rightarrow> llm_model_type \<Rightarrow> llm_group list" where
  "llmOptionsByModelType llmInfo t =
     (if t = Image2text then groupImage2TextOptions llmInfo else groupOptionsByModelType (LlmModelType t) llmInfo)"

definition push_option :: "llm_option list \<Rightarrow> llm_option \<Rightarrow> llm_option list" where
  "push_option os y = (if \<not> list_ex (\<lambda>z. option_value z = option_value y) os then os @ [y] else os)"

definition compose_group :: "llm_group list \<Rightarrow> llm_group \<Rightarrow> llm_group list" where
  \<comment> \<open>the group found is changed in place; the groups of one call belong to it, so nothing else sees the change\<close>
  "compose_group pre x =
     (case find_index (\<lambda>y. group_name y = group_name x) pre of
        Some i \<Rightarrow> pre[i := (pre ! i)\<lparr>group_options := foldl push_option (group_options (pre ! i)) (group_options x)\<rparr>]
      | None \<Rightarrow> pre @ [x])"

definition composeLlmOptionsByModelTypes :: "model_list \<Rightarrow> llm_model_type list \<Rightarrow> llm_group list" where
  "composeLlmOptionsByModelTypes llmInfo modelTypes =
     foldl (\<lambda>pre cur. foldl compose_group pre (llmOptionsByModelType llmInfo cur)) [] modelTypes"

section \<open>The lists of the model settings\<close>

record factory =
  factory_name :: string
  factory_logo :: string

record llm_item =
  item_name :: string
  item_logo :: string
  item_llm :: "jsval list"
  item_tags :: string

definition nextMyLlmList :: "(jsval list \<times> string) obj \<Rightarrow> factory list \<Rightarrow> llm_item list" where
  \<comment> \<open>the models and tags of each provider of the tenant\<close>
  "nextMyLlmList myLlmList factoryList =
     map (\<lambda>(key, (llm, tags)). \<lparr>item_name = key,
        item_logo = (case find (\<lambda>x. factory_name x = key) factoryList of None \<Rightarrow> [] | Some f \<Rightarrow> factory_logo f),
        item_llm = llm, item_tags = tags\<rparr>) myLlmList"

definition nextFactoryList :: "(jsval list \<times> string) obj \<Rightarrow> factory list \<Rightarrow> factory list" where
  "nextFactoryList myLlmList factoryList = filter (\<lambda>x. list_all (\<lambda>y. y \<noteq> factory_name x) (keys myLlmList)) factoryList"

section \<open>Requests\<close>

datatype llm_query = LlmList | MyLlmList | MyLlmListDetailed | FactoryList

datatype llm_effect =
    Set_Api_Key "jsval obj"
  | Add_Llm "jsval obj"
  | Delete_Llm "jsval obj"
  | Enable_Llm "jsval obj"
  | Delete_Factory "jsval obj"
  | Set_Tenant_Info "jsval obj"
  | Invalidate_Llm llm_query
  | Llm_Toast string

definition ret_ok :: "jsval \<Rightarrow> bool" where
  "ret_ok ret = (js_opt ret ''code'' = JNum (Fin 0))"

definition invalidate_all :: "llm_query list \<Rightarrow> llm_effect list" where
  "invalidate_all qs = map Invalidate_Llm qs"

definition saveApiKey :: "jsval obj \<Rightarrow> jsval \<Rightarrow> llm_effect list" where
  "saveApiKey params ret = Set_Api_Key params # (if ret_ok ret then invalidate_all [MyLlmList, MyLlmListDetailed, FactoryList] else [])"

definition saveTenantInfo :: "jsval obj \<Rightarrow> jsval \<Rightarrow> llm_effect list" where
  "saveTenantInfo params ret = Set_Tenant_Info params # (if ret_ok ret then [Llm_Toast ''message.modified''] else [])"

definition addLlm :: "jsval obj \<Rightarrow> jsval \<Rightarrow> llm_effect list" where
  "addLlm params ret = Add_Llm params # (if ret_ok ret \<and> \<not> truthy (obj_get params ''verify'')
     then invalidate_all [MyLlmList, MyLlmListDetailed, FactoryList, LlmList] else [])"

definition deleteLlm :: "jsval obj \<Rightarrow> jsval \<Rightarrow> llm_effect list" where
  "deleteLlm params ret = Delete_Llm params # (if ret_ok ret
     then invalidate_all [MyLlmList, MyLlmListDetailed, FactoryList] @ [Llm_Toast ''message.deleted''] else [])"

definition enableLlm :: "jsval obj \<Rightarrow> jsval \<Rightarrow> llm_effect list" where
  "enableLlm params ret =
     Enable_Llm (obj_del ''enable'' (obj_put ''status'' (JNum (Fin (if truthy (obj_get params ''enable'') then 1 else 0))) params))
     # (if ret_ok ret then invalidate_all [MyLlmList, MyLlmListDetailed, FactoryList] @ [Llm_Toast ''message.modified''] else [])"

definition deleteFactory :: "jsval obj \<Rightarrow> jsval \<Rightarrow> llm_effect list" where
  "deleteFactory params ret = Delete_Factory params # (if ret_ok ret
     then invalidate_all [MyLlmList, MyLlmListDetailed, FactoryList, LlmList] @ [Llm_Toast ''message.deleted''] else [])"

definition handleDeleteLlm :: "string \<Rightarrow> string \<Rightarrow> jsval \<Rightarrow> llm_effect list" where
  \<comment> \<open>once the deletion is confirmed\<close>
  "handleDeleteLlm llmFactory name ret = deleteLlm [(''llm_factory'', JStr llmFactory), (''llm_name'', JStr name)] ret"

definition handleEnableLlm :: "string \<Rightarrow> string \<Rightarrow> bool \<Rightarrow> jsval \<Rightarrow> llm_effect list" where
  "handleEnableLlm llmFactory name enable ret =
     enableLlm [(''llm_factory'', JStr llmFactory), (''llm_name'', JStr name), (''enable'', JBool enable)] ret"

definition handleDeleteFactory :: "string \<Rightarrow> jsval \<Rightarrow> llm_effect list" where
  "handleDeleteFactory llmFactory ret = deleteFactory [(''llm_factory'', JStr llmFactory)] ret"

section \<open>The dialogs of the providers\<close>

record llm_dialog =
  saveLoading :: bool
  dialog_visible :: bool
  editMode :: bool
  initialValues :: "jsval obj option"
  savingParams :: "jsval obj"
  selectedLlmFactory :: string

record verify_outcome =
  isValid :: bool
  verify_logs :: jsval

type_synonym submit_result = "llm_dialog \<times> llm_effect list \<times> verify_outcome option"

definition verify_result :: "jsval \<Rightarrow> verify_outcome res" where
  \<comment> \<open>\<open>ret.data?.success\<close> and \<open>ret.data?.message\<close>\<close>
  "verify_result ret = bind_r (js_prop ret ''data'') (\<lambda>data.
     Inr \<lparr>isValid = truthy (js_opt data ''success''), verify_logs = js_opt data ''message''\<rparr>)"

definition add_llm_ok :: "jsval obj \<Rightarrow> bool \<Rightarrow> jsval \<Rightarrow> llm_dialog \<Rightarrow> submit_result res" where
  \<comment> \<open>the body shared by the handlers below; the loading flag is set before the request and reset after it\<close>
  "add_llm_ok payload isVerify ret w =
     (let as = addLlm (obj_put ''verify'' (JBool isVerify) payload) ret in
      if isVerify then bind_r (verify_result ret) (\<lambda>v. Inr (w, as, Some v))
      else Inr (w\<lparr>saveLoading := False, dialog_visible := (if ret_ok ret then False else dialog_visible w)\<rparr>, as, None))"

definition onVolcAddingOk :: "jsval obj \<Rightarrow> bool \<Rightarrow> jsval \<Rightarrow> llm_dialog \<Rightarrow> submit_result res" where
  "onVolcAddingOk = add_llm_ok"

definition onTencentCloudAddingOk :: "jsval obj \<Rightarrow> bool \<Rightarrow> jsval \<Rightarrow> llm_dialog \<Rightarrow> submit_result res" where
  "onTencentCloudAddingOk = add_llm_ok"

definition onSparkAddingOk :: "jsval obj \<Rightarrow> bool \<Rightarrow> jsval \<Rightarrow> llm_dialog \<Rightarrow> submit_result res" where
  "onSparkAddingOk = add_llm_ok"

definition onyiyanAddingOk :: "jsval obj \<Rightarrow> bool \<Rightarrow> jsval \<Rightarrow> llm_dialog \<Rightarrow> submit_result res" where
  "onyiyanAddingOk = add_llm_ok"

definition onFishAudioAddingOk :: "jsval obj \<Rightarrow> bool \<Rightarrow> jsval \<Rightarrow> llm_dialog \<Rightarrow> submit_result res" where
  "onFishAudioAddingOk = add_llm_ok"

definition onGoogleAddingOk :: "jsval obj \<Rightarrow> bool \<Rightarrow> jsval \<Rightarrow> llm_dialog \<Rightarrow> submit_result res" where
  "onGoogleAddingOk = add_llm_ok"

definition onBedrockAddingOk :: "jsval obj \<Rightarrow> bool \<Rightarrow> jsval \<Rightarrow> llm_dialog \<Rightarrow> submit_result res" where
  "onBedrockAddingOk = add_llm_ok"

definition onAzureAddingOk :: "jsval obj \<Rightarrow> bool \<Rightarrow> jsval \<Rightarrow> llm_dialog \<Rightarrow> submit_result res" where
  "onAzureAddingOk = add_llm_ok"

definition cleanedPayload :: "jsval obj \<Rightarrow> jsval obj" where
  \<comment> \<open>the key of the form is a text\<close>
  "cleanedPayload payload =
     (if \<not> truthy (obj_get payload ''api_key'') \<or> (case obj_get payload ''api_key'' of JStr s \<Rightarrow> js_trim s = [] | _ \<Rightarrow> False)
      then obj_del ''api_key'' payload else payload)"

definition onLlmAddingOk :: "jsval obj \<Rightarrow> bool \<Rightarrow> jsval \<Rightarrow> llm_dialog \<Rightarrow> submit_result res" where
  "onLlmAddingOk payload isVerify ret w =
     bind_r (add_llm_ok (cleanedPayload payload) isVerify ret w) (\<lambda>(w', as, v).
       Inr (if \<not> isVerify \<and> ret_ok ret then w'\<lparr>editMode := False, initialValues := None\<rparr> else w', as, v))"

definition showLlmAddingModal :: "string \<Rightarrow> bool \<Rightarrow> jsval \<Rightarrow> llm_dialog \<Rightarrow> llm_dialog" where
  \<comment> \<open>with the details of the model edited; its name is a text\<close>
  "showLlmAddingModal llmFactory isEdit detailedData w =
     w\<lparr>selectedLlmFactory := llmFactory, editMode := isEdit, dialog_visible := True,
       initialValues := (if isEdit \<and> truthy detailedData
         then Some [(''llm_name'', JStr (getRealModelName (js_to_string (js_opt detailedData ''name'')))),
                    (''model_type'', js_opt detailedData ''type''),
                    (''api_base'', js_or (js_opt detailedData ''api_base'') (JStr [])),
                    (''max_tokens'', js_or (js_opt detailedData ''max_tokens'') (JNum (Fin 8192))),
                    (''api_key'', JStr [])]
         else None)\<rparr>"

definition ends_with :: "string \<Rightarrow> string \<Rightarrow> bool" where
  "ends_with s t = starts_with (rev s) (rev t)"

definition sourceFid :: "(string \<Rightarrow> string option) \<Rightarrow> jsval \<Rightarrow> string" where
  \<comment> \<open>a base URL that cannot be parsed is ignored\<close>
  "sourceFid hostname baseUrl =
     (case baseUrl of
        JStr u \<Rightarrow> (if u = [] then ''SILICONFLOW''
                  else case hostname u of
                      None \<Rightarrow> ''SILICONFLOW''
                    | Some h \<Rightarrow> let host = toLowerCase h in
                        if host = ''api.siliconflow.com'' \<or> ends_with host ''.api.siliconflow.com'' then ''siliconflow_intl''
                        else ''SILICONFLOW'')
      | _ \<Rightarrow> ''SILICONFLOW'')"

definition api_key_payload :: "(string \<Rightarrow> string option) \<Rightarrow> jsval obj \<Rightarrow> jsval obj \<Rightarrow> bool \<Rightarrow> jsval obj" where
  "api_key_payload hostname saving postBody isVerify =
     (let payload = obj_put ''verify'' (JBool isVerify) (obj_assign saving postBody) in
      if obj_get saving ''llm_factory'' = JStr ''SILICONFLOW''
      then obj_put ''source_fid'' (JStr (sourceFid hostname (obj_get postBody ''base_url''))) payload else payload)"

definition api_key_verify_result :: "jsval \<Rightarrow> verify_outcome res" where
  \<comment> \<open>a failure reads \<open>ret.data.message\<close>, without the guard\<close>
  "api_key_verify_result ret = bind_r (js_prop ret ''data'') (\<lambda>data.
     if truthy (js_opt data ''success'') then Inr \<lparr>isValid = True, verify_logs = js_opt data ''message''\<rparr>
     else bind_r (js_prop data ''message'') (\<lambda>m. Inr \<lparr>isValid = False, verify_logs = m\<rparr>))"

definition onApiKeySavingOk :: "(string \<Rightarrow> string option) \<Rightarrow> jsval obj \<Rightarrow> bool \<Rightarrow> jsval \<Rightarrow> llm_dialog \<Rightarrow> submit_result res" where
  "onApiKeySavingOk hostname postBody isVerify ret w =
     (let as = saveApiKey (api_key_payload hostname (savingParams w) postBody isVerify) ret in
      if isVerify then bind_r (api_key_verify_result ret) (\<lambda>v. Inr (w, as, Some v))
      else if ret_ok ret then Inr (w\<lparr>saveLoading := False, dialog_visible := False, editMode := False\<rparr>, as @ [Invalidate_Llm LlmList], None)
      else Inr (w\<lparr>saveLoading := False\<rparr>, as, None))"

definition showApiKeyModal :: "jsval obj \<Rightarrow> bool \<Rightarrow> llm_dialog \<Rightarrow> llm_dialog" where
  "showApiKeyModal saving isEdit w = w\<lparr>savingParams := saving, editMode := isEdit, dialog_visible := True\<rparr>"

definition onSystemSettingSavingOk :: "jsval \<Rightarrow> jsval \<Rightarrow> jsval obj \<Rightarrow> jsval \<Rightarrow> llm_dialog \<Rightarrow> llm_dialog \<times> llm_effect list" where
  \<comment> \<open>with the id and the name of the tenant\<close>
  "onSystemSettingSavingOk tenantId name payload ret w =
     (w\<lparr>dialog_visible := (if ret_ok ret then False else dialog_visible w)\<rparr>,
      saveTenantInfo (obj_assign [(''tenant_id'', tenantId), (''name'', name)] payload) ret)"

definition ocr_request :: "string \<Rightarrow> jsval obj \<Rightarrow> jsval obj \<Rightarrow> jsval obj" where
  \<comment> \<open>the request of an OCR provider, with its configuration as the key\<close>
  "ocr_request llmFactory payload cfg =
     [(''llm_factory'', JStr llmFactory), (''llm_name'', obj_get payload ''llm_name''), (''model_type'', JStr ''ocr''),
      (''api_key'', JObj cfg), (''api_base'', JStr []), (''max_tokens'', JNum (Fin 0))]"

definition mineru_cfg :: "jsval obj \<Rightarrow> jsval obj" where
  "mineru_cfg payload =
     (let cfg = obj_put ''mineru_delete_output''
            (JStr (if truthy (js_coalesce (obj_get payload ''mineru_delete_output'') (JBool True)) then ''1'' else ''0'')) payload in
      if obj_get payload ''mineru_backend'' \<noteq> JStr ''vlm-http-client'' then obj_del ''mineru_server_url'' cfg else cfg)"

definition onMineruOk :: "jsval obj \<Rightarrow> bool \<Rightarrow> jsval \<Rightarrow> llm_dialog \<Rightarrow> submit_result res" where
  "onMineruOk payload = add_llm_ok (ocr_request ''MinerU'' payload (mineru_cfg payload))"

definition onPaddleOCROk :: "jsval obj \<Rightarrow> bool \<Rightarrow> jsval \<Rightarrow> llm_dialog \<Rightarrow> (submit_result \<times> bool) res" where
  \<comment> \<open>the second result: whether the model was added\<close>
  "onPaddleOCROk payload isVerify ret w =
     bind_r (add_llm_ok (ocr_request ''PaddleOCR'' payload payload) isVerify ret w) (\<lambda>r. Inr (r, \<not> isVerify \<and> ret_ok ret))"

definition onApiKeyVerifying :: "(jsval obj \<Rightarrow> bool \<Rightarrow> 'r) \<Rightarrow> jsval obj \<Rightarrow> 'r" where
  "onApiKeyVerifying onVerify postBody = onVerify postBody True"

section \<open>What the selectors offer\<close>

definition offered :: "llm_model_type \<Rightarrow> third_model \<Rightarrow> bool" where
  \<comment> \<open>a model of images may be marked by its tags, and must be enabled\<close>
  "offered t m = (available m \<and>
     (if t = Image2text
      then model_status m = ''1'' \<and> (includes_str (model_type m) ''image2text''
             \<or> (\<exists>tags. model_tags m = Some tags \<and> includes_str tags ''IMAGE2TEXT''))
      else includes_str (model_type m) (LlmModelType t)))"

definition offers :: "llm_group list \<Rightarrow> (string \<times> string) set" where
  \<comment> \<open>the options of the groups, by group and value\<close>
  "offers gs = (\<Union>g \<in> set gs. Pair (group_name g) ` option_value ` set (group_options g))"

definition clean_groups :: "llm_group list \<Rightarrow> bool" where
  "clean_groups gs = (\<forall>g \<in> set gs. group_options g \<noteq> [] \<and> distinct (map option_value (group_options g)))"

lemma offers_append: "offers (gs @ hs) = offers gs \<union> offers hs"
  by (auto simp: offers_def)

lemma offers_Cons: "offers (g # gs) = Pair (group_name g) ` option_value ` set (group_options g) \<union> offers gs"
  by (simp add: offers_def)

lemma offers_Nil [simp]: "offers [] = {}"
  by (simp add: offers_def)

lemma offers_nonempty: "offers (filter (\<lambda>g. group_options g \<noteq> []) gs) = offers gs"
  by (auto simp: offers_def)

lemma push_option_values: "option_value ` set (push_option os y) = insert (option_value y) (option_value ` set os)"
  unfolding push_option_def list_ex_iff by (auto simp: image_iff) (metis imageI)

lemma push_options_values: "option_value ` set (foldl push_option os ys) = option_value ` set os \<union> option_value ` set ys"
  by (induction ys arbitrary: os) (auto simp: push_option_values)

lemma push_options_distinct:
  "distinct (map option_value os) \<Longrightarrow> distinct (map option_value (foldl push_option os ys))"
proof (induction ys arbitrary: os)
  case (Cons y ys)
  have "distinct (map option_value (push_option os y))" using Cons.prems by (force simp: push_option_def list_ex_iff)
  with Cons.IH show ?case by simp
qed simp

lemma push_options_nonempty: "os \<noteq> [] \<Longrightarrow> foldl push_option os ys \<noteq> []"
  by (induction ys arbitrary: os) (simp_all add: push_option_def)

lemmas push_options = push_options_values push_options_distinct push_options_nonempty

lemma compose_group_cases:
  obtains (pushed) "group_name x \<notin> group_name ` set pre" "compose_group pre x = pre @ [x]"
  | (merged) gs g hs where "pre = gs @ g # hs" "group_name g = group_name x"
      "compose_group pre x = gs @ g\<lparr>group_options := foldl push_option (group_options g) (group_options x)\<rparr> # hs"
proof (cases "find_index (\<lambda>y. group_name y = group_name x) pre")
  case None
  then have "compose_group pre x = pre @ [x]" by (simp add: compose_group_def)
  moreover have "group_name x \<notin> group_name ` set pre" using None by (auto simp: find_index_None)
  ultimately show thesis by (rule pushed [rotated])
next
  case (Some i)
  then have "i < length pre" "group_name (pre ! i) = group_name x" by (auto dest: find_index_Some)
  then show thesis using merged [of "take i pre" "pre ! i" "drop (Suc i) pre"] Some
    by (simp add: compose_group_def upd_conv_take_nth_drop id_take_nth_drop [symmetric])
qed

lemma compose_group_offers: "offers (compose_group pre x) = offers pre \<union> offers [x]"
proof (cases rule: compose_group_cases [of x pre])
  case (merged gs g hs)
  then show ?thesis by (auto simp: offers_append offers_Cons push_options_values)
qed (simp add: offers_append)

lemma compose_group_names: "distinct (map group_name pre) \<Longrightarrow> distinct (map group_name (compose_group pre x))"
  by (cases rule: compose_group_cases [of x pre]) auto

lemma compose_group_clean: "clean_groups pre \<Longrightarrow> clean_groups [x] \<Longrightarrow> clean_groups (compose_group pre x)"
  by (cases rule: compose_group_cases [of x pre]) (auto simp: clean_groups_def push_options)

lemma compose_groups_offers: "offers (foldl compose_group pre xs) = offers pre \<union> offers xs"
proof (induction xs arbitrary: pre)
  case (Cons x xs)
  have "offers (x # xs) = offers [x] \<union> offers xs" by (simp add: offers_Cons)
  then show ?case using Cons.IH [of "compose_group pre x"] by (simp add: compose_group_offers Un_assoc)
qed simp

lemma compose_groups_names: "distinct (map group_name pre) \<Longrightarrow> distinct (map group_name (foldl compose_group pre xs))"
  by (induction xs arbitrary: pre) (simp_all add: compose_group_names)

lemma compose_groups_clean: "clean_groups pre \<Longrightarrow> clean_groups xs \<Longrightarrow> clean_groups (foldl compose_group pre xs)"
proof (induction xs arbitrary: pre)
  case (Cons x xs)
  have "clean_groups [x]" "clean_groups xs" using Cons.prems(2) by (simp_all add: clean_groups_def)
  then show ?case using Cons.IH [OF compose_group_clean [OF Cons.prems(1)]] by simp
qed simp

lemma compose_types:
  assumes "\<And>t. t \<in> set ts \<Longrightarrow> clean_groups (f t)" and "distinct (map group_name pre)" and "clean_groups pre"
  shows "offers (foldl (\<lambda>pre t. foldl compose_group pre (f t)) pre ts) = offers pre \<union> (\<Union>t \<in> set ts. offers (f t))
    \<and> distinct (map group_name (foldl (\<lambda>pre t. foldl compose_group pre (f t)) pre ts))
    \<and> clean_groups (foldl (\<lambda>pre t. foldl compose_group pre (f t)) pre ts)"
  using assms
proof (induction ts arbitrary: pre)
  case (Cons t ts)
  have ft: "clean_groups (f t)" using Cons.prems(1) by simp
  have "distinct (map group_name (foldl compose_group pre (f t)))" "clean_groups (foldl compose_group pre (f t))"
    using Cons.prems(2,3) ft by (simp_all add: compose_groups_names compose_groups_clean)
  then show ?case using Cons.IH [of "foldl compose_group pre (f t)"] Cons.prems(1) by (simp add: compose_groups_offers Un_assoc)
qed simp

lemma type_group_options:
  "\<exists>P. llmOptionsByModelType llmInfo t = filter (\<lambda>g. group_options g \<noteq> [])
      (map (\<lambda>(key, ms). \<lparr>group_name = key, group_options = map buildLlmOptionsWithIcon (filter (offered t) ms)\<rparr>) (filter P llmInfo))
    \<and> (\<forall>key ms. (key, ms) \<in> set llmInfo \<and> filter (offered t) ms \<noteq> [] \<longrightarrow> P (key, ms))"
proof (cases "t = Image2text")
  case True
  have "offered t = (\<lambda>x. (includes_str (model_type x) ''image2text''
      \<or> (case model_tags x of None \<Rightarrow> False | Some t \<Rightarrow> t \<noteq> [] \<and> includes_str t ''IMAGE2TEXT'')) \<and> available x \<and> model_status x = ''1'')"
    by (auto simp: offered_def True fun_eq_iff starts_with_def split: option.splits)
  then show ?thesis
    by (intro exI [of _ "\<lambda>_. True"]) (simp add: True llmOptionsByModelType_def groupImage2TextOptions_def)
next
  case False
  have "LlmModelType t \<noteq> []" by (cases t) simp_all
  moreover have "offered t = (\<lambda>x. includes_str (model_type x) (LlmModelType t) \<and> available x)"
    by (auto simp: offered_def False fun_eq_iff)
  ultimately show ?thesis
    by (intro exI [of _ "\<lambda>(_, ms). list_ex (\<lambda>x. includes_str (model_type x) (LlmModelType t)) ms"])
       (auto simp: False llmOptionsByModelType_def groupOptionsByModelType_def list_ex_iff filter_empty_conv)
qed

lemma option_value_uuid: "option_value (buildLlmOptionsWithIcon m) = model_uuid m"
  by (simp add: buildLlmOptionsWithIcon_def model_uuid_def buildLlmUuid_def)

lemma type_offers:
  "offers (llmOptionsByModelType llmInfo t) = (\<Union>(key, ms) \<in> set llmInfo. Pair key ` model_uuid ` {m \<in> set ms. offered t m})"
proof -
  obtain P where g: "llmOptionsByModelType llmInfo t = filter (\<lambda>g. group_options g \<noteq> [])
      (map (\<lambda>(key, ms). \<lparr>group_name = key, group_options = map buildLlmOptionsWithIcon (filter (offered t) ms)\<rparr>) (filter P llmInfo))"
    and P: "\<And>key ms. (key, ms) \<in> set llmInfo \<Longrightarrow> filter (offered t) ms \<noteq> [] \<Longrightarrow> P (key, ms)"
    using type_group_options by blast
  have "offers (llmOptionsByModelType llmInfo t)
      = (\<Union>(key, ms) \<in> set (filter P llmInfo). Pair key ` model_uuid ` {m \<in> set ms. offered t m})"
    unfolding g offers_nonempty by (simp add: offers_def case_prod_unfold image_image option_value_uuid)
  also have "\<dots> = (\<Union>(key, ms) \<in> set llmInfo. Pair key ` model_uuid ` {m \<in> set ms. offered t m})"
    using P by (fastforce simp: filter_empty_conv)
  finally show ?thesis .
qed

lemma type_clean:
  assumes "\<forall>(key, ms) \<in> set llmInfo. distinct (map model_uuid ms)"
  shows "clean_groups (llmOptionsByModelType llmInfo t)"
proof -
  have "map option_value (map buildLlmOptionsWithIcon ms) = map model_uuid ms" for ms by (simp add: option_value_uuid)
  then show ?thesis using type_group_options [of llmInfo t] assms
    by (force simp: clean_groups_def distinct_map_filter option_value_uuid comp_def)
qed

lemma find_flat:
  assumes "distinct (map fst xs)" and "(u, m) \<in> set xs"
  shows "map_option snd (find (\<lambda>x. fst x = u) xs) = Some m"
  using assms by (induction xs) (auto simp: rev_image_eqI)

lemma flatLlmList_concat: "flatLlmList llmList = concat (map (\<lambda>(_, ms). map (\<lambda>x. (model_uuid x, x)) ms) llmList)"
proof -
  have "foldl (\<lambda>pre (_, cur). pre @ map (\<lambda>x. (model_uuid x, x)) cur) pre xs
      = pre @ concat (map (\<lambda>(_, ms). map (\<lambda>x. (model_uuid x, x)) ms) xs)" for pre and xs :: model_list
    by (induction xs arbitrary: pre) auto
  then show ?thesis by (simp add: flatLlmList_def)
qed

text \<open>
  C36: A model selector offers, under one heading per provider, exactly the models of the kinds it is asked for. When the
  names of the models and providers identify the models, the merged options of several kinds have distinct headings,
  every heading has an option and no option twice, an option stands under a provider exactly when one of the provider's
  models is available and of one of the kinds (a model of images by its kind or its tags, and enabled), and the value of
  an option leads back to its model.
\<close>

theorem model_options_exact:
  assumes "distinct (map fst (flatLlmList llmInfo))" and "gs = composeLlmOptionsByModelTypes llmInfo ts"
  shows "distinct (map group_name gs)
    \<and> (\<forall>g \<in> set gs. group_options g \<noteq> [] \<and> distinct (map option_value (group_options g)))
    \<and> (\<forall>key v. (\<exists>g \<in> set gs. group_name g = key \<and> v \<in> option_value ` set (group_options g)) \<longleftrightarrow>
         (\<exists>ms m t. (key, ms) \<in> set llmInfo \<and> m \<in> set ms \<and> t \<in> set ts \<and> offered t m
            \<and> v = model_uuid m \<and> findLlmByUuid llmInfo v = Some m))"
proof -
  have "distinct (concat (map (\<lambda>(_, ms). map model_uuid ms) llmInfo))"
    using assms(1) by (simp add: flatLlmList_concat map_concat case_prod_unfold comp_def)
  then have uuids: "\<forall>(key, ms) \<in> set llmInfo. distinct (map model_uuid ms)" by (induction llmInfo) auto
  have found: "findLlmByUuid llmInfo (model_uuid m) = Some m" if "(key, ms) \<in> set llmInfo" "m \<in> set ms" for key ms m
    unfolding findLlmByUuid_def using that by (intro find_flat assms(1)) (force simp: flatLlmList_concat)
  note gs = compose_types [of ts "llmOptionsByModelType llmInfo" "[]", folded composeLlmOptionsByModelTypes_def assms(2), OF type_clean [OF uuids]]
  have offers: "offers gs = (\<Union>t \<in> set ts. offers (llmOptionsByModelType llmInfo t))"
    and names: "distinct (map group_name gs)" and clean: "clean_groups gs" using gs by (simp_all add: clean_groups_def)
  have "(\<exists>g \<in> set gs. group_name g = key \<and> v \<in> option_value ` set (group_options g)) \<longleftrightarrow> (key, v) \<in> offers gs" for key v
    by (auto simp: offers_def)
  also have "\<dots> key v \<longleftrightarrow> (\<exists>ms m t. (key, ms) \<in> set llmInfo \<and> m \<in> set ms \<and> t \<in> set ts \<and> offered t m
            \<and> v = model_uuid m \<and> findLlmByUuid llmInfo v = Some m)" for key v
    unfolding offers type_offers using found by fastforce
  finally show ?thesis using names clean unfolding clean_groups_def by blast
qed

definition sample_model :: "string \<Rightarrow> string \<Rightarrow> string \<Rightarrow> third_model" where
  "sample_model n f ty = \<lparr>llm_name = n, fid = f, model_type = ty, model_status = ''1'', model_tags = None, available = True,
     is_tools = False\<rparr>"

definition sample_models :: model_list where
  "sample_models = [(''OpenAI'', [sample_model ''gpt'' ''OpenAI'' ''chat,image2text'', sample_model ''ada'' ''OpenAI'' ''embedding''])]"

theorem model_options_exact_witness:
  "\<exists>g \<in> set (composeLlmOptionsByModelTypes sample_models [Chat, Image2text]).
     group_name g = ''OpenAI'' \<and> ''gpt@OpenAI'' \<in> option_value ` set (group_options g)"
proof -
  let ?m = "sample_model ''gpt'' ''OpenAI'' ''chat,image2text''"
  let ?ms = "[?m, sample_model ''ada'' ''OpenAI'' ''embedding'']"
  have d: "distinct (map fst (flatLlmList sample_models))" by code_simp
  have "offered Chat ?m" by (simp add: offered_def sample_model_def starts_with_def)
  moreover have "''gpt@OpenAI'' = model_uuid ?m" "findLlmByUuid sample_models ''gpt@OpenAI'' = Some ?m" by code_simp+
  moreover have "(''OpenAI'', ?ms) \<in> set sample_models" "?m \<in> set ?ms" by (simp_all add: sample_models_def)
  moreover have "Chat \<in> set [Chat, Image2text]" by simp
  ultimately have "\<exists>ms m t. (''OpenAI'', ms) \<in> set sample_models \<and> m \<in> set ms \<and> t \<in> set [Chat, Image2text] \<and> offered t m
      \<and> ''gpt@OpenAI'' = model_uuid m \<and> findLlmByUuid sample_models ''gpt@OpenAI'' = Some m" by blast
  then show ?thesis using model_options_exact [OF d refl, of "[Chat, Image2text]"] by blast
qed

lemma providers_partition:
  "map item_name (nextMyLlmList mine fs) = keys mine"
  "set (nextFactoryList mine fs) = {f \<in> set fs. factory_name f \<notin> set (keys mine)}"
proof -
  show "map item_name (nextMyLlmList mine fs) = keys mine" by (simp add: nextMyLlmList_def keys_def case_prod_unfold)
  have "list_all (\<lambda>y. y \<noteq> n) (keys mine) \<longleftrightarrow> n \<notin> set (keys mine)" for n by (auto simp: list_all_iff)
  then show "set (nextFactoryList mine fs) = {f \<in> set fs. factory_name f \<notin> set (keys mine)}" by (simp add: nextFactoryList_def)
qed

section \<open>Verifying a provider\<close>

text \<open>
  Verifying the settings of a provider changes nothing: the dialog stays as it was, the request is marked as a
  verification, no list is fetched again and the outcome is valid when the answer says so.
\<close>

theorem verifying_adds_nothing:
  assumes "js_prop ret ''data'' = Inr data"
  shows "onApiKeyVerifying (\<lambda>p v. add_llm_ok p v ret w) payload =
     Inr (w, [Add_Llm (obj_put ''verify'' (JBool True) payload)],
          Some \<lparr>isValid = truthy (js_opt data ''success''), verify_logs = js_opt data ''message''\<rparr>)"
  using assms by (simp add: onApiKeyVerifying_def add_llm_ok_def verify_result_def bind_r_def addLlm_def)

text \<open>
  The verification of an API key reads the message of a failure without the guard of the other dialogs: an answer without
  data rejects the promise where the others report an invalid key.
\<close>

theorem api_key_verification_rejects:
  assumes "js_prop ret ''data'' = Inr data" and "nullish data"
  shows "onApiKeyVerifying (\<lambda>p v. onApiKeySavingOk hostname p v ret w) postBody = Inl TypeError"
    and "verify_result ret = Inr \<lparr>isValid = False, verify_logs = JUndef\<rparr>"
proof -
  have "js_opt data k = JUndef" for k using assms(2) by (cases data) (simp_all add: js_opt_def)
  moreover have "js_prop data ''message'' = Inl TypeError" using assms(2) by (cases data) auto
  ultimately show "onApiKeyVerifying (\<lambda>p v. onApiKeySavingOk hostname p v ret w) postBody = Inl TypeError"
    and "verify_result ret = Inr \<lparr>isValid = False, verify_logs = JUndef\<rparr>"
    using assms(1) by (simp_all add: onApiKeyVerifying_def onApiKeySavingOk_def api_key_verify_result_def verify_result_def bind_r_def Let_def)
qed

text \<open>The key of a self-hosted model is sent only when it is not blank; everything else of the form is.\<close>

lemma cleaned_payload:
  assumes "obj_get payload ''api_key'' = JStr s" and "distinct (keys payload)"
  shows "obj_get (cleanedPayload payload) ''api_key'' = (if js_trim s = [] then JUndef else JStr s)"
    and "k \<noteq> ''api_key'' \<Longrightarrow> obj_get (cleanedPayload payload) k = obj_get payload k"
proof -
  have "js_trim [] = []" by (simp add: js_trim_def)
  then show "obj_get (cleanedPayload payload) ''api_key'' = (if js_trim s = [] then JUndef else JStr s)"
    and "k \<noteq> ''api_key'' \<Longrightarrow> obj_get (cleanedPayload payload) k = obj_get payload k"
    using assms by (auto simp: cleanedPayload_def obj_get_del)
qed

text \<open>The address of the server of MinerU is sent only to the backend that uses one, and the flag of its output as a digit.\<close>

lemma mineru_cfg_fields:
  "obj_get payload ''mineru_backend'' \<noteq> JStr ''vlm-http-client'' \<Longrightarrow> obj_get (mineru_cfg payload) ''mineru_server_url'' = JUndef"
  "obj_get payload ''mineru_backend'' = JStr ''vlm-http-client'' \<Longrightarrow> obj_get (mineru_cfg payload) ''mineru_server_url'' = obj_get payload ''mineru_server_url''"
  "obj_get (mineru_cfg payload) ''mineru_delete_output'' \<in> {JStr ''0'', JStr ''1''}"
  by (simp_all add: mineru_cfg_def Let_def obj_get_del)

end
