(* ===== verification/Settings_Pages.thy ===== *)
theory Settings_Pages
  imports Dsl_Export
begin

text \<open>
  The settings of the MCP servers (\<open>pages/user-setting/mcp\<close>, \<open>hooks/use-mcp-request.ts\<close>) and of the data sources
  (\<open>pages/user-setting/data-source\<close>): the selection of servers and its operations, the dialogs that edit, test and import
  servers, the data sources grouped by kind and the dialog that adds one. A handler that waits for the server is a function
  of the answer. The parser of JSON and the test of a URL are arguments; the schema of an import is the source's, with the
  meaning the validation library documents for its constructors.
\<close>

section \<open>MCP servers\<close>

record mcp_server =
  mcp_id :: string
  mcp_name :: string

record mcp_page =
  mcp_servers :: "mcp_server list"
  selectedList :: "string list"
  isSelectionMode :: bool
  editVisible :: bool
  edit_id :: string
  importVisible :: bool

datatype mcp_effect =
    Mcp_Create "jsval obj"
  | Mcp_Update "jsval obj"
  | Mcp_Delete "string list"
  | Mcp_Export "string list"
  | Mcp_Import jsval
  | Mcp_Test "jsval obj"
  | Mcp_Download jsval string
  | Mcp_Toast string
  | Mcp_Error string
  | Mcp_Refetch

definition mcp_ok :: "jsval \<Rightarrow> bool" where
  "mcp_ok ret = (js_opt ret ''code'' = JNum (Fin 0))"

definition createMcpServer :: "jsval obj \<Rightarrow> jsval \<Rightarrow> mcp_effect list" where
  "createMcpServer params ret = Mcp_Create params # (if mcp_ok ret then [Mcp_Toast ''message.created'', Mcp_Refetch] else [])"

definition updateMcpServer :: "jsval obj \<Rightarrow> jsval \<Rightarrow> mcp_effect list" where
  "updateMcpServer params ret = Mcp_Update params # (if mcp_ok ret then [Mcp_Toast ''message.updated'', Mcp_Refetch] else [])"

definition deleteMcpServer :: "string list \<Rightarrow> jsval \<Rightarrow> mcp_effect list" where
  "deleteMcpServer ids ret = Mcp_Delete ids # (if mcp_ok ret then [Mcp_Toast ''message.deleted'', Mcp_Refetch] else [])"

definition importMcpServer :: "jsval \<Rightarrow> jsval \<Rightarrow> mcp_effect list" where
  "importMcpServer params ret = Mcp_Import params # (if mcp_ok ret then [Mcp_Toast ''message.operated'', Mcp_Refetch] else [])"

definition exportMcpServer :: "string list \<Rightarrow> jsval \<Rightarrow> mcp_effect list" where
  "exportMcpServer ids ret = Mcp_Export ids # (if mcp_ok ret then [Mcp_Toast ''message.operated''] else [])"

definition handleExportMcpJson :: "string list \<Rightarrow> jsval \<Rightarrow> mcp_effect list" where
  "handleExportMcpJson ids ret = exportMcpServer ids ret
     @ (if mcp_ok ret then [Mcp_Download (js_opt ret ''data'') ''mcp.json''] else [])"

subsection \<open>Selection\<close>

definition handleSelectChange :: "string \<Rightarrow> bool \<Rightarrow> mcp_page \<Rightarrow> mcp_page" where
  "handleSelectChange i checked st =
     st\<lparr>selectedList := (if checked then selectedList st @ [i] else filter (\<lambda>x. x \<noteq> i) (selectedList st))\<rparr>"

definition handleSelectAll :: "bool \<Rightarrow> mcp_page \<Rightarrow> mcp_page" where
  "handleSelectAll checked st = st\<lparr>selectedList := (if checked then map mcp_id (mcp_servers st) else [])\<rparr>"

definition switchSelectionMode :: "mcp_page \<Rightarrow> mcp_page" where
  "switchSelectionMode st = st\<lparr>isSelectionMode := \<not> isSelectionMode st\<rparr>"

definition bulk_delete_mcp :: "jsval \<Rightarrow> mcp_page \<Rightarrow> mcp_page \<times> mcp_effect list" where
  "bulk_delete_mcp ret st = (st, deleteMcpServer (selectedList st) ret)"

definition bulk_export_mcp :: "jsval \<Rightarrow> mcp_page \<Rightarrow> mcp_page \<times> mcp_effect list" where
  "bulk_export_mcp ret st = (st, handleExportMcpJson (selectedList st) ret)"

definition delete_one_mcp :: "mcp_server \<Rightarrow> jsval \<Rightarrow> mcp_page \<Rightarrow> mcp_page \<times> mcp_effect list" where
  "delete_one_mcp m ret st = (st, deleteMcpServer [mcp_id m] ret)"

definition toolLength :: "jsval \<Rightarrow> nat" where
  \<comment> \<open>the count of a card, from the variables of the server\<close>
  "toolLength variables = (case js_opt variables ''tools'' of JObj tools \<Rightarrow> length (keys tools) | _ \<Rightarrow> 0)"

subsection \<open>Editing a server\<close>

definition showEditMcp :: "string \<Rightarrow> mcp_page \<Rightarrow> mcp_page" where
  "showEditMcp i st = st\<lparr>edit_id := i, editVisible := True\<rparr>"

definition edit_mcp_ok :: "jsval obj \<Rightarrow> jsval \<Rightarrow> mcp_page \<Rightarrow> mcp_page \<times> mcp_effect list" where
  "edit_mcp_ok vals ret st =
     (if mcp_ok ret then st\<lparr>editVisible := False\<rparr> else st,
      if edit_id st \<noteq> [] then updateMcpServer (obj_put ''mcp_id'' (JStr (edit_id st)) vals) ret else createMcpServer vals ret)"

record mcp_dialog =
  isTriggeredBySaving :: bool
  fieldChanged :: bool
  testLoading :: bool
  test_tools :: "jsval obj list"
  mcp_form :: "jsval obj"

definition mcp_form_values :: "jsval obj \<Rightarrow> jsval obj" where
  \<comment> \<open>what a test and a save send; the values without the token, which moves to the variables\<close>
  "mcp_form_values vals =
     obj_put ''headers'' (JObj [(''Authorization'', JStr ''Bearer ${authorization_token}'')])
       (obj_put ''variables'' (JObj [(''authorization_token'', obj_get vals ''authorization_token'')])
          (obj_del ''authorization_token'' vals))"

definition mcp_dialog_ok :: "jsval obj \<Rightarrow> jsval \<Rightarrow> mcp_dialog \<Rightarrow> mcp_page \<Rightarrow> mcp_dialog \<times> mcp_page \<times> mcp_effect list" where
  "mcp_dialog_ok vals ret d st =
     (if isTriggeredBySaving d then let (st', es) = edit_mcp_ok (mcp_form_values vals) ret st in (d, st', es)
      else (if mcp_ok ret then d\<lparr>fieldChanged := False\<rparr> else d, st, [Mcp_Test (mcp_form_values vals)]))"

definition mcp_form_reset :: "jsval \<Rightarrow> mcp_dialog \<Rightarrow> mcp_dialog" where
  \<comment> \<open>the effect when the server has been fetched\<close>
  "mcp_form_reset data d =
     (case data of
        JObj ob \<Rightarrow> (if ob = [] then d
          else d\<lparr>mcp_form := concat (map (\<lambda>k. if k \<in> set (keys ob) then [(k, obj_get ob k)] else []) [''name'', ''server_type'', ''url''])\<rparr>)
      | _ \<Rightarrow> d)"

definition change_field :: "string \<Rightarrow> string \<Rightarrow> mcp_dialog \<Rightarrow> mcp_dialog" where
  \<comment> \<open>the URL and the token are trimmed; a change of the name needs no new test\<close>
  "change_field k v d =
     d\<lparr>mcp_form := obj_put k (JStr (if k \<in> {''url'', ''authorization_token''} then js_trim v else v)) (mcp_form d),
       fieldChanged := (k \<noteq> ''name'' \<or> fieldChanged d)\<rparr>"

definition transferToolToArray :: "jsval obj obj \<Rightarrow> jsval obj list" where
  "transferToolToArray tools = map (\<lambda>(n, tool). obj_put ''name'' (JStr n) tool) tools"

definition nextTools :: "jsval obj obj \<Rightarrow> mcp_dialog \<Rightarrow> jsval obj list" where
  "nextTools cached d = (if test_tools d = [] then transferToolToArray cached else test_tools d)"

definition save_disabled :: "mcp_dialog \<Rightarrow> bool" where
  "save_disabled d = (test_tools d = [] \<or> testLoading d \<or> fieldChanged d)"

subsection \<open>Importing servers\<close>

fun is_str :: "jsval \<Rightarrow> bool" where
  "is_str (JStr _) = True"
| "is_str _ = False"

fun is_record :: "jsval \<Rightarrow> bool" where
  "is_record (JObj _) = True"
| "is_record _ = False"

definition ServerEntrySchema :: "(string \<Rightarrow> bool) \<Rightarrow> jsval \<Rightarrow> bool" where
  "ServerEntrySchema isUrl v =
     (case v of
        JObj ob \<Rightarrow> (obj_get ob ''authorization_token'' = JUndef \<or> is_str (obj_get ob ''authorization_token''))
          \<and> (obj_get ob ''name'' = JUndef \<or> is_str (obj_get ob ''name''))
          \<and> (obj_get ob ''tool_configuration'' = JUndef \<or> is_record (obj_get ob ''tool_configuration''))
          \<and> is_str (obj_get ob ''type'')
          \<and> (case obj_get ob ''url'' of JStr u \<Rightarrow> isUrl u | _ \<Rightarrow> False)
      | _ \<Rightarrow> False)"

definition McpConfigSchema :: "(string \<Rightarrow> bool) \<Rightarrow> jsval \<Rightarrow> bool" where
  "McpConfigSchema isUrl v =
     (case v of
        JObj ob \<Rightarrow> (case obj_get ob ''mcpServers'' of
            JObj servers \<Rightarrow> list_all (\<lambda>(_, s). ServerEntrySchema isUrl s) servers | _ \<Rightarrow> False)
      | _ \<Rightarrow> False)"

definition onImportOk ::
    "libs \<Rightarrow> (string \<Rightarrow> jsval option) \<Rightarrow> (string \<Rightarrow> bool) \<Rightarrow> json_file list \<Rightarrow> jsval \<Rightarrow> mcp_page \<Rightarrow> mcp_page \<times> mcp_effect list" where
  "onImportOk L parse isUrl fileList ret st =
     (case fileList of
        [] \<Rightarrow> (st, [])
      | f # _ \<Rightarrow>
          if mime_type f \<noteq> ''application/json'' then (st, [Mcp_Error ''flow.jsonUploadTypeErrorMessage''])
          else (case parse (file_text f) of
              None \<Rightarrow> (st, [Mcp_Error ''flow.jsonUploadContentErrorMessage''])
            | Some mcp \<Rightarrow>
                if \<not> McpConfigSchema isUrl mcp then (st, [Mcp_Error ''Incorrect data format''])
                else if file_text f \<noteq> [] \<and> \<not> lodash_isEmpty L mcp
                then (if mcp_ok ret then st\<lparr>importVisible := False\<rparr> else st, importMcpServer mcp ret)
                else (st, [Mcp_Error ''flow.jsonUploadContentErrorMessage''])))"

section \<open>Data sources\<close>

record data_source =
  source_id :: string
  source_name :: string
  source_kind :: string

definition categorizeDataBySource :: "data_source list \<Rightarrow> data_source list obj" where
  "categorizeDataBySource data =
     foldl (\<lambda>c item. let k = source_kind item in
       obj_put k ((case map_of c k of None \<Rightarrow> [] | Some xs \<Rightarrow> xs) @ [item]) c) [] data"

definition sourceTemplates :: "'info obj \<Rightarrow> data_source list option \<Rightarrow> (string \<times> 'info \<times> data_source list) list" where
  \<comment> \<open>the kinds that have a description, with it and their sources\<close>
  "sourceTemplates info lst =
     (let c = categorizeDataBySource (case lst of None \<Rightarrow> [] | Some xs \<Rightarrow> xs) in
      concat (map (\<lambda>k. case map_of info k of None \<Rightarrow> []
        | Some i \<Rightarrow> [(k, i, case map_of c k of None \<Rightarrow> [] | Some xs \<Rightarrow> xs)]) (keys c)))"

datatype source_effect = Source_Set "jsval obj" | Source_Delete string | Source_Toast string | Source_Refetch
  | Source_Resume string bool | Source_Rebuild string string | Detail_Refetch string

record source_dialog =
  adding_visible :: bool
  addLoading :: bool

definition handleAddOk :: "jsval obj \<Rightarrow> jsval \<Rightarrow> source_dialog \<Rightarrow> source_dialog \<times> source_effect list" where
  "handleAddOk data ret w =
     (if js_opt ret ''code'' = JNum (Fin 0)
      then (\<lparr>adding_visible = False, addLoading = False\<rparr>, [Source_Set data, Source_Refetch, Source_Toast ''message.operated''])
      else (w\<lparr>addLoading := False\<rparr>, [Source_Set data]))"

definition add_source_submit :: "jsval obj \<Rightarrow> source_dialog \<Rightarrow> source_dialog \<times> source_effect list" where
  \<comment> \<open>what the click on confirm does before the answer: the page gives the dialog a function that does not return the promise
    of \<open>handleAddOk\<close>, so that the dialog is hidden at once\<close>
  "add_source_submit data w = (\<lparr>adding_visible = False, addLoading = True\<rparr>, [Source_Set data])"

definition add_source :: "jsval obj \<Rightarrow> jsval \<Rightarrow> source_dialog \<Rightarrow> source_dialog \<times> source_effect list" where
  \<comment> \<open>the submission and the rest of \<open>handleAddOk\<close> after the answer\<close>
  "add_source data ret w = handleAddOk data ret (fst (add_source_submit data w))"

definition handleDeleteSource :: "string \<Rightarrow> jsval \<Rightarrow> source_effect list" where
  "handleDeleteSource i ret = Source_Delete i #
     (if js_opt ret ''code'' = JNum (Fin 0) then [Source_Toast ''message.deleted'', Source_Refetch] else [])"

definition handleResume :: "string \<Rightarrow> bool \<Rightarrow> jsval \<Rightarrow> source_effect list" where
  "handleResume i resume ret = Source_Resume i resume #
     (if js_opt ret ''code'' = JNum (Fin 0) then [Detail_Refetch i, Source_Toast ''message.operated''] else [])"

definition handleRebuild :: "string \<Rightarrow> string \<Rightarrow> jsval \<Rightarrow> source_effect list" where
  "handleRebuild kb_id sourceId ret = Source_Rebuild sourceId kb_id #
     (if js_opt ret ''code'' = JNum (Fin 0) then [Source_Toast ''message.operated''] else [])"

section \<open>What an import does\<close>

text \<open>
  An import of MCP servers sends the content of the file to the server exactly when the first file chosen is a JSON file
  that parses to an object of well-formed servers, and then sends it unchanged; every other file ends in one message and
  the dialog stays open. The dialog closes only when the server accepted the import.
\<close>

theorem mcp_import_outcome:
  assumes parse: "parse [] = None" and isEmpty: "\<And>ob. lodash_isEmpty L (JObj ob) \<longleftrightarrow> ob = []"
  shows "onImportOk L parse isUrl (f # fs) ret st =
     (if mime_type f \<noteq> ''application/json'' then (st, [Mcp_Error ''flow.jsonUploadTypeErrorMessage''])
      else case parse (file_text f) of
          None \<Rightarrow> (st, [Mcp_Error ''flow.jsonUploadContentErrorMessage''])
        | Some v \<Rightarrow> (if McpConfigSchema isUrl v
            then (st\<lparr>importVisible := importVisible st \<and> \<not> mcp_ok ret\<rparr>, importMcpServer v ret)
            else (st, [Mcp_Error ''Incorrect data format''])))"
proof -
  have nonempty: "file_text f \<noteq> []" if "parse (file_text f) = Some v" for v using parse that by auto
  have present: "\<not> lodash_isEmpty L v" if "McpConfigSchema isUrl v" for v
  proof (cases v)
    case (JObj ob)
    have "ob \<noteq> []" using that unfolding JObj McpConfigSchema_def by (cases ob) simp_all
    then show ?thesis by (simp add: JObj isEmpty)
  qed (use that in \<open>simp_all add: McpConfigSchema_def\<close>)
  show ?thesis
  proof (cases "parse (file_text f)")
    case (Some v)
    with nonempty have "file_text f \<noteq> []" by simp
    with Some present [of v] show ?thesis by (cases "mcp_ok ret") (simp_all add: onImportOk_def)
  qed (simp add: onImportOk_def)
qed

section \<open>The selection of servers\<close>

text \<open>The events of the page on the selection: a checkbox is clicked, all are, servers are deleted, the list is fetched.\<close>

datatype mcp_event = Click_Card string | Click_All bool | Bulk_Delete_Mcp jsval | Fetch_Mcp "mcp_server list"

fun mcp_do :: "mcp_event \<Rightarrow> mcp_page \<Rightarrow> mcp_page" where
  "mcp_do (Click_Card i) st = handleSelectChange i (i \<notin> set (selectedList st)) st"
| "mcp_do (Click_All b) st = handleSelectAll b st"
| "mcp_do (Bulk_Delete_Mcp ret) st = fst (bulk_delete_mcp ret st)"
| "mcp_do (Fetch_Mcp xs) st = st\<lparr>mcp_servers := xs\<rparr>"

fun listings :: "mcp_event list \<Rightarrow> mcp_server list list" where
  "listings [] = []"
| "listings (Fetch_Mcp xs # es) = xs # listings es"
| "listings (_ # es) = listings es"

theorem mcp_selection_distinct:
  assumes "distinct (selectedList st)" and "distinct (map mcp_id (mcp_servers st))"
    and "\<forall>xs \<in> set (listings es). distinct (map mcp_id xs)"
  shows "distinct (selectedList (fold mcp_do es st))"
  using assms
proof (induction es arbitrary: st)
  case (Cons e es)
  then show ?case by (cases e) (simp_all add: handleSelectChange_def handleSelectAll_def bulk_delete_mcp_def)
qed simp

text \<open>
  The deletion of the selected servers keeps them selected: the count stays, and an export or a second deletion asks for
  servers that are gone.
\<close>

theorem deleted_servers_stay_selected:
  assumes "st' = fold mcp_do [Bulk_Delete_Mcp ret, Fetch_Mcp (filter (\<lambda>m. mcp_id m \<notin> set (selectedList st)) (mcp_servers st))] st"
  shows "selectedList st' = selectedList st"
    and "hd (snd (bulk_export_mcp ret' st')) = Mcp_Export (selectedList st)"
    and "\<forall>m \<in> set (mcp_servers st'). mcp_id m \<notin> set (selectedList st')"
  using assms by (simp_all add: bulk_delete_mcp_def bulk_export_mcp_def handleExportMcpJson_def exportMcpServer_def)

section \<open>Editing\<close>

lemma mcp_form_values_get:
  "obj_get (mcp_form_values vals) ''variables'' = JObj [(''authorization_token'', obj_get vals ''authorization_token'')]"
  "obj_get (mcp_form_values vals) ''authorization_token'' = JUndef"
  "k \<in> {''name'', ''url'', ''server_type''} \<Longrightarrow> obj_get (mcp_form_values vals) k = obj_get vals k"
  by (auto simp: mcp_form_values_def obj_get_def)

text \<open>
  A server that is opened and saved again without typing its token anew is saved without one: the form is filled with the
  name, the kind and the URL only, and the variables sent have no other entry.
\<close>

theorem saving_again_drops_token:
  assumes "data = JObj ob" and "ob \<noteq> []" and "edit_id st = i" and "i \<noteq> []" and "isTriggeredBySaving d"
    and "vals = mcp_form (mcp_form_reset data d)"
  shows "\<exists>params. hd (snd (snd (mcp_dialog_ok vals ret d st))) = Mcp_Update params
     \<and> obj_get params ''variables'' = JObj [(''authorization_token'', JUndef)]"
proof -
  have "obj_get vals ''authorization_token'' = JUndef" using assms(1,2,6) by (simp add: mcp_form_reset_def)
  then show ?thesis using assms(3-5)
    by (simp add: mcp_dialog_ok_def edit_mcp_ok_def updateMcpServer_def mcp_form_values_get split: prod.splits)
qed

section \<open>Data sources by kind\<close>

lemma categorize_snoc:
  "categorizeDataBySource (xs @ [x]) = obj_put (source_kind x)
     ((case map_of (categorizeDataBySource xs) (source_kind x) of None \<Rightarrow> [] | Some ys \<Rightarrow> ys) @ [x]) (categorizeDataBySource xs)"
  by (simp add: categorizeDataBySource_def Let_def)

lemma categorize_exact:
  "map_of (categorizeDataBySource xs) k = (let ys = filter (\<lambda>x. source_kind x = k) xs in if ys = [] then None else Some ys)"
proof (induction xs arbitrary: k rule: rev_induct)
  case Nil
  show ?case by (simp add: categorizeDataBySource_def)
next
  case (snoc x xs)
  show ?case by (auto simp: categorize_snoc snoc.IH Let_def)
qed

lemma categorize_keys: "distinct (keys (categorizeDataBySource xs))"
proof (induction xs rule: rev_induct)
  case Nil
  show ?case by (simp add: categorizeDataBySource_def keys_def)
next
  case (snoc x xs)
  then show ?case by (simp add: categorize_snoc distinct_keys_obj_put)
qed

text \<open>
  The page of the data sources shows, for every kind that has a description and a source, one card with exactly the
  sources of that kind in the order of the list.
\<close>

theorem sources_grouped_exact:
  "(k, i, ys) \<in> set (sourceTemplates info (Some xs)) \<longleftrightarrow>
     map_of info k = Some i \<and> ys = filter (\<lambda>x. source_kind x = k) xs \<and> ys \<noteq> []"
  "distinct (map fst (sourceTemplates info (Some xs)))"
proof -
  let ?c = "categorizeDataBySource xs"
  have keys: "k \<in> set (keys ?c) \<longleftrightarrow> filter (\<lambda>x. source_kind x = k) xs \<noteq> []" for k
    using categorize_exact [of xs k] by (auto simp: keys_def Let_def domIff dom_map_of_conv_image_fst [symmetric] simp del: dom_map_of_conv_image_fst split: if_splits)
  have T: "sourceTemplates info (Some xs) = map (\<lambda>k. (k, the (map_of info k), filter (\<lambda>x. source_kind x = k) xs))
      (filter (\<lambda>k. map_of info k \<noteq> None) (keys ?c))"
  proof -
    have "concat (map (\<lambda>k. case map_of info k of None \<Rightarrow> [] | Some i \<Rightarrow> [(k, i, f k)]) ks)
        = map (\<lambda>k. (k, the (map_of info k), f k)) (filter (\<lambda>k. map_of info k \<noteq> None) ks)" for ks and f :: "string \<Rightarrow> data_source list"
      by (induction ks) auto
    moreover have "(case map_of ?c k of None \<Rightarrow> [] | Some ys \<Rightarrow> ys) = filter (\<lambda>x. source_kind x = k) xs" for k
      by (simp add: categorize_exact Let_def)
    ultimately show ?thesis by (simp add: sourceTemplates_def)
  qed
  show "(k, i, ys) \<in> set (sourceTemplates info (Some xs)) \<longleftrightarrow>
     map_of info k = Some i \<and> ys = filter (\<lambda>x. source_kind x = k) xs \<and> ys \<noteq> []"
    unfolding T using keys by auto
  show "distinct (map fst (sourceTemplates info (Some xs)))"
    unfolding T using categorize_keys by (simp add: comp_def)
qed

text \<open>A data source that the server refuses closes the dialog as an accepted one does, and its values are lost.\<close>

theorem refused_source_closes_dialog: "\<not> adding_visible (fst (add_source data ret w))"
  by (simp add: add_source_def add_source_submit_def handleAddOk_def)

end
