(* ===== verification/Spec2Isabelle.thy ===== *)
theory Spec2Isabelle
  imports Canvas_Claims Agent_Tools Dsl_Correct Add_Node Agent_Session Schema_Type_Editors Schema_Soundness
    Schema_Validation History Variable_Options Placeholder_Claims Metadata_Claims
    Chat_Page Explore_Session Run_Log Search_Page Request_Layer Form_Claims Chat_Text Dynamic_Form Dataset_Views Canvas_Views
    Json_Validator Ui_Widgets Files_Page Model_Settings Settings_Pages
begin

text \<open>
  Verification of the web client of \<open>rag_local_scan_flow\<close> (a RAGFlow fork): the TypeScript code under
  \<open>src/web/src\<close> that carries state and logic, as executable HOL functions, with what makes it correct.
  Paths below are relative to \<open>src/web/src\<close>.

  \<^bold>\<open>The program.\<close> An agent is drawn on a canvas: operators are nodes, edges connect their handles. The
  graph lives in one store (\<open>pages/agent/store.ts\<close>); hooks add, rename, delete and connect nodes, keep a
  history, and offer the outputs of upstream nodes to the forms. Saving turns the graph into the DSL that
  the server runs (\<open>pages/agent/utils.ts\<close>). Running an agent streams events into a chat
  (\<open>hooks/logic-hooks.ts\<close>, \<open>hooks/use-send-message.ts\<close>). Structured outputs are described with a JSON
  schema builder (\<open>components/jsonjoy-builder\<close>). The metadata of the documents of a dataset is edited in a
  table whose changes are sent as a list of operations (\<open>pages/dataset/components/metedata\<close>). Around it are the
  pages on which users chat, search and browse datasets, the widget that uploads files, and the two HTTP clients with
  which all of them reach the server (\<open>utils/request.ts\<close>, \<open>utils/next-request.ts\<close>).

  \<^bold>\<open>The language.\<close>
  \<^item> \<open>Js_Prelude\<close>: values (\<open>jsval\<close>), numbers with \<open>NaN\<close> and infinities over the rationals, the conversions
    between numbers and strings, objects as lists of keys and values in the order of JavaScript (array
    indices first), \<open>null\<close> and \<open>undefined\<close> (\<open>nullable\<close>), exceptions as values (\<open>'a res\<close>, a sum whose left
    side is the error), and the lemmas the components share.
  \<^item> \<open>Js_Json\<close>: \<open>JSON.stringify\<close>, sorting by text, maps and sets in insertion order. \<open>Js_Regex\<close>: regular
    expressions matched with derivatives, equal to their language.
  \<^item> \<open>Third_Party\<close>: lodash and the flow library as a record of functions, what is relied on of them as the
    locales \<open>lodash_api\<close> and \<open>xyflow_api\<close>, and an instance that satisfies both.

  \<^bold>\<open>The canvas.\<close>
  \<^item> \<open>Canvas_Types\<close>: operators, handles, nodes, edges, the state of the store. \<open>Canvas_Utils\<close> and
    \<open>Form_Data\<close>: the helpers of \<open>utils.ts\<close> (names, positions, categories, global variables).
  \<^item> \<open>Downstream\<close>: the recursive search of \<open>utils/filter-downstream-nodes.ts\<close> and the collection of
    \<open>utils/delete-node.ts\<close>. \<open>Graph_Store\<close>: every action of the store as a function on the state, and the
    agreement between the edges of a switch and its form. \<open>Store_Invariants\<close>: the actions as a step
    relation; reachable states are well formed; what deletion and duplication do. \<open>Agent_Tools\<close>: the tools
    of an agent. \<open>Canvas_Claims\<close>: properties of the helpers; \<open>setEdgesByNodeId\<close> refines the replacement of
    a node's outgoing edges.
  \<^item> \<open>Dsl_Builder\<close> and \<open>Dsl_Correct\<close>: from the graph to the components that are saved
    (\<open>buildDslComponentsByGraph\<close>, \<open>buildAgentTools\<close>, the transformations of the forms, \<open>buildDslData\<close>): which
    nodes become components, that upstream and downstream agree, that placeholders never reach the server.
  \<^item> \<open>Connection\<close>: \<open>isValidConnection\<close> of \<open>hooks.tsx\<close>; the search for cycles decides reachability, and valid
    connections keep the graph acyclic. \<open>Initial_Values\<close> and \<open>Add_Node\<close>: the initial form of every operator
    and \<open>hooks/use-add-node.ts\<close>; a new node keeps the graph well formed and can be saved.
  \<^item> \<open>Canvas_Hooks\<close> and \<open>Placeholder_Claims\<close>: \<open>use-before-delete.tsx\<close>, \<open>use-placeholder-manager.ts\<close>,
    \<open>use-connection-drag.ts\<close>, \<open>use-change-node-name.ts\<close>, copying and pasting. Deletions by the flow library
    take effect after the handler has returned and are kept as pending requests (locale \<open>flow_instance\<close>).
  \<^item> \<open>History\<close>: \<open>use-agent-history-manager.ts\<close>; the invariant of the history, undo and redo.
  \<^item> \<open>Variable_Options\<close>: \<open>utils/canvas-util.tsx\<close>, \<open>hooks/use-get-begin-query.tsx\<close>,
    \<open>hooks/use-build-structured-output.ts\<close>; the nodes whose outputs are offered are those upstream.
  \<^item> \<open>Agent_Forms\<close> and \<open>Form_Claims\<close>: the hooks under \<open>form\<close> that turn the form of a node into the values of its inputs
    and write them back (\<open>use-values.ts\<close>, \<open>use-watch-change.ts\<close>), the tools and servers of an agent, the editors inside
    forms. What a form shows and what it writes are the locale \<open>form_contract\<close>, interpreted on nine kinds of forms:
    opening a form changes nothing.
  \<^item> \<open>Canvas_Views\<close>: the handles of a switch, and the menu of a structured output, whose pruning hides nothing that can be
    chosen.

  \<^item> \<open>Dsl_Export\<close>: the file an agent is exported to and imported from (\<open>hooks/use-export-json.ts\<close>,
    \<open>pages/agents/use-import-json.ts\<close>); \<open>cloneDeepWith\<close> and \<open>pick\<close> of lodash are the locale \<open>clone_api\<close>. Tools lose their keys in
    the file, nodes do not; what is imported is what was exported.

  \<^bold>\<open>Running.\<close> \<open>Agent_Run\<close>: \<open>hooks/use-save-graph.ts\<close>, the drawers of the canvas, the test run of a pipeline with the polling of
  its trace (\<open>use-run-dataflow.ts\<close>, \<open>use-fetch-pipeline-log.ts\<close>) and its result. The run of an agent saves what was entered; a run that the
  server accepts is followed until its trace is complete. \<open>Run_Log\<close>: the timeline of nodes and tools (\<open>log-sheet\<close>).
  \<open>Explore_Session\<close>: the sessions of the explore page and the shared page, on top of \<open>Agent_Session\<close>; the first message
  creates one session and is sent in it.

  \<^bold>\<open>The chat.\<close> \<open>Chat_Messages\<close>: the operations on the message list. \<open>Chat_Stream\<close>: the two event streams; the
  reader is a list of results, and the loop either ends or is shown not to. \<open>Agent_Chat\<close>: the log of events per
  message (\<open>use-cache-chat-log.ts\<close>), the running nodes (\<open>use-node-loading.ts\<close>), references, uploads, and
  the effects that follow a run. \<open>Agent_Session\<close>: \<open>useSendAgentMessage\<close>, which composes them; its handlers and
  effects are the steps of \<open>chat_step\<close>, with an invariant of all reachable sessions and the result of a whole turn.
  \<open>Chat_Text\<close>: what is made of the text of an answer (\<open>utils/chat.ts\<close>, \<open>citation-utils.ts\<close>, \<open>text-direction.ts\<close>,
  \<open>components/markdown-content/reference-utils.ts\<close>): citation markers and runs of them, formulas, thoughts, direction.

  \<^bold>\<open>The schema builder.\<close> \<open>Json_Schema\<close>, \<open>Schema_Editor_Laws\<close>, \<open>Schema_Type_Editors\<close>: the editors; the interface
  of a map from names to a schema and a required flag is the locale \<open>field_editor\<close>, interpreted on the
  operations of \<open>lib/schema-editor.ts\<close>. \<open>Schema_Inference\<close> and \<open>Schema_Soundness\<close>: inference of a schema from a
  value, and that the value satisfies it. \<open>Schema_Validation\<close>: the checks on schemas (zod is the locale
  \<open>zod_api\<close>) and the tree of errors. \<open>Json_Validator\<close>: where in the text of a document an error lies.

  \<^bold>\<open>The metadata manager.\<close> \<open>Metadata\<close> and \<open>Metadata_Claims\<close>: the table, its operations, the dialog, and what the
  server (\<open>api/db/services/doc_metadata_service.py\<close>) makes of them.

  \<^bold>\<open>The pages.\<close>
  \<^item> \<open>File_Upload\<close>: \<open>components/file-upload.tsx\<close>, its store, admission, uploads whose progress is put off to an animation
    frame, drop zone and preview URLs. The events are the steps of \<open>upload_step\<close>, with an invariant of every store that
    is reached; which files are admitted; and what a late progress report does to a file that is complete.
  \<^item> \<open>Page_Lists\<close>: pagination in the URL, client-side search, row selection and the filters of lists
    (\<open>hooks/route-hook.ts\<close>, \<open>components/list-filter-bar\<close>): the pages partition the list, the search in nested filters
    keeps exactly the entries that match, and which selected values survive a check.
  \<^item> \<open>Chat_Page\<close>: \<open>pages/next-chats/hooks\<close>, which composes the message list, the stream and the upload widget. A turn
    of the chat as a whole, the creation of a conversation by its first message, regenerating, attached files.
  \<^item> \<open>Search_Page\<close>: \<open>pages/next-search/hooks.ts\<close>; what is asked for a question and which page of results.
  \<^item> \<open>Request_Layer\<close>: authorization, the cached list of models, the tenant parameters that requests get, and the
    interceptors of both clients; the text of a URL is encoded and decoded as the browser and the server do it.

  \<^item> \<open>Dynamic_Form\<close>: \<open>components/dynamic-form.tsx\<close>; schema, defaults and submitted values of a form that is described
    by data, with nested names.
  \<^item> \<open>Dataset_Views\<close> and \<open>Format_Utils\<close>: the timeline of a pipeline, which follows the components that \<open>Dsl_Builder\<close> saves,
    the groups of filters, the communities of the knowledge graph, the scan of a directory; sizes, durations and audio.
  \<^item> \<open>Ui_Widgets\<close>: toasts and their timers, the selection of several options, the values of global variables, operations
    on selected documents, the references of answers.
  \<^item> \<open>Files_Page\<close>: \<open>pages/files\<close> as a machine whose steps are \<open>files_run\<close>: while the list stays the same, an operation on the
    selection acts on the rows that are checked; when it changes, the row numbers stay and the files do not. The tree of
    folders (\<open>components/ui/async-tree-select.tsx\<close>) shows every loaded folder once; its depth of rendering is an argument, and
    one more than the depth of the folders is enough.
  \<^item> \<open>Model_Settings\<close>: \<open>hooks/use-llm-request.tsx\<close> and the dialogs of \<open>setting-model/hooks.tsx\<close>; what a selector of models
    offers, what adding and verifying a provider send and change.
  \<^item> \<open>Settings_Pages\<close>: the MCP servers and the data sources of \<open>pages/user-setting\<close>; selection, editing, import, grouping.

  \<^bold>\<open>Bounds.\<close> A recursion of the source that is not structural takes the depth of the call stack as an argument
  and yields a \<open>RangeError\<close> when it is used up. On graphs without cycles a depth of the number of edges plus
  two (for the cycle search: more than the number of nodes; for the timeline: its length) is enough, which is part of
  the claims; on a cycle of agents or of stages no depth is, which is a claim as well. The stream loop takes the number of rounds: one more than
  the number of chunks is enough when the stream ends. The history is limited to fifty entries by the code.

  \<^bold>\<open>Parameters.\<close> Random ids, translations, mouse positions, the model id and the time are arguments. Numbers are
  exact rationals: rounding of floating point does not occur in the modelled code beyond positions,
  timestamps and sizes in powers of a thousand.

  \<^bold>\<open>Time.\<close> A handler that waits for the server is a function of the answers, or one function per section between two
  waits; values its closure has captured are arguments. Effects of React run after the update that changes what they depend on.

  \<^bold>\<open>Not modelled.\<close> React components and their layout, translations, icons, the tables of services, the
  other widgets copied from component libraries, \<open>JSON.parse\<close> and ajv, the pages that only show what the server
  reports, and the other programs of the repository: the Python agent runtime, API, parsers and retrieval
  (except for the metadata update), the Go server, the C++ tokenizer, deployment and tests.
\<close>

end
